(* ===== verification/Prelude.thy ===== *)
theory Prelude
  imports Complex_Main "HOL-Library.Word" "HOL-Library.Multiset"
begin

text \<open>
  What every component of the development shares: the names of the machine integers and of
  simulation time, the errors of the C++ code as values, the conversions from floating point
  numbers to machine integers, \<open>std::map\<close> as an association list in key order, and the
  collections of simplification rules that the component theories fill.

  C++ values are read as follows. \<open>uint8_t\<close>, \<open>uint16_t\<close>, \<open>uint32_t\<close> and \<open>uint64\<close> are words of
  that width. \<open>int\<close> and \<open>long\<close> counters are \<open>int\<close>. A \<open>double\<close> is a \<open>real\<close>: the arithmetic the
  modelled code does on doubles is halving, doubling and multiplying by small constants.
  A \<open>simtime_t\<close> is an \<open>int\<close>, its raw 64-bit tick count.
\<close>

unbundle bit_operations_syntax

section \<open>Names for the machine types\<close>

type_synonym u8 = "8 word"
type_synonym u16 = "16 word"
type_synonym u32 = "32 word"
type_synonym u64 = "64 word"
type_synonym simtime = int

definition SIMTIME_SECOND :: simtime where
  "SIMTIME_SECOND = 1000000000000"

section \<open>Collections\<close>

named_theorems size_simps \<open>lengths and size fields of the modelled messages\<close>
named_theorems frame_simps \<open>fields an operation leaves as they were\<close>
named_theorems step_defs \<open>definitions unfolded to run one step of a component\<close>
named_theorems inv_intros \<open>preservation rules of component invariants\<close>

section \<open>Errors as values\<close>

text \<open>
  \<open>RuntimeError\<close> is a \<open>cRuntimeError\<close> thrown by the code or by \<open>error(...)\<close>; the string names
  the check that failed. The other constructors are the ways in which the C++ code leaves its
  defined behaviour: a dereferenced NULL pointer, a \<open>strcpy\<close> past the end of its buffer, a
  conversion of a double that its target type cannot hold, a read of a variable that was never
  set, a failed \<open>ASSERT\<close> or \<open>check_and_cast\<close>.
\<close>

datatype sim_error =
    RuntimeError string
  | NullDeref
  | BufferOverflow
  | UndefinedConversion
  | UninitRead
  | AssertFailed
  | BadCast

type_synonym 'a res = "sim_error + 'a"

fun bindR :: "'a res \<Rightarrow> ('a \<Rightarrow> 'b res) \<Rightarrow> 'b res" where
  "bindR (Inl e) f = Inl e"
| "bindR (Inr a) f = f a"

lemma bindR_Inr_iff: "bindR r f = Inr b \<longleftrightarrow> (\<exists>a. r = Inr a \<and> f a = Inr b)"
  by (cases r) auto

lemma bindR_Inl_iff:
  "bindR r f = Inl e \<longleftrightarrow> r = Inl e \<or> (\<exists>a. r = Inr a \<and> f a = Inl e)"
  by (cases r) auto

lemma bindR_InrE [elim]:
  assumes "bindR r f = Inr b"
  obtains a where "r = Inr a" and "f a = Inr b"
  using assms by (auto simp: bindR_Inr_iff)

section \<open>Conversions from double\<close>

text \<open>
  A C++ conversion from \<open>double\<close> to an integer type drops the fraction; where the truncated
  value does not fit the target type the behaviour is undefined, which is an error value here.
\<close>

definition trunc_real :: "real \<Rightarrow> int" where
  "trunc_real r = (if 0 \<le> r then \<lfloor>r\<rfloor> else \<lceil>r\<rceil>)"

definition to_unsigned :: "nat \<Rightarrow> real \<Rightarrow> int res" where
  "to_unsigned n r =
     (let t = trunc_real r in if 0 \<le> t \<and> t < 2 ^ n then Inr t else Inl UndefinedConversion)"

definition to_signed :: "nat \<Rightarrow> real \<Rightarrow> int res" where
  "to_signed n r =
     (let t = trunc_real r
      in if - (2 ^ (n - 1)) \<le> t \<and> t < 2 ^ (n - 1) then Inr t else Inl UndefinedConversion)"

lemma to_unsigned_Inr: "to_unsigned n r = Inr t \<longleftrightarrow> t = trunc_real r \<and> 0 \<le> t \<and> t < 2 ^ n"
  by (auto simp: to_unsigned_def Let_def)

lemma trunc_real_nonneg: "0 \<le> r \<Longrightarrow> trunc_real r = \<lfloor>r\<rfloor>"
  by (simp add: trunc_real_def)

lemma trunc_real_of_int [simp]: "trunc_real (real_of_int i) = i"
  by (simp add: trunc_real_def)

lemma trunc_real_numeral [simp]: "trunc_real (numeral n) = numeral n"
  by (simp add: trunc_real_def)

lemma trunc_real_0 [simp]: "trunc_real 0 = 0" and trunc_real_1 [simp]: "trunc_real 1 = 1"
  by (simp_all add: trunc_real_def)

lemma abs_trunc_real_le: "\<bar>r\<bar> \<le> real_of_int b \<Longrightarrow> \<bar>trunc_real r\<bar> \<le> b"
proof -
  assume a: "\<bar>r\<bar> \<le> real_of_int b"
  show ?thesis
  proof (cases "0 \<le> r")
    case True
    with a have "\<lfloor>r\<rfloor> \<le> b" and "0 \<le> \<lfloor>r\<rfloor>" by (simp_all add: floor_le_iff)
    with True show ?thesis by (simp add: trunc_real_def)
  next
    case False
    with a have "- b \<le> \<lceil>r\<rceil>" and "\<lceil>r\<rceil> \<le> 0" by (simp_all add: le_ceiling_iff ceiling_le_iff)
    with False show ?thesis by (simp add: trunc_real_def)
  qed
qed

section \<open>std::map as an association list in key order\<close>

type_synonym ('k, 'v) omap = "('k \<times> 'v) list"

definition om_wf :: "('k::linorder, 'v) omap \<Rightarrow> bool" where
  "om_wf m \<longleftrightarrow> sorted_wrt (<) (map fst m)"

fun om_put :: "'k::linorder \<Rightarrow> 'v \<Rightarrow> ('k, 'v) omap \<Rightarrow> ('k, 'v) omap" where
  "om_put k v [] = [(k, v)]"
| "om_put k v ((k', v') # m) =
     (if k < k' then (k, v) # (k', v') # m
      else if k = k' then (k, v) # m
      else (k', v') # om_put k v m)"

definition om_filter :: "('k \<Rightarrow> 'v \<Rightarrow> bool) \<Rightarrow> ('k, 'v) omap \<Rightarrow> ('k, 'v) omap" where
  "om_filter P m = filter (\<lambda>(k, v). P k v) m"

definition om_erase :: "'k \<Rightarrow> ('k, 'v) omap \<Rightarrow> ('k, 'v) omap" where
  "om_erase k m = om_filter (\<lambda>k' _. k' \<noteq> k) m"

definition om_map :: "('v \<Rightarrow> 'w) \<Rightarrow> ('k, 'v) omap \<Rightarrow> ('k, 'w) omap" where
  "om_map f m = map (\<lambda>(k, v). (k, f v)) m"

lemma om_wf_Nil [simp]: "om_wf []"
  by (simp add: om_wf_def)

lemma om_wf_Cons: "om_wf ((k, v) # m) \<longleftrightarrow> (\<forall>k' \<in> fst ` set m. k < k') \<and> om_wf m"
  by (auto simp: om_wf_def)

lemma om_wf_distinct: "om_wf m \<Longrightarrow> distinct (map fst m)"
  by (simp add: om_wf_def strict_sorted_iff)

lemma map_of_om_put [simp]: "map_of (om_put k v m) = (map_of m)(k \<mapsto> v)"
  by (induction k v m rule: om_put.induct) (auto simp: fun_eq_iff)

lemma keys_om_put [simp]: "fst ` set (om_put k v m) = insert k (fst ` set m)"
  by (induction k v m rule: om_put.induct) auto

lemma set_om_put_subset: "set (om_put k v m) \<subseteq> insert (k, v) (set m)"
  by (induction k v m rule: om_put.induct) auto

lemma om_wf_om_put [intro]: "om_wf m \<Longrightarrow> om_wf (om_put k v m)"
proof (induction k v m rule: om_put.induct)
  case (2 k v k' v' m)
  then show ?case by (fastforce simp: om_wf_Cons)
qed (simp add: om_wf_def)

lemma om_wf_om_filter [intro]: "om_wf m \<Longrightarrow> om_wf (om_filter P m)"
  by (induction m) (auto simp: om_filter_def om_wf_Cons)

lemma om_wf_om_erase [intro]: "om_wf m \<Longrightarrow> om_wf (om_erase k m)"
  by (auto simp: om_erase_def)

lemma om_wf_om_map [simp]: "om_wf (om_map f m) \<longleftrightarrow> om_wf m"
  by (simp add: om_wf_def om_map_def comp_def case_prod_unfold)

lemma map_of_om_map: "map_of (om_map f m) k = map_option f (map_of m k)"
  by (induction m) (auto simp: om_map_def)

lemma map_of_om_filter:
  "om_wf m \<Longrightarrow>
   map_of (om_filter P m) k = (case map_of m k of None \<Rightarrow> None | Some v \<Rightarrow> if P k v then Some v else None)"
proof (induction m)
  case (Cons p m)
  obtain k' v' where p: "p = (k', v')" by (cases p)
  have "k' \<notin> fst ` set m" and "om_wf m" using Cons.prems by (auto simp: p om_wf_Cons)
  then have "map_of m k' = None" by (simp add: map_of_eq_None_iff)
  with Cons.IH \<open>om_wf m\<close> show ?case by (auto simp: p om_filter_def)
qed (simp add: om_filter_def)

lemma map_of_om_erase: "om_wf m \<Longrightarrow> map_of (om_erase k m) = (map_of m)(k := None)"
  by (auto simp: om_erase_def map_of_om_filter fun_eq_iff split: option.split)

lemma om_wf_map_of_mem: "om_wf m \<Longrightarrow> (k, v) \<in> set m \<longleftrightarrow> map_of m k = Some v"
  by (auto dest: map_of_SomeD intro: map_of_is_SomeI om_wf_distinct)

section \<open>Lists and words\<close>

lemma sum_list_const [simp]: "sum_list (map (\<lambda>_. c) xs) = of_nat (length xs) * (c :: int)"
  by (induction xs) (auto simp: algebra_simps)

lemma sum_list_mset_empty_iff:
  "sum_list (map f xs) = ({#} :: 'a multiset) \<longleftrightarrow> (\<forall>x. x \<in> set xs \<longrightarrow> f x = {#})"
  by (induction xs) auto

lemma unat_u8_less: "unat (b :: u8) < 256"
  using unsigned_less [of b, where 'a = nat] by simp

lemma unat_u16_less: "unat (w :: u16) < 65536"
  using unsigned_less [of w, where 'a = nat] by simp

lemma uint_of_int_small: "0 \<le> i \<Longrightarrow> i < 2 ^ LENGTH('a::len) \<Longrightarrow> uint (word_of_int i :: 'a word) = i"
  by (simp add: uint_word_of_int)

end
