(* ===== verification/MACAddress.thy ===== *)
theory MACAddress
  imports Prelude
begin

text \<open>
  \<open>linklayer/contract/MACAddress\<close>: the 48-bit IEEE 802 address kept in a \<open>uint64\<close>, its byte
  access, the parser of its textual form, the printer, the comparison used as the key order of
  the switch's address table, and the generators of automatic and multicast addresses.
\<close>

type_synonym mac_addr = u64

definition MAC_ADDRESS_MASK :: u64 where
  "MAC_ADDRESS_MASK = 0xffffffffffff"

definition UNSPECIFIED_ADDRESS :: mac_addr where
  "UNSPECIFIED_ADDRESS = 0"

definition BROADCAST_ADDRESS :: mac_addr where
  "BROADCAST_ADDRESS = MAC_ADDRESS_MASK"

definition MULTICAST_PAUSE_ADDRESS :: mac_addr where
  "MULTICAST_PAUSE_ADDRESS = 0x0180C2000001"

definition STP_MULTICAST_ADDRESS :: mac_addr where
  "STP_MULTICAST_ADDRESS = 0x0180C2000000"

section \<open>Bytes of an address\<close>

text \<open>The shift of byte \<open>k\<close>, and the byte access without the range check of the code.\<close>

definition byte_offset :: "nat \<Rightarrow> nat" where
  "byte_offset k = (6 - k - 1) * 8"

definition mac_byte :: "mac_addr \<Rightarrow> nat \<Rightarrow> u8" where
  "mac_byte a k = ucast (drop_bit (byte_offset k) a AND 0xff)"

definition mac_set_byte :: "mac_addr \<Rightarrow> nat \<Rightarrow> u8 \<Rightarrow> mac_addr" where
  "mac_set_byte a k b =
     (a AND NOT (push_bit (byte_offset k) 0xff)) OR push_bit (byte_offset k) (ucast b)"

definition getAddressByte :: "mac_addr \<Rightarrow> nat \<Rightarrow> u8 res" where
  "getAddressByte a k =
     (if 6 \<le> k then Inl (RuntimeError ''index'') else Inr (mac_byte a k))"

definition setAddressByte :: "mac_addr \<Rightarrow> nat \<Rightarrow> u8 \<Rightarrow> mac_addr res" where
  "setAddressByte a k b =
     (if 6 \<le> k then Inl (RuntimeError ''index'') else Inr (mac_set_byte a k b))"

definition getAddressBytes :: "mac_addr \<Rightarrow> u8 list" where
  "getAddressBytes a = map (mac_byte a) [0..<6]"

definition setAddressBytes :: "u8 list \<Rightarrow> mac_addr" where
  "setAddressBytes bs = fold (\<lambda>i a. mac_set_byte a i (bs ! i)) [0..<6] 0"

definition of_uint64 :: "u64 \<Rightarrow> mac_addr" where
  "of_uint64 bits = bits AND MAC_ADDRESS_MASK"

definition isBroadcast :: "mac_addr \<Rightarrow> bool" where
  "isBroadcast a \<longleftrightarrow> a = MAC_ADDRESS_MASK"

definition isMulticast :: "mac_addr \<Rightarrow> bool" where
  "isMulticast a \<longleftrightarrow> mac_byte a 0 AND 1 \<noteq> 0"

definition isUnspecified :: "mac_addr \<Rightarrow> bool" where
  "isUnspecified a \<longleftrightarrow> a = 0"

definition compareTo :: "mac_addr \<Rightarrow> mac_addr \<Rightarrow> int" where
  "compareTo a b = (if a < b then -1 else if a = b then 0 else 1)"

section \<open>Parsing\<close>

text \<open>The character classes of \<open>ctype.h\<close> in the C locale.\<close>

definition c_isdigit :: "char \<Rightarrow> bool" where
  "c_isdigit c \<longleftrightarrow> 48 \<le> (of_char c :: nat) \<and> of_char c \<le> (57 :: nat)"

definition c_islower :: "char \<Rightarrow> bool" where
  "c_islower c \<longleftrightarrow> 97 \<le> (of_char c :: nat) \<and> of_char c \<le> (122 :: nat)"

definition c_isxdigit :: "char \<Rightarrow> bool" where
  "c_isxdigit c \<longleftrightarrow> c_isdigit c
     \<or> (97 \<le> (of_char c :: nat) \<and> of_char c \<le> (102 :: nat))
     \<or> (65 \<le> (of_char c :: nat) \<and> of_char c \<le> (70 :: nat))"

definition hex_value :: "char \<Rightarrow> u8" where
  "hex_value c =
     (if c_isdigit c then of_nat (of_char c) - 48
      else if c_islower c then of_nat (of_char c) - 97 + 10
      else of_nat (of_char c) - 65 + 10)"

text \<open>
  The syntax check counts the hex digits and rejects any other character than space, colon and
  hyphen; \<open>None\<close> is the early \<open>return false\<close>.
\<close>

fun count_hex_digits :: "nat \<Rightarrow> string \<Rightarrow> nat option" where
  "count_hex_digits n [] = Some n"
| "count_hex_digits n (c # s) =
     (if c_isxdigit c then count_hex_digits (Suc n) s
      else if c \<noteq> CHR '' '' \<and> c \<noteq> CHR '':'' \<and> c \<noteq> CHR ''-'' then None
      else count_hex_digits n s)"

abbreviation skip_separators :: "string \<Rightarrow> string" where
  "skip_separators s \<equiv> dropWhile (\<lambda>c. \<not> c_isxdigit c) s"

fun parse_bytes :: "nat list \<Rightarrow> string \<Rightarrow> mac_addr \<Rightarrow> mac_addr" where
  "parse_bytes [] s a = a"
| "parse_bytes (pos # ps) s a =
     (case skip_separators s of
        [] \<Rightarrow> parse_bytes ps [] (mac_set_byte a pos 0)
      | c # s1 \<Rightarrow>
          (case skip_separators s1 of
             [] \<Rightarrow> parse_bytes ps [] (mac_set_byte a pos 0)
           | d # s2 \<Rightarrow>
               parse_bytes ps s2 (mac_set_byte a pos (push_bit 4 (hex_value c) + hex_value d))))"

text \<open>The result is the return value and the address object after the call.\<close>

definition tryParse :: "mac_addr \<Rightarrow> string \<Rightarrow> bool \<times> mac_addr" where
  "tryParse old hexstr =
     (if count_hex_digits 0 hexstr \<noteq> Some (2 * 6) then (False, old)
      else (True, parse_bytes [0..<6] hexstr 0))"

definition setAddress :: "mac_addr \<Rightarrow> string \<Rightarrow> mac_addr res" where
  "setAddress old hexstr =
     (let (ok, a) = tryParse old hexstr in if ok then Inr a else Inl (RuntimeError ''address syntax''))"

section \<open>Printing\<close>

definition hex_digit :: "nat \<Rightarrow> char" where
  "hex_digit d = (if d < 10 then char_of (48 + d) else char_of (65 + (d - 10)))"

definition hex_byte :: "u8 \<Rightarrow> string" where
  "hex_byte b = [hex_digit (unat b div 16), hex_digit (unat b mod 16)]"

text \<open>Each byte is printed with \<open>%2.2X-\<close>; the last hyphen is overwritten by the terminator.\<close>

definition mac_str :: "mac_addr \<Rightarrow> string" where
  "mac_str a = butlast (concat (map (\<lambda>i. hex_byte (mac_byte a i) @ ''-'') [0..<6]))"

section \<open>Interface identifiers, automatic and multicast addresses\<close>

text \<open>The pair is the \<open>(low, normal)\<close> words of the \<open>InterfaceToken\<close> of length 64.\<close>

definition formInterfaceIdentifier :: "mac_addr \<Rightarrow> u32 \<times> u32" where
  "formInterfaceIdentifier a =
     (let high = (ucast ((drop_bit 16 a) OR 0xff) :: u32) XOR 0x02000000;
          low = (push_bit 24 (0xfe :: u32)) OR ucast (a AND 0xffffff)
      in (low, high))"

text \<open>The counter is the class variable \<open>autoAddressCtr\<close>, an \<open>unsigned int\<close>.\<close>

definition generateAutoAddress :: "u32 \<Rightarrow> u32 \<times> mac_addr" where
  "generateAutoAddress ctr =
     (let ctr' = ctr + 1 in (ctr', of_uint64 (0x0AAA00000000 + ucast (ctr' AND 0xffffffff))))"

definition ip_isMulticast :: "u32 \<Rightarrow> bool" where
  "ip_isMulticast ip \<longleftrightarrow> ip AND 0xF0000000 = 0xE0000000"

definition ip_getDByte :: "u32 \<Rightarrow> nat \<Rightarrow> u8" where
  "ip_getDByte ip i = ucast (drop_bit ((3 - i) * 8) ip AND 0xff)"

definition makeMulticastAddress :: "u32 \<Rightarrow> mac_addr res" where
  "makeMulticastAddress ip =
     (if \<not> ip_isMulticast ip then Inl AssertFailed
      else Inr (let a0 = mac_set_byte 0 0 0x01;
                    a1 = mac_set_byte a0 1 0x00;
                    a2 = mac_set_byte a1 2 0x5e;
                    a3 = mac_set_byte a2 3 (ip_getDByte ip 1 AND 0x7f);
                    a4 = mac_set_byte a3 4 (ip_getDByte ip 2)
                in mac_set_byte a4 5 (ip_getDByte ip 3)))"

section \<open>Facts about bytes\<close>

lemma bit_255_int: "bit (255 :: int) n \<longleftrightarrow> n < 8"
proof -
  have "(255 :: int) = mask 8" by (simp add: mask_eq_exp_minus_1)
  then show ?thesis by (simp only: bit_mask_iff) auto
qed

lemma bit_mac_byte: "k < 6 \<Longrightarrow> bit (mac_byte a k) n \<longleftrightarrow> n < 8 \<and> bit a (byte_offset k + n)"
  by (auto simp: mac_byte_def bit_ucast_iff bit_and_iff bit_drop_bit_eq bit_255_int add.commute)

lemma bit_mac_set_byte:
  "k < 6 \<Longrightarrow> bit (mac_set_byte a k b) n \<longleftrightarrow>
     (if byte_offset k \<le> n \<and> n < byte_offset k + 8 then bit b (n - byte_offset k) else bit a n)"
  by (auto simp: mac_set_byte_def bit_or_iff bit_and_iff bit_not_iff bit_push_bit_iff
      bit_ucast_iff bit_255_int byte_offset_def dest: bit_imp_le_length)

definition mac_valid :: "mac_addr \<Rightarrow> bool" where
  "mac_valid a \<longleftrightarrow> a AND MAC_ADDRESS_MASK = a"

lemma MAC_ADDRESS_MASK_mask: "MAC_ADDRESS_MASK = mask 48"
  by (simp add: MAC_ADDRESS_MASK_def mask_eq_exp_minus_1)

lemma mac_valid_iff: "mac_valid a \<longleftrightarrow> (\<forall>n\<ge>48. \<not> bit a n)"
proof
  assume "mac_valid a"
  then have "a AND mask 48 = a" by (simp add: mac_valid_def MAC_ADDRESS_MASK_mask)
  then have "bit a n \<Longrightarrow> n < 48" for n by (metis bit_and_iff bit_mask_iff)
  then show "\<forall>n\<ge>48. \<not> bit a n" by (meson not_less)
next
  assume "\<forall>n\<ge>48. \<not> bit a n"
  then have "a AND mask 48 = a"
    by (intro bit_eqI) (metis bit_and_iff bit_mask_iff bit_imp_le_length not_less)
  then show "mac_valid a" by (simp add: mac_valid_def MAC_ADDRESS_MASK_mask)
qed

lemma mac_valid_set_byte [intro]: "k < 6 \<Longrightarrow> mac_valid a \<Longrightarrow> mac_valid (mac_set_byte a k b)"
  by (auto simp: mac_valid_iff bit_mac_set_byte byte_offset_def)

lemma mac_valid_0 [simp]: "mac_valid 0"
  by (simp add: mac_valid_iff)

lemma mac_byte_mac_set_byte:
  assumes "j < 6" and "k < 6"
  shows "mac_byte (mac_set_byte a j b) k = (if j = k then b else mac_byte a k)"
proof (rule bit_eqI)
  fix n
  have "byte_offset j \<le> byte_offset k + n \<and> byte_offset k + n < byte_offset j + 8 \<longleftrightarrow> j = k" if "n < 8"
    using assms that by (auto simp: byte_offset_def)
  then show "bit (mac_byte (mac_set_byte a j b) k) n = bit (if j = k then b else mac_byte a k) n"
    using assms by (auto simp: bit_mac_byte bit_mac_set_byte dest: bit_imp_le_length)
qed

lemma mac_eqI:
  assumes "mac_valid a" and "mac_valid b" and eq: "\<And>k. k < 6 \<Longrightarrow> mac_byte a k = mac_byte b k"
  shows "a = b"
proof (rule bit_eqI)
  fix n
  show "bit a n = bit b n"
  proof (cases "n < 48")
    case True
    define k where "k = 5 - n div 8"
    have "k < 6" and n: "n = byte_offset k + n mod 8"
      using True by (auto simp: k_def byte_offset_def)
    have "bit (mac_byte a k) (n mod 8) = bit (mac_byte b k) (n mod 8)"
      using eq [OF \<open>k < 6\<close>] by simp
    then show ?thesis using \<open>k < 6\<close> n by (simp add: bit_mac_byte)
  next
    case False
    with assms show ?thesis by (simp add: mac_valid_iff)
  qed
qed

lemma six_upt: "[0..<6] = [0, 1, 2, 3, 4, 5 :: nat]"
  by (simp add: upt_rec)

lemma less_6_cases: "k < 6 \<Longrightarrow> k = 0 \<or> k = 1 \<or> k = 2 \<or> k = 3 \<or> k = 4 \<or> k = (5 :: nat)"
  by arith

text \<open>Writing the six bytes of an address into any address gives that address back.\<close>

lemma mac_valid_rebuild:
  assumes "mac_valid a"
  shows "fold (\<lambda>i x. mac_set_byte x i (mac_byte a i)) [0..<6] 0 = a"
proof (rule mac_eqI)
  show "mac_valid (fold (\<lambda>i x. mac_set_byte x i (mac_byte a i)) [0..<6] 0)"
    unfolding six_upt by (auto intro!: mac_valid_set_byte)
  show "mac_byte (fold (\<lambda>i x. mac_set_byte x i (mac_byte a i)) [0..<6] 0) k = mac_byte a k" if "k < 6" for k
    using less_6_cases [OF that] unfolding six_upt by (auto simp: mac_byte_mac_set_byte)
qed (rule assms)

section \<open>Facts about the textual form\<close>

lemma less_16_cases:
  "(d::nat) < 16 \<Longrightarrow> d \<in> {0, 1, 2, 3, 4, 5, 6, 7, 8, 9, 10, 11, 12, 13, 14, 15}"
  by (simp only: insert_iff empty_iff) arith

lemma of_char_hex_digit: "d < 16 \<Longrightarrow> of_char (hex_digit d) = (if d < 10 then 48 + d else 55 + d)"
  by (simp add: hex_digit_def)

lemma c_isxdigit_hex_digit: "d < 16 \<Longrightarrow> c_isxdigit (hex_digit d)"
  by (auto simp: c_isxdigit_def c_isdigit_def of_char_hex_digit)

lemma hex_value_hex_digit: "d < 16 \<Longrightarrow> hex_value (hex_digit d) = of_nat d"
  by (auto dest!: less_16_cases simp: hex_value_def c_isdigit_def c_islower_def of_char_hex_digit)

lemma hex_nibbles:
  "push_bit 4 (hex_value (hex_digit (unat b div 16))) + hex_value (hex_digit (unat b mod 16)) = (b :: u8)"
proof -
  let ?q = "unat b div 16" and ?r = "unat b mod 16"
  have "?q < 16" and "?r < 16" using unat_u8_less [of b] by simp_all
  then have "push_bit 4 (hex_value (hex_digit ?q)) + hex_value (hex_digit ?r)
      = of_nat ?q * 16 + (of_nat ?r :: u8)"
    by (simp add: hex_value_hex_digit push_bit_eq_mult)
  also have "\<dots> = of_nat (?q * 16 + ?r)" by (simp only: of_nat_add of_nat_mult of_nat_numeral)
  also have "\<dots> = b" by (simp only: div_mult_mod_eq) simp
  finally show ?thesis .
qed

lemma parse_bytes_hex_byte:
  "parse_bytes (p # ps) (hex_byte b @ s) a = parse_bytes ps s (mac_set_byte a p b)"
  "parse_bytes (p # ps) (CHR ''-'' # hex_byte b @ s) a = parse_bytes ps s (mac_set_byte a p b)"
proof -
  have u: "unat b div 16 < 16" "unat b mod 16 < 16"
    using unat_u8_less [of b] by simp_all
  have m: "\<not> c_isxdigit (CHR ''-'')" by (simp add: c_isxdigit_def c_isdigit_def)
  show "parse_bytes (p # ps) (hex_byte b @ s) a = parse_bytes ps s (mac_set_byte a p b)"
    and "parse_bytes (p # ps) (CHR ''-'' # hex_byte b @ s) a = parse_bytes ps s (mac_set_byte a p b)"
    using u m by (simp_all add: hex_byte_def c_isxdigit_hex_digit hex_nibbles)
qed

lemma count_hex_digits_hex_byte:
  "count_hex_digits n (hex_byte b @ s) = count_hex_digits (n + 2) s"
  "count_hex_digits n (CHR ''-'' # s) = count_hex_digits n s"
proof -
  have u: "unat b div 16 < 16" "unat b mod 16 < 16"
    using unat_u8_less [of b] by simp_all
  then show "count_hex_digits n (hex_byte b @ s) = count_hex_digits (n + 2) s"
    by (simp add: hex_byte_def c_isxdigit_hex_digit)
  show "count_hex_digits n (CHR ''-'' # s) = count_hex_digits n s"
    by (simp add: c_isxdigit_def c_isdigit_def)
qed

lemma mac_str_eq:
  "mac_str a = hex_byte (mac_byte a 0) @ CHR ''-'' # hex_byte (mac_byte a 1) @ CHR ''-''
     # hex_byte (mac_byte a 2) @ CHR ''-'' # hex_byte (mac_byte a 3) @ CHR ''-''
     # hex_byte (mac_byte a 4) @ CHR ''-'' # hex_byte (mac_byte a 5) @ []"
  by (simp add: mac_str_def six_upt butlast_append hex_byte_def)

lemma count_hex_digits_mono: "count_hex_digits n s = Some m \<Longrightarrow> n \<le> m"
  by (induction n s rule: count_hex_digits.induct) (auto split: if_splits)

lemma count_hex_digits_eq:
  "count_hex_digits n s =
     (if \<forall>c\<in>set s. c_isxdigit c \<or> c \<in> {CHR '' '', CHR '':'', CHR ''-''}
      then Some (n + length (filter c_isxdigit s)) else None)"
  by (induction n s rule: count_hex_digits.induct) auto

lemma mac_valid_parse_bytes: "set ps \<subseteq> {..<6} \<Longrightarrow> mac_valid a \<Longrightarrow> mac_valid (parse_bytes ps s a)"
proof (induction ps arbitrary: s a)
  case (Cons p ps)
  then have "mac_valid (parse_bytes ps s' (mac_set_byte a p b))" for s' b
    by (intro Cons.IH mac_valid_set_byte) auto
  then show ?case by (simp split: list.split)
qed simp

text \<open>Separators do not matter: parsing reads the sequence of the hex digits only.\<close>

lemma filter_skip_separators:
  "filter c_isxdigit s =
     (case skip_separators s of [] \<Rightarrow> [] | c # s1 \<Rightarrow> c # filter c_isxdigit s1)"
  by (induction s) auto

lemma skip_separators_filter: "skip_separators (filter c_isxdigit s) = filter c_isxdigit s"
  by (induction s) auto

lemma parse_bytes_filter: "parse_bytes ps s a = parse_bytes ps (filter c_isxdigit s) a"
proof (induction ps arbitrary: s a)
  case (Cons p ps)
  show ?case
  proof (cases "skip_separators s")
    case Nil
    then have "filter c_isxdigit s = []" by (simp only: filter_skip_separators [of s] list.case)
    with Nil show ?thesis by (simp del: dropWhile_eq_Nil_conv)
  next
    case (Cons c s1)
    then have f: "filter c_isxdigit s = c # filter c_isxdigit s1"
      by (simp add: filter_skip_separators [of s])
    then have "c \<in> set (filter c_isxdigit s)" by (simp only: f list.set_intros)
    then have c: "c_isxdigit c" by simp
    show ?thesis
    proof (cases "skip_separators s1")
      case Nil
      then have "filter c_isxdigit s1 = []" by (simp only: filter_skip_separators [of s1] list.case)
      with Nil Cons f c show ?thesis by (simp del: dropWhile_eq_Nil_conv)
    next
      fix d s2
      assume s2: "skip_separators s1 = d # s2"
      then have f1: "filter c_isxdigit s1 = d # filter c_isxdigit s2"
        by (simp add: filter_skip_separators [of s1])
      then have "d \<in> set (filter c_isxdigit s1)" by (simp only: f1 list.set_intros)
      then have "c_isxdigit d" by simp
      with s2 f1 Cons f c show ?thesis
        using Cons.IH [of s2] by simp
    qed
  qed
qed simp

lemma length_12_cases:
  assumes "length xs = 12"
  obtains a b c d e f g h i j k l where "xs = [a, b, c, d, e, f, g, h, i, j, k, l]"
  using assms by (auto simp: numeral_eq_Suc length_Suc_conv)

lemma mac_byte_parse_bytes:
  assumes "length (filter c_isxdigit s) = 12" and "k < 6"
  shows "mac_byte (parse_bytes [0..<6] s 0) k =
    push_bit 4 (hex_value (filter c_isxdigit s ! (2 * k)))
      + hex_value (filter c_isxdigit s ! (2 * k + 1))"
proof -
  obtain d0 d1 d2 d3 d4 d5 d6 d7 d8 d9 d10 d11
    where ds: "filter c_isxdigit s = [d0, d1, d2, d3, d4, d5, d6, d7, d8, d9, d10, d11]"
    using assms(1) by (rule length_12_cases)
  have x: "c_isxdigit d" if "d \<in> {d0, d1, d2, d3, d4, d5, d6, d7, d8, d9, d10, d11}" for d
  proof -
    have "d \<in> set (filter c_isxdigit s)" using that by (simp only: ds) auto
    then show ?thesis by simp
  qed
  have "parse_bytes [0..<6] s 0 = parse_bytes [0..<6] (filter c_isxdigit s) 0"
    by (rule parse_bytes_filter)
  also have "\<dots> = fold (\<lambda>i a. mac_set_byte a i
      (push_bit 4 (hex_value (filter c_isxdigit s ! (2 * i)))
        + hex_value (filter c_isxdigit s ! (2 * i + 1)))) [0..<6] 0"
    unfolding six_upt ds using x by simp
  finally show ?thesis
    using less_6_cases [OF assms(2)] unfolding six_upt by (auto simp: mac_byte_mac_set_byte)
qed

lemma uint_auto_address:
  "uint (0x0AAA00000000 + ucast ((c :: u32) AND 0xffffffff) :: u64) = 0x0AAA00000000 + uint c"
proof -
  have "(0xffffffff :: u32) = mask 32" by (simp add: mask_eq_exp_minus_1)
  then have "c AND 0xffffffff = c"
    using take_bit_length_eq [of c] by (simp add: take_bit_eq_mask del: word_and_max)
  moreover have "uint c < 2 ^ 32" using uint_lt2p [of c] by simp
  ultimately show ?thesis
    by (simp add: uint_word_ariths unsigned_ucast_eq take_bit_eq_mod)
qed

lemma auto_address_eq:
  "snd (generateAutoAddress c) = 0x0AAA00000000 + ucast ((c + 1) AND 0xffffffff)"
  and uint_generateAutoAddress:
  "uint (snd (generateAutoAddress c)) = 0x0AAA00000000 + uint (c + 1)"
proof -
  let ?x = "0x0AAA00000000 + ucast ((c + 1) AND 0xffffffff) :: u64"
  have b: "uint (c + 1) < 2 ^ 32" using uint_lt2p [of "c + 1"] by simp
  have "uint ?x mod 2 ^ 48 = uint ?x" using b by (subst (1 2) uint_auto_address) simp
  then have "?x AND mask 48 = ?x" by (simp only: and_mask_mod_2p) simp
  then show e: "snd (generateAutoAddress c) = ?x"
    by (simp only: generateAutoAddress_def Let_def snd_conv of_uint64_def MAC_ADDRESS_MASK_mask)
  show "uint (snd (generateAutoAddress c)) = 0x0AAA00000000 + uint (c + 1)"
    unfolding e by (rule uint_auto_address)
qed

lemma isMulticast_bit: "isMulticast a \<longleftrightarrow> bit a 40"
proof -
  have "mac_byte a 0 AND 1 \<noteq> 0 \<longleftrightarrow> bit (mac_byte a 0) 0"
    by (simp add: bit_0 and_one_eq even_iff_mod_2_eq_zero)
  then show ?thesis by (simp add: isMulticast_def bit_mac_byte byte_offset_def)
qed

section \<open>Properties\<close>

text \<open>
  Parsing the printed form of an address gives the address back, whatever the object held
  before: \<open>tryParse\<close> inverts \<open>str\<close> on every address built from a 64-bit integer.
\<close>

theorem mac_str_tryParse: "tryParse old (mac_str (of_uint64 bits)) = (True, of_uint64 bits)"
proof -
  let ?a = "of_uint64 bits"
  have v: "mac_valid ?a" by (simp add: mac_valid_def of_uint64_def)
  have "count_hex_digits 0 (mac_str ?a) = Some (2 * 6)"
    unfolding mac_str_eq count_hex_digits_hex_byte by simp
  moreover have "parse_bytes [0..<6] (mac_str ?a) 0 = fold (\<lambda>i x. mac_set_byte x i (mac_byte ?a i)) [0..<6] 0"
    unfolding six_upt mac_str_eq parse_bytes_hex_byte by simp
  ultimately show ?thesis by (simp add: tryParse_def mac_valid_rebuild [OF v])
qed

text \<open>
  \<open>tryParse\<close> accepts exactly the strings of twelve hex digits with spaces, colons and
  hyphens anywhere between them. On success byte \<open>k\<close> of the address is the digit pair \<open>k\<close>,
  separators ignored; on failure the object keeps its old value.
\<close>

theorem tryParse_spec:
  "let digits = filter c_isxdigit s;
       ok = ((\<forall>c. c \<in> set s \<longrightarrow> c_isxdigit c \<or> c \<in> {CHR '' '', CHR '':'', CHR ''-''})
             \<and> length digits = 12);
       (r, a) = tryParse old s
   in r = ok \<and> (r \<longrightarrow> mac_valid a \<and> getAddressBytes a =
         map (\<lambda>k. push_bit 4 (hex_value (digits ! (2 * k))) + hex_value (digits ! (2 * k + 1))) [0..<6])
      \<and> (\<not> r \<longrightarrow> a = old)"
proof -
  have "mac_valid (parse_bytes [0..<6] s 0)" by (rule mac_valid_parse_bytes) auto
  moreover have "map (mac_byte (parse_bytes [0..<6] s 0)) [0..<6] =
      map (\<lambda>k. push_bit 4 (hex_value (filter c_isxdigit s ! (2 * k)))
                + hex_value (filter c_isxdigit s ! (2 * k + 1))) [0..<6]"
    if "length (filter c_isxdigit s) = 12"
    using mac_byte_parse_bytes [OF that] by (intro map_cong) auto
  ultimately show ?thesis
    by (simp add: tryParse_def count_hex_digits_eq getAddressBytes_def Let_def Ball_def)
qed

lemma tryParse_spec_witness:
  "tryParse 0 ''01:0c-CD 010001'' = (True, 0x010CCD010001)
   \<and> getAddressBytes 0x010CCD010001 = [0x01, 0x0c, 0xcd, 0x01, 0x00, 0x01]"
proof -
  let ?s = "''01:0c-CD 010001''"
  have t: "tryParse 0 ?s = (True, 0x010CCD010001)" by code_simp
  have "getAddressBytes 0x010CCD010001 =
      map (\<lambda>k. push_bit 4 (hex_value (filter c_isxdigit ?s ! (2 * k)))
                + hex_value (filter c_isxdigit ?s ! (2 * k + 1))) [0..<6]"
    using tryParse_spec [of ?s 0] unfolding t Let_def prod.case by blast
  also have "\<dots> = [0x01, 0x0c, 0xcd, 0x01, 0x00, 0x01]" by code_simp
  finally show ?thesis using t by blast
qed

text \<open>
  Automatic addresses never clash: different counter values give different addresses, and
  none of them is a multicast, the broadcast or the unspecified address.
\<close>

theorem generateAutoAddress_unique:
  "(snd (generateAutoAddress c) = snd (generateAutoAddress d) \<longleftrightarrow> c = d)
   \<and> \<not> isMulticast (snd (generateAutoAddress c)) \<and> \<not> isBroadcast (snd (generateAutoAddress c))
   \<and> \<not> isUnspecified (snd (generateAutoAddress c)) \<and> mac_valid (snd (generateAutoAddress c))"
proof -
  let ?a = "snd (generateAutoAddress c)" and ?b = "snd (generateAutoAddress d)"
  have u: "uint ?a = 0x0AAA00000000 + uint (c + 1)" by (rule uint_generateAutoAddress)
  have lt: "uint (c + 1) < 2 ^ 32" using uint_lt2p [of "c + 1"] by simp
  have "?a = ?b \<longleftrightarrow> c = d"
  proof
    assume "?a = ?b"
    then have "uint ?a = uint ?b" by simp
    then have "uint (c + 1) = uint (d + 1)" by (simp only: uint_generateAutoAddress)
    then show "c = d" by (simp only: word_uint_eq_iff [symmetric] add_right_cancel)
  qed simp
  moreover have "\<not> isMulticast ?a"
  proof -
    have "uint ?a div 2 ^ 40 = 10"
      by (rule int_div_pos_eq [where r = "730144440320 + uint (c + 1)"])
        (use u lt uint_ge_0 [of "c + 1"] in simp_all)
    then have "\<not> bit (uint ?a) 40" by (simp add: bit_iff_odd)
    then show ?thesis by (simp add: isMulticast_bit bit_uint_iff)
  qed
  moreover have "0 < uint ?a" unfolding u using uint_ge_0 [of "c + 1"] by linarith
  moreover have "uint ?a < 2 ^ 47" unfolding u using lt by simp
  ultimately have "\<not> isMulticast ?a" and "?a = ?b \<longleftrightarrow> c = d" and "\<not> isBroadcast ?a" and "\<not> isUnspecified ?a"
    by (auto simp: isBroadcast_def isUnspecified_def MAC_ADDRESS_MASK_def)
  moreover have "mac_valid ?a"
    by (simp add: generateAutoAddress_def Let_def of_uint64_def mac_valid_def)
  ultimately show ?thesis by simp
qed

end
