(* ===== verification/EtherFrame.thy ===== *)
theory EtherFrame
  imports MACAddress
begin

text \<open>
  The messages of the link layer: \<open>EtherFrame.msg\<close> (the frame classes), \<open>Ethernet.h\<close> (the sizes
  of the 802.3 standard and the 802.1Q priority tag) and \<open>Ieee802Ctrl.msg\<close> (the control
  information that travels with a packet between the application and the encapsulation).
  A frame is one record; its class is the datatype \<open>frame_class\<close>, so that a \<open>dynamic_cast\<close> is a
  case distinction. Payloads are a type variable.
\<close>

section \<open>Sizes\<close>

definition MAX_ETHERNET_DATA_BYTES :: int where "MAX_ETHERNET_DATA_BYTES = 1500"
definition MAX_ETHERNET_FRAME_BYTES :: int where "MAX_ETHERNET_FRAME_BYTES = 1518"
definition MIN_ETHERNET_FRAME_BYTES :: int where "MIN_ETHERNET_FRAME_BYTES = 64"
definition GIGABIT_MIN_FRAME_BYTES_WITH_EXT :: int where "GIGABIT_MIN_FRAME_BYTES_WITH_EXT = 512"
definition INTERFRAME_GAP_BITS :: int where "INTERFRAME_GAP_BITS = 96"
definition PREAMBLE_BYTES :: int where "PREAMBLE_BYTES = 7"
definition SFD_BYTES :: int where "SFD_BYTES = 1"
definition PAUSE_UNIT_BITS :: int where "PAUSE_UNIT_BITS = 512"
definition ETHER_MAC_FRAME_BYTES :: int where "ETHER_MAC_FRAME_BYTES = 6 + 6 + 2 + 4"
definition ETHER_LLC_HEADER_LENGTH :: int where "ETHER_LLC_HEADER_LENGTH = 3"
definition ETHER_SNAP_HEADER_LENGTH :: int where "ETHER_SNAP_HEADER_LENGTH = 5"
definition ETHER_802_1_Q_HEADER_LENGTH :: int where "ETHER_802_1_Q_HEADER_LENGTH = 4"
definition ETHER_PAUSE_COMMAND_BYTES :: int where "ETHER_PAUSE_COMMAND_BYTES = 2 + 2"

definition ETHER_PAUSE_COMMAND_PADDED_BYTES :: int where
  "ETHER_PAUSE_COMMAND_PADDED_BYTES =
     max MIN_ETHERNET_FRAME_BYTES (ETHER_MAC_FRAME_BYTES + ETHER_PAUSE_COMMAND_BYTES)"

lemmas ether_sizes = MAX_ETHERNET_DATA_BYTES_def MAX_ETHERNET_FRAME_BYTES_def
  MIN_ETHERNET_FRAME_BYTES_def ETHER_MAC_FRAME_BYTES_def ETHER_LLC_HEADER_LENGTH_def
  ETHER_SNAP_HEADER_LENGTH_def ETHER_802_1_Q_HEADER_LENGTH_def ETHER_PAUSE_COMMAND_BYTES_def
  ETHER_PAUSE_COMMAND_PADDED_BYTES_def PREAMBLE_BYTES_def SFD_BYTES_def

declare ether_sizes [size_simps]

section \<open>Control information\<close>

record Ieee802Ctrl =
  ctl_src :: mac_addr
  ctl_dest :: mac_addr
  ctl_etherType :: int
  ctl_interfaceId :: int
  ctl_switchPort :: int
  ctl_ssap :: int
  ctl_dsap :: int
  ctl_pauseUnits :: int
  ctl_ppc :: int
  ctl_vid :: int
  ctl_de :: bool
  ctl_apptype :: u16

definition new_Ieee802Ctrl :: Ieee802Ctrl where
  "new_Ieee802Ctrl =
     \<lparr>ctl_src = 0, ctl_dest = 0, ctl_etherType = 0, ctl_interfaceId = 0, ctl_switchPort = -1,
      ctl_ssap = 0, ctl_dsap = 0, ctl_pauseUnits = 0, ctl_ppc = 0, ctl_vid = 0, ctl_de = False,
      ctl_apptype = 0\<rparr>"

definition IEEE802CTRL_DATA :: int where "IEEE802CTRL_DATA = 2003"
definition IEEE802CTRL_SENDPAUSE :: int where "IEEE802CTRL_SENDPAUSE = 2006"
definition ETHERTYPE_802_1_Q :: int where "ETHERTYPE_802_1_Q = 0x8100"
definition ETHERTYPE_SV :: u16 where "ETHERTYPE_SV = 0x88BA"
definition ETHERTYPE_GOOSE :: u16 where "ETHERTYPE_GOOSE = 0x88B8"

section \<open>Packets and frames\<close>

text \<open>A \<open>cPacket\<close> of an application, with its control object if one is attached.\<close>

record 'p cPacket =
  pk_kind :: int
  pk_byteLength :: int
  pk_ctrl :: "Ieee802Ctrl option"
  pk_data :: 'p

text \<open>The priority tag: bit fields of 3, 1 and 12 bits.\<close>

record stPriTag =
  tag_ppc :: "3 word"
  tag_de :: "1 word"
  tag_vid :: "12 word"

datatype frame_class =
    EthernetIIFrame int
  | EtherFrameWithLLC int int int
  | EtherFrameWithSNAP int int int int int
  | EtherPauseFrame int
  | Ethernet1QTag int stPriTag u16

record 'p EtherFrame =
  fr_dest :: mac_addr
  fr_src :: mac_addr
  fr_class :: frame_class
  fr_byteLength :: int
  fr_bitError :: bool
  fr_encap :: "'p cPacket option"

datatype 'p EtherTraffic = EtherFrameMsg "'p EtherFrame" | EtherJam | EtherIFG

fun is_pause_class :: "frame_class \<Rightarrow> bool" where
  "is_pause_class (EtherPauseFrame _) = True"
| "is_pause_class _ = False"

fun class_tag :: "frame_class \<Rightarrow> stPriTag option" where
  "class_tag (Ethernet1QTag _ tag _) = Some tag"
| "class_tag _ = None"

abbreviation isPauseFrame :: "'p EtherFrame \<Rightarrow> bool" where
  "isPauseFrame f \<equiv> is_pause_class (fr_class f)"

text \<open>
  \<open>cPacket::encapsulate\<close> adds the length of the inner packet to the frame's, \<open>decapsulate\<close>
  takes it off again and returns the inner packet, or NULL if there is none.
\<close>

definition new_frame :: "mac_addr \<Rightarrow> mac_addr \<Rightarrow> frame_class \<Rightarrow> int \<Rightarrow> 'p EtherFrame" where
  "new_frame src dest cl len =
     \<lparr>fr_dest = dest, fr_src = src, fr_class = cl, fr_byteLength = len, fr_bitError = False,
      fr_encap = None\<rparr>"

definition encapsulate :: "'p EtherFrame \<Rightarrow> 'p cPacket \<Rightarrow> 'p EtherFrame" where
  "encapsulate f msg =
     f\<lparr>fr_byteLength := fr_byteLength f + pk_byteLength msg, fr_encap := Some msg\<rparr>"

definition decapsulate :: "'p EtherFrame \<Rightarrow> ('p EtherFrame \<times> 'p cPacket) res" where
  "decapsulate f =
     (case fr_encap f of
        None \<Rightarrow> Inl NullDeref
      | Some msg \<Rightarrow>
          Inr (f\<lparr>fr_byteLength := fr_byteLength f - pk_byteLength msg, fr_encap := None\<rparr>, msg))"

definition pad_frame :: "'p EtherFrame \<Rightarrow> 'p EtherFrame" where
  "pad_frame f =
     (if fr_byteLength f < MIN_ETHERNET_FRAME_BYTES
      then f\<lparr>fr_byteLength := MIN_ETHERNET_FRAME_BYTES\<rparr> else f)"

lemma pad_frame_simps [simp]:
  "fr_dest (pad_frame f) = fr_dest f" "fr_src (pad_frame f) = fr_src f"
  "fr_class (pad_frame f) = fr_class f" "fr_encap (pad_frame f) = fr_encap f"
  "fr_bitError (pad_frame f) = fr_bitError f"
  "fr_byteLength (pad_frame f) = max MIN_ETHERNET_FRAME_BYTES (fr_byteLength f)"
  by (auto simp: pad_frame_def max_def)

lemma encapsulate_simps [simp]:
  "fr_dest (encapsulate f m) = fr_dest f" "fr_src (encapsulate f m) = fr_src f"
  "fr_class (encapsulate f m) = fr_class f" "fr_encap (encapsulate f m) = Some m"
  "fr_bitError (encapsulate f m) = fr_bitError f"
  "fr_byteLength (encapsulate f m) = fr_byteLength f + pk_byteLength m"
  by (simp_all add: encapsulate_def)

lemma new_frame_simps [simp]:
  "fr_dest (new_frame s d c l) = d" "fr_src (new_frame s d c l) = s"
  "fr_class (new_frame s d c l) = c" "fr_encap (new_frame s d c l) = None"
  "fr_bitError (new_frame s d c l) = False" "fr_byteLength (new_frame s d c l) = l"
  by (simp_all add: new_frame_def)

end
