(* ===== verification/NodeOperation.thy ===== *)
theory NodeOperation
  imports Prelude
begin

text \<open>
  \<open>base/NodeOperations.h\<close>: the lifecycle operations and their stages. A stage is the number the
  enumeration gives it; the same stage has different numbers in different operations.
\<close>

datatype LifecycleOperation =
  NodeStartOperation | NodeShutdownOperation | NodeCrashOperation | OtherOperation

definition start_STAGE_LOCAL :: nat where "start_STAGE_LOCAL = 0"
definition start_STAGE_PHYSICAL_LAYER :: nat where "start_STAGE_PHYSICAL_LAYER = 1"
definition start_STAGE_LINK_LAYER :: nat where "start_STAGE_LINK_LAYER = 2"
definition start_STAGE_NETWORK_LAYER :: nat where "start_STAGE_NETWORK_LAYER = 3"
definition start_STAGE_TRANSPORT_LAYER :: nat where "start_STAGE_TRANSPORT_LAYER = 4"
definition start_STAGE_ROUTING_PROTOCOLS :: nat where "start_STAGE_ROUTING_PROTOCOLS = 5"
definition start_STAGE_APPLICATION_LAYER :: nat where "start_STAGE_APPLICATION_LAYER = 6"
definition start_STAGE_LAST :: nat where "start_STAGE_LAST = 7"

definition shutdown_STAGE_LOCAL :: nat where "shutdown_STAGE_LOCAL = 0"
definition shutdown_STAGE_APPLICATION_LAYER :: nat where "shutdown_STAGE_APPLICATION_LAYER = 1"
definition shutdown_STAGE_ROUTING_PROTOCOLS :: nat where "shutdown_STAGE_ROUTING_PROTOCOLS = 2"
definition shutdown_STAGE_TRANSPORT_LAYER :: nat where "shutdown_STAGE_TRANSPORT_LAYER = 3"
definition shutdown_STAGE_NETWORK_LAYER :: nat where "shutdown_STAGE_NETWORK_LAYER = 4"
definition shutdown_STAGE_LINK_LAYER :: nat where "shutdown_STAGE_LINK_LAYER = 5"
definition shutdown_STAGE_PHYSICAL_LAYER :: nat where "shutdown_STAGE_PHYSICAL_LAYER = 6"
definition shutdown_STAGE_LAST :: nat where "shutdown_STAGE_LAST = 7"

definition crash_STAGE_CRASH :: nat where "crash_STAGE_CRASH = 0"
definition crash_STAGE_LAST :: nat where "crash_STAGE_LAST = 1"

lemmas stage_defs =
  start_STAGE_LOCAL_def start_STAGE_PHYSICAL_LAYER_def start_STAGE_LINK_LAYER_def
  start_STAGE_NETWORK_LAYER_def start_STAGE_TRANSPORT_LAYER_def start_STAGE_ROUTING_PROTOCOLS_def
  start_STAGE_APPLICATION_LAYER_def start_STAGE_LAST_def shutdown_STAGE_LOCAL_def
  shutdown_STAGE_APPLICATION_LAYER_def shutdown_STAGE_ROUTING_PROTOCOLS_def
  shutdown_STAGE_TRANSPORT_LAYER_def shutdown_STAGE_NETWORK_LAYER_def
  shutdown_STAGE_LINK_LAYER_def shutdown_STAGE_PHYSICAL_LAYER_def shutdown_STAGE_LAST_def
  crash_STAGE_CRASH_def crash_STAGE_LAST_def

text \<open>\<open>getNumStages\<close>: the highest stage, \<open>STAGE_LAST\<close>, and one more.\<close>

fun getNumStages :: "LifecycleOperation \<Rightarrow> nat" where
  "getNumStages NodeStartOperation = start_STAGE_LAST + 1"
| "getNumStages NodeShutdownOperation = shutdown_STAGE_LAST + 1"
| "getNumStages NodeCrashOperation = crash_STAGE_LAST + 1"
| "getNumStages OtherOperation = 1"

text \<open>
  \<open>NodeOperation::initialize\<close>: an operation can be applied to network nodes only. \<open>isNetworkNode\<close> reads
  the property of the module's NED type.
\<close>

definition nodeOperation_initialize :: "bool \<Rightarrow> unit res" where
  "nodeOperation_initialize isNetworkNode =
     (if \<not> isNetworkNode then Inl (RuntimeError ''Node operations may only be applied to network nodes'')
      else Inr ())"

end
