(* ===== verification/AppTimer.thy ===== *)
theory AppTimer
  imports EtherFrame NodeOperation
begin

text \<open>
  What the two IEC 61850 applications share: self messages, the copy of a string into a buffer and
  the conversion of a double to an unsigned integer. A self message is its kind and, while it is in
  the future event set, the time it will arrive. \<open>scheduleAt\<close> throws when the message is scheduled
  already or the time is in the past.
\<close>

record app_timer =
  tm_kind :: int
  tm_at :: "simtime option"

definition scheduleAt :: "simtime \<Rightarrow> simtime \<Rightarrow> app_timer \<Rightarrow> app_timer res" where
  "scheduleAt now due t =
     (if tm_at t \<noteq> None then Inl (RuntimeError ''already scheduled'')
      else if due < now then Inl (RuntimeError ''cannot schedule in the past'')
      else Inr (t\<lparr>tm_at := Some due\<rparr>))"

definition cancelEvent :: "app_timer \<Rightarrow> app_timer" where
  "cancelEvent t = t\<lparr>tm_at := None\<rparr>"

text \<open>\<open>strcpy\<close> into a buffer of \<open>n\<close> characters, terminator included.\<close>

definition strcpy_buf :: "nat \<Rightarrow> string \<Rightarrow> string res" where
  "strcpy_buf n s = (if length s < n then Inr s else Inl BufferOverflow)"

lemma strcpy_buf_Inr: "strcpy_buf n s = Inr t \<longleftrightarrow> length s < n \<and> t = s"
  by (auto simp: strcpy_buf_def)

text \<open>A double converted to an unsigned integer of \<open>LENGTH('a)\<close> bits.\<close>

definition to_word :: "real \<Rightarrow> 'a::len word res" where
  "to_word r = bindR (to_unsigned LENGTH('a) r) (\<lambda>i. Inr (word_of_int i))"

lemma to_word_Inr:
  "to_word r = Inr (w :: 'a::len word) \<longleftrightarrow> 0 \<le> trunc_real r \<and> trunc_real r < 2 ^ LENGTH('a) \<and> uint w = trunc_real r"
proof
  assume "to_word r = Inr w"
  then show "0 \<le> trunc_real r \<and> trunc_real r < 2 ^ LENGTH('a) \<and> uint w = trunc_real r"
    by (auto simp: to_word_def bindR_Inr_iff to_unsigned_Inr uint_of_int_small)
next
  assume a: "0 \<le> trunc_real r \<and> trunc_real r < 2 ^ LENGTH('a) \<and> uint w = trunc_real r"
  then have "word_of_int (trunc_real r) = w" by (metis word_of_int_uint)
  with a show "to_word r = Inr w" by (simp add: to_word_def to_unsigned_def)
qed

lemma to_word_defined:
  "0 \<le> trunc_real r \<Longrightarrow> trunc_real r < 2 ^ LENGTH('a) \<Longrightarrow> \<exists>w. to_word r = Inr (w :: 'a::len word)"
  by (simp add: to_word_def to_unsigned_def)

text \<open>
  Reference strings are shorter than 65 characters, so an 8 bit size field and a 16 bit counter
  hold their sizes without wrap-around.
\<close>

lemma ref_size:
  assumes "n < 65"
  shows "(ucast (1 + word_of_nat n :: u8) :: u16) = 1 + of_nat n" and "unat (1 + word_of_nat n :: u8) = n + 1"
proof -
  have e: "1 + word_of_nat n = (word_of_nat (n + 1) :: u8)" by simp
  show "unat (1 + word_of_nat n :: u8) = n + 1"
    unfolding e by (subst unat_of_nat) (use assms in simp)
  show "(ucast (1 + word_of_nat n :: u8) :: u16) = 1 + of_nat n"
    unfolding e by (simp only: unsigned_of_nat) (use assms in \<open>simp add: take_bit_nat_eq_self\<close>)
qed

lemma unat_u16_small: "n < 65536 \<Longrightarrow> unat (of_nat n :: u16) = n"
  by (simp add: unat_of_nat)

lemma unat_u8_small: "n < 256 \<Longrightarrow> unat (of_nat n :: u8) = n"
  by (simp add: unat_of_nat)

text \<open>The number of bytes a decoder walks over that trusts the tags and sizes of a list of members.\<close>

definition tlv_bytes :: "(u8 \<times> nat) list \<Rightarrow> nat" where
  "tlv_bytes fs = sum_list (map (\<lambda>(_, n). 2 + n) fs)"

end
