(* ===== verification/Ieee8021d.thy ===== *)
theory Ieee8021d
  imports AppTimer "HOL-Library.Product_Lexorder"
begin

text \<open>
  What the spanning tree modules share: the data of a switch port, \<open>linklayer/configurator/Ieee8021dInterfaceData\<close>,
  the messages, \<open>linklayer/ieee8021d/common/Ieee8021dBPDU.msg\<close>, and the comparisons of \<open>STP\<close>. The comparisons are
  shown to be the lexicographic order of priority vectors, for which identifiers of bridges are a linear order.
\<close>

section \<open>Data of a port\<close>

datatype PortRole = ALTERNATE | NOTASSIGNED | DISABLED | DESIGNATED | BACKUP | ROOT

datatype PortState = DISCARDING | LEARNING | FORWARDING

record PortInfo =
  pi_priority :: u32
  pi_linkCost :: u32
  pi_edge :: bool
  pi_state :: PortState
  pi_role :: PortRole
  pi_rootPriority :: u32
  pi_rootAddress :: mac_addr
  pi_rootPathCost :: u32
  pi_bridgePriority :: u32
  pi_bridgeAddress :: mac_addr
  pi_portPriority :: u32
  pi_portNum :: u32
  pi_age :: simtime
  pi_maxAge :: simtime
  pi_fdWhile :: simtime
  pi_fwdDelay :: simtime
  pi_helloTime :: simtime
  pi_TCWhile :: simtime
  pi_lostBPDU :: u32
  pi_nextUpgrade :: simtime

text \<open>
  The constructor sets the role and the state only; the numbers it leaves open, here 0, are not read before they
  are written.
\<close>

definition new_PortInfo :: PortInfo where
  "new_PortInfo =
     \<lparr>pi_priority = 0, pi_linkCost = 0, pi_edge = False, pi_state = FORWARDING, pi_role = NOTASSIGNED,
      pi_rootPriority = 0, pi_rootAddress = 0, pi_rootPathCost = 0, pi_bridgePriority = 0, pi_bridgeAddress = 0,
      pi_portPriority = 0, pi_portNum = 0, pi_age = 0, pi_maxAge = 0, pi_fdWhile = 0, pi_fwdDelay = 0,
      pi_helloTime = 0, pi_TCWhile = 0, pi_lostBPDU = 0, pi_nextUpgrade = 0\<rparr>"

definition isLearning :: "PortInfo \<Rightarrow> bool" where
  "isLearning p \<longleftrightarrow> pi_state p = LEARNING \<or> pi_state p = FORWARDING"

definition isForwarding :: "PortInfo \<Rightarrow> bool" where
  "isForwarding p \<longleftrightarrow> pi_state p = FORWARDING"

section \<open>BPDUs\<close>

record BPDU =
  bp_protocolIdentifier :: u32
  bp_protocolVersionIdentifier :: u32
  bp_type :: u32
  bp_tcaFlag :: bool
  bp_tcFlag :: bool
  bp_rootAddress :: mac_addr
  bp_rootPriority :: u32
  bp_rootPathCost :: u32
  bp_bridgeAddress :: mac_addr
  bp_bridgePriority :: u32
  bp_portNum :: u32
  bp_portPriority :: u32
  bp_messageAge :: simtime
  bp_maxAge :: simtime
  bp_helloTime :: simtime
  bp_forwardDelay :: simtime

definition new_BPDU :: BPDU where
  "new_BPDU =
     \<lparr>bp_protocolIdentifier = 0, bp_protocolVersionIdentifier = 0, bp_type = 0, bp_tcaFlag = False, bp_tcFlag = False,
      bp_rootAddress = 0, bp_rootPriority = 0, bp_rootPathCost = 0, bp_bridgeAddress = 0, bp_bridgePriority = 0,
      bp_portNum = 0, bp_portPriority = 0, bp_messageAge = 0, bp_maxAge = 0, bp_helloTime = 0, bp_forwardDelay = 0\<rparr>"

definition CONFIG_BDPU :: u32 where "CONFIG_BDPU = 0"
definition TCN_BPDU :: u32 where "TCN_BPDU = 1"

section \<open>Comparisons\<close>

text \<open>A positive result says that the first is superior.\<close>

definition compareBridgeIDs :: "u32 \<Rightarrow> mac_addr \<Rightarrow> u32 \<Rightarrow> mac_addr \<Rightarrow> int" where
  "compareBridgeIDs aPriority aAddress bPriority bAddress =
     (if aPriority < bPriority then 1
      else if aPriority > bPriority then -1
      else if compareTo aAddress bAddress = -1 then 1
      else if compareTo aAddress bAddress = 1 then -1
      else 0)"

definition comparePortIDs :: "u32 \<Rightarrow> u32 \<Rightarrow> u32 \<Rightarrow> u32 \<Rightarrow> int" where
  "comparePortIDs aPriority aNum bPriority bNum =
     (if aPriority < bPriority then 1
      else if aPriority > bPriority then -1
      else if aNum < bNum then 1
      else if aNum > bNum then -1
      else 0)"

definition comparePorts :: "PortInfo \<Rightarrow> PortInfo \<Rightarrow> int" where
  "comparePorts a b =
     (let root = compareBridgeIDs (pi_rootPriority a) (pi_rootAddress a) (pi_rootPriority b) (pi_rootAddress b) in
      if root \<noteq> 0 then root
      else if pi_rootPathCost a < pi_rootPathCost b then 1
      else if pi_rootPathCost a > pi_rootPathCost b then -1
      else
        let bridge = compareBridgeIDs (pi_bridgePriority a) (pi_bridgeAddress a) (pi_bridgePriority b) (pi_bridgeAddress b) in
        if bridge \<noteq> 0 then bridge
        else comparePortIDs (pi_portPriority a) (pi_portNum a) (pi_portPriority b) (pi_portNum b))"

section \<open>Priority vectors\<close>

text \<open>The identifier of a bridge, ordered by priority, then by address: the smaller, the better.\<close>

datatype bridge_id = BridgeId (bi_priority: u32) (bi_address: mac_addr)

instantiation bridge_id :: linorder
begin

definition less_eq_bridge_id :: "bridge_id \<Rightarrow> bridge_id \<Rightarrow> bool" where
  "a \<le> b \<longleftrightarrow> (bi_priority a, bi_address a) \<le> (bi_priority b, bi_address b)"

definition less_bridge_id :: "bridge_id \<Rightarrow> bridge_id \<Rightarrow> bool" where
  "a < b \<longleftrightarrow> (bi_priority a, bi_address a) < (bi_priority b, bi_address b)"

instance
proof
  fix a b c :: bridge_id
  show "a < b \<longleftrightarrow> a \<le> b \<and> \<not> b \<le> a" "a \<le> a" "a \<le> b \<or> b \<le> a"
    by (auto simp: less_eq_bridge_id_def less_bridge_id_def)
  show "a \<le> b \<Longrightarrow> b \<le> c \<Longrightarrow> a \<le> c"
    unfolding less_eq_bridge_id_def by (rule order_trans)
  show "a \<le> b \<Longrightarrow> b \<le> a \<Longrightarrow> a = b"
    unfolding less_eq_bridge_id_def by (cases a; cases b) (auto dest: antisym)
qed

end

lemma bridge_id_less: "BridgeId p a < BridgeId q b \<longleftrightarrow> p < q \<or> p = q \<and> a < b"
  by (auto simp: less_bridge_id_def)

lemma bridge_id_le: "BridgeId p a \<le> BridgeId q b \<longleftrightarrow> p < q \<or> p = q \<and> a \<le> b"
  by (auto simp: less_eq_bridge_id_def)

abbreviation rootId :: "PortInfo \<Rightarrow> bridge_id" where
  "rootId p \<equiv> BridgeId (pi_rootPriority p) (pi_rootAddress p)"

abbreviation bridgeId :: "PortInfo \<Rightarrow> bridge_id" where
  "bridgeId p \<equiv> BridgeId (pi_bridgePriority p) (pi_bridgeAddress p)"

type_synonym priority_vector = "bridge_id \<times> u32 \<times> bridge_id \<times> u32 \<times> u32"

definition vector :: "PortInfo \<Rightarrow> priority_vector" where
  "vector p = (rootId p, pi_rootPathCost p, bridgeId p, pi_portPriority p, pi_portNum p)"

lemma lex_less: "(a, x) < (b, y) \<longleftrightarrow> a < b \<or> a = b \<and> x < y" for a b :: "'a::linorder" and x y :: "'b::linorder"
  by (auto simp: less_le)

lemma compareBridgeIDs_order:
  "compareBridgeIDs p a q b =
     (if BridgeId p a < BridgeId q b then 1 else if BridgeId p a = BridgeId q b then 0 else -1)"
  by (auto simp: compareBridgeIDs_def compareTo_def bridge_id_less)

lemma comparePortIDs_order:
  "comparePortIDs p a q b = (if (p, a) < (q, b) then 1 else if (p, a) = (q, b) then 0 else -1)"
  by (auto simp: comparePortIDs_def)

text \<open>
  The comparison of two ports, with its early returns, is the lexicographic comparison of their priority vectors:
  root, path cost, designated bridge, designated port. So it is a linear order.
\<close>

lemma comparePorts_vector:
  "comparePorts a b = (if vector a < vector b then 1 else if vector a = vector b then 0 else -1)"
proof -
  define ra ba pa where d: "ra = rootId a" "ba = bridgeId a" "pa = (pi_portPriority a, pi_portNum a)"
  define rb bb pb where e: "rb = rootId b" "bb = bridgeId b" "pb = (pi_portPriority b, pi_portNum b)"
  have c: "comparePorts a b =
      (if ra < rb then 1 else if ra \<noteq> rb then -1
       else if pi_rootPathCost a < pi_rootPathCost b then 1 else if pi_rootPathCost a \<noteq> pi_rootPathCost b then -1
       else if ba < bb then 1 else if ba \<noteq> bb then -1
       else if pa < pb then 1 else if pa \<noteq> pb then -1 else 0)"
    unfolding comparePorts_def Let_def compareBridgeIDs_order comparePortIDs_order d [symmetric] e [symmetric]
    by (cases ra rb rule: linorder_cases; cases ba bb rule: linorder_cases) simp_all
  have v: "vector a = (ra, pi_rootPathCost a, ba, pa)" "vector b = (rb, pi_rootPathCost b, bb, pb)"
    by (simp_all add: vector_def d e)
  show ?thesis unfolding c v lex_less prod.inject
    by (cases ra rb rule: linorder_cases; cases "pi_rootPathCost a" "pi_rootPathCost b" rule: linorder_cases;
        cases ba bb rule: linorder_cases; cases pa pb rule: linorder_cases) auto
qed

lemma comparePorts_pos: "comparePorts a b > 0 \<longleftrightarrow> vector a < vector b"
  and comparePorts_neg: "comparePorts a b < 0 \<longleftrightarrow> vector b < vector a"
  by (auto simp: comparePorts_vector not_less_iff_gr_or_eq)

lemma vector_set [simp]:
  "vector (p\<lparr>pi_role := r\<rparr>) = vector p" "vector (p\<lparr>pi_state := st\<rparr>) = vector p"
  "vector (p\<lparr>pi_age := x\<rparr>) = vector p" "vector (p\<lparr>pi_fdWhile := x\<rparr>) = vector p"
  by (simp_all add: vector_def)

section \<open>Choosing the interface that names the bridge\<close>

text \<open>An interface of the interface table: is it a loopback, and its address.\<close>

definition chooseInterface :: "(bool \<times> mac_addr) list \<Rightarrow> mac_addr option" where
  "chooseInterface ift = map_option snd (List.find (\<lambda>(isLoopback, a). \<not> isLoopback) ift)"

section \<open>Loops that may fail\<close>

fun iterR :: "('a \<Rightarrow> 's \<Rightarrow> 's res) \<Rightarrow> 'a list \<Rightarrow> 's \<Rightarrow> 's res" where
  "iterR f [] s = Inr s"
| "iterR f (x # xs) s = bindR (f x s) (iterR f xs)"

lemma iterR_rule:
  assumes "P s" and "\<And>x s. x \<in> set xs \<Longrightarrow> P s \<Longrightarrow> \<exists>t. f x s = Inr t \<and> P t"
  shows "\<exists>t. iterR f xs s = Inr t \<and> P t"
  using assms
proof (induction xs arbitrary: s)
  case (Cons x xs)
  obtain t where t: "f x s = Inr t" "P t" using Cons.prems(2) [of x s] Cons.prems(1) by auto
  have "\<exists>u. iterR f xs t = Inr u \<and> P u" by (rule Cons.IH [OF t(2)]) (use Cons.prems(2) in auto)
  then show ?case by (simp add: t(1))
qed simp

lemma iterR_keeps:
  assumes "iterR f xs s = Inr t" and "P s" and "\<And>x s t. f x s = Inr t \<Longrightarrow> P s \<Longrightarrow> P t"
  shows "P t"
  using assms(1,2) by (induction xs arbitrary: s) (auto simp: bindR_Inr_iff dest: assms(3))

end
