(* ===== verification/MACAddressTable.thy ===== *)
theory MACAddressTable
  imports MACAddress
begin

text \<open>
  \<open>linklayer/ethernet/switch/MACAddressTable\<close>: one address table per VLAN, reached through
  pointers. The tables are cells of an explicit heap, because the table of VLAN 0 is reached both
  through \<open>addressTable\<close> and through \<open>vlanAddressTable[0]\<close>. The invariant \<open>mt_wf\<close> keeps the two in
  step, keeps the pointers distinct and never dangling. \<open>lookup\<close> is the abstract table, a partial
  map from VLAN and address to an entry; the lemmas give the effect of every operation on it.
\<close>

section \<open>State\<close>

record AddressEntry =
  entry_vid :: u32
  portno :: int
  insertionTime :: simtime

type_synonym AddressTable = "(mac_addr, AddressEntry) omap"

text \<open>\<open>fresh\<close> is the next address \<open>operator new\<close> hands out.\<close>

record mac_table =
  agingTime :: simtime
  lastPurge :: simtime
  addressTable :: "nat option"
  vlanAddressTable :: "(u32, nat) omap"
  heap :: "nat \<Rightarrow> AddressTable option"
  fresh :: nat

definition cell :: "mac_table \<Rightarrow> nat \<Rightarrow> AddressTable" where
  "cell t p = (case heap t p of Some m \<Rightarrow> m | None \<Rightarrow> [])"

definition set_cell :: "nat \<Rightarrow> AddressTable \<Rightarrow> mac_table \<Rightarrow> mac_table" where
  "set_cell p m t = t\<lparr>heap := (heap t)(p \<mapsto> m)\<rparr>"

definition new_table :: "mac_table \<Rightarrow> nat \<times> mac_table" where
  "new_table t = (fresh t, t\<lparr>heap := (heap t)(fresh t \<mapsto> []), fresh := Suc (fresh t)\<rparr>)"

text \<open>The constructor, and \<open>initialize\<close> without an \<open>addressTableFile\<close>.\<close>

definition mt_new :: "simtime \<Rightarrow> mac_table" where
  "mt_new aging =
     \<lparr>agingTime = aging, lastPurge = 0, addressTable = Some 0, vlanAddressTable = [(0, 0)],
      heap = [0 \<mapsto> []], fresh = 1\<rparr>"

lemma mt_new_aging [simp]: "agingTime (mt_new aging) = aging"
  by (simp add: mt_new_def)

section \<open>Operations\<close>

definition getTableForVid :: "mac_table \<Rightarrow> u32 \<Rightarrow> nat option" where
  "getTableForVid t vid =
     (if vid = 0 then addressTable t else map_of (vlanAddressTable t) vid)"

definition aged :: "simtime \<Rightarrow> mac_table \<Rightarrow> AddressEntry \<Rightarrow> bool" where
  "aged now t entry \<longleftrightarrow> insertionTime entry + agingTime t \<le> now"

definition getPortForAddress :: "simtime \<Rightarrow> mac_addr \<Rightarrow> u32 \<Rightarrow> mac_table \<Rightarrow> int \<times> mac_table" where
  "getPortForAddress now address vid t =
     (case getTableForVid t vid of
        None \<Rightarrow> (-1, t)
      | Some table \<Rightarrow>
          case map_of (cell t table) address of
            None \<Rightarrow> (-1, t)
          | Some entry \<Rightarrow>
              if aged now t entry then (-1, set_cell table (om_erase address (cell t table)) t)
              else (portno entry, t))"

text \<open>The loops over all tables of \<open>vlanAddressTable\<close>.\<close>

definition each_table :: "(AddressTable \<Rightarrow> AddressTable) \<Rightarrow> mac_table \<Rightarrow> mac_table" where
  "each_table f t = fold (\<lambda>(_, p) t. set_cell p (f (cell t p)) t) (vlanAddressTable t) t"

definition removeAgedEntriesFromVlan :: "simtime \<Rightarrow> u32 \<Rightarrow> mac_table \<Rightarrow> mac_table" where
  "removeAgedEntriesFromVlan now vid t =
     (case getTableForVid t vid of
        None \<Rightarrow> t
      | Some table \<Rightarrow> set_cell table (om_filter (\<lambda>_ entry. \<not> aged now t entry) (cell t table)) t)"

definition removeAgedEntriesFromAllVlans :: "simtime \<Rightarrow> mac_table \<Rightarrow> mac_table" where
  "removeAgedEntriesFromAllVlans now t =
     each_table (om_filter (\<lambda>_ entry. \<not> aged now t entry)) t"

definition removeAgedEntriesIfNeeded :: "simtime \<Rightarrow> mac_table \<Rightarrow> mac_table" where
  "removeAgedEntriesIfNeeded now t =
     (let t1 = (if now \<ge> lastPurge t + SIMTIME_SECOND then removeAgedEntriesFromAllVlans now t else t)
      in t1\<lparr>lastPurge := now\<rparr>)"

definition updateTableWithAddress ::
    "simtime \<Rightarrow> int \<Rightarrow> mac_addr \<Rightarrow> u32 \<Rightarrow> mac_table \<Rightarrow> bool \<times> mac_table" where
  "updateTableWithAddress now port address vid t =
     (if isBroadcast address then (False, t)
      else
        let (table, t1, found) =
          (case getTableForVid t vid of
             None \<Rightarrow>
               let (p, t0) = new_table t;
                   t0 = (if vid = 0 then t0\<lparr>addressTable := Some p\<rparr> else t0)
               in (p, t0\<lparr>vlanAddressTable := om_put vid p (vlanAddressTable t0)\<rparr>, None)
           | Some p \<Rightarrow> (p, t, map_of (cell t p) address))
        in case found of
             None \<Rightarrow>
               let t2 = removeAgedEntriesIfNeeded now t1;
                   entry = \<lparr>entry_vid = vid, portno = port, insertionTime = now\<rparr>
               in (False, set_cell table (om_put address entry (cell t2 table)) t2)
           | Some entry \<Rightarrow>
               let entry' = entry\<lparr>insertionTime := now, portno := port\<rparr>
               in (True, set_cell table (om_put address entry' (cell t1 table)) t1))"

definition flush :: "int \<Rightarrow> mac_table \<Rightarrow> mac_table" where
  "flush port t = each_table (om_filter (\<lambda>_ entry. portno entry \<noteq> port)) t"

text \<open>
  NULL, or the array of \<open>table->size()\<close> elements of which only the first ones are written;
  \<open>None\<close> is an element nobody wrote.
\<close>

definition getPortForVid :: "u32 \<Rightarrow> mac_table \<Rightarrow> int option list option" where
  "getPortForVid vid t =
     map_option (\<lambda>table.
        let entries = map snd (cell t table);
            ports = map portno (filter (\<lambda>entry. entry_vid entry = vid) entries)
        in map Some ports @ replicate (length entries - length ports) None)
       (getTableForVid t vid)"

definition copyTable :: "int \<Rightarrow> int \<Rightarrow> mac_table \<Rightarrow> mac_table" where
  "copyTable portA portB t =
     each_table (om_map (\<lambda>entry. if portno entry = portA then entry\<lparr>portno := portB\<rparr> else entry)) t"

definition clearTable :: "mac_table \<Rightarrow> mac_table" where
  "clearTable t =
     t\<lparr>heap := heap t |` (- snd ` set (vlanAddressTable t)), vlanAddressTable := [],
       addressTable := None\<rparr>"

definition setAgingTime :: "simtime \<Rightarrow> mac_table \<Rightarrow> mac_table" where
  "setAgingTime aging t = t\<lparr>agingTime := aging\<rparr>"

text \<open>\<open>par_agingTime\<close> is the module parameter.\<close>

definition resetDefaultAging :: "simtime \<Rightarrow> mac_table \<Rightarrow> mac_table" where
  "resetDefaultAging par_agingTime t = t\<lparr>agingTime := par_agingTime\<rparr>"

section \<open>Reading a table from a file\<close>

text \<open>
  The file is its content. \<open>fgets\<close> reads up to \<open>n - 1\<close> characters and stops after a newline;
  \<open>fgetline\<close> returns NULL at the end of the file, else the line without its CR and LF, and
  advances the stream.
\<close>

definition fgets :: "nat \<Rightarrow> string \<Rightarrow> string \<times> string" where
  "fgets n content =
     (let chunk = take (n - 1) content;
          upto = takeWhile (\<lambda>c. c \<noteq> CHR 0x0A) chunk;
          k = (if length upto < length chunk then Suc (length upto) else length chunk)
      in (take k content, drop k content))"

definition MAX_LINE :: nat where
  "MAX_LINE = 100"

definition fgetline :: "string \<Rightarrow> (string \<times> string) option" where
  "fgetline content =
     (if content = [] then None
      else
        let (buf, rest) = fgets MAX_LINE content;
            line = takeWhile (\<lambda>c. c \<noteq> CHR 0x00) buf
        in Some (rev (dropWhile (\<lambda>c. c = CHR 0x0A \<or> c = CHR 0x0D) (rev line)), rest))"

text \<open>\<open>strtok\<close> with the delimiters space and tab: the token and what a next call continues with.\<close>

abbreviation is_delim :: "char \<Rightarrow> bool" where
  "is_delim c \<equiv> c = CHR '' '' \<or> c = CHR 0x09"

definition strtok :: "string \<Rightarrow> string option \<times> string" where
  "strtok s =
     (let s1 = dropWhile is_delim s in
      if s1 = [] then (None, [])
      else (Some (takeWhile (\<lambda>c. \<not> is_delim c) s1), drop 1 (dropWhile (\<lambda>c. \<not> is_delim c) s1)))"

text \<open>\<open>atoi\<close>; a value outside \<open>int\<close> is undefined behaviour.\<close>

definition c_isspace :: "char \<Rightarrow> bool" where
  "c_isspace c \<longleftrightarrow> c = CHR '' '' \<or> (9 \<le> (of_char c :: nat) \<and> of_char c \<le> (13 :: nat))"

definition digits_value :: "string \<Rightarrow> int" where
  "digits_value ds = foldl (\<lambda>v c. 10 * v + (int (of_char c) - 48)) 0 ds"

definition atoi :: "string \<Rightarrow> int res" where
  "atoi s =
     (let s1 = dropWhile c_isspace s;
          neg = (s1 \<noteq> [] \<and> hd s1 = CHR ''-'');
          s2 = (if s1 \<noteq> [] \<and> (hd s1 = CHR ''-'' \<or> hd s1 = CHR ''+'') then tl s1 else s1);
          v = digits_value (takeWhile c_isdigit s2);
          r = (if neg then - v else v)
      in if - 2147483648 \<le> r \<and> r \<le> 2147483647 then Inr r else Inl UndefinedConversion)"

text \<open>
  One iteration. The arguments of \<open>EV\<close> are evaluated when event logging is on (\<open>ev_enabled\<close>):
  there \<open>atoi(vlanID)\<close> and \<open>atoi(portno)\<close> run before the tokens are tested for NULL.
\<close>

definition ev_atoi :: "bool \<Rightarrow> string option \<Rightarrow> unit res" where
  "ev_atoi ev_enabled token =
     (if \<not> ev_enabled then Inr ()
      else case token of None \<Rightarrow> Inl NullDeref | Some s \<Rightarrow> bindR (atoi s) (\<lambda>_. Inr ()))"

definition insert_line :: "string \<Rightarrow> string \<Rightarrow> string \<Rightarrow> mac_table \<Rightarrow> mac_table res" where
  "insert_line vlanID hexaddress port t =
     bindR (atoi vlanID) (\<lambda>v.
     bindR (atoi port) (\<lambda>p.
       let entry = \<lparr>entry_vid = word_of_int v, portno = p, insertionTime = 0\<rparr>;
           (table, t1) =
             (case getTableForVid t (entry_vid entry) of
                None \<Rightarrow>
                  (let (q, t0) = new_table t
                   in (q, t0\<lparr>vlanAddressTable := om_put (entry_vid entry) q (vlanAddressTable t0)\<rparr>))
              | Some q \<Rightarrow> (q, t))
       in bindR (setAddress 0 hexaddress) (\<lambda>address.
            Inr (set_cell table (om_put address entry (cell t1 table)) t1))))"

definition read_line :: "bool \<Rightarrow> string \<Rightarrow> mac_table \<Rightarrow> mac_table res" where
  "read_line ev_enabled line t =
     (if line \<noteq> [] \<and> hd line = CHR ''#'' then Inr t
      else
        let (vlanID, rest1) = strtok line
        in bindR (ev_atoi ev_enabled vlanID) (\<lambda>_.
             let (hexaddress, rest2) = strtok rest1;
                 (port, _) = strtok rest2
             in bindR (ev_atoi ev_enabled port) (\<lambda>_.
                  case vlanID of
                    None \<Rightarrow> Inr t
                  | Some vlan \<Rightarrow>
                      (case (port, hexaddress) of
                         (Some p, Some h) \<Rightarrow> insert_line vlan h p t
                       | _ \<Rightarrow> Inl (RuntimeError ''line invalid in address table file'')))))"

function read_lines :: "bool \<Rightarrow> string \<Rightarrow> mac_table \<Rightarrow> mac_table res" where
  "read_lines ev_enabled content t =
     (case fgetline content of
        None \<Rightarrow> Inr t
      | Some (line, rest) \<Rightarrow>
          (case read_line ev_enabled line t of
             Inl e \<Rightarrow> Inl e
           | Inr t1 \<Rightarrow> read_lines ev_enabled rest t1))"
  by pat_completeness auto

text \<open>\<open>None\<close> is a file that cannot be opened.\<close>

definition readAddressTable :: "bool \<Rightarrow> string option \<Rightarrow> mac_table \<Rightarrow> mac_table res" where
  "readAddressTable ev_enabled file t =
     (case file of
        None \<Rightarrow> Inl (RuntimeError ''cannot open address table file'')
      | Some content \<Rightarrow> read_lines ev_enabled content t)"

text \<open>\<open>initialize\<close>; \<open>file\<close> is \<open>None\<close> when \<open>addressTableFile\<close> is the empty string.\<close>

definition mt_initialize :: "bool \<Rightarrow> simtime \<Rightarrow> string option option \<Rightarrow> mac_table \<Rightarrow> mac_table res" where
  "mt_initialize ev_enabled par_agingTime file t =
     (let t1 = t\<lparr>agingTime := par_agingTime, lastPurge := 0\<rparr>
      in case file of None \<Rightarrow> Inr t1 | Some f \<Rightarrow> readAddressTable ev_enabled f t1)"

lemma fgetline_progress:
  assumes "fgetline content = Some (line, rest)"
  shows "length rest < length content"
proof -
  have "content \<noteq> []" using assms by (auto simp: fgetline_def)
  then have "take 99 content \<noteq> []" by simp
  then show ?thesis
    using assms by (auto simp: fgetline_def fgets_def MAX_LINE_def Let_def split: if_splits)
qed

termination read_lines
  by (relation "measure (\<lambda>(_, content, _). length content)") (auto dest: fgetline_progress)

declare read_lines.simps [simp del]

section \<open>Invariant and abstract table\<close>

definition table_ok :: "u32 \<Rightarrow> AddressTable \<Rightarrow> bool" where
  "table_ok vid m \<longleftrightarrow> om_wf m \<and> (\<forall>(a, entry) \<in> set m. entry_vid entry = vid)"

definition mt_wf :: "mac_table \<Rightarrow> bool" where
  "mt_wf t \<longleftrightarrow> om_wf (vlanAddressTable t)
     \<and> addressTable t = map_of (vlanAddressTable t) 0
     \<and> distinct (map snd (vlanAddressTable t))
     \<and> (\<forall>(vid, p) \<in> set (vlanAddressTable t). p < fresh t \<and> heap t p \<noteq> None \<and> table_ok vid (cell t p))"

definition lookup :: "mac_table \<Rightarrow> u32 \<Rightarrow> mac_addr \<Rightarrow> AddressEntry option" where
  "lookup t vid address =
     (case map_of (vlanAddressTable t) vid of
        None \<Rightarrow> None
      | Some p \<Rightarrow> map_of (cell t p) address)"

lemma getTableForVid_wf: "mt_wf t \<Longrightarrow> getTableForVid t vid = map_of (vlanAddressTable t) vid"
  by (simp add: getTableForVid_def mt_wf_def)

lemma mt_wf_mem:
  assumes "mt_wf t"
  shows "map_of (vlanAddressTable t) vid = Some p \<longleftrightarrow> (vid, p) \<in> set (vlanAddressTable t)"
  using assms om_wf_map_of_mem by (fastforce simp: mt_wf_def)

lemma mt_wf_cell:
  assumes "mt_wf t" and "map_of (vlanAddressTable t) vid = Some p"
  shows "table_ok vid (cell t p)" and "p < fresh t" and "heap t p \<noteq> None"
  using assms by (auto simp: mt_wf_def dest: map_of_SomeD)

lemma mt_wf_inj:
  assumes "mt_wf t" and "map_of (vlanAddressTable t) v = Some p"
    and "map_of (vlanAddressTable t) w = Some p"
  shows "v = w"
proof -
  have "inj_on snd (set (vlanAddressTable t))" and "(v, p) \<in> set (vlanAddressTable t)"
    and "(w, p) \<in> set (vlanAddressTable t)"
    using assms by (auto simp: mt_wf_def distinct_map dest: map_of_SomeD)
  then have "(v, p) = (w, p)" by (metis inj_onD snd_conv)
  then show ?thesis by simp
qed

lemma cell_set_cell [simp]: "cell (set_cell p m t) q = (if q = p then m else cell t q)"
  by (simp add: cell_def set_cell_def)

lemma set_cell_simps [simp]:
  "vlanAddressTable (set_cell p m t) = vlanAddressTable t"
  "addressTable (set_cell p m t) = addressTable t"
  "agingTime (set_cell p m t) = agingTime t"
  "lastPurge (set_cell p m t) = lastPurge t"
  "fresh (set_cell p m t) = fresh t"
  "heap (set_cell p m t) q = (if q = p then Some m else heap t q)"
  by (simp_all add: set_cell_def)

lemma table_ok_filter [intro]: "table_ok vid m \<Longrightarrow> table_ok vid (om_filter P m)"
  using om_wf_om_filter [of m P] by (fastforce simp: table_ok_def om_filter_def)

lemma table_ok_erase [intro]: "table_ok vid m \<Longrightarrow> table_ok vid (om_erase a m)"
  unfolding om_erase_def by (rule table_ok_filter)

lemma table_ok_put [intro]:
  "table_ok vid m \<Longrightarrow> entry_vid entry = vid \<Longrightarrow> table_ok vid (om_put a entry m)"
  using set_om_put_subset [of a entry m] om_wf_om_put [of m a entry] by (fastforce simp: table_ok_def)

lemma table_ok_map:
  "table_ok vid m \<Longrightarrow> (\<And>e. entry_vid (f e) = entry_vid e) \<Longrightarrow> table_ok vid (om_map f m)"
  by (fastforce simp: table_ok_def om_map_def om_wf_om_map [unfolded om_map_def])

lemma table_ok_Nil [simp]: "table_ok vid []"
  by (simp add: table_ok_def)

lemma mt_wf_new [simp]: "mt_wf (mt_new aging)"
  by (simp add: mt_wf_def mt_new_def cell_def om_wf_Cons)

lemma mt_wf_set_cell:
  assumes "mt_wf t" and "map_of (vlanAddressTable t) vid = Some p" and "table_ok vid m"
  shows "mt_wf (set_cell p m t)"
  using assms mt_wf_inj [OF assms(1)] mt_wf_mem [OF assms(1)]
  by (auto simp: mt_wf_def split_beta) blast+

lemma lookup_set_cell:
  assumes "mt_wf t" and "map_of (vlanAddressTable t) vid = Some p"
  shows "lookup (set_cell p m t) w a = (if w = vid then map_of m a else lookup t w a)"
  using assms mt_wf_inj [OF assms(1)] by (auto simp: lookup_def split: option.splits)

section \<open>Loops over all tables\<close>

lemma fold_cells:
  assumes "distinct (map snd ps)"
  shows "cell (fold (\<lambda>(_, p) t. set_cell p (f (cell t p)) t) ps t) q =
           (if q \<in> snd ` set ps then f (cell t q) else cell t q)"
  using assms by (induction ps arbitrary: t) force+

lemma fold_cells_frame:
  "vlanAddressTable (fold (\<lambda>(_, p) t. set_cell p (f (cell t p)) t) ps t) = vlanAddressTable t
   \<and> addressTable (fold (\<lambda>(_, p) t. set_cell p (f (cell t p)) t) ps t) = addressTable t
   \<and> agingTime (fold (\<lambda>(_, p) t. set_cell p (f (cell t p)) t) ps t) = agingTime t
   \<and> lastPurge (fold (\<lambda>(_, p) t. set_cell p (f (cell t p)) t) ps t) = lastPurge t
   \<and> fresh (fold (\<lambda>(_, p) t. set_cell p (f (cell t p)) t) ps t) = fresh t
   \<and> (heap t q \<noteq> None \<longrightarrow> heap (fold (\<lambda>(_, p) t. set_cell p (f (cell t p)) t) ps t) q \<noteq> None)"
  by (induction ps arbitrary: t) (auto simp: split_beta)

lemma each_table_simps [simp]:
  "vlanAddressTable (each_table f t) = vlanAddressTable t"
  "addressTable (each_table f t) = addressTable t"
  "agingTime (each_table f t) = agingTime t"
  "lastPurge (each_table f t) = lastPurge t"
  "fresh (each_table f t) = fresh t"
  using fold_cells_frame [of f "vlanAddressTable t" t] by (simp_all add: each_table_def)

lemma each_table_wf:
  assumes "mt_wf t" and "\<And>vid m. table_ok vid m \<Longrightarrow> table_ok vid (f m)"
  shows "mt_wf (each_table f t)"
proof -
  have d: "distinct (map snd (vlanAddressTable t))" using assms(1) by (simp add: mt_wf_def)
  have "heap (each_table f t) p \<noteq> None" if "heap t p \<noteq> None" for p
    using fold_cells_frame [of f "vlanAddressTable t" t p] that by (simp add: each_table_def)
  moreover have "cell (each_table f t) p = f (cell t p)" if "(v, p) \<in> set (vlanAddressTable t)" for v p
    using fold_cells [OF d, of f t p] that by (force simp: each_table_def)
  ultimately show ?thesis using assms by (fastforce simp: mt_wf_def)
qed

lemma lookup_each_table:
  assumes "mt_wf t"
  shows "lookup (each_table f t) vid a =
           (case map_of (vlanAddressTable t) vid of None \<Rightarrow> None | Some p \<Rightarrow> map_of (f (cell t p)) a)"
proof -
  have d: "distinct (map snd (vlanAddressTable t))" using assms by (simp add: mt_wf_def)
  have "cell (each_table f t) p = f (cell t p)" if "map_of (vlanAddressTable t) vid = Some p" for p
    using fold_cells [OF d, of f t p] that by (force simp: each_table_def dest: map_of_SomeD)
  then show ?thesis by (auto simp: lookup_def split: option.split)
qed

text \<open>Filtering and mapping every table filters and maps the abstract table.\<close>

lemma lookup_filter_tables:
  assumes "mt_wf t"
  shows "lookup (each_table (om_filter P) t) vid a =
           (case lookup t vid a of None \<Rightarrow> None | Some e \<Rightarrow> if P a e then Some e else None)"
  using mt_wf_cell(1) [OF assms] unfolding lookup_each_table [OF assms]
  by (auto simp: lookup_def table_ok_def map_of_om_filter split: option.splits)

lemma lookup_map_tables:
  assumes "mt_wf t"
  shows "lookup (each_table (om_map f) t) vid a = map_option f (lookup t vid a)"
  unfolding lookup_each_table [OF assms]
  by (auto simp: lookup_def map_of_om_map split: option.split)

section \<open>Effect of the operations\<close>

lemma lookup_entry_vid:
  assumes "mt_wf t" and "lookup t vid a = Some entry"
  shows "entry_vid entry = vid"
  using mt_wf_cell(1) [OF assms(1)] assms(2)
  by (fastforce simp: lookup_def table_ok_def split: option.splits dest: map_of_SomeD)

lemma cell_counters [simp]:
  "cell (t\<lparr>lastPurge := x\<rparr>) = cell t" "cell (t\<lparr>agingTime := y\<rparr>) = cell t"
  by (simp_all add: cell_def fun_eq_iff)

lemma mt_wf_counters [simp]:
  "mt_wf (t\<lparr>lastPurge := x\<rparr>) = mt_wf t" "mt_wf (t\<lparr>agingTime := y\<rparr>) = mt_wf t"
  "lookup (t\<lparr>lastPurge := x\<rparr>) = lookup t" "lookup (t\<lparr>agingTime := y\<rparr>) = lookup t"
  by (simp_all add: mt_wf_def lookup_def fun_eq_iff split: option.split)

text \<open>What an operation at time \<open>now\<close> that drops aged entries keeps of a lookup.\<close>

definition keep_fresh :: "simtime \<Rightarrow> mac_table \<Rightarrow> AddressEntry option \<Rightarrow> AddressEntry option" where
  "keep_fresh now t x = (case x of None \<Rightarrow> None | Some e \<Rightarrow> if aged now t e then None else Some e)"

lemma getPortForAddress_wf:
  assumes "mt_wf t"
  shows "mt_wf (snd (getPortForAddress now a vid t))"
  using mt_wf_cell(1) [OF assms] assms
  by (auto simp: getPortForAddress_def getTableForVid_wf
      intro!: mt_wf_set_cell [OF assms, where vid = vid] table_ok_erase split: option.split)

lemma getPortForAddress_result:
  assumes "mt_wf t"
  shows "fst (getPortForAddress now a vid t) =
           (case keep_fresh now t (lookup t vid a) of None \<Rightarrow> -1 | Some e \<Rightarrow> portno e)"
  using assms
  by (auto simp: getPortForAddress_def getTableForVid_wf lookup_def keep_fresh_def split: option.split)

lemma getPortForAddress_lookup:
  assumes "mt_wf t"
  shows "lookup (snd (getPortForAddress now a vid t)) w b =
           (if w = vid \<and> b = a then keep_fresh now t (lookup t w b) else lookup t w b)"
proof -
  have "om_wf (cell t p)" if "map_of (vlanAddressTable t) vid = Some p" for p
    using mt_wf_cell(1) [OF assms that] by (simp add: table_ok_def)
  then show ?thesis
    using assms lookup_set_cell [OF assms]
    by (auto simp: getPortForAddress_def getTableForVid_wf keep_fresh_def map_of_om_erase
        split: option.split) (auto simp: lookup_def split: option.splits)
qed

lemma removeAgedEntriesFromAllVlans_spec:
  assumes "mt_wf t"
  shows "mt_wf (removeAgedEntriesFromAllVlans now t)"
    and "lookup (removeAgedEntriesFromAllVlans now t) w b = keep_fresh now t (lookup t w b)"
  using assms
  by (auto simp: removeAgedEntriesFromAllVlans_def lookup_filter_tables keep_fresh_def
      intro!: each_table_wf split: option.split)

lemma removeAgedEntriesFromVlan_spec:
  assumes "mt_wf t"
  shows "mt_wf (removeAgedEntriesFromVlan now vid t)"
    and "lookup (removeAgedEntriesFromVlan now vid t) w b =
           (if w = vid then keep_fresh now t (lookup t w b) else lookup t w b)"
proof -
  have k: "table_ok vid (cell t p)" if "map_of (vlanAddressTable t) vid = Some p" for p
    using mt_wf_cell(1) [OF assms that] .
  show "mt_wf (removeAgedEntriesFromVlan now vid t)"
    using assms k
    by (auto simp: removeAgedEntriesFromVlan_def getTableForVid_wf
        intro!: mt_wf_set_cell [OF assms, where vid = vid] table_ok_filter split: option.split)
  have "map_of (om_filter (\<lambda>_ entry. \<not> aged now t entry) (cell t p)) b
      = keep_fresh now t (map_of (cell t p) b)" if "map_of (vlanAddressTable t) vid = Some p" for p
    using k [OF that]
    by (auto simp: table_ok_def map_of_om_filter keep_fresh_def split: option.split)
  then show "lookup (removeAgedEntriesFromVlan now vid t) w b =
      (if w = vid then keep_fresh now t (lookup t w b) else lookup t w b)"
    using assms lookup_set_cell [OF assms]
    by (auto simp: removeAgedEntriesFromVlan_def getTableForVid_wf split: option.split)
      (auto simp: lookup_def keep_fresh_def split: option.splits)
qed

lemma removeAgedEntriesIfNeeded_spec:
  assumes "mt_wf t"
  shows "mt_wf (removeAgedEntriesIfNeeded now t)"
    and "lookup (removeAgedEntriesIfNeeded now t) w b =
           (if now \<ge> lastPurge t + SIMTIME_SECOND then keep_fresh now t (lookup t w b) else lookup t w b)"
    and "lastPurge (removeAgedEntriesIfNeeded now t) = now"
    and "agingTime (removeAgedEntriesIfNeeded now t) = agingTime t"
    and "vlanAddressTable (removeAgedEntriesIfNeeded now t) = vlanAddressTable t"
  using removeAgedEntriesFromAllVlans_spec [OF assms] assms
  by (auto simp: removeAgedEntriesIfNeeded_def Let_def removeAgedEntriesFromAllVlans_def)

text \<open>
  A table for a VLAN that has none yet: the first part of \<open>updateTableWithAddress\<close>.
\<close>

definition ensure_table :: "u32 \<Rightarrow> mac_table \<Rightarrow> nat \<times> mac_table" where
  "ensure_table vid t =
     (case getTableForVid t vid of
        None \<Rightarrow>
          let (p, t0) = new_table t;
              t0 = (if vid = 0 then t0\<lparr>addressTable := Some p\<rparr> else t0)
          in (p, t0\<lparr>vlanAddressTable := om_put vid p (vlanAddressTable t0)\<rparr>)
      | Some p \<Rightarrow> (p, t))"

lemma distinct_om_put:
  "distinct (map snd m) \<Longrightarrow> p \<notin> snd ` set m \<Longrightarrow> distinct (map snd (om_put k p m))"
proof (induction k p m rule: om_put.induct)
  case (2 k v k' v' m)
  then have "snd ` set (om_put k v m) \<subseteq> insert v (snd ` set m)"
    using set_om_put_subset [of k v m] by force
  with 2 show ?case by (auto simp: image_iff)
qed simp

lemma ensure_table_spec:
  assumes "mt_wf t" and "ensure_table vid t = (p, u)"
  shows "mt_wf u" and "map_of (vlanAddressTable u) vid = Some p" and "lookup u = lookup t"
    and "agingTime u = agingTime t" and "lastPurge u = lastPurge t"
proof -
  consider (old) "map_of (vlanAddressTable t) vid = Some p" "u = t"
    | (new) "map_of (vlanAddressTable t) vid = None" "p = fresh t"
        "vlanAddressTable u = om_put vid p (vlanAddressTable t)" "fresh u = Suc (fresh t)"
        "heap u = (heap t)(p \<mapsto> [])"
        "addressTable u = (if vid = 0 then Some p else addressTable t)"
        "agingTime u = agingTime t" "lastPurge u = lastPurge t"
    using assms
    by (auto simp: ensure_table_def getTableForVid_wf new_table_def Let_def split: option.splits)
  then have "mt_wf u \<and> map_of (vlanAddressTable u) vid = Some p \<and> lookup u = lookup t
      \<and> agingTime u = agingTime t \<and> lastPurge u = lastPurge t"
  proof cases
    case new
    have fr: "q < fresh t" if "(v, q) \<in> set (vlanAddressTable t)" for v q
      using assms(1) that by (auto simp: mt_wf_def)
    have c: "cell u q = (if q = p then [] else cell t q)" for q by (simp add: cell_def new)
    have "distinct (map snd (vlanAddressTable u))"
      using assms(1) fr new by (fastforce simp: mt_wf_def intro: distinct_om_put)
    moreover have "\<forall>(v, q) \<in> set (vlanAddressTable u). q < fresh u \<and> heap u q \<noteq> None \<and> table_ok v (cell u q)"
      using assms(1) set_om_put_subset [of vid p "vlanAddressTable t"] fr c
      by (fastforce simp: mt_wf_def new)
    ultimately have "mt_wf u" using assms(1) new by (auto simp: mt_wf_def)
    moreover have "lookup u = lookup t"
      using fr c new by (fastforce simp: lookup_def fun_eq_iff split: option.split dest: map_of_SomeD)
    ultimately show ?thesis using new by simp
  qed (use assms in simp)
  then show "mt_wf u" and "map_of (vlanAddressTable u) vid = Some p" and "lookup u = lookup t"
    and "agingTime u = agingTime t" and "lastPurge u = lastPurge t"
    by blast+
qed

lemma updateTableWithAddress_eq:
  "updateTableWithAddress now port a vid t =
     (if isBroadcast a then (False, t)
      else case ensure_table vid t of (p, u) \<Rightarrow>
        (case map_of (cell u p) a of
           None \<Rightarrow>
             let t2 = removeAgedEntriesIfNeeded now u
             in (False, set_cell p (om_put a \<lparr>entry_vid = vid, portno = port, insertionTime = now\<rparr>
                                   (cell t2 p)) t2)
         | Some entry \<Rightarrow>
             (True, set_cell p (om_put a (entry\<lparr>insertionTime := now, portno := port\<rparr>) (cell u p)) u)))"
  by (simp add: updateTableWithAddress_def ensure_table_def new_table_def cell_def Let_def
      split: option.split)

text \<open>What \<open>updateTableWithAddress\<close> owes for an address that is not the broadcast address.\<close>

definition updated :: "simtime \<Rightarrow> int \<Rightarrow> mac_addr \<Rightarrow> u32 \<Rightarrow> mac_table \<Rightarrow> bool \<times> mac_table \<Rightarrow> bool" where
  "updated now port a vid t r \<longleftrightarrow>
     mt_wf (snd r) \<and> (fst r \<longleftrightarrow> lookup t vid a \<noteq> None)
     \<and> (\<forall>w b. lookup (snd r) w b =
           (if w = vid \<and> b = a then Some \<lparr>entry_vid = vid, portno = port, insertionTime = now\<rparr>
            else if lookup t vid a = None \<and> now \<ge> lastPurge t + SIMTIME_SECOND
            then keep_fresh now t (lookup t w b) else lookup t w b))
     \<and> agingTime (snd r) = agingTime t
     \<and> lastPurge (snd r) = (if lookup t vid a = None then now else lastPurge t)"

lemma updated_put:
  assumes "mt_wf v" and "map_of (vlanAddressTable v) vid = Some p"
    and "entry = \<lparr>entry_vid = vid, portno = port, insertionTime = now\<rparr>"
  shows "mt_wf (set_cell p (om_put a entry (cell v p)) v)"
    and "lookup (set_cell p (om_put a entry (cell v p)) v) w b =
           (if w = vid \<and> b = a then Some entry else lookup v w b)"
proof -
  have "table_ok vid (om_put a entry (cell v p))"
    using mt_wf_cell(1) [OF assms(1,2)] assms(3) by (intro table_ok_put) simp_all
  then show "mt_wf (set_cell p (om_put a entry (cell v p)) v)"
    using mt_wf_set_cell [OF assms(1,2)] by blast
  show "lookup (set_cell p (om_put a entry (cell v p)) v) w b =
      (if w = vid \<and> b = a then Some entry else lookup v w b)"
    using assms(2) by (simp add: lookup_set_cell [OF assms(1,2)]) (simp add: lookup_def)
qed

lemma update_new:
  assumes "mt_wf t" and "\<not> isBroadcast a" and "lookup t vid a = None"
  shows "updated now port a vid t (updateTableWithAddress now port a vid t)"
proof -
  obtain p u where e: "ensure_table vid t = (p, u)" by fastforce
  note u = ensure_table_spec [OF assms(1) e]
  define v where "v = removeAgedEntriesIfNeeded now u"
  note v = removeAgedEntriesIfNeeded_spec [OF u(1), of now, folded v_def]
  have vp: "map_of (vlanAddressTable v) vid = Some p" using u v by simp
  have k: "keep_fresh now u = keep_fresh now t"
    using u by (simp add: keep_fresh_def aged_def fun_eq_iff split: option.split)
  have "map_of (cell u p) a = None"
    using u assms(3) by (simp add: u(3) [symmetric] lookup_def)
  then have eq: "updateTableWithAddress now port a vid t =
      (False, set_cell p (om_put a \<lparr>entry_vid = vid, portno = port, insertionTime = now\<rparr> (cell v p)) v)"
    using e assms(2) by (simp add: updateTableWithAddress_eq v_def Let_def)
  show ?thesis
    using updated_put [OF v(1) vp refl] assms(3) u v by (simp add: eq updated_def k)
qed

lemma update_refresh:
  assumes "mt_wf t" and "\<not> isBroadcast a" and "lookup t vid a = Some entry"
  shows "updated now port a vid t (updateTableWithAddress now port a vid t)"
proof -
  obtain p u where e: "ensure_table vid t = (p, u)" by fastforce
  note u = ensure_table_spec [OF assms(1) e]
  have en: "entry\<lparr>insertionTime := now, portno := port\<rparr> =
      \<lparr>entry_vid = vid, portno = port, insertionTime = now\<rparr>"
    using lookup_entry_vid [OF assms(1,3)] by (cases entry) simp
  have "map_of (cell u p) a = Some entry"
    using u assms(3) by (simp add: u(3) [symmetric] lookup_def)
  then have eq: "updateTableWithAddress now port a vid t =
      (True, set_cell p (om_put a \<lparr>entry_vid = vid, portno = port, insertionTime = now\<rparr> (cell u p)) u)"
    using e assms(2) en by (simp add: updateTableWithAddress_eq Let_def)
  show ?thesis
    using updated_put [OF u(1,2) refl] assms(3) u by (simp add: eq updated_def)
qed

lemma updateTableWithAddress_updated:
  "mt_wf t \<Longrightarrow> \<not> isBroadcast a \<Longrightarrow>
   updated now port a vid t (updateTableWithAddress now port a vid t)"
  by (cases "lookup t vid a") (auto intro: update_new update_refresh)

lemma updateTableWithAddress_broadcast:
  "isBroadcast a \<Longrightarrow> updateTableWithAddress now port a vid t = (False, t)"
  by (simp add: updateTableWithAddress_def)

lemma updateTableWithAddress_wf:
  "mt_wf t \<Longrightarrow> mt_wf (snd (updateTableWithAddress now port a vid t))"
  using updateTableWithAddress_updated [of t a now port vid]
  by (cases "isBroadcast a") (auto simp: updateTableWithAddress_broadcast updated_def)

lemma flush_spec:
  assumes "mt_wf t"
  shows "mt_wf (flush port t)"
    and "lookup (flush port t) w b =
           (case lookup t w b of None \<Rightarrow> None | Some e \<Rightarrow> if portno e = port then None else Some e)"
  using assms by (auto simp: flush_def lookup_filter_tables intro!: each_table_wf split: option.split)

lemma copyTable_spec:
  assumes "mt_wf t"
  shows "mt_wf (copyTable portA portB t)"
    and "lookup (copyTable portA portB t) w b =
           map_option (\<lambda>e. if portno e = portA then e\<lparr>portno := portB\<rparr> else e) (lookup t w b)"
  using assms
  by (auto simp: copyTable_def lookup_map_tables intro!: each_table_wf table_ok_map)

lemma clearTable_spec:
  assumes "mt_wf t"
  shows "mt_wf (clearTable t)" and "lookup (clearTable t) w b = None"
  using assms by (auto simp: clearTable_def mt_wf_def lookup_def)

text \<open>Every element of the list of ports is written.\<close>

lemma getPortForVid_filled:
  assumes "mt_wf t"
  shows "getPortForVid vid t =
           map_option (\<lambda>p. map (\<lambda>(_, e). Some (portno e)) (cell t p)) (map_of (vlanAddressTable t) vid)"
proof -
  have "filter (\<lambda>x. entry_vid (snd x) = vid) (cell t p) = cell t p"
    if "map_of (vlanAddressTable t) vid = Some p" for p
    using mt_wf_cell(1) [OF assms that] by (auto simp: table_ok_def filter_id_conv)
  then show ?thesis
    using assms
    by (auto simp: getPortForVid_def getTableForVid_wf Let_def case_prod_unfold filter_map comp_def
        intro!: option.map_cong)
qed

section \<open>The ideal table\<close>

text \<open>
  The specification: a map from VLAN and address to the port and the time of the last learning,
  without purges, lazy deletions and several tables. Entries are forgotten by age only when they
  are looked up.
\<close>

datatype mt_event =
    Learn int mac_addr u32 | Look mac_addr u32 | Purge | PurgeVlan u32 | Flush int
  | Copy int int | Clear

fun mt_exec :: "simtime \<Rightarrow> mt_event \<Rightarrow> mac_table \<Rightarrow> mac_table" where
  "mt_exec now (Learn port a vid) t = snd (updateTableWithAddress now port a vid t)"
| "mt_exec now (Look a vid) t = snd (getPortForAddress now a vid t)"
| "mt_exec now Purge t = removeAgedEntriesFromAllVlans now t"
| "mt_exec now (PurgeVlan vid) t = removeAgedEntriesFromVlan now vid t"
| "mt_exec now (Flush port) t = flush port t"
| "mt_exec now (Copy portA portB) t = copyTable portA portB t"
| "mt_exec now Clear t = clearTable t"

type_synonym ideal = "u32 \<Rightarrow> mac_addr \<Rightarrow> (int \<times> simtime) option"

fun ideal_exec :: "simtime \<Rightarrow> mt_event \<Rightarrow> ideal \<Rightarrow> ideal" where
  "ideal_exec now (Learn port a vid) m =
     (if isBroadcast a then m else m(vid := (m vid)(a \<mapsto> (port, now))))"
| "ideal_exec now (Flush port) m =
     (\<lambda>v b. case m v b of Some (p, \<tau>) \<Rightarrow> if p = port then None else Some (p, \<tau>) | None \<Rightarrow> None)"
| "ideal_exec now (Copy portA portB) m =
     (\<lambda>v b. map_option (\<lambda>(p, \<tau>). (if p = portA then portB else p, \<tau>)) (m v b))"
| "ideal_exec now Clear m = (\<lambda>_ _. None)"
| "ideal_exec now _ m = m"

definition ideal_port :: "simtime \<Rightarrow> simtime \<Rightarrow> ideal \<Rightarrow> u32 \<Rightarrow> mac_addr \<Rightarrow> int" where
  "ideal_port now aging m vid a =
     (case m vid a of Some (p, \<tau>) \<Rightarrow> if now < \<tau> + aging then p else -1 | None \<Rightarrow> -1)"

text \<open>The two agree on the entries that are not aged at time \<open>now\<close>.\<close>

definition ideal_fresh :: "simtime \<Rightarrow> simtime \<Rightarrow> (int \<times> simtime) option \<Rightarrow> (int \<times> simtime) option" where
  "ideal_fresh now aging x =
     (case x of None \<Rightarrow> None | Some (p, \<tau>) \<Rightarrow> if now < \<tau> + aging then Some (p, \<tau>) else None)"

definition agree :: "simtime \<Rightarrow> mac_table \<Rightarrow> ideal \<Rightarrow> bool" where
  "agree now t m \<longleftrightarrow> mt_wf t
     \<and> (\<forall>v b. map_option (\<lambda>e. (portno e, insertionTime e)) (keep_fresh now t (lookup t v b))
             = ideal_fresh now (agingTime t) (m v b))"

lemma keep_fresh_keep_fresh:
  "now \<le> later \<Longrightarrow> keep_fresh later t (keep_fresh now t x) = keep_fresh later t x"
  by (auto simp: keep_fresh_def aged_def split: option.split)

lemma keep_fresh_aging: "agingTime u = agingTime t \<Longrightarrow> keep_fresh now u = keep_fresh now t"
  by (auto simp: keep_fresh_def aged_def fun_eq_iff split: option.split)

lemma fresh_later:
  assumes "now \<le> later"
    and "map_option (\<lambda>e. (portno e, insertionTime e)) (keep_fresh now t x) = ideal_fresh now (agingTime t) y"
  shows "map_option (\<lambda>e. (portno e, insertionTime e)) (keep_fresh later t x)
         = ideal_fresh later (agingTime t) y"
  using assms by (cases x; cases y) (auto simp: keep_fresh_def ideal_fresh_def aged_def split: if_splits)

lemma agree_later: "agree now t m \<Longrightarrow> now \<le> later \<Longrightarrow> agree later t m"
  by (auto simp: agree_def intro: fresh_later)

lemma mt_exec_aging: "mt_wf t \<Longrightarrow> agingTime (mt_exec now e t) = agingTime t"
proof (cases e)
  case (Learn port a vid)
  assume "mt_wf t"
  with Learn show ?thesis
    using updateTableWithAddress_updated [of t a now port vid]
    by (cases "isBroadcast a") (simp_all add: updateTableWithAddress_broadcast updated_def)
qed (auto simp: getPortForAddress_def removeAgedEntriesFromAllVlans_def removeAgedEntriesFromVlan_def
    flush_def copyTable_def clearTable_def split: option.split)

lemma mt_exec_wf: "mt_wf t \<Longrightarrow> mt_wf (mt_exec now e t)"
  by (cases e) (simp_all add: updateTableWithAddress_wf getPortForAddress_wf
      removeAgedEntriesFromAllVlans_spec removeAgedEntriesFromVlan_spec flush_spec copyTable_spec
      clearTable_spec)

text \<open>What each operation does to the entries that are not aged.\<close>

lemma keep_fresh_simps [simp]:
  "keep_fresh now t None = None"
  "keep_fresh now t (keep_fresh now t x) = keep_fresh now t x"
  "keep_fresh now t (if c then keep_fresh now t x else x) = keep_fresh now t x"
  by (simp_all add: keep_fresh_keep_fresh) (simp add: keep_fresh_def)

lemma fresh_Learn:
  assumes "mt_wf t" and "\<not> isBroadcast a"
  shows "keep_fresh now t (lookup (mt_exec now (Learn port a vid) t) v b) =
           (if v = vid \<and> b = a
            then keep_fresh now t (Some \<lparr>entry_vid = vid, portno = port, insertionTime = now\<rparr>)
            else keep_fresh now t (lookup t v b))"
  using updateTableWithAddress_updated [OF assms, of now port vid] by (simp add: updated_def)

lemma fresh_Flush:
  assumes "mt_wf t"
  shows "keep_fresh now t (lookup (mt_exec now (Flush port) t) v b) =
           (case keep_fresh now t (lookup t v b) of
              None \<Rightarrow> None | Some e \<Rightarrow> if portno e = port then None else Some e)"
  using flush_spec [OF assms] by (auto simp: keep_fresh_def split: option.split)

lemma fresh_Copy:
  assumes "mt_wf t"
  shows "keep_fresh now t (lookup (mt_exec now (Copy portA portB) t) v b) =
           map_option (\<lambda>e. if portno e = portA then e\<lparr>portno := portB\<rparr> else e)
             (keep_fresh now t (lookup t v b))"
  using copyTable_spec [OF assms] by (auto simp: keep_fresh_def aged_def split: option.split)

lemma agree_step:
  assumes ag: "agree now t m"
  shows "agree now (mt_exec now e t) (ideal_exec now e m)"
proof -
  have wf: "mt_wf t" and eq: "\<And>v b. ideal_fresh now (agingTime t) (m v b) =
      map_option (\<lambda>e. (portno e, insertionTime e)) (keep_fresh now t (lookup t v b))"
    using ag by (auto simp: agree_def)
  note kf = keep_fresh_aging [OF mt_exec_aging [OF wf], of now]
  have "map_option (\<lambda>e. (portno e, insertionTime e))
          (keep_fresh now t (lookup (mt_exec now e t) v b))
        = ideal_fresh now (agingTime t) (ideal_exec now e m v b)" for v b
  proof (cases e)
    case (Learn port a vid)
    then show ?thesis
      using fresh_Learn [OF wf, of a now port vid v b] eq [of v b]
      by (cases "isBroadcast a")
        (auto simp: updateTableWithAddress_broadcast ideal_fresh_def keep_fresh_def aged_def)
  next
    case (Flush port)
    then show ?thesis
      using fresh_Flush [OF wf, of now port v b] eq [of v b]
      by (auto simp: ideal_fresh_def split: option.splits if_splits)
  next
    case (Copy portA portB)
    then show ?thesis
      using fresh_Copy [OF wf, of now portA portB v b] eq [of v b]
      by (cases "keep_fresh now t (lookup t v b)"; cases "m v b")
        (auto simp: ideal_fresh_def split: if_splits)
  next
    case Clear
    then show ?thesis using clearTable_spec [OF wf] by (simp add: ideal_fresh_def)
  qed (use getPortForAddress_lookup [OF wf] removeAgedEntriesFromAllVlans_spec(2) [OF wf]
      removeAgedEntriesFromVlan_spec(2) [OF wf] eq in simp_all)
  then show ?thesis
    using mt_exec_wf [OF wf] mt_exec_aging [OF wf] by (simp add: agree_def kf)
qed

text \<open>Runs, with the time of each event.\<close>

fun mt_run :: "mac_table \<Rightarrow> (simtime \<times> mt_event) list \<Rightarrow> mac_table" where
  "mt_run t [] = t"
| "mt_run t ((now, e) # es) = mt_run (mt_exec now e t) es"

fun ideal_run :: "ideal \<Rightarrow> (simtime \<times> mt_event) list \<Rightarrow> ideal" where
  "ideal_run m [] = m"
| "ideal_run m ((now, e) # es) = ideal_run (ideal_exec now e m) es"

lemma agree_run:
  "agree now t m \<Longrightarrow> sorted (now # map fst es) \<Longrightarrow> \<forall>\<tau> \<in> set (map fst es). \<tau> \<le> later \<Longrightarrow> now \<le> later \<Longrightarrow>
   agree later (mt_run t es) (ideal_run m es)"
proof (induction es arbitrary: now t m)
  case (Cons x es)
  obtain \<tau> e where x: "x = (\<tau>, e)" by fastforce
  have "agree \<tau> (mt_exec \<tau> e t) (ideal_exec \<tau> e m)"
    using agree_step [OF agree_later [OF Cons.prems(1)]] Cons.prems(2) by (simp add: x)
  then show ?case using Cons.IH [of \<tau>] Cons.prems by (simp add: x)
qed (simp add: agree_later)

lemma mt_run_aging: "mt_wf t \<Longrightarrow> agingTime (mt_run t es) = agingTime t"
  by (induction t es rule: mt_run.induct) (simp_all add: mt_exec_aging mt_exec_wf)

lemma agree_new: "agree now (mt_new aging) (\<lambda>_ _. None)"
  by (simp add: agree_def) (simp add: mt_new_def lookup_def cell_def ideal_fresh_def)

section \<open>Files\<close>

text \<open>\<open>readAddressTable\<close> runs while the table of VLAN 0 exists.\<close>

definition mt_ready :: "mac_table \<Rightarrow> bool" where
  "mt_ready t \<longleftrightarrow> mt_wf t \<and> addressTable t \<noteq> None"

lemma insert_line_eq:
  assumes "mt_ready t"
  shows "insert_line vlanID h port t =
     bindR (atoi vlanID) (\<lambda>v. bindR (atoi port) (\<lambda>p. bindR (setAddress 0 h) (\<lambda>a.
       case ensure_table (word_of_int v) t of (q, u) \<Rightarrow>
         Inr (set_cell q (om_put a \<lparr>entry_vid = word_of_int v, portno = p, insertionTime = 0\<rparr> (cell u q)) u))))"
proof -
  have "getTableForVid t v = None \<Longrightarrow> v \<noteq> 0" for v
    using assms by (auto simp: getTableForVid_def mt_ready_def)
  then have "ensure_table v t =
      (case getTableForVid t v of
         None \<Rightarrow> (let (q, t0) = new_table t in (q, t0\<lparr>vlanAddressTable := om_put v q (vlanAddressTable t0)\<rparr>))
       | Some q \<Rightarrow> (q, t))" for v
    by (auto simp: ensure_table_def new_table_def Let_def split: option.split)
  then show ?thesis
    by (cases "atoi vlanID"; cases "atoi port"; cases "setAddress 0 h")
      (auto simp: insert_line_def Let_def split: option.split prod.split)
qed

lemma insert_line_spec:
  assumes "mt_ready t" and "insert_line vlanID h port t = Inr t'"
  shows "\<exists>v p a. atoi vlanID = Inr v \<and> atoi port = Inr p \<and> setAddress 0 h = Inr a \<and> mt_ready t'
           \<and> (\<forall>w b. lookup t' w b =
                (if w = word_of_int v \<and> b = a
                 then Some \<lparr>entry_vid = w, portno = p, insertionTime = 0\<rparr> else lookup t w b))"
proof -
  have "\<exists>v p a. atoi vlanID = Inr v \<and> atoi port = Inr p \<and> setAddress 0 h = Inr a"
    using assms(2) by (cases "atoi vlanID"; cases "atoi port"; cases "setAddress 0 h")
      (auto simp: insert_line_eq [OF assms(1)])
  then obtain v p a where v: "atoi vlanID = Inr v" "atoi port = Inr p" "setAddress 0 h = Inr a"
    by blast
  obtain q u where e: "ensure_table (word_of_int v) t = (q, u)" by fastforce
  have t': "t' = set_cell q (om_put a \<lparr>entry_vid = word_of_int v, portno = p, insertionTime = 0\<rparr> (cell u q)) u"
    using assms v e by (simp add: insert_line_eq)
  have wf: "mt_wf t" using assms(1) by (simp add: mt_ready_def)
  note u = ensure_table_spec [OF wf e]
  have "addressTable u \<noteq> None"
    using assms(1) e by (auto simp: mt_ready_def ensure_table_def new_table_def Let_def split: option.splits)
  then show ?thesis
    using v updated_put [OF u(1,2) refl, of a p 0] u(3) by (auto simp: t' mt_ready_def)
qed

lemma read_line_ready:
  assumes "mt_ready t" and "read_line ev line t = Inr t'"
  shows "mt_ready t'"
  using assms insert_line_spec [OF assms(1)]
  by (fastforce simp: read_line_def Let_def bindR_Inr_iff split: if_splits prod.splits option.splits)

text \<open>A stream of new addresses, each less than a second after the one before.\<close>

fun busy :: "simtime \<Rightarrow> (simtime \<times> int \<times> mac_addr \<times> u32) list \<Rightarrow> bool" where
  "busy before [] = True"
| "busy before ((now, _, a, _) # es) \<longleftrightarrow>
     now < before + SIMTIME_SECOND \<and> \<not> isBroadcast a \<and> busy now es"

abbreviation learn_all :: "(simtime \<times> int \<times> mac_addr \<times> u32) list \<Rightarrow> (simtime \<times> mt_event) list" where
  "learn_all \<equiv> map (\<lambda>(now, port, a, vid). (now, Learn port a vid))"

section \<open>Properties\<close>

text \<open>
  C34. Refinement: after any history of learning, lookups, purges, flushes, copies and clears, the
  port reported for an address in a VLAN is the one the ideal table reports: the port of the last
  frame learnt from that address in that VLAN, if that was less than the aging time ago, and \<open>-1\<close>
  otherwise. The pointers, the lazy deletion and the purges are invisible.
\<close>

theorem address_table_refines_ideal:
  assumes "sorted (map fst es)" and "\<forall>\<tau> \<in> set (map fst es). 0 \<le> \<tau> \<and> \<tau> \<le> now" and "0 \<le> now"
  shows "fst (getPortForAddress now a vid (mt_run (mt_new aging) es))
         = ideal_port now aging (ideal_run (\<lambda>_ _. None) es) vid a"
proof -
  have "agree now (mt_run (mt_new aging) es) (ideal_run (\<lambda>_ _. None) es)"
    using agree_run [OF agree_new [of 0], of es now] assms by auto
  then have wf: "mt_wf (mt_run (mt_new aging) es)"
    and "map_option (\<lambda>e. (portno e, insertionTime e))
           (keep_fresh now (mt_run (mt_new aging) es) (lookup (mt_run (mt_new aging) es) vid a))
         = ideal_fresh now aging (ideal_run (\<lambda>_ _. None) es vid a)"
    using mt_run_aging [of "mt_new aging" es] by (auto simp: agree_def)
  then show ?thesis
    unfolding getPortForAddress_result [OF wf]
    by (auto simp: ideal_port_def ideal_fresh_def split: option.splits if_splits)
qed

lemma address_table_refines_ideal_witness:
  "fst (getPortForAddress 50 7 3 (mt_run (mt_new 100) [(10, Learn 2 7 3), (20, Look 9 3), (30, Learn 4 7 3)])) = 4"
  using address_table_refines_ideal
    [of "[(10, Learn 2 7 3), (20, Look 9 3), (30, Learn 4 7 3)]" 50 7 3 100]
  by (simp add: ideal_port_def isBroadcast_def BROADCAST_ADDRESS_def MAC_ADDRESS_MASK_def)

text \<open>
  Reading an address table file either stops with an error or leaves the pointers sound: one
  live table per VLAN, the table of VLAN 0 the one \<open>addressTable\<close> points to, every entry under
  its own VLAN.
\<close>

theorem readAddressTable_wf:
  assumes "mt_ready t" and "readAddressTable ev_enabled file t = Inr t'"
  shows "mt_ready t'"
proof -
  have "read_lines ev_enabled content u = Inr t' \<Longrightarrow> mt_ready u \<Longrightarrow> mt_ready t'" for content u
  proof (induction ev_enabled content u rule: read_lines.induct)
    case (1 ev content u)
    then show ?case
      by (auto simp: read_lines.simps [of ev content u] split: option.splits prod.splits sum.splits
          dest: read_line_ready)
  qed
  then show ?thesis using assms by (auto simp: readAddressTable_def split: option.splits)
qed

text \<open>
  The file syntax the code documents is not accepted: the first documented example line is
  rejected because its address has 8 hex digits, and an empty line crashes the program when event
  logging is on although the code means to skip it.
\<close>

theorem documented_file_syntax:
  "read_line ev_enabled ''1    ffffffff    1'' t = Inl (RuntimeError ''address syntax'')
   \<and> read_line True [] t = Inl NullDeref \<and> read_line False [] t = Inr t"
proof -
  have 1: "strtok ''1    ffffffff    1'' = (Some ''1'', ''   ffffffff    1'')"
    and 2: "strtok ''   ffffffff    1'' = (Some ''ffffffff'', ''   1'')"
    and 3: "strtok ''   1'' = (Some ''1'', [])" and 4: "strtok [] = (None, [])"
    and 5: "atoi ''1'' = Inr 1"
    and 6: "setAddress 0 ''ffffffff'' = Inl (RuntimeError ''address syntax'')"
    by code_simp+
  have "read_line ev_enabled ''1    ffffffff    1'' t = Inl (RuntimeError ''address syntax'')"
    by (simp add: read_line_def 1 2 3 5 6 ev_atoi_def insert_line_def case_prod_unfold Let_def)
  moreover have "read_line True [] t = Inl NullDeref" and "read_line False [] t = Inr t"
    by (simp_all add: read_line_def 4 ev_atoi_def)
  ultimately show ?thesis by blast
qed

lemma readAddressTable_wf_witness:
  "mt_ready (projr (readAddressTable True (Some ''1 0A-AA-00-00-00-01 2'') (mt_new 100)))"
proof (rule readAddressTable_wf)
  show "mt_ready (mt_new 100)" by (simp add: mt_ready_def) (simp add: mt_new_def)
  have "isl (readAddressTable True (Some ''1 0A-AA-00-00-00-01 2'') (mt_new 100)) = False"
    by code_simp
  then show "readAddressTable True (Some ''1 0A-AA-00-00-00-01 2'') (mt_new 100) =
      Inr (projr (readAddressTable True (Some ''1 0A-AA-00-00-00-01 2'') (mt_new 100)))"
    by (simp add: sum.collapse(2))
qed

text \<open>
  Under load nothing is ever purged: while new addresses keep arriving less than a second
  apart, every entry stays in the table however old it is, because \<open>lastPurge\<close> is advanced by
  every call of \<open>removeAgedEntriesIfNeeded\<close> and not only by the calls that purge.
\<close>

theorem purge_starved_under_load:
  assumes "mt_wf t" and "busy (lastPurge t) es"
    and "distinct (map (\<lambda>(_, _, a, vid). (vid, a)) es)"
    and "\<forall>(_, _, a, vid) \<in> set es. lookup t vid a = None"
    and "lookup t w b = Some entry"
  shows "lookup (mt_run t (learn_all es)) w b = Some entry"
  using assms
proof (induction es arbitrary: t)
  case (Cons x es)
  obtain now port a vid where x: "x = (now, port, a, vid)" by (cases x) auto
  define u where "u = snd (updateTableWithAddress now port a vid t)"
  have u: "updated now port a vid t (updateTableWithAddress now port a vid t)"
    using Cons.prems by (intro updateTableWithAddress_updated) (simp_all add: x)
  have new: "lookup t vid a = None" and soon: "now < lastPurge t + SIMTIME_SECOND"
    using Cons.prems(2,4) by (simp_all add: x)
  have l: "lookup u v c = (if v = vid \<and> c = a
      then Some \<lparr>entry_vid = vid, portno = port, insertionTime = now\<rparr> else lookup t v c)" for v c
    using u new soon by (simp add: updated_def u_def)
  have "mt_wf u" and "lastPurge u = now" using u new by (simp_all add: updated_def u_def)
  moreover have "\<forall>(_, _, c, v) \<in> set es. lookup u v c = None"
    using Cons.prems(3,4) by (auto simp: l x) (force simp: image_iff)
  moreover have "lookup u w b = Some entry" using Cons.prems(5) new by (auto simp: l)
  ultimately show ?case
    using Cons.IH [of u] Cons.prems by (simp add: x u_def)
qed simp

lemma one_entry:
  "mt_run (mt_new 1) [(0, Learn 1 7 0)] =
     (mt_new 1)\<lparr>heap := [0 \<mapsto> [(7, \<lparr>entry_vid = 0, portno = 1, insertionTime = 0\<rparr>)]]\<rparr>"
  by (simp add: updateTableWithAddress_def getTableForVid_def removeAgedEntriesIfNeeded_def
      SIMTIME_SECOND_def mt_new_def cell_def set_cell_def Let_def isBroadcast_def
      BROADCAST_ADDRESS_def MAC_ADDRESS_MASK_def)

lemma purge_starved_under_load_witness:
  "lookup (mt_run (mt_run (mt_new 1) [(0, Learn 1 7 0)])
     (learn_all [(500000000000, 2, 8, 0), (1000000000000, 3, 9, 0)])) 0 7
   = Some \<lparr>entry_vid = 0, portno = 1, insertionTime = 0\<rparr>"
proof (rule purge_starved_under_load)
  show "mt_wf (mt_run (mt_new 1) [(0, Learn 1 7 0)])" by (simp add: updateTableWithAddress_wf)
  show "busy (lastPurge (mt_run (mt_new 1) [(0, Learn 1 7 0)]))
      [(500000000000, 2, 8, 0), (1000000000000, 3, 9, 0)]"
    unfolding one_entry
    by (simp add: mt_new_def SIMTIME_SECOND_def isBroadcast_def BROADCAST_ADDRESS_def MAC_ADDRESS_MASK_def)
  show "lookup (mt_run (mt_new 1) [(0, Learn 1 7 0)]) 0 7
      = Some \<lparr>entry_vid = 0, portno = 1, insertionTime = 0\<rparr>"
    unfolding one_entry by (simp add: lookup_def mt_new_def cell_def)
  show "\<forall>(_, _, a, vid) \<in> set [(500000000000, 2, 8, 0), (1000000000000, 3, 9, 0)].
      lookup (mt_run (mt_new 1) [(0, Learn 1 7 0)]) vid a = None"
    unfolding one_entry by (simp add: lookup_def mt_new_def cell_def)
qed simp

end
