(* ===== verification/RSTP.thy ===== *)
theory RSTP
  imports Ieee8021d MACAddressTable
begin

text \<open>
  \<open>linklayer/ieee8021d/rstp/RSTP\<close>: the rapid spanning tree protocol of one bridge. The data of its ports is part of
  its state, as a list with one entry for each port, and so are the address table of the switch, the model of
  \<open>MACAddressTable\<close>, and the carrier flags of the interfaces, which the MACs set. What the code only displays is
  left out.
\<close>

section \<open>State\<close>

record rstp =
  rOperational :: bool
  rBridgePriority :: u32
  rBridgeAddress :: mac_addr
  rMaxAge :: simtime
  rHelloTime :: simtime
  rForwardDelay :: simtime
  rMigrateTime :: simtime
  rTcWhileTime :: simtime
  rAutoEdge :: bool
  rHelloTimer :: app_timer
  rUpgradeTimer :: app_timer
  rPorts :: "PortInfo list"
  rCarrier :: "nat \<Rightarrow> bool"
  rTable :: mac_table
  rOut :: "(BPDU \<times> Ieee802Ctrl) list"

definition SELF_HELLOTIME :: int where "SELF_HELLOTIME = 1"
definition SELF_UPGRADE :: int where "SELF_UPGRADE = 2"

abbreviation rNumPorts :: "rstp \<Rightarrow> nat" where "rNumPorts s \<equiv> length (rPorts s)"

text \<open>\<open>getPortInterfaceData\<close> for an index that came from outside; the other uses are on existing ports.\<close>

definition rstp_port :: "int \<Rightarrow> rstp \<Rightarrow> nat res" where
  "rstp_port portNum s =
     (if 0 \<le> portNum \<and> portNum < int (rNumPorts s) then Inr (nat portNum) else Inl (RuntimeError ''gate is NULL''))"

definition set_data :: "nat \<Rightarrow> (PortInfo \<Rightarrow> PortInfo) \<Rightarrow> rstp \<Rightarrow> rstp" where
  "set_data i f s = s\<lparr>rPorts := (rPorts s)[i := f (rPorts s ! i)]\<rparr>"

definition flush_port :: "nat \<Rightarrow> rstp \<Rightarrow> rstp" where
  "flush_port i s = s\<lparr>rTable := flush (int i) (rTable s)\<rparr>"

definition copy_port :: "nat \<Rightarrow> nat \<Rightarrow> rstp \<Rightarrow> rstp" where
  "copy_port i j s = s\<lparr>rTable := copyTable (int i) (int j) (rTable s)\<rparr>"

text \<open>The changes of role, state and counter that the code makes over and over.\<close>

abbreviation become :: "PortRole \<Rightarrow> PortState \<Rightarrow> PortInfo \<Rightarrow> PortInfo" where
  "become r st p \<equiv> p\<lparr>pi_role := r, pi_state := st\<rparr>"

abbreviation to_root :: "PortInfo \<Rightarrow> PortInfo" where
  "to_root p \<equiv> (become ROOT FORWARDING p)\<lparr>pi_lostBPDU := 0\<rparr>"

definition contend :: "simtime \<Rightarrow> nat \<Rightarrow> rstp \<Rightarrow> rstp" where
  "contend now i s = set_data i (\<lambda>p. (become DESIGNATED DISCARDING p)\<lparr>pi_nextUpgrade := now + rForwardDelay s\<rparr>) s"

text \<open>\<open>getRootIndex\<close> of \<open>STPBase\<close>; \<open>None\<close> is the result -1.\<close>

definition getRootIndex :: "rstp \<Rightarrow> nat option" where
  "getRootIndex s = List.find (\<lambda>i. pi_role (rPorts s ! i) = ROOT) [0..<rNumPorts s]"

section \<open>Comparisons\<close>

datatype CompareResult =
    WORSE_PORT | WORSE_SRC | WORSE_RPC | WORSE_ROOT | SIMILAR | BETTER_ROOT | BETTER_RPC | BETTER_SRC | BETTER_PORT

primrec cr_value :: "CompareResult \<Rightarrow> int" where
  "cr_value WORSE_PORT = -4"
| "cr_value WORSE_SRC = -3"
| "cr_value WORSE_RPC = -2"
| "cr_value WORSE_ROOT = -1"
| "cr_value SIMILAR = 0"
| "cr_value BETTER_ROOT = 1"
| "cr_value BETTER_RPC = 2"
| "cr_value BETTER_SRC = 3"
| "cr_value BETTER_PORT = 4"

text \<open>The parameters are of type \<open>int\<close>: the unsigned numbers of ports and messages are read as signed ones.\<close>

definition compareRSTPData ::
    "u32 \<Rightarrow> u32 \<Rightarrow> mac_addr \<Rightarrow> mac_addr \<Rightarrow> u32 \<Rightarrow> u32 \<Rightarrow> u32 \<Rightarrow> u32 \<Rightarrow> mac_addr \<Rightarrow> mac_addr
     \<Rightarrow> u32 \<Rightarrow> u32 \<Rightarrow> u32 \<Rightarrow> u32 \<Rightarrow> CompareResult" where
  "compareRSTPData rootPriority1 rootPriority2 rootAddress1 rootAddress2 rootPathCost1 rootPathCost2
       bridgePriority1 bridgePriority2 bridgeAddress1 bridgeAddress2 portPriority1 portPriority2 portNum1 portNum2 =
     (if rootPriority1 \<noteq> rootPriority2
      then if sint rootPriority1 < sint rootPriority2 then WORSE_ROOT else BETTER_ROOT
      else let c = compareTo rootAddress1 rootAddress2 in
      if c \<noteq> 0 then if c < 0 then WORSE_ROOT else BETTER_ROOT
      else if rootPathCost1 \<noteq> rootPathCost2
      then if sint rootPathCost1 < sint rootPathCost2 then WORSE_RPC else BETTER_RPC
      else if bridgePriority1 \<noteq> bridgePriority2
      then if sint bridgePriority1 < sint bridgePriority2 then WORSE_SRC else BETTER_SRC
      else let c = compareTo bridgeAddress1 bridgeAddress2 in
      if c \<noteq> 0 then if c < 0 then WORSE_SRC else BETTER_SRC
      else if portPriority1 \<noteq> portPriority2
      then if sint portPriority1 < sint portPriority2 then WORSE_PORT else BETTER_PORT
      else if portNum1 \<noteq> portNum2
      then if sint portNum1 < sint portNum2 then WORSE_PORT else BETTER_PORT
      else SIMILAR)"

text \<open>
  \<open>ifd\<close> is the data of the port the code gets by its number. \<open>rootPort\<close> is the data of the root port, which must
  exist: the index -1 is an error.
\<close>

definition compareInterfacedata :: "PortInfo \<Rightarrow> BPDU \<Rightarrow> u32 \<Rightarrow> CompareResult" where
  "compareInterfacedata ifd msg linkCost =
     compareRSTPData (pi_rootPriority ifd) (bp_rootPriority msg) (pi_rootAddress ifd) (bp_rootAddress msg)
       (pi_rootPathCost ifd) (bp_rootPathCost msg + linkCost) (pi_bridgePriority ifd) (bp_bridgePriority msg)
       (pi_bridgeAddress ifd) (bp_bridgeAddress msg) (pi_portPriority ifd) (bp_portPriority msg)
       (pi_portNum ifd) (bp_portNum msg)"

definition contestInterfacedata :: "nat \<Rightarrow> rstp \<Rightarrow> CompareResult res" where
  "contestInterfacedata portNum s =
     (case getRootIndex s of
        None \<Rightarrow> Inl (RuntimeError ''gate is NULL'')
      | Some r \<Rightarrow>
          let rootPort = rPorts s ! r; ifd = rPorts s ! portNum
          in Inr (compareRSTPData (pi_rootPriority rootPort) (pi_rootPriority ifd)
               (pi_rootAddress rootPort) (pi_rootAddress ifd)
               (pi_rootPathCost rootPort + pi_linkCost ifd) (pi_rootPathCost ifd)
               (rBridgePriority s) (pi_bridgePriority ifd) (rBridgeAddress s) (pi_bridgeAddress ifd)
               (pi_portPriority ifd) (pi_portPriority ifd) (of_nat portNum) (pi_portNum ifd)))"

definition contestInterfacedata_msg :: "BPDU \<Rightarrow> nat \<Rightarrow> rstp \<Rightarrow> CompareResult res" where
  "contestInterfacedata_msg msg portNum s =
     (case getRootIndex s of
        None \<Rightarrow> Inl (RuntimeError ''gate is NULL'')
      | Some r \<Rightarrow>
          let rootPort = rPorts s ! r; ifd = rPorts s ! portNum
          in Inr (compareRSTPData (pi_rootPriority rootPort) (bp_rootPriority msg)
               (pi_rootAddress rootPort) (bp_rootAddress msg)
               (pi_rootPathCost rootPort) (bp_rootPathCost msg)
               (rBridgePriority s) (bp_bridgePriority msg) (rBridgeAddress s) (bp_bridgeAddress msg)
               (pi_portPriority ifd) (bp_portPriority msg) (of_nat portNum) (bp_portNum msg)))"

text \<open>Two ports compared as \<open>getBestAlternate\<close> does.\<close>

definition compare_ports :: "PortInfo \<Rightarrow> PortInfo \<Rightarrow> CompareResult" where
  "compare_ports p q =
     compareRSTPData (pi_rootPriority p) (pi_rootPriority q) (pi_rootAddress p) (pi_rootAddress q)
       (pi_rootPathCost p) (pi_rootPathCost q) (pi_bridgePriority p) (pi_bridgePriority q)
       (pi_bridgeAddress p) (pi_bridgeAddress q) (pi_portPriority p) (pi_portPriority q) (pi_portNum p) (pi_portNum q)"

text \<open>\<open>getBestAlternate\<close>: one round of its loop and the loop; \<open>None\<close> is the result -1.\<close>

definition better_alternate :: "PortInfo list \<Rightarrow> nat option \<Rightarrow> nat \<Rightarrow> nat option" where
  "better_alternate ps candidate j =
     (if pi_role (ps ! j) = ALTERNATE
      then case candidate of
             None \<Rightarrow> Some j
           | Some c \<Rightarrow> if cr_value (compare_ports (ps ! j) (ps ! c)) < 0 then Some j else candidate
      else candidate)"

definition getBestAlternate :: "rstp \<Rightarrow> nat option" where
  "getBestAlternate s = foldl (better_alternate (rPorts s)) None [0..<rNumPorts s]"

section \<open>The upgrade timer\<close>

definition awaits_upgrade :: "PortInfo \<Rightarrow> bool" where
  "awaits_upgrade p \<longleftrightarrow>
     pi_role p = NOTASSIGNED \<or> pi_role p = DESIGNATED \<and> (pi_state p = DISCARDING \<or> pi_state p = LEARNING)"

definition earlier_upgrade :: "rstp \<Rightarrow> nat option \<Rightarrow> nat \<Rightarrow> nat option" where
  "earlier_upgrade s next i =
     (if rCarrier s i \<and> awaits_upgrade (rPorts s ! i)
      then case next of
             None \<Rightarrow> Some i
           | Some j \<Rightarrow> if pi_nextUpgrade (rPorts s ! i) < pi_nextUpgrade (rPorts s ! j) then Some i else next
      else next)"

definition scheduleNextUpgrde :: "simtime \<Rightarrow> rstp \<Rightarrow> rstp res" where
  "scheduleNextUpgrde now s =
     (let timer = cancelEvent (rUpgradeTimer s) in
      case foldl (earlier_upgrade s) None [0..<rNumPorts s] of
        None \<Rightarrow> Inr (s\<lparr>rUpgradeTimer := timer\<rparr>)
      | Some i \<Rightarrow> bindR (scheduleAt now (pi_nextUpgrade (rPorts s ! i)) timer) (\<lambda>t. Inr (s\<lparr>rUpgradeTimer := t\<rparr>)))"

section \<open>Data of the ports\<close>

definition init_data :: "rstp \<Rightarrow> PortInfo \<Rightarrow> PortInfo" where
  "init_data s p =
     p\<lparr>pi_rootPriority := rBridgePriority s, pi_rootAddress := rBridgeAddress s, pi_rootPathCost := 0, pi_age := 0,
       pi_bridgePriority := rBridgePriority s, pi_bridgeAddress := rBridgeAddress s, pi_portPriority := -1,
       pi_portNum := -1, pi_lostBPDU := 0\<rparr>"

definition rstp_initInterfacedata :: "nat \<Rightarrow> rstp \<Rightarrow> rstp" where
  "rstp_initInterfacedata i s = set_data i (init_data s) s"

definition updateInterfacedata :: "BPDU \<Rightarrow> nat \<Rightarrow> rstp \<Rightarrow> rstp" where
  "updateInterfacedata frame i =
     set_data i (\<lambda>p. p\<lparr>pi_rootPriority := bp_rootPriority frame, pi_rootAddress := bp_rootAddress frame,
       pi_rootPathCost := bp_rootPathCost frame + pi_linkCost p, pi_age := bp_messageAge frame + SIMTIME_SECOND,
       pi_bridgePriority := bp_bridgePriority frame, pi_bridgeAddress := bp_bridgeAddress frame,
       pi_portPriority := bp_portPriority frame, pi_portNum := bp_portNum frame, pi_lostBPDU := 0\<rparr>)"

definition initial_port :: "simtime \<Rightarrow> rstp \<Rightarrow> PortInfo \<Rightarrow> PortInfo" where
  "initial_port now s p =
     init_data s
       (if \<not> pi_edge p then (become NOTASSIGNED DISCARDING p)\<lparr>pi_nextUpgrade := now + rMigrateTime s\<rparr>
        else become DESIGNATED FORWARDING p)"

definition initPorts :: "simtime \<Rightarrow> rstp \<Rightarrow> rstp res" where
  "initPorts now s =
     scheduleNextUpgrde now (fold (\<lambda>j s. flush_port j (set_data j (initial_port now s) s)) [0..<rNumPorts s] s)"

definition flushOtherPorts :: "simtime \<Rightarrow> nat \<Rightarrow> rstp \<Rightarrow> rstp" where
  "flushOtherPorts now portNum s =
     fold (\<lambda>i s. let s1 = set_data i (\<lambda>p. p\<lparr>pi_TCWhile := now + rTcWhileTime s\<rparr>) s
                 in if i \<noteq> portNum then flush_port i s1 else s1) [0..<rNumPorts s] s"

section \<open>Sending\<close>

definition transmit :: "BPDU \<Rightarrow> nat \<Rightarrow> rstp \<Rightarrow> rstp" where
  "transmit frame port s =
     s\<lparr>rOut := rOut s @ [(frame, new_Ieee802Ctrl\<lparr>ctl_src := rBridgeAddress s, ctl_dest := STP_MULTICAST_ADDRESS,
                                   ctl_switchPort := int port\<rparr>)]\<rparr>"

definition rstp_BPDU :: "nat \<Rightarrow> u32 \<Rightarrow> mac_addr \<Rightarrow> simtime \<Rightarrow> u32 \<Rightarrow> bool \<Rightarrow> rstp \<Rightarrow> BPDU" where
  "rstp_BPDU port rootPriority rootAddress messageAge rootPathCost tcFlag s =
     new_BPDU\<lparr>bp_rootPriority := rootPriority, bp_rootAddress := rootAddress, bp_messageAge := messageAge,
       bp_rootPathCost := rootPathCost, bp_bridgePriority := rBridgePriority s, bp_tcaFlag := False,
       bp_portNum := of_nat port, bp_bridgeAddress := rBridgeAddress s, bp_tcFlag := tcFlag,
       bp_maxAge := rMaxAge s, bp_helloTime := rHelloTime s, bp_forwardDelay := rForwardDelay s\<rparr>"

definition sendTCNtoRoot :: "simtime \<Rightarrow> rstp \<Rightarrow> rstp" where
  "sendTCNtoRoot now s =
     (case getRootIndex s of
        None \<Rightarrow> s
      | Some r \<Rightarrow>
          let rootPort = rPorts s ! r in
          if r < rNumPorts s \<and> pi_role rootPort \<noteq> DISABLED \<and> now < pi_TCWhile rootPort
          then transmit (rstp_BPDU r (pi_rootPriority rootPort) (pi_rootAddress rootPort) (pi_age rootPort)
                           (pi_rootPathCost rootPort) True s) r s
          else s)"

definition rstp_sendBPDU :: "simtime \<Rightarrow> nat \<Rightarrow> rstp \<Rightarrow> rstp" where
  "rstp_sendBPDU now port s =
     (let iport = rPorts s ! port in
      if pi_role iport \<noteq> DISABLED
      then
        let tcFlag = (now < pi_TCWhile iport)
        in transmit
             (case getRootIndex s of
                Some r \<Rightarrow> rstp_BPDU port (pi_rootPriority (rPorts s ! r)) (pi_rootAddress (rPorts s ! r))
                            (pi_age (rPorts s ! r)) (pi_rootPathCost (rPorts s ! r)) tcFlag s
              | None \<Rightarrow> rstp_BPDU port (rBridgePriority s) (rBridgeAddress s) 0 0 tcFlag s) port s
      else s)"

definition sends_hello :: "PortInfo \<Rightarrow> bool" where
  "sends_hello p \<longleftrightarrow> pi_role p \<noteq> ROOT \<and> pi_role p \<noteq> ALTERNATE \<and> pi_role p \<noteq> DISABLED \<and> \<not> pi_edge p"

definition rstp_sendBPDUs :: "simtime \<Rightarrow> rstp \<Rightarrow> rstp" where
  "rstp_sendBPDUs now s =
     fold (\<lambda>i s. if sends_hello (rPorts s ! i) then rstp_sendBPDU now i s else s) [0..<rNumPorts s] s"

section \<open>Timers\<close>

definition upgrade_port :: "simtime \<Rightarrow> nat \<Rightarrow> rstp \<Rightarrow> rstp" where
  "upgrade_port now i s =
     (let iPort = rPorts s ! i in
      if rCarrier s i \<and> pi_nextUpgrade iPort = now
      then if pi_role iPort = NOTASSIGNED then contend now i s
           else if pi_role iPort = DESIGNATED
           then if pi_state iPort = DISCARDING
                then set_data i (\<lambda>p. p\<lparr>pi_state := LEARNING, pi_nextUpgrade := now + rForwardDelay s\<rparr>) s
                else if pi_state iPort = LEARNING
                then flushOtherPorts now i (set_data i (\<lambda>p. p\<lparr>pi_state := FORWARDING\<rparr>) s)
                else s
           else s
      else s)"

definition handleUpgrade :: "simtime \<Rightarrow> rstp \<Rightarrow> rstp res" where
  "handleUpgrade now s = scheduleNextUpgrde now (fold (upgrade_port now) [0..<rNumPorts s] s)"

text \<open>The part of \<open>handleHelloTime\<close> that handles one port: the root port, or an alternate or backup port, is lost.\<close>

definition lost_root :: "simtime \<Rightarrow> nat \<Rightarrow> rstp \<Rightarrow> rstp res" where
  "lost_root now i s =
     (case getBestAlternate s of
        Some candidate \<Rightarrow>
          bindR (scheduleNextUpgrde now (contend now i s)) (\<lambda>s1.
            Inr (copy_port i candidate (flushOtherPorts now candidate
                  (set_data candidate to_root (rstp_initInterfacedata i s1)))))
      | None \<Rightarrow> initPorts now s)"

definition lost_other :: "simtime \<Rightarrow> nat \<Rightarrow> rstp \<Rightarrow> rstp res" where
  "lost_other now i s = bindR (scheduleNextUpgrde now (contend now i s)) (\<lambda>s1. Inr (rstp_initInterfacedata i s1))"

definition hello_port :: "simtime \<Rightarrow> nat \<Rightarrow> rstp \<Rightarrow> rstp res" where
  "hello_port now i s =
     (let iPort = rPorts s ! i in
      if \<not> pi_edge iPort \<and> (pi_role iPort = ROOT \<or> pi_role iPort = ALTERNATE \<or> pi_role iPort = BACKUP)
      then
        let s1 = set_data i (\<lambda>p. p\<lparr>pi_lostBPDU := pi_lostBPDU p + 1\<rparr>) s in
        if pi_lostBPDU (rPorts s1 ! i) > 3
        then bindR (if pi_role iPort = ROOT then lost_root now i s1 else lost_other now i s1)
               (\<lambda>s2. Inr (set_data i (\<lambda>p. p\<lparr>pi_lostBPDU := 0\<rparr>) s2))
        else Inr s1
      else Inr s)"

definition schedule_hello :: "simtime \<Rightarrow> simtime \<Rightarrow> rstp \<Rightarrow> rstp res" where
  "schedule_hello now t s = bindR (scheduleAt now t (rHelloTimer s)) (\<lambda>tm. Inr (s\<lparr>rHelloTimer := tm\<rparr>))"

definition handleHelloTime :: "simtime \<Rightarrow> rstp \<Rightarrow> rstp res" where
  "handleHelloTime now s =
     bindR (iterR (hello_port now) [0..<rNumPorts s] s) (\<lambda>s1.
       schedule_hello now (now + rHelloTime s1) (sendTCNtoRoot now (rstp_sendBPDUs now s1)))"

section \<open>BPDUs\<close>

definition checkTC :: "simtime \<Rightarrow> BPDU \<Rightarrow> nat \<Rightarrow> rstp \<Rightarrow> rstp" where
  "checkTC now frame arrival s =
     (if bp_tcFlag frame \<and> pi_state (rPorts s ! arrival) = FORWARDING
      then fold (\<lambda>i s. if i \<noteq> arrival
                        then set_data i (\<lambda>p. p\<lparr>pi_TCWhile := now + rTcWhileTime s\<rparr>) (flush_port i s)
                        else s) [0..<rNumPorts s] s
      else s)"

definition to_backup :: "nat \<Rightarrow> rstp \<Rightarrow> rstp" where
  "to_backup i s = set_data i (\<lambda>p. (become BACKUP DISCARDING p)\<lparr>pi_lostBPDU := 0\<rparr>) (flush_port i s)"

definition handleBackup :: "BPDU \<Rightarrow> nat \<Rightarrow> rstp \<Rightarrow> rstp res" where
  "handleBackup frame arrivalPortNum s =
     (let priority = pi_portPriority (rPorts s ! arrivalPortNum); num = of_nat arrivalPortNum in
      if bp_portPriority frame < priority \<or> bp_portPriority frame = priority \<and> bp_portNum frame < num
      then Inr (to_backup arrivalPortNum s)
      else bindR (rstp_port (uint (bp_portNum frame)) s) (\<lambda>sender.
        if bp_portPriority frame > priority \<or> bp_portPriority frame = priority \<and> bp_portNum frame > num
        then Inr (to_backup sender s)
        else Inr (set_data sender (become DISABLED DISCARDING) (flush_port sender s))))"

text \<open>One round of the loop of \<open>processBetterSource\<close> for a better root.\<close>

definition reassign_port :: "simtime \<Rightarrow> nat \<Rightarrow> nat \<Rightarrow> rstp \<Rightarrow> rstp res" where
  "reassign_port now arrival i s =
     (if pi_edge (rPorts s ! i) then Inr s
      else
        let s1 = (if pi_state (rPorts s ! arrival) \<noteq> FORWARDING
                  then set_data i (\<lambda>p. p\<lparr>pi_TCWhile := now + rTcWhileTime s\<rparr>) s else s);
            s2 = flush_port i s1
        in if i \<noteq> arrival
           then bindR (scheduleNextUpgrde now
                         (set_data i (\<lambda>p. (become NOTASSIGNED DISCARDING p)\<lparr>pi_nextUpgrade := now + rMigrateTime s\<rparr>) s2))
                  (\<lambda>s3. Inr (rstp_initInterfacedata i s3))
           else Inr s2)"

text \<open>
  \<open>processBetterSource\<close> by the result of the comparison with the root port \<open>r\<close>. The result says whether BPDUs are
  to be sent on all ports.
\<close>

definition double_link :: "simtime \<Rightarrow> nat \<Rightarrow> nat \<Rightarrow> rstp \<Rightarrow> rstp" where
  "double_link now r arrival s =
     (let rootPort = rPorts s ! r; arrivalPort = rPorts s ! arrival in
      if pi_portPriority rootPort < pi_portPriority arrivalPort
         \<or> pi_portPriority rootPort = pi_portPriority arrivalPort \<and> r < arrival
      then set_data arrival (\<lambda>p. (become ALTERNATE DISCARDING p)\<lparr>pi_lostBPDU := 0\<rparr>) (flush_port arrival s)
      else
        let s1 = (if pi_state arrivalPort \<noteq> FORWARDING then flushOtherPorts now arrival s else flush_port r s)
        in copy_port r arrival (set_data arrival to_root (set_data r (become ALTERNATE DISCARDING) s1)))"

definition better_route :: "simtime \<Rightarrow> nat \<Rightarrow> nat \<Rightarrow> rstp \<Rightarrow> rstp res" where
  "better_route now r arrival s =
     (let s1 = (if pi_state (rPorts s ! arrival) \<noteq> FORWARDING then flushOtherPorts now arrival s else s);
          s2 = copy_port r arrival (set_data r (\<lambda>p. p\<lparr>pi_role := ALTERNATE\<rparr>) (set_data arrival to_root s1))
      in bindR (contestInterfacedata r s2) (\<lambda>case3.
           if cr_value case3 \<ge> 0 then Inr (flush_port r (set_data r (become ALTERNATE DISCARDING) s2))
           else scheduleNextUpgrde now (contend now r s2)))"

definition worse_route :: "simtime \<Rightarrow> BPDU \<Rightarrow> nat \<Rightarrow> rstp \<Rightarrow> rstp res" where
  "worse_route now frame arrival s =
     bindR (contestInterfacedata_msg frame arrival s) (\<lambda>case3.
       if cr_value case3 < 0
       then bindR (scheduleNextUpgrde now (contend now arrival s)) (\<lambda>s1. Inr (rstp_sendBPDU now arrival s1))
       else Inr (set_data arrival (\<lambda>p. (become ALTERNATE DISCARDING p)\<lparr>pi_lostBPDU := 0\<rparr>) (flush_port arrival s)))"

abbreviation answer :: "bool \<Rightarrow> rstp res \<Rightarrow> (bool \<times> rstp) res" where
  "answer flood r \<equiv> bindR r (\<lambda>s. Inr (flood, s))"

definition processBetterSource :: "simtime \<Rightarrow> BPDU \<Rightarrow> nat \<Rightarrow> rstp \<Rightarrow> (bool \<times> rstp) res" where
  "processBetterSource now frame arrival s0 =
     (let s = updateInterfacedata frame arrival s0 in
      case getRootIndex s of
        None \<Rightarrow> Inr (True, flushOtherPorts now arrival (set_data arrival to_root s))
      | Some r \<Rightarrow>
          (case compareInterfacedata (rPorts s ! r) frame (pi_linkCost (rPorts s ! arrival)) of
             SIMILAR \<Rightarrow> Inr (False, double_link now r arrival s)
           | BETTER_ROOT \<Rightarrow>
               answer True (bindR (iterR (reassign_port now arrival) [0..<rNumPorts s] s) (\<lambda>s1.
                 Inr (set_data arrival to_root s1)))
           | BETTER_RPC \<Rightarrow> answer True (better_route now r arrival s)
           | BETTER_SRC \<Rightarrow> answer True (better_route now r arrival s)
           | BETTER_PORT \<Rightarrow> answer True (better_route now r arrival s)
           | WORSE_ROOT \<Rightarrow> Inr (False, rstp_sendBPDU now arrival s)
           | WORSE_RPC \<Rightarrow> answer False (worse_route now frame arrival s)
           | WORSE_SRC \<Rightarrow> answer False (worse_route now frame arrival s)
           | WORSE_PORT \<Rightarrow> answer False (worse_route now frame arrival s)))"

text \<open>\<open>processSameSource\<close> by the result of the comparison with the data of the arrival port.\<close>

definition same_worse_root :: "simtime \<Rightarrow> BPDU \<Rightarrow> nat \<Rightarrow> rstp \<Rightarrow> (bool \<times> rstp) res" where
  "same_worse_root now frame arrival s =
     (if pi_role (rPorts s ! arrival) = ROOT
      then case getBestAlternate s of
             Some alternative \<Rightarrow>
               bindR (scheduleNextUpgrde now (contend now arrival s)) (\<lambda>s1.
                 let s2 = flushOtherPorts now alternative (copy_port arrival alternative s1);
                     s3 = set_data alternative (become ROOT FORWARDING) s2
                 in Inr (False, rstp_sendBPDU now arrival (updateInterfacedata frame arrival s3)))
           | None \<Rightarrow>
               bindR (initPorts now s) (\<lambda>s1.
                 let s2 = fold flush_port [0..<rNumPorts s1] s1
                 in if cr_value (compareInterfacedata (rPorts s2 ! arrival) frame (pi_linkCost (rPorts s2 ! arrival))) > 0
                    then Inr (True, set_data arrival (become ROOT FORWARDING) (updateInterfacedata frame arrival s2))
                    else Inr (True, s2))
      else if pi_role (rPorts s ! arrival) = ALTERNATE
      then bindR (scheduleNextUpgrde now (contend now arrival s)) (\<lambda>s1.
             Inr (False, rstp_sendBPDU now arrival (updateInterfacedata frame arrival s1)))
      else Inr (False, s))"

definition root_by_alternative :: "simtime \<Rightarrow> BPDU \<Rightarrow> nat \<Rightarrow> nat \<Rightarrow> rstp \<Rightarrow> rstp res" where
  "root_by_alternative now frame arrival alternative s =
     (let s1 = set_data arrival (\<lambda>p. p\<lparr>pi_role := DESIGNATED\<rparr>)
                 (set_data alternative (become ROOT FORWARDING) s)
      in bindR (contestInterfacedata_msg frame arrival s1) (\<lambda>case3.
         bindR (if cr_value case3 < 0 then scheduleNextUpgrde now (contend now arrival s1)
                else Inr (set_data arrival (become ALTERNATE DISCARDING) s1)) (\<lambda>s2.
           Inr (copy_port arrival alternative (flushOtherPorts now alternative s2)))))"

definition same_worse_route :: "simtime \<Rightarrow> BPDU \<Rightarrow> nat \<Rightarrow> rstp \<Rightarrow> (bool \<times> rstp) res" where
  "same_worse_route now frame arrival s =
     (if pi_role (rPorts s ! arrival) = ROOT
      then let s1 = set_data arrival (\<lambda>p. p\<lparr>pi_lostBPDU := 0\<rparr>) s in
           bindR (case getBestAlternate s1 of
                    None \<Rightarrow> Inr s1
                  | Some alternative \<Rightarrow>
                      if cr_value (compareInterfacedata (rPorts s1 ! alternative) frame (pi_linkCost (rPorts s1 ! arrival))) < 0
                      then root_by_alternative now frame arrival alternative s1 else Inr s1)
             (\<lambda>s2. Inr (True, updateInterfacedata frame arrival s2))
      else if pi_role (rPorts s ! arrival) = ALTERNATE
      then bindR (contestInterfacedata_msg frame arrival s) (\<lambda>case2.
             bindR (if cr_value case2 < 0
                    then bindR (scheduleNextUpgrde now (contend now arrival s)) (\<lambda>s1. Inr (rstp_sendBPDU now arrival s1))
                    else Inr (set_data arrival (\<lambda>p. p\<lparr>pi_lostBPDU := 0\<rparr>) s))
               (\<lambda>s2. Inr (False, updateInterfacedata frame arrival s2)))
      else Inr (False, updateInterfacedata frame arrival s))"

definition processSameSource :: "simtime \<Rightarrow> BPDU \<Rightarrow> nat \<Rightarrow> rstp \<Rightarrow> (bool \<times> rstp) res" where
  "processSameSource now frame arrival s =
     (case compareInterfacedata (rPorts s ! arrival) frame (pi_linkCost (rPorts s ! arrival)) of
        SIMILAR \<Rightarrow> Inr (False, set_data arrival (\<lambda>p. p\<lparr>pi_lostBPDU := 0\<rparr>) s)
      | WORSE_ROOT \<Rightarrow> same_worse_root now frame arrival s
      | WORSE_RPC \<Rightarrow> same_worse_route now frame arrival s
      | WORSE_SRC \<Rightarrow> same_worse_route now frame arrival s
      | WORSE_PORT \<Rightarrow> same_worse_route now frame arrival s
      | _ \<Rightarrow> Inr (False, s))"

definition processBPDU :: "simtime \<Rightarrow> BPDU \<Rightarrow> nat \<Rightarrow> rstp \<Rightarrow> rstp res" where
  "processBPDU now frame arrival s =
     (let arrivalPort = rPorts s ! arrival in
      bindR
        (if cr_value (compareInterfacedata arrivalPort frame (pi_linkCost arrivalPort)) > 0
            \<and> bp_rootAddress frame \<noteq> rBridgeAddress s
         then processBetterSource now frame arrival s
         else if bp_bridgeAddress frame = pi_bridgeAddress arrivalPort \<and> bp_rootAddress frame \<noteq> rBridgeAddress s
         then processSameSource now frame arrival s
         else Inr (False, s))
        (\<lambda>(flood, s1). Inr (if flood then sendTCNtoRoot now (rstp_sendBPDUs now s1) else s1)))"

definition handleIncomingFrame :: "simtime \<Rightarrow> BPDU \<Rightarrow> Ieee802Ctrl \<Rightarrow> rstp \<Rightarrow> rstp res" where
  "handleIncomingFrame now frame etherctrl s =
     (if bp_messageAge frame < rMaxAge s
      then bindR (rstp_port (ctl_switchPort etherctrl) s) (\<lambda>arrival.
        let s1 = checkTC now frame arrival s in
        if ctl_src etherctrl = rBridgeAddress s1 then handleBackup frame arrival s1
        else processBPDU now frame arrival s1)
      else Inr s)"

text \<open>A self message has left the future event set when it is handled.\<close>

datatype rstp_msg = RstpSelf int | RstpBPDU BPDU "Ieee802Ctrl option" | RstpOther

definition rstp_handleMessage :: "simtime \<Rightarrow> rstp_msg \<Rightarrow> rstp \<Rightarrow> rstp res" where
  "rstp_handleMessage now m s =
     (if \<not> rOperational s
      then (case m of RstpSelf _ \<Rightarrow> Inl (RuntimeError ''self msg received when isOperational is false'') | _ \<Rightarrow> Inr s)
      else case m of
        RstpSelf kind \<Rightarrow>
          if kind = SELF_HELLOTIME then handleHelloTime now (s\<lparr>rHelloTimer := cancelEvent (rHelloTimer s)\<rparr>)
          else if kind = SELF_UPGRADE then handleUpgrade now (s\<lparr>rUpgradeTimer := cancelEvent (rUpgradeTimer s)\<rparr>)
          else Inl (RuntimeError ''Unknown self message'')
      | RstpBPDU frame controlInfo \<Rightarrow>
          (case controlInfo of None \<Rightarrow> Inl BadCast | Some etherctrl \<Rightarrow> handleIncomingFrame now frame etherctrl s)
      | RstpOther \<Rightarrow> Inl BadCast)"

section \<open>Notifications\<close>

text \<open>
  \<open>receiveChangeNotification\<close> for \<open>NF_INTERFACE_STATE_CHANGED\<close>, the one category it reacts to, when the interface of
  port \<open>i\<close> changed; its carrier flag has the new value already. The interfaces of the ports are different ones, so
  the search finds that port only.
\<close>

definition interface_changed :: "simtime \<Rightarrow> nat \<Rightarrow> rstp \<Rightarrow> rstp res" where
  "interface_changed now i s =
     (if i < rNumPorts s \<and> rCarrier s i
      then
        let iPort = rPorts s ! i;
            s1 = (if pi_role iPort = NOTASSIGNED
                  then set_data i (\<lambda>p. p\<lparr>pi_nextUpgrade := now + rMigrateTime s\<rparr>) s
                  else if pi_role iPort = DESIGNATED \<and> (pi_state iPort = DISCARDING \<or> pi_state iPort = LEARNING)
                  then set_data i (\<lambda>p. p\<lparr>pi_nextUpgrade := now + rForwardDelay s\<rparr>) s
                  else s)
        in scheduleNextUpgrde now s1
      else Inr s)"

section \<open>Initialization and life cycle\<close>

record rstp_par =
  rp_bridgePriority :: u32
  rp_maxAge :: simtime
  rp_helloTime :: simtime
  rp_forwardDelay :: simtime
  rp_migrateTime :: simtime
  rp_tcWhileTime :: simtime
  rp_autoEdge :: bool

text \<open>
  The three stages of \<open>initialize\<close>, those of \<open>STPBase\<close> included; the address is that of no interface, 0, on a node
  that is down.
\<close>

definition rstp_initialize ::
    "rstp_par \<Rightarrow> simtime \<Rightarrow> bool option \<Rightarrow> (bool \<times> mac_addr) list \<Rightarrow> PortInfo list \<Rightarrow> (nat \<Rightarrow> bool) \<Rightarrow> mac_table
     \<Rightarrow> rstp res" where
  "rstp_initialize par now status_up ift ports carrier table =
     (let isOperational = (case status_up of None \<Rightarrow> True | Some up \<Rightarrow> up) in
      if ports = [] then Inl (RuntimeError ''no such gate: ethg$o[0]'')
      else if isOperational \<and> chooseInterface ift = None then Inl (RuntimeError ''No non-loopback interface found!'')
      else
        let s = \<lparr>rOperational = isOperational, rBridgePriority = rp_bridgePriority par,
                 rBridgeAddress = (if isOperational then the (chooseInterface ift) else 0),
                 rMaxAge = rp_maxAge par, rHelloTime = rp_helloTime par, rForwardDelay = rp_forwardDelay par,
                 rMigrateTime = rp_migrateTime par, rTcWhileTime = rp_tcWhileTime par, rAutoEdge = rp_autoEdge par,
                 rHelloTimer = \<lparr>tm_kind = SELF_HELLOTIME, tm_at = None\<rparr>,
                 rUpgradeTimer = \<lparr>tm_kind = SELF_UPGRADE, tm_at = None\<rparr>,
                 rPorts = ports, rCarrier = carrier, rTable = table, rOut = []\<rparr>
        in bindR (initPorts now s) (schedule_hello now now))"

definition rstp_start :: "simtime \<Rightarrow> (bool \<times> mac_addr) list \<Rightarrow> rstp \<Rightarrow> rstp res" where
  "rstp_start now ift s =
     (case chooseInterface ift of
        None \<Rightarrow> Inl (RuntimeError ''No non-loopback interface found!'')
      | Some a \<Rightarrow> bindR (initPorts now (s\<lparr>rOperational := True, rBridgeAddress := a\<rparr>)) (schedule_hello now now))"

definition rstp_stop :: "rstp \<Rightarrow> rstp" where
  "rstp_stop s = s\<lparr>rOperational := False, rHelloTimer := cancelEvent (rHelloTimer s),
                   rUpgradeTimer := cancelEvent (rUpgradeTimer s)\<rparr>"

fun rstp_handleOperationStage ::
    "simtime \<Rightarrow> (bool \<times> mac_addr) list \<Rightarrow> LifecycleOperation \<Rightarrow> nat \<Rightarrow> rstp \<Rightarrow> rstp res" where
  "rstp_handleOperationStage now ift NodeStartOperation stage s =
     (if stage = start_STAGE_LINK_LAYER then rstp_start now ift s else Inr s)"
| "rstp_handleOperationStage now ift NodeShutdownOperation stage s =
     (if stage = shutdown_STAGE_LINK_LAYER then Inr (rstp_stop s) else Inr s)"
| "rstp_handleOperationStage now ift NodeCrashOperation stage s =
     (if stage = crash_STAGE_CRASH then Inr (rstp_stop s) else Inr s)"
| "rstp_handleOperationStage now ift OtherOperation stage s = Inl (RuntimeError ''Unsupported operation'')"

end
