(* ===== verification/RSTPInv.thy ===== *)
theory RSTPInv
  imports RSTP
begin

text \<open>
  What the operations of \<open>RSTP\<close> keep: the roles and states of the ports fit together, there is at most one root
  port, and the upgrade timer is set for every port that waits for an upgrade.
\<close>

section \<open>The order of the comparisons\<close>

text \<open>Priority vectors of numbers read as signed ones; the smaller, the better.\<close>

type_synonym signed_vector = "int \<times> mac_addr \<times> int \<times> int \<times> mac_addr \<times> int \<times> int"

definition signed_vector :: "PortInfo \<Rightarrow> signed_vector" where
  "signed_vector p =
     (sint (pi_rootPriority p), pi_rootAddress p, sint (pi_rootPathCost p), sint (pi_bridgePriority p),
      pi_bridgeAddress p, sint (pi_portPriority p), sint (pi_portNum p))"

lemma sint_lt: "a \<noteq> b \<Longrightarrow> \<not> sint a < sint b \<longleftrightarrow> sint b < sint a" for a b :: "'a::len word"
  by (metis linorder_neqE_linordered_idom not_less_iff_gr_or_eq signed_word_eqI)

lemma compareTo_zero [simp]: "compareTo a b = 0 \<longleftrightarrow> a = b" and compareTo_neg [simp]: "compareTo a b < 0 \<longleftrightarrow> a < b"
  by (auto simp: compareTo_def)

lemma signed_word_eq_iff: "sint a = sint b \<longleftrightarrow> a = b" for a b :: "'a::len word"
  by (metis signed_word_eqI)

lemma compareRSTPData_neg:
  "cr_value (compareRSTPData a1 a2 b1 b2 c1 c2 d1 d2 e1 e2 f1 f2 g1 g2) < 0 \<longleftrightarrow>
     (sint a1, b1, sint c1, sint d1, e1, sint f1, sint g1) < (sint a2, b2, sint c2, sint d2, e2, sint f2, sint g2)"
  by (auto simp: compareRSTPData_def Let_def signed_word_eq_iff)

lemma compareRSTPData_zero:
  "compareRSTPData a1 a2 b1 b2 c1 c2 d1 d2 e1 e2 f1 f2 g1 g2 = SIMILAR \<longleftrightarrow>
     a1 = a2 \<and> b1 = b2 \<and> c1 = c2 \<and> d1 = d2 \<and> e1 = e2 \<and> f1 = f2 \<and> g1 = g2"
  by (auto simp: compareRSTPData_def Let_def)

lemma cr_value_zero: "cr_value c = 0 \<longleftrightarrow> c = SIMILAR"
  by (cases c) simp_all

text \<open>The sign of the comparison is that of the priority vectors.\<close>

lemma compare_ports_neg: "cr_value (compare_ports p q) < 0 \<longleftrightarrow> signed_vector p < signed_vector q"
  by (simp add: compare_ports_def compareRSTPData_neg signed_vector_def)

lemma compare_ports_zero: "cr_value (compare_ports p q) = 0 \<longleftrightarrow> signed_vector p = signed_vector q"
  by (auto simp: compare_ports_def compareRSTPData_zero signed_vector_def cr_value_zero signed_word_eq_iff)

lemma compare_ports_pos: "cr_value (compare_ports p q) > 0 \<longleftrightarrow> signed_vector q < signed_vector p"
  using compare_ports_neg [of p q] compare_ports_zero [of p q]
  by (cases "signed_vector p" "signed_vector q" rule: linorder_cases) auto

text \<open>The best alternate port is one with the least vector.\<close>

lemma better_alternate_prefix:
  "n \<le> length ps \<Longrightarrow>
     (case foldl (better_alternate ps) None [0..<n] of
        None \<Rightarrow> \<forall>i < n. pi_role (ps ! i) \<noteq> ALTERNATE
      | Some c \<Rightarrow> c < n \<and> pi_role (ps ! c) = ALTERNATE
          \<and> (\<forall>i < n. pi_role (ps ! i) = ALTERNATE \<longrightarrow> signed_vector (ps ! c) \<le> signed_vector (ps ! i)))"
  by (induction n) (auto simp: better_alternate_def less_Suc_eq compare_ports_neg not_less split: option.splits
      intro: order_trans less_imp_le)

lemma getBestAlternate_None: "getBestAlternate s = None \<longleftrightarrow> (\<forall>i < rNumPorts s. pi_role (rPorts s ! i) \<noteq> ALTERNATE)"
  using better_alternate_prefix [of "rNumPorts s" "rPorts s"]
  by (auto simp: getBestAlternate_def split: option.splits)

lemma getBestAlternate_Some:
  assumes "getBestAlternate s = Some c"
  shows "c < rNumPorts s" and "pi_role (rPorts s ! c) = ALTERNATE"
    and "\<And>i. i < rNumPorts s \<Longrightarrow> pi_role (rPorts s ! i) = ALTERNATE \<Longrightarrow> signed_vector (rPorts s ! c) \<le> signed_vector (rPorts s ! i)"
  using better_alternate_prefix [of "rNumPorts s" "rPorts s"] assms by (simp_all add: getBestAlternate_def)

section \<open>What an operation leaves as it was\<close>

text \<open>
  The skeleton of a port is what the invariant speaks about; the core of a state is its parameters and timers with
  the skeletons of its ports.
\<close>

definition skel :: "PortInfo \<Rightarrow> PortRole \<times> PortState \<times> bool \<times> simtime" where
  "skel p = (pi_role p, pi_state p, pi_edge p, pi_nextUpgrade p)"

type_synonym rstp_conf =
  "bool \<times> u32 \<times> mac_addr \<times> simtime \<times> simtime \<times> simtime \<times> simtime \<times> simtime \<times> app_timer \<times> (nat \<Rightarrow> bool) \<times> bool list"

definition conf :: "rstp \<Rightarrow> rstp_conf" where
  "conf s = (rOperational s, rBridgePriority s, rBridgeAddress s, rMaxAge s, rHelloTime s, rForwardDelay s,
     rMigrateTime s, rTcWhileTime s, rHelloTimer s, rCarrier s, map pi_edge (rPorts s))"

definition core :: "rstp \<Rightarrow> rstp_conf \<times> (PortRole \<times> PortState \<times> bool \<times> simtime) list \<times> app_timer" where
  "core s = (conf s, map skel (rPorts s), rUpgradeTimer s)"

lemma set_data_sel [simp]:
  "rPorts (set_data i f s) = (rPorts s)[i := f (rPorts s ! i)]" "rUpgradeTimer (set_data i f s) = rUpgradeTimer s"
  "rCarrier (set_data i f s) = rCarrier s" "rForwardDelay (set_data i f s) = rForwardDelay s"
  "rMigrateTime (set_data i f s) = rMigrateTime s" "rHelloTimer (set_data i f s) = rHelloTimer s"
  "rTable (set_data i f s) = rTable s" "rOut (set_data i f s) = rOut s" "rTcWhileTime (set_data i f s) = rTcWhileTime s"
  "rOperational (set_data i f s) = rOperational s" "rBridgeAddress (set_data i f s) = rBridgeAddress s"
  "rBridgePriority (set_data i f s) = rBridgePriority s" "rHelloTime (set_data i f s) = rHelloTime s"
  by (simp_all add: set_data_def)

lemma core_keep [simp]:
  "core (flush_port i s) = core s" "core (copy_port i j s) = core s" "core (transmit b i s) = core s"
  "core (s\<lparr>rTable := x\<rparr>) = core s" "core (s\<lparr>rOut := y\<rparr>) = core s"
  by (simp_all add: core_def conf_def flush_port_def copy_port_def transmit_def)

lemma map_update_same: "g y = g (xs ! i) \<Longrightarrow> map g (xs[i := y]) = map g xs"
  by (cases "i < length xs") (auto intro!: nth_equalityI simp: nth_list_update)

lemma conf_set [simp]:
  assumes "pi_edge (f (rPorts s ! i)) = pi_edge (rPorts s ! i)"
  shows "conf (set_data i f s) = conf s"
proof -
  have "map pi_edge ((rPorts s)[i := f (rPorts s ! i)]) = map pi_edge (rPorts s)"
    by (rule map_update_same) (rule assms)
  then show ?thesis by (simp add: conf_def set_data_def)
qed

lemma core_set [simp]:
  assumes "skel (f (rPorts s ! i)) = skel (rPorts s ! i)"
  shows "core (set_data i f s) = core s"
proof -
  have "map skel ((rPorts s)[i := f (rPorts s ! i)]) = map skel (rPorts s)"
    by (rule map_update_same) (rule assms)
  moreover have "pi_edge (f (rPorts s ! i)) = pi_edge (rPorts s ! i)" using assms by (simp add: skel_def)
  ultimately show ?thesis by (simp add: core_def)
qed

lemma core_fold: "(\<And>i t. core (f i t) = core t) \<Longrightarrow> core (fold f xs s) = core s"
  by (induction xs arbitrary: s) simp_all

lemma core_data [simp]:
  "core (rstp_initInterfacedata i s) = core s" "core (updateInterfacedata b i s) = core s"
  unfolding rstp_initInterfacedata_def updateInterfacedata_def
  by (rule core_set, simp add: skel_def init_data_def)+

lemma core_flush [simp]: "core (flushOtherPorts now i s) = core s"
  unfolding flushOtherPorts_def Let_def by (rule core_fold) (simp add: skel_def)

lemma core_checkTC [simp]: "core (checkTC now b i s) = core s"
  using core_fold [of "\<lambda>j s. if j \<noteq> i then set_data j (\<lambda>p. p\<lparr>pi_TCWhile := now + rTcWhileTime s\<rparr>) (flush_port j s) else s"]
  by (simp add: checkTC_def skel_def)

lemma core_send [simp]: "core (sendTCNtoRoot now s) = core s" "core (rstp_sendBPDU now i s) = core s"
  by (simp_all add: sendTCNtoRoot_def rstp_sendBPDU_def Let_def split: option.split)

lemma core_sendBPDUs [simp]: "core (rstp_sendBPDUs now s) = core s"
  unfolding rstp_sendBPDUs_def by (rule core_fold) simp

lemma core_conf: "core s = core t \<Longrightarrow> conf s = conf t" by (simp add: core_def)

lemma conf_sel:
  assumes "conf s = conf t"
  shows "rNumPorts s = rNumPorts t" and "rCarrier s = rCarrier t" and "rForwardDelay s = rForwardDelay t"
    and "rMigrateTime s = rMigrateTime t" and "rHelloTimer s = rHelloTimer t" and "rOperational s = rOperational t"
    and "rBridgeAddress s = rBridgeAddress t" and "rHelloTime s = rHelloTime t"
    and "i < rNumPorts t \<Longrightarrow> pi_edge (rPorts s ! i) = pi_edge (rPorts t ! i)"
proof -
  have m: "map pi_edge (rPorts s) = map pi_edge (rPorts t)" using assms by (simp add: conf_def)
  then show l: "rNumPorts s = rNumPorts t" by (rule map_eq_imp_length_eq)
  show "pi_edge (rPorts s ! i) = pi_edge (rPorts t ! i)" if "i < rNumPorts t"
    using arg_cong [OF m, of "\<lambda>es. es ! i"] that l by simp
qed (use assms in \<open>simp_all add: conf_def\<close>)

lemma conf_timer [simp]: "conf (s\<lparr>rUpgradeTimer := tm\<rparr>) = conf s"
  by (simp add: conf_def)

section \<open>The invariant\<close>

definition with_role :: "PortRole \<Rightarrow> rstp \<Rightarrow> nat set" where
  "with_role r s = {i. i < rNumPorts s \<and> pi_role (rPorts s ! i) = r}"

text \<open>
  A root port forwards; a port that does not discard is a root port or a designated one; edge ports, on which
  no bridge is heard, are neither root nor alternate ports.
\<close>

definition port_ok :: "PortInfo \<Rightarrow> bool" where
  "port_ok p \<longleftrightarrow> (pi_role p = ROOT \<longrightarrow> pi_state p = FORWARDING)
     \<and> (pi_state p \<noteq> DISCARDING \<longrightarrow> pi_role p = ROOT \<or> pi_role p = DESIGNATED)
     \<and> (pi_edge p \<longrightarrow> pi_role p \<noteq> ROOT \<and> pi_role p \<noteq> ALTERNATE)"

definition one_root :: "rstp \<Rightarrow> bool" where
  "one_root s \<longleftrightarrow> (\<forall>i \<in> with_role ROOT s. \<forall>j \<in> with_role ROOT s. i = j)"

definition roles_ok :: "rstp \<Rightarrow> bool" where
  "roles_ok s \<longleftrightarrow> (\<forall>i < rNumPorts s. port_ok (rPorts s ! i)) \<and> one_root s
     \<and> (with_role ALTERNATE s \<noteq> {} \<longrightarrow> with_role ROOT s \<noteq> {})"

definition waiting :: "rstp \<Rightarrow> nat \<Rightarrow> bool" where
  "waiting s i \<longleftrightarrow> i < rNumPorts s \<and> rCarrier s i \<and> awaits_upgrade (rPorts s ! i)"

definition ahead :: "simtime \<Rightarrow> rstp \<Rightarrow> bool" where
  "ahead now s \<longleftrightarrow> (\<forall>i. waiting s i \<longrightarrow> now \<le> pi_nextUpgrade (rPorts s ! i))"

text \<open>The upgrade timer goes off no later than the first upgrade is due, and not in the past.\<close>

definition timed :: "simtime \<Rightarrow> rstp \<Rightarrow> bool" where
  "timed now s \<longleftrightarrow> (\<forall>t. tm_at (rUpgradeTimer s) = Some t \<longrightarrow> now \<le> t)
     \<and> (\<forall>i. waiting s i \<longrightarrow> (\<exists>t. tm_at (rUpgradeTimer s) = Some t \<and> t \<le> pi_nextUpgrade (rPorts s ! i)))"

definition delays_ok :: "rstp \<Rightarrow> bool" where
  "delays_ok s \<longleftrightarrow> 0 \<le> rForwardDelay s \<and> 0 \<le> rMigrateTime s"

definition rstp_inv :: "simtime \<Rightarrow> rstp \<Rightarrow> bool" where
  "rstp_inv now s \<longleftrightarrow> roles_ok s \<and> timed now s \<and> delays_ok s"

lemma timed_ahead: "timed now s \<Longrightarrow> ahead now s"
  unfolding timed_def ahead_def using order_trans by blast

lemma core_sel:
  assumes "core s = core t"
  shows "rNumPorts s = rNumPorts t" and "rUpgradeTimer s = rUpgradeTimer t" and "rCarrier s = rCarrier t"
    and "i < rNumPorts t \<Longrightarrow> skel (rPorts s ! i) = skel (rPorts t ! i)"
proof -
  note c = core_conf [OF assms]
  show n: "rNumPorts s = rNumPorts t" and "rCarrier s = rCarrier t" using conf_sel [OF c] by simp_all
  show "rUpgradeTimer s = rUpgradeTimer t" using assms by (simp add: core_def)
  show "skel (rPorts s ! i) = skel (rPorts t ! i)" if "i < rNumPorts t"
    using arg_cong [OF assms, of "\<lambda>c. fst (snd c) ! i"] that n by (simp add: core_def)
qed

lemma with_role_core: "core s = core t \<Longrightarrow> with_role r s = with_role r t"
  using core_sel(1,4) [of s t] by (auto simp: with_role_def skel_def)

lemma waiting_core: "core s = core t \<Longrightarrow> waiting s i = waiting t i"
  using core_sel(1,3) [of s t] core_sel(4) [of s t i] by (auto simp: waiting_def awaits_upgrade_def skel_def)

lemma nextUpgrade_core: "core s = core t \<Longrightarrow> waiting t i \<Longrightarrow> pi_nextUpgrade (rPorts s ! i) = pi_nextUpgrade (rPorts t ! i)"
  using core_sel(4) [of s t i] by (simp add: waiting_def skel_def)

lemma roles_ok_core: 
  assumes "core s = core t" shows "roles_ok s = roles_ok t"
proof -
  have "port_ok (rPorts s ! i) = port_ok (rPorts t ! i)" if "i < rNumPorts t" for i
    using core_sel(4) [OF assms that] by (simp add: port_ok_def skel_def)
  then show ?thesis using core_sel(1) [OF assms] by (auto simp: roles_ok_def one_root_def with_role_core [OF assms])
qed

lemma timed_core:
  assumes "core s = core t" shows "timed now s = timed now t"
  using core_sel(2) [OF assms] waiting_core [OF assms] nextUpgrade_core [OF assms] by (simp add: timed_def cong: conj_cong)

lemma ahead_core:
  assumes "core s = core t" shows "ahead now s = ahead now t"
  using waiting_core [OF assms] nextUpgrade_core [OF assms] by (simp add: ahead_def)

lemma delays_conf: "conf s = conf t \<Longrightarrow> delays_ok s = delays_ok t"
  by (simp add: delays_ok_def conf_sel(3,4) [of s t])

lemma inv_core:
  assumes "core s = core t" shows "rstp_inv now s = rstp_inv now t"
  using roles_ok_core [OF assms] timed_core [OF assms] delays_conf [OF core_conf [OF assms]]
  by (simp add: rstp_inv_def)

lemma timer_keep [simp]:
  "with_role r (s\<lparr>rUpgradeTimer := tm\<rparr>) = with_role r s" "roles_ok (s\<lparr>rUpgradeTimer := tm\<rparr>) = roles_ok s"
  "ahead now (s\<lparr>rUpgradeTimer := tm\<rparr>) = ahead now s" "delays_ok (s\<lparr>rUpgradeTimer := tm\<rparr>) = delays_ok s"
  "getRootIndex (s\<lparr>rUpgradeTimer := tm\<rparr>) = getRootIndex s"
  by (simp_all add: with_role_def roles_ok_def one_root_def ahead_def waiting_def delays_ok_def getRootIndex_def)

section \<open>The timer\<close>

lemma earlier_prefix:
  "n \<le> rNumPorts s \<Longrightarrow>
     (case foldl (earlier_upgrade s) None [0..<n] of
        None \<Rightarrow> \<forall>i < n. \<not> waiting s i
      | Some c \<Rightarrow> waiting s c \<and> (\<forall>i < n. waiting s i \<longrightarrow> pi_nextUpgrade (rPorts s ! c) \<le> pi_nextUpgrade (rPorts s ! i)))"
  by (induction n) (auto simp: earlier_upgrade_def less_Suc_eq waiting_def not_less split: option.splits
      intro: order_trans less_imp_le)

lemma schedule_ahead:
  assumes "ahead now s"
  obtains tm where "scheduleNextUpgrde now s = Inr (s\<lparr>rUpgradeTimer := tm\<rparr>)" and "timed now (s\<lparr>rUpgradeTimer := tm\<rparr>)"
proof (cases "foldl (earlier_upgrade s) None [0..<rNumPorts s]")
  case None
  then have "\<not> waiting s i" for i using earlier_prefix [of "rNumPorts s" s] by (auto simp: waiting_def)
  then show thesis using None by (intro that) (auto simp: scheduleNextUpgrde_def timed_def waiting_def cancelEvent_def)
next
  case (Some c)
  then have c: "waiting s c" "\<And>i. waiting s i \<Longrightarrow> pi_nextUpgrade (rPorts s ! c) \<le> pi_nextUpgrade (rPorts s ! i)"
    using earlier_prefix [of "rNumPorts s" s] by (auto simp: waiting_def)
  then have "now \<le> pi_nextUpgrade (rPorts s ! c)" using assms by (simp add: ahead_def)
  then show thesis using Some c
    by (intro that) (auto simp: scheduleNextUpgrde_def scheduleAt_def cancelEvent_def timed_def waiting_def)
qed

section \<open>Changing one port\<close>

lemma with_role_set_data:
  "i < rNumPorts s \<Longrightarrow> with_role r (set_data i f s) =
     (if pi_role (f (rPorts s ! i)) = r then insert i (with_role r s) else with_role r s - {i})"
  by (auto simp: with_role_def nth_list_update)

lemma waiting_set_data:
  "i < rNumPorts s \<Longrightarrow> waiting (set_data i f s) j \<longleftrightarrow>
     (if j = i then rCarrier s i \<and> awaits_upgrade (f (rPorts s ! i)) else waiting s j)"
  by (auto simp: waiting_def nth_list_update)

lemma ahead_set_data:
  assumes "ahead now s" and "i < rNumPorts s"
    and "awaits_upgrade (f (rPorts s ! i)) \<Longrightarrow> rCarrier s i \<Longrightarrow> now \<le> pi_nextUpgrade (f (rPorts s ! i))"
  shows "ahead now (set_data i f s)"
  using assms by (auto simp: ahead_def waiting_set_data nth_list_update)

lemma timed_set_data:
  assumes "timed now s" and "i < rNumPorts s" and "\<not> awaits_upgrade (f (rPorts s ! i))"
  shows "timed now (set_data i f s)"
  using assms by (auto simp: timed_def waiting_set_data nth_list_update)

lemma ahead_contend: "ahead now s \<Longrightarrow> i < rNumPorts s \<Longrightarrow> delays_ok s \<Longrightarrow> ahead now (contend now i s)"
  unfolding contend_def by (rule ahead_set_data) (simp_all add: delays_ok_def)

lemma contend_sel [simp]:
  "rNumPorts (contend now i s) = rNumPorts s" "conf (contend now i s) = conf s"
  "rUpgradeTimer (contend now i s) = rUpgradeTimer s"
  by (simp_all add: contend_def)

lemma with_role_contend:
  "i < rNumPorts s \<Longrightarrow> with_role r (contend now i s) = (if r = DESIGNATED then insert i (with_role r s) else with_role r s - {i})"
  by (simp add: contend_def with_role_set_data)

lemma ports_contend: "j < rNumPorts s \<Longrightarrow> rPorts (contend now i s) ! j =
    (if i = j then (become DESIGNATED DISCARDING (rPorts s ! i))\<lparr>pi_nextUpgrade := now + rForwardDelay s\<rparr> else rPorts s ! j)"
  by (simp add: contend_def nth_list_update)

lemma port_ok_contend [simp]: "port_ok ((become DESIGNATED DISCARDING p)\<lparr>pi_nextUpgrade := t\<rparr>)"
  by (simp add: port_ok_def)

text \<open>The index of the root port.\<close>

lemma getRootIndex_None: "getRootIndex s = None \<longleftrightarrow> with_role ROOT s = {}"
  by (auto simp: getRootIndex_def find_None_iff with_role_def)

lemma getRootIndex_Some:
  assumes "getRootIndex s = Some r" shows "r \<in> with_role ROOT s"
  using assms by (auto simp: getRootIndex_def find_Some_iff with_role_def)

lemma one_root_eq: "one_root s \<Longrightarrow> r \<in> with_role ROOT s \<Longrightarrow> with_role ROOT s = {r}"
  by (auto simp: one_root_def)

end
