(* ===== verification/RSTPSafe.thy ===== *)
theory RSTPSafe
  imports RSTPInv
begin

text \<open>
  Every handler of \<open>RSTP\<close> returns, and keeps the invariant, when the timer that goes off is the one that is due, and
  when a BPDU comes from another bridge, through a port that is not an edge port.
\<close>

section \<open>Loops over the ports\<close>

lemma fold_upt_rule:
  assumes "P 0 s" and "\<And>k t. k < n \<Longrightarrow> P k t \<Longrightarrow> P (Suc k) (f k t)"
  shows "P n (fold f [0..<n] s)"
  using assms by (induction n) auto

lemma iterR_append: "iterR f (xs @ ys) s = bindR (iterR f xs s) (iterR f ys)"
proof (induction xs arbitrary: s)
  case (Cons x xs)
  then show ?case by (cases "f x s") simp_all
qed simp

lemma iterR_upt_rule:
  assumes "P 0 s" and "\<And>k t. k < n \<Longrightarrow> P k t \<Longrightarrow> \<exists>u. f k t = Inr u \<and> P (Suc k) u"
  shows "\<exists>t. iterR f [0..<n] s = Inr t \<and> P n t"
  using assms
proof (induction n)
  case (Suc n)
  then obtain t where t: "iterR f [0..<n] s = Inr t" "P n t" by auto
  obtain u where "f n t = Inr u" "P (Suc n) u" using Suc.prems(2) [OF _ t(2)] by auto
  then show ?case by (simp add: iterR_append t(1))
qed simp

section \<open>Returning with the invariant\<close>

definition returns :: "simtime \<Rightarrow> rstp \<Rightarrow> rstp res \<Rightarrow> bool" where
  "returns now s r \<longleftrightarrow> (\<exists>t. r = Inr t \<and> rstp_inv now t \<and> conf t = conf s)"

lemma returns_Inr [simp]: "returns now s (Inr t) \<longleftrightarrow> rstp_inv now t \<and> conf t = conf s"
  by (simp add: returns_def)

lemma returns_core:
  assumes "returns now s r" and "\<And>t. core (f t) = core t"
  shows "returns now s (bindR r (\<lambda>t. Inr (f t)))"
  using assms(1) inv_core [OF assms(2)] core_conf [OF assms(2)] by (auto simp: returns_def)

lemma returns_conf: "conf s = conf s' \<Longrightarrow> returns now s r = returns now s' r"
  by (simp add: returns_def)

lemma schedule_returns:
  assumes "roles_ok s" and "ahead now s" and "delays_ok s"
  shows "returns now s (scheduleNextUpgrde now s)"
  by (rule schedule_ahead [OF assms(2)]) (use assms(1,3) in \<open>simp add: rstp_inv_def\<close>)

lemma inv_ahead: "rstp_inv now s \<Longrightarrow> ahead now s" and inv_roles: "rstp_inv now s \<Longrightarrow> roles_ok s"
  and inv_delays: "rstp_inv now s \<Longrightarrow> delays_ok s"
  by (simp_all add: rstp_inv_def timed_ahead)

lemma roles_ok_set_data:
  assumes "\<And>j. j < rNumPorts s \<Longrightarrow> j \<noteq> i \<Longrightarrow> port_ok (rPorts s ! j)" and "i < rNumPorts s" and "port_ok (f (rPorts s ! i))"
    and "one_root (set_data i f s)"
    and "with_role ALTERNATE (set_data i f s) \<noteq> {} \<Longrightarrow> with_role ROOT (set_data i f s) \<noteq> {}"
  shows "roles_ok (set_data i f s)"
  using assms by (auto simp: roles_ok_def nth_list_update)

lemma roles_ok_contend:
  assumes "roles_ok s" and "i < rNumPorts s" and "pi_role (rPorts s ! i) \<noteq> ROOT"
  shows "roles_ok (contend now i s)"
proof -
  have "with_role ROOT (contend now i s) = with_role ROOT s"
    using assms(2,3) by (auto simp: with_role_contend) (simp add: with_role_def)
  moreover have "with_role ALTERNATE (contend now i s) \<subseteq> with_role ALTERNATE s"
    using assms(2) by (auto simp: with_role_contend)
  ultimately show ?thesis
    using assms by (auto simp: roles_ok_def one_root_def ports_contend)
qed

lemma contend_returns:
  assumes "rstp_inv now s" and "i < rNumPorts s" and "pi_role (rPorts s ! i) \<noteq> ROOT"
  shows "returns now s (scheduleNextUpgrde now (contend now i s))"
proof -
  have "returns now (contend now i s) (scheduleNextUpgrde now (contend now i s))"
    by (rule schedule_returns)
      (use assms in \<open>auto simp: inv_ahead inv_roles inv_delays roles_ok_contend ahead_contend delays_conf [of "contend now i s" s]\<close>)
  then show ?thesis by (simp add: returns_def)
qed

lemma roles_ok_alternate:
  assumes "roles_ok s" and "i < rNumPorts s" and "pi_role (rPorts s ! i) \<noteq> ROOT" and "\<not> pi_edge (rPorts s ! i)"
    and "with_role ROOT s \<noteq> {}" and f: "\<And>p. skel (f p) = skel (become ALTERNATE DISCARDING p)"
  shows "roles_ok (set_data i f s)"
proof (rule roles_ok_set_data)
  have k: "pi_role (f p) = ALTERNATE" "pi_state (f p) = DISCARDING" "pi_edge (f p) = pi_edge p" for p
    using f [of p] by (simp_all add: skel_def)
  have r: "with_role ROOT (set_data i f s) = with_role ROOT s"
    using assms(2,3) k by (auto simp: with_role_set_data) (simp add: with_role_def)
  then show "one_root (set_data i f s)" and "with_role ROOT (set_data i f s) \<noteq> {}"
    using assms(1,5) by (simp_all add: one_root_def roles_ok_def)
  show "port_ok (f (rPorts s ! i))" using assms(4) k by (simp add: port_ok_def)
qed (use assms in \<open>simp_all add: roles_ok_def\<close>)

section \<open>Initializing the ports\<close>

lemma initial_port_conf: "conf s = conf t \<Longrightarrow> initial_port now s = initial_port now t"
  by (auto simp: initial_port_def init_data_def conf_def)

lemma flush_port_ports [simp]: "rPorts (flush_port i s) = rPorts s" "rUpgradeTimer (flush_port i s) = rUpgradeTimer s"
  "conf (flush_port i s) = conf s"
  by (simp_all add: flush_port_def conf_def)

lemma initial_port_edge [simp]: "pi_edge (initial_port now s p) = pi_edge p"
  by (simp add: initial_port_def init_data_def)

lemma initial_port_sel [simp]:
  "pi_role (initial_port now s p) = (if pi_edge p then DESIGNATED else NOTASSIGNED)"
  "pi_state (initial_port now s p) = (if pi_edge p then FORWARDING else DISCARDING)"
  "\<not> pi_edge p \<Longrightarrow> pi_nextUpgrade (initial_port now s p) = now + rMigrateTime s"
  by (simp_all add: initial_port_def init_data_def)

lemma initPorts_loop:
  fixes now s
  defines "t \<equiv> fold (\<lambda>j s. flush_port j (set_data j (initial_port now s) s)) [0..<rNumPorts s] s"
  shows "conf t = conf s" and "rPorts t = map (initial_port now s) (rPorts s)"
proof -
  have "conf t = conf s \<and> (\<forall>i < rNumPorts s. rPorts t ! i = (if i < rNumPorts s then initial_port now s (rPorts s ! i) else rPorts s ! i))"
    unfolding t_def
  proof (rule fold_upt_rule [where P = "\<lambda>k t. conf t = conf s
      \<and> (\<forall>i < rNumPorts s. rPorts t ! i = (if i < k then initial_port now s (rPorts s ! i) else rPorts s ! i))"])
    fix k t
    assume k: "k < rNumPorts s" and t: "conf t = conf s
      \<and> (\<forall>i < rNumPorts s. rPorts t ! i = (if i < k then initial_port now s (rPorts s ! i) else rPorts s ! i))"
    have "rNumPorts t = rNumPorts s" using conf_sel(1) t by blast
    then show "conf (flush_port k (set_data k (initial_port now t) t)) = conf s
      \<and> (\<forall>i < rNumPorts s. rPorts (flush_port k (set_data k (initial_port now t) t)) ! i
           = (if i < Suc k then initial_port now s (rPorts s ! i) else rPorts s ! i))"
      using t k initial_port_conf [of t s now] by (auto simp: nth_list_update less_Suc_eq)
  qed simp
  then show c: "conf t = conf s" and "rPorts t = map (initial_port now s) (rPorts s)"
    using conf_sel(1) [of t s] by (auto intro: nth_equalityI)
qed

lemma initPorts_shape:
  assumes "delays_ok s"
  obtains t where "initPorts now s = Inr t" and "rstp_inv now t" and "conf t = conf s"
    and "rPorts t = map (initial_port now s) (rPorts s)"
proof -
  define u where "u = fold (\<lambda>j s. flush_port j (set_data j (initial_port now s) s)) [0..<rNumPorts s] s"
  have c: "conf u = conf s" and p: "rPorts u = map (initial_port now s) (rPorts s)"
    using initPorts_loop [of now s] by (simp_all add: u_def)
  have d: "delays_ok u" using assms delays_conf [OF c] by simp
  have m: "rMigrateTime u = rMigrateTime s" by (rule conf_sel(4) [OF c])
  have "port_ok (rPorts u ! i)" if "i < rNumPorts u" for i using that by (auto simp: p port_ok_def)
  moreover have w: "with_role ROOT u = {}" "with_role ALTERNATE u = {}" by (auto simp: with_role_def p)
  ultimately have r: "roles_ok u" by (simp add: roles_ok_def one_root_def)
  have "ahead now u" using assms by (auto simp: ahead_def waiting_def awaits_upgrade_def p delays_ok_def split: if_splits)
  then obtain tm where tm: "scheduleNextUpgrde now u = Inr (u\<lparr>rUpgradeTimer := tm\<rparr>)" "timed now (u\<lparr>rUpgradeTimer := tm\<rparr>)"
    by (rule schedule_ahead)
  show thesis
    by (rule that [of "u\<lparr>rUpgradeTimer := tm\<rparr>"]) (use tm r d c p in \<open>simp_all add: initPorts_def u_def [symmetric] rstp_inv_def\<close>)
qed

lemma initPorts_returns: "delays_ok s \<Longrightarrow> returns now s (initPorts now s)"
  by (rule initPorts_shape [of s now]) (simp_all add: returns_def)

section \<open>A new root port\<close>

lemma promote:
  assumes v: "timed now v" "delays_ok v" and c: "c < rNumPorts v" "\<not> pi_edge (rPorts v ! c)"
    and o: "\<And>j. j < rNumPorts v \<Longrightarrow> j \<noteq> c \<Longrightarrow> port_ok (rPorts v ! j)" and r: "with_role ROOT v \<subseteq> {c}"
    and f: "\<And>p. skel (f p) = skel (become ROOT FORWARDING p)"
  shows "rstp_inv now (set_data c f v)" and "conf (set_data c f v) = conf v"
    and "with_role ROOT (set_data c f v) = {c}"
proof -
  have k: "pi_role (f p) = ROOT" "pi_state (f p) = FORWARDING" "pi_edge (f p) = pi_edge p" for p
    using f [of p] by (simp_all add: skel_def)
  show w: "with_role ROOT (set_data c f v) = {c}" using r c(1) k by (auto simp: with_role_set_data)
  show s: "conf (set_data c f v) = conf v" using k by simp
  have "roles_ok (set_data c f v)"
    by (rule roles_ok_set_data) (use o c w k in \<open>auto simp: port_ok_def one_root_def\<close>)
  moreover have "timed now (set_data c f v)"
    by (rule timed_set_data [OF v(1) c(1)]) (simp add: awaits_upgrade_def k)
  ultimately show "rstp_inv now (set_data c f v)" using v(2) delays_conf [OF s] by (simp add: rstp_inv_def)
qed

lemma roles_ports: "roles_ok s \<Longrightarrow> i < rNumPorts s \<Longrightarrow> port_ok (rPorts s ! i)"
  by (simp add: roles_ok_def)

lemma port_ok_core: "core s = core t \<Longrightarrow> i < rNumPorts t \<Longrightarrow> port_ok (rPorts s ! i) = port_ok (rPorts t ! i)"
  using core_sel(4) [of s t i] by (simp add: port_ok_def skel_def)

section \<open>Timers\<close>

lemma failover:
  assumes s: "rstp_inv now s" and i: "i < rNumPorts s" "pi_role (rPorts s ! i) = ROOT" and c: "getBestAlternate s = Some c"
  obtains u where "scheduleNextUpgrde now (contend now i s) = Inr u"
    and "\<And>v f. core v = core u \<Longrightarrow> (\<And>p. skel (f p) = skel (become ROOT FORWARDING p)) \<Longrightarrow> returns now s (Inr (set_data c f v))"
proof -
  note c = getBestAlternate_Some(1,2) [OF c]
  have ne: "c \<noteq> i" using c(2) i(2) by auto
  have "ahead now (contend now i s)" by (rule ahead_contend) (use s i in \<open>simp_all add: inv_ahead inv_delays\<close>)
  then obtain tm where tm: "scheduleNextUpgrde now (contend now i s) = Inr ((contend now i s)\<lparr>rUpgradeTimer := tm\<rparr>)"
      "timed now ((contend now i s)\<lparr>rUpgradeTimer := tm\<rparr>)"
    by (rule schedule_ahead)
  define u where "u = (contend now i s)\<lparr>rUpgradeTimer := tm\<rparr>"
  have nu: "rNumPorts u = rNumPorts s" "conf u = conf s" by (simp_all add: u_def)
  have r: "with_role ROOT s = {i}"
    using s i by (intro one_root_eq) (auto simp: rstp_inv_def roles_ok_def with_role_def)
  show thesis
  proof (rule that)
    show "scheduleNextUpgrde now (contend now i s) = Inr u" using tm(1) by (simp add: u_def)
    fix v and f :: "PortInfo \<Rightarrow> PortInfo"
    assume cv: "core v = core u" and f: "\<And>p. skel (f p) = skel (become ROOT FORWARDING p)"
    have nv: "rNumPorts v = rNumPorts s" "conf v = conf s" using core_sel(1) [OF cv] core_conf [OF cv] nu by simp_all
    have "with_role ROOT v = {}" using i(1) r by (simp add: with_role_core [OF cv] u_def with_role_contend)
    moreover have "port_ok (rPorts v ! j)" if "j < rNumPorts v" for j
      using that port_ok_core [OF cv, of j] nv nu roles_ports [OF inv_roles [OF s], of j] by (simp add: u_def ports_contend)
    moreover have "\<not> pi_edge (rPorts v ! c)"
      using conf_sel(9) [OF nv(2) c(1)] c roles_ports [OF inv_roles [OF s] c(1)] by (simp add: port_ok_def)
    moreover have "timed now v" "delays_ok v"
      using tm(2) timed_core [OF cv] delays_conf [OF nv(2)] inv_delays [OF s] by (simp_all add: u_def)
    ultimately have "rstp_inv now (set_data c f v)" "conf (set_data c f v) = conf v"
      using promote [of now v c f] f nv(1) c(1) by auto
    then show "returns now s (Inr (set_data c f v))" using nv(2) by simp
  qed
qed

lemma returns_Inr_core: "returns now s (Inr t) \<Longrightarrow> core u = core t \<Longrightarrow> returns now s (Inr u)"
  using inv_core [of u t] core_conf [of u t] by simp

lemma lost_root_returns:
  assumes s: "rstp_inv now s" and i: "i < rNumPorts s" "pi_role (rPorts s ! i) = ROOT"
  shows "returns now s (lost_root now i s)"
proof (cases "getBestAlternate s")
  case None
  then show ?thesis using initPorts_returns [OF inv_delays [OF s]] by (simp add: lost_root_def)
next
  case (Some c)
  obtain u where u: "scheduleNextUpgrde now (contend now i s) = Inr u"
    and f: "\<And>v f. core v = core u \<Longrightarrow> (\<And>p. skel (f p) = skel (become ROOT FORWARDING p)) \<Longrightarrow> returns now s (Inr (set_data c f v))"
    using failover [OF s i Some] by blast
  have "returns now s (Inr (set_data c to_root (rstp_initInterfacedata i u)))"
    by (rule f) (simp_all add: skel_def)
  then show ?thesis unfolding lost_root_def Some u option.simps bindR.simps by (rule returns_Inr_core) simp
qed

lemma lost_other_returns:
  assumes "rstp_inv now s" and "i < rNumPorts s" and "pi_role (rPorts s ! i) \<noteq> ROOT"
  shows "returns now s (lost_other now i s)"
  unfolding lost_other_def by (rule returns_core [OF contend_returns [OF assms]]) simp

lemma hello_port_returns:
  assumes s: "rstp_inv now s" and i: "i < rNumPorts s"
  shows "returns now s (hello_port now i s)"
proof -
  define s1 where "s1 = set_data i (\<lambda>p. p\<lparr>pi_lostBPDU := pi_lostBPDU p + 1\<rparr>) s"
  have c: "core s1 = core s" by (simp add: s1_def skel_def)
  have s1: "rstp_inv now s1" "i < rNumPorts s1" "pi_role (rPorts s1 ! i) = pi_role (rPorts s ! i)"
    using s i inv_core [OF c] by (simp_all add: s1_def)
  have "returns now s1 (if pi_role (rPorts s ! i) = ROOT then lost_root now i s1 else lost_other now i s1)"
    using lost_root_returns [OF s1(1,2)] lost_other_returns [OF s1(1,2)] s1(3) by simp
  then have "returns now s1 (bindR (if pi_role (rPorts s ! i) = ROOT then lost_root now i s1 else lost_other now i s1)
      (\<lambda>s2. Inr (set_data i (\<lambda>p. p\<lparr>pi_lostBPDU := 0\<rparr>) s2)))"
    by (rule returns_core) (simp add: skel_def)
  then show ?thesis
    using s s1(1) core_conf [OF c] returns_conf [of s1 s] by (simp add: hello_port_def Let_def s1_def [symmetric])
qed

definition hello_set :: "simtime \<Rightarrow> rstp \<Rightarrow> rstp" where
  "hello_set t s = s\<lparr>rHelloTimer := (rHelloTimer s)\<lparr>tm_at := Some t\<rparr>\<rparr>"

lemma hello_set_inv [simp]: "rstp_inv now (hello_set t s) = rstp_inv now s"
  by (simp add: hello_set_def rstp_inv_def roles_ok_def one_root_def with_role_def timed_def waiting_def delays_ok_def)

lemma hello_set_conf: "conf s = conf s' \<Longrightarrow> conf (hello_set t s) = conf (hello_set t s')"
  by (simp add: hello_set_def conf_def)

lemma schedule_hello_eq:
  "tm_at (rHelloTimer s) = None \<Longrightarrow> now \<le> t \<Longrightarrow> schedule_hello now t s = Inr (hello_set t s)"
  by (simp add: schedule_hello_def scheduleAt_def hello_set_def)

lemma handleHelloTime_returns:
  assumes s: "rstp_inv now s" and h: "tm_at (rHelloTimer s) = None" "0 \<le> rHelloTime s"
  shows "returns now (hello_set (now + rHelloTime s) s) (handleHelloTime now s)"
proof -
  have "\<exists>t. iterR (hello_port now) [0..<rNumPorts s] s = Inr t \<and> rstp_inv now t \<and> conf t = conf s"
  proof (rule iterR_rule)
    fix i t assume "i \<in> set [0..<rNumPorts s]" and t: "rstp_inv now t \<and> conf t = conf s"
    then have "i < rNumPorts t" using conf_sel(1) [of t s] by simp
    then show "\<exists>u. hello_port now i t = Inr u \<and> rstp_inv now u \<and> conf u = conf s"
      using hello_port_returns [of now t i] t by (simp add: returns_def)
  qed (simp add: s)
  then obtain t where t: "iterR (hello_port now) [0..<rNumPorts s] s = Inr t" "rstp_inv now t" "conf t = conf s" by blast
  let ?u = "sendTCNtoRoot now (rstp_sendBPDUs now t)"
  have cu: "core ?u = core t" by simp
  then have u: "conf ?u = conf s" "rstp_inv now ?u" using core_conf [OF cu] t inv_core [OF cu] by simp_all
  have "schedule_hello now (now + rHelloTime t) ?u = Inr (hello_set (now + rHelloTime t) ?u)"
    by (rule schedule_hello_eq) (use h conf_sel(5) [OF u(1)] conf_sel(8) [OF t(3)] in simp_all)
  then have "handleHelloTime now s = Inr (hello_set (now + rHelloTime s) ?u)"
    unfolding handleHelloTime_def t(1) bindR.simps conf_sel(8) [OF t(3)] .
  moreover have "conf (hello_set (now + rHelloTime s) ?u) = conf (hello_set (now + rHelloTime s) s)"
    by (rule hello_set_conf [OF u(1)])
  ultimately show ?thesis using u(2) by (simp only: returns_Inr hello_set_inv simp_thms)
qed

lemma upgrade_port_keeps:
  assumes i: "i < rNumPorts s" and s: "roles_ok s" "ahead now s" "delays_ok s"
  shows "roles_ok (upgrade_port now i s) \<and> ahead now (upgrade_port now i s) \<and> conf (upgrade_port now i s) = conf s"
proof -
  have st: "roles_ok (set_data i f s) \<and> ahead now (set_data i f s) \<and> conf (set_data i f s) = conf s"
    if d: "pi_role (rPorts s ! i) = DESIGNATED"
      and f: "\<And>p. pi_role (f p) = pi_role p \<and> pi_edge (f p) = pi_edge p \<and> (pi_state (f p) \<noteq> FORWARDING \<longrightarrow> now \<le> pi_nextUpgrade (f p))" for f
  proof (intro conjI)
    have w: "with_role r (set_data i f s) = with_role r s" for r
      using i f by (auto simp: with_role_def nth_list_update)
    show "roles_ok (set_data i f s)"
      by (rule roles_ok_set_data) (use s i f d w in \<open>auto simp: roles_ok_def one_root_def port_ok_def\<close>)
    show "ahead now (set_data i f s)"
      by (rule ahead_set_data [OF s(2) i]) (use f d in \<open>auto simp: awaits_upgrade_def\<close>)
  qed (use f in simp)
  note keep = roles_ok_core [OF core_flush] ahead_core [OF core_flush] core_conf [OF core_flush]
  show ?thesis
    using s i st [of "\<lambda>p. p\<lparr>pi_state := LEARNING, pi_nextUpgrade := now + rForwardDelay s\<rparr>"] st [of "\<lambda>p. p\<lparr>pi_state := FORWARDING\<rparr>"]
    by (auto simp: upgrade_port_def Let_def keep roles_ok_contend ahead_contend delays_ok_def)
qed

lemma handleUpgrade_returns:
  assumes "roles_ok s" and "ahead now s" and "delays_ok s"
  shows "returns now s (handleUpgrade now s)"
proof -
  let ?t = "fold (upgrade_port now) [0..<rNumPorts s] s"
  have t: "roles_ok ?t \<and> ahead now ?t \<and> conf ?t = conf s"
  proof (rule fold_upt_rule)
    fix k t assume "k < rNumPorts s" and t: "roles_ok t \<and> ahead now t \<and> conf t = conf s"
    then have "k < rNumPorts t" "delays_ok t" using conf_sel(1) [of t s] delays_conf [of t s] assms(3) by simp_all
    then show "roles_ok (upgrade_port now k t) \<and> ahead now (upgrade_port now k t) \<and> conf (upgrade_port now k t) = conf s"
      using upgrade_port_keeps [of k t now] t by simp
  qed (use assms in simp)
  have "delays_ok ?t" using delays_conf [of ?t s] t assms(3) by blast
  then have "returns now ?t (handleUpgrade now s)"
    unfolding handleUpgrade_def using schedule_returns t by blast
  then show ?thesis using returns_conf [of ?t s] t by blast
qed

end
