(* ===== verification/RSTPFrames.thy ===== *)
theory RSTPFrames
  imports RSTPSafe
begin

text \<open>The handling of BPDUs by \<open>RSTP\<close> returns and keeps the invariant.\<close>

section \<open>Moving the root\<close>

lemma set_data_twice: "set_data i f (set_data i g s) = set_data i (\<lambda>p. f (g p)) s"
  by (cases "i < rNumPorts s") (simp_all add: set_data_def list_update_beyond)

lemma copy_port_set_data: "copy_port j k (set_data i f s) = set_data i f (copy_port j k s)"
  by (simp add: copy_port_def set_data_def)

text \<open>Port \<open>a\<close> becomes the root port and the old root port \<open>r\<close> something else.\<close>

lemma swap_root:
  assumes s: "rstp_inv now s" "with_role ROOT s = {r}" and a: "a < rNumPorts s" "a \<noteq> r" "\<not> pi_edge (rPorts s ! a)"
    and f: "\<And>p. skel (f p) = skel (become ROOT FORWARDING p)"
    and g: "pi_role (g (rPorts s ! r)) \<noteq> ROOT" and e: "\<And>p. pi_edge (g p) = pi_edge p"
  defines "u \<equiv> set_data r g (set_data a f s)"
  shows "with_role ROOT u = {a}" and "conf u = conf s" and "port_ok (g (rPorts s ! r)) \<Longrightarrow> roles_ok u"
    and "\<not> awaits_upgrade (g (rPorts s ! r)) \<Longrightarrow> timed now u"
proof -
  have r: "r < rNumPorts s" using s(2) by (auto simp: with_role_def)
  have k: "pi_role (f p) = ROOT" "pi_state (f p) = FORWARDING" "pi_edge (f p) = pi_edge p" for p
    using f [of p] by (simp_all add: skel_def)
  show w: "with_role ROOT u = {a}" using s(2) a g r k by (auto simp: u_def with_role_set_data)
  show "conf u = conf s" using k e by (simp add: u_def)
  show "timed now u" if "\<not> awaits_upgrade (g (rPorts s ! r))"
    unfolding u_def by (intro timed_set_data) (use that s(1) a r k in \<open>auto simp: rstp_inv_def awaits_upgrade_def\<close>)
  show "roles_ok u" if "port_ok (g (rPorts s ! r))" unfolding u_def
  proof (rule roles_ok_set_data)
    show "port_ok (rPorts (set_data a f s) ! j)" if "j < rNumPorts (set_data a f s)" for j
      using that a k roles_ports [OF inv_roles [OF s(1)], of j] by (auto simp: nth_list_update port_ok_def)
  qed (use that w r a in \<open>auto simp: u_def [symmetric] one_root_def\<close>)
qed

lemma root_of: "with_role ROOT s = {r} \<Longrightarrow> getRootIndex s = Some r"
  using getRootIndex_None [of s] getRootIndex_Some [of s] by (cases "getRootIndex s") auto

lemma demote_old_root:
  assumes s: "rstp_inv now s" "with_role ROOT s = {r}" and a: "a < rNumPorts s" "a \<noteq> r" "\<not> pi_edge (rPorts s ! a)"
    and f: "\<And>p. skel (f p) = skel (become ROOT FORWARDING p)"
    and g: "\<And>p. pi_role (g p) \<noteq> ROOT \<and> pi_edge (g p) = pi_edge p \<and> (pi_state p = FORWARDING \<longrightarrow> \<not> awaits_upgrade (g p))"
  defines "u \<equiv> set_data r g (set_data a f s)"
  shows "returns now s (Inr (set_data r (become ALTERNATE DISCARDING) u))"
    and "returns now s (scheduleNextUpgrde now (contend now r u))" and "getRootIndex u = Some a"
    and "conf u = conf s"
proof -
  have r: "r < rNumPorts s" "pi_role (rPorts s ! r) = ROOT" using s(2) by (auto simp: with_role_def)
  have ok: "pi_state (rPorts s ! r) = FORWARDING" "\<not> pi_edge (rPorts s ! r)"
    using roles_ports [OF inv_roles [OF s(1)] r(1)] r(2) by (auto simp: port_ok_def)
  note sw = swap_root [OF s a f]
  have u: "with_role ROOT u = {a}" "conf u = conf s" "timed now u"
    using sw(1) [of g] sw(2) [of g] sw(4) [of g] g ok(1) by (simp_all add: u_def)
  show "getRootIndex u = Some a" and "conf u = conf s" using u root_of by simp_all
  have d: "delays_ok u" using inv_delays [OF s(1)] delays_conf [OF u(2)] by simp
  have n: "rNumPorts u = rNumPorts s" by (simp add: u_def)
  have tw: "set_data r h u = set_data r (\<lambda>p. h (g p)) (set_data a f s)" for h by (simp add: u_def set_data_twice)
  have "roles_ok (set_data r (become ALTERNATE DISCARDING) u)" "timed now (set_data r (become ALTERNATE DISCARDING) u)"
      "conf (set_data r (become ALTERNATE DISCARDING) u) = conf s"
    unfolding tw using sw(2,3,4) [of "\<lambda>p. become ALTERNATE DISCARDING (g p)"] g ok
    by (simp_all add: port_ok_def awaits_upgrade_def)
  then show "returns now s (Inr (set_data r (become ALTERNATE DISCARDING) u))"
    using inv_delays [OF s(1)] delays_conf [of "set_data r (become ALTERNATE DISCARDING) u" s] by (simp add: rstp_inv_def)
  let ?h = "\<lambda>p. (become DESIGNATED DISCARDING p)\<lparr>pi_nextUpgrade := now + rForwardDelay u\<rparr>"
  have c: "roles_ok (contend now r u)" "conf (contend now r u) = conf s"
    unfolding contend_def tw using sw(2,3) [of "\<lambda>p. ?h (g p)"] g ok by (simp_all add: port_ok_def)
  have "ahead now (contend now r u)" by (rule ahead_contend) (use u(3) r(1) n d in \<open>simp_all add: timed_ahead\<close>)
  then have "returns now (contend now r u) (scheduleNextUpgrde now (contend now r u))"
    using c(1) d by (intro schedule_returns) (simp_all add: delays_conf [of "contend now r u" u])
  then show "returns now s (scheduleNextUpgrde now (contend now r u))" using c(2) by (simp add: returns_def)
qed

section \<open>A better BPDU\<close>

lemma double_link_returns:
  assumes s: "rstp_inv now s" "with_role ROOT s = {r}" and a: "a < rNumPorts s" "\<not> pi_edge (rPorts s ! a)"
  shows "returns now s (Inr (double_link now r a s))"
proof -
  have r: "r < rNumPorts s" "pi_role (rPorts s ! r) = ROOT" using s(2) by (auto simp: with_role_def)
  have e: "\<not> pi_edge (rPorts s ! r)" using roles_ports [OF inv_roles [OF s(1)] r(1)] r(2) by (auto simp: port_ok_def)
  have keep: ?thesis if w: "a \<noteq> r"
    and d: "double_link now r a s = set_data a (\<lambda>p. (become ALTERNATE DISCARDING p)\<lparr>pi_lostBPDU := 0\<rparr>) (flush_port a s)"
  proof -
    let ?t = "set_data a (\<lambda>p. (become ALTERNATE DISCARDING p)\<lparr>pi_lostBPDU := 0\<rparr>) (flush_port a s)"
    have c: "core (flush_port a s) = core s" by simp
    have "a \<notin> with_role ROOT s" using s(2) w by simp
    then have "pi_role (rPorts s ! a) \<noteq> ROOT" using a(1) by (simp add: with_role_def)
    then have "roles_ok ?t"
      by (intro roles_ok_alternate)
        (use a s(2) inv_roles [OF s(1)] in \<open>simp_all add: roles_ok_core [OF c] with_role_core [OF c] skel_def\<close>)
    moreover have "timed now ?t"
      by (rule timed_set_data) (use a s(1) in \<open>auto simp: awaits_upgrade_def rstp_inv_def timed_core [OF c]\<close>)
    ultimately show ?thesis using d inv_delays [OF s(1)] by (simp add: rstp_inv_def delays_conf [of ?t s])
  qed
  define s1 where "s1 = (if pi_state (rPorts s ! a) \<noteq> FORWARDING then flushOtherPorts now a s else flush_port r s)"
  let ?v = "set_data r (become ALTERNATE DISCARDING) s1"
  have c: "core s1 = core s" by (simp add: s1_def)
  have n: "rNumPorts s1 = rNumPorts s" by (rule core_sel(1) [OF c])
  have e1: "pi_edge (rPorts s1 ! j) = pi_edge (rPorts s ! j)" if "j < rNumPorts s" for j
    by (rule conf_sel(9) [OF core_conf [OF c] that])
  have t: "timed now ?v" by (rule timed_set_data) (use s(1) r n in \<open>auto simp: timed_core [OF c] rstp_inv_def awaits_upgrade_def\<close>)
  have cv: "conf ?v = conf s" using core_conf [OF c] by simp
  have ok: "port_ok (rPorts ?v ! j)" if "j < rNumPorts ?v" for j
  proof (cases "j = r")
    case True
    then show ?thesis using n e e1 [OF r(1)] r(1) by (simp add: port_ok_def)
  next
    case False
    then show ?thesis using that n port_ok_core [OF c, of j] roles_ports [OF inv_roles [OF s(1)], of j] by simp
  qed
  have w: "with_role ROOT ?v = {}" using s(2) r(1) n by (simp add: with_role_set_data with_role_core [OF c])
  have ea: "\<not> pi_edge (rPorts ?v ! a)" using a e1 r(1) n by (simp add: nth_list_update)
  have av: "a < rNumPorts ?v" and dv: "delays_ok ?v"
    using a n delays_conf [OF cv] inv_delays [OF s(1)] by simp_all
  have "rstp_inv now (set_data a to_root ?v)" "conf (set_data a to_root ?v) = conf ?v"
    by (rule promote(1,2) [OF t dv av ea ok]; simp add: w skel_def)+
  then have "returns now s (Inr (set_data a to_root ?v))" unfolding returns_Inr using cv by metis
  then have other: "returns now s (Inr (copy_port r a (set_data a to_root ?v)))"
    by (rule returns_Inr_core) (rule core_keep(2))
  show ?thesis
  proof (cases "pi_portPriority (rPorts s ! r) < pi_portPriority (rPorts s ! a)
      \<or> pi_portPriority (rPorts s ! r) = pi_portPriority (rPorts s ! a) \<and> r < a")
    case True
    show ?thesis by (rule keep) (use True in \<open>auto simp: double_link_def Let_def\<close>)
  next
    case False
    then have "double_link now r a s = copy_port r a (set_data a to_root ?v)"
      unfolding double_link_def Let_def s1_def by (simp only: if_False)
    with other show ?thesis by (simp only:)
  qed
qed

lemma better_route_returns:
  assumes s: "rstp_inv now s" "with_role ROOT s = {r}" and a: "a < rNumPorts s" "a \<noteq> r" "\<not> pi_edge (rPorts s ! a)"
  shows "returns now s (better_route now r a s)"
proof -
  define s0 where "s0 = copy_port r a (if pi_state (rPorts s ! a) \<noteq> FORWARDING then flushOtherPorts now a s else s)"
  have c: "core s0 = core s" by (simp add: s0_def)
  have a0: "a < rNumPorts s0" "\<not> pi_edge (rPorts s0 ! a)"
    using a core_sel(1) [OF c] conf_sel(9) [OF core_conf [OF c] a(1)] by simp_all
  have s0: "rstp_inv now s0" "with_role ROOT s0 = {r}" using s inv_core [OF c] with_role_core [OF c] by simp_all
  define u where "u = set_data r (\<lambda>p. p\<lparr>pi_role := ALTERNATE\<rparr>) (set_data a to_root s0)"
  note d = demote_old_root [OF s0 a0(1) a(2) a0(2), of to_root "\<lambda>p. p\<lparr>pi_role := ALTERNATE\<rparr>", folded u_def]
  have d: "returns now s0 (Inr (set_data r (become ALTERNATE DISCARDING) u))"
    "returns now s0 (scheduleNextUpgrde now (contend now r u))" "getRootIndex u = Some a"
    by (rule d; simp add: skel_def awaits_upgrade_def)+
  obtain c3 where c3: "contestInterfacedata r u = Inr c3" by (simp add: contestInterfacedata_def d(3) Let_def)
  have "better_route now r a s =
      (if cr_value c3 \<ge> 0 then Inr (flush_port r (set_data r (become ALTERNATE DISCARDING) u))
       else scheduleNextUpgrde now (contend now r u))"
    using c3 by (simp add: better_route_def Let_def u_def s0_def copy_port_set_data)
  moreover have "returns now s0 (Inr (flush_port r (set_data r (become ALTERNATE DISCARDING) u)))"
    using d(1) by (rule returns_Inr_core) (rule core_keep(1))
  ultimately show ?thesis using d(2) returns_conf [OF core_conf [OF c]] by (simp only: split: if_split) blast
qed

text \<open>Becoming an alternate port beside a root port.\<close>

lemma alternate_returns:
  assumes s: "rstp_inv now s" and r: "with_role ROOT s \<noteq> {}" and a: "a < rNumPorts s" "pi_role (rPorts s ! a) \<noteq> ROOT" "\<not> pi_edge (rPorts s ! a)"
    and f: "\<And>p. skel (f p) = skel (become ALTERNATE DISCARDING p)"
  shows "returns now s (Inr (set_data a f s))"
proof -
  have k: "pi_role (f p) = ALTERNATE" "pi_edge (f p) = pi_edge p" for p using f [of p] by (simp_all add: skel_def)
  have "roles_ok (set_data a f s)" by (rule roles_ok_alternate [OF inv_roles [OF s] a r f])
  moreover have "timed now (set_data a f s)"
    by (rule timed_set_data) (use s a k in \<open>simp_all add: rstp_inv_def awaits_upgrade_def\<close>)
  moreover have "conf (set_data a f s) = conf s" using k by simp
  ultimately show ?thesis using inv_delays [OF s] delays_conf [of "set_data a f s" s] by (simp add: rstp_inv_def)
qed

lemma contest_defined: "with_role ROOT s \<noteq> {} \<Longrightarrow> \<exists>c. contestInterfacedata_msg b i s = Inr c"
  using getRootIndex_None [of s] by (cases "getRootIndex s") (simp_all add: contestInterfacedata_msg_def Let_def)

lemma worse_route_returns:
  assumes s: "rstp_inv now s" and r: "with_role ROOT s \<noteq> {}"
    and a: "a < rNumPorts s" "pi_role (rPorts s ! a) \<noteq> ROOT" "\<not> pi_edge (rPorts s ! a)"
  shows "returns now s (worse_route now b a s)"
proof -
  obtain c where c: "contestInterfacedata_msg b a s = Inr c" using contest_defined [OF r] by blast
  have e: "core (flush_port a s) = core s" by simp
  have "returns now (flush_port a s)
      (Inr (set_data a (\<lambda>p. (become ALTERNATE DISCARDING p)\<lparr>pi_lostBPDU := 0\<rparr>) (flush_port a s)))"
    by (rule alternate_returns) (use s r a inv_core [OF e] with_role_core [OF e] in \<open>simp_all add: skel_def\<close>)
  moreover have "returns now s (bindR (scheduleNextUpgrde now (contend now a s)) (\<lambda>s1. Inr (rstp_sendBPDU now a s1)))"
    by (rule returns_core [OF contend_returns [OF s a(1,2)]]) (rule core_send(2))
  ultimately show ?thesis
    using returns_conf [OF core_conf [OF e]] by (simp add: worse_route_def c)
qed

text \<open>After a better root was heard of, every other port that is not an edge port starts anew.\<close>

lemma reassign_step:
  assumes s: "timed now s" "delays_ok s" "\<And>j. j < rNumPorts s \<Longrightarrow> port_ok (rPorts s ! j)" and i: "i < rNumPorts s"
  obtains t where "reassign_port now a i s = Inr t" and "timed now t" and "conf t = conf s"
    and "\<And>j. j < rNumPorts s \<Longrightarrow> j \<noteq> i \<Longrightarrow> skel (rPorts t ! j) = skel (rPorts s ! j)"
    and "i = a \<or> pi_edge (rPorts s ! i) \<Longrightarrow> skel (rPorts t ! i) = skel (rPorts s ! i)"
    and "i \<noteq> a \<Longrightarrow> \<not> pi_edge (rPorts s ! i) \<Longrightarrow>
           pi_role (rPorts t ! i) = NOTASSIGNED \<and> pi_state (rPorts t ! i) = DISCARDING"
proof (cases "pi_edge (rPorts s ! i)")
  case True
  then show thesis by (intro that [of s]) (use s in \<open>simp_all add: reassign_port_def\<close>)
next
  case False
  define s2 where "s2 = flush_port i (if pi_state (rPorts s ! a) \<noteq> FORWARDING
                   then set_data i (\<lambda>p. p\<lparr>pi_TCWhile := now + rTcWhileTime s\<rparr>) s else s)"
  have c: "core s2 = core s" by (simp add: s2_def skel_def)
  note n = core_sel(1) [OF c] and k = core_sel(4) [OF c]
  show thesis
  proof (cases "i = a")
    case True
    then have "reassign_port now a i s = Inr s2" using False by (simp add: reassign_port_def Let_def s2_def)
    then show thesis by (intro that [of s2]) (use True s timed_core [OF c] core_conf [OF c] k i in \<open>simp_all\<close>)
  next
    case ia: False
    define f where "f = (\<lambda>p. (become NOTASSIGNED DISCARDING p)\<lparr>pi_nextUpgrade := now + rMigrateTime s\<rparr>)"
    have m: "0 \<le> rMigrateTime s" using s(2) by (simp add: delays_ok_def)
    have "ahead now (set_data i f s2)"
      by (rule ahead_set_data) (use s(1) i n m in \<open>simp_all add: ahead_core [OF c] timed_ahead f_def\<close>)
    then obtain tm where tm: "scheduleNextUpgrde now (set_data i f s2) = Inr ((set_data i f s2)\<lparr>rUpgradeTimer := tm\<rparr>)"
        "timed now ((set_data i f s2)\<lparr>rUpgradeTimer := tm\<rparr>)"
      by (rule schedule_ahead)
    define t where "t = rstp_initInterfacedata i ((set_data i f s2)\<lparr>rUpgradeTimer := tm\<rparr>)"
    have ct: "core t = core ((set_data i f s2)\<lparr>rUpgradeTimer := tm\<rparr>)" by (simp add: t_def)
    have ij: "skel (rPorts t ! j) = skel (if j = i then f (rPorts s2 ! i) else rPorts s2 ! j)" if "j < rNumPorts s" for j
      using core_sel(4) [OF ct, of j] that n by (simp add: nth_list_update)
    show thesis
    proof (rule that)
      show "reassign_port now a i s = Inr t"
        using False ia tm(1) unfolding reassign_port_def Let_def s2_def [symmetric] f_def [symmetric] t_def by simp
      show "timed now t" using tm(2) timed_core [OF ct] by simp
      have "conf (set_data i f s2) = conf s2" by (simp add: f_def)
      then show "conf t = conf s" using core_conf [OF ct] core_conf [OF c] by simp
    qed (use False ia ij k i in \<open>auto simp: f_def skel_def\<close>)
  qed
qed

lemma reassign_loop:
  fixes s a
  defines "n \<equiv> rNumPorts s"
  assumes s: "rstp_inv now s"
  obtains t where "iterR (reassign_port now a) [0..<n] s = Inr t" and "timed now t" and "conf t = conf s"
    and "\<And>j. j < n \<Longrightarrow> port_ok (rPorts t ! j)"
    and "\<And>j. j < n \<Longrightarrow> j \<noteq> a \<Longrightarrow> \<not> pi_edge (rPorts s ! j) \<Longrightarrow> pi_role (rPorts t ! j) = NOTASSIGNED"
proof -
  have sk: "skel p = skel q \<Longrightarrow> port_ok p = port_ok q \<and> pi_role p = pi_role q" for p q by (simp add: skel_def port_ok_def)
  let ?P = "\<lambda>k t. timed now t \<and> conf t = conf s \<and> (\<forall>j < n. port_ok (rPorts t ! j))
      \<and> (\<forall>j < k. j \<noteq> a \<and> \<not> pi_edge (rPorts s ! j) \<longrightarrow> pi_role (rPorts t ! j) = NOTASSIGNED)"
  have "\<exists>t. iterR (reassign_port now a) [0..<n] s = Inr t \<and> ?P n t"
  proof (rule iterR_upt_rule [where P = ?P])
    show "?P 0 s" using s by (simp add: rstp_inv_def roles_ok_def n_def)
  next
    fix k t assume k: "k < n" and t: "?P k t"
    then have n: "rNumPorts t = n" and d: "delays_ok t"
      using conf_sel(1) [of t s] delays_conf [of t s] inv_delays [OF s] by (simp_all add: n_def)
    have e: "pi_edge (rPorts t ! j) = pi_edge (rPorts s ! j)" if "j < n" for j
      using conf_sel(9) [of t s j] t that by (simp add: n_def)
    obtain u where u: "reassign_port now a k t = Inr u" "timed now u" "conf u = conf t"
      and o: "\<And>j. j < rNumPorts t \<Longrightarrow> j \<noteq> k \<Longrightarrow> skel (rPorts u ! j) = skel (rPorts t ! j)"
      and i: "k = a \<or> pi_edge (rPorts t ! k) \<Longrightarrow> skel (rPorts u ! k) = skel (rPorts t ! k)"
        "k \<noteq> a \<Longrightarrow> \<not> pi_edge (rPorts t ! k) \<Longrightarrow> pi_role (rPorts u ! k) = NOTASSIGNED \<and> pi_state (rPorts u ! k) = DISCARDING"
      using reassign_step [of now t k a] t d k n by auto
    have old: "skel (rPorts u ! j) = skel (rPorts t ! j)" if "j < n" "\<not> (j = k \<and> k \<noteq> a \<and> \<not> pi_edge (rPorts t ! k))" for j
      using that o [of j] i(1) n by blast
    have new: "pi_role (rPorts u ! j) = NOTASSIGNED \<and> port_ok (rPorts u ! j)" if "j = k \<and> k \<noteq> a \<and> \<not> pi_edge (rPorts t ! k)" for j
      using that i(2) by (simp add: port_ok_def)
    have "port_ok (rPorts u ! j)" if "j < n" for j
      using new [of j] sk [OF old [of j]] t that by blast
    moreover have "pi_role (rPorts u ! j) = NOTASSIGNED" if "j < Suc k" "j \<noteq> a" "\<not> pi_edge (rPorts s ! j)" for j
    proof -
      have "j < n" "j < k \<or> j = k" using that(1) k by auto
      then show ?thesis using new [of j] sk [OF old [of j]] t e [of j] that by (metis nat_neq_iff)
    qed
    ultimately show "\<exists>u. reassign_port now a k t = Inr u \<and> ?P (Suc k) u" using u t by auto
  qed
  then show thesis using that by blast
qed

lemma reassign_returns:
  assumes s: "rstp_inv now s" and a: "a < rNumPorts s" "\<not> pi_edge (rPorts s ! a)"
  shows "returns now s (bindR (iterR (reassign_port now a) [0..<rNumPorts s] s) (\<lambda>s1. Inr (set_data a to_root s1)))"
proof -
  let ?n = "rNumPorts s"
  obtain t where t: "iterR (reassign_port now a) [0..<?n] s = Inr t" "timed now t" "conf t = conf s"
      "\<And>j. j < ?n \<Longrightarrow> port_ok (rPorts t ! j)"
      "\<And>j. j < ?n \<Longrightarrow> j \<noteq> a \<Longrightarrow> \<not> pi_edge (rPorts s ! j) \<Longrightarrow> pi_role (rPorts t ! j) = NOTASSIGNED"
    using reassign_loop [OF s, of a] by blast
  have n: "rNumPorts t = ?n" and e: "\<And>j. j < ?n \<Longrightarrow> pi_edge (rPorts t ! j) = pi_edge (rPorts s ! j)"
    using conf_sel(1,9) [OF t(3)] by simp_all
  have w: "with_role ROOT t \<subseteq> {a}"
  proof
    fix j assume "j \<in> with_role ROOT t"
    then have j: "j < ?n" "pi_role (rPorts t ! j) = ROOT" using n by (auto simp: with_role_def)
    then show "j \<in> {a}" using t(4,5) [of j] e [of j] by (auto simp: port_ok_def)
  qed
  have d: "delays_ok t" using delays_conf [OF t(3)] inv_delays [OF s] by simp
  have "rstp_inv now (set_data a to_root t)" "conf (set_data a to_root t) = conf t"
    by (rule promote(1,2) [OF t(2) d _ _ _ w]; use t(4) n e a in \<open>simp add: skel_def\<close>)+
  then show ?thesis using t(1,3) by simp
qed

section \<open>The whole of a BPDU\<close>

definition returns2 :: "simtime \<Rightarrow> rstp \<Rightarrow> (bool \<times> rstp) res \<Rightarrow> bool" where
  "returns2 now s r \<longleftrightarrow> (\<exists>b t. r = Inr (b, t) \<and> rstp_inv now t \<and> conf t = conf s)"

lemma returns2_answer: "returns now s r \<Longrightarrow> returns2 now s (answer b r)"
  by (auto simp: returns_def returns2_def)

lemma returns2_Inr: "returns2 now s (Inr (b, t)) \<longleftrightarrow> returns now s (Inr t)"
  unfolding returns2_def returns_Inr by blast

lemma returns2_core:
  assumes "returns now s r" and "\<And>t. core (f t) = core t"
  shows "returns2 now s (bindR r (\<lambda>t. Inr (b, f t)))"
  using returns_core [OF assms] by (auto simp: returns_def returns2_def)

lemma returns2_conf: "conf s = conf s' \<Longrightarrow> returns2 now s r = returns2 now s' r"
  by (simp add: returns2_def)

text \<open>The new data of a port is what its next comparison with the same BPDU finds: nothing better, nothing worse.\<close>

lemma compare_updated:
  assumes "i < rNumPorts s"
  shows "compareInterfacedata (rPorts (updateInterfacedata b i s) ! i) b (pi_linkCost (rPorts (updateInterfacedata b i s) ! i)) = SIMILAR"
  using assms by (simp add: updateInterfacedata_def compareInterfacedata_def compareRSTPData_zero)

lemma processBetterSource_returns:
  assumes s: "rstp_inv now s" and a: "a < rNumPorts s" "\<not> pi_edge (rPorts s ! a)"
  shows "returns2 now s (processBetterSource now b a s)"
proof -
  define u where "u = updateInterfacedata b a s"
  have c: "core u = core s" by (simp add: u_def)
  have u: "rstp_inv now u" "a < rNumPorts u" "\<not> pi_edge (rPorts u ! a)"
    using s a inv_core [OF c] core_sel(1) [OF c] conf_sel(9) [OF core_conf [OF c] a(1)] by simp_all
  have "returns2 now u (processBetterSource now b a s)"
  proof (cases "getRootIndex u")
    case None
    then have "with_role ROOT u = {}" by (simp add: getRootIndex_None)
    then have "returns now u (Inr (set_data a to_root u))"
      using promote(1,2) [of now u a to_root] u inv_roles [OF u(1)] inv_delays [OF u(1)]
      by (simp add: rstp_inv_def skel_def roles_ok_def)
    then have "returns now u (Inr (flushOtherPorts now a (set_data a to_root u)))"
      by (rule returns_Inr_core) simp
    then show ?thesis using None by (simp add: processBetterSource_def Let_def u_def [symmetric] returns2_Inr)
  next
    case (Some r)
    have r: "with_role ROOT u = {r}"
      using one_root_eq getRootIndex_Some [OF Some] inv_roles [OF u(1)] by (simp add: roles_ok_def)
    have x: "processBetterSource now b a s =
        (case compareInterfacedata (rPorts u ! r) b (pi_linkCost (rPorts u ! a)) of
             SIMILAR \<Rightarrow> Inr (False, double_link now r a u)
           | BETTER_ROOT \<Rightarrow>
               answer True (bindR (iterR (reassign_port now a) [0..<rNumPorts u] u) (\<lambda>s1.
                 Inr (set_data a to_root s1)))
           | BETTER_RPC \<Rightarrow> answer True (better_route now r a u)
           | BETTER_SRC \<Rightarrow> answer True (better_route now r a u)
           | BETTER_PORT \<Rightarrow> answer True (better_route now r a u)
           | WORSE_ROOT \<Rightarrow> Inr (False, rstp_sendBPDU now a u)
           | WORSE_RPC \<Rightarrow> answer False (worse_route now b a u)
           | WORSE_SRC \<Rightarrow> answer False (worse_route now b a u)
           | WORSE_PORT \<Rightarrow> answer False (worse_route now b a u))"
      by (simp add: processBetterSource_def Let_def u_def [symmetric] Some)
    have d: "returns2 now u (Inr (False, double_link now r a u))"
      unfolding returns2_Inr by (rule double_link_returns [OF u(1) r u(2,3)])
    show ?thesis
    proof (cases "a = r")
      case True
      then have "compareInterfacedata (rPorts u ! r) b (pi_linkCost (rPorts u ! a)) = SIMILAR"
        using compare_updated [OF a(1)] by (simp add: u_def)
      then show ?thesis using d by (simp add: x)
    next
      case False
      have ra: "pi_role (rPorts u ! a) \<noteq> ROOT" using r False u(2) by (auto simp: with_role_def)
      have "returns2 now u (answer True (better_route now r a u))"
        by (rule returns2_answer [OF better_route_returns [OF u(1) r u(2) False u(3)]])
      moreover have "returns2 now u (answer False (worse_route now b a u))"
        by (rule returns2_answer [OF worse_route_returns [OF u(1) _ u(2) ra u(3)]]) (simp add: r)
      moreover have "returns2 now u (Inr (False, rstp_sendBPDU now a u))"
        unfolding returns2_Inr by (rule returns_Inr_core [of now u u]) (use u in simp_all)
      ultimately show ?thesis
        using d returns2_answer [OF reassign_returns [OF u]] by (simp add: x split: CompareResult.split)
    qed
  qed
  then show ?thesis using returns2_conf [OF core_conf [OF c]] by simp
qed

lemma root_ports: "rstp_inv now s \<Longrightarrow> i < rNumPorts s \<Longrightarrow> pi_role (rPorts s ! i) = ROOT \<Longrightarrow> with_role ROOT s = {i}"
  by (intro one_root_eq) (auto simp: rstp_inv_def roles_ok_def with_role_def)

lemma core_flushes: "core (fold flush_port is s) = core s"
  by (rule core_fold) simp

lemma same_worse_root_returns:
  assumes s: "rstp_inv now s" and a: "a < rNumPorts s" "\<not> pi_edge (rPorts s ! a)"
  shows "returns2 now s (same_worse_root now b a s)"
proof (cases "pi_role (rPorts s ! a) = ROOT")
  case False
  then show ?thesis
    using s returns2_core [OF contend_returns [OF s a(1) False], of "\<lambda>t. rstp_sendBPDU now a (updateInterfacedata b a t)"]
    by (simp add: same_worse_root_def returns2_Inr)
next
  case True
  show ?thesis
  proof (cases "getBestAlternate s")
    case (Some c)
    obtain u where u: "scheduleNextUpgrde now (contend now a s) = Inr u"
      and f: "\<And>v f. core v = core u \<Longrightarrow> (\<And>p. skel (f p) = skel (become ROOT FORWARDING p)) \<Longrightarrow> returns now s (Inr (set_data c f v))"
      using failover [OF s a(1) True Some] by blast
    have "returns now s (Inr (set_data c (become ROOT FORWARDING) (flushOtherPorts now c (copy_port a c u))))"
      by (rule f) (simp_all add: skel_def)
    then have "returns now s (Inr (rstp_sendBPDU now a (updateInterfacedata b a
        (set_data c (become ROOT FORWARDING) (flushOtherPorts now c (copy_port a c u))))))"
      by (rule returns_Inr_core) simp
    then show ?thesis using True Some u by (simp add: same_worse_root_def Let_def returns2_Inr)
  next
    case None
    obtain t where t: "initPorts now s = Inr t" "rstp_inv now t" "conf t = conf s"
      and p: "rPorts t = map (initial_port now s) (rPorts s)"
      by (rule initPorts_shape [OF inv_delays [OF s]])
    define u where "u = fold flush_port [0..<rNumPorts t] t"
    define v where "v = updateInterfacedata b a u"
    have c: "core u = core t" by (simp add: u_def core_flushes)
    have cv: "core v = core t" by (simp add: v_def c)
    have n: "rNumPorts v = rNumPorts s" using core_sel(1) [OF cv] p by simp
    have iv: "rstp_inv now v" using inv_core [OF cv] t(2) by simp
    have "with_role ROOT v = {}" using p by (simp add: with_role_core [OF cv]) (auto simp: with_role_def)
    moreover have "\<not> pi_edge (rPorts v ! a)"
      using conf_sel(9) [of v s a] core_conf [OF cv] t(3) a by simp
    ultimately have "rstp_inv now (set_data a (become ROOT FORWARDING) v)"
        "conf (set_data a (become ROOT FORWARDING) v) = conf s"
      using promote(1,2) [of now v a "become ROOT FORWARDING"] iv inv_delays [OF iv] n a(1) roles_ports [OF inv_roles [OF iv]]
        core_conf [OF cv] t(3) by (simp_all add: rstp_inv_def skel_def)
    moreover have "rstp_inv now u" "conf u = conf s" using inv_core [OF c] core_conf [OF c] t(2,3) by simp_all
    ultimately show ?thesis
      using True None t(1) by (simp add: same_worse_root_def Let_def u_def [symmetric] v_def [symmetric] returns2_Inr)
  qed
qed

lemma root_by_alternative_returns:
  assumes s: "rstp_inv now s" and a: "a < rNumPorts s" "pi_role (rPorts s ! a) = ROOT"
    and c: "c < rNumPorts s" "pi_role (rPorts s ! c) = ALTERNATE"
  shows "returns now s (root_by_alternative now b a c s)"
proof -
  define u where "u = set_data a (\<lambda>p. p\<lparr>pi_role := DESIGNATED\<rparr>) (set_data c (become ROOT FORWARDING) s)"
  have ne: "c \<noteq> a" using a(2) c(2) by auto
  have e: "\<not> pi_edge (rPorts s ! c)" using roles_ports [OF inv_roles [OF s] c(1)] c(2) by (simp add: port_ok_def)
  note d = demote_old_root [OF s root_ports [OF s a] c(1) ne e, of "become ROOT FORWARDING" "\<lambda>p. p\<lparr>pi_role := DESIGNATED\<rparr>", folded u_def]
  have d: "returns now s (Inr (set_data a (become ALTERNATE DISCARDING) u))"
    "returns now s (scheduleNextUpgrde now (contend now a u))" "getRootIndex u = Some c"
    by (rule d; simp add: skel_def awaits_upgrade_def)+
  obtain c3 where c3: "contestInterfacedata_msg b a u = Inr c3" by (simp add: contestInterfacedata_msg_def d(3) Let_def)
  have "returns now s (if cr_value c3 < 0 then scheduleNextUpgrde now (contend now a u)
                else Inr (set_data a (become ALTERNATE DISCARDING) u))"
    using d(1,2) by simp
  then have "returns now s (bindR (if cr_value c3 < 0 then scheduleNextUpgrde now (contend now a u)
                else Inr (set_data a (become ALTERNATE DISCARDING) u))
      (\<lambda>t. Inr (copy_port a c (flushOtherPorts now c t))))"
    by (rule returns_core) simp
  then show ?thesis by (simp add: root_by_alternative_def Let_def u_def [symmetric] c3)
qed

lemma same_worse_route_returns:
  assumes s: "rstp_inv now s" and a: "a < rNumPorts s" "\<not> pi_edge (rPorts s ! a)"
  shows "returns2 now s (same_worse_route now b a s)"
proof -
  have up: "core (updateInterfacedata b a t) = core t" for t by simp
  consider "pi_role (rPorts s ! a) = ROOT" | "pi_role (rPorts s ! a) = ALTERNATE"
    | "pi_role (rPorts s ! a) \<noteq> ROOT" "pi_role (rPorts s ! a) \<noteq> ALTERNATE" by blast
  then show ?thesis
  proof cases
    case 1
    define u where "u = set_data a (\<lambda>p. p\<lparr>pi_lostBPDU := 0\<rparr>) s"
    have c: "core u = core s" by (simp add: u_def skel_def)
    have u: "rstp_inv now u" "a < rNumPorts u" "pi_role (rPorts u ! a) = ROOT"
      using s a 1 inv_core [OF c] by (simp_all add: u_def)
    have "returns now u (case getBestAlternate u of None \<Rightarrow> Inr u
        | Some d \<Rightarrow> if cr_value (compareInterfacedata (rPorts u ! d) b (pi_linkCost (rPorts u ! a))) < 0
                    then root_by_alternative now b a d u else Inr u)"
      using u root_by_alternative_returns [OF u] getBestAlternate_Some(1,2) [of u]
      by (cases "getBestAlternate u") simp_all
    then have "returns2 now u (same_worse_route now b a s)"
      unfolding same_worse_route_def u_def [symmetric] Let_def using 1 by (simp only: if_True simp_thms) (rule returns2_core [OF _ up])
    then show ?thesis using returns2_conf [OF core_conf [OF c]] by simp
  next
    case 2
    have r: "with_role ROOT s \<noteq> {}"
      using inv_roles [OF s] a(1) 2 by (auto simp: roles_ok_def with_role_def)
    obtain c2 where c2: "contestInterfacedata_msg b a s = Inr c2" using contest_defined [OF r] by blast
    have "returns now s (bindR (scheduleNextUpgrde now (contend now a s)) (\<lambda>s1. Inr (rstp_sendBPDU now a s1)))"
      by (rule returns_core [OF contend_returns [OF s a(1)]]) (simp_all add: 2)
    moreover have "returns now s (Inr (set_data a (\<lambda>p. p\<lparr>pi_lostBPDU := 0\<rparr>) s))"
      by (rule returns_Inr_core [of now s s]) (use s in \<open>simp_all add: skel_def\<close>)
    ultimately have "returns now s (if cr_value c2 < 0
        then bindR (scheduleNextUpgrde now (contend now a s)) (\<lambda>s1. Inr (rstp_sendBPDU now a s1))
        else Inr (set_data a (\<lambda>p. p\<lparr>pi_lostBPDU := 0\<rparr>) s))" by simp
    then show ?thesis
      unfolding same_worse_route_def c2 bindR.simps using 2
      by (simp only: PortRole.distinct if_True if_False simp_thms) (rule returns2_core [OF _ up])
  next
    case 3
    have "returns now s (Inr (updateInterfacedata b a s))"
      by (rule returns_Inr_core [of now s s]) (use s in simp_all)
    then show ?thesis using 3 by (simp add: same_worse_route_def returns2_Inr)
  qed
qed

lemma processSameSource_returns:
  assumes s: "rstp_inv now s" and a: "a < rNumPorts s" "\<not> pi_edge (rPorts s ! a)"
  shows "returns2 now s (processSameSource now b a s)"
proof -
  have "returns now s (Inr (set_data a (\<lambda>p. p\<lparr>pi_lostBPDU := 0\<rparr>) s))"
    by (rule returns_Inr_core [of now s s]) (use s in \<open>simp_all add: skel_def\<close>)
  moreover have "returns2 now s (Inr (False, s))" using s by (simp add: returns2_Inr)
  ultimately show ?thesis
    using same_worse_root_returns [OF s a] same_worse_route_returns [OF s a]
    by (simp add: processSameSource_def returns2_Inr split: CompareResult.split)
qed

lemma processBPDU_returns:
  assumes s: "rstp_inv now s" and a: "a < rNumPorts s" "\<not> pi_edge (rPorts s ! a)"
  shows "returns now s (processBPDU now b a s)"
proof -
  have flood: "returns now s (bindR r (\<lambda>(flood, s1). Inr (if flood then sendTCNtoRoot now (rstp_sendBPDUs now s1) else s1)))"
    if r: "returns2 now s r" for r
  proof -
    obtain fl t where t: "r = Inr (fl, t)" "returns now s (Inr t)"
      using r unfolding returns2_def returns_Inr by blast
    have "returns now s (Inr (if fl then sendTCNtoRoot now (rstp_sendBPDUs now t) else t))"
      by (rule returns_Inr_core [OF t(2)]) simp
    then show ?thesis using t(1) by simp
  qed
  show ?thesis
    unfolding processBPDU_def Let_def
    by (rule flood) (use s processBetterSource_returns [OF s a] processSameSource_returns [OF s a] in \<open>simp add: returns2_Inr\<close>)
qed

text \<open>A BPDU of another bridge, on a port that exists and is not an edge port.\<close>

lemma handleIncomingFrame_returns:
  assumes s: "rstp_inv now s" and c: "0 \<le> ctl_switchPort c" "ctl_switchPort c < int (rNumPorts s)"
    and e: "\<not> pi_edge (rPorts s ! nat (ctl_switchPort c))" and o: "ctl_src c \<noteq> rBridgeAddress s"
  shows "returns now s (handleIncomingFrame now b c s)"
proof -
  define a where "a = nat (ctl_switchPort c)"
  define u where "u = checkTC now b a s"
  have a: "a < rNumPorts s" using c by (simp add: a_def nat_less_iff)
  have cu: "core u = core s" by (simp add: u_def)
  have "returns now u (processBPDU now b a u)"
    by (rule processBPDU_returns)
      (use s a e inv_core [OF cu] core_sel(1) [OF cu] conf_sel(9) [OF core_conf [OF cu] a] in \<open>simp_all add: a_def\<close>)
  then have "returns now s (processBPDU now b a u)" using returns_conf [OF core_conf [OF cu]] by simp
  moreover have "rBridgeAddress u = rBridgeAddress s" by (rule conf_sel(7) [OF core_conf [OF cu]])
  ultimately show ?thesis
    using s c o by (simp add: handleIncomingFrame_def rstp_port_def a_def [symmetric] u_def [symmetric])
qed

end
