(* ===== verification/RSTPRuns.thy ===== *)
theory RSTPRuns
  imports RSTPFrames
begin

text \<open>
  The runs of one rapid spanning tree module: timers, BPDUs, changes of the carrier and life cycle operations in
  any order. A timer goes off when it is due and never later; BPDUs come from other bridges, through ports that exist
  and are not edge ports; a node is started when it is down, and while it is down no carrier changes.
\<close>

section \<open>Runs\<close>

fun rstp_arrives :: "simtime \<Rightarrow> rstp_msg \<Rightarrow> rstp \<Rightarrow> bool" where
  "rstp_arrives now (RstpSelf kind) s \<longleftrightarrow>
     kind = SELF_HELLOTIME \<and> tm_at (rHelloTimer s) = Some now \<or> kind = SELF_UPGRADE \<and> tm_at (rUpgradeTimer s) = Some now"
| "rstp_arrives now (RstpBPDU b c) s \<longleftrightarrow>
     (case c of None \<Rightarrow> False | Some c' \<Rightarrow> 0 \<le> ctl_switchPort c' \<and> ctl_switchPort c' < int (rNumPorts s)
        \<and> \<not> pi_edge (rPorts s ! nat (ctl_switchPort c')) \<and> ctl_src c' \<noteq> rBridgeAddress s)"
| "rstp_arrives now RstpOther s \<longleftrightarrow> False"

text \<open>Time does not pass a scheduled timer.\<close>

definition not_late :: "simtime \<Rightarrow> rstp \<Rightarrow> bool" where
  "not_late now s \<longleftrightarrow> (case tm_at (rHelloTimer s) of None \<Rightarrow> True | Some t \<Rightarrow> now \<le> t)
     \<and> (case tm_at (rUpgradeTimer s) of None \<Rightarrow> True | Some t \<Rightarrow> now \<le> t)"

definition carrier_change :: "simtime \<Rightarrow> nat \<Rightarrow> bool \<Rightarrow> rstp \<Rightarrow> rstp res" where
  "carrier_change now i up s = interface_changed now i (s\<lparr>rCarrier := (rCarrier s)(i := up)\<rparr>)"

datatype rstp_event = Arrives rstp_msg | Carrier nat bool

fun rstp_possible :: "simtime \<Rightarrow> rstp_event \<Rightarrow> rstp \<Rightarrow> bool" where
  "rstp_possible now (Arrives m) s \<longleftrightarrow> rstp_arrives now m s"
| "rstp_possible now (Carrier i up) s \<longleftrightarrow> rOperational s"

fun rstp_exec :: "simtime \<Rightarrow> rstp_event \<Rightarrow> rstp \<Rightarrow> rstp res" where
  "rstp_exec now (Arrives m) s = rstp_handleMessage now m s"
| "rstp_exec now (Carrier i up) s = carrier_change now i up s"

inductive rstp_reach :: "rstp_par \<Rightarrow> simtime \<Rightarrow> rstp \<Rightarrow> bool" for par where
  init: "status_up \<noteq> Some False \<Longrightarrow> rstp_initialize par now status_up ift ports carrier table = Inr s \<Longrightarrow>
    rstp_reach par now s"
| event: "rstp_reach par now s \<Longrightarrow> now \<le> now' \<Longrightarrow> not_late now' s \<Longrightarrow> rstp_possible now' e s \<Longrightarrow>
    rstp_exec now' e s = Inr t \<Longrightarrow> rstp_reach par now' t"
| operation: "rstp_reach par now s \<Longrightarrow> now \<le> now' \<Longrightarrow> not_late now' s \<Longrightarrow>
    operation = NodeStartOperation \<longrightarrow> \<not> rOperational s \<Longrightarrow>
    rstp_handleOperationStage now' ift operation stage s = Inr t \<Longrightarrow> rstp_reach par now' t"

definition rstp_live :: "simtime \<Rightarrow> rstp \<Rightarrow> bool" where
  "rstp_live now s \<longleftrightarrow> 0 \<le> rHelloTime s \<and> delays_ok s
     \<and> (if rOperational s then rstp_inv now s \<and> (\<exists>t. tm_at (rHelloTimer s) = Some t \<and> now \<le> t)
        else tm_at (rHelloTimer s) = None \<and> tm_at (rUpgradeTimer s) = None)"

lemma inv_later: "rstp_inv now s \<Longrightarrow> not_late now' s \<Longrightarrow> rstp_inv now' s"
  by (auto simp: rstp_inv_def timed_def not_late_def split: option.splits)

lemma live_later: "rstp_live now s \<Longrightarrow> not_late now' s \<Longrightarrow> rstp_live now' s"
  by (auto simp: rstp_live_def inv_later not_late_def split: option.splits)

text \<open>Starting: the ports are initialized and the hello timer set for now.\<close>

lemma start_live:
  assumes "bindR (initPorts now s) (schedule_hello now now) = Inr t" and "rOperational s"
    and "delays_ok s" and "0 \<le> rHelloTime s" and "tm_at (rHelloTimer s) = None"
  shows "rstp_live now t" and "conf t = conf (hello_set now s)" and "rPorts t = map (initial_port now s) (rPorts s)"
proof -
  obtain u where u: "initPorts now s = Inr u" "rstp_inv now u" "conf u = conf s"
      and p: "rPorts u = map (initial_port now s) (rPorts s)"
    by (rule initPorts_shape [OF assms(3)])
  have t: "t = hello_set now u" using assms(1,5) u conf_sel(5) [OF u(3)] by (simp add: schedule_hello_eq)
  have k: "rOperational t = rOperational u" "rHelloTime t = rHelloTime u" "tm_at (rHelloTimer t) = Some now" "rPorts t = rPorts u"
    by (simp_all add: t hello_set_def)
  show "conf t = conf (hello_set now s)" unfolding t by (rule hello_set_conf [OF u(3)])
  show "rPorts t = map (initial_port now s) (rPorts s)" using k p by simp
  show "rstp_live now t"
    using k u(2) assms conf_sel(6,8) [OF u(3)] inv_delays [of now t] by (auto simp: rstp_live_def t)
qed

lemma initialize_live:
  assumes "rstp_initialize par now status_up ift ports carrier table = Inr s" and "status_up \<noteq> Some False"
    and "0 \<le> rp_forwardDelay par" and "0 \<le> rp_migrateTime par" and "0 \<le> rp_helloTime par"
  obtains s0 where "rstp_live now s" and "rOperational s" and "rForwardDelay s = rp_forwardDelay par"
    and "rMigrateTime s = rp_migrateTime par" and "rCarrier s = carrier"
    and "rPorts s = map (initial_port now s0) ports" and "rMigrateTime s0 = rp_migrateTime par"
proof -
  obtain s0 where s0: "bindR (initPorts now s0) (schedule_hello now now) = Inr s" "rOperational s0"
      "rForwardDelay s0 = rp_forwardDelay par" "rMigrateTime s0 = rp_migrateTime par" "rHelloTime s0 = rp_helloTime par"
      "tm_at (rHelloTimer s0) = None" "rPorts s0 = ports" "rCarrier s0 = carrier"
    using assms(1,2) unfolding rstp_initialize_def Let_def by (auto split: if_splits option.splits)
  have d: "delays_ok s0" "0 \<le> rHelloTime s0" using s0 assms by (simp_all add: delays_ok_def)
  note l = start_live [OF s0(1,2) d s0(6)]
  have h: "rOperational (hello_set now s0) = rOperational s0" "rForwardDelay (hello_set now s0) = rForwardDelay s0"
    "rMigrateTime (hello_set now s0) = rMigrateTime s0" "rCarrier (hello_set now s0) = rCarrier s0"
    by (simp_all add: hello_set_def)
  show thesis
    by (rule that [of s0]) (use l s0 conf_sel(2,3,4,6) [OF l(2)] h in simp_all)
qed

lemma message_returns:
  assumes l: "rstp_live now s" and a: "rstp_arrives now m s"
  shows "\<exists>t. rstp_handleMessage now m s = Inr t \<and> rstp_live now t \<and> rOperational t = rOperational s"
proof (cases "rOperational s")
  case False
  then show ?thesis using l a by (cases m) (auto simp: rstp_handleMessage_def rstp_live_def)
next
  case True
  then have s: "rstp_inv now s" "0 \<le> rHelloTime s" using l by (simp_all add: rstp_live_def)
  have keep: "rstp_live now t \<and> rOperational t"
    if "rstp_inv now t" "rOperational t = rOperational u" "rHelloTime t = rHelloTime u" "rHelloTimer t = rHelloTimer u"
      "rOperational u" "0 \<le> rHelloTime u" "\<exists>h. tm_at (rHelloTimer u) = Some h \<and> now \<le> h" for t u
    using that inv_delays [of now t] by (simp add: rstp_live_def)
  show ?thesis
  proof (cases m)
    case (RstpSelf kind)
    show ?thesis
    proof (cases "kind = SELF_HELLOTIME")
      case True
      define u where "u = s\<lparr>rHelloTimer := cancelEvent (rHelloTimer s)\<rparr>"
      have "rstp_inv now u"
        using s(1) by (simp add: u_def rstp_inv_def roles_ok_def one_root_def with_role_def timed_def waiting_def delays_ok_def)
      then have "returns now (hello_set (now + rHelloTime u) u) (handleHelloTime now u)"
        by (rule handleHelloTime_returns) (use s(2) in \<open>simp_all add: u_def cancelEvent_def\<close>)
      then obtain t where t: "handleHelloTime now u = Inr t" "rstp_inv now t" "conf t = conf (hello_set (now + rHelloTime u) u)"
        by (auto simp: returns_def)
      have "rstp_live now t \<and> rOperational t"
        by (rule keep [OF t(2) conf_sel(6,8,5) [OF t(3)]]) (use s(2) \<open>rOperational s\<close> in \<open>simp_all add: hello_set_def u_def\<close>)
      then show ?thesis using t(1) True \<open>rOperational s\<close> RstpSelf by (simp add: rstp_handleMessage_def u_def)
    next
      case False
      define u where "u = s\<lparr>rUpgradeTimer := cancelEvent (rUpgradeTimer s)\<rparr>"
      have "returns now u (handleUpgrade now u)"
        by (rule handleUpgrade_returns) (use s(1) in \<open>simp_all add: u_def inv_roles inv_ahead inv_delays\<close>)
      then obtain t where t: "handleUpgrade now u = Inr t" "rstp_inv now t" "conf t = conf u"
        by (auto simp: returns_def)
      have "rstp_live now t \<and> rOperational t"
        by (rule keep [OF t(2) conf_sel(6,8,5) [OF t(3)]]) (use l \<open>rOperational s\<close> in \<open>simp_all add: u_def rstp_live_def\<close>)
      then show ?thesis using t(1) False a \<open>rOperational s\<close> RstpSelf by (simp add: rstp_handleMessage_def u_def)
    qed
  next
    case (RstpBPDU b c)
    then obtain c' where c: "c = Some c'" using a by (cases c) simp_all
    have "returns now s (handleIncomingFrame now b c' s)"
      by (rule handleIncomingFrame_returns [OF s(1)]) (use a RstpBPDU c in simp_all)
    then obtain t where t: "handleIncomingFrame now b c' s = Inr t" "rstp_inv now t" "conf t = conf s"
      by (auto simp: returns_def)
    have "rstp_live now t \<and> rOperational t"
      by (rule keep [OF t(2) conf_sel(6,8,5) [OF t(3)]]) (use l \<open>rOperational s\<close> in \<open>simp_all add: rstp_live_def\<close>)
    then show ?thesis using t(1) \<open>rOperational s\<close> RstpBPDU c by (simp add: rstp_handleMessage_def)
  qed (use a in simp)
qed

lemma carrier_returns:
  assumes s: "rstp_inv now s"
  obtains t where "carrier_change now i up s = Inr t" and "rstp_inv now t"
    and "conf t = conf (s\<lparr>rCarrier := (rCarrier s)(i := up)\<rparr>)"
proof -
  define c where "c = s\<lparr>rCarrier := (rCarrier s)(i := up)\<rparr>"
  have r: "roles_ok c" "delays_ok c"
    using s by (simp_all add: c_def rstp_inv_def roles_ok_def one_root_def with_role_def delays_ok_def)
  have w: "waiting c j \<longleftrightarrow> waiting s j" if "j \<noteq> i" for j using that by (simp add: c_def waiting_def)
  have p: "rPorts c = rPorts s" "rUpgradeTimer c = rUpgradeTimer s" by (simp_all add: c_def)
  show thesis
  proof (cases "i < rNumPorts c \<and> rCarrier c i")
    case False
    then have "waiting c j \<Longrightarrow> waiting s j" for j using w by (cases "j = i") (auto simp: waiting_def)
    then have "timed now c" using s by (auto simp: rstp_inv_def timed_def p)
    then show thesis
      by (intro that [of c]) (use r False in \<open>auto simp: carrier_change_def interface_changed_def c_def [symmetric] rstp_inv_def\<close>)
  next
    case True
    define q where "q = rPorts c ! i"
    define d where "d = (if pi_role q = NOTASSIGNED then set_data i (\<lambda>p. p\<lparr>pi_nextUpgrade := now + rMigrateTime c\<rparr>) c
        else if pi_role q = DESIGNATED \<and> (pi_state q = DISCARDING \<or> pi_state q = LEARNING)
        then set_data i (\<lambda>p. p\<lparr>pi_nextUpgrade := now + rForwardDelay c\<rparr>) c else c)"
    have cd: "conf d = conf c" by (simp add: d_def)
    have a: "now \<le> pi_nextUpgrade (rPorts d ! j)" if "waiting d j" for j
    proof (cases "j = i")
      case True
      then show ?thesis
        using that r(2) \<open>i < rNumPorts c \<and> rCarrier c i\<close>
        by (auto simp: d_def waiting_def awaits_upgrade_def delays_ok_def q_def split: if_splits)
    next
      case False
      have "rPorts d ! j = rPorts c ! j" using False by (simp add: d_def nth_list_update)
      then show ?thesis
        using that w [OF False] inv_ahead [OF s] conf_sel(1,2) [OF cd] by (auto simp: ahead_def waiting_def p)
    qed
    have sk: "pi_role (rPorts d ! j) = pi_role (rPorts c ! j) \<and> pi_state (rPorts d ! j) = pi_state (rPorts c ! j)
        \<and> pi_edge (rPorts d ! j) = pi_edge (rPorts c ! j)" for j
      using True by (cases "j = i") (simp_all add: d_def)
    have "roles_ok d"
      using r(1) sk conf_sel(1) [OF cd] by (simp add: roles_ok_def one_root_def with_role_def port_ok_def)
    moreover have "delays_ok d" using r(2) delays_conf [OF cd] by simp
    ultimately have "returns now d (scheduleNextUpgrde now d)" using a by (intro schedule_returns) (auto simp: ahead_def)
    then obtain t where t: "scheduleNextUpgrde now d = Inr t" "rstp_inv now t" "conf t = conf d" by (auto simp: returns_def)
    show thesis
    proof (rule that [OF _ t(2)])
      show "carrier_change now i up s = Inr t"
        using True t(1) by (simp add: carrier_change_def interface_changed_def c_def [symmetric] Let_def q_def [symmetric] d_def [symmetric])
      show "conf t = conf (s\<lparr>rCarrier := (rCarrier s)(i := up)\<rparr>)" using t(3) cd by (simp add: c_def)
    qed
  qed
qed

lemma carrier_live:
  assumes "rstp_live now s" and "rOperational s"
  shows "\<exists>t. carrier_change now i up s = Inr t \<and> rstp_live now t \<and> rOperational t"
proof -
  have s: "rstp_inv now s" using assms by (simp add: rstp_live_def)
  obtain t where t: "carrier_change now i up s = Inr t" "rstp_inv now t"
      "conf t = conf (s\<lparr>rCarrier := (rCarrier s)(i := up)\<rparr>)"
    by (rule carrier_returns [OF s])
  have "rstp_live now t \<and> rOperational t"
    using conf_sel(5,6,8) [OF t(3)] t(2) inv_delays [OF t(2)] assms by (simp add: rstp_live_def)
  then show ?thesis using t(1) by blast
qed

lemma event_live:
  assumes "rstp_live now s" and "rstp_possible now e s"
  shows "\<exists>t. rstp_exec now e s = Inr t \<and> rstp_live now t \<and> rOperational t = rOperational s"
  using message_returns [OF assms(1)] carrier_live [OF assms(1)] assms(2) by (cases e) auto

lemma operation_live:
  assumes l: "rstp_live now s" and o: "operation = NodeStartOperation \<longrightarrow> \<not> rOperational s"
    and t: "rstp_handleOperationStage now ift operation stage s = Inr t"
  shows "rstp_live now t"
proof -
  have stop: "rstp_live now (rstp_stop s)"
    using l by (auto simp: rstp_live_def rstp_stop_def cancelEvent_def delays_ok_def)
  show ?thesis
  proof (cases operation)
    case NodeStartOperation
    show ?thesis
    proof (cases "stage = start_STAGE_LINK_LAYER")
      case True
      obtain a where a: "chooseInterface ift = Some a"
        using t True NodeStartOperation by (cases "chooseInterface ift") (simp_all add: rstp_start_def)
      show ?thesis
        by (rule start_live(1) [of now "s\<lparr>rOperational := True, rBridgeAddress := a\<rparr>"])
          (use t True a NodeStartOperation l o in \<open>simp_all add: rstp_start_def rstp_live_def delays_ok_def\<close>)
    qed (use t l NodeStartOperation in simp)
  qed (use t l stop in \<open>auto split: if_splits\<close>)
qed

lemma rstp_reach_live:
  assumes "rstp_reach par now s" and "0 \<le> rp_forwardDelay par" "0 \<le> rp_migrateTime par" "0 \<le> rp_helloTime par"
  shows "rstp_live now s"
  using assms
proof (induction rule: rstp_reach.induct)
  case (init status_up now ift ports carrier table s)
  then show ?case using initialize_live by blast
next
  case (event now s now' e t)
  then show ?case using event_live [of now' s e] live_later [of now s now'] by auto
next
  case (operation now s now' operation ift stage t)
  then show ?case using operation_live [of now' s operation ift stage t] live_later [of now s now'] by blast
qed

end
