(* ===== verification/RSTPStartup.thy ===== *)
theory RSTPStartup
  imports RSTPBehaviour
begin

text \<open>
  The time a port takes to forward on a bridge that hears of no other: the migrate time and two forward delays,
  neither less nor more.
\<close>

section \<open>Runs without BPDUs\<close>

inductive rstp_alone :: "simtime \<Rightarrow> rstp \<Rightarrow> simtime \<Rightarrow> rstp \<Rightarrow> bool" for t0 s0 where
  start: "rstp_alone t0 s0 t0 s0"
| wait: "rstp_alone t0 s0 now s \<Longrightarrow> now \<le> now' \<Longrightarrow> not_late now' s \<Longrightarrow> rstp_alone t0 s0 now' s"
| timer: "rstp_alone t0 s0 now s \<Longrightarrow> rstp_arrives now (RstpSelf kind) s \<Longrightarrow>
    rstp_handleMessage now (RstpSelf kind) s = Inr t \<Longrightarrow> rstp_alone t0 s0 now t"

text \<open>Where a port is on its way; \<open>T\<close> is when its migrate time ends, \<open>f\<close> the forward delay.\<close>

definition on_the_way :: "simtime \<Rightarrow> simtime \<Rightarrow> simtime \<Rightarrow> PortInfo \<Rightarrow> bool" where
  "on_the_way T f now p \<longleftrightarrow>
     (if pi_edge p then pi_role p = DESIGNATED \<and> pi_state p = FORWARDING
      else pi_role p = NOTASSIGNED \<and> pi_state p = DISCARDING \<and> pi_nextUpgrade p = T
         \<or> pi_role p = DESIGNATED \<and> pi_state p = DISCARDING \<and> pi_nextUpgrade p = T + f
         \<or> pi_role p = DESIGNATED \<and> pi_state p = LEARNING \<and> pi_nextUpgrade p = T + 2 * f
         \<or> pi_role p = DESIGNATED \<and> pi_state p = FORWARDING \<and> T + 2 * f \<le> now)"

lemma on_the_way_skel: "skel p = skel q \<Longrightarrow> on_the_way T f now p = on_the_way T f now q"
  by (simp add: on_the_way_def skel_def)

lemma on_the_way_later: "on_the_way T f now p \<Longrightarrow> now \<le> now' \<Longrightarrow> on_the_way T f now' p"
  by (auto simp: on_the_way_def split: if_splits)

definition all_on_the_way :: "simtime \<Rightarrow> simtime \<Rightarrow> rstp \<Rightarrow> bool" where
  "all_on_the_way T now s \<longleftrightarrow> (\<forall>p \<in> set (rPorts s). on_the_way T (rForwardDelay s) now p)"

lemma all_on_the_way_core:
  assumes "core s = core t" shows "all_on_the_way T now s = all_on_the_way T now t"
proof -
  have "on_the_way T f now (rPorts s ! i) = on_the_way T f now (rPorts t ! i)" if "i < rNumPorts t" for i f
    by (rule on_the_way_skel [OF core_sel(4) [OF assms that]])
  then show ?thesis
    using core_sel(1) [OF assms] conf_sel(3) [OF core_conf [OF assms]] by (simp add: all_on_the_way_def all_set_conv_all_nth)
qed

lemma upgrade_on_the_way:
  assumes i: "i < rNumPorts s" and s: "all_on_the_way T now s"
  shows "all_on_the_way T now (upgrade_port now i s) \<and> conf (upgrade_port now i s) = conf s"
proof -
  have set: "all_on_the_way T now (set_data i f s) \<and> conf (set_data i f s) = conf s"
    if "on_the_way T (rForwardDelay s) now (f (rPorts s ! i))" "pi_edge (f (rPorts s ! i)) = pi_edge (rPorts s ! i)" for f
    using s that i by (auto simp: all_on_the_way_def all_set_conv_all_nth nth_list_update)
  have p: "on_the_way T (rForwardDelay s) now (rPorts s ! i)" using s i by (simp add: all_on_the_way_def)
  let ?l = "\<lambda>p. p\<lparr>pi_state := LEARNING, pi_nextUpgrade := now + rForwardDelay s\<rparr>"
  let ?f = "\<lambda>p. p\<lparr>pi_state := FORWARDING\<rparr>"
  let ?c = "\<lambda>p. (become DESIGNATED DISCARDING p)\<lparr>pi_nextUpgrade := now + rForwardDelay s\<rparr>"
  consider "upgrade_port now i s = s"
    | "upgrade_port now i s = set_data i ?c s" "pi_role (rPorts s ! i) = NOTASSIGNED" "pi_nextUpgrade (rPorts s ! i) = now"
    | "upgrade_port now i s = set_data i ?l s" "pi_role (rPorts s ! i) = DESIGNATED" "pi_state (rPorts s ! i) = DISCARDING"
        "pi_nextUpgrade (rPorts s ! i) = now"
    | "upgrade_port now i s = flushOtherPorts now i (set_data i ?f s)" "pi_role (rPorts s ! i) = DESIGNATED"
        "pi_state (rPorts s ! i) = LEARNING" "pi_nextUpgrade (rPorts s ! i) = now"
    by (cases "rCarrier s i \<and> pi_nextUpgrade (rPorts s ! i) = now"; cases "pi_role (rPorts s ! i)";
        cases "pi_state (rPorts s ! i)") (simp_all add: upgrade_port_def contend_def Let_def)
  then show ?thesis
  proof cases
    case 1
    then show ?thesis using s by simp
  next
    case 2
    have "on_the_way T (rForwardDelay s) now (?c (rPorts s ! i))"
      using p 2(2,3) by (auto simp: on_the_way_def split: if_splits)
    from set [where f = ?c, OF this] show ?thesis by (simp add: 2(1))
  next
    case 3
    have "on_the_way T (rForwardDelay s) now (?l (rPorts s ! i))"
      using p 3(2-) by (auto simp: on_the_way_def split: if_splits)
    from set [where f = ?l, OF this] show ?thesis unfolding 3(1) by simp
  next
    case 4
    have c: "core (upgrade_port now i s) = core (set_data i ?f s)" by (simp add: 4(1))
    have "on_the_way T (rForwardDelay s) now (?f (rPorts s ! i))"
      using p 4(2-) by (auto simp: on_the_way_def split: if_splits)
    from set [where f = ?f, OF this] show ?thesis unfolding all_on_the_way_core [OF c] core_conf [OF c] by simp
  qed
qed

text \<open>What no timer changes.\<close>

definition fixed :: "rstp \<Rightarrow> (nat \<Rightarrow> bool) \<times> simtime \<times> bool list" where
  "fixed s = (rCarrier s, rForwardDelay s, map pi_edge (rPorts s))"

lemma fixed_conf: "conf s = conf t \<Longrightarrow> fixed s = fixed t"
  by (simp add: fixed_def conf_def)

lemma fixed_timer [simp]: "fixed (s\<lparr>rUpgradeTimer := tm\<rparr>) = fixed s" "fixed (s\<lparr>rHelloTimer := tm\<rparr>) = fixed s"
  by (simp_all add: fixed_def)

lemma handleUpgrade_on_the_way:
  assumes "handleUpgrade now s = Inr t" and "all_on_the_way T now s"
  shows "all_on_the_way T now t \<and> fixed t = fixed s"
proof -
  define u where "u = fold (upgrade_port now) [0..<rNumPorts s] s"
  have u: "all_on_the_way T now u \<and> conf u = conf s" unfolding u_def
  proof (rule fold_upt_rule)
    fix k t assume "k < rNumPorts s" and t: "all_on_the_way T now t \<and> conf t = conf s"
    then have "k < rNumPorts t" using conf_sel(1) [of t s] by simp
    from upgrade_on_the_way [OF this, where T = T and now = now] t
    show "all_on_the_way T now (upgrade_port now k t) \<and> conf (upgrade_port now k t) = conf s" by simp
  qed (use assms(2) in simp)
  moreover have "\<exists>tm. t = u\<lparr>rUpgradeTimer := tm\<rparr>"
    using assms(1) by (auto simp: handleUpgrade_def u_def [symmetric] scheduleNextUpgrde_def Let_def split: option.splits)
  ultimately show ?thesis using fixed_conf [of u s] by (auto simp: all_on_the_way_def)
qed

lemma handleHelloTime_on_the_way:
  assumes h: "handleHelloTime now s = Inr t" and w: "all_on_the_way T now s"
  shows "all_on_the_way T now t \<and> fixed t = fixed s"
proof -
  have same: "hello_port now i s = Inr s" if "i < rNumPorts s" for i
    using w that by (auto simp: hello_port_def Let_def all_on_the_way_def on_the_way_def dest!: bspec [OF _ nth_mem] split: if_splits)
  have "\<exists>u. iterR (hello_port now) [0..<rNumPorts s] s = Inr u \<and> u = s"
    by (rule iterR_rule) (use same in auto)
  then have "schedule_hello now (now + rHelloTime s) (sendTCNtoRoot now (rstp_sendBPDUs now s)) = Inr t"
    using h by (simp add: handleHelloTime_def)
  then obtain tm where t: "t = (sendTCNtoRoot now (rstp_sendBPDUs now s))\<lparr>rHelloTimer := tm\<rparr>"
    by (auto simp: schedule_hello_def)
  have c: "core (sendTCNtoRoot now (rstp_sendBPDUs now s)) = core s" by simp
  show ?thesis using w fixed_conf [OF core_conf [OF c]] unfolding all_on_the_way_core [OF c, symmetric]
    by (simp add: t all_on_the_way_def)
qed

lemma alone_on_the_way:
  assumes "rstp_alone t0 s0 now s" and "rstp_live t0 s0" and "rOperational s0" and "all_on_the_way T t0 s0"
  shows "rstp_live now s \<and> rOperational s \<and> all_on_the_way T now s \<and> fixed s = fixed s0"
  using assms
proof (induction rule: rstp_alone.induct)
  case (wait now s now')
  then show ?case using on_the_way_later by (auto simp: live_later all_on_the_way_def)
next
  case (timer now s kind t)
  then have s: "rstp_live now s" "rOperational s" "all_on_the_way T now s" "fixed s = fixed s0" by simp_all
  have "all_on_the_way T now t \<and> fixed t = fixed s"
  proof (cases "kind = SELF_HELLOTIME")
    case True
    then have "handleHelloTime now (s\<lparr>rHelloTimer := cancelEvent (rHelloTimer s)\<rparr>) = Inr t"
      using timer(3) s(2) by (simp add: rstp_handleMessage_def)
    from handleHelloTime_on_the_way [OF this, of T] s(3) show ?thesis by (simp add: all_on_the_way_def)
  next
    case False
    then have "handleUpgrade now (s\<lparr>rUpgradeTimer := cancelEvent (rUpgradeTimer s)\<rparr>) = Inr t"
      using timer(2,3) s(2) by (simp add: rstp_handleMessage_def)
    from handleUpgrade_on_the_way [OF this, of T] s(3) show ?thesis by (simp add: all_on_the_way_def)
  qed
  then show ?case using message_returns [OF s(1) timer(2)] timer(3) s(2,4) by auto
qed simp


section \<open>When a port forwards\<close>

text \<open>
  C22. A bridge whose node is up at the start and that hears of no other, without changes of the carriers or of the life
  cycle, takes the migrate time and two forward delays: no port but edge ports forwards before that time has passed,
  and all others that are connected forward, as designated ports, after it. The timers are never late and no
  delay is negative.
\<close>

theorem rstp_startup:
  assumes "rstp_initialize par t0 status_up ift ports carrier table = Inr s0" and "status_up \<noteq> Some False"
    and d: "0 \<le> rp_forwardDelay par" "0 \<le> rp_migrateTime par" "0 \<le> rp_helloTime par"
    and run: "rstp_alone t0 s0 now s" and i: "i < length ports" "\<not> pi_edge (ports ! i)"
  shows "(pi_state (rPorts s ! i) = FORWARDING \<longrightarrow> t0 + rp_migrateTime par + 2 * rp_forwardDelay par \<le> now)
    \<and> (carrier i \<and> t0 + rp_migrateTime par + 2 * rp_forwardDelay par < now \<longrightarrow>
         pi_role (rPorts s ! i) = DESIGNATED \<and> pi_state (rPorts s ! i) = FORWARDING)"
proof -
  let ?T = "t0 + rp_migrateTime par"
  obtain s1 where s1: "rstp_live t0 s0" "rOperational s0" "rForwardDelay s0 = rp_forwardDelay par" "rCarrier s0 = carrier"
      "rPorts s0 = map (initial_port t0 s1) ports" "rMigrateTime s1 = rp_migrateTime par"
    using initialize_live [OF assms(1,2) d] by metis
  have "all_on_the_way ?T t0 s0" using s1(5,6) by (auto simp: all_on_the_way_def on_the_way_def)
  then have s: "rstp_live now s" "all_on_the_way ?T now s" and f: "fixed s = fixed s0" and o: "rOperational s"
    using alone_on_the_way [OF run s1(1,2)] by simp_all
  have c: "map pi_edge (rPorts s) = map pi_edge (rPorts s0)" "rForwardDelay s = rp_forwardDelay par" "rCarrier s = carrier"
    using f s1(3,4) by (simp_all add: fixed_def)
  have n: "rNumPorts s = length ports" using arg_cong [OF c(1), of length] s1(5) by simp
  have e: "\<not> pi_edge (rPorts s ! i)"
    using arg_cong [OF c(1), of "\<lambda>es. es ! i"] i s1(5) n by simp
  have w: "on_the_way ?T (rp_forwardDelay par) now (rPorts s ! i)"
    using s(2) i n c(2) by (simp add: all_on_the_way_def)
  have t: "now \<le> pi_nextUpgrade (rPorts s ! i)" if "carrier i" "awaits_upgrade (rPorts s ! i)"
    using s(1) o that i n c(3) inv_ahead [of now s] by (simp add: rstp_live_def ahead_def waiting_def)
  show ?thesis using w e t d by (auto simp: on_the_way_def awaits_upgrade_def)
qed

text \<open>The bridge of the example on its own: the first hello, three upgrades, and a unit of time later.\<close>

abbreviation r_at :: "PortRole \<Rightarrow> PortState \<Rightarrow> simtime \<Rightarrow> simtime \<Rightarrow> simtime option \<Rightarrow> (BPDU \<times> Ieee802Ctrl) list \<Rightarrow> rstp" where
  "r_at r st up tc timer out \<equiv>
     r0\<lparr>rHelloTimer := \<lparr>tm_kind = SELF_HELLOTIME, tm_at = Some 10\<rparr>, rUpgradeTimer := \<lparr>tm_kind = SELF_UPGRADE, tm_at = timer\<rparr>,
        rPorts := map (\<lambda>p. p\<lparr>pi_role := r, pi_state := st, pi_nextUpgrade := up, pi_TCWhile := tc\<rparr>) (rPorts r0), rOut := out\<rparr>"

lemmas r_eval = handleUpgrade_def upgrade_port_def contend_def scheduleNextUpgrde_def earlier_upgrade_def awaits_upgrade_def
  scheduleAt_def cancelEvent_def flushOtherPorts_def flush_port_def rstp_handleMessage_def upt_conv_Cons numeral_2_eq_2
  SELF_HELLOTIME_def SELF_UPGRADE_def Let_def

lemma r_hello: "\<exists>out. rstp_handleMessage 0 (RstpSelf SELF_HELLOTIME) r0 = Inr (r_at NOTASSIGNED DISCARDING 1 0 (Some 1) out)"
  by (simp add: r_eval r0_def new_PortInfo_def handleHelloTime_def hello_port_def schedule_hello_def rstp_sendBPDUs_def
      sends_hello_def rstp_sendBPDU_def transmit_def getRootIndex_def sendTCNtoRoot_def)

lemma r_upgrades:
  "rstp_handleMessage 1 (RstpSelf SELF_UPGRADE) (r_at NOTASSIGNED DISCARDING 1 0 (Some 1) out)
     = Inr (r_at DESIGNATED DISCARDING 3 0 (Some 3) out)"
  "rstp_handleMessage 3 (RstpSelf SELF_UPGRADE) (r_at DESIGNATED DISCARDING 3 0 (Some 3) out)
     = Inr (r_at DESIGNATED LEARNING 5 0 (Some 5) out)"
  "rstp_handleMessage 5 (RstpSelf SELF_UPGRADE) (r_at DESIGNATED LEARNING 5 0 (Some 5) out)
     = Inr (r_at DESIGNATED FORWARDING 5 11 None out)"
  by (simp_all add: r_eval r0_def new_PortInfo_def set_data_def)

lemma r_alone: "\<exists>out. rstp_alone 0 r0 6 (r_at DESIGNATED FORWARDING 5 11 None out)"
proof -
  obtain out where h: "rstp_handleMessage 0 (RstpSelf SELF_HELLOTIME) r0 = Inr (r_at NOTASSIGNED DISCARDING 1 0 (Some 1) out)"
    using r_hello by blast
  let ?a = "r_at NOTASSIGNED DISCARDING 1 0 (Some 1) out" and ?b = "r_at DESIGNATED DISCARDING 3 0 (Some 3) out"
    and ?c = "r_at DESIGNATED LEARNING 5 0 (Some 5) out" and ?d = "r_at DESIGNATED FORWARDING 5 11 None out"
  have l: "not_late 1 ?a" "not_late 3 ?b" "not_late 5 ?c" "not_late 6 ?d" by (simp_all add: not_late_def)
  have "rstp_alone 0 r0 0 ?a" by (rule rstp_alone.timer [OF rstp_alone.start _ h]) (simp add: r0_def)
  from rstp_alone.wait [OF this _ l(1)] have "rstp_alone 0 r0 1 ?a" by simp
  from rstp_alone.timer [OF this _ r_upgrades(1)] have "rstp_alone 0 r0 1 ?b" by simp
  from rstp_alone.wait [OF this _ l(2)] have "rstp_alone 0 r0 3 ?b" by simp
  from rstp_alone.timer [OF this _ r_upgrades(2)] have "rstp_alone 0 r0 3 ?c" by simp
  from rstp_alone.wait [OF this _ l(3)] have "rstp_alone 0 r0 5 ?c" by simp
  from rstp_alone.timer [OF this _ r_upgrades(3)] have "rstp_alone 0 r0 5 ?d" by simp
  from rstp_alone.wait [OF this _ l(4)] have "rstp_alone 0 r0 6 ?d" by simp
  then show ?thesis by blast
qed

theorem rstp_startup_witness:
  "\<exists>s. rstp_alone 0 r0 6 s \<and> 0 + 1 + 2 * 2 < (6::simtime) \<and> pi_role (rPorts s ! 1) = DESIGNATED
    \<and> pi_state (rPorts s ! 1) = FORWARDING"
proof -
  obtain out where r: "rstp_alone 0 r0 6 (r_at DESIGNATED FORWARDING 5 11 None out)" using r_alone by blast
  have l: "(1::nat) < length (replicate 2 (new_PortInfo\<lparr>pi_linkCost := 19\<rparr>))"
    "\<not> pi_edge (replicate 2 (new_PortInfo\<lparr>pi_linkCost := 19\<rparr>) ! 1)" by (simp_all add: new_PortInfo_def numeral_2_eq_2)
  have t: "0 + rp_migrateTime r_par + 2 * rp_forwardDelay r_par < (6::simtime)" by (simp add: r_par_def)
  show ?thesis using rstp_startup [OF r0_initialize _ r_delays r l] t r by auto
qed

end
