(* ===== verification/RSTPFailover.thy ===== *)
theory RSTPFailover
  imports RSTPStartup
begin

text \<open>
  What a lost root port leads to, with the address table; and what happens when two ports of a bridge are connected to
  the same segment.
\<close>

section \<open>The address table\<close>

text \<open>Flushing a sequence of ports; copying a port that was flushed copies nothing.\<close>

lemma flushes_wf: "mt_wf t \<Longrightarrow> mt_wf (fold (\<lambda>i. if i \<noteq> c then flush (int i) else id) is t)"
  by (induction "is" arbitrary: t) (simp_all add: flush_spec(1))

lemma flushes_lookup:
  "mt_wf t \<Longrightarrow> lookup (fold (\<lambda>i. if i \<noteq> c then flush (int i) else id) is t) v a =
     (case lookup t v a of None \<Rightarrow> None
      | Some e \<Rightarrow> if \<exists>i \<in> set is. i \<noteq> c \<and> portno e = int i then None else Some e)"
proof (induction "is" arbitrary: t)
  case (Cons i "is")
  have w: "mt_wf ((if i \<noteq> c then flush (int i) else id) t)" using Cons.prems flush_spec(1) by simp
  show ?case
    using Cons.IH [OF w] Cons.prems by (cases "i = c") (auto simp: flush_spec(2) split: option.splits)
qed (auto split: option.split)

lemma flushOtherPorts_table:
  "rTable (flushOtherPorts now c s) = fold (\<lambda>i. if i \<noteq> c then flush (int i) else id) [0..<rNumPorts s] (rTable s)"
proof -
  have "rTable (fold (\<lambda>i s. if i \<noteq> c then flush_port i (set_data i (\<lambda>p. p\<lparr>pi_TCWhile := now + rTcWhileTime s\<rparr>) s)
          else set_data i (\<lambda>p. p\<lparr>pi_TCWhile := now + rTcWhileTime s\<rparr>) s) is s)
      = fold (\<lambda>i. if i \<noteq> c then flush (int i) else id) is (rTable s)" for "is" s
    by (induction "is" arbitrary: s) (simp_all add: flush_port_def)
  then show ?thesis by (simp add: flushOtherPorts_def Let_def)
qed

text \<open>The address table after all ports but \<open>c\<close> were flushed.\<close>

definition only_port :: "nat \<Rightarrow> nat \<Rightarrow> AddressEntry option \<Rightarrow> AddressEntry option" where
  "only_port n c e = (case e of None \<Rightarrow> None
     | Some e \<Rightarrow> if 0 \<le> portno e \<and> portno e < int n \<and> portno e \<noteq> int c then None else Some e)"

lemma failover_table:
  assumes w: "mt_wf (rTable s)" and i: "i < rNumPorts s" "i \<noteq> c"
  shows "lookup (rTable (copy_port i c (flushOtherPorts now c s))) v a = only_port (rNumPorts s) c (lookup (rTable s) v a)"
proof -
  let ?t = "fold (\<lambda>i. if i \<noteq> c then flush (int i) else id) [0..<rNumPorts s] (rTable s)"
  have e: "(\<exists>j \<in> set [0..<n]. j \<noteq> c \<and> p = int j) \<longleftrightarrow> 0 \<le> p \<and> p < int n \<and> p \<noteq> int c" for n p
  proof
    assume "0 \<le> p \<and> p < int n \<and> p \<noteq> int c"
    then show "\<exists>j \<in> set [0..<n]. j \<noteq> c \<and> p = int j" by (intro bexI [of _ "nat p"]) auto
  qed auto
  have l: "lookup ?t v a = only_port (rNumPorts s) c (lookup (rTable s) v a)"
    unfolding flushes_lookup [OF w] e only_port_def ..
  then have "portno x \<noteq> int i" if "lookup ?t v a = Some x" for x
    using that i by (auto simp: only_port_def split: option.splits if_splits)
  then have "lookup (copyTable (int i) (int c) ?t) v a = lookup ?t v a"
    unfolding copyTable_spec(2) [OF flushes_wf [OF w]] by (cases "lookup ?t v a") auto
  then show ?thesis using l by (simp add: copy_port_def flushOtherPorts_table)
qed

section \<open>A lost root port\<close>

text \<open>What the handling of a port that is not lost leaves: everything but its counter.\<close>

definition untouched :: "rstp \<Rightarrow> rstp \<Rightarrow> bool" where
  "untouched s t \<longleftrightarrow> core t = core s \<and> rTable t = rTable s \<and> map signed_vector (rPorts t) = map signed_vector (rPorts s)"

lemma untouched_trans: "untouched s t \<Longrightarrow> untouched t u \<Longrightarrow> untouched s u" and untouched_refl: "untouched s s"
  by (simp_all add: untouched_def)

lemma untouched_port:
  assumes "untouched s t" and "i < rNumPorts s"
  shows "rNumPorts t = rNumPorts s" and "pi_role (rPorts t ! i) = pi_role (rPorts s ! i)"
    and "pi_state (rPorts t ! i) = pi_state (rPorts s ! i)" and "pi_edge (rPorts t ! i) = pi_edge (rPorts s ! i)"
    and "signed_vector (rPorts t ! i) = signed_vector (rPorts s ! i)" and "skel (rPorts t ! i) = skel (rPorts s ! i)"
proof -
  have c: "core t = core s" and v: "map signed_vector (rPorts t) = map signed_vector (rPorts s)"
    using assms(1) by (simp_all add: untouched_def)
  show n: "rNumPorts t = rNumPorts s" by (rule core_sel(1) [OF c])
  show k: "skel (rPorts t ! i) = skel (rPorts s ! i)" by (rule core_sel(4) [OF c assms(2)])
  then show "pi_role (rPorts t ! i) = pi_role (rPorts s ! i)" "pi_state (rPorts t ! i) = pi_state (rPorts s ! i)"
    "pi_edge (rPorts t ! i) = pi_edge (rPorts s ! i)" by (simp_all add: skel_def)
  show "signed_vector (rPorts t ! i) = signed_vector (rPorts s ! i)"
    using arg_cong [OF v, of "\<lambda>vs. vs ! i"] assms(2) n by simp
qed

definition not_lost :: "PortInfo \<Rightarrow> bool" where
  "not_lost p \<longleftrightarrow> pi_role p = ROOT \<or> pi_role p = ALTERNATE \<or> pi_role p = BACKUP \<longrightarrow> pi_lostBPDU p < 3"

lemma hello_not_lost:
  assumes "not_lost (rPorts s ! j)"
  obtains t where "hello_port now j s = Inr t" and "untouched s t" and "\<And>k. k \<noteq> j \<Longrightarrow> rPorts t ! k = rPorts s ! k"
proof (cases "\<not> pi_edge (rPorts s ! j) \<and> (pi_role (rPorts s ! j) = ROOT \<or> pi_role (rPorts s ! j) = ALTERNATE \<or> pi_role (rPorts s ! j) = BACKUP)")
  case False
  then show thesis by (intro that [of s]) (auto simp: hello_port_def Let_def untouched_def)
next
  case True
  define t where "t = set_data j (\<lambda>p. p\<lparr>pi_lostBPDU := pi_lostBPDU p + 1\<rparr>) s"
  have "pi_lostBPDU (rPorts s ! j) < 3" using True assms by (auto simp: not_lost_def)
  then have "pi_lostBPDU (rPorts s ! j) + 1 \<le> 3" by (rule inc_le)
  then have "\<not> pi_lostBPDU (rPorts t ! j) > 3" 
    by (cases "j < rNumPorts s") (use \<open>pi_lostBPDU (rPorts s ! j) < 3\<close> in \<open>auto simp: t_def not_less list_update_beyond less_imp_le\<close>)
  then have "hello_port now j s = Inr t" using True by (simp add: hello_port_def Let_def t_def [symmetric])
  moreover have "map signed_vector (rPorts t) = map signed_vector (rPorts s)"
    by (simp add: t_def map_update_same signed_vector_def)
  ultimately show thesis by (intro that [of t]) (auto simp: untouched_def t_def skel_def)
qed

lemma flushOtherPorts_ports:
  "rNumPorts (flushOtherPorts now c s) = rNumPorts s
   \<and> (\<forall>j < rNumPorts s. rPorts (flushOtherPorts now c s) ! j = (rPorts s ! j)\<lparr>pi_TCWhile := now + rTcWhileTime s\<rparr>)"
proof -
  let ?f = "\<lambda>i u. let s1 = set_data i (\<lambda>p. p\<lparr>pi_TCWhile := now + rTcWhileTime u\<rparr>) u in if i \<noteq> c then flush_port i s1 else s1"
  have "rNumPorts (fold ?f [0..<rNumPorts s] s) = rNumPorts s \<and> rTcWhileTime (fold ?f [0..<rNumPorts s] s) = rTcWhileTime s
      \<and> (\<forall>j < rNumPorts s. rPorts (fold ?f [0..<rNumPorts s] s) ! j
           = (if j < rNumPorts s then (rPorts s ! j)\<lparr>pi_TCWhile := now + rTcWhileTime s\<rparr> else rPorts s ! j))"
    by (rule fold_upt_rule [where P = "\<lambda>k t. rNumPorts t = rNumPorts s \<and> rTcWhileTime t = rTcWhileTime s \<and> (\<forall>j < rNumPorts s.
        rPorts t ! j = (if j < k then (rPorts s ! j)\<lparr>pi_TCWhile := now + rTcWhileTime s\<rparr> else rPorts s ! j))"])
      (auto simp: Let_def nth_list_update less_Suc_eq flush_port_def)
  then show ?thesis by (simp add: flushOtherPorts_def)
qed

text \<open>\<open>t\<close> is \<open>s\<close> with the best alternate port \<open>c\<close> in place of the lost root port \<open>i\<close>.\<close>

definition failed_over :: "simtime \<Rightarrow> nat \<Rightarrow> nat \<Rightarrow> rstp \<Rightarrow> rstp \<Rightarrow> bool" where
  "failed_over now i c s t \<longleftrightarrow>
     c < rNumPorts s \<and> c \<noteq> i \<and> pi_role (rPorts s ! c) = ALTERNATE
     \<and> (\<forall>j < rNumPorts s. pi_role (rPorts s ! j) = ALTERNATE \<longrightarrow> signed_vector (rPorts s ! c) \<le> signed_vector (rPorts s ! j))
     \<and> rNumPorts t = rNumPorts s
     \<and> pi_role (rPorts t ! c) = ROOT \<and> pi_state (rPorts t ! c) = FORWARDING
     \<and> signed_vector (rPorts t ! c) = signed_vector (rPorts s ! c)
     \<and> pi_role (rPorts t ! i) = DESIGNATED \<and> pi_state (rPorts t ! i) = DISCARDING
     \<and> pi_nextUpgrade (rPorts t ! i) = now + rForwardDelay s
     \<and> (\<forall>j < rNumPorts s. j \<noteq> i \<longrightarrow> j \<noteq> c \<longrightarrow> skel (rPorts t ! j) = skel (rPorts s ! j))
     \<and> (\<forall>v a. lookup (rTable t) v a = only_port (rNumPorts s) c (lookup (rTable s) v a))"

lemma failed_over_untouched:
  assumes "failed_over now i c s t" and "untouched t u" and "i < rNumPorts s"
  shows "failed_over now i c s u"
  using assms untouched_port [OF assms(2), of c] untouched_port [OF assms(2), of i] untouched_port [OF assms(2)]
  by (auto simp: failed_over_def untouched_def skel_def)

lemma untouched_failed_over:
  assumes "untouched s s1" and "failed_over now i c s1 t" and "i < rNumPorts s"
  shows "failed_over now i c s t"
proof -
  have n: "rNumPorts s1 = rNumPorts s" by (rule untouched_port(1) [OF assms(1,3)])
  have f: "rForwardDelay s1 = rForwardDelay s" and t: "rTable s1 = rTable s"
    using assms(1) conf_sel(3) [OF core_conf, of s1 s] by (simp_all add: untouched_def)
  show ?thesis
    using assms(2) untouched_port [OF assms(1)] unfolding failed_over_def n f t by auto
qed

lemma lost_root_effect:
  assumes s: "rstp_inv now s" and i: "i < rNumPorts s" "pi_role (rPorts s ! i) = ROOT"
    and a: "\<exists>j < rNumPorts s. pi_role (rPorts s ! j) = ALTERNATE" and w: "mt_wf (rTable s)"
  obtains c t where "lost_root now i s = Inr t" and "failed_over now i c s t" and "pi_lostBPDU (rPorts t ! c) = 0"
    and "\<And>j. j < rNumPorts s \<Longrightarrow> j \<noteq> i \<Longrightarrow> j \<noteq> c \<Longrightarrow> pi_lostBPDU (rPorts t ! j) = pi_lostBPDU (rPorts s ! j)"
proof -
  obtain c where c: "getBestAlternate s = Some c" using a by (cases "getBestAlternate s") (auto simp: getBestAlternate_None)
  note b = getBestAlternate_Some [OF c]
  have ne: "c \<noteq> i" using b(2) i(2) by auto
  have "ahead now (contend now i s)" by (rule ahead_contend) (use s i in \<open>simp_all add: inv_ahead inv_delays\<close>)
  then obtain tm where tm: "scheduleNextUpgrde now (contend now i s) = Inr ((contend now i s)\<lparr>rUpgradeTimer := tm\<rparr>)"
    by (rule schedule_ahead)
  define u where "u = (contend now i s)\<lparr>rUpgradeTimer := tm\<rparr>"
  define v where "v = set_data c to_root (rstp_initInterfacedata i u)"
  define t where "t = copy_port i c (flushOtherPorts now c v)"
  have l: "lost_root now i s = Inr t" by (simp add: lost_root_def c tm u_def v_def t_def)
  have n: "rNumPorts v = rNumPorts s" and tv: "rTable v = rTable s"
    by (simp_all add: v_def u_def rstp_initInterfacedata_def contend_def)
  have p: "rPorts v ! j = (if j = c then to_root (rPorts s ! c)
      else if j = i then init_data u ((become DESIGNATED DISCARDING (rPorts s ! i))\<lparr>pi_nextUpgrade := now + rForwardDelay s\<rparr>)
      else rPorts s ! j)" if "j < rNumPorts s" for j
    using that i(1) b(1) ne by (auto simp: v_def u_def rstp_initInterfacedata_def contend_def nth_list_update)
  have q: "rPorts t ! j = (rPorts v ! j)\<lparr>pi_TCWhile := now + rTcWhileTime v\<rparr>" "rNumPorts t = rNumPorts s"
    if "j < rNumPorts s" for j
    using flushOtherPorts_ports [of now c v] that n by (simp_all add: t_def copy_port_def)
  have lk: "lookup (rTable t) x y = only_port (rNumPorts s) c (lookup (rTable s) x y)" for x y
    using failover_table [of v i c now x y] w i(1) ne n tv by (simp add: t_def)
  have "failed_over now i c s t"
    unfolding failed_over_def
    using b ne i q p lk by (simp add: init_data_def signed_vector_def skel_def)
  then show thesis using that [OF l, of c] p q b(1) ne by simp
qed

lemma hello_lost:
  assumes s: "rstp_inv now s" and i: "i < rNumPorts s" "pi_role (rPorts s ! i) = ROOT" "pi_lostBPDU (rPorts s ! i) = 3"
    and a: "\<exists>j < rNumPorts s. pi_role (rPorts s ! j) = ALTERNATE" and w: "mt_wf (rTable s)"
  obtains c t where "hello_port now i s = Inr t" and "failed_over now i c s t" and "pi_lostBPDU (rPorts t ! c) = 0"
    and "\<And>j. j < rNumPorts s \<Longrightarrow> j \<noteq> i \<Longrightarrow> j \<noteq> c \<Longrightarrow> pi_lostBPDU (rPorts t ! j) = pi_lostBPDU (rPorts s ! j)"
proof -
  define s1 where "s1 = set_data i (\<lambda>p. p\<lparr>pi_lostBPDU := pi_lostBPDU p + 1\<rparr>) s"
  have u: "untouched s s1" by (simp add: untouched_def s1_def skel_def map_update_same signed_vector_def)
  then have c: "core s1 = core s" by (simp add: untouched_def)
  have n: "rNumPorts s1 = rNumPorts s" by (simp add: s1_def)
  have a1: "\<exists>j < rNumPorts s1. pi_role (rPorts s1 ! j) = ALTERNATE" using a untouched_port(2) [OF u] n by auto
  have i1: "rstp_inv now s1" "i < rNumPorts s1" "pi_role (rPorts s1 ! i) = ROOT" "mt_wf (rTable s1)"
    using s i w inv_core [OF c] by (simp_all add: s1_def)
  obtain d t where t: "lost_root now i s1 = Inr t" "failed_over now i d s1 t" "pi_lostBPDU (rPorts t ! d) = 0"
      "\<And>j. j < rNumPorts s1 \<Longrightarrow> j \<noteq> i \<Longrightarrow> j \<noteq> d \<Longrightarrow> pi_lostBPDU (rPorts t ! j) = pi_lostBPDU (rPorts s1 ! j)"
    using lost_root_effect [OF i1(1-3) a1 i1(4)] by metis
  have e: "\<not> pi_edge (rPorts s ! i)" using roles_ports [OF inv_roles [OF s] i(1)] i(2) by (simp add: port_ok_def)
  define r where "r = set_data i (\<lambda>p. p\<lparr>pi_lostBPDU := 0\<rparr>) t"
  have h: "hello_port now i s = Inr r"
    using i e t(1) by (simp add: hello_port_def Let_def s1_def [symmetric] r_def) (simp add: s1_def)
  have ur: "untouched t r" by (simp add: untouched_def r_def skel_def map_update_same signed_vector_def)
  have f: "failed_over now i d s r"
    by (rule untouched_failed_over [OF u failed_over_untouched [OF t(2) ur i1(2)] i(1)])
  have "d \<noteq> i" using f by (simp add: failed_over_def)
  then show thesis using that [OF h f] t(3,4) n by (simp add: r_def s1_def)
qed


section \<open>Sending changes no port\<close>

lemma sends_keep [simp]:
  "rPorts (rstp_sendBPDU now i s) = rPorts s" "rTable (rstp_sendBPDU now i s) = rTable s"
  "rPorts (sendTCNtoRoot now s) = rPorts s" "rTable (sendTCNtoRoot now s) = rTable s"
  by (simp_all add: rstp_sendBPDU_def sendTCNtoRoot_def transmit_def Let_def split: option.split)

lemma hellos_keep [simp]: "rPorts (rstp_sendBPDUs now s) = rPorts s" "rTable (rstp_sendBPDUs now s) = rTable s"
proof -
  have "rPorts (fold (\<lambda>i s. if sends_hello (rPorts s ! i) then rstp_sendBPDU now i s else s) is s) = rPorts s
      \<and> rTable (fold (\<lambda>i s. if sends_hello (rPorts s ! i) then rstp_sendBPDU now i s else s) is s) = rTable s" for "is" s
    by (induction "is" arbitrary: s) simp_all
  then show "rPorts (rstp_sendBPDUs now s) = rPorts s" "rTable (rstp_sendBPDUs now s) = rTable s"
    by (simp_all add: rstp_sendBPDUs_def)
qed

text \<open>The loop of \<open>handleHelloTime\<close> when the root port and no other is lost.\<close>

lemma hello_loop:
  assumes s: "rstp_inv now s" and i: "i < rNumPorts s" "pi_role (rPorts s ! i) = ROOT" "pi_lostBPDU (rPorts s ! i) = 3"
    and o: "\<And>j. j < rNumPorts s \<Longrightarrow> j \<noteq> i \<Longrightarrow> not_lost (rPorts s ! j)"
    and a: "\<exists>j < rNumPorts s. pi_role (rPorts s ! j) = ALTERNATE" and w: "mt_wf (rTable s)"
  shows "\<exists>t. iterR (hello_port now) [0..<rNumPorts s] s = Inr t \<and> (\<exists>c. failed_over now i c s t)"
proof -
  let ?n = "rNumPorts s"
  define P where "P k t \<longleftrightarrow> (if k \<le> i then untouched s t \<and> (\<forall>j. k \<le> j \<longrightarrow> j < ?n \<longrightarrow> rPorts t ! j = rPorts s ! j)
      else (\<exists>c. failed_over now i c s t) \<and> (\<forall>j. k \<le> j \<longrightarrow> j < ?n \<longrightarrow> not_lost (rPorts t ! j)))" for k t
  have "\<exists>t. iterR (hello_port now) [0..<?n] s = Inr t \<and> P ?n t"
  proof (rule iterR_upt_rule)
    show "P 0 s" by (simp add: P_def untouched_refl)
  next
    fix k t assume k: "k < ?n" and t: "P k t"
    show "\<exists>u. hello_port now k t = Inr u \<and> P (Suc k) u"
    proof (cases "k = i")
      case True
      then have ut: "untouched s t" "\<And>j. k \<le> j \<Longrightarrow> j < ?n \<Longrightarrow> rPorts t ! j = rPorts s ! j" using t by (auto simp: P_def)
      have c: "core t = core s" "rTable t = rTable s" using ut(1) by (simp_all add: untouched_def)
      have n: "rNumPorts t = ?n" by (rule core_sel(1) [OF c(1)])
      have a': "\<exists>j < rNumPorts t. pi_role (rPorts t ! j) = ALTERNATE" using a n untouched_port(2) [OF ut(1)] by auto
      have it: "rstp_inv now t" "i < rNumPorts t" "pi_role (rPorts t ! i) = ROOT" "pi_lostBPDU (rPorts t ! i) = 3" "mt_wf (rTable t)"
        using s i w ut(2) [of i] True c(2) n inv_core [OF c(1)] by simp_all
      obtain d u where u: "hello_port now i t = Inr u" "failed_over now i d t u" "pi_lostBPDU (rPorts u ! d) = 0"
          "\<And>j. j < rNumPorts t \<Longrightarrow> j \<noteq> i \<Longrightarrow> j \<noteq> d \<Longrightarrow> pi_lostBPDU (rPorts u ! j) = pi_lostBPDU (rPorts t ! j)"
        using hello_lost [OF it(1-4) a' it(5)] by metis
      have "not_lost (rPorts u ! j)" if "Suc i \<le> j" "j < ?n" for j
      proof (cases "j = d")
        case False
        have "skel (rPorts u ! j) = skel (rPorts t ! j)" using u(2) that n False by (simp add: failed_over_def)
        then show ?thesis
          using u(4) [of j] that n False True ut(2) [of j] o [of j] by (simp add: not_lost_def skel_def)
      qed (simp add: not_lost_def u(3))
      then show ?thesis using u(1) untouched_failed_over [OF ut(1) u(2) i(1)] True by (auto simp: P_def)
    next
      case False
      have l: "not_lost (rPorts t ! k)" using t k False o [of k] by (auto simp: P_def split: if_splits)
      obtain u where u: "hello_port now k t = Inr u" "untouched t u" "\<And>j. j \<noteq> k \<Longrightarrow> rPorts u ! j = rPorts t ! j"
        using hello_not_lost [OF l, where now = now] by metis
      have "P (Suc k) u"
      proof (cases "k < i")
        case True
        then have "untouched s u" using t untouched_trans [OF _ u(2)] by (auto simp: P_def)
        then show ?thesis using True t u(3) by (auto simp: P_def)
      next
        case k: False
        then have "\<exists>c. failed_over now i c s u"
          using t False failed_over_untouched [OF _ u(2) i(1)] by (auto simp: P_def)
        then show ?thesis using k False t u(3) by (auto simp: P_def)
      qed
      then show ?thesis using u(1) by blast
    qed
  qed
  then show ?thesis using i(1) by (auto simp: P_def)
qed

text \<open>
  C23. A lost root port is replaced at once. In a state with the invariant \<open>rstp_live\<close>, which all reachable states have,
  and with a well formed address table, the hello timer of a bridge that is up goes off; the root port has missed
  three BPDUs, the other ports that count them fewer, and there is an alternate port. Then the best alternate port, by
  the vector it holds, is the root port from now on, and forwards, with the information it had; the old root port is a
  designated port that discards, to be upgraded after the forward delay; no other port changes its role or state.
  In the address table every entry for a port of the bridge but the new root port is gone, those of the old root port
  included: the code means to hand these on to the new root port, but it flushes them before.
\<close>

theorem rstp_failover:
  assumes s: "rstp_live now s" "rOperational s" "tm_at (rHelloTimer s) = Some now"
    and i: "i < rNumPorts s" "pi_role (rPorts s ! i) = ROOT" "pi_lostBPDU (rPorts s ! i) = 3"
    and o: "\<And>j. j < rNumPorts s \<Longrightarrow> j \<noteq> i \<Longrightarrow> not_lost (rPorts s ! j)"
    and a: "\<exists>j < rNumPorts s. pi_role (rPorts s ! j) = ALTERNATE" and w: "mt_wf (rTable s)"
  shows "\<exists>c t. rstp_handleMessage now (RstpSelf SELF_HELLOTIME) s = Inr t
    \<and> c < rNumPorts s \<and> pi_role (rPorts s ! c) = ALTERNATE
    \<and> (\<forall>j < rNumPorts s. pi_role (rPorts s ! j) = ALTERNATE \<longrightarrow> signed_vector (rPorts s ! c) \<le> signed_vector (rPorts s ! j))
    \<and> pi_role (rPorts t ! c) = ROOT \<and> pi_state (rPorts t ! c) = FORWARDING
    \<and> signed_vector (rPorts t ! c) = signed_vector (rPorts s ! c)
    \<and> pi_role (rPorts t ! i) = DESIGNATED \<and> pi_state (rPorts t ! i) = DISCARDING
    \<and> pi_nextUpgrade (rPorts t ! i) = now + rForwardDelay s
    \<and> (\<forall>j < rNumPorts s. j \<noteq> i \<longrightarrow> j \<noteq> c \<longrightarrow>
         pi_role (rPorts t ! j) = pi_role (rPorts s ! j) \<and> pi_state (rPorts t ! j) = pi_state (rPorts s ! j))
    \<and> (\<forall>v a. lookup (rTable t) v a = only_port (rNumPorts s) c (lookup (rTable s) v a))"
proof -
  define u where "u = s\<lparr>rHelloTimer := cancelEvent (rHelloTimer s)\<rparr>"
  have p: "rPorts u = rPorts s" "rTable u = rTable s" "rForwardDelay u = rForwardDelay s" by (simp_all add: u_def)
  have "rstp_inv now u"
    using s(1,2) by (simp add: u_def rstp_live_def rstp_inv_def roles_ok_def one_root_def with_role_def timed_def
        waiting_def delays_ok_def)
  then obtain t c where t: "iterR (hello_port now) [0..<rNumPorts u] u = Inr t" "failed_over now i c u t"
    using hello_loop [of now u i] i o a w p by auto
  obtain v where v: "rstp_handleMessage now (RstpSelf SELF_HELLOTIME) s = Inr v"
    using message_returns [OF s(1), of "RstpSelf SELF_HELLOTIME"] s(3) by auto
  then have "schedule_hello now (now + rHelloTime t) (sendTCNtoRoot now (rstp_sendBPDUs now t)) = Inr v"
    using s(2) t(1) by (simp add: rstp_handleMessage_def handleHelloTime_def u_def [symmetric])
  then have q: "rPorts v = rPorts t" "rTable v = rTable t" by (auto simp: schedule_hello_def)
  show ?thesis
    by (rule exI [of _ c], rule exI [of _ v]) (use t(2) v in \<open>auto simp: failed_over_def p q skel_def\<close>)
qed

text \<open>A bridge with a root port that is lost, an alternate port and an address learnt on each.\<close>

definition f_port :: "PortRole \<Rightarrow> PortState \<Rightarrow> u32 \<Rightarrow> u32 \<Rightarrow> PortInfo" where
  "f_port r st lost cost =
     new_PortInfo\<lparr>pi_linkCost := 19, pi_role := r, pi_state := st, pi_lostBPDU := lost, pi_rootPriority := 4096,
       pi_rootAddress := 0x0AAA00000001, pi_rootPathCost := cost, pi_bridgePriority := 4096,
       pi_bridgeAddress := 0x0AAA00000001\<rparr>"

definition f_table :: mac_table where
  "f_table = snd (updateTableWithAddress 0 1 0x0AAA00000012 0 (snd (updateTableWithAddress 0 0 0x0AAA00000011 0 (mt_new 300))))"

definition f0 :: rstp where
  "f0 = r0\<lparr>rHelloTimer := \<lparr>tm_kind = SELF_HELLOTIME, tm_at = Some 30\<rparr>, rUpgradeTimer := \<lparr>tm_kind = SELF_UPGRADE, tm_at = None\<rparr>,
           rPorts := [f_port ROOT FORWARDING 3 19, f_port ALTERNATE DISCARDING 0 38], rTable := f_table\<rparr>"

lemma f0_live: "rstp_live 30 f0"
proof -
  have p: "rNumPorts f0 = 2" "rPorts f0 ! 0 = f_port ROOT FORWARDING 3 19" "rPorts f0 ! 1 = f_port ALTERNATE DISCARDING 0 38"
    by (simp_all add: f0_def)
  have two: "i < 2 \<longleftrightarrow> i = 0 \<or> i = (1::nat)" for i by auto
  have k: "port_ok (f_port ROOT FORWARDING 3 19)" "port_ok (f_port ALTERNATE DISCARDING 0 38)"
    "\<not> awaits_upgrade (f_port ROOT FORWARDING 3 19)" "\<not> awaits_upgrade (f_port ALTERNATE DISCARDING 0 38)"
    by (simp_all add: port_ok_def awaits_upgrade_def f_port_def new_PortInfo_def)
  have "with_role ROOT f0 = {0}"
    unfolding with_role_def p two using p(2,3) by (auto simp: f_port_def)
  moreover have "\<not> waiting f0 i" for i
    unfolding waiting_def p two using p(2,3) k by (cases "i = 0"; cases "i = 1") simp_all
  moreover have "\<forall>i < rNumPorts f0. port_ok (rPorts f0 ! i)" unfolding p two using p(2,3) k by auto
  ultimately show ?thesis
    by (simp add: rstp_live_def rstp_inv_def roles_ok_def one_root_def timed_def delays_ok_def) (simp add: f0_def r0_def)
qed

lemma f_table: "mt_wf f_table" "map_option portno (lookup f_table 0 0x0AAA00000011) = Some 0"
  "map_option portno (lookup f_table 0 0x0AAA00000012) = Some 1"
proof -
  show "mt_wf f_table" by (simp add: f_table_def updateTableWithAddress_wf)
  show "map_option portno (lookup f_table 0 0x0AAA00000011) = Some 0"
    "map_option portno (lookup f_table 0 0x0AAA00000012) = Some 1"
    by (simp_all add: f_table_def lookup_def updateTableWithAddress_def isBroadcast_def BROADCAST_ADDRESS_def MAC_ADDRESS_MASK_def
        getTableForVid_def mt_new_def removeAgedEntriesIfNeeded_def set_cell_def cell_def SIMTIME_SECOND_def)
qed

theorem rstp_failover_witness:
  "\<exists>t. rstp_handleMessage 30 (RstpSelf SELF_HELLOTIME) f0 = Inr t \<and> pi_role (rPorts t ! 1) = ROOT
    \<and> pi_role (rPorts t ! 0) = DESIGNATED \<and> pi_nextUpgrade (rPorts t ! 0) = 32
    \<and> lookup (rTable t) 0 0x0AAA00000011 = None \<and> lookup (rTable t) 0 0x0AAA00000012 \<noteq> None"
proof -
  have p: "rOperational f0" "tm_at (rHelloTimer f0) = Some 30" "rNumPorts f0 = 2" "rForwardDelay f0 = 2" "rTable f0 = f_table"
    "rPorts f0 = [f_port ROOT FORWARDING 3 19, f_port ALTERNATE DISCARDING 0 38]"
    by (simp_all add: f0_def r0_def)
  have q: "0 < rNumPorts f0" "pi_role (rPorts f0 ! 0) = ROOT" "pi_lostBPDU (rPorts f0 ! 0) = 3"
    by (simp_all add: p f_port_def)
  have o: "not_lost (rPorts f0 ! j)" if "j < rNumPorts f0" "j \<noteq> 0" for j
    using that by (cases "j = 1") (simp_all add: p not_lost_def f_port_def new_PortInfo_def)
  have a: "\<exists>j < rNumPorts f0. pi_role (rPorts f0 ! j) = ALTERNATE"
    by (rule exI [of _ 1]) (simp add: p f_port_def)
  obtain c t where t: "rstp_handleMessage 30 (RstpSelf SELF_HELLOTIME) f0 = Inr t" "c < rNumPorts f0"
      "pi_role (rPorts f0 ! c) = ALTERNATE" "pi_role (rPorts t ! c) = ROOT" "pi_role (rPorts t ! 0) = DESIGNATED"
      "pi_nextUpgrade (rPorts t ! 0) = 30 + rForwardDelay f0"
      "\<And>v a. lookup (rTable t) v a = only_port (rNumPorts f0) c (lookup (rTable f0) v a)"
    using rstp_failover [OF f0_live p(1,2) q o a] f_table(1) unfolding p(5) by blast
  have c: "c = 1" using t(2,3) by (cases "c = 0") (auto simp: p f_port_def)
  show ?thesis
    using t f_table(2,3) by (intro exI [of _ t]) (auto simp: c p only_port_def split: option.splits)
qed

section \<open>Two ports on one segment\<close>

lemma checkTC_arrival: "i < rNumPorts s \<Longrightarrow> rPorts (checkTC now b i s) ! i = rPorts s ! i"
proof -
  have "rPorts (fold (\<lambda>j s. if j \<noteq> i then set_data j (\<lambda>p. p\<lparr>pi_TCWhile := now + rTcWhileTime s\<rparr>) (flush_port j s) else s) is s) ! i
      = rPorts s ! i" for "is" s
    by (induction "is" arbitrary: s) (simp_all add: nth_list_update)
  then show ?thesis by (simp add: checkTC_def)
qed

text \<open>
  The BPDUs of this bridge do not say their port priority, which is 0 in them, and a port that has heard of no
  other bridge holds the greatest. So a port that hears a BPDU of its own bridge goes out of service, whichever of
  its ports sent it, that very port included; it never finds itself the better one.
\<close>

theorem rstp_own_BPDU:
  assumes "ctl_src c = rBridgeAddress s" and "0 \<le> ctl_switchPort c" and "ctl_switchPort c < int (rNumPorts s)"
    and "b = rstp_BPDU j rp ra age cost tc s0" and "age < rMaxAge s"
    and "pi_portPriority (rPorts s ! nat (ctl_switchPort c)) \<noteq> 0"
  shows "\<exists>t. handleIncomingFrame now b c s = Inr t
    \<and> pi_role (rPorts t ! nat (ctl_switchPort c)) = BACKUP \<and> pi_state (rPorts t ! nat (ctl_switchPort c)) = DISCARDING"
proof -
  define a where "a = nat (ctl_switchPort c)"
  have a: "a < rNumPorts s" using assms(2,3) by (simp add: a_def nat_less_iff)
  define u where "u = checkTC now b a s"
  have b: "bp_portPriority b = 0" "bp_messageAge b = age" using assms(4) by (simp_all add: rstp_BPDU_def new_BPDU_def)
  have cu: "core u = core s" by (simp add: u_def)
  have "rPorts u ! a = rPorts s ! a" using checkTC_arrival [OF a] by (simp add: u_def)
  then have pr: "0 < pi_portPriority (rPorts u ! a)" using assms(6) by (simp add: a_def word_gt_0)
  have n: "rNumPorts u = rNumPorts s" and m: "rBridgeAddress u = rBridgeAddress s"
    using conf_sel(1,7) [OF core_conf [OF cu]] by simp_all
  have "handleIncomingFrame now b c s = Inr (to_backup a u)"
    using assms(1,2,3,5) b pr m
    by (simp add: handleIncomingFrame_def rstp_port_def a_def [symmetric] u_def [symmetric] handleBackup_def)
  then show ?thesis using a n by (auto simp: a_def [symmetric] to_backup_def)
qed

end
