(* ===== verification/GooseData.thy ===== *)
theory GooseData
  imports AppTimer
begin

text \<open>
  \<open>applications/ethernet/EtherGooseStruct.h\<close> and \<open>EtherGoose.msg\<close>: the structures of a GOOSE
  packet, each a tag, a size and a value of the width the header declares. The length of a
  reference string is bounded by its buffer of \<open>GOOSE_MAX_REF\<close> characters; copying a longer one
  is a buffer overflow.
\<close>

section \<open>Constants\<close>

definition GOOSE_MAX_REF :: nat where "GOOSE_MAX_REF = 65"
definition GOOSE_1Q_DE :: bool where "GOOSE_1Q_DE = False"
definition GOOSE_HEADER_RESERVED1 :: u16 where "GOOSE_HEADER_RESERVED1 = 0"
definition GOOSE_HEADER_RESERVED2 :: u16 where "GOOSE_HEADER_RESERVED2 = 0"
definition GOOSE_START_OF_APDU_TAG :: u8 where "GOOSE_START_OF_APDU_TAG = 0x61"
definition GOOSE_LENGHT_TAG :: u8 where "GOOSE_LENGHT_TAG = 0x82"
definition GOOSE_UTC_LENGHT :: u8 where "GOOSE_UTC_LENGHT = 8"
definition GOSSE_CONTEXT_SPECIFIC_CONSTRUCT :: u8 where "GOSSE_CONTEXT_SPECIFIC_CONSTRUCT = 0xAB"
definition ASN1_CONTEXT_SPECIFIC_BOOL :: u8 where "ASN1_CONTEXT_SPECIFIC_BOOL = 0x83"

text \<open>\<open>GOOSE_CONTEXT_SPECIFIC_OPTION0\<close> to \<open>OPTIONA\<close> are \<open>0x80\<close> to \<open>0x8A\<close>.\<close>

definition GOOSE_OPTION :: "nat \<Rightarrow> u8" where "GOOSE_OPTION k = 0x80 + of_nat k"

section \<open>Structures\<close>

record stGoAPDUStart =
  goPdu :: u8
  goPduLenghtTag :: u8
  goPduLenght :: u16

record stGocbRef =
  goCbRef_tag :: u8
  goCbRefSize :: u8
  goCbRefValue :: string

record stGoTTL =
  goTtl_tag :: u8
  goTtlSize :: u8
  goTtlValue :: u16

record stGoDataSet =
  goDataSetRef :: u8
  goDataSetRefSize :: u8
  goDataSetRefValue :: string

record stGoID =
  GoID_tag :: u8
  GoIDSize :: u8
  GoIDValue :: string

record stGoUtc =
  goUtc_tag :: u8
  goUtcSize :: u8
  goUtcValue :: "u8 list"

record stGoStNum =
  goStNum_tag :: u8
  goStNumSize :: u8
  goStNumValue :: u32

record stGoSqNum =
  goSqNum_tag :: u8
  goSqNumSize :: u8
  goSqNumValue :: u32

record stGoTst =
  goTst_tag :: u8
  goTstSize :: u8
  goTstValue :: u8

record stGoConfRev =
  goConfRev_tag :: u8
  goConfRevSize :: u8
  goConfRevValue :: u32

record stGoNdsCom =
  goNdsCom_tag :: u8
  goNdsComSize :: u8
  goNdsComValue :: u8

record stGoNumDataSet =
  goNumDataSet_tag :: u8
  goNumDataSetSize :: u8
  goNumDataSetValue :: u8

record stGoDataStart =
  goDataStart_tag :: u8
  goDataStartLenghtTag :: u8
  goDataStartSize :: u16

record stGoDataEntries =
  goDataTag :: u8
  goDataSize :: u8
  goDataValue :: u16

record EtherGooseData =
  hdrAppID :: u16
  totalLenght :: u16
  reserved1 :: u16
  reserved2 :: u16
  apduStart :: stGoAPDUStart
  goCbRef :: stGocbRef
  goTtl :: stGoTTL
  dataSetRef :: stGoDataSet
  goOptID :: stGoID
  goUTC :: stGoUtc
  goStNum :: stGoStNum
  goSqNum :: stGoSqNum
  goTst :: stGoTst
  goConfRev :: stGoConfRev
  goNdsCom :: stGoNdsCom
  goNumDataSet :: stGoNumDataSet
  goDataStart :: stGoDataStart
  goData :: "stGoDataEntries list"

section \<open>The encoded length\<close>

text \<open>
  The tags and sizes of the members of the APDU in the order in which they follow each other, and
  those of the data set.
\<close>

definition apdu_fields :: "EtherGooseData \<Rightarrow> (u8 \<times> nat) list" where
  "apdu_fields p =
     [(goCbRef_tag (goCbRef p), unat (goCbRefSize (goCbRef p))),
      (goTtl_tag (goTtl p), unat (goTtlSize (goTtl p))),
      (goDataSetRef (dataSetRef p), unat (goDataSetRefSize (dataSetRef p))),
      (GoID_tag (goOptID p), unat (GoIDSize (goOptID p))),
      (goUtc_tag (goUTC p), unat (goUtcSize (goUTC p))),
      (goStNum_tag (goStNum p), unat (goStNumSize (goStNum p))),
      (goSqNum_tag (goSqNum p), unat (goSqNumSize (goSqNum p))),
      (goTst_tag (goTst p), unat (goTstSize (goTst p))),
      (goConfRev_tag (goConfRev p), unat (goConfRevSize (goConfRev p))),
      (goNdsCom_tag (goNdsCom p), unat (goNdsComSize (goNdsCom p))),
      (goNumDataSet_tag (goNumDataSet p), unat (goNumDataSetSize (goNumDataSet p)))]"

definition data_fields :: "EtherGooseData \<Rightarrow> (u8 \<times> nat) list" where
  "data_fields p = map (\<lambda>d. (goDataTag d, unat (goDataSize d))) (goData p)"

text \<open>
  A tag, the length tag \<open>0x82\<close> and a two byte length open the data and the APDU; the header has
  8 bytes.
\<close>

definition lengths_consistent :: "EtherGooseData \<Rightarrow> bool" where
  "lengths_consistent p \<longleftrightarrow>
     unat (goDataStartSize (goDataStart p)) = tlv_bytes (data_fields p)
     \<and> unat (goPduLenght (apduStart p)) = tlv_bytes (apdu_fields p) + 4 + tlv_bytes (data_fields p)
     \<and> unat (totalLenght p) = 8 + 4 + unat (goPduLenght (apduStart p))"

end
