(* ===== verification/EtherAppGoose.thy ===== *)
theory EtherAppGoose
  imports GooseData
begin

text \<open>
  \<open>applications/ethernet/EtherAppGoose\<close>: the GOOSE publisher and subscriber of an IED. The module
  parameters are a record; the self message \<open>timerMsg\<close> is its kind and, while it is in the future
  event set, the time it will arrive; \<open>gOut\<close> logs what was sent on the gate \<open>out\<close>. Two things
  come from outside the code and are parameters: the conversion of a double to \<open>simtime_t\<close> and the
  lookup of a destination module by its path.
\<close>

section \<open>Parameters and state\<close>

text \<open>
  \<open>env_module path\<close> is \<open>None\<close> when there is no such module, \<open>Some None\<close> when it has no \<open>mac\<close>
  submodule, else the \<open>address\<close> parameter of that submodule.
\<close>

record goose_par =
  par_destAddress :: string
  par_startTime :: simtime
  par_stopTime :: simtime
  par_sendInterval :: real
  par_iedType :: string
  par_cbRef :: string
  par_dataSetRef :: string
  par_goID :: string
  par_myAppID :: real
  par_pcAppID :: "real list"
  par_interAppID :: "real list"
  par_comAppID :: "real list"
  par_confRev :: real
  par_numDataSet :: real
  par_tst :: bool
  par_ndsCom :: bool
  par_priority :: real
  par_vlanid :: real
  env_simtime :: "real \<Rightarrow> simtime"
  env_module :: "string \<Rightarrow> string option option"

definition goose_START :: int where "goose_START = 100"
definition goose_NEXT :: int where "goose_NEXT = 101"

datatype 'o goose_payload = PGoose EtherGooseData | POther 'o

record 'o goose =
  gSeqNum :: int
  gStChng :: u32
  gMyAppID :: real
  gPcAppID :: "real list"
  gInterAppID :: "real list"
  gComAppID :: "real list"
  gAlarm :: bool
  gSendInterval :: real
  gSInterval :: real
  gPpc :: real
  gVid :: real
  gDest :: mac_addr
  gNodeType :: string
  gTimer :: "app_timer option"
  gStartTime :: simtime
  gStopTime :: simtime
  gSent :: int
  gReceived :: int
  gOut :: "'o goose_payload cPacket list"

definition goose_isGenerator :: "goose_par \<Rightarrow> bool" where
  "goose_isGenerator par \<longleftrightarrow> par_destAddress par \<noteq> []"

section \<open>The timer\<close>

definition goose_scheduleNextPacket :: "goose_par \<Rightarrow> simtime \<Rightarrow> bool \<Rightarrow> 'o goose \<Rightarrow> 'o goose res" where
  "goose_scheduleNextPacket par cur start s =
     (case gTimer s of
        None \<Rightarrow> Inl NullDeref
      | Some t \<Rightarrow>
          let (next, t1) =
            (if start
             then (if cur \<le> gStartTime s then gStartTime s else cur, t\<lparr>tm_kind := goose_START\<rparr>)
             else (cur + env_simtime par (gSendInterval s), t\<lparr>tm_kind := goose_NEXT\<rparr>))
          in if gStopTime s < 0 \<or> next < gStopTime s
             then bindR (scheduleAt cur next t1) (\<lambda>t2.
                    Inr (s\<lparr>gTimer := Some t2,
                           gSendInterval := (if gSendInterval s < gSInterval s
                                             then gSendInterval s * 2 else gSendInterval s)\<rparr>))
             else Inr (s\<lparr>gTimer := Some t1\<rparr>))"

definition goose_cancelNextPacket :: "'o goose \<Rightarrow> 'o goose" where
  "goose_cancelNextPacket s = s\<lparr>gTimer := map_option cancelEvent (gTimer s)\<rparr>"

section \<open>Initialization\<close>

text \<open>
  Stage 0 of \<open>initialize\<close>. \<open>dest0\<close> is the default constructed \<open>destMACAddress\<close>; the timer is
  NULL from the constructor.
\<close>

definition goose_initialize0 :: "goose_par \<Rightarrow> 'o goose res" where
  "goose_initialize0 par =
     (if par_stopTime par \<ge> 0 \<and> par_stopTime par < par_startTime par
      then Inl (RuntimeError ''Invalid startTime/stopTime parameters'')
      else bindR (strcpy_buf 6 (par_iedType par)) (\<lambda>nodeType.
        Inr \<lparr>gSeqNum = 0, gStChng = 1, gMyAppID = par_myAppID par,
             gPcAppID = take 3 (par_pcAppID par), gInterAppID = take 2 (par_interAppID par),
             gComAppID = take 3 (par_comAppID par), gAlarm = False,
             gSendInterval = par_sendInterval par, gSInterval = par_sendInterval par,
             gPpc = par_priority par, gVid = par_vlanid par, gDest = 0, gNodeType = nodeType,
             gTimer = None, gStartTime = par_startTime par, gStopTime = par_stopTime par,
             gSent = 0, gReceived = 0, gOut = []\<rparr>))"

text \<open>Stage 3; \<open>up\<close> is \<open>isNodeUp\<close>. The kind of a new message is 0.\<close>

definition goose_initialize3 :: "goose_par \<Rightarrow> simtime \<Rightarrow> bool \<Rightarrow> 'o goose \<Rightarrow> 'o goose res" where
  "goose_initialize3 par now up s =
     (let s1 = (if goose_isGenerator par then s\<lparr>gTimer := Some \<lparr>tm_kind = 0, tm_at = None\<rparr>\<rparr> else s)
      in if up \<and> goose_isGenerator par then goose_scheduleNextPacket par now True s1 else Inr s1)"

definition goose_initialize :: "goose_par \<Rightarrow> simtime \<Rightarrow> bool \<Rightarrow> 'o goose res" where
  "goose_initialize par now up = bindR (goose_initialize0 par) (goose_initialize3 par now up)"

definition goose_resolveDestMACAddress :: "goose_par \<Rightarrow> mac_addr res" where
  "goose_resolveDestMACAddress par =
     (let destAddress = par_destAddress par in
      if destAddress \<noteq> [] then
        (case tryParse 0 destAddress of
           (True, a) \<Rightarrow> Inr a
         | (False, a) \<Rightarrow>
             (case env_module par destAddress of
                None \<Rightarrow> Inl (RuntimeError ''cannot resolve MAC address'')
              | Some None \<Rightarrow> Inl (RuntimeError ''module has no mac submodule'')
              | Some (Some addr) \<Rightarrow> setAddress a addr))
      else Inr 0)"

section \<open>createGoosePacket\<close>

text \<open>
  The running \<open>totalLenghtCounter\<close> is 16 bits wide and grows by tag, size and value of each
  member. The result fills the packet and the counter is threaded through.
\<close>

definition make_goCbRef :: "goose_par \<Rightarrow> stGocbRef res" where
  "make_goCbRef par =
     bindR (strcpy_buf GOOSE_MAX_REF (par_cbRef par)) (\<lambda>v.
       Inr \<lparr>goCbRef_tag = GOOSE_OPTION 0, goCbRefSize = of_nat (length (par_cbRef par) + 1),
            goCbRefValue = v\<rparr>)"

definition make_goTTL :: "'o goose \<Rightarrow> stGoTTL res" where
  "make_goTTL s =
     bindR (to_word (1000 * gSendInterval s)) (\<lambda>v.
       Inr \<lparr>goTtl_tag = GOOSE_OPTION 1, goTtlSize = 2, goTtlValue = v\<rparr>)"

definition make_goDataSet :: "goose_par \<Rightarrow> stGoDataSet res" where
  "make_goDataSet par =
     bindR (strcpy_buf GOOSE_MAX_REF (par_dataSetRef par)) (\<lambda>v.
       Inr \<lparr>goDataSetRef = GOOSE_OPTION 2, goDataSetRefSize = of_nat (length (par_dataSetRef par) + 1),
            goDataSetRefValue = v\<rparr>)"

definition make_goID :: "goose_par \<Rightarrow> stGoID res" where
  "make_goID par =
     bindR (strcpy_buf GOOSE_MAX_REF (par_goID par)) (\<lambda>v.
       Inr \<lparr>GoID_tag = GOOSE_OPTION 3, GoIDSize = of_nat (length (par_goID par) + 1),
            GoIDValue = v\<rparr>)"

definition make_goUtc :: stGoUtc where
  "make_goUtc =
     \<lparr>goUtc_tag = GOOSE_OPTION 4, goUtcSize = GOOSE_UTC_LENGHT,
      goUtcValue = [0x00, 0xB7, 0x2D, 0xB2, 0xD3, 0x3C, 0x9C, 0x4E]\<rparr>"

definition make_goStNum :: "'o goose \<Rightarrow> stGoStNum" where
  "make_goStNum s = \<lparr>goStNum_tag = GOOSE_OPTION 5, goStNumSize = 1, goStNumValue = gStChng s\<rparr>"

definition make_goSqNum :: "'o goose \<Rightarrow> stGoSqNum" where
  "make_goSqNum s =
     \<lparr>goSqNum_tag = GOOSE_OPTION 6, goSqNumSize = 1, goSqNumValue = word_of_int (gSeqNum s)\<rparr>"

definition make_goTst :: "goose_par \<Rightarrow> stGoTst" where
  "make_goTst par =
     \<lparr>goTst_tag = GOOSE_OPTION 7, goTstSize = 1, goTstValue = (if par_tst par then 1 else 0)\<rparr>"

definition make_goConfRev :: "goose_par \<Rightarrow> stGoConfRev res" where
  "make_goConfRev par =
     bindR (to_word (par_confRev par)) (\<lambda>v.
       Inr \<lparr>goConfRev_tag = GOOSE_OPTION 8, goConfRevSize = 1, goConfRevValue = v\<rparr>)"

definition make_goNdsCom :: "goose_par \<Rightarrow> stGoNdsCom" where
  "make_goNdsCom par =
     \<lparr>goNdsCom_tag = GOOSE_OPTION 9, goNdsComSize = 1, goNdsComValue = (if par_ndsCom par then 1 else 0)\<rparr>"

definition make_goNumDataSet :: "goose_par \<Rightarrow> stGoNumDataSet res" where
  "make_goNumDataSet par =
     bindR (to_word (par_numDataSet par)) (\<lambda>v.
       Inr \<lparr>goNumDataSet_tag = GOOSE_OPTION 10, goNumDataSetSize = 1, goNumDataSetValue = v\<rparr>)"

definition make_goData :: "'o goose \<Rightarrow> stGoDataEntries" where
  "make_goData s =
     \<lparr>goDataTag = ASN1_CONTEXT_SPECIFIC_BOOL, goDataSize = 1, goDataValue = (if gAlarm s then 1 else 0)\<rparr>"

definition createGoosePacket :: "goose_par \<Rightarrow> 'o goose \<Rightarrow> EtherGooseData res" where
  "createGoosePacket par s =
     bindR (to_word (gMyAppID s)) (\<lambda>appID.
     bindR (make_goCbRef par) (\<lambda>cb.
     let total = (0 :: u16) + 2 + ucast (goCbRefSize cb) in
     bindR (make_goTTL s) (\<lambda>ttl.
     let total = total + 2 + ucast (goTtlSize ttl) in
     bindR (make_goDataSet par) (\<lambda>ds.
     let total = total + 2 + ucast (goDataSetRefSize ds) in
     bindR (make_goID par) (\<lambda>gid.
     let total = total + 2 + ucast (GoIDSize gid);
         utc = make_goUtc; total = total + 2 + ucast (goUtcSize utc);
         st = make_goStNum s; total = total + 2 + ucast (goStNumSize st);
         sq = make_goSqNum s; total = total + 2 + ucast (goStNumSize st);
         tst = make_goTst par; total = total + 2 + ucast (goTstSize tst)
     in bindR (make_goConfRev par) (\<lambda>cr.
     let total = total + 2 + ucast (goConfRevSize cr);
         nds = make_goNdsCom par; total = total + 2 + ucast (goNdsComSize nds)
     in bindR (make_goNumDataSet par) (\<lambda>num.
     let total = total + 2 + ucast (goNumDataSetSize num);
         boolean = make_goData s;
         totalData = (0 :: u16) + 2 + ucast (goDataSize boolean);
         total = total + totalData;
         start = \<lparr>goDataStart_tag = GOSSE_CONTEXT_SPECIFIC_CONSTRUCT,
                  goDataStartLenghtTag = GOOSE_LENGHT_TAG, goDataStartSize = totalData\<rparr>;
         total = total + 4;
         apdu = \<lparr>goPdu = GOOSE_START_OF_APDU_TAG, goPduLenghtTag = GOOSE_LENGHT_TAG,
                 goPduLenght = total\<rparr>;
         total = total + 4;
         total = total + 8
     in Inr \<lparr>hdrAppID = appID, totalLenght = total, reserved1 = GOOSE_HEADER_RESERVED1,
             reserved2 = GOOSE_HEADER_RESERVED2, apduStart = apdu, goCbRef = cb, goTtl = ttl,
             dataSetRef = ds, goOptID = gid, goUTC = utc, goStNum = st, goSqNum = sq, goTst = tst,
             goConfRev = cr, goNdsCom = nds, goNumDataSet = num, goDataStart = start,
             goData = [boolean]\<rparr>)))))))"

section \<open>Sending\<close>

definition goose_sendPacket :: "goose_par \<Rightarrow> 'o goose \<Rightarrow> 'o goose res" where
  "goose_sendPacket par s =
     (let s1 = s\<lparr>gSeqNum := gSeqNum s + 1\<rparr> in
      bindR (createGoosePacket par s1) (\<lambda>p.
      bindR (to_signed 32 (gPpc s1)) (\<lambda>ppc.
      bindR (to_signed 32 (gVid s1)) (\<lambda>vid.
        let etherctrl = new_Ieee802Ctrl\<lparr>ctl_dest := gDest s1, ctl_etherType := ETHERTYPE_802_1_Q,
                          ctl_ppc := ppc, ctl_de := GOOSE_1Q_DE, ctl_vid := vid,
                          ctl_apptype := ETHERTYPE_GOOSE\<rparr>
        in Inr (s1\<lparr>gOut := gOut s1 @ [\<lparr>pk_kind = IEEE802CTRL_DATA, pk_byteLength = uint (totalLenght p),
                                      pk_ctrl = Some etherctrl, pk_data = PGoose p\<rparr>],
                   gSent := gSent s1 + 1\<rparr>)))))"

definition goose_getAlarmState :: "'o goose \<Rightarrow> bool" where
  "goose_getAlarmState s = gAlarm s"

text \<open>The common end of \<open>setAlarmState\<close> and of the retransmissions in \<open>receivePacket\<close>.\<close>

definition goose_retransmit :: "goose_par \<Rightarrow> simtime \<Rightarrow> 'o goose \<Rightarrow> 'o goose res" where
  "goose_retransmit par now s =
     (let s1 = goose_cancelNextPacket s;
          s2 = s1\<lparr>gSendInterval := gSInterval s1 / 32\<rparr>
      in bindR (goose_sendPacket par s2) (goose_scheduleNextPacket par now False))"

definition goose_setAlarmState :: "goose_par \<Rightarrow> simtime \<Rightarrow> 'o goose \<Rightarrow> 'o goose res" where
  "goose_setAlarmState par now s =
     (if goose_isGenerator par
      then goose_retransmit par now (s\<lparr>gAlarm := \<not> gAlarm s, gStChng := gStChng s + 1\<rparr>)
      else Inr s)"

section \<open>Receiving\<close>

datatype goose_reaction = Toggle | Retransmit | Ignore

text \<open>The loops over the known APPIDs; the first match decides.\<close>

fun inter_reaction :: "real \<Rightarrow> real list \<Rightarrow> real list \<Rightarrow> goose_reaction" where
  "inter_reaction frmAppID (pc # pcs) (com # coms) =
     (if frmAppID = pc then Toggle
      else if frmAppID = com then Retransmit
      else inter_reaction frmAppID pcs coms)"
| "inter_reaction frmAppID _ _ = Ignore"

fun appid_reaction :: "goose_reaction \<Rightarrow> real \<Rightarrow> real list \<Rightarrow> goose_reaction" where
  "appid_reaction r frmAppID [] = Ignore"
| "appid_reaction r frmAppID (i # is) = (if frmAppID = i then r else appid_reaction r frmAppID is)"

definition goose_reaction_to :: "'o goose \<Rightarrow> real \<Rightarrow> goose_reaction" where
  "goose_reaction_to s frmAppID =
     (if gNodeType s = ''inter'' then inter_reaction frmAppID (gPcAppID s) (gComAppID s)
      else if gNodeType s = ''com'' then appid_reaction Toggle frmAppID (gInterAppID s)
      else if gNodeType s = ''pc'' then appid_reaction Retransmit frmAppID (gInterAppID s)
      else Ignore)"

definition goose_data_bit :: "EtherGooseData \<Rightarrow> bool res" where
  "goose_data_bit p =
     (case goData p of [] \<Rightarrow> Inl (RuntimeError ''Array of size 1 indexed by 0'')
      | d # _ \<Rightarrow> Inr (goDataValue d AND 0x01 \<noteq> 0))"

definition goose_receivePacket ::
    "goose_par \<Rightarrow> simtime \<Rightarrow> 'o goose_payload cPacket \<Rightarrow> 'o goose \<Rightarrow> 'o goose res" where
  "goose_receivePacket par now msg s =
     (let s1 = s\<lparr>gReceived := gReceived s + 1\<rparr> in
      case pk_ctrl msg of
        None \<Rightarrow> Inl BadCast
      | Some etherctrl \<Rightarrow>
          if ctl_apptype etherctrl = ETHERTYPE_GOOSE \<and> goose_isGenerator par then
            (case pk_data msg of
               POther _ \<Rightarrow> Inl BadCast
             | PGoose frame \<Rightarrow>
                 bindR (goose_data_bit frame) (\<lambda>bit.
                   if bit \<noteq> gAlarm s1 then
                     (case goose_reaction_to s1 (real_of_int (uint (hdrAppID frame))) of
                        Toggle \<Rightarrow> goose_setAlarmState par now s1
                      | Retransmit \<Rightarrow> goose_retransmit par now s1
                      | Ignore \<Rightarrow> Inr s1)
                   else Inr s1))
          else Inr s1)"

section \<open>Events\<close>

text \<open>
  \<open>handleMessage\<close> for the self message, which has left the future event set, and for a packet.
\<close>

definition goose_handleTimer :: "goose_par \<Rightarrow> simtime \<Rightarrow> bool \<Rightarrow> 'o goose \<Rightarrow> 'o goose res" where
  "goose_handleTimer par now up s =
     (if \<not> up then Inl (RuntimeError ''Application is not running'')
      else case gTimer s of
        None \<Rightarrow> Inl NullDeref
      | Some t \<Rightarrow>
          let s1 = s\<lparr>gTimer := Some (t\<lparr>tm_at := None\<rparr>)\<rparr>;
              send = (\<lambda>s2. bindR (goose_sendPacket par s2) (goose_scheduleNextPacket par now False))
          in if tm_kind t = goose_START then
               bindR (goose_resolveDestMACAddress par) (\<lambda>dest.
                 let s2 = s1\<lparr>gDest := dest\<rparr> in
                 if isUnspecified dest then Inr s2 else send s2)
             else send s1)"

definition goose_handlePacket ::
    "goose_par \<Rightarrow> simtime \<Rightarrow> bool \<Rightarrow> 'o goose_payload cPacket \<Rightarrow> 'o goose \<Rightarrow> 'o goose res" where
  "goose_handlePacket par now up msg s =
     (if \<not> up then Inl (RuntimeError ''Application is not running'')
      else goose_receivePacket par now msg s)"

fun goose_handleOperationStage ::
    "goose_par \<Rightarrow> simtime \<Rightarrow> LifecycleOperation \<Rightarrow> nat \<Rightarrow> 'o goose \<Rightarrow> 'o goose res" where
  "goose_handleOperationStage par now NodeStartOperation stage s =
     (if stage = start_STAGE_APPLICATION_LAYER \<and> goose_isGenerator par
      then goose_scheduleNextPacket par now True s else Inr s)"
| "goose_handleOperationStage par now NodeShutdownOperation stage s =
     (if stage = shutdown_STAGE_APPLICATION_LAYER then Inr (goose_cancelNextPacket s) else Inr s)"
| "goose_handleOperationStage par now NodeCrashOperation stage s =
     (if stage = crash_STAGE_CRASH then Inr (goose_cancelNextPacket s) else Inr s)"
| "goose_handleOperationStage par now OtherOperation stage s =
     Inl (RuntimeError ''Unsupported lifecycle operation'')"

definition goose_finish :: "'o goose \<Rightarrow> 'o goose" where
  "goose_finish s = s\<lparr>gTimer := None\<rparr>"

text \<open>The events of a running module; \<open>Alarm\<close> is the call from the SV subscriber.\<close>

datatype 'o goose_event =
    TimerFires | PacketIn "'o goose_payload cPacket" | Alarm | Lifecycle LifecycleOperation nat

fun goose_enabled :: "simtime \<Rightarrow> 'o goose \<Rightarrow> 'o goose_event \<Rightarrow> bool" where
  "goose_enabled now s TimerFires \<longleftrightarrow> (\<exists>k. gTimer s = Some \<lparr>tm_kind = k, tm_at = Some now\<rparr>)"
| "goose_enabled now s _ \<longleftrightarrow> True"

text \<open>\<open>up\<close> is the node status at the time of the event; the call from the SV subscriber does not ask for it.\<close>

fun goose_exec :: "goose_par \<Rightarrow> simtime \<Rightarrow> bool \<Rightarrow> 'o goose \<Rightarrow> 'o goose_event \<Rightarrow> 'o goose res" where
  "goose_exec par now up s TimerFires = goose_handleTimer par now up s"
| "goose_exec par now up s (PacketIn msg) = goose_handlePacket par now up msg s"
| "goose_exec par now up s Alarm = goose_setAlarmState par now s"
| "goose_exec par now up s (Lifecycle op stage) = goose_handleOperationStage par now op stage s"

inductive goose_reach :: "goose_par \<Rightarrow> simtime \<Rightarrow> 'o goose \<Rightarrow> bool" for par where
  init: "goose_initialize par now up = Inr s \<Longrightarrow> goose_reach par now s"
| step: "goose_reach par now s \<Longrightarrow> now \<le> later \<Longrightarrow> goose_enabled later s e \<Longrightarrow>
    goose_exec par later up s e = Inr t \<Longrightarrow> goose_reach par later t"

section \<open>What a sent packet looks like\<close>

lemma make_refs_Inr:
  "make_goCbRef par = Inr cb \<longleftrightarrow> length (par_cbRef par) < 65
     \<and> cb = \<lparr>goCbRef_tag = GOOSE_OPTION 0, goCbRefSize = of_nat (length (par_cbRef par) + 1),
             goCbRefValue = par_cbRef par\<rparr>"
  "make_goDataSet par = Inr ds \<longleftrightarrow> length (par_dataSetRef par) < 65
     \<and> ds = \<lparr>goDataSetRef = GOOSE_OPTION 2, goDataSetRefSize = of_nat (length (par_dataSetRef par) + 1),
             goDataSetRefValue = par_dataSetRef par\<rparr>"
  "make_goID par = Inr gid \<longleftrightarrow> length (par_goID par) < 65
     \<and> gid = \<lparr>GoID_tag = GOOSE_OPTION 3, GoIDSize = of_nat (length (par_goID par) + 1),
              GoIDValue = par_goID par\<rparr>"
  by (auto simp: make_goCbRef_def make_goDataSet_def make_goID_def bindR_Inr_iff strcpy_buf_Inr
      GOOSE_MAX_REF_def)

lemma make_values_Inr:
  "make_goTTL s = Inr ttl \<longleftrightarrow> (\<exists>v. to_word (1000 * gSendInterval s) = Inr v
     \<and> ttl = \<lparr>goTtl_tag = GOOSE_OPTION 1, goTtlSize = 2, goTtlValue = v\<rparr>)"
  "make_goConfRev par = Inr cr \<longleftrightarrow> (\<exists>v. to_word (par_confRev par) = Inr v
     \<and> cr = \<lparr>goConfRev_tag = GOOSE_OPTION 8, goConfRevSize = 1, goConfRevValue = v\<rparr>)"
  "make_goNumDataSet par = Inr num \<longleftrightarrow> (\<exists>v. to_word (par_numDataSet par) = Inr v
     \<and> num = \<lparr>goNumDataSet_tag = GOOSE_OPTION 10, goNumDataSetSize = 1, goNumDataSetValue = v\<rparr>)"
  by (auto simp: make_goTTL_def make_goConfRev_def make_goNumDataSet_def bindR_Inr_iff)

lemmas make_const_defs = make_goUtc_def make_goStNum_def make_goSqNum_def make_goTst_def
  make_goNdsCom_def make_goData_def GOOSE_UTC_LENGHT_def

definition goose_refs :: "goose_par \<Rightarrow> nat" where
  "goose_refs par = length (par_cbRef par) + length (par_dataSetRef par) + length (par_goID par)"

lemma createGoosePacket_fields:
  assumes "createGoosePacket par s = Inr p"
  shows "goStNumValue (goStNum p) = gStChng s" and "goSqNumValue (goSqNum p) = word_of_int (gSeqNum s)"
    and "goData p = [make_goData s]" and "to_word (gMyAppID s) = Inr (hdrAppID p)"
    and "to_word (1000 * gSendInterval s) = Inr (goTtlValue (goTtl p))"
    and "map fst (apdu_fields p) = map GOOSE_OPTION [0..<11]"
  using assms
  by (auto simp: createGoosePacket_def bindR_Inr_iff Let_def make_refs_Inr make_values_Inr
      make_const_defs apdu_fields_def upt_conv_Cons GOOSE_OPTION_def)

lemma createGoosePacket_lengths:
  assumes "createGoosePacket par s = Inr p"
  shows "length (par_cbRef par) < 65" and "length (par_dataSetRef par) < 65" and "length (par_goID par) < 65"
    and "tlv_bytes (apdu_fields p) = goose_refs par + 41" and "tlv_bytes (data_fields p) = 3"
    and "goDataStartSize (goDataStart p) = 3"
    and "goPduLenght (apduStart p) = of_nat (goose_refs par + 48)"
    and "totalLenght p = of_nat (goose_refs par + 60)"
  using assms
  by (auto simp: createGoosePacket_def bindR_Inr_iff Let_def make_refs_Inr make_values_Inr
      make_const_defs apdu_fields_def data_fields_def tlv_bytes_def goose_refs_def ref_size)

lemma createGoosePacket_consistent:
  assumes "createGoosePacket par s = Inr p"
  shows "lengths_consistent p" and "unat (totalLenght p) = goose_refs par + 60" and "goose_refs par \<le> 192"
proof -
  note l = createGoosePacket_lengths [OF assms]
  show b: "goose_refs par \<le> 192" using l(1-3) by (simp add: goose_refs_def)
  show t: "unat (totalLenght p) = goose_refs par + 60"
    unfolding l(8) by (rule unat_u16_small) (use b in simp)
  have "unat (goPduLenght (apduStart p)) = goose_refs par + 48"
    unfolding l(7) by (rule unat_u16_small) (use b in simp)
  then show "lengths_consistent p" using l t by (simp add: lengths_consistent_def)
qed

section \<open>Effect of the operations\<close>

definition goose_packet :: "mac_addr \<Rightarrow> int \<Rightarrow> int \<Rightarrow> EtherGooseData \<Rightarrow> 'o goose_payload cPacket" where
  "goose_packet dest ppc vid p =
     \<lparr>pk_kind = IEEE802CTRL_DATA, pk_byteLength = uint (totalLenght p),
      pk_ctrl = Some (new_Ieee802Ctrl\<lparr>ctl_dest := dest, ctl_etherType := ETHERTYPE_802_1_Q,
                        ctl_ppc := ppc, ctl_de := GOOSE_1Q_DE, ctl_vid := vid,
                        ctl_apptype := ETHERTYPE_GOOSE\<rparr>),
      pk_data = PGoose p\<rparr>"

lemma goose_sendPacket_Inr:
  "goose_sendPacket par s = Inr t \<longleftrightarrow>
     (\<exists>p ppc vid. createGoosePacket par (s\<lparr>gSeqNum := gSeqNum s + 1\<rparr>) = Inr p
        \<and> to_signed 32 (gPpc s) = Inr ppc \<and> to_signed 32 (gVid s) = Inr vid
        \<and> t = s\<lparr>gSeqNum := gSeqNum s + 1, gOut := gOut s @ [goose_packet (gDest s) ppc vid p],
                gSent := gSent s + 1\<rparr>)"
  by (auto simp: goose_sendPacket_def bindR_Inr_iff Let_def goose_packet_def)

text \<open>What never changes after initialization.\<close>

definition goose_conf :: "goose_par \<Rightarrow> 'o goose \<Rightarrow> bool" where
  "goose_conf par s \<longleftrightarrow> gMyAppID s = par_myAppID par \<and> gPcAppID s = take 3 (par_pcAppID par)
     \<and> gInterAppID s = take 2 (par_interAppID par) \<and> gComAppID s = take 3 (par_comAppID par)
     \<and> gSInterval s = par_sendInterval par \<and> gPpc s = par_priority par \<and> gVid s = par_vlanid par
     \<and> gNodeType s = par_iedType par \<and> gStartTime s = par_startTime par
     \<and> gStopTime s = par_stopTime par"

text \<open>What was sent, as pairs of state number and value, and the sequence numbers.\<close>

fun goose_seen :: "'o goose_payload cPacket \<Rightarrow> (u32 \<times> bool) list" where
  "goose_seen pk = (case pk_data pk of
     PGoose p \<Rightarrow> [(goStNumValue (goStNum p), goData p \<noteq> [] \<and> goDataValue (hd (goData p)) AND 1 \<noteq> 0)]
   | POther _ \<Rightarrow> [])"

fun goose_sq :: "'o goose_payload cPacket \<Rightarrow> u32 list" where
  "goose_sq pk = (case pk_data pk of PGoose p \<Rightarrow> [goSqNumValue (goSqNum p)] | POther _ \<Rightarrow> [])"

declare goose_seen.simps [simp del] goose_sq.simps [simp del]

abbreviation goose_log :: "'o goose \<Rightarrow> (u32 \<times> bool) list" where
  "goose_log s \<equiv> concat (map goose_seen (gOut s))"

abbreviation goose_sqs :: "'o goose \<Rightarrow> u32 list" where
  "goose_sqs s \<equiv> concat (map goose_sq (gOut s))"

text \<open>From \<open>(st, b)\<close> on, the state number grows by one with every change of the value and only then.\<close>

fun st_chain :: "u32 \<Rightarrow> bool \<Rightarrow> (u32 \<times> bool) list \<Rightarrow> bool" where
  "st_chain st b [] = True"
| "st_chain st b ((st', b') # xs) \<longleftrightarrow> st' = (if b' = b then st else st + 1) \<and> st_chain st' b' xs"

lemma st_chain_snoc:
  "st_chain st b (xs @ [(st', b')]) \<longleftrightarrow> st_chain st b xs
     \<and> (case last ((st, b) # xs) of (l, lb) \<Rightarrow> st' = (if b' = lb then l else l + 1))"
  by (induction st b xs rule: st_chain.induct) auto

definition goose_numbered :: "'o goose \<Rightarrow> bool" where
  "goose_numbered s \<longleftrightarrow> st_chain 1 False (goose_log s)
     \<and> last ((1, False) # goose_log s) = (gStChng s, gAlarm s)
     \<and> goose_sqs s = map (\<lambda>i. of_nat (Suc i)) [0..<length (gOut s)]
     \<and> gSeqNum s = int (length (gOut s)) \<and> gSent s = int (length (gOut s))"

definition goose_interval :: "'o goose \<Rightarrow> bool" where
  "goose_interval s \<longleftrightarrow> (\<exists>k\<le>5. gSendInterval s = gSInterval s * 2 ^ k / 32)"

lemma goose_send_numbered:
  assumes "goose_sendPacket par s = Inr t"
    and "st_chain 1 False (goose_log s)" and "goose_sqs s = map (\<lambda>i. of_nat (Suc i)) [0..<length (gOut s)]"
    and "last ((1, False) # goose_log s) = (gStChng s, gAlarm s)
       \<or> last ((1, False) # goose_log s) = (gStChng s - 1, \<not> gAlarm s)"
    and "gSeqNum s = int (length (gOut s))" and "gSent s = int (length (gOut s))"
  shows "goose_numbered t"
proof -
  obtain p ppc vid where c: "createGoosePacket par (s\<lparr>gSeqNum := gSeqNum s + 1\<rparr>) = Inr p"
    and t: "t = s\<lparr>gSeqNum := gSeqNum s + 1, gOut := gOut s @ [goose_packet (gDest s) ppc vid p],
                gSent := gSent s + 1\<rparr>"
    using assms(1) by (auto simp: goose_sendPacket_Inr)
  have seen: "goose_seen (goose_packet (gDest s) ppc vid p :: 'a goose_payload cPacket) = [(gStChng s, gAlarm s)]"
    using createGoosePacket_fields(1,3) [OF c]
    by (simp add: goose_seen.simps goose_packet_def make_goData_def)
  have "goose_sq (goose_packet (gDest s) ppc vid p :: 'a goose_payload cPacket) = [of_nat (Suc (length (gOut s)))]"
    using createGoosePacket_fields(2) [OF c] assms(5)
    by (simp add: goose_sq.simps goose_packet_def add.commute)
  then have sqs: "goose_sqs t = goose_sqs s @ [of_nat (Suc (length (gOut s)))]" by (simp add: t)
  have log: "goose_log t = goose_log s @ [(gStChng s, gAlarm s)]" using seen by (simp add: t)
  have "st_chain 1 False (goose_log t)"
    unfolding log st_chain_snoc using assms(2,4) by (auto simp del: last.simps)
  moreover have "last ((1, False) # goose_log t) = (gStChng t, gAlarm t)" unfolding log by (simp add: t)
  moreover have "goose_sqs t = map (\<lambda>i. of_nat (Suc i)) [0..<length (gOut t)]"
    unfolding sqs assms(3) by (simp add: t)
  ultimately show ?thesis using assms(5,6) by (simp add: goose_numbered_def t)
qed

text \<open>The operations that do not send leave the log, the counters and the configuration alone.\<close>

lemma schedule_shape:
  assumes "goose_scheduleNextPacket par now start s = Inr t"
  shows "(\<exists>tm. t = s\<lparr>gTimer := tm\<rparr>) \<or>
    (\<exists>tm. t = s\<lparr>gTimer := tm, gSendInterval :=
       (if gSendInterval s < gSInterval s then gSendInterval s * 2 else gSendInterval s)\<rparr>)"
proof -
  obtain tm where tm: "gTimer s = Some tm"
    using assms by (auto simp: goose_scheduleNextPacket_def split: option.splits)
  obtain nx t1 where n: "(if start then (if now \<le> gStartTime s then gStartTime s else now, tm\<lparr>tm_kind := goose_START\<rparr>)
      else (now + env_simtime par (gSendInterval s), tm\<lparr>tm_kind := goose_NEXT\<rparr>)) = (nx, t1)"
    by fastforce
  show ?thesis
  proof (cases "gStopTime s < 0 \<or> nx < gStopTime s")
    case True
    then show ?thesis
      using assms by (simp only: goose_scheduleNextPacket_def tm option.case Let_def n prod.case if_True
          bindR_Inr_iff) blast
  next
    case False
    then show ?thesis
      using assms by (simp only: goose_scheduleNextPacket_def tm option.case Let_def n prod.case if_False
          sum.inject) blast
  qed
qed

lemma schedule_Inr:
  assumes "goose_scheduleNextPacket par now start s = Inr t"
  shows "gOut t = gOut s \<and> gSeqNum t = gSeqNum s \<and> gStChng t = gStChng s \<and> gAlarm t = gAlarm s
    \<and> gSent t = gSent s \<and> gDest t = gDest s \<and> gReceived t = gReceived s \<and> goose_conf par t = goose_conf par s
    \<and> gSInterval t = gSInterval s
    \<and> gSendInterval t \<in> {gSendInterval s, if gSendInterval s < gSInterval s then gSendInterval s * 2 else gSendInterval s}"
  using schedule_shape [OF assms] by (elim disjE exE) (simp_all add: goose_conf_def)

lemma cancel_simps [simp]:
  "gOut (goose_cancelNextPacket s) = gOut s" "gSeqNum (goose_cancelNextPacket s) = gSeqNum s"
  "gStChng (goose_cancelNextPacket s) = gStChng s" "gAlarm (goose_cancelNextPacket s) = gAlarm s"
  "gSent (goose_cancelNextPacket s) = gSent s" "gDest (goose_cancelNextPacket s) = gDest s"
  "gSInterval (goose_cancelNextPacket s) = gSInterval s"
  "gSendInterval (goose_cancelNextPacket s) = gSendInterval s"
  "gPpc (goose_cancelNextPacket s) = gPpc s" "gVid (goose_cancelNextPacket s) = gVid s"
  "gMyAppID (goose_cancelNextPacket s) = gMyAppID s" "gStopTime (goose_cancelNextPacket s) = gStopTime s"
  "gReceived (goose_cancelNextPacket s) = gReceived s" "gNodeType (goose_cancelNextPacket s) = gNodeType s"
  "gPcAppID (goose_cancelNextPacket s) = gPcAppID s" "gInterAppID (goose_cancelNextPacket s) = gInterAppID s"
  "gComAppID (goose_cancelNextPacket s) = gComAppID s" "gStartTime (goose_cancelNextPacket s) = gStartTime s"
  "goose_conf par (goose_cancelNextPacket s) = goose_conf par s"
  by (simp_all add: goose_cancelNextPacket_def cancelEvent_def goose_conf_def)

text \<open>The three facts that every event preserves.\<close>

definition goose_inv :: "goose_par \<Rightarrow> 'o goose \<Rightarrow> bool" where
  "goose_inv par s \<longleftrightarrow> goose_conf par s \<and> goose_numbered s \<and> goose_interval s"

lemma goose_interval_double:
  assumes "goose_interval s" and "gSInterval t = gSInterval s"
    and "gSendInterval t \<in> {gSendInterval s, if gSendInterval s < gSInterval s then gSendInterval s * 2 else gSendInterval s}"
  shows "goose_interval t"
proof -
  obtain k where k: "k \<le> 5" "gSendInterval s = gSInterval s * 2 ^ k / 32"
    using assms(1) by (auto simp: goose_interval_def)
  show ?thesis
  proof (cases "gSendInterval t = gSendInterval s")
    case False
    then have lt: "gSendInterval s < gSInterval s" and e: "gSendInterval t = gSendInterval s * 2"
      using assms(3) by (auto split: if_splits)
    have "k \<noteq> 5" using lt k by auto
    then show ?thesis using e k assms(2) by (auto simp: goose_interval_def intro!: exI [of _ "Suc k"])
  qed (use k assms(2) in \<open>auto simp: goose_interval_def\<close>)
qed

lemma goose_inv_schedule:
  "goose_inv par s \<Longrightarrow> goose_scheduleNextPacket par now start s = Inr t \<Longrightarrow> goose_inv par t"
  using schedule_Inr [of par now start s t] goose_interval_double [of s t]
  by (auto simp: goose_inv_def goose_numbered_def)

lemma goose_inv_frame:
  "goose_inv par (goose_cancelNextPacket s) = goose_inv par s"
  "goose_inv par (s\<lparr>gReceived := n\<rparr>) = goose_inv par s"
  "goose_inv par (s\<lparr>gDest := d\<rparr>) = goose_inv par s"
  "goose_inv par (s\<lparr>gTimer := x\<rparr>) = goose_inv par s"
  by (simp_all add: goose_inv_def goose_numbered_def goose_interval_def goose_conf_def)

lemma sendPacket_frame:
  assumes "goose_sendPacket par s = Inr t"
  shows "goose_conf par t = goose_conf par s \<and> goose_interval t = goose_interval s
    \<and> gStChng t = gStChng s \<and> gAlarm t = gAlarm s \<and> gTimer t = gTimer s \<and> gDest t = gDest s
    \<and> gSendInterval t = gSendInterval s \<and> gSInterval t = gSInterval s \<and> gStopTime t = gStopTime s"
  using assms by (auto simp: goose_sendPacket_Inr goose_conf_def goose_interval_def)

lemma goose_inv_send:
  assumes "goose_inv par s" and "goose_sendPacket par s = Inr t"
  shows "goose_inv par t"
proof -
  have "goose_numbered t"
    using assms goose_send_numbered [OF assms(2)] by (auto simp: goose_inv_def goose_numbered_def)
  then show ?thesis using assms sendPacket_frame [OF assms(2)] by (auto simp: goose_inv_def)
qed

text \<open>A retransmission after at most one change of the state.\<close>

lemma goose_inv_retransmit:
  assumes "goose_inv par s" and "goose_retransmit par now s' = Inr t"
    and "s' = s \<or> s' = s\<lparr>gAlarm := \<not> gAlarm s, gStChng := gStChng s + 1\<rparr>"
  shows "goose_inv par t"
proof -
  define u where "u = (goose_cancelNextPacket s')\<lparr>gSendInterval := gSInterval s' / 32\<rparr>"
  obtain v where v: "goose_sendPacket par u = Inr v" and t: "goose_scheduleNextPacket par now False v = Inr t"
    using assms(2) by (auto simp: goose_retransmit_def Let_def u_def)
  have "goose_numbered v"
    using assms(1,3) goose_send_numbered [OF v]
    by (auto simp: goose_inv_def goose_numbered_def u_def goose_cancelNextPacket_def cancelEvent_def simp del: last.simps)
  moreover have "goose_interval u" by (auto simp: goose_interval_def u_def intro!: exI [of _ 0])
  moreover have "goose_conf par u"
    using assms(1,3) by (auto simp: goose_inv_def goose_conf_def u_def goose_cancelNextPacket_def cancelEvent_def)
  ultimately have "goose_inv par v" using sendPacket_frame [OF v] by (simp add: goose_inv_def)
  then show ?thesis using goose_inv_schedule t by blast
qed

lemma goose_inv_alarm:
  "goose_inv par s \<Longrightarrow> goose_setAlarmState par now s = Inr t \<Longrightarrow> goose_inv par t"
  using goose_inv_retransmit [of par s now _ t]
  by (auto simp: goose_setAlarmState_def split: if_splits)

lemma goose_inv_receive:
  assumes "goose_inv par s" and "goose_receivePacket par now msg s = Inr t"
  shows "goose_inv par t"
proof -
  have "goose_inv par (s\<lparr>gReceived := gReceived s + 1\<rparr>)" using assms(1) by (simp add: goose_inv_frame)
  then show ?thesis
    using assms(2) goose_inv_alarm [of par "s\<lparr>gReceived := gReceived s + 1\<rparr>" now t]
      goose_inv_retransmit [of par "s\<lparr>gReceived := gReceived s + 1\<rparr>" now _ t]
    by (auto simp: goose_receivePacket_def bindR_Inr_iff Let_def
        split: option.splits if_splits goose_payload.splits goose_reaction.splits)
qed

lemma goose_inv_tick:
  "goose_inv par s \<Longrightarrow> bindR (goose_sendPacket par s) (goose_scheduleNextPacket par now b) = Inr t \<Longrightarrow>
   goose_inv par t"
  by (elim bindR_InrE) (blast intro: goose_inv_send goose_inv_schedule)

lemma goose_inv_timer:
  assumes "goose_inv par s" and "goose_handleTimer par now up s = Inr t"
  shows "goose_inv par t"
proof -
  obtain tm where tm: "gTimer s = Some tm"
    using assms(2) by (auto simp: goose_handleTimer_def split: if_splits option.splits)
  define u where "u = s\<lparr>gTimer := Some (tm\<lparr>tm_at := None\<rparr>)\<rparr>"
  have "goose_inv par u" and d: "goose_inv par (u\<lparr>gDest := d\<rparr>)" for d
    using assms(1) by (simp_all add: u_def goose_inv_frame)
  then show ?thesis
    using assms(2) goose_inv_tick [of par u now False t] goose_inv_tick [OF d, of _ now False t]
    by (auto simp: goose_handleTimer_def tm Let_def u_def [symmetric] bindR_Inr_iff split: if_splits)
qed

lemma goose_inv_exec:
  assumes "goose_inv par s" and "goose_exec par now up s e = Inr t"
  shows "goose_inv par t"
proof (cases e)
  case TimerFires
  then show ?thesis using assms goose_inv_timer by auto
next
  case (PacketIn msg)
  then show ?thesis using assms goose_inv_receive by (auto simp: goose_handlePacket_def split: if_splits)
next
  case Alarm
  then show ?thesis using assms goose_inv_alarm by auto
next
  case (Lifecycle op stage)
  then show ?thesis
    using assms goose_inv_schedule by (cases op) (auto simp: goose_inv_frame split: if_splits)
qed

lemma goose_inv_init: "goose_initialize par now up = Inr s \<Longrightarrow> goose_inv par s"
proof -
  assume "goose_initialize par now up = Inr s"
  then obtain s0 where s0: "goose_initialize0 par = Inr s0" and s: "goose_initialize3 par now up s0 = Inr s"
    by (auto simp: goose_initialize_def)
  have "goose_inv par s0"
    using s0 by (auto simp: goose_initialize0_def bindR_Inr_iff strcpy_buf_Inr goose_inv_def goose_conf_def
        goose_numbered_def goose_interval_def intro!: exI [of _ 5] split: if_splits)
  then show ?thesis
    using s goose_inv_schedule [of par "s0\<lparr>gTimer := Some \<lparr>tm_kind = 0, tm_at = None\<rparr>\<rparr>"]
    by (auto simp: goose_initialize3_def Let_def goose_inv_frame split: if_splits)
qed

lemma goose_reach_inv: "goose_reach par now s \<Longrightarrow> goose_inv par s"
  by (induction rule: goose_reach.induct) (auto intro: goose_inv_init goose_inv_exec)

section \<open>When sending succeeds\<close>

text \<open>The parameters fit the fields they are converted to.\<close>

definition goose_par_ok :: "goose_par \<Rightarrow> bool" where
  "goose_par_ok par \<longleftrightarrow> length (par_cbRef par) < 65 \<and> length (par_dataSetRef par) < 65
     \<and> length (par_goID par) < 65
     \<and> 0 \<le> trunc_real (par_myAppID par) \<and> trunc_real (par_myAppID par) < 65536
     \<and> 0 \<le> trunc_real (par_confRev par) \<and> trunc_real (par_confRev par) < 4294967296
     \<and> 0 \<le> trunc_real (par_numDataSet par) \<and> trunc_real (par_numDataSet par) < 256
     \<and> \<bar>trunc_real (par_priority par)\<bar> < 2147483648 \<and> \<bar>trunc_real (par_vlanid par)\<bar> < 2147483648
     \<and> 0 \<le> par_sendInterval par \<and> 1000 * par_sendInterval par < 65536"

lemma createGoosePacket_total:
  assumes "goose_par_ok par" and "gMyAppID s = par_myAppID par"
    and "0 \<le> gSendInterval s" and "gSendInterval s \<le> par_sendInterval par"
  shows "\<exists>p. createGoosePacket par s = Inr p"
proof -
  have "0 \<le> trunc_real (1000 * gSendInterval s)" and "trunc_real (1000 * gSendInterval s) < 65536"
    using assms by (auto simp: goose_par_ok_def trunc_real_def floor_less_iff)
  then obtain ttl :: u16 where t: "to_word (1000 * gSendInterval s) = Inr ttl"
    using to_word_defined [of "1000 * gSendInterval s", where 'a = 16] by auto
  obtain app :: u16 where a: "to_word (par_myAppID par) = Inr app"
    using assms(1) to_word_defined [of "par_myAppID par", where 'a = 16] by (auto simp: goose_par_ok_def)
  obtain cr :: u32 where c: "to_word (par_confRev par) = Inr cr"
    using assms(1) to_word_defined [of "par_confRev par", where 'a = 32] by (auto simp: goose_par_ok_def)
  obtain nd :: u8 where n: "to_word (par_numDataSet par) = Inr nd"
    using assms(1) to_word_defined [of "par_numDataSet par", where 'a = 8] by (auto simp: goose_par_ok_def)
  show ?thesis
    using assms(1,2) t a c n
    by (simp add: createGoosePacket_def make_goCbRef_def make_goTTL_def make_goDataSet_def make_goID_def
        make_goConfRev_def make_goNumDataSet_def strcpy_buf_def GOOSE_MAX_REF_def goose_par_ok_def Let_def)
qed

lemma goose_sendPacket_total:
  assumes "goose_par_ok par" and "goose_conf par s"
    and "0 \<le> gSendInterval s" and "gSendInterval s \<le> par_sendInterval par"
  shows "\<exists>t. goose_sendPacket par s = Inr t \<and> gOut t \<noteq> [] \<and> butlast (gOut t) = gOut s"
proof -
  obtain p where "createGoosePacket par (s\<lparr>gSeqNum := gSeqNum s + 1\<rparr>) = Inr p"
    using createGoosePacket_total [OF assms(1), of "s\<lparr>gSeqNum := gSeqNum s + 1\<rparr>"] assms
    by (auto simp: goose_conf_def)
  moreover have "to_signed 32 (par_priority par) = Inr (trunc_real (par_priority par))"
    and "to_signed 32 (par_vlanid par) = Inr (trunc_real (par_vlanid par))"
    using assms(1) by (auto simp: goose_par_ok_def to_signed_def Let_def)
  moreover have "gPpc s = par_priority par" and "gVid s = par_vlanid par"
    using assms(2) by (simp_all add: goose_conf_def)
  ultimately show ?thesis by (auto simp: goose_sendPacket_Inr)
qed

lemma goose_interval_bounds:
  assumes "goose_interval s" and "0 \<le> gSInterval s"
  shows "0 \<le> gSendInterval s" and "gSendInterval s \<le> gSInterval s"
proof -
  obtain k where k: "k \<le> 5" "gSendInterval s = gSInterval s * 2 ^ k / 32"
    using assms(1) by (auto simp: goose_interval_def)
  have "(2 :: real) ^ k \<le> 2 ^ 5" using k(1) by (intro power_increasing) simp_all
  then have "gSInterval s * 2 ^ k \<le> gSInterval s * 32" using assms(2) by (intro mult_left_mono) simp_all
  then show "gSendInterval s \<le> gSInterval s" by (simp add: k(2))
  show "0 \<le> gSendInterval s" using assms(2) by (simp add: k(2))
qed

section \<open>The retransmission schedule\<close>

text \<open>The times at which the timer fires when nothing else happens, \<open>n\<close> of them.\<close>

fun goose_fire :: "goose_par \<Rightarrow> nat \<Rightarrow> 'o goose \<Rightarrow> simtime list res" where
  "goose_fire par 0 s = Inr []"
| "goose_fire par (Suc n) s =
     (case gTimer s of
        None \<Rightarrow> Inl NullDeref
      | Some t \<Rightarrow>
          (case tm_at t of
             None \<Rightarrow> Inl (RuntimeError ''timer not scheduled'')
           | Some now \<Rightarrow>
               bindR (goose_handleTimer par now True s) (\<lambda>s'.
                 bindR (goose_fire par n s') (\<lambda>ts. Inr (now # ts)))))"

text \<open>The state between two retransmissions: the next one is at \<open>at\<close>, the interval after it the \<open>k\<close>-th.\<close>

definition goose_waiting :: "goose_par \<Rightarrow> nat \<Rightarrow> simtime \<Rightarrow> 'o goose \<Rightarrow> bool" where
  "goose_waiting par k at0 s \<longleftrightarrow> goose_conf par s \<and> gTimer s = Some \<lparr>tm_kind = goose_NEXT, tm_at = Some at0\<rparr>
     \<and> gSendInterval s = par_sendInterval par * 2 ^ min k 5 / 32"

lemma double_until:
  assumes "0 < S" and "x = S * 2 ^ min k 5 / 32"
  shows "(if x < S then x * 2 else x) = (S :: real) * 2 ^ min (Suc k) 5 / 32"
proof (cases "k < 5")
  case True
  then have "k = 0 \<or> k = 1 \<or> k = 2 \<or> k = 3 \<or> k = 4" by auto
  then show ?thesis using assms by (elim disjE) (simp_all add: min_def)
next
  case False
  then show ?thesis using assms by (simp add: min.absorb2)
qed

lemma tick_waiting:
  assumes ok: "goose_par_ok par" and st: "\<And>r. 0 \<le> r \<Longrightarrow> 0 \<le> env_simtime par r"
    and stop: "par_stopTime par < 0" and pos: "0 < par_sendInterval par" and c: "goose_conf par s"
    and tm: "gTimer s = Some \<lparr>tm_kind = kd, tm_at = None\<rparr>"
    and iv: "gSendInterval s = par_sendInterval par * 2 ^ min k 5 / 32"
  shows "\<exists>t. bindR (goose_sendPacket par s) (goose_scheduleNextPacket par now False) = Inr t
           \<and> goose_waiting par (Suc k) (now + env_simtime par (par_sendInterval par * 2 ^ min k 5 / 32)) t"
proof -
  have S: "gSInterval s = par_sendInterval par" using c by (simp add: goose_conf_def)
  have gi: "goose_interval s" using iv S by (auto simp: goose_interval_def intro!: exI [of _ "min k 5"])
  have b: "0 \<le> gSendInterval s" "gSendInterval s \<le> par_sendInterval par"
    using goose_interval_bounds [OF gi] S pos by simp_all
  obtain u where u: "goose_sendPacket par s = Inr u"
    using goose_sendPacket_total [OF ok c b] by blast
  note f = sendPacket_frame [OF u]
  have stu: "gStopTime u < 0" using f c stop by (simp add: goose_conf_def)
  define I where "I = (if gSendInterval u < gSInterval u then gSendInterval u * 2 else gSendInterval u)"
  define T where "T = now + env_simtime par (gSendInterval u)"
  have sch: "goose_scheduleNextPacket par now False u =
      Inr (u\<lparr>gTimer := Some \<lparr>tm_kind = goose_NEXT, tm_at = Some T\<rparr>, gSendInterval := I\<rparr>)"
    using f tm stu st [OF b(1)]
    by (simp add: goose_scheduleNextPacket_def scheduleAt_def Let_def I_def T_def)
  have I: "I = par_sendInterval par * 2 ^ min (Suc k) 5 / 32"
    using f S by (simp only: I_def double_until [OF pos iv])
  have T: "T = now + env_simtime par (par_sendInterval par * 2 ^ min k 5 / 32)"
    using f by (simp only: T_def iv)
  have "goose_conf par (u\<lparr>gTimer := x, gSendInterval := y\<rparr>)" for x y
    using f c by (simp add: goose_conf_def)
  then have "goose_waiting par (Suc k) T (u\<lparr>gTimer := Some \<lparr>tm_kind = goose_NEXT, tm_at = Some T\<rparr>,
      gSendInterval := I\<rparr>)"
    by (simp add: goose_waiting_def I)
  then show ?thesis using u sch unfolding T [symmetric] by simp
qed

lemma waiting_timer:
  assumes "goose_par_ok par" and "\<And>r. 0 \<le> r \<Longrightarrow> 0 \<le> env_simtime par r"
    and "par_stopTime par < 0" and "0 < par_sendInterval par" and w: "goose_waiting par k at0 s"
  shows "\<exists>t. goose_handleTimer par at0 True s = Inr t
    \<and> goose_waiting par (Suc k) (at0 + env_simtime par (par_sendInterval par * 2 ^ min k 5 / 32)) t"
proof -
  define u where "u = s\<lparr>gTimer := Some \<lparr>tm_kind = goose_NEXT, tm_at = None\<rparr>\<rparr>"
  have "goose_conf par u" and "gSendInterval u = par_sendInterval par * 2 ^ min k 5 / 32"
    using w by (simp_all add: goose_waiting_def u_def goose_conf_def)
  then obtain t where t: "bindR (goose_sendPacket par u) (goose_scheduleNextPacket par at0 False) = Inr t"
    and wt: "goose_waiting par (Suc k) (at0 + env_simtime par (par_sendInterval par * 2 ^ min k 5 / 32)) t"
    using tick_waiting [OF assms(1-4), of u goose_NEXT k at0] by (auto simp: u_def)
  have "goose_handleTimer par at0 True s = Inr t"
    using w t by (simp add: goose_handleTimer_def goose_waiting_def u_def goose_NEXT_def goose_START_def Let_def)
  with wt show ?thesis by blast
qed

lemma goose_fire_waiting:
  assumes "goose_par_ok par" and "\<And>r. 0 \<le> r \<Longrightarrow> 0 \<le> env_simtime par r"
    and "par_stopTime par < 0" and "0 < par_sendInterval par" and w: "goose_waiting par k at0 s"
  shows "goose_fire par n s = Inr (map (\<lambda>i. at0 +
           (\<Sum>j<i. env_simtime par (par_sendInterval par * 2 ^ min (k + j) 5 / 32))) [0..<n])"
  using w
proof (induction n arbitrary: k at0 s)
  case (Suc n)
  obtain t where h: "goose_handleTimer par at0 True s = Inr t"
    and wt: "goose_waiting par (Suc k) (at0 + env_simtime par (par_sendInterval par * 2 ^ min k 5 / 32)) t"
    using waiting_timer [OF assms(1-4) Suc.prems] by blast
  have sh: "(\<Sum>j<Suc i. env_simtime par (par_sendInterval par * 2 ^ min (k + j) 5 / 32)) =
      env_simtime par (par_sendInterval par * 2 ^ min k 5 / 32)
      + (\<Sum>j<i. env_simtime par (par_sendInterval par * 2 ^ min (Suc k + j) 5 / 32))" for i
    by (simp only: sum.lessThan_Suc_shift) simp
  have "goose_fire par (Suc n) s = Inr (at0 # map (\<lambda>i. at0 + env_simtime par (par_sendInterval par * 2 ^ min k 5 / 32) +
      (\<Sum>j<i. env_simtime par (par_sendInterval par * 2 ^ min (Suc k + j) 5 / 32))) [0..<n])"
    using Suc.prems Suc.IH [OF wt] h by (simp add: goose_waiting_def)
  moreover have "[0..<Suc n] = 0 # map Suc [0..<n]" by (simp add: upt_conv_Cons map_Suc_upt)
  ultimately show ?case by (simp add: comp_def sh add.assoc del: sum.lessThan_Suc upt_Suc)
qed simp

lemma retransmit_total:
  assumes "goose_par_ok par" and "\<And>r. 0 \<le> r \<Longrightarrow> 0 \<le> env_simtime par r"
    and "par_stopTime par < 0" and "0 < par_sendInterval par" and "goose_conf par s" and "gTimer s \<noteq> None"
  shows "\<exists>t. goose_retransmit par now s = Inr t
    \<and> goose_waiting par (Suc 0) (now + env_simtime par (par_sendInterval par * 2 ^ min 0 5 / 32)) t"
proof -
  define u where "u = (goose_cancelNextPacket s)\<lparr>gSendInterval := par_sendInterval par / 32\<rparr>"
  obtain kd where "gTimer u = Some \<lparr>tm_kind = kd, tm_at = None\<rparr>"
    using assms(6) by (cases "the (gTimer s)") (auto simp: u_def goose_cancelNextPacket_def cancelEvent_def)
  moreover have "goose_conf par u" using assms(5) by (simp add: u_def goose_conf_def)
  ultimately show ?thesis
    using tick_waiting [OF assms(1-4), of u kd 0 now] assms(5)
    by (auto simp: u_def goose_retransmit_def Let_def goose_conf_def)
qed

section \<open>Reactions\<close>

lemma inter_reaction_spec:
  "length pcs = length coms \<Longrightarrow> set pcs \<inter> set coms = {} \<Longrightarrow>
   inter_reaction frm pcs coms =
     (if frm \<in> set pcs then Toggle else if frm \<in> set coms then Retransmit else Ignore)"
  by (induction frm pcs coms rule: inter_reaction.induct) auto

lemma appid_reaction_spec: "appid_reaction r frm is = (if frm \<in> set is then r else Ignore)"
  by (induction "is") auto

lemma schedule_kind:
  assumes "goose_scheduleNextPacket par now False v = Inr t"
  shows "\<exists>y. gTimer t = Some \<lparr>tm_kind = goose_NEXT, tm_at = y\<rparr>"
proof (cases "gTimer v")
  case (Some tm)
  then show ?thesis
    using assms by (cases tm) (auto simp: goose_scheduleNextPacket_def scheduleAt_def Let_def
        split: if_splits)
qed (use assms in \<open>simp add: goose_scheduleNextPacket_def\<close>)

lemma retransmit_Inr:
  assumes "goose_retransmit par now s = Inr t"
  shows "gAlarm t = gAlarm s" and "length (gOut t) = length (gOut s) + 1" and "gReceived t = gReceived s"
    and "gStChng t = gStChng s" and "gDest t = gDest s"
    and "\<exists>pk. gOut t = gOut s @ [pk] \<and> map_option ctl_dest (pk_ctrl pk) = Some (gDest s)"
    and "\<exists>x. gTimer t = Some \<lparr>tm_kind = goose_NEXT, tm_at = x\<rparr>"
proof -
  define u where "u = (goose_cancelNextPacket s)\<lparr>gSendInterval := gSInterval s / 32\<rparr>"
  obtain v where v: "goose_sendPacket par u = Inr v" and t: "goose_scheduleNextPacket par now False v = Inr t"
    using assms by (auto simp: goose_retransmit_def Let_def u_def)
  note sc = schedule_Inr [OF t]
  show "gAlarm t = gAlarm s" and "length (gOut t) = length (gOut s) + 1" and "gReceived t = gReceived s"
    and "gStChng t = gStChng s" and "gDest t = gDest s"
    and "\<exists>pk. gOut t = gOut s @ [pk] \<and> map_option ctl_dest (pk_ctrl pk) = Some (gDest s)"
    using sc v by (auto simp: goose_sendPacket_Inr u_def goose_packet_def)
  show "\<exists>x. gTimer t = Some \<lparr>tm_kind = goose_NEXT, tm_at = x\<rparr>"
    using schedule_kind [OF t] .
qed

text \<open>The node follows the state of the sender of a packet with this APPID, or answers it.\<close>

definition goose_follows :: "'o goose \<Rightarrow> real \<Rightarrow> bool" where
  "goose_follows s frm \<longleftrightarrow> gNodeType s = ''inter'' \<and> frm \<in> set (gPcAppID s)
     \<or> gNodeType s = ''com'' \<and> frm \<in> set (gInterAppID s)"

definition goose_answers :: "'o goose \<Rightarrow> real \<Rightarrow> bool" where
  "goose_answers s frm \<longleftrightarrow> gNodeType s = ''inter'' \<and> frm \<in> set (gComAppID s)
     \<or> gNodeType s = ''pc'' \<and> frm \<in> set (gInterAppID s)"

lemma goose_reaction_spec:
  assumes "length (gPcAppID s) = length (gComAppID s)" and "set (gPcAppID s) \<inter> set (gComAppID s) = {}"
  shows "goose_reaction_to s frm =
     (if goose_follows s frm then Toggle else if goose_answers s frm then Retransmit else Ignore)"
  using inter_reaction_spec [OF assms]
  by (auto simp: goose_reaction_to_def appid_reaction_spec goose_follows_def goose_answers_def)

text \<open>Histories of events, each with its time and the node status.\<close>

fun goose_run :: "goose_par \<Rightarrow> 'o goose \<Rightarrow> (simtime \<times> bool \<times> 'o goose_event) list \<Rightarrow> 'o goose res" where
  "goose_run par s [] = Inr s"
| "goose_run par s ((now, up, e) # es) = bindR (goose_exec par now up s e) (\<lambda>t. goose_run par t es)"

fun is_lifecycle :: "'o goose_event \<Rightarrow> bool" where
  "is_lifecycle (Lifecycle _ _) = True"
| "is_lifecycle _ = False"

text \<open>The destination was never resolved, and the timer will not resolve it.\<close>

definition goose_unaddressed :: "'o goose \<Rightarrow> bool" where
  "goose_unaddressed s \<longleftrightarrow> gDest s = 0 \<and> (\<exists>x. gTimer s = Some \<lparr>tm_kind = goose_NEXT, tm_at = x\<rparr>)
     \<and> (\<forall>pk \<in> set (gOut s). map_option ctl_dest (pk_ctrl pk) = Some 0)"

lemma unaddressed_retransmit:
  assumes "goose_retransmit par now s = Inr t" and "gDest s = 0"
    and "\<forall>pk \<in> set (gOut s). map_option ctl_dest (pk_ctrl pk) = Some 0"
  shows "goose_unaddressed t"
  using retransmit_Inr(5-7) [OF assms(1)] assms(2,3) by (auto simp: goose_unaddressed_def)

lemma unaddressed_alarm:
  assumes "goose_setAlarmState par now s = Inr t" and "goose_isGenerator par" and "gDest s = 0"
    and "\<forall>pk \<in> set (gOut s). map_option ctl_dest (pk_ctrl pk) = Some 0"
  shows "goose_unaddressed t"
proof -
  have "goose_retransmit par now (s\<lparr>gAlarm := \<not> gAlarm s, gStChng := gStChng s + 1\<rparr>) = Inr t"
    using assms(1,2) by (simp add: goose_setAlarmState_def)
  then show ?thesis by (rule unaddressed_retransmit) (use assms(3,4) in simp_all)
qed

lemma unaddressed_timer:
  assumes "goose_unaddressed s" and "goose_handleTimer par now up s = Inr t"
  shows "goose_unaddressed t"
proof -
  obtain x where x: "gTimer s = Some \<lparr>tm_kind = goose_NEXT, tm_at = x\<rparr>"
    using assms(1) by (auto simp: goose_unaddressed_def)
  define u where "u = s\<lparr>gTimer := Some \<lparr>tm_kind = goose_NEXT, tm_at = None\<rparr>\<rparr>"
  obtain v where v: "goose_sendPacket par u = Inr v" and t: "goose_scheduleNextPacket par now False v = Inr t"
    using assms(2) x by (auto simp: goose_handleTimer_def u_def Let_def goose_NEXT_def goose_START_def
        split: if_splits)
  have "\<exists>y. gTimer t = Some \<lparr>tm_kind = goose_NEXT, tm_at = y\<rparr>" using schedule_kind [OF t] .
  then show ?thesis
    using schedule_Inr [OF t] v assms(1)
    by (auto simp: goose_unaddressed_def goose_sendPacket_Inr u_def goose_packet_def)
qed

lemma unaddressed_exec:
  assumes "goose_unaddressed s" and "goose_exec par now up s e = Inr t" and "\<not> is_lifecycle e"
    and "goose_isGenerator par"
  shows "goose_unaddressed t"
proof (cases e)
  case TimerFires
  then show ?thesis using assms unaddressed_timer by auto
next
  case (PacketIn msg)
  have f: "goose_unaddressed (s\<lparr>gReceived := n\<rparr>)" for n
    using assms(1) by (simp add: goose_unaddressed_def)
  then show ?thesis
    using assms PacketIn unaddressed_alarm [of par now "s\<lparr>gReceived := gReceived s + 1\<rparr>" t]
      unaddressed_retransmit [of par now "s\<lparr>gReceived := gReceived s + 1\<rparr>" t]
    by (auto simp: goose_handlePacket_def goose_receivePacket_def bindR_Inr_iff Let_def
        goose_unaddressed_def split: if_splits option.splits goose_payload.splits goose_reaction.splits)
next
  case Alarm
  then show ?thesis using assms unaddressed_alarm [of par now s t] by (auto simp: goose_unaddressed_def)
qed (use assms in simp)

lemma unaddressed_run:
  "goose_unaddressed s \<Longrightarrow> goose_run par s es = Inr t \<Longrightarrow> \<forall>(_, _, e) \<in> set es. \<not> is_lifecycle e \<Longrightarrow>
   goose_isGenerator par \<Longrightarrow> goose_unaddressed t"
proof (induction par s es rule: goose_run.induct)
  case (2 par s now up e es)
  then show ?case by (fastforce dest: unaddressed_exec)
qed simp

section \<open>Properties\<close>

text \<open>
  C37. Every GOOSE packet the code builds is consistent: the members carry the tags \<open>0x80\<close> to
  \<open>0x8A\<close> in order, the data length, the APDU length and the total length are the number of bytes
  the tags and sizes describe, and the total is at most 252.
\<close>

theorem goose_packet_consistent:
  assumes "createGoosePacket par s = Inr p"
  shows "lengths_consistent p \<and> map fst (apdu_fields p) = map GOOSE_OPTION [0..<11]
         \<and> unat (totalLenght p) \<le> 252"
  using createGoosePacket_consistent [OF assms] createGoosePacket_fields(6) [OF assms] by simp

text \<open>
  C38. Numbering: in every reachable state the packets sent have the sequence numbers 1, 2, 3 and
  so on (modulo \<open>2 ^ 32\<close>); the state number starts at 1 with value FALSE, and from packet to packet
  it grows by one exactly when the transmitted value changes.
\<close>

theorem goose_numbering:
  assumes "goose_reach par now s"
  shows "goose_sqs s = map (\<lambda>i. of_nat (Suc i)) [0..<length (gOut s)]
         \<and> st_chain 1 False (goose_log s) \<and> last ((1, False) # goose_log s) = (gStChng s, gAlarm s)"
  using goose_reach_inv [OF assms] by (simp only: goose_inv_def goose_numbered_def)

text \<open>
  The interval in use is always the configured one divided by 32, 16, 8, 4, 2 or 1.
\<close>

theorem goose_interval_steps:
  assumes "goose_reach par now s"
  shows "\<exists>k\<le>5. gSendInterval s = par_sendInterval par * 2 ^ k / 32"
  using goose_reach_inv [OF assms] by (auto simp: goose_inv_def goose_interval_def goose_conf_def)


text \<open>
  The publisher never stalls, when no stop time is set: while its timer is armed for a next packet, both the timer
  event and an alarm complete, send exactly one packet and leave the timer armed for a time that is not past.
\<close>

theorem goose_never_stalls:
  assumes "goose_reach par t0 s" and "goose_isGenerator par" and "goose_par_ok par"
    and "\<And>r. 0 \<le> r \<Longrightarrow> 0 \<le> env_simtime par r" and "par_stopTime par < 0" and "0 < par_sendInterval par"
    and "gTimer s = Some \<lparr>tm_kind = goose_NEXT, tm_at = Some due\<rparr>"
    and "goose_enabled now s e" and "e = TimerFires \<or> e = Alarm"
  shows "\<exists>t next_due. goose_exec par now True s e = Inr t \<and> length (gOut t) = length (gOut s) + 1
    \<and> gTimer t = Some \<lparr>tm_kind = goose_NEXT, tm_at = Some next_due\<rparr> \<and> now \<le> next_due"
proof -
  have c: "goose_conf par s" and iv: "goose_interval s"
    using goose_reach_inv [OF assms(1)] by (simp_all add: goose_inv_def)
  have later: "now \<le> now + env_simtime par (par_sendInterval par * 2 ^ min k 5 / 32)" for k
    using assms(4,6) by simp
  from assms(9) show ?thesis
  proof
    assume e: "e = Alarm"
    define u where "u = s\<lparr>gAlarm := \<not> gAlarm s, gStChng := gStChng s + 1\<rparr>"
    have "goose_conf par u" and "gTimer u \<noteq> None" using c assms(7) by (simp_all add: goose_conf_def u_def)
    from retransmit_total [OF assms(3-6) this, of now] show ?thesis
      using e assms(2) later [of 0] retransmit_Inr(2) [of par now u]
      by (auto simp: goose_setAlarmState_def goose_waiting_def u_def)
  next
    assume e: "e = TimerFires"
    define u where "u = s\<lparr>gTimer := Some \<lparr>tm_kind = goose_NEXT, tm_at = None\<rparr>\<rparr>"
    obtain k where k: "k \<le> 5" "gSendInterval s = par_sendInterval par * 2 ^ k / 32"
      using iv c by (auto simp: goose_interval_def goose_conf_def)
    then have "gSendInterval u = par_sendInterval par * 2 ^ min k 5 / 32" and "goose_conf par u"
      using c by (simp_all add: u_def goose_conf_def min.absorb1)
    then obtain t where t: "bindR (goose_sendPacket par u) (goose_scheduleNextPacket par now False) = Inr t"
      and w: "goose_waiting par (Suc k) (now + env_simtime par (par_sendInterval par * 2 ^ min k 5 / 32)) t"
      using tick_waiting [OF assms(3-6), of u goose_NEXT k now] by (auto simp: u_def)
    have "length (gOut t) = length (gOut s) + 1"
      using t schedule_Inr [of par now False _ t] by (auto simp: goose_sendPacket_Inr bindR_Inr_iff u_def)
    moreover have "goose_exec par now True s e = Inr t"
      using e t assms(7) by (simp add: goose_handleTimer_def u_def Let_def goose_NEXT_def goose_START_def)
    ultimately show ?thesis using w later [of k] by (auto simp: goose_waiting_def)
  qed
qed

text \<open>
  Receiving: a GOOSE packet whose value differs from the own state makes an interlocking IED
  take over the state of a protection IED, and a command IED that of an interlocking IED, each
  sending a packet at once; an interlocking IED answers a command IED and a protection IED answers
  an interlocking IED with a packet and keeps its state; all other packets change nothing.
\<close>

theorem goose_receive_by_role:
  assumes "goose_receivePacket par now msg s = Inr t" and "goose_isGenerator par"
    and "pk_ctrl msg = Some c" and "ctl_apptype c = ETHERTYPE_GOOSE"
    and "pk_data msg = PGoose p" and "goose_data_bit p = Inr val"
    and "length (gPcAppID s) = length (gComAppID s)" and "set (gPcAppID s) \<inter> set (gComAppID s) = {}"
  defines "frm \<equiv> real_of_int (uint (hdrAppID p))"
  shows "gAlarm t = (if goose_follows s frm then val else gAlarm s)
    \<and> length (gOut t) = length (gOut s)
        + (if val \<noteq> gAlarm s \<and> (goose_follows s frm \<or> goose_answers s frm) then 1 else 0)"
proof -
  define s1 where "s1 = s\<lparr>gReceived := gReceived s + 1\<rparr>"
  have r: "goose_reaction_to s1 frm =
      (if goose_follows s frm then Toggle else if goose_answers s frm then Retransmit else Ignore)"
    using goose_reaction_spec [of s1 frm] assms(7,8)
    by (simp add: s1_def goose_follows_def goose_answers_def)
  have "(if val \<noteq> gAlarm s1 then
           (case goose_reaction_to s1 (real_of_int (uint (hdrAppID p))) of
              Toggle \<Rightarrow> goose_setAlarmState par now s1
            | Retransmit \<Rightarrow> goose_retransmit par now s1 | Ignore \<Rightarrow> Inr s1)
         else Inr s1) = Inr t"
    using assms(1-6) unfolding goose_receivePacket_def Let_def s1_def [symmetric] by simp
  moreover have "gAlarm s1 = gAlarm s" by (simp add: s1_def)
  ultimately show ?thesis
    using assms(2) retransmit_Inr(1,2) [of par now _ t] unfolding frm_def [symmetric] r
    by (cases "val = gAlarm s"; cases "goose_follows s frm"; cases "goose_answers s frm")
      (auto simp: s1_def goose_setAlarmState_def)
qed

text \<open>
  The time allowed to live of a packet, in milliseconds, is the interval in use rounded down:
  it is never longer than the time to the next packet.
\<close>

theorem goose_ttl_not_beyond_next:
  assumes "createGoosePacket par s = Inr p" and "0 \<le> gSendInterval s"
  shows "real (unat (goTtlValue (goTtl p))) \<le> 1000 * gSendInterval s
    \<and> 1000 * gSendInterval s < real (unat (goTtlValue (goTtl p))) + 1"
proof -
  have "uint (goTtlValue (goTtl p)) = \<lfloor>1000 * gSendInterval s\<rfloor>"
    using createGoosePacket_fields(5) [OF assms(1)] assms(2) by (auto simp: to_word_Inr trunc_real_def)
  moreover have "real (unat (goTtlValue (goTtl p))) = real_of_int (uint (goTtlValue (goTtl p)))" by simp
  ultimately have "real (unat (goTtlValue (goTtl p))) = real_of_int \<lfloor>1000 * gSendInterval s\<rfloor>"
    by (simp only:)
  then show ?thesis by linarith
qed

text \<open>
  The 32 bit counters roll over to 0, the value the standard reserves: the packet after
  sequence number \<open>2 ^ 32 - 1\<close> has sequence number 0, and so has the state number after its
  largest value.
\<close>

theorem goose_counters_wrap:
  assumes "goose_sendPacket par s = Inr t" and "gSeqNum s = 2 ^ 32 - 1"
    and "goose_setAlarmState par now u = Inr v" and "goose_isGenerator par" and "gStChng u = - 1"
  shows "\<exists>pk. gOut t = gOut s @ [pk] \<and> goose_sq pk = [0] \<and> gStChng v = 0"
proof -
  obtain p ppc vid where c: "createGoosePacket par (s\<lparr>gSeqNum := gSeqNum s + 1\<rparr>) = Inr p"
    and t: "gOut t = gOut s @ [goose_packet (gDest s) ppc vid p]"
    using assms(1) by (auto simp: goose_sendPacket_Inr)
  have "goSqNumValue (goSqNum p) = word_of_int (2 ^ 32)"
    using createGoosePacket_fields(2) [OF c] assms(2) by simp
  also have "\<dots> = 0" by (simp add: word_of_int_eq_0_iff)
  finally have "goose_sq (goose_packet (gDest s) ppc vid p :: 'a goose_payload cPacket) = [0]"
    by (simp add: goose_sq.simps goose_packet_def)
  moreover have "gStChng v = 0"
    using assms(3-5) retransmit_Inr(4) [of par now _ v] by (auto simp: goose_setAlarmState_def)
  ultimately show ?thesis using t by blast
qed

text \<open>
  An alarm that comes before the first transmission cancels the start event, which alone
  resolves the destination: from then on, whatever packets and alarms come, every packet the module
  sends has the destination address 00:00:00:00:00:00.
\<close>

theorem goose_early_alarm_unaddressed:
  assumes "goose_initialize par t0 up = Inr s" and "goose_isGenerator par"
    and "goose_setAlarmState par t1 s = Inr s1"
    and "goose_run par s1 es = Inr t" and "\<forall>(_, _, e) \<in> set es. \<not> is_lifecycle e"
  shows "\<forall>pk \<in> set (gOut t). map_option ctl_dest (pk_ctrl pk) = Some 0"
proof -
  have "gDest s = 0 \<and> gOut s = []"
    using assms(1) by (auto simp: goose_initialize_def goose_initialize0_def goose_initialize3_def
        bindR_Inr_iff Let_def split: if_splits dest!: schedule_Inr)
  then have "goose_unaddressed s1" using unaddressed_alarm [OF assms(3,2)] by simp
  then show ?thesis using unaddressed_run [OF _ assms(4,5,2)] by (simp add: goose_unaddressed_def)
qed

section \<open>Witnesses\<close>

definition ied_par :: goose_par where
  "ied_par =
     \<lparr>par_destAddress = ''01:0C:CD:01:00:01'', par_startTime = 0, par_stopTime = -1,
      par_sendInterval = 16, par_iedType = ''inter'', par_cbRef = ''IED/LLN0'', par_dataSetRef = ''DS'',
      par_goID = ''ID'', par_myAppID = 16382, par_pcAppID = [1, 2, 3], par_interAppID = [4, 5],
      par_comAppID = [6, 7, 8], par_confRev = 1, par_numDataSet = 1, par_tst = True,
      par_ndsCom = False, par_priority = 4, par_vlanid = 0,
      env_simtime = (\<lambda>r. \<lfloor>r * 1000000000000\<rfloor>), env_module = (\<lambda>_. None)\<rparr>"

definition ied_state :: "unit goose" where
  "ied_state =
     \<lparr>gSeqNum = 0, gStChng = 1, gMyAppID = 16382, gPcAppID = [1, 2, 3], gInterAppID = [4, 5],
      gComAppID = [6, 7, 8], gAlarm = False, gSendInterval = 16, gSInterval = 16, gPpc = 4, gVid = 0,
      gDest = 0, gNodeType = ''inter'', gTimer = Some \<lparr>tm_kind = goose_START, tm_at = Some 0\<rparr>,
      gStartTime = 0, gStopTime = -1, gSent = 0, gReceived = 0, gOut = []\<rparr>"

lemma ied_init: "goose_initialize ied_par 0 True = Inr ied_state"
  by (simp add: goose_initialize_def goose_initialize0_def goose_initialize3_def goose_isGenerator_def
      goose_scheduleNextPacket_def scheduleAt_def strcpy_buf_def ied_par_def ied_state_def)

lemma ied_reach: "goose_reach ied_par 0 ied_state"
  by (rule goose_reach.init [OF ied_init])

lemma ied_ok: "goose_par_ok ied_par" "goose_isGenerator ied_par" "par_stopTime ied_par < 0"
    "0 < par_sendInterval ied_par" "0 \<le> r \<Longrightarrow> 0 \<le> env_simtime ied_par r"
  by (simp_all add: goose_par_ok_def goose_isGenerator_def ied_par_def)

text \<open>The interlocking IED after an alarm at time 7.\<close>

definition ied_alarm :: "unit goose" where
  "ied_alarm = projr (goose_setAlarmState ied_par 7 ied_state)"

lemma ied_conf: "goose_conf ied_par ied_state"
  using goose_reach_inv [OF ied_reach] by (simp add: goose_inv_def)

lemma ied_alarm: "goose_setAlarmState ied_par 7 ied_state = Inr ied_alarm"
    "goose_waiting ied_par 1 500000000007 ied_alarm"
proof -
  have "goose_conf ied_par (ied_state\<lparr>gAlarm := \<not> gAlarm ied_state, gStChng := gStChng ied_state + 1\<rparr>)"
    using ied_conf by (simp add: goose_conf_def)
  then obtain t where t: "goose_setAlarmState ied_par 7 ied_state = Inr t"
    and "goose_waiting ied_par (Suc 0) (7 + env_simtime ied_par (par_sendInterval ied_par * 2 ^ min 0 5 / 32)) t"
    using retransmit_total [OF ied_ok(1,5,3,4), of _ 7] ied_ok(2)
    by (fastforce simp: goose_setAlarmState_def ied_state_def)
  then show "goose_setAlarmState ied_par 7 ied_state = Inr ied_alarm"
      "goose_waiting ied_par 1 500000000007 ied_alarm"
    by (simp_all add: ied_alarm_def) (simp add: ied_par_def)
qed

lemma ied_alarm_reach: "goose_reach ied_par 7 ied_alarm"
  by (rule goose_reach.step [OF ied_reach, of 7 Alarm True]) (simp_all add: ied_alarm)

lemma goose_numbering_witness:
  "goose_sqs ied_alarm = map (\<lambda>i. of_nat (Suc i)) [0..<length (gOut ied_alarm)]
   \<and> st_chain 1 False (goose_log ied_alarm) \<and> last ((1, False) # goose_log ied_alarm) = (gStChng ied_alarm, gAlarm ied_alarm)"
  by (rule goose_numbering [OF ied_alarm_reach])

lemma goose_interval_steps_witness:
  "\<exists>k\<le>5. gSendInterval ied_alarm = par_sendInterval ied_par * 2 ^ k / 32"
  by (rule goose_interval_steps [OF ied_alarm_reach])

lemma goose_never_stalls_witness:
  "\<exists>t next_due. goose_exec ied_par 500000000007 True ied_alarm TimerFires = Inr t
    \<and> length (gOut t) = length (gOut ied_alarm) + 1
    \<and> gTimer t = Some \<lparr>tm_kind = goose_NEXT, tm_at = Some next_due\<rparr> \<and> 500000000007 \<le> next_due"
  by (rule goose_never_stalls [OF ied_alarm_reach ied_ok(2,1,5,3,4), of 500000000007])
    (use ied_alarm(2) in \<open>simp_all add: goose_waiting_def\<close>)

lemma goose_early_alarm_unaddressed_witness:
  "list_all (\<lambda>pk. map_option ctl_dest (pk_ctrl pk) = Some 0)
     (gOut (projr (goose_run ied_par ied_alarm [(500000000007, True, TimerFires)])))"
  unfolding list_all_iff
proof (rule goose_early_alarm_unaddressed [OF ied_init ied_ok(2) ied_alarm(1)])
  show "goose_run ied_par ied_alarm [(500000000007, True, TimerFires)] =
      Inr (projr (goose_run ied_par ied_alarm [(500000000007, True, TimerFires)]))"
    using waiting_timer [OF ied_ok(1,5,3,4) ied_alarm(2)] by auto
qed simp

definition wrapped :: "unit goose" where
  "wrapped = ied_state\<lparr>gSeqNum := 2 ^ 32 - 1, gStChng := - 1\<rparr>"

lemma goose_counters_wrap_witness:
  "\<exists>pk. gOut (projr (goose_sendPacket ied_par wrapped)) = gOut wrapped @ [pk] \<and> goose_sq pk = [0]
     \<and> gStChng (projr (goose_setAlarmState ied_par 7 wrapped)) = 0"
proof (rule goose_counters_wrap [OF _ _ _ ied_ok(2)])
  have c: "goose_conf ied_par wrapped" and "0 \<le> gSendInterval wrapped"
    and "gSendInterval wrapped \<le> par_sendInterval ied_par"
    using ied_conf by (simp_all add: wrapped_def goose_conf_def ied_state_def ied_par_def)
  then show "goose_sendPacket ied_par wrapped = Inr (projr (goose_sendPacket ied_par wrapped))"
    using goose_sendPacket_total [OF ied_ok(1)] by fastforce
  have "goose_conf ied_par (wrapped\<lparr>gAlarm := \<not> gAlarm wrapped, gStChng := gStChng wrapped + 1\<rparr>)"
    using c by (simp add: goose_conf_def)
  then show "goose_setAlarmState ied_par 7 wrapped = Inr (projr (goose_setAlarmState ied_par 7 wrapped))"
    using retransmit_total [OF ied_ok(1,5,3,4), of _ 7] ied_ok(2)
    by (fastforce simp: goose_setAlarmState_def wrapped_def ied_state_def)
qed (simp_all add: wrapped_def)

text \<open>A packet of the protection IED with APPID 1 and value TRUE.\<close>

definition trip_data :: EtherGooseData where
  "trip_data = projr (createGoosePacket ied_par (ied_state\<lparr>gMyAppID := 1, gAlarm := True\<rparr>))"

lemma trip_data: "goose_data_bit trip_data = Inr True" "uint (hdrAppID trip_data) = 1"
proof -
  have "\<exists>p. createGoosePacket (ied_par\<lparr>par_myAppID := 1\<rparr>) (ied_state\<lparr>gMyAppID := 1, gAlarm := True\<rparr>) = Inr p"
    by (rule createGoosePacket_total) (simp_all add: goose_par_ok_def ied_par_def ied_state_def)
  then have c: "createGoosePacket ied_par (ied_state\<lparr>gMyAppID := 1, gAlarm := True\<rparr>) = Inr trip_data"
    by (auto simp: createGoosePacket_def make_goCbRef_def make_goDataSet_def make_goID_def make_goTst_def
        make_goConfRev_def make_goNdsCom_def make_goNumDataSet_def trip_data_def ied_par_def)
  show "goose_data_bit trip_data = Inr True"
    using createGoosePacket_fields(3) [OF c] by (simp add: goose_data_bit_def make_goData_def)
  show "uint (hdrAppID trip_data) = 1"
    using createGoosePacket_fields(4) [OF c] by (simp add: to_word_Inr)
qed

lemma goose_receive_by_role_witness:
  "gAlarm (projr (goose_receivePacket ied_par 9 (goose_packet 0 4 0 trip_data) ied_state)) =
     (if goose_follows ied_state (real_of_int (uint (hdrAppID trip_data))) then True else gAlarm ied_state)
   \<and> length (gOut (projr (goose_receivePacket ied_par 9 (goose_packet 0 4 0 trip_data) ied_state))) =
       length (gOut ied_state) + (if True \<noteq> gAlarm ied_state
         \<and> (goose_follows ied_state (real_of_int (uint (hdrAppID trip_data)))
            \<or> goose_answers ied_state (real_of_int (uint (hdrAppID trip_data)))) then 1 else 0)"
proof (rule goose_receive_by_role [OF _ ied_ok(2)])
  have "\<exists>t. goose_retransmit ied_par 9 (ied_state\<lparr>gReceived := 1, gAlarm := True, gStChng := 2\<rparr>) = Inr t"
    using retransmit_total [OF ied_ok(1,5,3,4), of "ied_state\<lparr>gReceived := 1, gAlarm := True, gStChng := 2\<rparr>" 9]
      ied_conf by (auto simp: goose_conf_def ied_state_def)
  then have "\<exists>t. goose_receivePacket ied_par 9 (goose_packet 0 4 0 trip_data) ied_state = Inr t"
    using trip_data ied_ok(2)
    by (simp add: goose_receivePacket_def goose_packet_def goose_reaction_to_def goose_setAlarmState_def
        ied_state_def)
  then show "goose_receivePacket ied_par 9 (goose_packet 0 4 0 trip_data) ied_state =
      Inr (projr (goose_receivePacket ied_par 9 (goose_packet 0 4 0 trip_data) ied_state))"
    by auto
  show "goose_data_bit trip_data = Inr True" by (rule trip_data(1))
qed ((simp_all add: goose_packet_def ied_state_def)+)


lemma goose_packet_consistent_witness:
  "lengths_consistent (projr (createGoosePacket ied_par ied_state))
   \<and> map fst (apdu_fields (projr (createGoosePacket ied_par ied_state))) = map GOOSE_OPTION [0..<11]
   \<and> unat (totalLenght (projr (createGoosePacket ied_par ied_state))) \<le> 252"
proof (rule goose_packet_consistent)
  have "\<exists>p. createGoosePacket ied_par ied_state = Inr p"
    by (rule createGoosePacket_total [OF ied_ok(1)]) (simp_all add: ied_par_def ied_state_def)
  then show "createGoosePacket ied_par ied_state = Inr (projr (createGoosePacket ied_par ied_state))"
    by auto
qed

lemma goose_ttl_not_beyond_next_witness:
  "real (unat (goTtlValue (goTtl (projr (createGoosePacket ied_par ied_state))))) \<le> 1000 * gSendInterval ied_state
   \<and> 1000 * gSendInterval ied_state < real (unat (goTtlValue (goTtl (projr (createGoosePacket ied_par ied_state))))) + 1"
proof (rule goose_ttl_not_beyond_next)
  have "\<exists>p. createGoosePacket ied_par ied_state = Inr p"
    by (rule createGoosePacket_total [OF ied_ok(1)]) (simp_all add: ied_par_def ied_state_def)
  then show "createGoosePacket ied_par ied_state = Inr (projr (createGoosePacket ied_par ied_state))"
    by auto
qed (simp add: ied_state_def)

end
