(* ===== verification/EtherAppSv.thy ===== *)
theory EtherAppSv
  imports EtherAppGoose
begin

text \<open>
  \<open>applications/ethernet/EtherAppSv\<close> with \<open>EtherSvStruct.h\<close> and \<open>EtherSv.msg\<close>: the publisher of
  sampled values in a merging unit and their subscriber in a protection IED. The subscriber calls
  \<open>getAlarmState\<close> and \<open>setAlarmState\<close> of the GOOSE module of its IED; these calls are parameters of
  the receiving operation and the contract it relies on is the locale \<open>alarm_module\<close>, which
  \<open>EtherAppGoose\<close> provides.
\<close>

section \<open>Structures\<close>

definition DANGER_PHASE_CURRENT_VALUE :: int where "DANGER_PHASE_CURRENT_VALUE = 120000"
definition DANGER_PHASE_VOLTAGE_VALUE :: int where "DANGER_PHASE_VOLTAGE_VALUE = 136000"
definition SV_HEADER_APP_ID :: u16 where "SV_HEADER_APP_ID = 0x4000"
definition SV_HEADER_RESERVED1 :: u16 where "SV_HEADER_RESERVED1 = 0x8000"
definition SV_HEADER_RESERVED2 :: u16 where "SV_HEADER_RESERVED2 = 0"
definition SV_START_OF_APDU_TAG :: u8 where "SV_START_OF_APDU_TAG = 0x60"
definition SV_LENGTH_TAG :: u8 where "SV_LENGTH_TAG = 0x82"
definition SV_CONS_LENGTH_TAG :: u8 where "SV_CONS_LENGTH_TAG = 0xA2"
definition SV_ASDU_SEQ_LENGTH_TAG :: u8 where "SV_ASDU_SEQ_LENGTH_TAG = 0x30"
definition SV_MAX_ID :: nat where "SV_MAX_ID = 65"
definition SV_1Q_DE :: bool where "SV_1Q_DE = False"

text \<open>\<open>SV_CONTEXT_SPECIFIC_OPTION0\<close>, \<open>2\<close>, \<open>3\<close>, \<open>5\<close> and \<open>7\<close>.\<close>

definition SV_OPTION :: "nat \<Rightarrow> u8" where "SV_OPTION k = 0x80 + of_nat k"

record stAPDUStart =
  savPdu :: u8
  savPduSize :: u8
  savPduValue :: u16

record stNoASDU =
  noASDU_tag :: u8
  noASDUSize :: u8
  noASDUValue :: u16

record stASDUseqStart =
  seqSASDU :: u8
  seqSASDUSize :: u8
  seqSASDUValue :: u16

record stIndASDUseqStart =
  seqASDU :: u8
  seqASDUSize :: u8

record stSvID =
  svID_tag :: u8
  svIDSize :: u8
  svIDValue :: string

record stSmpCnt =
  smpCnt_tag :: u8
  smpCntSize :: u8
  smpCntValue :: u16

record stConfRev =
  confRev_tag :: u8
  confRevSize :: u8
  confRevValue :: u32

record stSmpSynch =
  smpSynch_tag :: u8
  smpSynchSize :: u8
  smpSynchValue :: u8

record stDataSetStart =
  dataSet_tag :: u8
  dataSetSize :: u8

text \<open>The quality bytes, of which every field is set to zero, are one word of 32 bits.\<close>

record stAData =
  aValue :: int
  quality :: u32

text \<open>\<open>sizeof(stAData)\<close>: four bytes of value, four of quality.\<close>

definition sizeof_stAData :: nat where "sizeof_stAData = 8"

record EtherSvData =
  sv_hdrAppID :: u16
  sv_totalLenght :: u16
  sv_reserved1 :: u16
  sv_reserved2 :: u16
  sv_apduStart :: stAPDUStart
  asduNumber :: stNoASDU
  asduSeqStart :: stASDUseqStart
  firstAsdu :: stIndASDUseqStart
  svID :: stSvID
  smpCnt :: stSmpCnt
  confRev :: stConfRev
  smpSynch :: stSmpSynch
  dataSetStart :: stDataSetStart
  phsMeasOne :: "stAData list"

section \<open>Parameters and state\<close>

text \<open>\<open>env_inUnit\<close> is \<open>SimTime::inUnit(-6)\<close>, the value in microseconds.\<close>

record sv_par =
  spar_destAddress :: string
  spar_startTime :: simtime
  spar_stopTime :: simtime
  spar_sendInterval :: real
  spar_sampleInterval :: real
  spar_samplingRate :: real
  spar_noASDU :: real
  spar_cbID :: string
  spar_confRev :: real
  spar_synchValue :: real
  spar_priority :: real
  spar_vlanid :: real
  senv_simtime :: "real \<Rightarrow> simtime"
  senv_inUnit :: "simtime \<Rightarrow> int"
  senv_module :: "string \<Rightarrow> string option option"

definition sv_START :: int where "sv_START = 100"
definition sv_NEXT :: int where "sv_NEXT = 101"
definition sv_SAMPLE :: int where "sv_SAMPLE = 102"

datatype 'o sv_payload = PSv EtherSvData | PNotSv 'o

text \<open>
  \<open>svSamples\<close> is \<open>None\<close> until \<open>getSinValue\<close> has written the two arrays; \<open>svDelays\<close> logs the values
  emitted on \<open>eteDelaySignal\<close>.
\<close>

record 'o sv =
  svSeqNum :: int
  svSampleInterval :: real
  svSamplingRate :: real
  svPpc :: int
  svVid :: int
  svAlarm :: bool
  svSamples :: "(real list \<times> real list) option"
  svDest :: mac_addr
  svTimerMsg :: "app_timer option"
  svTimerSmp :: "app_timer option"
  svStartTime :: simtime
  svStopTime :: simtime
  svEteAvg :: int
  svSent :: int
  svReceived :: int
  svDelays :: "int list"
  svOut :: "'o sv_payload cPacket list"

definition sv_isGenerator :: "sv_par \<Rightarrow> bool" where
  "sv_isGenerator par \<longleftrightarrow> spar_sendInterval par \<noteq> 0"

section \<open>Timers\<close>

definition sv_scheduleNextSample :: "sv_par \<Rightarrow> simtime \<Rightarrow> bool \<Rightarrow> 'o sv \<Rightarrow> 'o sv res" where
  "sv_scheduleNextSample par cur start s =
     (let due = (if start then (if cur \<le> svStartTime s then svStartTime s else cur)
                 else cur + senv_simtime par (svSampleInterval s))
      in case svTimerSmp s of
           None \<Rightarrow> Inl NullDeref
         | Some t \<Rightarrow>
             let t1 = t\<lparr>tm_kind := sv_SAMPLE\<rparr>
             in if svStopTime s < 0 \<or> due < svStopTime s
                then bindR (scheduleAt cur due t1) (\<lambda>t2. Inr (s\<lparr>svTimerSmp := Some t2\<rparr>))
                else Inr (s\<lparr>svTimerSmp := Some t1\<rparr>))"

definition sv_scheduleNextPacket :: "sv_par \<Rightarrow> simtime \<Rightarrow> bool \<Rightarrow> 'o sv \<Rightarrow> 'o sv res" where
  "sv_scheduleNextPacket par cur start s =
     (case svTimerMsg s of
        None \<Rightarrow> Inl NullDeref
      | Some t \<Rightarrow>
          let (due, t1) =
            (if start
             then (if cur \<le> svStartTime s then svStartTime s else cur, t\<lparr>tm_kind := sv_START\<rparr>)
             else (cur + senv_simtime par (spar_sendInterval par), t\<lparr>tm_kind := sv_NEXT\<rparr>))
          in if svStopTime s < 0 \<or> due < svStopTime s
             then bindR (scheduleAt cur due t1) (\<lambda>t2. Inr (s\<lparr>svTimerMsg := Some t2\<rparr>))
             else Inr (s\<lparr>svTimerMsg := Some t1\<rparr>))"

definition sv_cancelNextPacket :: "'o sv \<Rightarrow> 'o sv" where
  "sv_cancelNextPacket s = s\<lparr>svTimerMsg := map_option cancelEvent (svTimerMsg s)\<rparr>"

definition sv_cancelNextSample :: "'o sv \<Rightarrow> 'o sv" where
  "sv_cancelNextSample s = s\<lparr>svTimerSmp := map_option cancelEvent (svTimerSmp s)\<rparr>"

section \<open>Initialization\<close>

definition sv_initialize0 :: "sv_par \<Rightarrow> 'o sv res" where
  "sv_initialize0 par =
     bindR (to_signed 32 (spar_priority par)) (\<lambda>ppc.
     bindR (to_signed 32 (spar_vlanid par)) (\<lambda>vid.
       if spar_stopTime par \<ge> 0 \<and> spar_stopTime par < spar_startTime par
       then Inl (RuntimeError ''Invalid startTime/stopTime parameters'')
       else Inr \<lparr>svSeqNum = 0, svSampleInterval = spar_sampleInterval par,
                 svSamplingRate = spar_samplingRate par, svPpc = ppc, svVid = vid, svAlarm = False,
                 svSamples = None, svDest = 0, svTimerMsg = None, svTimerSmp = None,
                 svStartTime = spar_startTime par, svStopTime = spar_stopTime par, svEteAvg = 0,
                 svSent = 0, svReceived = 0, svDelays = [], svOut = []\<rparr>))"

text \<open>\<open>goose_found\<close>: the path \<open>pcIed\<close> leads to an \<open>EtherAppGoose\<close> module.\<close>

definition sv_initialize3 :: "sv_par \<Rightarrow> simtime \<Rightarrow> bool \<Rightarrow> bool \<Rightarrow> 'o sv \<Rightarrow> 'o sv res" where
  "sv_initialize3 par now up goose_found s =
     (if sv_isGenerator par then
        let s1 = s\<lparr>svTimerSmp := Some \<lparr>tm_kind = 0, tm_at = None\<rparr>,
                   svTimerMsg := Some \<lparr>tm_kind = 0, tm_at = None\<rparr>\<rparr>
        in if up then bindR (sv_scheduleNextSample par now True s1) (sv_scheduleNextPacket par now True)
           else Inr s1
      else if goose_found then Inr s else Inl BadCast)"

definition sv_initialize :: "sv_par \<Rightarrow> simtime \<Rightarrow> bool \<Rightarrow> bool \<Rightarrow> 'o sv res" where
  "sv_initialize par now up goose_found =
     bindR (sv_initialize0 par) (sv_initialize3 par now up goose_found)"

definition sv_resolveDestMACAddress :: "sv_par \<Rightarrow> mac_addr res" where
  "sv_resolveDestMACAddress par =
     (let destAddress = spar_destAddress par in
      if destAddress \<noteq> [] then
        (case tryParse 0 destAddress of
           (True, a) \<Rightarrow> Inr a
         | (False, a) \<Rightarrow>
             (case senv_module par destAddress of
                None \<Rightarrow> Inl (RuntimeError ''cannot resolve MAC address'')
              | Some None \<Rightarrow> Inl (RuntimeError ''module has no mac submodule'')
              | Some (Some addr) \<Rightarrow> setAddress a addr))
      else Inr 0)"

section \<open>Samples\<close>

text \<open>
  A sampling rate of zero makes the argument of \<open>sin\<close> infinite; the value that results converts to
  no integer, which is an error value here.
\<close>

definition sv_getSinValue :: "'o sv \<Rightarrow> 'o sv res" where
  "sv_getSinValue s =
     (if svSamplingRate s = 0 then Inl UndefinedConversion
      else
        let currentValue = 10 * sin ((120 * pi / svSamplingRate s) * real_of_int (svSeqNum s));
            currentValue = 1000 * currentValue;
            voltageValue = 12 * currentValue
        in Inr (s\<lparr>svSamples := Some (replicate 4 currentValue, replicate 4 voltageValue)\<rparr>))"

definition sv_aValue :: "real list \<times> real list \<Rightarrow> nat \<Rightarrow> real" where
  "sv_aValue samples i = (if i < 4 then fst samples ! i else snd samples ! (i - 4))"

fun sv_measurements :: "real list \<times> real list \<Rightarrow> nat list \<Rightarrow> stAData list res" where
  "sv_measurements samples [] = Inr []"
| "sv_measurements samples (i # is) =
     bindR (to_signed 32 (sv_aValue samples i)) (\<lambda>v.
     bindR (sv_measurements samples is) (\<lambda>ms. Inr (\<lparr>aValue = v, quality = 0\<rparr> # ms)))"

definition createSvPacket :: "sv_par \<Rightarrow> 'o sv \<Rightarrow> EtherSvData res" where
  "createSvPacket par s =
     bindR (to_word (spar_noASDU par)) (\<lambda>numberASDU :: u8.
     bindR (strcpy_buf SV_MAX_ID (spar_cbID par)) (\<lambda>cbID.
     let noAsdu = \<lparr>noASDU_tag = SV_OPTION 0, noASDUSize = 1, noASDUValue = ucast numberASDU\<rparr>;
         asduId = \<lparr>svID_tag = SV_OPTION 0, svIDSize = of_nat (length (spar_cbID par) + 1), svIDValue = cbID\<rparr>;
         totalData = (0 :: u16) + 2 + ucast (svIDSize asduId);
         cnt = \<lparr>smpCnt_tag = SV_OPTION 2, smpCntSize = 2, smpCntValue = word_of_int (svSeqNum s)\<rparr>;
         totalData = totalData + 2 + ucast (smpCntSize cnt)
     in bindR (to_word (spar_confRev par)) (\<lambda>rev.
     let cr = \<lparr>confRev_tag = SV_OPTION 3, confRevSize = 4, confRevValue = rev\<rparr>;
         totalData = totalData + 2 + ucast (confRevSize cr)
     in bindR (to_word (spar_synchValue par)) (\<lambda>synch.
     let syn = \<lparr>smpSynch_tag = SV_OPTION 5, smpSynchSize = 1, smpSynchValue = synch\<rparr>;
         totalData = totalData + 2 + ucast (smpSynchSize syn)
     in case svSamples s of
          None \<Rightarrow> Inl UninitRead
        | Some samples \<Rightarrow>
     bindR (sv_measurements samples [0..<8]) (\<lambda>ms.
     let totalMess = (of_nat (length ms * sizeof_stAData) :: u16);
         dss = \<lparr>dataSet_tag = SV_OPTION 7, dataSetSize = ucast totalMess\<rparr>;
         totalData = totalData + 2 + totalMess;
         first = \<lparr>seqASDU = SV_ASDU_SEQ_LENGTH_TAG, seqASDUSize = ucast totalData\<rparr>;
         total = (0 :: u16) + 2 + ucast (seqASDUSize first);
         seq = \<lparr>seqSASDU = SV_CONS_LENGTH_TAG, seqSASDUSize = SV_LENGTH_TAG,
                seqSASDUValue = totalData + 2\<rparr>;
         total = total + 4;
         total = total + 2 + ucast (noASDUSize noAsdu);
         apdu = \<lparr>savPdu = SV_START_OF_APDU_TAG, savPduSize = SV_LENGTH_TAG, savPduValue = total\<rparr>;
         total = total + 4
     in Inr \<lparr>sv_hdrAppID = SV_HEADER_APP_ID, sv_totalLenght = total + 8,
             sv_reserved1 = SV_HEADER_RESERVED1, sv_reserved2 = SV_HEADER_RESERVED2,
             sv_apduStart = apdu, asduNumber = noAsdu, asduSeqStart = seq, firstAsdu = first,
             svID = asduId, smpCnt = cnt, confRev = cr, smpSynch = syn, dataSetStart = dss,
             phsMeasOne = ms\<rparr>)))))"

section \<open>Sending\<close>

definition sv_sendPacket :: "sv_par \<Rightarrow> 'o sv \<Rightarrow> 'o sv res" where
  "sv_sendPacket par s =
     bindR (createSvPacket par s) (\<lambda>p.
       let etherctrl = new_Ieee802Ctrl\<lparr>ctl_dest := svDest s, ctl_etherType := ETHERTYPE_802_1_Q,
                         ctl_ppc := svPpc s, ctl_de := SV_1Q_DE, ctl_vid := svVid s,
                         ctl_apptype := ETHERTYPE_SV\<rparr>
       in Inr (s\<lparr>svOut := svOut s @ [\<lparr>pk_kind = IEEE802CTRL_DATA, pk_byteLength = uint (sv_totalLenght p),
                                    pk_ctrl = Some etherctrl, pk_data = PSv p\<rparr>],
                 svSent := svSent s + 1,
                 svSeqNum := (if real_of_int (svSeqNum s) = svSamplingRate s then 0 else svSeqNum s + 1)\<rparr>))"

section \<open>Receiving\<close>

text \<open>The loop over the eight measurements: the index at which it breaks, or 8.\<close>

fun sv_scan :: "nat \<Rightarrow> stAData list \<Rightarrow> nat" where
  "sv_scan i [] = i"
| "sv_scan i (d # ds) =
     (if (i < 4 \<and> aValue d \<ge> DANGER_PHASE_CURRENT_VALUE) \<or> (i \<ge> 4 \<and> aValue d \<ge> DANGER_PHASE_VOLTAGE_VALUE)
      then i else sv_scan (Suc i) ds)"

text \<open>The delay statistics; \<open>created\<close> is the creation time of the message.\<close>

definition sv_delay :: "sv_par \<Rightarrow> simtime \<Rightarrow> simtime \<Rightarrow> EtherSvData \<Rightarrow> 'o sv \<Rightarrow> 'o sv res" where
  "sv_delay par now created frame s =
     (let s1 = s\<lparr>svEteAvg := svEteAvg s + senv_inUnit par (now - created)\<rparr> in
      if real_of_int (uint (smpCntValue (smpCnt frame))) = svSamplingRate s1 then
        (if svSamplingRate s1 = 0 then Inl UndefinedConversion
         else
           bindR (to_signed 64 (real_of_int (svEteAvg s1) / svSamplingRate s1)) (\<lambda>avg.
             Inr (s1\<lparr>svEteAvg := 0, svDelays := svDelays s1 @ [avg]\<rparr>)))
      else Inr s1)"

definition sv_test_hook :: "int \<Rightarrow> bool" where
  "sv_test_hook packetsReceived \<longleftrightarrow> packetsReceived = 5 \<or> packetsReceived mod 50000 = 0"

text \<open>
  The GOOSE module is its state \<open>g\<close> with the two calls. The result pairs the states of both
  modules.
\<close>

definition sv_process ::
    "('g \<Rightarrow> bool) \<Rightarrow> (simtime \<Rightarrow> 'g \<Rightarrow> 'g res) \<Rightarrow> simtime \<Rightarrow> EtherSvData \<Rightarrow> 'o sv \<Rightarrow> 'g
     \<Rightarrow> ('o sv \<times> 'g) res" where
  "sv_process getAlarmState setAlarmState now frame s g =
     (let i = sv_scan 0 (phsMeasOne frame);
          s1 = s\<lparr>svAlarm := getAlarmState g\<rparr>;
          s2 = (if sv_test_hook (svReceived s1) then s1\<lparr>svAlarm := True\<rparr> else s1)
      in if (i < 8 \<and> \<not> svAlarm s2) \<or> (i \<ge> 8 \<and> svAlarm s2)
         then bindR (setAlarmState now g) (\<lambda>g'. Inr (s2, g'))
         else Inr (s2, g))"

definition sv_receivePacket ::
    "('g \<Rightarrow> bool) \<Rightarrow> (simtime \<Rightarrow> 'g \<Rightarrow> 'g res) \<Rightarrow> sv_par \<Rightarrow> simtime \<Rightarrow> simtime
     \<Rightarrow> 'o sv_payload cPacket \<Rightarrow> 'o sv \<Rightarrow> 'g \<Rightarrow> ('o sv \<times> 'g) res" where
  "sv_receivePacket getAlarmState setAlarmState par now created msg s g =
     (if sv_isGenerator par then Inr (s, g)
      else case pk_ctrl msg of
        None \<Rightarrow> Inl BadCast
      | Some etherctrl \<Rightarrow>
          (case pk_data msg of
             PNotSv _ \<Rightarrow> Inl BadCast
           | PSv frame \<Rightarrow>
               bindR (sv_delay par now created frame (s\<lparr>svReceived := svReceived s + 1\<rparr>)) (\<lambda>s1.
                 if ctl_apptype etherctrl = ETHERTYPE_SV
                 then sv_process getAlarmState setAlarmState now frame s1 g
                 else Inr (s1, g))))"

section \<open>Events\<close>

definition sv_handleTimerMsg :: "sv_par \<Rightarrow> simtime \<Rightarrow> bool \<Rightarrow> 'o sv \<Rightarrow> 'o sv res" where
  "sv_handleTimerMsg par now up s =
     (if \<not> up then Inl (RuntimeError ''Application is not running'')
      else case svTimerMsg s of
        None \<Rightarrow> Inl NullDeref
      | Some t \<Rightarrow>
          let s1 = s\<lparr>svTimerMsg := Some (cancelEvent t)\<rparr>;
              send = (\<lambda>s2. bindR (sv_sendPacket par s2) (sv_scheduleNextPacket par now False))
          in if tm_kind t = sv_START then
               bindR (sv_resolveDestMACAddress par) (\<lambda>dest.
                 let s2 = s1\<lparr>svDest := dest\<rparr> in
                 if isUnspecified dest then Inr s2 else send s2)
             else send s1)"

definition sv_handleTimerSmp :: "sv_par \<Rightarrow> simtime \<Rightarrow> bool \<Rightarrow> 'o sv \<Rightarrow> 'o sv res" where
  "sv_handleTimerSmp par now up s =
     (if \<not> up then Inl (RuntimeError ''Application is not running'')
      else case svTimerSmp s of
        None \<Rightarrow> Inl NullDeref
      | Some t \<Rightarrow>
          bindR (sv_getSinValue (s\<lparr>svTimerSmp := Some (cancelEvent t)\<rparr>))
            (sv_scheduleNextSample par now False))"

definition sv_handlePacket ::
    "('g \<Rightarrow> bool) \<Rightarrow> (simtime \<Rightarrow> 'g \<Rightarrow> 'g res) \<Rightarrow> sv_par \<Rightarrow> simtime \<Rightarrow> bool \<Rightarrow> simtime
     \<Rightarrow> 'o sv_payload cPacket \<Rightarrow> 'o sv \<Rightarrow> 'g \<Rightarrow> ('o sv \<times> 'g) res" where
  "sv_handlePacket getAlarmState setAlarmState par now up created msg s g =
     (if \<not> up then Inl (RuntimeError ''Application is not running'')
      else sv_receivePacket getAlarmState setAlarmState par now created msg s g)"

fun sv_handleOperationStage ::
    "sv_par \<Rightarrow> simtime \<Rightarrow> LifecycleOperation \<Rightarrow> nat \<Rightarrow> 'o sv \<Rightarrow> 'o sv res" where
  "sv_handleOperationStage par now NodeStartOperation stage s =
     (if stage = start_STAGE_APPLICATION_LAYER \<and> sv_isGenerator par
      then bindR (sv_scheduleNextSample par now True s) (sv_scheduleNextPacket par now True)
      else Inr s)"
| "sv_handleOperationStage par now NodeShutdownOperation stage s =
     (if stage = shutdown_STAGE_APPLICATION_LAYER
      then Inr (sv_cancelNextPacket (sv_cancelNextSample s)) else Inr s)"
| "sv_handleOperationStage par now NodeCrashOperation stage s =
     (if stage = crash_STAGE_CRASH
      then Inr (sv_cancelNextPacket (sv_cancelNextSample s)) else Inr s)"
| "sv_handleOperationStage par now OtherOperation stage s =
     Inl (RuntimeError ''Unsupported lifecycle operation'')"

definition sv_finish :: "'o sv \<Rightarrow> 'o sv" where
  "sv_finish s = s\<lparr>svTimerMsg := None\<rparr>"

section \<open>What the subscriber relies on\<close>

text \<open>A call of \<open>setAlarmState\<close> flips the alarm state of an active GOOSE module.\<close>

locale alarm_module =
  fixes getAlarmState :: "'g \<Rightarrow> bool" and setAlarmState :: "simtime \<Rightarrow> 'g \<Rightarrow> 'g res" and active :: bool
  assumes set_flips: "\<And>now g g'. setAlarmState now g = Inr g' \<Longrightarrow>
    getAlarmState g' = (if active then \<not> getAlarmState g else getAlarmState g)"
begin

text \<open>Without the test hook the alarm state follows the measurements.\<close>

lemma process_tracks:
  assumes "sv_process getAlarmState setAlarmState now frame s g = Inr (s', g')" and "active"
    and "\<not> sv_test_hook (svReceived s)"
  shows "getAlarmState g' \<longleftrightarrow> sv_scan 0 (phsMeasOne frame) < 8"
  using assms set_flips
  by (auto simp: sv_process_def bindR_Inr_iff Let_def split: if_splits)

text \<open>With it, measurements in range toggle the state and measurements out of range leave it.\<close>

lemma process_hook:
  assumes "sv_process getAlarmState setAlarmState now frame s g = Inr (s', g')" and "active"
    and "sv_test_hook (svReceived s)"
  shows "getAlarmState g' =
    (if sv_scan 0 (phsMeasOne frame) < 8 then getAlarmState g else \<not> getAlarmState g)"
  using assms set_flips
  by (auto simp: sv_process_def bindR_Inr_iff Let_def split: if_splits)

end

interpretation ga: alarm_module goose_getAlarmState "goose_setAlarmState par" "goose_isGenerator par" for par
  by unfold_locales (auto simp: goose_setAlarmState_def goose_getAlarmState_def
      dest: retransmit_Inr(1) split: if_splits)

section \<open>Packets\<close>

lemma sv_measurements_Inr:
  "sv_measurements samples is = Inr ms \<longleftrightarrow>
   list_all2 (\<lambda>i m. to_signed 32 (sv_aValue samples i) = Inr (aValue m) \<and> quality m = 0) is ms"
proof (induction "is" arbitrary: ms)
  case (Cons i "is")
  have "sv_measurements samples (i # is) = Inr ms \<longleftrightarrow>
      (\<exists>v ns. to_signed 32 (sv_aValue samples i) = Inr v \<and> sv_measurements samples is = Inr ns
         \<and> ms = \<lparr>aValue = v, quality = 0\<rparr> # ns)"
    by (auto simp: bindR_Inr_iff)
  also have "\<dots> \<longleftrightarrow> (\<exists>m ns. ms = m # ns \<and> to_signed 32 (sv_aValue samples i) = Inr (aValue m)
      \<and> quality m = 0 \<and> sv_measurements samples is = Inr ns)"
    by (metis (full_types) stAData.select_convs(1,2) stAData.surjective old.unit.exhaust)
  finally show ?case using Cons.IH by (auto simp: list_all2_Cons1)
qed auto

text \<open>The members of the ASDU before the data set.\<close>

definition asdu_fields :: "EtherSvData \<Rightarrow> (u8 \<times> nat) list" where
  "asdu_fields p =
     [(svID_tag (svID p), unat (svIDSize (svID p))), (smpCnt_tag (smpCnt p), unat (smpCntSize (smpCnt p))),
      (confRev_tag (confRev p), unat (confRevSize (confRev p))),
      (smpSynch_tag (smpSynch p), unat (smpSynchSize (smpSynch p))),
      (dataSet_tag (dataSetStart p), unat (dataSetSize (dataSetStart p)))]"

text \<open>
  Nested lengths: the ASDU holds its members, the sequence of ASDUs the one ASDU with its tag and
  length, the APDU the number of ASDUs and the sequence, the total the APDU and 8 bytes of header.
\<close>

definition sv_lengths_consistent :: "EtherSvData \<Rightarrow> bool" where
  "sv_lengths_consistent p \<longleftrightarrow>
     unat (dataSetSize (dataSetStart p)) = 8 * length (phsMeasOne p)
     \<and> unat (seqASDUSize (firstAsdu p)) = tlv_bytes (asdu_fields p)
     \<and> unat (seqSASDUValue (asduSeqStart p)) = 2 + unat (seqASDUSize (firstAsdu p))
     \<and> unat (savPduValue (sv_apduStart p)) = 3 + 4 + unat (seqSASDUValue (asduSeqStart p))
     \<and> unat (sv_totalLenght p) = 8 + 4 + unat (savPduValue (sv_apduStart p))"

lemma asdu_size:
  assumes "n < 65"
  shows "(ucast (82 + word_of_nat n :: u16) :: u8) = 82 + word_of_nat n"
    and "(ucast (82 + word_of_nat n :: u8) :: u16) = 82 + word_of_nat n"
proof -
  have a: "82 + word_of_nat n = (word_of_nat (n + 82) :: u16)" and b: "82 + word_of_nat n = (word_of_nat (n + 82) :: u8)"
    by simp_all
  show "(ucast (82 + word_of_nat n :: u16) :: u8) = 82 + word_of_nat n"
    unfolding a b by (simp only: unsigned_of_nat) (use assms in \<open>simp add: take_bit_nat_eq_self\<close>)
  show "(ucast (82 + word_of_nat n :: u8) :: u16) = 82 + word_of_nat n"
    unfolding a b by (simp only: unsigned_of_nat) (use assms in \<open>simp add: take_bit_nat_eq_self\<close>)
qed

lemma createSvPacket_Inr:
  assumes "createSvPacket par s = Inr p"
  shows "length (spar_cbID par) < 65 \<and> length (phsMeasOne p) = 8
    \<and> map fst (asdu_fields p) = [0x80, 0x82, 0x83, 0x85, 0x87]
    \<and> tlv_bytes (asdu_fields p) = length (spar_cbID par) + 82
    \<and> dataSetSize (dataSetStart p) = 64
    \<and> seqASDUSize (firstAsdu p) = of_nat (length (spar_cbID par) + 82)
    \<and> seqSASDUValue (asduSeqStart p) = of_nat (length (spar_cbID par) + 84)
    \<and> savPduValue (sv_apduStart p) = of_nat (length (spar_cbID par) + 91)
    \<and> sv_totalLenght p = of_nat (length (spar_cbID par) + 103)
    \<and> smpCntValue (smpCnt p) = word_of_int (svSeqNum s)
    \<and> (\<exists>samples. svSamples s = Some samples \<and> sv_measurements samples [0..<8] = Inr (phsMeasOne p))"
proof -
  have l8: "length ms = 8" if "sv_measurements samples [0..<8] = Inr ms" for samples ms
    using that by (auto simp: sv_measurements_Inr dest: list_all2_lengthD)
  show ?thesis
    using assms
    by (auto simp: createSvPacket_def bindR_Inr_iff Let_def strcpy_buf_Inr SV_MAX_ID_def SV_OPTION_def
        asdu_fields_def tlv_bytes_def ref_size asdu_size sizeof_stAData_def l8 split: option.splits)
qed

lemma createSvPacket_consistent:
  assumes "createSvPacket par s = Inr p"
  shows "sv_lengths_consistent p" and "unat (sv_totalLenght p) = length (spar_cbID par) + 103"
    and "length (spar_cbID par) < 65"
proof -
  note c = createSvPacket_Inr [OF assms]
  show n: "length (spar_cbID par) < 65" using c by blast
  then have b: "length (spar_cbID par) + 103 < 65536" "length (spar_cbID par) + 91 < 65536"
    "length (spar_cbID par) + 84 < 65536" "length (spar_cbID par) + 82 < 256"
    by simp_all
  have t: "sv_totalLenght p = of_nat (length (spar_cbID par) + 103)"
    and u: "savPduValue (sv_apduStart p) = of_nat (length (spar_cbID par) + 91)"
    and v: "seqSASDUValue (asduSeqStart p) = of_nat (length (spar_cbID par) + 84)"
    and w: "seqASDUSize (firstAsdu p) = of_nat (length (spar_cbID par) + 82)"
    and x: "dataSetSize (dataSetStart p) = 64" and y: "tlv_bytes (asdu_fields p) = length (spar_cbID par) + 82"
    and z: "length (phsMeasOne p) = 8"
    using c by blast+
  show ut: "unat (sv_totalLenght p) = length (spar_cbID par) + 103"
    unfolding t by (rule unat_u16_small [OF b(1)])
  have uu: "unat (savPduValue (sv_apduStart p)) = length (spar_cbID par) + 91"
    unfolding u by (rule unat_u16_small [OF b(2)])
  have uv: "unat (seqSASDUValue (asduSeqStart p)) = length (spar_cbID par) + 84"
    unfolding v by (rule unat_u16_small [OF b(3)])
  have uw: "unat (seqASDUSize (firstAsdu p)) = length (spar_cbID par) + 82"
    unfolding w by (rule unat_u8_small [OF b(4)])
  show "sv_lengths_consistent p"
    unfolding sv_lengths_consistent_def ut uu uv uw x y z by simp
qed

section \<open>The samples that are published\<close>

definition samples_in_range :: "real list \<times> real list \<Rightarrow> bool" where
  "samples_in_range samples \<longleftrightarrow>
     (\<exists>c. \<bar>c\<bar> \<le> 10000 \<and> samples = (replicate 4 c, replicate 4 (12 * c)))"

lemma sv_getSinValue_range:
  assumes "sv_getSinValue s = Inr t"
  obtains samples where "samples_in_range samples" and "t = s\<lparr>svSamples := Some samples\<rparr>"
proof -
  define c where "c = 1000 * (10 * sin ((120 * pi / svSamplingRate s) * real_of_int (svSeqNum s)))"
  have "\<bar>c\<bar> \<le> 10000"
    using abs_sin_le_one [of "(120 * pi / svSamplingRate s) * real_of_int (svSeqNum s)"]
    by (simp add: c_def abs_mult)
  moreover have "t = s\<lparr>svSamples := Some (replicate 4 c, replicate 4 (12 * c))\<rparr>"
    using assms by (auto simp: sv_getSinValue_def Let_def c_def split: if_splits)
  ultimately show ?thesis using that by (auto simp: samples_in_range_def)
qed

lemma trunc_real_le: "r \<le> real_of_int k \<Longrightarrow> 0 \<le> k \<Longrightarrow> trunc_real r \<le> k"
  by (simp add: trunc_real_def) linarith

lemma sv_scan_ge:
  "(\<And>j. j < length ds \<Longrightarrow> aValue (ds ! j) <
      (if i + j < 4 then DANGER_PHASE_CURRENT_VALUE else DANGER_PHASE_VOLTAGE_VALUE))
   \<Longrightarrow> sv_scan i ds = i + length ds"
proof (induction ds arbitrary: i)
  case (Cons d ds)
  have "aValue (ds ! j) < (if Suc i + j < 4 then DANGER_PHASE_CURRENT_VALUE else DANGER_PHASE_VOLTAGE_VALUE)"
    if "j < length ds" for j
    using Cons.prems [of "Suc j"] that by simp
  then show ?case using Cons.IH [of "Suc i"] Cons.prems [of 0] by auto
qed simp

lemma published_in_range:
  assumes "createSvPacket par s = Inr p" and "svSamples s = Some samples" and "samples_in_range samples"
  shows "sv_scan 0 (phsMeasOne p) = 8"
proof -
  obtain c where c: "\<bar>c\<bar> \<le> 10000" "samples = (replicate 4 c, replicate 4 (12 * c))"
    using assms(3) by (auto simp: samples_in_range_def)
  have m: "sv_measurements samples [0..<8] = Inr (phsMeasOne p)" and l: "length (phsMeasOne p) = 8"
    using createSvPacket_Inr [OF assms(1)] assms(2) by auto
  have "aValue (phsMeasOne p ! j) < (if 0 + j < 4 then DANGER_PHASE_CURRENT_VALUE else DANGER_PHASE_VOLTAGE_VALUE)"
    if j: "j < length (phsMeasOne p)" for j
  proof -
    have "to_signed 32 (sv_aValue samples ([0..<8] ! j)) = Inr (aValue (phsMeasOne p ! j))"
      using m j unfolding sv_measurements_Inr by (auto dest: list_all2_nthD2)
    moreover have "[0..<8] ! j = j" using j l by simp
    ultimately have "aValue (phsMeasOne p ! j) = trunc_real (sv_aValue samples j)"
      by (auto simp: to_signed_def Let_def split: if_splits)
    moreover have "sv_aValue samples j \<le> (if j < 4 then 10000 else 120000)"
      using c j l by (auto simp: sv_aValue_def nth_append)
    ultimately show ?thesis
      using trunc_real_le [of "sv_aValue samples j" "if j < 4 then 10000 else 120000"]
      by (auto simp: DANGER_PHASE_CURRENT_VALUE_def DANGER_PHASE_VOLTAGE_VALUE_def split: if_splits)
  qed
  then show ?thesis using sv_scan_ge [of "phsMeasOne p" 0] l by simp
qed

section \<open>Runs of the module\<close>

text \<open>
  \<open>SendTimer\<close> and \<open>SampleTimer\<close> are the events of \<open>timerMsg\<close> and \<open>timerSmp\<close>; \<open>SvIn\<close> is a message
  from the lower layer with its creation time.
\<close>

datatype 'o sv_event = SendTimer | SampleTimer | SvIn simtime "'o sv_payload cPacket"
  | SvLifecycle LifecycleOperation nat

fun sv_enabled :: "simtime \<Rightarrow> 'o sv \<Rightarrow> 'o sv_event \<Rightarrow> bool" where
  "sv_enabled now s SendTimer \<longleftrightarrow> (\<exists>t. svTimerMsg s = Some t \<and> tm_at t = Some now)"
| "sv_enabled now s SampleTimer \<longleftrightarrow> (\<exists>t. svTimerSmp s = Some t \<and> tm_at t = Some now)"
| "sv_enabled now s (SvIn created msg) \<longleftrightarrow> created \<le> now"
| "sv_enabled now s (SvLifecycle op stage) \<longleftrightarrow> True"

fun sv_exec ::
    "('g \<Rightarrow> bool) \<Rightarrow> (simtime \<Rightarrow> 'g \<Rightarrow> 'g res) \<Rightarrow> sv_par \<Rightarrow> simtime \<Rightarrow> bool \<Rightarrow> 'o sv \<Rightarrow> 'g
     \<Rightarrow> 'o sv_event \<Rightarrow> ('o sv \<times> 'g) res" where
  "sv_exec ga sa par now up s g SendTimer = bindR (sv_handleTimerMsg par now up s) (\<lambda>t. Inr (t, g))"
| "sv_exec ga sa par now up s g SampleTimer = bindR (sv_handleTimerSmp par now up s) (\<lambda>t. Inr (t, g))"
| "sv_exec ga sa par now up s g (SvIn created msg) = sv_handlePacket ga sa par now up created msg s g"
| "sv_exec ga sa par now up s g (SvLifecycle op stage) =
     bindR (sv_handleOperationStage par now op stage s) (\<lambda>t. Inr (t, g))"

text \<open>The module \<open>g\<close> may change between two events of the own module.\<close>

inductive sv_reach :: "('g \<Rightarrow> bool) \<Rightarrow> (simtime \<Rightarrow> 'g \<Rightarrow> 'g res) \<Rightarrow> sv_par \<Rightarrow> simtime \<Rightarrow> 'o sv \<Rightarrow> bool"
  for ga sa par where
  init: "sv_initialize par now up goose_found = Inr s \<Longrightarrow> sv_reach ga sa par now s"
| step: "sv_reach ga sa par now s \<Longrightarrow> now \<le> later \<Longrightarrow> sv_enabled later s e \<Longrightarrow>
    sv_exec ga sa par later up s g e = Inr (t, g') \<Longrightarrow> sv_reach ga sa par later t"

text \<open>The published packets and their sample counters.\<close>

fun sv_cnt :: "'o sv_payload cPacket \<Rightarrow> u16 list" where
  "sv_cnt pk = (case pk_data pk of PSv p \<Rightarrow> [smpCntValue (smpCnt p)] | PNotSv _ \<Rightarrow> [])"

declare sv_cnt.simps [simp del]

definition sv_cnts :: "'o sv \<Rightarrow> u16 list" where
  "sv_cnts s = concat (map sv_cnt (svOut s))"

definition sv_safe_packet :: "'o sv_payload cPacket \<Rightarrow> bool" where
  "sv_safe_packet pk \<longleftrightarrow> (\<exists>p. pk_data pk = PSv p \<and> length (phsMeasOne p) = 8 \<and> sv_lengths_consistent p \<and> sv_scan 0 (phsMeasOne p) = 8
     \<and> pk_byteLength pk = int (unat (sv_totalLenght p)) \<and> map_option ctl_apptype (pk_ctrl pk) = Some ETHERTYPE_SV)"

definition sv_inv :: "sv_par \<Rightarrow> 'o sv \<Rightarrow> bool" where
  "sv_inv par s \<longleftrightarrow> svSamplingRate s = spar_samplingRate par
     \<and> (\<forall>samples. svSamples s = Some samples \<longrightarrow> samples_in_range samples)
     \<and> (\<forall>pk \<in> set (svOut s). sv_safe_packet pk)
     \<and> (\<forall>R. spar_samplingRate par = real R \<longrightarrow>
          svSeqNum s = int (length (svOut s) mod Suc R)
          \<and> sv_cnts s = map (\<lambda>i. of_nat (i mod Suc R)) [0..<length (svOut s)])"

lemma sv_inv_frame:
  "sv_inv par (s\<lparr>svTimerMsg := x\<rparr>) = sv_inv par s" "sv_inv par (s\<lparr>svTimerSmp := x\<rparr>) = sv_inv par s"
  "sv_inv par (s\<lparr>svDest := d\<rparr>) = sv_inv par s" "sv_inv par (s\<lparr>svEteAvg := a\<rparr>) = sv_inv par s"
  "sv_inv par (s\<lparr>svReceived := i\<rparr>) = sv_inv par s" "sv_inv par (s\<lparr>svAlarm := b\<rparr>) = sv_inv par s"
  "sv_inv par (s\<lparr>svDelays := l\<rparr>) = sv_inv par s"
  by (simp_all add: sv_inv_def sv_cnts_def)

lemma sv_schedule_inv:
  "sv_scheduleNextSample par now start s = Inr t \<Longrightarrow> sv_inv par s \<Longrightarrow> sv_inv par t"
  "sv_scheduleNextPacket par now start s = Inr t \<Longrightarrow> sv_inv par s \<Longrightarrow> sv_inv par t"
  by (auto simp: sv_scheduleNextSample_def sv_scheduleNextPacket_def Let_def bindR_Inr_iff sv_inv_frame
      split: option.splits if_splits)

lemma sv_inv_sendPacket:
  assumes "sv_sendPacket par s = Inr t" and "sv_inv par s"
  shows "sv_inv par t"
proof -
  obtain p where p: "createSvPacket par s = Inr p"
    and t: "t = s\<lparr>svOut := svOut s @ [\<lparr>pk_kind = IEEE802CTRL_DATA, pk_byteLength = uint (sv_totalLenght p),
            pk_ctrl = Some (new_Ieee802Ctrl\<lparr>ctl_dest := svDest s, ctl_etherType := ETHERTYPE_802_1_Q,
               ctl_ppc := svPpc s, ctl_de := SV_1Q_DE, ctl_vid := svVid s, ctl_apptype := ETHERTYPE_SV\<rparr>),
            pk_data = PSv p\<rparr>],
         svSent := svSent s + 1,
         svSeqNum := (if real_of_int (svSeqNum s) = svSamplingRate s then 0 else svSeqNum s + 1)\<rparr>"
    using assms(1) by (auto simp: sv_sendPacket_def bindR_Inr_iff Let_def)
  obtain samples where "svSamples s = Some samples" and cnt: "smpCntValue (smpCnt p) = word_of_int (svSeqNum s)"
    using createSvPacket_Inr [OF p] by blast
  then have "sv_scan 0 (phsMeasOne p) = 8"
    using published_in_range [OF p] assms(2) by (auto simp: sv_inv_def)
  then have "sv_safe_packet (last (svOut t))"
    using createSvPacket_consistent(1) [OF p] createSvPacket_Inr [OF p] by (simp add: t sv_safe_packet_def)
  moreover have "svSeqNum t = int (Suc (length (svOut s)) mod Suc R)
      \<and> sv_cnts t = map (\<lambda>i. of_nat (i mod Suc R)) [0..<Suc (length (svOut s))]"
    if R: "spar_samplingRate par = real R" for R
  proof -
    have q: "svSeqNum s = int (length (svOut s) mod Suc R)" and r: "svSamplingRate s = real R"
      and c: "sv_cnts s = map (\<lambda>i. of_nat (i mod Suc R)) [0..<length (svOut s)]"
      using assms(2) R by (auto simp: sv_inv_def)
    have "svSeqNum t = int (Suc (length (svOut s)) mod Suc R)"
      using q r by (auto simp: t mod_Suc)
    moreover have "sv_cnts t = sv_cnts s @ [of_nat (length (svOut s) mod Suc R)]"
      using cnt q by (simp add: t sv_cnts_def sv_cnt.simps)
    ultimately show ?thesis using c by simp
  qed
  ultimately show ?thesis using assms(2) by (auto simp: sv_inv_def t)
qed

lemma sv_inv_init: "sv_initialize par now up goose_found = Inr s \<Longrightarrow> sv_inv par s"
proof -
  assume "sv_initialize par now up goose_found = Inr s"
  then obtain s0 where s0: "sv_initialize0 par = Inr s0" and s: "sv_initialize3 par now up goose_found s0 = Inr s"
    by (auto simp: sv_initialize_def)
  have "sv_inv par s0"
    using s0 by (auto simp: sv_initialize0_def bindR_Inr_iff sv_inv_def sv_cnts_def split: if_splits)
  then show ?thesis
    using s by (auto simp: sv_initialize3_def Let_def bindR_Inr_iff sv_inv_frame split: if_splits
        elim!: sv_schedule_inv)
qed

lemma sv_inv_receive:
  assumes "sv_receivePacket ga sa par now created msg s g = Inr (t, g')" and "sv_inv par s"
  shows "sv_inv par t"
  using assms
  by (auto simp: sv_receivePacket_def sv_delay_def sv_process_def Let_def bindR_Inr_iff sv_inv_frame
      split: if_splits option.splits sv_payload.splits)

lemma sv_inv_exec:
  assumes "sv_exec ga sa par now up s g e = Inr (t, g')" and "sv_inv par s"
  shows "sv_inv par t"
proof (cases e)
  case SendTimer
  then show ?thesis
    using assms
    by (auto simp: sv_handleTimerMsg_def Let_def bindR_Inr_iff sv_inv_frame
        split: if_splits option.splits elim!: sv_schedule_inv sv_inv_sendPacket)
next
  case SampleTimer
  then show ?thesis
    using assms
    by (auto simp: sv_handleTimerSmp_def bindR_Inr_iff split: if_splits option.splits
        elim!: sv_schedule_inv sv_getSinValue_range) (simp add: sv_inv_def sv_cnts_def)
next
  case (SvIn created msg)
  then show ?thesis using assms sv_inv_receive by (auto simp: sv_handlePacket_def split: if_splits)
next
  case (SvLifecycle op stage)
  then show ?thesis
    using assms
    by (cases op) (auto simp: bindR_Inr_iff sv_cancelNextPacket_def sv_cancelNextSample_def sv_inv_frame
        split: if_splits elim!: sv_schedule_inv)
qed

lemma sv_reach_inv: "sv_reach ga sa par now s \<Longrightarrow> sv_inv par s"
  by (induction rule: sv_reach.induct) (auto intro: sv_inv_init sv_inv_exec)

lemma sv_reach_safe: "sv_reach ga sa par now s \<Longrightarrow> pk \<in> set (svOut s) \<Longrightarrow> sv_safe_packet pk"
  by (drule sv_reach_inv) (simp add: sv_inv_def)

section \<open>Sequences of received packets\<close>

text \<open>The packets with their arrival and creation times.\<close>

fun sv_feed ::
    "('g \<Rightarrow> bool) \<Rightarrow> (simtime \<Rightarrow> 'g \<Rightarrow> 'g res) \<Rightarrow> sv_par
     \<Rightarrow> (simtime \<times> simtime \<times> 'o sv_payload cPacket) list \<Rightarrow> 'o sv \<Rightarrow> 'g \<Rightarrow> ('o sv \<times> 'g) res" where
  "sv_feed ga sa par [] s g = Inr (s, g)"
| "sv_feed ga sa par ((now, created, pk) # pks) s g =
     bindR (sv_handlePacket ga sa par now True created pk s g) (\<lambda>(s1, g1). sv_feed ga sa par pks s1 g1)"

lemma sv_feed_append:
  "sv_feed ga sa par (xs @ ys) s g = bindR (sv_feed ga sa par xs s g) (\<lambda>(s1, g1). sv_feed ga sa par ys s1 g1)"
proof (induction xs arbitrary: s g)
  case (Cons x xs)
  obtain now created pk where "x = (now, created, pk)" by (metis prod_cases3)
  then show ?case
    using Cons.IH by (cases "sv_handlePacket ga sa par now True created pk s g") auto
qed simp

text \<open>A subscriber's reaction to one packet of sampled values.\<close>

lemma sv_receive_Inr:
  assumes "sv_receivePacket ga sa par now created msg s g = Inr (t, g')" and "\<not> sv_isGenerator par"
    and "pk_data msg = PSv p" and "map_option ctl_apptype (pk_ctrl msg) = Some ETHERTYPE_SV"
  obtains s1 where "sv_delay par now created p (s\<lparr>svReceived := svReceived s + 1\<rparr>) = Inr s1"
    and "svReceived s1 = svReceived s + 1" and "svReceived t = svReceived s + 1"
    and "sv_process ga sa now p s1 g = Inr (t, g')"
    and "svDelays t = svDelays s1" and "svEteAvg t = svEteAvg s1" and "svSamplingRate t = svSamplingRate s"
proof -
  obtain s1 where d: "sv_delay par now created p (s\<lparr>svReceived := svReceived s + 1\<rparr>) = Inr s1"
    and q: "sv_process ga sa now p s1 g = Inr (t, g')"
    using assms by (auto simp: sv_receivePacket_def bindR_Inr_iff)
  have e: "svReceived s1 = svReceived s + 1" "svSamplingRate s1 = svSamplingRate s"
    using d by (auto simp: sv_delay_def Let_def bindR_Inr_iff split: if_splits)
  have "svReceived t = svReceived s1 \<and> svDelays t = svDelays s1 \<and> svEteAvg t = svEteAvg s1
      \<and> svSamplingRate t = svSamplingRate s1"
    using q by (auto simp: sv_process_def Let_def bindR_Inr_iff split: if_splits)
  then show ?thesis using that d q e by auto
qed

context alarm_module
begin

lemma receive_tracks:
  assumes "sv_receivePacket getAlarmState setAlarmState par now created msg s g = Inr (t, g')"
    and "\<not> sv_isGenerator par" and "active"
    and "pk_data msg = PSv p" and "map_option ctl_apptype (pk_ctrl msg) = Some ETHERTYPE_SV"
  shows "getAlarmState g' =
    (if sv_test_hook (svReceived s + 1)
     then (if sv_scan 0 (phsMeasOne p) < 8 then getAlarmState g else \<not> getAlarmState g)
     else sv_scan 0 (phsMeasOne p) < 8)" and "svReceived t = svReceived s + 1"
proof -
  obtain s1 where e: "svReceived s1 = svReceived s + 1" and t: "svReceived t = svReceived s + 1"
    and q: "sv_process getAlarmState setAlarmState now p s1 g = Inr (t, g')"
    by (rule sv_receive_Inr [OF assms(1,2,4,5)]) (rule that)
  show "svReceived t = svReceived s + 1" by (rule t)
  show "getAlarmState g' =
      (if sv_test_hook (svReceived s + 1)
       then (if sv_scan 0 (phsMeasOne p) < 8 then getAlarmState g else \<not> getAlarmState g)
       else sv_scan 0 (phsMeasOne p) < 8)"
    unfolding e [symmetric]
    by (cases "sv_test_hook (svReceived s1)")
      (simp_all only: if_True if_False simp_thms process_tracks [OF q assms(3)] process_hook [OF q assms(3)])
qed

lemma not_two_hooks:
  assumes "sv_test_hook (1 + a)" and "sv_test_hook a"
  shows False
proof -
  have "(1 + a) mod 50000 = 1" if "a mod 50000 = 0"
    using mod_add_right_eq [of 1 a 50000] that by simp
  moreover have "a = 4" if "1 + a = 5" using that by simp
  ultimately show False using assms unfolding sv_test_hook_def by fastforce
qed

text \<open>Fed with packets that signal no danger, the subscriber raises the alarm at the hook only.\<close>

lemma feed_safe:
  assumes "sv_feed getAlarmState setAlarmState par pks s g = Inr (t, g')" and "\<not> sv_isGenerator par" and "active"
    and "svReceived s = 0" and "\<not> getAlarmState g" and "\<forall>(_, _, pk) \<in> set pks. sv_safe_packet pk"
  shows "svReceived t = int (length pks)
    \<and> (getAlarmState g' \<longleftrightarrow> pks \<noteq> [] \<and> sv_test_hook (int (length pks)))"
  using assms
proof (induction pks arbitrary: t g' rule: rev_induct)
  case (snoc x pks)
  obtain now created pk where x: "x = (now, created, pk)" by (metis prod_cases3)
  obtain s1 g1 where f: "sv_feed getAlarmState setAlarmState par pks s g = Inr (s1, g1)"
    and r: "sv_receivePacket getAlarmState setAlarmState par now created pk s1 g1 = Inr (t, g')"
    using snoc.prems(1) x by (auto simp: sv_feed_append bindR_Inr_iff sv_handlePacket_def)
  have ih: "svReceived s1 = int (length pks)" "getAlarmState g1 \<longleftrightarrow> pks \<noteq> [] \<and> sv_test_hook (int (length pks))"
    using snoc.IH [OF f] snoc.prems by auto
  obtain p where p: "pk_data pk = PSv p" "map_option ctl_apptype (pk_ctrl pk) = Some ETHERTYPE_SV"
    and safe: "sv_scan 0 (phsMeasOne p) = 8"
    using snoc.prems(6) x by (auto simp: sv_safe_packet_def)
  note rt = receive_tracks [OF r snoc.prems(2,3) p]
  show ?case
    using rt ih safe not_two_hooks [of "int (length pks)"] by (auto simp: add.commute)
qed simp

end

text \<open>What the thresholds are meant to say: one of the first four values or one of the last four is too big.\<close>

definition sv_danger :: "EtherSvData \<Rightarrow> bool" where
  "sv_danger p \<longleftrightarrow> (\<exists>v \<in> set (take 4 (phsMeasOne p)). aValue v \<ge> 120000)
     \<or> (\<exists>v \<in> set (drop 4 (phsMeasOne p)). aValue v \<ge> 136000)"

lemma sv_scan_danger:
  assumes "length (phsMeasOne p) = 8"
  shows "sv_scan 0 (phsMeasOne p) < 8 \<longleftrightarrow> sv_danger p"
proof -
  obtain a b c d e f g h where "phsMeasOne p = [a, b, c, d, e, f, g, h]"
    using assms by (auto simp: length_Suc_conv eval_nat_numeral)
  then show ?thesis
    by (auto simp: sv_danger_def DANGER_PHASE_CURRENT_VALUE_def DANGER_PHASE_VOLTAGE_VALUE_def)
qed

text \<open>The delay statistics over a block of packets.\<close>

lemma sv_delay_below:
  assumes "real_of_int (uint (smpCntValue (smpCnt p))) \<noteq> svSamplingRate s"
  shows "sv_delay par now created p s = Inr (s\<lparr>svEteAvg := svEteAvg s + senv_inUnit par (now - created)\<rparr>)"
  using assms by (simp add: sv_delay_def)

lemma sv_delay_at:
  assumes "sv_delay par now created p s = Inr t" and "real_of_int (uint (smpCntValue (smpCnt p))) = svSamplingRate s"
  shows "svEteAvg t = 0"
    and "svDelays t = svDelays s @ [trunc_real (real_of_int (svEteAvg s + senv_inUnit par (now - created)) / svSamplingRate s)]"
  using assms by (auto simp: sv_delay_def bindR_Inr_iff to_signed_def Let_def split: if_splits)

definition sv_block :: "sv_par \<Rightarrow> int \<Rightarrow> u16 list \<Rightarrow> (simtime \<times> simtime \<times> 'o sv_payload cPacket) list \<Rightarrow> bool" where
  "sv_block par d cnts pks \<longleftrightarrow> list_all2 (\<lambda>c (now, created, pk). \<exists>p. pk_data pk = PSv p
      \<and> map_option ctl_apptype (pk_ctrl pk) = Some ETHERTYPE_SV \<and> smpCntValue (smpCnt p) = c
      \<and> senv_inUnit par (now - created) = d) cnts pks"

lemma uint_u16_small: "n < 65536 \<Longrightarrow> uint (of_nat n :: u16) = int n"
  using unat_u16_small [of n] by (metis uint_nat)

lemma sv_block_snoc:
  "sv_block par d (cs @ [c]) pks \<longleftrightarrow> (\<exists>ps x. pks = ps @ [x] \<and> sv_block par d cs ps \<and> sv_block par d [c] [x])"
proof (cases pks rule: rev_cases)
  case (snoc ps x)
  have "list_all2 P (cs @ [c]) (ps @ [x]) = (list_all2 P cs ps \<and> list_all2 P [c] [x])" for P
    by (cases "length cs = length ps") (auto simp: list_all2_append dest: list_all2_lengthD)
  then show ?thesis by (simp add: snoc sv_block_def)
qed (simp add: sv_block_def)

lemma sv_feed_accumulates:
  assumes "sv_feed ga sa par pks s g = Inr (t, g')" and "\<not> sv_isGenerator par"
    and "sv_block par d cnts pks" and "\<forall>c \<in> set cnts. real_of_int (uint c) \<noteq> svSamplingRate s"
  shows "svEteAvg t = svEteAvg s + d * int (length pks) \<and> svDelays t = svDelays s \<and> svSamplingRate t = svSamplingRate s"
  using assms
proof (induction pks arbitrary: s g cnts)
  case (Cons x pks)
  obtain now created pk where x: "x = (now, created, pk)" by (metis prod_cases3)
  obtain s1 g1 where r: "sv_receivePacket ga sa par now created pk s g = Inr (s1, g1)"
    and f: "sv_feed ga sa par pks s1 g1 = Inr (t, g')"
    using Cons.prems(1) x by (auto simp: bindR_Inr_iff sv_handlePacket_def)
  obtain c cs p where c: "cnts = c # cs" and p: "pk_data pk = PSv p"
      "map_option ctl_apptype (pk_ctrl pk) = Some ETHERTYPE_SV" "smpCntValue (smpCnt p) = c"
      "senv_inUnit par (now - created) = d" and b: "sv_block par d cs pks"
    using Cons.prems(3) x by (auto simp: sv_block_def list_all2_Cons2)
  obtain s2 where q: "sv_delay par now created p (s\<lparr>svReceived := svReceived s + 1\<rparr>) = Inr s2"
    and e: "svDelays s1 = svDelays s2" "svEteAvg s1 = svEteAvg s2" "svSamplingRate s1 = svSamplingRate s"
    by (rule sv_receive_Inr [OF r Cons.prems(2) p(1,2)]) (rule that)
  have "s2 = s\<lparr>svReceived := svReceived s + 1, svEteAvg := svEteAvg s + d\<rparr>"
    using q sv_delay_below [of p "s\<lparr>svReceived := svReceived s + 1\<rparr>" par now created] Cons.prems(4) c p(3,4)
    by simp
  then have "svEteAvg s1 = svEteAvg s + d \<and> svDelays s1 = svDelays s \<and> svSamplingRate s1 = svSamplingRate s"
    using e by simp
  then show ?case
    using Cons.IH [OF f Cons.prems(2) b] Cons.prems(4) c by (auto simp: algebra_simps)
qed simp

section \<open>Properties\<close>

text \<open>
  Every packet of sampled values is consistent: the data set, ASDU, sequence, APDU and total
  length fields are the numbers of bytes the tags and sizes describe, the members carry the tags of
  the standard in order, and the total is 103 bytes more than the identifier, at most 167.
\<close>

theorem sv_packet_consistent:
  assumes "createSvPacket par s = Inr p"
  shows "sv_lengths_consistent p \<and> map fst (asdu_fields p) = [0x80, 0x82, 0x83, 0x85, 0x87]
    \<and> unat (sv_totalLenght p) = length (spar_cbID par) + 103 \<and> unat (sv_totalLenght p) \<le> 167"
  using createSvPacket_consistent [OF assms] createSvPacket_Inr [OF assms] by simp

text \<open>
  The publisher's sample counter: with a sampling rate R the packets a publisher sends carry the
  numbers 0, 1, ..., R and again from 0: R + 1 values in a cycle.
\<close>

theorem sv_sample_counter:
  assumes "sv_reach ga sa par now s" and "spar_samplingRate par = real R"
  shows "sv_cnts s = map (\<lambda>i. of_nat (i mod (R + 1))) [0..<length (svOut s)]"
  using sv_reach_inv [OF assms(1)] assms(2) by (simp add: sv_inv_def)

text \<open>
  No published packet signals danger: whatever the sampling rate, the amplitude of the generated
  signals is below the thresholds of the subscriber, for currents and for voltages.
\<close>

theorem sv_published_never_dangerous:
  assumes "sv_reach ga sa par now s" and "pk \<in> set (svOut s)"
  shows "\<exists>p. pk_data pk = PSv p \<and> length (phsMeasOne p) = 8 \<and> sv_scan 0 (phsMeasOne p) = 8
    \<and> pk_byteLength pk = int (unat (sv_totalLenght p)) \<and> sv_lengths_consistent p"
  using sv_reach_inv [OF assms(1)] assms(2) by (auto simp: sv_inv_def sv_safe_packet_def)

text \<open>
  C40. Protection: outside the fifth and every 50000th packet, after a subscriber has processed a
  packet of sampled values the alarm state of the GOOSE publisher of its IED says whether a current
  or a voltage of this packet reaches its threshold. At those packets the test code inverts the
  state when no value does, and keeps it when one does.
\<close>

theorem sv_alarm_follows_measurements:
  assumes "sv_receivePacket goose_getAlarmState (goose_setAlarmState gpar) par now created msg s g = Inr (t, g')"
    and "\<not> sv_isGenerator par" and "goose_isGenerator gpar"
    and "pk_data msg = PSv p" and "map_option ctl_apptype (pk_ctrl msg) = Some ETHERTYPE_SV"
    and "length (phsMeasOne p) = 8"
  shows "gAlarm g' =
    (if svReceived t = 5 \<or> svReceived t mod 50000 = 0
     then (if sv_danger p then gAlarm g else \<not> gAlarm g) else sv_danger p)"
  using ga.receive_tracks [OF assms(1-5)]
  unfolding sv_scan_danger [OF assms(6)] goose_getAlarmState_def sv_test_hook_def by simp

text \<open>
  False trip: a subscriber that starts with no alarm and receives only packets a publisher of
  this program can send has an alarm after the fifth and after every 50000th packet, and at no other
  moment.
\<close>

theorem sv_false_trip:
  assumes "sv_initialize par t0 up True = Inr s" and "\<not> sv_isGenerator par" and "goose_isGenerator gpar"
    and "\<not> gAlarm g" and "\<forall>(_, _, pk) \<in> set pks. \<exists>ga sa ppar tp u. sv_reach ga sa ppar tp u \<and> pk \<in> set (svOut u)"
    and "sv_feed goose_getAlarmState (goose_setAlarmState gpar) par pks s g = Inr (t, g')"
  shows "gAlarm g' \<longleftrightarrow> length pks = 5 \<or> (pks \<noteq> [] \<and> length pks mod 50000 = 0)"
proof -
  have r: "svReceived s = 0"
    using assms(1,2) by (auto simp: sv_initialize_def sv_initialize0_def sv_initialize3_def bindR_Inr_iff
        split: if_splits)
  have "sv_safe_packet pk" if pk: "(now, created, pk) \<in> set pks" for now created pk
    using bspec [OF assms(5) pk] by (auto intro: sv_reach_safe)
  then have f: "gAlarm g' \<longleftrightarrow> pks \<noteq> [] \<and> sv_test_hook (int (length pks))"
    using ga.feed_safe [OF assms(6,2,3) r] assms(4) by (auto simp add: goose_getAlarmState_def)
  have "int (length pks) mod 50000 = int (length pks mod 50000)" by (simp add: zmod_int)
  then show ?thesis unfolding f sv_test_hook_def by auto
qed

text \<open>
  The delay statistic: over a block of packets with the counters 0 to R, each of which took
  \<open>d\<close> microseconds, the value a subscriber emits is \<open>d + d div R\<close>: R + 1 delays are
  added up and divided by R.
\<close>

theorem sv_delay_average:
  assumes "sv_feed ga sa par pks s g = Inr (t, g')" and "\<not> sv_isGenerator par"
    and "sv_block par d (map of_nat [0..<Suc R]) pks"
    and "svSamplingRate s = real R" and "0 < R" and "R < 65536" and "svEteAvg s = 0" and "0 \<le> d"
  shows "svDelays t = svDelays s @ [d + d div int R] \<and> svEteAvg t = 0"
proof -
  obtain ps x where p: "pks = ps @ [x]" and b: "sv_block par d (map of_nat [0..<R]) ps"
    and x: "sv_block par d [of_nat R] [x]"
    using assms(3) by (auto simp: sv_block_snoc)
  obtain s1 g1 where f: "sv_feed ga sa par ps s g = Inr (s1, g1)" and l: "sv_feed ga sa par [x] s1 g1 = Inr (t, g')"
    using assms(1) p by (auto simp: sv_feed_append bindR_Inr_iff)
  have len: "length ps = R" using b by (auto simp: sv_block_def dest: list_all2_lengthD)
  have "real_of_int (uint c) \<noteq> svSamplingRate s" if c: "c \<in> set (map of_nat [0..<R])" for c :: u16
  proof -
    obtain n where "c = of_nat n" and "n < R" using c by auto
    then have "uint c = int n" using assms(6) by (simp add: uint_u16_small)
    then show ?thesis unfolding assms(4) using \<open>n < R\<close> by (simp only: of_int_of_nat_eq of_nat_eq_iff)
  qed
  then have s1: "svEteAvg s1 = d * int R" "svDelays s1 = svDelays s" "svSamplingRate s1 = real R"
    using sv_feed_accumulates [OF f assms(2) b] assms(4,7) len by auto
  obtain now created pk q where xq: "x = (now, created, pk)" "pk_data pk = PSv q"
      "map_option ctl_apptype (pk_ctrl pk) = Some ETHERTYPE_SV" "smpCntValue (smpCnt q) = of_nat R"
      "senv_inUnit par (now - created) = d"
    using x by (cases x) (auto simp: sv_block_def)
  have r: "sv_receivePacket ga sa par now created pk s1 g1 = Inr (t, g')"
    using l xq(1) by (auto simp: sv_handlePacket_def bindR_Inr_iff)
  obtain s2 where q: "sv_delay par now created q (s1\<lparr>svReceived := svReceived s1 + 1\<rparr>) = Inr s2"
    and e: "svDelays t = svDelays s2" "svEteAvg t = svEteAvg s2"
    by (rule sv_receive_Inr [OF r assms(2) xq(2,3)]) (rule that)
  have "real_of_int (uint (smpCntValue (smpCnt q))) = svSamplingRate (s1\<lparr>svReceived := svReceived s1 + 1\<rparr>)"
    unfolding xq(4) uint_u16_small [OF assms(6)] using s1(3) by simp
  from sv_delay_at [OF q this]
  have "svEteAvg t = 0 \<and> svDelays t = svDelays s @ [trunc_real (real_of_int (d * int R + d) / real R)]"
    using e s1 xq(5) by simp
  moreover have "trunc_real (real_of_int (d * int R + d) / real R) = d + d div int R"
  proof -
    have "trunc_real (real_of_int (d * int R + d) / real_of_int (int R))
        = \<lfloor>real_of_int (d * int R + d) / real_of_int (int R)\<rfloor>"
      by (rule trunc_real_nonneg) (use assms(8) in simp)
    also have "\<dots> = (d * int R + d) div int R" by (rule floor_divide_of_int_eq)
    also have "\<dots> = d + d div int R" using assms(5) by simp
    finally show ?thesis by simp
  qed
  ultimately show ?thesis by simp
qed

section \<open>Witnesses\<close>

text \<open>A merging unit that samples 80 times a period.\<close>

definition mu_par :: sv_par where
  "mu_par = \<lparr>spar_destAddress = ''01-0C-CD-04-00-01'', spar_startTime = 0, spar_stopTime = -1,
     spar_sendInterval = 1 / 4000, spar_sampleInterval = 1 / 4000, spar_samplingRate = 80, spar_noASDU = 1,
     spar_cbID = ''MU01'', spar_confRev = 1, spar_synchValue = 0, spar_priority = 4, spar_vlanid = 0,
     senv_simtime = (\<lambda>r. \<lfloor>r * 1000000000000\<rfloor>), senv_inUnit = (\<lambda>t. t div 1000000), senv_module = (\<lambda>_. None)\<rparr>"

definition mu0 :: "unit sv" where "mu0 = projr (sv_initialize mu_par 0 True False)"
definition mu1 :: "unit sv" where "mu1 = projr (sv_handleTimerSmp mu_par 0 True mu0)"
definition mu2 :: "unit sv" where "mu2 = projr (sv_handleTimerMsg mu_par 0 True mu1)"

lemma mu0: "sv_initialize mu_par 0 True False = Inr mu0"
  "mu0 = \<lparr>svSeqNum = 0, svSampleInterval = 1 / 4000, svSamplingRate = 80, svPpc = 4, svVid = 0, svAlarm = False,
     svSamples = None, svDest = 0, svTimerMsg = Some \<lparr>tm_kind = sv_START, tm_at = Some 0\<rparr>,
     svTimerSmp = Some \<lparr>tm_kind = sv_SAMPLE, tm_at = Some 0\<rparr>, svStartTime = 0, svStopTime = -1,
     svEteAvg = 0, svSent = 0, svReceived = 0, svDelays = [], svOut = []\<rparr>"
  by (simp_all add: mu0_def sv_initialize_def sv_initialize0_def sv_initialize3_def sv_isGenerator_def mu_par_def
      sv_scheduleNextSample_def sv_scheduleNextPacket_def scheduleAt_def to_signed_def trunc_real_def)

lemma mu1: "sv_handleTimerSmp mu_par 0 True mu0 = Inr mu1"
  "mu1 = mu0\<lparr>svSamples := Some (replicate 4 0, replicate 4 0),
     svTimerSmp := Some \<lparr>tm_kind = sv_SAMPLE, tm_at = Some 250000000\<rparr>\<rparr>"
  by (simp_all add: mu1_def mu0(2) sv_handleTimerSmp_def sv_getSinValue_def sv_scheduleNextSample_def
      scheduleAt_def cancelEvent_def mu_par_def)

lemma mu_dest: "sv_resolveDestMACAddress mu_par = Inr 0x010CCD040001"
proof -
  have "tryParse 0 ''01-0C-CD-04-00-01'' = (True, 0x010CCD040001)" by code_simp
  then show ?thesis by (simp add: sv_resolveDestMACAddress_def mu_par_def)
qed

definition mu_packet :: EtherSvData where "mu_packet = projr (createSvPacket mu_par mu1)"

lemma mu_packet: "createSvPacket mu_par (mu1\<lparr>svTimerMsg := x, svDest := y\<rparr>) = Inr mu_packet"
    "createSvPacket mu_par mu1 = Inr mu_packet"
  by (simp_all add: mu_packet_def createSvPacket_def mu1(2) mu0(2) mu_par_def strcpy_buf_def SV_MAX_ID_def to_word_def
      to_unsigned_def trunc_real_def upt_rec sv_aValue_def to_signed_def nth_append Let_def sizeof_stAData_def)

lemma mu2: "sv_handleTimerMsg mu_par 0 True mu1 = Inr mu2"
    "svOut mu2 = [\<lparr>pk_kind = IEEE802CTRL_DATA, pk_byteLength = uint (sv_totalLenght mu_packet),
       pk_ctrl = Some (new_Ieee802Ctrl\<lparr>ctl_dest := 0x010CCD040001, ctl_etherType := ETHERTYPE_802_1_Q,
               ctl_ppc := 4, ctl_de := SV_1Q_DE, ctl_vid := 0, ctl_apptype := ETHERTYPE_SV\<rparr>),
       pk_data = PSv mu_packet\<rparr>]"
proof -
  have f: "svTimerMsg mu1 = Some \<lparr>tm_kind = sv_START, tm_at = Some 0\<rparr>" "svStopTime mu1 = -1" "svSeqNum mu1 = 0"
      "svSamplingRate mu1 = 80" "svPpc mu1 = 4" "svVid mu1 = 0" "svOut mu1 = []"
    by (simp_all add: mu1(2) mu0(2))
  have g: "sv_handleTimerMsg mu_par 0 True mu1 = Inr (mu1\<lparr>svTimerMsg := Some \<lparr>tm_kind = sv_NEXT, tm_at = Some 250000000\<rparr>,
      svDest := 0x010CCD040001, svSent := svSent mu1 + 1, svSeqNum := 1,
      svOut := [\<lparr>pk_kind = IEEE802CTRL_DATA, pk_byteLength = uint (sv_totalLenght mu_packet),
       pk_ctrl = Some (new_Ieee802Ctrl\<lparr>ctl_dest := 0x010CCD040001, ctl_etherType := ETHERTYPE_802_1_Q,
               ctl_ppc := 4, ctl_de := SV_1Q_DE, ctl_vid := 0, ctl_apptype := ETHERTYPE_SV\<rparr>),
       pk_data = PSv mu_packet\<rparr>]\<rparr>)"
    by (simp add: sv_handleTimerMsg_def f mu_dest isUnspecified_def sv_sendPacket_def mu_packet
        sv_scheduleNextPacket_def scheduleAt_def cancelEvent_def Let_def) (simp add: mu_par_def)
  then show "sv_handleTimerMsg mu_par 0 True mu1 = Inr mu2" by (simp add: mu2_def)
  show "svOut mu2 = [\<lparr>pk_kind = IEEE802CTRL_DATA, pk_byteLength = uint (sv_totalLenght mu_packet),
       pk_ctrl = Some (new_Ieee802Ctrl\<lparr>ctl_dest := 0x010CCD040001, ctl_etherType := ETHERTYPE_802_1_Q,
               ctl_ppc := 4, ctl_de := SV_1Q_DE, ctl_vid := 0, ctl_apptype := ETHERTYPE_SV\<rparr>),
       pk_data = PSv mu_packet\<rparr>]"
    by (simp add: mu2_def g)
qed

lemma mu_reach: "sv_reach ga sa mu_par 0 mu2"
proof -
  have "sv_reach ga sa mu_par 0 mu0" by (rule sv_reach.init [OF mu0(1)])
  then have "sv_reach ga sa mu_par 0 mu1"
    by (rule sv_reach.step [where e = SampleTimer and up = True and g = undefined and g' = undefined])
      (simp_all add: mu1(1), simp add: mu0(2))
  then show ?thesis
    by (rule sv_reach.step [where e = SendTimer and up = True and g = undefined and g' = undefined])
      (simp_all add: mu2(1), simp add: mu1(2) mu0(2))
qed

lemma sv_packet_consistent_witness:
  "sv_lengths_consistent mu_packet \<and> map fst (asdu_fields mu_packet) = [0x80, 0x82, 0x83, 0x85, 0x87]
    \<and> unat (sv_totalLenght mu_packet) = length (spar_cbID mu_par) + 103 \<and> unat (sv_totalLenght mu_packet) \<le> 167"
  by (rule sv_packet_consistent [OF mu_packet(2)])

lemma sv_sample_counter_witness: "sv_cnts mu2 = map (\<lambda>i. of_nat (i mod (80 + 1))) [0..<length (svOut mu2)]"
  by (rule sv_sample_counter [OF mu_reach [of "\<lambda>_ :: unit. True" "\<lambda>_. Inr"]]) (simp add: mu_par_def)

lemma sv_published_never_dangerous_witness:
  "\<exists>p. pk_data (hd (svOut mu2)) = PSv p \<and> length (phsMeasOne p) = 8 \<and> sv_scan 0 (phsMeasOne p) = 8
    \<and> pk_byteLength (hd (svOut mu2)) = int (unat (sv_totalLenght p)) \<and> sv_lengths_consistent p"
  by (rule sv_published_never_dangerous [OF mu_reach [of "\<lambda>_ :: unit. True" "\<lambda>_. Inr"]]) (simp add: mu2(2))

text \<open>The subscriber of the merging unit's packets, and a packet with a current above the limit.\<close>

definition sub_par :: sv_par where
  "sub_par = mu_par\<lparr>spar_destAddress := [], spar_sendInterval := 0\<rparr>"

definition sub0 :: "unit sv" where "sub0 = projr (sv_initialize sub_par 0 True True)"

lemma sub0: "sv_initialize sub_par 0 True True = Inr sub0" "svReceived sub0 = 0" "svEteAvg sub0 = 0"
    "svSamplingRate sub0 = 80"
    "sub0 = \<lparr>svSeqNum = 0, svSampleInterval = 1 / 4000, svSamplingRate = 80, svPpc = 4, svVid = 0, svAlarm = False,
     svSamples = None, svDest = 0, svTimerMsg = None, svTimerSmp = None, svStartTime = 0, svStopTime = -1,
     svEteAvg = 0, svSent = 0, svReceived = 0, svDelays = [], svOut = []\<rparr>"
  by (simp_all add: sub0_def sub_par_def sv_initialize_def sv_initialize0_def sv_initialize3_def
      sv_isGenerator_def mu_par_def to_signed_def trunc_real_def)

definition high_packet :: EtherSvData where
  "high_packet = mu_packet\<lparr>phsMeasOne := \<lparr>aValue = 120000, quality = 0\<rparr> # replicate 7 \<lparr>aValue = 0, quality = 0\<rparr>\<rparr>"

definition high_msg :: "unit sv_payload cPacket" where
  "high_msg = (hd (svOut mu2))\<lparr>pk_data := PSv high_packet\<rparr>"

lemma high_msg: "pk_data high_msg = PSv high_packet" "map_option ctl_apptype (pk_ctrl high_msg) = Some ETHERTYPE_SV"
  by (simp_all add: high_msg_def mu2(2))

lemma mu_cnt: "smpCntValue (smpCnt mu_packet) = 0"
  using createSvPacket_Inr [OF mu_packet(2)] by (simp add: mu1(2) mu0(2))

definition tripped :: "unit sv \<times> unit goose" where
  "tripped = projr (sv_receivePacket goose_getAlarmState (goose_setAlarmState ied_par) sub_par 7 5 high_msg sub0 ied_state)"

lemma tripped:
  "sv_receivePacket goose_getAlarmState (goose_setAlarmState ied_par) sub_par 7 5 high_msg sub0 ied_state =
     Inr (fst tripped, snd tripped)"
  by (simp add: tripped_def sv_receivePacket_def sub_par_def sv_isGenerator_def high_msg_def mu2(2) sv_delay_def
      high_packet_def mu_cnt sub0(2-4) mu_par_def sv_process_def sv_test_hook_def goose_getAlarmState_def ied_alarm(1)
      DANGER_PHASE_CURRENT_VALUE_def) (simp add: ied_state_def ied_alarm(1) [unfolded ied_state_def])

lemma sv_alarm_follows_measurements_witness:
  "gAlarm (snd tripped) =
    (if svReceived (fst tripped) = 5 \<or> svReceived (fst tripped) mod 50000 = 0
     then (if sv_danger high_packet then gAlarm ied_state else \<not> gAlarm ied_state) else sv_danger high_packet)"
  by (rule sv_alarm_follows_measurements [OF tripped _ ied_ok(2) high_msg])
    (simp_all add: sub_par_def sv_isGenerator_def high_packet_def)

definition trip_feed where
  "trip_feed = sv_feed goose_getAlarmState (goose_setAlarmState ied_par) sub_par
     (replicate 5 (7, 5, hd (svOut mu2))) sub0 ied_state"

lemma mu_safe: "sv_safe_packet (hd (svOut mu2))"
  by (rule sv_reach_safe [OF mu_reach [of "\<lambda>_ :: unit. True" "\<lambda>_. Inr"]]) (simp add: mu2(2))

lemma mu_scan: "sv_scan 0 (phsMeasOne mu_packet) = 8"
  using mu_safe by (simp add: sv_safe_packet_def mu2(2))

lemma sub_receive:
  assumes "svSamplingRate s = 80"
  shows "sv_handlePacket goose_getAlarmState (goose_setAlarmState ied_par) sub_par 7 True 5 (hd (svOut mu2)) s ied_state =
    (let s1 = s\<lparr>svReceived := svReceived s + 1, svAlarm := sv_test_hook (svReceived s + 1)\<rparr>
     in Inr (s1, if svAlarm s1 then ied_alarm else ied_state))"
proof -
  have "gAlarm ied_state = False" by (simp add: ied_state_def)
  then show ?thesis
    using assms
    by (simp add: sv_handlePacket_def sv_receivePacket_def sub_par_def sv_isGenerator_def mu2(2) sv_delay_def
        mu_cnt mu_par_def sv_process_def mu_scan goose_getAlarmState_def ied_alarm(1) Let_def)
qed

lemma trip_feed: "trip_feed = Inr (sub0\<lparr>svReceived := 5, svAlarm := True\<rparr>, ied_alarm)"
  by (simp add: trip_feed_def eval_nat_numeral sub_receive sub0(2-4) Let_def sv_test_hook_def)

lemma sv_false_trip_witness:
  "gAlarm ied_alarm \<longleftrightarrow> length (replicate 5 (7 :: simtime, 5 :: simtime, hd (svOut mu2))) = 5
     \<or> (replicate 5 (7 :: simtime, 5 :: simtime, hd (svOut mu2)) \<noteq> []
        \<and> length (replicate 5 (7 :: simtime, 5 :: simtime, hd (svOut mu2))) mod 50000 = 0)"
proof (rule sv_false_trip [OF sub0(1) _ ied_ok(2)])
  show "\<not> sv_isGenerator sub_par" by (simp add: sub_par_def sv_isGenerator_def)
  show "\<not> gAlarm ied_state" by (simp add: ied_state_def)
  have "hd (svOut mu2) \<in> set (svOut mu2)" by (simp add: mu2(2))
  then show "\<forall>(_, _, pk) \<in> set (replicate 5 (7 :: simtime, 5 :: simtime, hd (svOut mu2))).
      \<exists>ga sa ppar tp u. sv_reach ga sa ppar tp u \<and> pk \<in> set (svOut u)"
    by (simp only: set_replicate_conv_if) (simp, intro exI conjI, rule mu_reach)
  show "sv_feed goose_getAlarmState (goose_setAlarmState ied_par) sub_par
      (replicate 5 (7, 5, hd (svOut mu2))) sub0 ied_state = Inr (sub0\<lparr>svReceived := 5, svAlarm := True\<rparr>, ied_alarm)"
    using trip_feed by (simp add: trip_feed_def)
qed

definition slow_sub :: "unit sv" where "slow_sub = sub0\<lparr>svSamplingRate := 1\<rparr>"

definition block_msg :: "u16 \<Rightarrow> unit sv_payload cPacket" where
  "block_msg c = (hd (svOut mu2))\<lparr>pk_data := PSv (mu_packet\<lparr>smpCnt := (smpCnt mu_packet)\<lparr>smpCntValue := c\<rparr>\<rparr>)\<rparr>"

lemma sv_delay_average_witness:
  "svDelays (slow_sub\<lparr>svReceived := 2, svDelays := [6]\<rparr>) = svDelays slow_sub @ [3 + 3 div int 1]
   \<and> svEteAvg (slow_sub\<lparr>svReceived := 2, svDelays := [6]\<rparr>) = 0"
proof (rule sv_delay_average)
  show "sv_feed (\<lambda>_ :: unit. False) (\<lambda>_. Inr) sub_par [(3000000, 0, block_msg 0), (5000000, 2000000, block_msg 1)] slow_sub ()
      = Inr (slow_sub\<lparr>svReceived := 2, svDelays := [6]\<rparr>, ())"
    by (simp add: block_msg_def sv_handlePacket_def sv_receivePacket_def sub_par_def sv_isGenerator_def mu2(2)
        sv_delay_def mu_par_def sv_process_def mu_scan slow_sub_def sub0(5) to_signed_def trunc_real_def
        sv_test_hook_def)
  show "sv_block sub_par 3 (map of_nat [0..<Suc 1]) [(3000000, 0, block_msg 0), (5000000, 2000000, block_msg 1)]"
    by (simp add: sv_block_def block_msg_def mu2(2) sub_par_def mu_par_def)
qed (simp_all add: sub_par_def sv_isGenerator_def slow_sub_def sub0(5))

end
