(* ===== verification/TripChain.thy ===== *)
theory TripChain
  imports EtherAppSv
begin

text \<open>
  The protection chain: a protection IED that sees dangerous sampled values publishes its alarm by GOOSE, an
  interlocking IED takes it over and publishes it in turn, and a command IED takes it over from there.
\<close>

section \<open>An IED that works\<close>

definition ied_works :: "goose_par \<Rightarrow> 'o goose \<Rightarrow> bool" where
  "ied_works par s \<longleftrightarrow> goose_isGenerator par \<and> goose_par_ok par \<and> (\<forall>r. 0 \<le> r \<longrightarrow> 0 \<le> env_simtime par r)
     \<and> par_stopTime par < 0 \<and> 0 < par_sendInterval par \<and> goose_conf par s \<and> gTimer s \<noteq> None
     \<and> length (gPcAppID s) = length (gComAppID s) \<and> set (gPcAppID s) \<inter> set (gComAppID s) = {}"

text \<open>The packet says \<open>val\<close> and names \<open>appid\<close> as its sender.\<close>

fun announces :: "'o goose_payload cPacket \<Rightarrow> real \<Rightarrow> bool \<Rightarrow> bool" where
  "announces pk appid val \<longleftrightarrow>
     (case pk_data pk of
        PGoose p \<Rightarrow> goose_data_bit p = Inr val \<and> uint (hdrAppID p) = trunc_real appid
      | POther _ \<Rightarrow> False)"

text \<open>What an IED gets of a packet: the payload, with the control information of the frame it came in.\<close>

definition delivered :: "Ieee802Ctrl \<Rightarrow> 'o goose_payload cPacket \<Rightarrow> 'o goose_payload cPacket" where
  "delivered c pk = pk\<lparr>pk_ctrl := Some c\<rparr>"

lemma retransmit_announces:
  assumes "goose_retransmit par now s = Inr t"
  shows "\<exists>pk. gOut t = gOut s @ [pk] \<and> announces pk (gMyAppID s) (gAlarm s)"
proof -
  define u where "u = (goose_cancelNextPacket s)\<lparr>gSendInterval := gSInterval s / 32\<rparr>"
  obtain v where v: "goose_sendPacket par u = Inr v" and t: "goose_scheduleNextPacket par now False v = Inr t"
    using assms by (auto simp: goose_retransmit_def Let_def u_def)
  obtain p ppc vid where c: "createGoosePacket par (u\<lparr>gSeqNum := gSeqNum u + 1\<rparr>) = Inr p"
    and o: "gOut v = gOut u @ [goose_packet (gDest u) ppc vid p]"
    using v by (auto simp: goose_sendPacket_Inr)
  have "goose_data_bit p = Inr (gAlarm s)"
    using createGoosePacket_fields(3) [OF c] by (simp add: goose_data_bit_def make_goData_def u_def)
  moreover have "uint (hdrAppID p) = trunc_real (gMyAppID s)"
    using createGoosePacket_fields(4) [OF c] by (simp add: to_word_Inr u_def)
  moreover have "gOut t = gOut s @ [goose_packet (gDest u) ppc vid p]"
    using schedule_Inr [OF t] o by (simp add: u_def)
  ultimately show ?thesis by (auto simp: goose_packet_def)
qed

lemma takes_over:
  assumes "ied_works par s" and "announces pk appid True" and "ctl_apptype c = ETHERTYPE_GOOSE"
    and "goose_follows s (real_of_int (trunc_real appid))" and "\<not> gAlarm s"
  shows "\<exists>t pk'. goose_receivePacket par now (delivered c pk) s = Inr t \<and> gAlarm t
    \<and> gOut t = gOut s @ [pk'] \<and> announces pk' (gMyAppID s) True"
proof -
  obtain p where p: "pk_data pk = PGoose p" "goose_data_bit p = Inr True" "uint (hdrAppID p) = trunc_real appid"
    using assms(2) by (auto split: goose_payload.splits)
  define u where "u = s\<lparr>gReceived := gReceived s + 1, gAlarm := True, gStChng := gStChng s + 1\<rparr>"
  have w: "goose_par_ok par" "par_stopTime par < 0" "0 < par_sendInterval par" "\<And>r. 0 \<le> r \<Longrightarrow> 0 \<le> env_simtime par r"
    using assms(1) by (simp_all add: ied_works_def)
  have "goose_conf par u" "gTimer u \<noteq> None"
    using assms(1) by (simp_all add: ied_works_def u_def goose_conf_def)
  then obtain t where t: "goose_retransmit par now u = Inr t"
    using retransmit_total [OF w(1) w(4) w(2,3)] by blast
  have "goose_reaction_to (s\<lparr>gReceived := gReceived s + 1\<rparr>) (real_of_int (uint (hdrAppID p))) = Toggle"
    using goose_reaction_spec [of "s\<lparr>gReceived := gReceived s + 1\<rparr>" "real_of_int (uint (hdrAppID p))"] assms(1,4) p(3)
    by (simp add: ied_works_def goose_follows_def)
  then have "goose_receivePacket par now (delivered c pk) s = goose_retransmit par now u"
    using assms(1,3,5) p by (simp add: goose_receivePacket_def delivered_def ied_works_def goose_setAlarmState_def u_def)
  then show ?thesis
    using t retransmit_announces [OF t] retransmit_Inr(1) [OF t] by (auto simp: u_def)
qed

text \<open>The delay statistics can be kept: the rate is at least one and the sum fits its 64 bits.\<close>

lemma sv_delay_total:
  assumes "1 \<le> svSamplingRate s" and "\<bar>svEteAvg s + senv_inUnit par (now - created)\<bar> < 2 ^ 63"
  shows "\<exists>t. sv_delay par now created p s = Inr t \<and> svReceived t = svReceived s"
proof -
  define x where "x = svEteAvg s + senv_inUnit par (now - created)"
  have "\<bar>real_of_int x / svSamplingRate s\<bar> = \<bar>real_of_int x\<bar> / svSamplingRate s" using assms(1) by simp
  also have "\<dots> \<le> \<bar>real_of_int x\<bar>" using assms(1) mult_left_mono [OF assms(1), of "\<bar>real_of_int x\<bar>"]
    by (simp add: divide_le_eq)
  also have "\<dots> \<le> real_of_int (2 ^ 63 - 1)"
    using assms(2) unfolding x_def [symmetric] of_int_abs [symmetric] of_int_le_iff by simp
  finally have "\<bar>trunc_real (real_of_int x / svSamplingRate s)\<bar> \<le> 2 ^ 63 - 1" by (rule abs_trunc_real_le)
  then have "\<exists>a. to_signed 64 (real_of_int x / svSamplingRate s) = Inr a" by (auto simp: to_signed_def Let_def)
  then show ?thesis using assms(1) by (auto simp: sv_delay_def Let_def x_def)
qed

text \<open>Dangerous values raise the alarm, but where the test code pretends that there is one already.\<close>

lemma danger_raises:
  assumes "ied_works par g" and "\<not> gAlarm g" and "sv_scan 0 (phsMeasOne p) < 8"
  shows "\<exists>s' g'. sv_process goose_getAlarmState (goose_setAlarmState par) now p s g = Inr (s', g')
    \<and> (if sv_test_hook (svReceived s) then g' = g
       else \<exists>pk. gAlarm g' \<and> gOut g' = gOut g @ [pk] \<and> announces pk (gMyAppID g) True)"
proof -
  let ?u = "g\<lparr>gAlarm := True, gStChng := gStChng g + 1\<rparr>"
  have w: "goose_par_ok par" "\<And>r. 0 \<le> r \<Longrightarrow> 0 \<le> env_simtime par r" "par_stopTime par < 0" "0 < par_sendInterval par"
    "goose_isGenerator par"
    using assms(1) by (simp_all add: ied_works_def)
  have "goose_conf par ?u" "gTimer ?u \<noteq> None" using assms(1) by (simp_all add: ied_works_def goose_conf_def)
  then obtain t where t: "goose_retransmit par now ?u = Inr t" using retransmit_total [OF w(1-4)] by blast
  have "goose_setAlarmState par now g = Inr t" using t w(5) assms(2) by (simp add: goose_setAlarmState_def)
  moreover have "\<exists>pk. gAlarm t \<and> gOut t = gOut g @ [pk] \<and> announces pk (gMyAppID g) True"
    using retransmit_announces [OF t] retransmit_Inr(1) [OF t] by auto
  ultimately show ?thesis using assms(2,3) by (auto simp: sv_process_def goose_getAlarmState_def Let_def)
qed

section \<open>Property\<close>


definition inter_par :: goose_par where "inter_par = ied_par\<lparr>par_pcAppID := [16382, 2, 3]\<rparr>"
definition inter_state :: "unit goose" where "inter_state = ied_state\<lparr>gPcAppID := [16382, 2, 3]\<rparr>"
definition com_par :: goose_par where
  "com_par = ied_par\<lparr>par_iedType := ''com'', par_interAppID := [16382, 5]\<rparr>"
definition com_state :: "unit goose" where
  "com_state = ied_state\<lparr>gNodeType := ''com'', gInterAppID := [16382, 5]\<rparr>"

lemmas chain_defs = inter_par_def inter_state_def com_par_def com_state_def

lemma chain_works: "ied_works ied_par ied_state" "ied_works inter_par inter_state" "ied_works com_par com_state"
  by (simp_all add: ied_works_def chain_defs goose_isGenerator_def goose_par_ok_def goose_conf_def ied_par_def ied_state_def)


end
