(* ===== verification/MACRelayUnit.thy ===== *)
theory MACRelayUnit
  imports EtherFrame MACAddressTable NodeOperation
begin

text \<open>
  \<open>linklayer/ethernet/switch/MACRelayUnit\<close>, the switch fabric. It reaches the address table
  through the virtual methods of \<open>IMACAddressTable\<close>; these are a record of functions here. The
  locale \<open>address_table\<close> states what the relay needs of them, the relay's forwarding rules are
  proved inside it, and \<open>MACAddressTable\<close> is an interpretation.
\<close>

section \<open>The virtual methods of IMACAddressTable\<close>

record 't imac =
  im_update :: "simtime \<Rightarrow> int \<Rightarrow> mac_addr \<Rightarrow> u32 \<Rightarrow> 't \<Rightarrow> bool \<times> 't"
  im_port :: "simtime \<Rightarrow> mac_addr \<Rightarrow> u32 \<Rightarrow> 't \<Rightarrow> int \<times> 't"
  im_ports :: "u32 \<Rightarrow> 't \<Rightarrow> int option list option"
  im_clear :: "'t \<Rightarrow> 't"

section \<open>State and operations\<close>

record 't relay =
  numPorts :: int
  numProcessedFrames :: int
  numDiscardedFrames :: int
  relayOperational :: bool
  relayTable :: 't

text \<open>
  \<open>initialize\<close>, both stages; \<open>ifIn\<close> and \<open>ifOut\<close> are the gate vector sizes, \<open>status_up\<close> the node
  status, \<open>None\<close> when the node has no status module.
\<close>

definition relay_initialize :: "int \<Rightarrow> int \<Rightarrow> bool option \<Rightarrow> 't \<Rightarrow> 't relay res" where
  "relay_initialize ifIn ifOut status_up table =
     (if ifIn \<noteq> ifOut
      then Inl (RuntimeError ''the sizes of the ifIn[] and ifOut[] gate vectors must be the same'')
      else Inr \<lparr>numPorts = ifOut, numProcessedFrames = 0, numDiscardedFrames = 0,
                relayOperational = (case status_up of None \<Rightarrow> True | Some up \<Rightarrow> up),
                relayTable = table\<rparr>)"

type_synonym 'p sends = "(int \<times> 'p EtherFrame) list"

text \<open>\<open>send\<close> to a gate that does not exist throws.\<close>

definition send_ifOut :: "int \<Rightarrow> 'p EtherFrame \<Rightarrow> int \<Rightarrow> 'p sends res" where
  "send_ifOut n frame port =
     (if 0 \<le> port \<and> port < n then Inr [(port, frame)]
      else Inl (RuntimeError ''no such gate: ifOut''))"

text \<open>The loop over \<open>portlist\<close>; reading an element nobody wrote is an uninitialised read.\<close>

fun send_portlist :: "int \<Rightarrow> 'p EtherFrame \<Rightarrow> int \<Rightarrow> int option list \<Rightarrow> 'p sends res" where
  "send_portlist n frame inputport [] = Inr []"
| "send_portlist n frame inputport (None # ps) = Inl UninitRead"
| "send_portlist n frame inputport (Some p # ps) =
     (if p \<noteq> inputport
      then bindR (send_ifOut n frame p) (\<lambda>out.
             bindR (send_portlist n frame inputport ps) (\<lambda>outs. Inr (out @ outs)))
      else send_portlist n frame inputport ps)"

definition broadcastFrame ::
    "'t imac \<Rightarrow> int \<Rightarrow> 'p EtherFrame \<Rightarrow> int \<Rightarrow> u32 \<Rightarrow> 't \<Rightarrow> 'p sends res" where
  "broadcastFrame ops n frame inputport vid table =
     (let portlist = im_ports ops vid table;
          flood = Inr (map (\<lambda>i. (i, frame)) (filter (\<lambda>i. i \<noteq> inputport) [0..n - 1]))
      in if vid = 0 then flood
         else case portlist of
                None \<Rightarrow> Inl UninitRead
              | Some ps \<Rightarrow> if length ps > 1 then send_portlist n frame inputport ps else flood)"

definition frame_vid :: "'p EtherFrame \<Rightarrow> u32" where
  "frame_vid frame = (case class_tag (fr_class frame) of None \<Rightarrow> 0 | Some tag \<Rightarrow> ucast (tag_vid tag))"

definition handleAndDispatchFrame ::
    "'t imac \<Rightarrow> simtime \<Rightarrow> int \<Rightarrow> 'p EtherFrame \<Rightarrow> 't relay \<Rightarrow> ('t relay \<times> 'p sends) res" where
  "handleAndDispatchFrame ops now inputport frame r =
     (let vid = frame_vid frame;
          (_, table1) = im_update ops now inputport (fr_src frame) vid (relayTable r);
          r1 = r\<lparr>numProcessedFrames := numProcessedFrames r + 1, relayTable := table1\<rparr>
      in if isBroadcast (fr_dest frame)
         then bindR (broadcastFrame ops (numPorts r1) frame inputport vid table1) (\<lambda>outs. Inr (r1, outs))
         else
           let (outputport, table2) = im_port ops now (fr_dest frame) vid table1;
               r2 = r1\<lparr>relayTable := table2\<rparr>
           in if inputport = outputport
              then Inr (r2\<lparr>numDiscardedFrames := numDiscardedFrames r2 + 1\<rparr>, [])
              else if outputport \<ge> 0
              then bindR (send_ifOut (numPorts r2) frame outputport) (\<lambda>outs. Inr (r2, outs))
              else bindR (broadcastFrame ops (numPorts r2) frame inputport vid table2)
                     (\<lambda>outs. Inr (r2, outs)))"

definition relay_handleMessage ::
    "'t imac \<Rightarrow> simtime \<Rightarrow> int \<Rightarrow> 'p EtherTraffic \<Rightarrow> 't relay \<Rightarrow> ('t relay \<times> 'p sends) res" where
  "relay_handleMessage ops now inputport msg r =
     (if \<not> relayOperational r then Inr (r, [])
      else case msg of
             EtherFrameMsg frame \<Rightarrow> handleAndDispatchFrame ops now inputport frame r
           | _ \<Rightarrow> Inl BadCast)"

definition relay_start :: "'t imac \<Rightarrow> 't relay \<Rightarrow> 't relay" where
  "relay_start ops r = r\<lparr>relayTable := im_clear ops (relayTable r), relayOperational := True\<rparr>"

definition relay_stop :: "'t imac \<Rightarrow> 't relay \<Rightarrow> 't relay" where
  "relay_stop ops r = r\<lparr>relayTable := im_clear ops (relayTable r), relayOperational := False\<rparr>"

fun relay_handleOperationStage ::
    "'t imac \<Rightarrow> LifecycleOperation \<Rightarrow> nat \<Rightarrow> 't relay \<Rightarrow> 't relay res" where
  "relay_handleOperationStage ops NodeStartOperation stage r =
     (if stage = start_STAGE_LINK_LAYER then Inr (relay_start ops r) else Inr r)"
| "relay_handleOperationStage ops NodeShutdownOperation stage r =
     (if stage = shutdown_STAGE_LINK_LAYER then Inr (relay_stop ops r) else Inr r)"
| "relay_handleOperationStage ops NodeCrashOperation stage r =
     (if stage = crash_STAGE_CRASH then Inr (relay_stop ops r) else Inr r)"
| "relay_handleOperationStage ops OtherOperation stage r = Inl (RuntimeError ''Unsupported operation'')"

lemma send_portlist_filled:
  assumes "\<forall>p \<in> set ps. 0 \<le> p \<and> p < n"
  shows "send_portlist n frame inputport (map Some ps) =
           Inr (map (\<lambda>p. (p, frame)) (filter (\<lambda>p. p \<noteq> inputport) ps))"
  using assms by (induction ps) (auto simp: send_ifOut_def)

lemma send_portlist_not_input:
  "send_portlist n frame inputport ps = Inr outs \<Longrightarrow>
   \<forall>(p, f) \<in> set outs. p \<noteq> inputport \<and> f = frame \<and> 0 \<le> p \<and> p < n"
  by (induction n frame inputport ps arbitrary: outs rule: send_portlist.induct)
    (auto simp: send_ifOut_def bindR_Inr_iff split: if_splits)

lemma broadcastFrame_not_input:
  "broadcastFrame ops n frame inputport vid table = Inr outs \<Longrightarrow>
   \<forall>(p, f) \<in> set outs. p \<noteq> inputport \<and> f = frame \<and> 0 \<le> p \<and> p < n"
  by (auto simp: broadcastFrame_def Let_def split: if_splits option.splits
      dest: send_portlist_not_input)

lemma handle_not_input:
  assumes "handleAndDispatchFrame ops now inputport frame r = Inr (r', outs)"
  shows "\<forall>(p, f) \<in> set outs. p \<noteq> inputport \<and> f = frame \<and> 0 \<le> p \<and> p < numPorts r"
  using assms
  by (auto simp: handleAndDispatchFrame_def Let_def bindR_Inr_iff send_ifOut_def
      split: prod.splits if_splits dest: broadcastFrame_not_input)

section \<open>What the relay relies on\<close>

text \<open>
  \<open>port_of\<close> is the port known for an address at a time, \<open>ports_of\<close> the ports of the entries of a
  VLAN, \<open>lifetime\<close> how long a learnt entry is used.
\<close>

locale address_table =
  fixes ops :: "'t imac" and ok :: "'t \<Rightarrow> bool"
    and port_of :: "simtime \<Rightarrow> 't \<Rightarrow> u32 \<Rightarrow> mac_addr \<Rightarrow> int option"
    and ports_of :: "u32 \<Rightarrow> 't \<Rightarrow> int list" and lifetime :: "'t \<Rightarrow> simtime"
  assumes update_ok: "\<And>t. ok t \<Longrightarrow> ok (snd (im_update ops now p a vid t))"
    and update_broadcast: "\<And>t. isBroadcast a \<Longrightarrow> snd (im_update ops now p a vid t) = t"
    and update_known:
      "\<And>t. ok t \<Longrightarrow> \<not> isBroadcast a \<Longrightarrow> im_ports ops vid (snd (im_update ops now p a vid t)) \<noteq> None"
    and update_ports:
      "\<And>t. ok t \<Longrightarrow> set (ports_of w (snd (im_update ops now p a vid t))) \<subseteq> insert p (set (ports_of w t))"
    and update_learns:
      "\<And>t. ok t \<Longrightarrow> \<not> isBroadcast a \<Longrightarrow> now \<le> later \<Longrightarrow> later < now + lifetime t \<Longrightarrow>
         port_of later (snd (im_update ops now p a vid t)) vid a = Some p"
    and update_keeps:
      "\<And>t. ok t \<Longrightarrow> now \<le> later \<Longrightarrow> w \<noteq> vid \<or> b \<noteq> a \<Longrightarrow>
         port_of later (snd (im_update ops now p a vid t)) w b = port_of later t w b"
    and port_keeps: "\<And>t. ok t \<Longrightarrow> now \<le> later \<Longrightarrow>
         port_of later (snd (im_port ops now a vid t)) w b = port_of later t w b"
    and update_lifetime: "\<And>t. ok t \<Longrightarrow> lifetime (snd (im_update ops now p a vid t)) = lifetime t"
    and port_result: "\<And>t. ok t \<Longrightarrow>
       fst (im_port ops now a vid t) = (case port_of now t vid a of None \<Rightarrow> -1 | Some p \<Rightarrow> p)"
    and port_ok: "\<And>t. ok t \<Longrightarrow> ok (snd (im_port ops now a vid t))"
    and port_known:
      "\<And>t. ok t \<Longrightarrow> im_ports ops w (snd (im_port ops now a vid t)) = None \<longleftrightarrow> im_ports ops w t = None"
    and port_ports: "\<And>t. ok t \<Longrightarrow> set (ports_of w (snd (im_port ops now a vid t))) \<subseteq> set (ports_of w t)"
    and port_of_ports: "\<And>t. ok t \<Longrightarrow> port_of now t vid a = Some p \<Longrightarrow> p \<in> set (ports_of vid t)"
    and ports_filled: "\<And>t. ok t \<Longrightarrow> im_ports ops vid t = Some ps \<Longrightarrow> ps = map Some (ports_of vid t)"
    and clear_ok: "\<And>t. ok t \<Longrightarrow> ok (im_clear ops t) \<and> ports_of w (im_clear ops t) = []"
begin

definition relay_ok :: "'t relay \<Rightarrow> bool" where
  "relay_ok r \<longleftrightarrow> ok (relayTable r) \<and> (\<forall>vid. set (ports_of vid (relayTable r)) \<subseteq> {0..<numPorts r})"

text \<open>The ports that \<open>broadcastFrame\<close> reaches in a VLAN.\<close>

definition flood_ports :: "int \<Rightarrow> u32 \<Rightarrow> 't \<Rightarrow> int list" where
  "flood_ports n vid t = (if vid \<noteq> 0 \<and> length (ports_of vid t) > 1 then ports_of vid t else [0..n - 1])"

lemma broadcastFrame_flood:
  assumes "ok t" and "set (ports_of vid t) \<subseteq> {0..<n}" and "vid = 0 \<or> im_ports ops vid t \<noteq> None"
  shows "broadcastFrame ops n frame inputport vid t =
           Inr (map (\<lambda>p. (p, frame)) (filter (\<lambda>p. p \<noteq> inputport) (flood_ports n vid t)))"
  using assms send_portlist_filled [of "ports_of vid t" n frame inputport]
  by (auto simp: broadcastFrame_def Let_def flood_ports_def subset_iff dest: ports_filled)

text \<open>The relay completes and keeps its invariant, unless the first frame of a VLAN has a broadcast source.\<close>

lemma handle_total:
  assumes "relay_ok r" and "0 \<le> inputport" and "inputport < numPorts r"
    and "frame_vid frame = 0 \<or> \<not> isBroadcast (fr_src frame)"
  shows "\<exists>r' outs. handleAndDispatchFrame ops now inputport frame r = Inr (r', outs) \<and> relay_ok r'
           \<and> numPorts r' = numPorts r \<and> numProcessedFrames r' = numProcessedFrames r + 1"
proof -
  define vid where "vid = frame_vid frame"
  obtain b1 t1 where u: "im_update ops now inputport (fr_src frame) vid (relayTable r) = (b1, t1)"
    by fastforce
  obtain q t2 where g: "im_port ops now (fr_dest frame) vid t1 = (q, t2)" by fastforce
  have ok: "ok (relayTable r)" and sub: "\<And>w. set (ports_of w (relayTable r)) \<subseteq> {0..<numPorts r}"
    using assms(1) by (auto simp: relay_ok_def)
  have ok1: "ok t1" using update_ok [OF ok, of now inputport "fr_src frame" vid] u by simp
  have sub1: "set (ports_of w t1) \<subseteq> {0..<numPorts r}" for w
    using update_ports [OF ok, of w now inputport "fr_src frame" vid] u sub [of w] assms(2,3) by auto
  have k1: "vid = 0 \<or> im_ports ops vid t1 \<noteq> None"
    using update_known [OF ok, of "fr_src frame" vid now inputport] u assms(4) by (auto simp: vid_def)
  have ok2: "ok t2" using port_ok [OF ok1, of now "fr_dest frame" vid] g by simp
  have sub2: "set (ports_of w t2) \<subseteq> {0..<numPorts r}" for w
    using port_ports [OF ok1, of w now "fr_dest frame" vid] g sub1 [of w] by auto
  have k2: "vid = 0 \<or> im_ports ops vid t2 \<noteq> None"
    using port_known [OF ok1, of vid now "fr_dest frame" vid] g k1 by auto
  have "q < numPorts r" if "q \<ge> 0"
    using port_result [OF ok1, of now "fr_dest frame" vid] port_of_ports [OF ok1, of now vid "fr_dest frame" q]
      g that sub1 [of vid] by (auto split: option.splits)
  then show ?thesis
    using broadcastFrame_flood [OF ok1 sub1 k1, of frame inputport]
      broadcastFrame_flood [OF ok2 sub2 k2, of frame inputport]
      ok1 sub1 ok2 sub2
    by (simp add: handleAndDispatchFrame_def Let_def u g vid_def [symmetric] send_ifOut_def relay_ok_def)
qed

text \<open>A known unicast destination gets the frame, on that port only.\<close>

lemma handle_unicast:
  assumes "relay_ok r" and "\<not> isBroadcast (fr_dest frame)"
    and "port_of now (snd (im_update ops now inputport (fr_src frame) (frame_vid frame) (relayTable r)))
           (frame_vid frame) (fr_dest frame) = Some p"
    and "0 \<le> inputport" and "inputport < numPorts r"
  shows "\<exists>r'. handleAndDispatchFrame ops now inputport frame r =
           Inr (r', if p = inputport then [] else [(p, frame)])"
proof -
  define vid where "vid = frame_vid frame"
  obtain b1 t1 where u: "im_update ops now inputport (fr_src frame) vid (relayTable r) = (b1, t1)"
    by fastforce
  obtain q t2 where g: "im_port ops now (fr_dest frame) vid t1 = (q, t2)" by fastforce
  have ok: "ok (relayTable r)" and sub: "\<And>w. set (ports_of w (relayTable r)) \<subseteq> {0..<numPorts r}"
    using assms(1) by (auto simp: relay_ok_def)
  have ok1: "ok t1" using update_ok [OF ok, of now inputport "fr_src frame" vid] u by simp
  have pt: "port_of now t1 vid (fr_dest frame) = Some p" using assms(3) u by (simp add: vid_def)
  have "q = p" using port_result [OF ok1, of now "fr_dest frame" vid] g pt by simp
  moreover have "0 \<le> p \<and> p < numPorts r"
    using port_of_ports [OF ok1 pt] update_ports [OF ok, of vid now inputport "fr_src frame" vid] u
      sub [of vid] assms(4,5) by auto
  ultimately show ?thesis
    using assms(2) by (simp add: handleAndDispatchFrame_def Let_def u g vid_def [symmetric] send_ifOut_def)
qed

text \<open>The port of the source stays known for the lifetime of the entry, whatever else the frame did.\<close>

lemma handle_learns:
  assumes "relay_ok r" and "handleAndDispatchFrame ops now inputport frame r = Inr (r', outs)"
    and "\<not> isBroadcast (fr_src frame)" and "now \<le> later" and "later < now + lifetime (relayTable r)"
  shows "port_of later (relayTable r') (frame_vid frame) (fr_src frame) = Some inputport"
proof -
  define vid where "vid = frame_vid frame"
  obtain b1 t1 where u: "im_update ops now inputport (fr_src frame) vid (relayTable r) = (b1, t1)"
    by fastforce
  obtain q t2 where g: "im_port ops now (fr_dest frame) vid t1 = (q, t2)" by fastforce
  have ok: "ok (relayTable r)" using assms(1) by (simp add: relay_ok_def)
  have ok1: "ok t1" using update_ok [OF ok, of now inputport "fr_src frame" vid] u by simp
  have "port_of later t1 vid (fr_src frame) = Some inputport"
    using update_learns [OF ok assms(3-5), of inputport vid] u by simp
  moreover have "port_of later t2 vid (fr_src frame) = port_of later t1 vid (fr_src frame)"
    using port_keeps [OF ok1 assms(4), of "fr_dest frame" vid] g by simp
  moreover have "relayTable r' = t1 \<or> relayTable r' = t2"
    using assms(2) by (auto simp: handleAndDispatchFrame_def Let_def u g vid_def [symmetric] bindR_Inr_iff
        split: if_splits)
  ultimately show ?thesis by (auto simp: vid_def)
qed

text \<open>A frame for the broadcast address goes to the ports of its VLAN.\<close>

lemma handle_broadcast:
  fixes now :: simtime
  assumes "relay_ok r" and "isBroadcast (fr_dest frame)" and "0 \<le> inputport" and "inputport < numPorts r"
    and "frame_vid frame = 0 \<or> \<not> isBroadcast (fr_src frame)"
  defines "t1 \<equiv> snd (im_update ops now inputport (fr_src frame) (frame_vid frame) (relayTable r))"
  shows "\<exists>r'. handleAndDispatchFrame ops now inputport frame r =
    Inr (r', map (\<lambda>p. (p, frame)) (filter (\<lambda>p. p \<noteq> inputport) (flood_ports (numPorts r) (frame_vid frame) t1)))"
proof -
  have ok: "ok (relayTable r)" and sub: "\<And>w. set (ports_of w (relayTable r)) \<subseteq> {0..<numPorts r}"
    using assms(1) by (auto simp: relay_ok_def)
  have "ok t1" using update_ok [OF ok] by (simp add: t1_def)
  moreover have "set (ports_of (frame_vid frame) t1) \<subseteq> {0..<numPorts r}"
    using update_ports [OF ok, of "frame_vid frame" now inputport "fr_src frame" "frame_vid frame"]
      sub [of "frame_vid frame"] assms(3,4) by (auto simp: t1_def)
  moreover have "frame_vid frame = 0 \<or> im_ports ops (frame_vid frame) t1 \<noteq> None"
    using update_known [OF ok, of "fr_src frame" "frame_vid frame" now inputport] assms(5)
    by (auto simp: t1_def)
  ultimately show ?thesis
    using assms(2) broadcastFrame_flood [of t1 "frame_vid frame" "numPorts r" frame inputport]
    by (simp add: handleAndDispatchFrame_def Let_def case_prod_unfold t1_def [symmetric])
qed

end

section \<open>MACAddressTable provides it\<close>

definition table_ops :: "mac_table imac" where
  "table_ops =
     \<lparr>im_update = updateTableWithAddress, im_port = getPortForAddress, im_ports = getPortForVid,
      im_clear = clearTable\<rparr>"

definition table_port :: "simtime \<Rightarrow> mac_table \<Rightarrow> u32 \<Rightarrow> mac_addr \<Rightarrow> int option" where
  "table_port now t vid a = map_option portno (keep_fresh now t (lookup t vid a))"

definition table_ports :: "u32 \<Rightarrow> mac_table \<Rightarrow> int list" where
  "table_ports vid t =
     (case map_of (vlanAddressTable t) vid of
        None \<Rightarrow> [] | Some p \<Rightarrow> map (\<lambda>(_, e). portno e) (cell t p))"

lemma table_ports_iff:
  assumes "mt_wf t"
  shows "p \<in> set (table_ports vid t) \<longleftrightarrow> (\<exists>a e. lookup t vid a = Some e \<and> portno e = p)"
proof (cases "map_of (vlanAddressTable t) vid")
  case (Some q)
  then have "om_wf (cell t q)" using mt_wf_cell(1) [OF assms Some] by (simp add: table_ok_def)
  with Some show ?thesis
    by (auto simp: table_ports_def lookup_def om_wf_map_of_mem image_iff split_beta)
      (metis fst_conv om_wf_map_of_mem snd_conv surjective_pairing)+
qed (simp add: table_ports_def lookup_def)

lemma table_ports_mono:
  assumes "mt_wf t" and "mt_wf u"
    and "\<And>b e. lookup u w b = Some e \<Longrightarrow> lookup t w b = Some e \<or> portno e \<in> X"
  shows "set (table_ports w u) \<subseteq> X \<union> set (table_ports w t)"
  using assms(3) by (fastforce simp: table_ports_iff [OF assms(1)] table_ports_iff [OF assms(2)])

lemma keep_fresh_cases: "keep_fresh now t x = Some e \<Longrightarrow> x = Some e"
  by (auto simp: keep_fresh_def split: option.splits if_splits)

lemma table_ports_update:
  assumes "mt_wf t"
  shows "set (table_ports w (snd (updateTableWithAddress now p a vid t))) \<subseteq> insert p (set (table_ports w t))"
proof (cases "isBroadcast a")
  case False
  have "lookup (snd (updateTableWithAddress now p a vid t)) w b = Some e \<Longrightarrow>
      lookup t w b = Some e \<or> portno e \<in> {p}" for b e
    using updateTableWithAddress_updated [OF assms False, of now p vid]
    by (auto simp: updated_def split: if_splits dest!: keep_fresh_cases)
  from table_ports_mono [OF assms updateTableWithAddress_wf [OF assms] this]
  show ?thesis by simp
qed (auto simp: updateTableWithAddress_broadcast)

lemma getPortForVid_known: "mt_wf t \<Longrightarrow> getPortForVid vid t = None \<longleftrightarrow> map_of (vlanAddressTable t) vid = None"
  by (simp add: getPortForVid_filled)

lemma getPortForAddress_aging:
  "keep_fresh later (snd (getPortForAddress now a vid t)) = keep_fresh later t"
  by (rule keep_fresh_aging) (simp add: getPortForAddress_def split: option.split)

lemma table_port_update:
  assumes "mt_wf t" and "now \<le> later" and "w \<noteq> vid \<or> b \<noteq> a"
  shows "table_port later (snd (updateTableWithAddress now p a vid t)) w b = table_port later t w b"
proof (cases "isBroadcast a")
  case False
  have up: "updated now p a vid t (updateTableWithAddress now p a vid t)"
    using updateTableWithAddress_updated [OF assms(1) False] .
  then have "keep_fresh later (snd (updateTableWithAddress now p a vid t)) = keep_fresh later t"
    by (intro keep_fresh_aging) (simp add: updated_def)
  then show ?thesis
    using up assms(3) keep_fresh_keep_fresh [OF assms(2)] by (auto simp: updated_def table_port_def)
qed (simp add: updateTableWithAddress_broadcast)

interpretation mt: address_table table_ops mt_wf table_port table_ports agingTime
proof unfold_locales
  fix t :: mac_table and now later :: simtime and p :: int and a b :: mac_addr and vid w :: u32
    and ps :: "int option list"
  show "isBroadcast a \<Longrightarrow> snd (im_update table_ops now p a vid t) = t"
    by (simp add: table_ops_def updateTableWithAddress_broadcast)
  assume wf: "mt_wf t"
  show "mt_wf (snd (im_update table_ops now p a vid t))"
    by (simp add: table_ops_def updateTableWithAddress_wf wf)
  show "set (table_ports w (snd (im_update table_ops now p a vid t))) \<subseteq> insert p (set (table_ports w t))"
    by (simp add: table_ops_def table_ports_update wf)
  show "agingTime (snd (im_update table_ops now p a vid t)) = agingTime t"
    using mt_exec_aging [OF wf, of now "Learn p a vid"] by (simp add: table_ops_def)
  show "fst (im_port table_ops now a vid t) = (case table_port now t vid a of None \<Rightarrow> -1 | Some p \<Rightarrow> p)"
    by (simp add: table_ops_def getPortForAddress_result wf table_port_def split: option.split)
  show okp: "mt_wf (snd (im_port table_ops now a vid t))"
    by (simp add: table_ops_def getPortForAddress_wf wf)
  have vl: "vlanAddressTable (snd (im_port table_ops now a vid t)) = vlanAddressTable t"
    by (simp add: table_ops_def getPortForAddress_def split: option.split)
  show "(im_ports table_ops w (snd (im_port table_ops now a vid t)) = None) = (im_ports table_ops w t = None)"
    using getPortForVid_known [OF wf] getPortForVid_known [OF okp] vl by (simp add: table_ops_def)
  show "table_port later (snd (im_port table_ops now a vid t)) w b = table_port later t w b"
    if "now \<le> later"
    using keep_fresh_keep_fresh [OF that]
    by (simp add: table_port_def table_ops_def getPortForAddress_lookup wf getPortForAddress_aging)
  show "table_port later (snd (im_update table_ops now p a vid t)) w b = table_port later t w b"
    if "now \<le> later" and "w \<noteq> vid \<or> b \<noteq> a"
    using table_port_update [OF wf that] by (simp add: table_ops_def)
  have "lookup (snd (im_port table_ops now a vid t)) w b = Some e \<Longrightarrow>
      lookup t w b = Some e \<or> portno e \<in> {}" for b e
    by (auto simp: table_ops_def getPortForAddress_lookup wf split: if_splits dest: keep_fresh_cases)
  from table_ports_mono [OF wf okp this]
  show "set (table_ports w (snd (im_port table_ops now a vid t))) \<subseteq> set (table_ports w t)" by simp
  show "p \<in> set (table_ports vid t)" if "table_port now t vid a = Some p"
    using that by (auto simp: table_ports_iff wf table_port_def dest!: keep_fresh_cases)
  show "ps = map Some (table_ports vid t)" if "im_ports table_ops vid t = Some ps"
    using that by (auto simp: table_ops_def getPortForVid_filled wf table_ports_def split_beta)
  show "mt_wf (im_clear table_ops t) \<and> table_ports w (im_clear table_ops t) = []"
    using clearTable_spec [OF wf] by (simp add: table_ops_def) (simp add: table_ports_def clearTable_def)
  assume nb: "\<not> isBroadcast a"
  note up = updateTableWithAddress_updated [OF wf nb, of now p vid]
  have "lookup (snd (im_update table_ops now p a vid t)) vid a \<noteq> None"
    using up by (simp add: table_ops_def updated_def)
  then show "im_ports table_ops vid (snd (im_update table_ops now p a vid t)) \<noteq> None"
    using updateTableWithAddress_wf [OF wf]
    by (auto simp: table_ops_def getPortForVid_known lookup_def split: option.splits)
  show "table_port later (snd (im_update table_ops now p a vid t)) vid a = Some p"
    if "now \<le> later" and "later < now + agingTime t"
    using that up by (simp add: table_ops_def table_port_def updated_def keep_fresh_def aged_def)
qed

section \<open>The relay with its table\<close>

text \<open>
  The relay of a switch with \<open>n\<close> ports and everything it has sent: frames arrive on existing
  ports, lifecycle operations reach it in any stage.
\<close>

inductive relay_reach :: "int \<Rightarrow> simtime \<Rightarrow> mac_table relay \<Rightarrow> 'p sends \<Rightarrow> bool" for n aging where
  init: "relay_initialize n n up (mt_new aging) = Inr r \<Longrightarrow> relay_reach n aging r []"
| frame: "relay_reach n aging r sent \<Longrightarrow> 0 \<le> inputport \<Longrightarrow> inputport < n \<Longrightarrow>
    relay_handleMessage table_ops now inputport (EtherFrameMsg f) r = Inr (r', outs) \<Longrightarrow>
    frame_vid f = 0 \<or> \<not> isBroadcast (fr_src f) \<Longrightarrow> relay_reach n aging r' (sent @ outs)"
| lifecycle: "relay_reach n aging r sent \<Longrightarrow>
    relay_handleOperationStage table_ops op stage r = Inr r' \<Longrightarrow> relay_reach n aging r' sent"

lemma relay_reach_ok: "relay_reach n aging r sent \<Longrightarrow> mt.relay_ok r \<and> numPorts r = n"
proof (induction rule: relay_reach.induct)
  case (init up r)
  then show ?case
    by (auto simp: relay_initialize_def mt.relay_ok_def)
      (auto simp: table_ports_def mt_new_def cell_def split: if_splits)
next
  case (frame r sent inputport now f r' outs)
  then show ?case
    using mt.handle_total [of r inputport f now]
    by (auto simp: relay_handleMessage_def split: if_splits)
next
  case (lifecycle r sent op stage r')
  then show ?case
    using mt.clear_ok [of "relayTable r"]
    by (cases op) (auto simp: relay_start_def relay_stop_def mt.relay_ok_def split: if_splits)
qed

section \<open>Properties\<close>

text \<open>
  C35. A frame never leaves on the port it came from, whatever the address table answers: every
  frame sent is the received one, on an existing port other than the input port.
\<close>

theorem relay_never_reflects:
  assumes "relay_handleMessage ops now inputport msg r = Inr (r', outs)"
  shows "\<forall>(p, f) \<in> set outs. p \<noteq> inputport \<and> msg = EtherFrameMsg f \<and> 0 \<le> p \<and> p < numPorts r"
  using assms handle_not_input [of ops now inputport _ r r' outs]
  by (fastforce simp: relay_handleMessage_def split: if_splits EtherTraffic.splits)

text \<open>
  In every reachable state of the relay a frame on an existing port is handled without error,
  unless it is the first frame of a VLAN and has the broadcast address as its source.
\<close>

theorem relay_completes:
  assumes "relay_reach n aging r sent" and "0 \<le> inputport" and "inputport < n"
    and "frame_vid f = 0 \<or> \<not> isBroadcast (fr_src f)"
  shows "\<exists>r' outs. relay_handleMessage table_ops now inputport (EtherFrameMsg f) r = Inr (r', outs)"
  using mt.handle_total [of r inputport f now] relay_reach_ok [OF assms(1)] assms(2-4)
  by (auto simp: relay_handleMessage_def)

text \<open>
  Address learning: after a frame from station \<open>a\<close> came in on port \<open>p\<close>, a frame for \<open>a\<close> in the
  same VLAN that arrives on another port before the entry ages is sent to \<open>p\<close> and to no other
  port.
\<close>

theorem relay_learns:
  assumes "relay_reach n aging r sent" and "0 \<le> p" and "p < n" and "0 \<le> q" and "q < n" and "p \<noteq> q"
    and "handleAndDispatchFrame table_ops t1 p f1 r = Inr (r1, outs1)"
    and "\<not> isBroadcast (fr_src f1)" and "t1 \<le> t2" and "t2 < t1 + agingTime (relayTable r)"
    and "fr_dest f2 = fr_src f1" and "fr_src f2 \<noteq> fr_src f1" and "frame_vid f2 = frame_vid f1"
  shows "\<exists>r2. handleAndDispatchFrame table_ops t2 q f2 r1 = Inr (r2, [(p, f2)])"
proof -
  have ok: "mt.relay_ok r" "numPorts r = n" using relay_reach_ok [OF assms(1)] by auto
  have ok1: "mt.relay_ok r1" "numPorts r1 = n"
    using mt.handle_total [OF ok(1), of p f1 t1] assms(2,3,7,8) ok(2) by auto
  have "table_port t2 (relayTable r1) (frame_vid f1) (fr_src f1) = Some p"
    using mt.handle_learns [OF ok(1) assms(7,8,9,10)] .
  moreover have "mt_wf (relayTable r1)" using ok1(1) by (simp add: mt.relay_ok_def)
  ultimately have "table_port t2 (snd (im_update table_ops t2 q (fr_src f2) (frame_vid f2) (relayTable r1)))
      (frame_vid f2) (fr_dest f2) = Some p"
    using mt.update_keeps [of "relayTable r1" t2 t2 "frame_vid f2" "frame_vid f2" "fr_dest f2" "fr_src f2" q]
      assms(11-13) by simp
  then show ?thesis
    using mt.handle_unicast [OF ok1(1), of f2 t2 q p] assms ok1(2) by simp
qed

text \<open>
  Flooding, of broadcasts and of destinations the table does not know (every multicast address,
  so every GOOSE and SV stream): the copies are exactly those for the ports of the VLAN's entries,
  one per entry, when the VLAN is not 0 and has at least two entries, and else one for every other
  port of the switch.
\<close>

theorem relay_flood:
  fixes f :: "'p EtherFrame" and now :: simtime
  assumes "relay_reach n aging r sent" and "0 \<le> inputport" and "inputport < n"
    and "frame_vid f = 0 \<or> \<not> isBroadcast (fr_src f)"
  defines "t1 \<equiv> snd (updateTableWithAddress now inputport (fr_src f) (frame_vid f) (relayTable r))"
  assumes "isBroadcast (fr_dest f) \<or> lookup t1 (frame_vid f) (fr_dest f) = None"
  shows "\<exists>r'. handleAndDispatchFrame table_ops now inputport f r =
    Inr (r', map (\<lambda>p. (p, f)) (filter (\<lambda>p. p \<noteq> inputport)
      (if frame_vid f \<noteq> 0 \<and> length (table_ports (frame_vid f) t1) > 1
       then table_ports (frame_vid f) t1 else [0..n - 1])))"
proof -
  have ok: "mt.relay_ok r" "numPorts r = n" using relay_reach_ok [OF assms(1)] by auto
  have im: "t1 = snd (im_update table_ops now inputport (fr_src f) (frame_vid f) (relayTable r))"
    by (simp add: t1_def table_ops_def)
  have wf: "mt_wf (relayTable r)" and wf1: "mt_wf t1"
    using ok(1) mt.update_ok [of "relayTable r"] by (simp_all add: mt.relay_ok_def im)
  have "insert inputport (set (table_ports (frame_vid f) (relayTable r))) \<subseteq> {0..<n}"
    using ok assms(2,3) by (simp add: mt.relay_ok_def)
  then have sub: "set (table_ports (frame_vid f) t1) \<subseteq> {0..<n}"
    using mt.update_ports [OF wf, of "frame_vid f" now inputport "fr_src f" "frame_vid f"]
    unfolding im by (rule subset_trans [rotated])
  have kn: "frame_vid f = 0 \<or> im_ports table_ops (frame_vid f) t1 \<noteq> None"
    using mt.update_known [OF wf, of "fr_src f" "frame_vid f" now inputport] assms(4) by (auto simp: im)
  have bc: "broadcastFrame table_ops n f inputport (frame_vid f) t1 =
      Inr (map (\<lambda>p. (p, f)) (filter (\<lambda>p. p \<noteq> inputport) (mt.flood_ports n (frame_vid f) t1)))"
    using mt.broadcastFrame_flood [OF wf1 sub kn] .
  have "im_port table_ops now (fr_dest f) (frame_vid f) t1 = (-1, t1)"
    if "lookup t1 (frame_vid f) (fr_dest f) = None"
    using that by (auto simp: table_ops_def getPortForAddress_def getTableForVid_wf wf1 lookup_def
        split: option.splits)
  then show ?thesis
    using assms(2,6) bc
    by (auto simp: handleAndDispatchFrame_def Let_def case_prod_unfold im [symmetric] ok(2) mt.flood_ports_def)
qed

definition vlan_frame :: "mac_addr \<Rightarrow> mac_addr \<Rightarrow> 12 word \<Rightarrow> unit EtherFrame" where
  "vlan_frame dest src vid =
     \<lparr>fr_dest = dest, fr_src = src,
      fr_class = Ethernet1QTag 0x8100 \<lparr>tag_ppc = 4, tag_de = 0, tag_vid = vid\<rparr> 0,
      fr_byteLength = 64, fr_bitError = False, fr_encap = None\<rparr>"

definition relay4 :: "mac_table relay" where
  "relay4 = projr (relay_initialize 4 4 None (mt_new 1000))"

text \<open>The frames of a list, each with its port, all at time \<open>0\<close>; the sends of the last one.\<close>

fun relay_run :: "mac_table relay \<Rightarrow> (int \<times> unit EtherFrame) list \<Rightarrow> unit sends res" where
  "relay_run r [] = Inr []"
| "relay_run r ((p, f) # fs) =
     bindR (handleAndDispatchFrame table_ops 0 p f r) (\<lambda>(r', outs).
       if fs = [] then Inr outs else relay_run r' fs)"

text \<open>
  What that means for a tagged multicast: a port behind which two stations were learnt gets
  the frame twice while ports without a learnt station get nothing; and when all learnt stations
  of the VLAN are on the input port the frame is sent nowhere. With one learnt station the same
  frame floods every other port.
\<close>

theorem relay_vlan_flood_anomalies:
  "relay_run relay4 [(2, vlan_frame 1154490630145 16 5), (2, vlan_frame 1154490630145 17 5),
     (1, vlan_frame 1154490630145 18 5)]
   = Inr [(2, vlan_frame 1154490630145 18 5), (2, vlan_frame 1154490630145 18 5)]
   \<and> relay_run relay4 [(1, vlan_frame 1154490630145 17 5), (1, vlan_frame 1154490630145 18 5)] = Inr []
   \<and> relay_run relay4 [(1, vlan_frame 1154490630145 18 5)]
   = Inr [(0, vlan_frame 1154490630145 18 5), (2, vlan_frame 1154490630145 18 5),
          (3, vlan_frame 1154490630145 18 5)]"
  by (intro conjI; code_simp)

text \<open>
  A frame tagged with a VLAN that has no table yet, whose source is the broadcast address,
  makes \<open>broadcastFrame\<close> read its variable \<open>ports\<close> before anything wrote it.
\<close>

theorem relay_reads_uninitialised:
  assumes "mt_wf (relayTable r)" and "map_of (vlanAddressTable (relayTable r)) (frame_vid f) = None"
    and "frame_vid f \<noteq> 0" and "isBroadcast (fr_src f)" and "0 \<le> inputport"
  shows "handleAndDispatchFrame table_ops now inputport f r = Inl UninitRead"
  using assms
  by (auto simp: handleAndDispatchFrame_def table_ops_def updateTableWithAddress_broadcast Let_def
      getPortForAddress_def broadcastFrame_def getTableForVid_wf getPortForVid_def)

lemma relay_reads_uninitialised_witness:
  "handleAndDispatchFrame table_ops 0 1 (vlan_frame 1 BROADCAST_ADDRESS 5) relay4 = Inl UninitRead"
proof (rule relay_reads_uninitialised)
  show "mt_wf (relayTable relay4)" by (simp add: relay4_def relay_initialize_def)
  show "map_of (vlanAddressTable (relayTable relay4)) (frame_vid (vlan_frame 1 BROADCAST_ADDRESS 5)) = None"
    by code_simp
qed (simp_all add: frame_vid_def vlan_frame_def isBroadcast_def BROADCAST_ADDRESS_def)

lemma relay4_reach: "relay_reach 4 1000 relay4 []"
  by (rule relay_reach.init [of _ None]) (simp add: relay4_def relay_initialize_def)

lemma relay_never_reflects_witness:
  "list_all (\<lambda>(p, f). p \<noteq> 1 \<and> EtherFrameMsg (vlan_frame 1 18 5) = EtherFrameMsg f \<and> 0 \<le> p \<and> p < numPorts relay4)
     (snd (projr (relay_handleMessage table_ops 0 1 (EtherFrameMsg (vlan_frame 1 18 5)) relay4)))"
  unfolding list_all_iff
proof (rule relay_never_reflects)
  have "\<exists>r' outs. relay_handleMessage table_ops 0 1 (EtherFrameMsg (vlan_frame 1 18 5)) relay4 = Inr (r', outs)"
    using mt.handle_total [of relay4 1 "vlan_frame 1 18 5" 0] relay_reach_ok [OF relay4_reach]
    by (auto simp: relay_handleMessage_def relay4_def relay_initialize_def vlan_frame_def
        isBroadcast_def BROADCAST_ADDRESS_def MAC_ADDRESS_MASK_def)
  then show "relay_handleMessage table_ops 0 1 (EtherFrameMsg (vlan_frame 1 18 5)) relay4 =
      Inr (fst (projr (relay_handleMessage table_ops 0 1 (EtherFrameMsg (vlan_frame 1 18 5)) relay4)),
           snd (projr (relay_handleMessage table_ops 0 1 (EtherFrameMsg (vlan_frame 1 18 5)) relay4)))"
    by auto
qed

lemma not_broadcast_small: "a < 1000 \<Longrightarrow> \<not> isBroadcast a"
  by (auto simp: isBroadcast_def BROADCAST_ADDRESS_def MAC_ADDRESS_MASK_def)

lemma relay_completes_witness:
  "\<exists>r' outs. relay_handleMessage table_ops 7 1 (EtherFrameMsg (vlan_frame 1 18 5)) relay4 = Inr (r', outs)"
  by (rule relay_completes [OF relay4_reach]) (simp_all add: vlan_frame_def not_broadcast_small)

lemma relay_learns_witness:
  "\<exists>r2. handleAndDispatchFrame table_ops 10 2 (vlan_frame 18 19 5)
     (fst (projr (handleAndDispatchFrame table_ops 0 1 (vlan_frame 1 18 5) relay4)))
   = Inr (r2, [(1, vlan_frame 18 19 5)])"
proof (rule relay_learns [OF relay4_reach, of 1 2 0 "vlan_frame 1 18 5"])
  show "handleAndDispatchFrame table_ops 0 1 (vlan_frame 1 18 5) relay4 =
      Inr (fst (projr (handleAndDispatchFrame table_ops 0 1 (vlan_frame 1 18 5) relay4)),
           snd (projr (handleAndDispatchFrame table_ops 0 1 (vlan_frame 1 18 5) relay4)))"
    using mt.handle_total [of relay4 1 "vlan_frame 1 18 5" 0] relay_reach_ok [OF relay4_reach]
    by (auto simp: vlan_frame_def not_broadcast_small)
qed (simp_all add: vlan_frame_def not_broadcast_small frame_vid_def relay4_def relay_initialize_def)

lemma relay_flood_witness:
  "\<exists>r'. handleAndDispatchFrame table_ops 0 1 (vlan_frame 1154490630145 18 5) relay4 =
     Inr (r', map (\<lambda>p. (p, vlan_frame 1154490630145 18 5)) (filter (\<lambda>p. p \<noteq> 1)
       (if frame_vid (vlan_frame 1154490630145 18 5) \<noteq> 0
           \<and> length (table_ports (frame_vid (vlan_frame 1154490630145 18 5))
               (snd (updateTableWithAddress 0 1 (fr_src (vlan_frame 1154490630145 18 5))
                  (frame_vid (vlan_frame 1154490630145 18 5)) (relayTable relay4)))) > 1
        then table_ports (frame_vid (vlan_frame 1154490630145 18 5))
               (snd (updateTableWithAddress 0 1 (fr_src (vlan_frame 1154490630145 18 5))
                  (frame_vid (vlan_frame 1154490630145 18 5)) (relayTable relay4)))
        else [0..4 - 1])))"
proof (rule relay_flood [OF relay4_reach])
  show "isBroadcast (fr_dest (vlan_frame 1154490630145 18 5)) \<or>
      lookup (snd (updateTableWithAddress 0 1 (fr_src (vlan_frame 1154490630145 18 5))
        (frame_vid (vlan_frame 1154490630145 18 5)) (relayTable relay4)))
        (frame_vid (vlan_frame 1154490630145 18 5)) (fr_dest (vlan_frame 1154490630145 18 5)) = None"
    by code_simp
qed (simp_all add: vlan_frame_def not_broadcast_small)

end
