(* ===== verification/PassiveQueue.thy ===== *)
theory PassiveQueue
  imports EtherFrame "HOL-Library.Sublist"
begin

text \<open>
  \<open>base/PassiveQueueBase\<close> and its subclasses \<open>DropTailQueue\<close> and \<open>FIFOQueue\<close>. The base class is
  generic in the virtual methods \<open>enqueue\<close> and \<open>dequeue\<close>; so are its operations here, and the
  locale \<open>passive_queue\<close> states what they promise. A queue is connected to its successor by
  \<open>sentOut\<close>, the log of the messages it sent on its gate; \<open>dropLog\<close> is the trace of the signal
  \<open>dropPkByQueue\<close>. An operation that calls \<open>notifyListeners\<close> says so in its boolean result, and
  the compound module that knows the listeners makes the call.
\<close>

section \<open>PassiveQueueBase\<close>

record ('q, 'm) pqueue =
  packetRequested :: int
  numQueueReceived :: int
  numQueueDropped :: int
  sentOut :: "'m list"
  dropLog :: "'m list"
  store :: 'q

definition pq_initialize :: "'q \<Rightarrow> ('q, 'm) pqueue" where
  "pq_initialize q =
     \<lparr>packetRequested = 0, numQueueReceived = 0, numQueueDropped = 0, sentOut = [], dropLog = [],
      store = q\<rparr>"

definition pq_handleMessage ::
    "('q \<Rightarrow> 'm \<Rightarrow> 'q \<times> 'm option) \<Rightarrow> ('q, 'm) pqueue \<Rightarrow> 'm \<Rightarrow> ('q, 'm) pqueue \<times> bool" where
  "pq_handleMessage enq s msg =
     (let s1 = s\<lparr>numQueueReceived := numQueueReceived s + 1\<rparr> in
      if packetRequested s1 > 0 then
        (s1\<lparr>packetRequested := packetRequested s1 - 1, sentOut := sentOut s1 @ [msg]\<rparr>, False)
      else
        case enq (store s1) msg of
          (q, Some droppedMsg) \<Rightarrow>
            (s1\<lparr>store := q, numQueueDropped := numQueueDropped s1 + 1,
                dropLog := dropLog s1 @ [droppedMsg]\<rparr>, False)
        | (q, None) \<Rightarrow> (s1\<lparr>store := q\<rparr>, True))"

definition pq_requestPacket :: "('q \<Rightarrow> 'q \<times> 'm option) \<Rightarrow> ('q, 'm) pqueue \<Rightarrow> ('q, 'm) pqueue" where
  "pq_requestPacket deq s =
     (case deq (store s) of
        (q, None) \<Rightarrow> s\<lparr>store := q, packetRequested := packetRequested s + 1\<rparr>
      | (q, Some msg) \<Rightarrow> s\<lparr>store := q, sentOut := sentOut s @ [msg]\<rparr>)"

text \<open>The loop of \<open>clear\<close> dequeues until NULL; \<open>None\<close> would be a loop that does not end.\<close>

partial_function (option) drain :: "('q \<Rightarrow> 'q \<times> 'm option) \<Rightarrow> 'q \<Rightarrow> 'q option" where
  "drain deq q = (case deq q of (q', None) \<Rightarrow> Some q' | (q', Some _) \<Rightarrow> drain deq q')"

definition pq_clear :: "('q \<Rightarrow> 'q \<times> 'm option) \<Rightarrow> ('q, 'm) pqueue \<Rightarrow> ('q, 'm) pqueue option" where
  "pq_clear deq s = map_option (\<lambda>q. s\<lparr>store := q, packetRequested := 0\<rparr>) (drain deq (store s))"

definition pq_pop :: "('q \<Rightarrow> 'q \<times> 'm option) \<Rightarrow> ('q, 'm) pqueue \<Rightarrow> ('q, 'm) pqueue \<times> 'm option" where
  "pq_pop deq s = (case deq (store s) of (q, m) \<Rightarrow> (s\<lparr>store := q\<rparr>, m))"

definition addListener :: "'l \<Rightarrow> 'l list \<Rightarrow> 'l list" where
  "addListener l ls = (if l \<in> set ls then ls else ls @ [l])"

definition removeListener :: "'l \<Rightarrow> 'l list \<Rightarrow> 'l list" where
  "removeListener l ls = remove1 l ls"

section \<open>The contract of the virtual methods\<close>

text \<open>
  \<open>contents\<close> is the abstract queue. \<open>enqueue\<close> appends or refuses the new message, \<open>dequeue\<close>
  takes the first one.
\<close>

locale passive_queue =
  fixes enq :: "'q \<Rightarrow> 'm \<Rightarrow> 'q \<times> 'm option"
    and deq :: "'q \<Rightarrow> 'q \<times> 'm option"
    and is_empty :: "'q \<Rightarrow> bool"
    and contents :: "'q \<Rightarrow> 'm list"
  assumes enq_cases:
      "\<And>q m. (\<exists>q'. enq q m = (q', None) \<and> contents q' = contents q @ [m]) \<or> enq q m = (q, Some m)"
    and deq_nil: "\<And>q. contents q = [] \<Longrightarrow> deq q = (q, None)"
    and deq_cons: "\<And>q m ms. contents q = m # ms \<Longrightarrow> \<exists>q'. deq q = (q', Some m) \<and> contents q' = ms"
    and is_empty_iff: "\<And>q. is_empty q \<longleftrightarrow> contents q = []"
begin

text \<open>All frames the queue took and did not drop, in the order in which they leave.\<close>

definition accepted :: "('q, 'm) pqueue \<Rightarrow> 'm list" where
  "accepted s = sentOut s @ contents (store s)"

definition sound :: "('q, 'm) pqueue \<Rightarrow> bool" where
  "sound s \<longleftrightarrow> 0 \<le> packetRequested s \<and> (packetRequested s > 0 \<longrightarrow> contents (store s) = [])
     \<and> numQueueDropped s = int (length (dropLog s))"

lemma sound_initialize: "contents q = [] \<Longrightarrow> sound (pq_initialize q)"
  by (simp add: sound_def pq_initialize_def)

lemma handleMessage_accepted:
  assumes "sound s" and "pq_handleMessage enq s m = (s', n)"
  shows "(accepted s' = accepted s @ [m] \<and> dropLog s' = dropLog s)
       \<or> (accepted s' = accepted s \<and> dropLog s' = dropLog s @ [m])"
  using assms enq_cases [of "store s" m]
  by (auto simp: pq_handleMessage_def accepted_def sound_def Let_def split: if_splits)

lemma handleMessage_sound:
  assumes "sound s" and "pq_handleMessage enq s m = (s', n)"
  shows "sound s'"
  using assms enq_cases [of "store s" m]
  by (auto simp: pq_handleMessage_def sound_def Let_def split: if_splits)

lemma handleMessage_notifies:
  assumes "packetRequested s = 0" and "pq_handleMessage enq s m = (s', n)"
  shows "n \<longleftrightarrow> contents (store s') = contents (store s) @ [m]"
    and "\<not> n \<longleftrightarrow> store s' = store s"
    and "packetRequested s' = 0" and "sentOut s' = sentOut s"
  using assms enq_cases [of "store s" m]
  by (auto simp: pq_handleMessage_def Let_def split: if_splits)

lemma requestPacket_accepted: "accepted (pq_requestPacket deq s) = accepted s"
  by (cases "contents (store s)") (auto simp: pq_requestPacket_def accepted_def deq_nil dest!: deq_cons)

lemma requestPacket_sound: "sound s \<Longrightarrow> sound (pq_requestPacket deq s)"
  by (cases "contents (store s)") (auto simp: pq_requestPacket_def sound_def deq_nil dest!: deq_cons)

lemma requestPacket_nonempty:
  assumes "contents (store s) = m # ms"
  shows "sentOut (pq_requestPacket deq s) = sentOut s @ [m]"
    and "contents (store (pq_requestPacket deq s)) = ms"
    and "packetRequested (pq_requestPacket deq s) = packetRequested s"
    and "dropLog (pq_requestPacket deq s) = dropLog s"
  using deq_cons [OF assms] by (auto simp: pq_requestPacket_def)

lemma requestPacket_empty:
  assumes "contents (store s) = []"
  shows "pq_requestPacket deq s = s\<lparr>packetRequested := packetRequested s + 1\<rparr>"
  using deq_nil [OF assms] by (auto simp: pq_requestPacket_def)

lemma drain_returns: "\<exists>q'. drain deq q = Some q' \<and> contents q' = []"
proof (induction "length (contents q)" arbitrary: q)
  case 0
  then show ?case by (subst drain.simps) (simp add: deq_nil)
next
  case (Suc n)
  then obtain m ms where c: "contents q = m # ms" by (cases "contents q") auto
  with deq_cons obtain q1 where q1: "deq q = (q1, Some m)" "contents q1 = ms" by blast
  with Suc c have "\<exists>q'. drain deq q1 = Some q' \<and> contents q' = []" by simp
  with q1 show ?case by (subst drain.simps) simp
qed

lemma clear_returns:
  "\<exists>s'. pq_clear deq s = Some s' \<and> contents (store s') = [] \<and> packetRequested s' = 0
      \<and> sentOut s' = sentOut s"
  using drain_returns [of "store s"] by (auto simp: pq_clear_def)

lemma pop_fst: "pq_pop deq s = (s', m) \<Longrightarrow>
    (case contents (store s) of [] \<Rightarrow> m = None \<and> s' = s
     | x # xs \<Rightarrow> m = Some x \<and> contents (store s') = xs)"
  by (cases "contents (store s)") (auto simp: pq_pop_def deq_nil dest!: deq_cons)

end

section \<open>DropTailQueue\<close>

record 'm droptail =
  frameCapacity :: int
  dtQueue :: "'m list"

definition dt_enqueue :: "'m droptail \<Rightarrow> 'm \<Rightarrow> 'm droptail \<times> 'm option" where
  "dt_enqueue q msg =
     (if frameCapacity q \<noteq> 0 \<and> int (length (dtQueue q)) \<ge> frameCapacity q then (q, Some msg)
      else (q\<lparr>dtQueue := dtQueue q @ [msg]\<rparr>, None))"

definition dt_dequeue :: "'m droptail \<Rightarrow> 'm droptail \<times> 'm option" where
  "dt_dequeue q =
     (case dtQueue q of [] \<Rightarrow> (q, None) | msg # rest \<Rightarrow> (q\<lparr>dtQueue := rest\<rparr>, Some msg))"

definition dt_isEmpty :: "'m droptail \<Rightarrow> bool" where
  "dt_isEmpty q \<longleftrightarrow> dtQueue q = []"

interpretation dt: passive_queue dt_enqueue dt_dequeue dt_isEmpty dtQueue
  by unfold_locales (auto simp: dt_enqueue_def dt_dequeue_def dt_isEmpty_def)

section \<open>FIFOQueue\<close>

record 'm fifo =
  fifoQueue :: "'m list"
  fifoByteLength :: int

text \<open>\<open>len\<close> is \<open>cPacket::getByteLength\<close>.\<close>

definition fifo_enqueue :: "('m \<Rightarrow> int) \<Rightarrow> 'm fifo \<Rightarrow> 'm \<Rightarrow> 'm fifo \<times> 'm option" where
  "fifo_enqueue len q msg =
     (q\<lparr>fifoQueue := fifoQueue q @ [msg], fifoByteLength := fifoByteLength q + len msg\<rparr>, None)"

definition fifo_dequeue :: "('m \<Rightarrow> int) \<Rightarrow> 'm fifo \<Rightarrow> 'm fifo \<times> 'm option" where
  "fifo_dequeue len q =
     (case fifoQueue q of
        [] \<Rightarrow> (q, None)
      | msg # rest \<Rightarrow>
          (q\<lparr>fifoQueue := rest, fifoByteLength := fifoByteLength q - len msg\<rparr>, Some msg))"

definition fifo_isEmpty :: "'m fifo \<Rightarrow> bool" where
  "fifo_isEmpty q \<longleftrightarrow> fifoQueue q = []"

definition fifo_getLength :: "'m fifo \<Rightarrow> int" where
  "fifo_getLength q = int (length (fifoQueue q))"

definition fifo_getByteLength :: "'m fifo \<Rightarrow> int" where
  "fifo_getByteLength q = fifoByteLength q"

interpretation fq: passive_queue "fifo_enqueue len" "fifo_dequeue len" fifo_isEmpty fifoQueue
  by unfold_locales (auto simp: fifo_enqueue_def fifo_dequeue_def fifo_isEmpty_def)

section \<open>Runs of a queue\<close>

text \<open>The events of a passive queue: a message arrives, or its successor asks for a packet.\<close>

datatype 'm queue_event = Arrival 'm | Request

fun arrivals :: "'m queue_event list \<Rightarrow> 'm list" where
  "arrivals [] = []"
| "arrivals (Arrival m # es) = m # arrivals es"
| "arrivals (Request # es) = arrivals es"

fun pq_run ::
    "('q \<Rightarrow> 'm \<Rightarrow> 'q \<times> 'm option) \<Rightarrow> ('q \<Rightarrow> 'q \<times> 'm option) \<Rightarrow> ('q, 'm) pqueue
     \<Rightarrow> 'm queue_event list \<Rightarrow> ('q, 'm) pqueue" where
  "pq_run enq deq s [] = s"
| "pq_run enq deq s (Arrival m # es) = pq_run enq deq (fst (pq_handleMessage enq s m)) es"
| "pq_run enq deq s (Request # es) = pq_run enq deq (pq_requestPacket deq s) es"

context passive_queue
begin

definition explains :: "('q, 'm) pqueue \<Rightarrow> 'm list \<Rightarrow> bool" where
  "explains s arr \<longleftrightarrow> sound s \<and> subseq (accepted s) arr
     \<and> mset arr = mset (accepted s) + mset (dropLog s)"

lemma explains_handleMessage:
  assumes "explains s arr"
  shows "explains (fst (pq_handleMessage enq s m)) (arr @ [m])"
proof -
  obtain s' n where h: "pq_handleMessage enq s m = (s', n)" by fastforce
  have snd: "sound s" and sub: "subseq (accepted s) arr"
    and ms: "mset arr = mset (accepted s) + mset (dropLog s)"
    using assms by (auto simp: explains_def)
  have "sound s'" using handleMessage_sound [OF snd h] .
  moreover have "subseq (accepted s @ [m]) (arr @ [m])"
    and "subseq (accepted s) (arr @ [m])"
    using sub by (auto intro: list_emb_append_mono subseq_order.trans [OF sub])
  ultimately show ?thesis
    using handleMessage_accepted [OF snd h] ms by (auto simp: explains_def h)
qed

lemma explains_requestPacket:
  "explains s arr \<Longrightarrow> explains (pq_requestPacket deq s) arr"
  using requestPacket_accepted [of s] requestPacket_sound [of s]
  by (cases "contents (store s)")
    (auto simp: explains_def requestPacket_empty dest: requestPacket_nonempty)

lemma run_explains: "explains s arr \<Longrightarrow> explains (pq_run enq deq s es) (arr @ arrivals es)"
proof (induction es arbitrary: s arr rule: arrivals.induct)
  case (2 m es)
  then show ?case using explains_handleMessage [of s arr m] by fastforce
qed (auto intro: explains_requestPacket)

end

lemma dt_run_capacity:
  assumes "0 < frameCapacity q" and "int (length (dtQueue (store s))) \<le> frameCapacity q"
    and "frameCapacity (store s) = frameCapacity q"
  shows "int (length (dtQueue (store (pq_run dt_enqueue dt_dequeue s es)))) \<le> frameCapacity q"
  using assms(2,3)
proof (induction es arbitrary: s rule: arrivals.induct)
  case (2 m es)
  have "int (length (dtQueue (store (fst (pq_handleMessage dt_enqueue s m))))) \<le> frameCapacity q"
    and "frameCapacity (store (fst (pq_handleMessage dt_enqueue s m))) = frameCapacity q"
    using 2 assms(1) by (auto simp: pq_handleMessage_def dt_enqueue_def Let_def)
  then show ?case using "2.IH" by simp
next
  case (3 es)
  have "int (length (dtQueue (store (pq_requestPacket dt_dequeue s)))) \<le> frameCapacity q"
    and "frameCapacity (store (pq_requestPacket dt_dequeue s)) = frameCapacity q"
    using "3.prems" by (auto simp: pq_requestPacket_def dt_dequeue_def split: list.splits)
  then show ?case using "3.IH" by simp
qed simp

lemma fifo_run_length:
  "fifoByteLength (store s) = sum_list (map len (fifoQueue (store s))) \<Longrightarrow>
   fifoByteLength (store (pq_run (fifo_enqueue len) (fifo_dequeue len) s es))
     = sum_list (map len (fifoQueue (store (pq_run (fifo_enqueue len) (fifo_dequeue len) s es))))"
proof (induction es arbitrary: s rule: arrivals.induct)
  case (2 m es)
  then show ?case
    by (auto intro!: "2.IH" simp: pq_handleMessage_def fifo_enqueue_def Let_def)
next
  case (3 es)
  then show ?case
    by (auto intro!: "3.IH" simp: pq_requestPacket_def fifo_dequeue_def split: list.splits)
qed simp

section \<open>Properties\<close>

text \<open>
  A drop tail queue never reorders, duplicates or silently loses a message: after any run
  of arrivals and requests, what it sent followed by what it still holds is a subsequence of the
  arrivals, and together with the dropped messages it is exactly the arrivals.
\<close>

theorem droptail_fifo:
  "let s = pq_run dt_enqueue dt_dequeue (pq_initialize \<lparr>frameCapacity = cap, dtQueue = []\<rparr>) es
   in subseq (sentOut s @ dtQueue (store s)) (arrivals es)
      \<and> mset (arrivals es) = mset (sentOut s) + mset (dtQueue (store s)) + mset (dropLog s)
      \<and> numQueueDropped s = int (length (dropLog s))"
proof -
  have "dt.explains (pq_initialize \<lparr>frameCapacity = cap, dtQueue = []\<rparr>) []"
    by (simp add: dt.explains_def dt.sound_initialize dt.accepted_def)
      (simp add: pq_initialize_def)
  from dt.run_explains [OF this, of es] show ?thesis
    by (simp add: dt.explains_def dt.accepted_def dt.sound_def Let_def)
qed

text \<open>
  With a positive \<open>frameCapacity\<close> a drop tail queue never holds more than that many
  messages, whatever arrives.
\<close>

theorem droptail_bounded:
  assumes "0 < cap"
  shows "int (length (dtQueue (store (pq_run dt_enqueue dt_dequeue
           (pq_initialize \<lparr>frameCapacity = cap, dtQueue = []\<rparr>) es)))) \<le> cap"
  using dt_run_capacity [of "\<lparr>frameCapacity = cap, dtQueue = []\<rparr>" _ es] assms
  by (simp add: pq_initialize_def)

lemma droptail_bounded_witness:
  "int (length (dtQueue (store (pq_run dt_enqueue dt_dequeue
      (pq_initialize \<lparr>frameCapacity = 2, dtQueue = []\<rparr>)
      [Arrival (1 :: nat), Arrival 2, Arrival 3])))) \<le> 2"
  using droptail_bounded [of 2 "[Arrival (1 :: nat), Arrival 2, Arrival 3]"] by simp

end
