(* ===== verification/Scheduler.thy ===== *)
theory Scheduler
  imports PassiveQueue
begin

text \<open>
  \<open>linklayer/queue/SchedulerBase\<close> with \<open>PriorityScheduler\<close> (and its copy \<open>PrioritySchedulerEx\<close>)
  and \<open>WRRScheduler\<close>. The base class keeps two counters, is a listener of its input queues and
  calls the virtual \<open>schedulePacket\<close>, which is a parameter of the operations here. A call of an
  input queue's \<open>isEmpty\<close> or \<open>requestPacket\<close> is a call of the functions passed for them; the
  packet a queue sends then arrives at \<open>handleMessage\<close> in a later event.
\<close>

section \<open>The interface IPassiveQueue, as its users see it\<close>

text \<open>
  \<open>frames\<close> is what waits in the queue. A pop takes one waiting packet, \<open>clear\<close> returns and
  leaves nothing waiting and nothing requested, a request leaves at most one more request
  pending.
\<close>

locale ipassive_queue =
  fixes ip_isEmpty :: "'q \<Rightarrow> bool"
    and ip_pop :: "'q \<Rightarrow> 'q \<times> 'm option"
    and ip_clear :: "'q \<Rightarrow> 'q option"
    and ip_request :: "'q \<Rightarrow> 'q"
    and ip_pending :: "'q \<Rightarrow> int"
    and frames :: "'q \<Rightarrow> 'm multiset"
  assumes ip_isEmpty_iff: "\<And>q. ip_isEmpty q \<longleftrightarrow> frames q = {#}"
    and ip_pop_nonempty:
      "\<And>q. frames q \<noteq> {#} \<Longrightarrow> \<exists>q' m. ip_pop q = (q', Some m) \<and> frames q = add_mset m (frames q')"
    and ip_clear_spec: "\<And>q. \<exists>q'. ip_clear q = Some q' \<and> frames q' = {#} \<and> ip_pending q' = 0"
    and ip_request_pending:
      "\<And>q. ip_pending q \<le> ip_pending (ip_request q) \<and> ip_pending (ip_request q) \<le> ip_pending q + 1"

section \<open>SchedulerBase\<close>

record ('x, 'm) scheduler =
  packetsRequestedFromUs :: int
  packetsToBeRequestedFromInputs :: int
  inputs :: 'x
  schedOut :: "'m list"
  schedNotified :: int

definition sched_initialize :: "'x \<Rightarrow> ('x, 'm) scheduler" where
  "sched_initialize x =
     \<lparr>packetsRequestedFromUs = 0, packetsToBeRequestedFromInputs = 0, inputs = x, schedOut = [],
      schedNotified = 0\<rparr>"

definition sched_handleMessage :: "('x, 'm) scheduler \<Rightarrow> 'm \<Rightarrow> ('x, 'm) scheduler res" where
  "sched_handleMessage s msg =
     (if packetsRequestedFromUs s > 0
      then Inr (s\<lparr>packetsRequestedFromUs := packetsRequestedFromUs s - 1,
                  schedOut := schedOut s @ [msg]\<rparr>)
      else Inl AssertFailed)"

text \<open>\<open>schedNotified\<close> counts the calls of \<open>notifyListeners\<close>.\<close>

definition sched_packetEnqueued ::
    "('x \<Rightarrow> 'x \<times> bool) \<Rightarrow> ('x, 'm) scheduler \<Rightarrow> ('x, 'm) scheduler" where
  "sched_packetEnqueued schedulePacket s =
     (if packetsToBeRequestedFromInputs s > 0 then
        (let (x, success) = schedulePacket (inputs s) in
         if success
         then s\<lparr>inputs := x, packetsToBeRequestedFromInputs := packetsToBeRequestedFromInputs s - 1\<rparr>
         else s\<lparr>inputs := x\<rparr>)
      else if packetsRequestedFromUs s = 0 then s\<lparr>schedNotified := schedNotified s + 1\<rparr>
      else s)"

definition sched_requestPacket ::
    "('x \<Rightarrow> 'x \<times> bool) \<Rightarrow> ('x, 'm) scheduler \<Rightarrow> ('x, 'm) scheduler" where
  "sched_requestPacket schedulePacket s =
     (let s1 = s\<lparr>packetsRequestedFromUs := packetsRequestedFromUs s + 1,
                 packetsToBeRequestedFromInputs := packetsToBeRequestedFromInputs s + 1\<rparr>;
          (x, success) = schedulePacket (inputs s1)
      in if success
         then s1\<lparr>inputs := x, packetsToBeRequestedFromInputs := packetsToBeRequestedFromInputs s1 - 1\<rparr>
         else s1\<lparr>inputs := x\<rparr>)"

definition sched_getNumPendingRequests :: "('x, 'm) scheduler \<Rightarrow> int" where
  "sched_getNumPendingRequests s = packetsRequestedFromUs s"

definition sched_isEmpty :: "('q \<Rightarrow> bool) \<Rightarrow> ('q list, 'm) scheduler \<Rightarrow> bool" where
  "sched_isEmpty q_isEmpty s \<longleftrightarrow> list_all q_isEmpty (inputs s)"

definition sched_clear ::
    "('q \<Rightarrow> 'q option) \<Rightarrow> ('q list, 'm) scheduler \<Rightarrow> ('q list, 'm) scheduler option" where
  "sched_clear q_clear s =
     map_option (\<lambda>qs. s\<lparr>inputs := qs, packetsRequestedFromUs := 0,
                        packetsToBeRequestedFromInputs := 0\<rparr>)
       (those (map q_clear (inputs s)))"

fun pop_first ::
    "('q \<Rightarrow> bool) \<Rightarrow> ('q \<Rightarrow> 'q \<times> 'm option) \<Rightarrow> 'q list \<Rightarrow> 'q list \<times> 'm option" where
  "pop_first q_isEmpty q_pop [] = ([], None)"
| "pop_first q_isEmpty q_pop (q # qs) =
     (if \<not> q_isEmpty q then (case q_pop q of (q', m) \<Rightarrow> (q' # qs, m))
      else (case pop_first q_isEmpty q_pop qs of (qs', m) \<Rightarrow> (q # qs', m)))"

definition sched_pop ::
    "('q \<Rightarrow> bool) \<Rightarrow> ('q \<Rightarrow> 'q \<times> 'm option) \<Rightarrow> ('q list, 'm) scheduler
     \<Rightarrow> ('q list, 'm) scheduler \<times> 'm option" where
  "sched_pop q_isEmpty q_pop s =
     (case pop_first q_isEmpty q_pop (inputs s) of (qs, m) \<Rightarrow> (s\<lparr>inputs := qs\<rparr>, m))"

section \<open>PriorityScheduler\<close>

fun prio_schedulePacket :: "('q \<Rightarrow> bool) \<Rightarrow> ('q \<Rightarrow> 'q) \<Rightarrow> 'q list \<Rightarrow> 'q list \<times> bool" where
  "prio_schedulePacket q_isEmpty q_request [] = ([], False)"
| "prio_schedulePacket q_isEmpty q_request (q # qs) =
     (if \<not> q_isEmpty q then (q_request q # qs, True)
      else (case prio_schedulePacket q_isEmpty q_request qs of (qs', b) \<Rightarrow> (q # qs', b)))"

text \<open>\<open>PrioritySchedulerEx\<close> is a second class with the same loop.\<close>

fun prioex_schedulePacket :: "('q \<Rightarrow> bool) \<Rightarrow> ('q \<Rightarrow> 'q) \<Rightarrow> 'q list \<Rightarrow> 'q list \<times> bool" where
  "prioex_schedulePacket q_isEmpty q_request [] = ([], False)"
| "prioex_schedulePacket q_isEmpty q_request (q # qs) =
     (if \<not> q_isEmpty q then (q_request q # qs, True)
      else (case prioex_schedulePacket q_isEmpty q_request qs of (qs', b) \<Rightarrow> (q # qs', b)))"

definition first_nonempty :: "('q \<Rightarrow> bool) \<Rightarrow> 'q list \<Rightarrow> nat" where
  "first_nonempty q_isEmpty qs = length (takeWhile q_isEmpty qs)"

lemma prio_schedulePacket_eq:
  "prio_schedulePacket e r qs =
     (if list_all e qs then (qs, False)
      else (qs[first_nonempty e qs := r (qs ! first_nonempty e qs)], True))"
  by (induction e r qs rule: prio_schedulePacket.induct) (auto simp: first_nonempty_def)

lemma prioex_eq: "prioex_schedulePacket e r qs = prio_schedulePacket e r qs"
  by (induction e r qs rule: prio_schedulePacket.induct) auto

lemma first_nonempty_less: "\<not> list_all e qs \<Longrightarrow> first_nonempty e qs < length qs"
  by (induction qs) (auto simp: first_nonempty_def)

lemma first_nonempty_not_empty: "\<not> list_all e qs \<Longrightarrow> \<not> e (qs ! first_nonempty e qs)"
  by (induction qs) (auto simp: first_nonempty_def)

lemma first_nonempty_before: "j < first_nonempty e qs \<Longrightarrow> e (qs ! j)"
  unfolding first_nonempty_def by (metis nth_mem set_takeWhileD takeWhile_nth)

section \<open>WRRScheduler\<close>

text \<open>The arrays \<open>inputQueues\<close>, \<open>weights\<close> and \<open>buckets\<close> have the same length: one list of rows.\<close>

record 'q wrr_input =
  wrrQueue :: 'q
  weight :: int
  bucket :: int

definition wrr_initialize :: "'q list \<Rightarrow> int list \<Rightarrow> 'q wrr_input list res" where
  "wrr_initialize queues tokens =
     (if length tokens < length queues then Inl (RuntimeError ''Too few values'')
      else if length tokens > length queues then Inl (RuntimeError ''Too many values'')
      else Inr (map (\<lambda>(q, w). \<lparr>wrrQueue = q, weight = w, bucket = w\<rparr>) (zip queues tokens)))"

text \<open>
  The first loop returns the rows, whether all queues were empty and whether a packet was
  requested; the second refills every bucket.
\<close>

fun wrr_scan ::
    "('q \<Rightarrow> bool) \<Rightarrow> ('q \<Rightarrow> 'q) \<Rightarrow> bool \<Rightarrow> 'q wrr_input list \<Rightarrow> 'q wrr_input list \<times> bool \<times> bool" where
  "wrr_scan e r allEmpty [] = ([], allEmpty, False)"
| "wrr_scan e r allEmpty (w # ws) =
     (if \<not> e (wrrQueue w) then
        (if bucket w > 0
         then (w\<lparr>bucket := bucket w - 1, wrrQueue := r (wrrQueue w)\<rparr> # ws, False, True)
         else (case wrr_scan e r False ws of (ws', a, d) \<Rightarrow> (w # ws', a, d)))
      else (case wrr_scan e r allEmpty ws of (ws', a, d) \<Rightarrow> (w # ws', a, d)))"

fun wrr_refill ::
    "('q \<Rightarrow> bool) \<Rightarrow> ('q \<Rightarrow> 'q) \<Rightarrow> bool \<Rightarrow> 'q wrr_input list \<Rightarrow> 'q wrr_input list \<times> bool" where
  "wrr_refill e r requested [] = ([], requested)"
| "wrr_refill e r requested (w # ws) =
     (let w1 = w\<lparr>bucket := weight w\<rparr> in
      if \<not> requested \<and> bucket w1 > 0 \<and> \<not> e (wrrQueue w1)
      then (case wrr_refill e r True ws of (ws', d) \<Rightarrow>
              (w1\<lparr>bucket := bucket w1 - 1, wrrQueue := r (wrrQueue w1)\<rparr> # ws', d))
      else (case wrr_refill e r requested ws of (ws', d) \<Rightarrow> (w1 # ws', d)))"

definition wrr_schedulePacket ::
    "('q \<Rightarrow> bool) \<Rightarrow> ('q \<Rightarrow> 'q) \<Rightarrow> 'q wrr_input list \<Rightarrow> 'q wrr_input list \<times> bool" where
  "wrr_schedulePacket e r ws =
     (case wrr_scan e r True ws of
        (ws', allQueueIsEmpty, requested) \<Rightarrow>
          if requested then (ws', True)
          else if allQueueIsEmpty then (ws', False)
          else wrr_refill e r False ws')"

definition wrr_inv :: "'q wrr_input list \<Rightarrow> bool" where
  "wrr_inv ws \<longleftrightarrow> (\<forall>w \<in> set ws. 0 \<le> bucket w \<and> bucket w \<le> weight w)"

lemma wrr_scan_inv: "wrr_inv ws \<Longrightarrow> wrr_inv (fst (wrr_scan e r a ws))"
  by (induction e r a ws rule: wrr_scan.induct) (auto simp: wrr_inv_def split: prod.splits)

lemma wrr_scan_weights: "map weight (fst (wrr_scan e r a ws)) = map weight ws"
  by (induction e r a ws rule: wrr_scan.induct) (auto split: prod.splits)

lemma wrr_scan_done:
  "snd (snd (wrr_scan e r a ws)) \<longleftrightarrow> (\<exists>w \<in> set ws. \<not> e (wrrQueue w) \<and> bucket w > 0)"
  by (induction e r a ws rule: wrr_scan.induct) (auto split: prod.splits)

lemma wrr_scan_not_done:
  "\<not> snd (snd (wrr_scan e r a ws)) \<Longrightarrow> fst (wrr_scan e r a ws) = ws
     \<and> fst (snd (wrr_scan e r a ws)) = (a \<and> (\<forall>w \<in> set ws. e (wrrQueue w)))"
  by (induction e r a ws rule: wrr_scan.induct) (auto split: prod.splits)

lemma wrr_refill_inv:
  "\<forall>w \<in> set ws. 0 \<le> weight w \<Longrightarrow> wrr_inv (fst (wrr_refill e r d ws))"
  by (induction e r d ws rule: wrr_refill.induct) (auto simp: wrr_inv_def Let_def split: prod.splits)

lemma wrr_refill_weights: "map weight (fst (wrr_refill e r d ws)) = map weight ws"
  by (induction e r d ws rule: wrr_refill.induct) (auto simp: Let_def split: prod.splits)

lemma wrr_refill_done:
  "snd (wrr_refill e r d ws) \<longleftrightarrow> d \<or> (\<exists>w \<in> set ws. \<not> e (wrrQueue w) \<and> weight w > 0)"
  by (induction e r d ws rule: wrr_refill.induct) (auto simp: Let_def split: prod.splits)

section \<open>Queues and schedulers provide IPassiveQueue\<close>

definition dtq_isEmpty :: "('m droptail, 'm) pqueue \<Rightarrow> bool" where
  "dtq_isEmpty q \<longleftrightarrow> dt_isEmpty (store q)"

definition dtq_frames :: "('m droptail, 'm) pqueue \<Rightarrow> 'm multiset" where
  "dtq_frames q = mset (dtQueue (store q))"

interpretation dtq: ipassive_queue dtq_isEmpty "pq_pop dt_dequeue" "pq_clear dt_dequeue"
    "pq_requestPacket dt_dequeue" packetRequested dtq_frames
proof unfold_locales
  fix q :: "('m droptail, 'm) pqueue"
  show "dtq_isEmpty q \<longleftrightarrow> dtq_frames q = {#}"
    by (simp add: dtq_isEmpty_def dtq_frames_def dt_isEmpty_def)
  show "\<exists>q' m. pq_pop dt_dequeue q = (q', Some m) \<and> dtq_frames q = add_mset m (dtq_frames q')"
    if "dtq_frames q \<noteq> {#}"
    using that by (cases "dtQueue (store q)") (auto simp: dtq_frames_def pq_pop_def dt_dequeue_def)
  show "\<exists>q'. pq_clear dt_dequeue q = Some q' \<and> dtq_frames q' = {#} \<and> packetRequested q' = 0"
    using dt.clear_returns [of q] by (auto simp: dtq_frames_def)
  show "packetRequested q \<le> packetRequested (pq_requestPacket dt_dequeue q)
      \<and> packetRequested (pq_requestPacket dt_dequeue q) \<le> packetRequested q + 1"
    by (cases "dtQueue (store q)") (auto simp: pq_requestPacket_def dt_dequeue_def)
qed

text \<open>
  A scheduler over queues that keep the contract keeps it too, whatever its
  \<open>schedulePacket\<close> does: this is what lets the MAC use a plain queue and a compound one alike.
\<close>

context ipassive_queue
begin

definition sched_frames :: "('q list, 'm) scheduler \<Rightarrow> 'm multiset" where
  "sched_frames s = sum_list (map frames (inputs s))"

lemma pop_first_spec:
  "sum_list (map frames qs) \<noteq> {#} \<Longrightarrow>
   \<exists>qs' m. pop_first ip_isEmpty ip_pop qs = (qs', Some m)
     \<and> sum_list (map frames qs) = add_mset m (sum_list (map frames qs'))"
proof (induction qs)
  case (Cons q qs)
  show ?case
  proof (cases "ip_isEmpty q")
    case True
    then show ?thesis using Cons by (auto simp: ip_isEmpty_iff)
  next
    case False
    then show ?thesis using ip_pop_nonempty [of q] by (auto simp: ip_isEmpty_iff)
  qed
qed simp

lemma those_clear:
  "\<exists>qs'. those (map ip_clear qs) = Some qs' \<and> sum_list (map frames qs') = {#}"
proof (induction qs)
  case (Cons q qs)
  then show ?case using ip_clear_spec [of q] by fastforce
qed simp

lemma scheduler_keeps_contract:
  "ipassive_queue (sched_isEmpty ip_isEmpty) (sched_pop ip_isEmpty ip_pop) (sched_clear ip_clear)
     (sched_requestPacket sp) sched_getNumPendingRequests sched_frames"
proof
  fix s :: "('q list, 'm) scheduler"
  show "sched_isEmpty ip_isEmpty s \<longleftrightarrow> sched_frames s = {#}"
    by (auto simp: sched_isEmpty_def sched_frames_def ip_isEmpty_iff list_all_iff sum_list_mset_empty_iff)
  show "\<exists>q' m. sched_pop ip_isEmpty ip_pop s = (q', Some m)
      \<and> sched_frames s = add_mset m (sched_frames q')" if "sched_frames s \<noteq> {#}"
    using that pop_first_spec [of "inputs s"] by (auto simp: sched_pop_def sched_frames_def)
  show "\<exists>q'. sched_clear ip_clear s = Some q' \<and> sched_frames q' = {#}
      \<and> sched_getNumPendingRequests q' = 0"
    using those_clear [of "inputs s"]
    by (auto simp: sched_clear_def sched_frames_def sched_getNumPendingRequests_def)
  show "sched_getNumPendingRequests s \<le> sched_getNumPendingRequests (sched_requestPacket sp s)
      \<and> sched_getNumPendingRequests (sched_requestPacket sp s) \<le> sched_getNumPendingRequests s + 1"
    by (simp add: sched_getNumPendingRequests_def sched_requestPacket_def Let_def split: prod.split)
qed

end

interpretation prioq: ipassive_queue "sched_isEmpty dtq_isEmpty"
    "sched_pop dtq_isEmpty (pq_pop dt_dequeue)" "sched_clear (pq_clear dt_dequeue)"
    "sched_requestPacket (prio_schedulePacket dtq_isEmpty (pq_requestPacket dt_dequeue))"
    sched_getNumPendingRequests dtq.sched_frames
  by (rule dtq.scheduler_keeps_contract)

section \<open>Properties\<close>

text \<open>
  \<open>PriorityScheduler::schedulePacket\<close> requests a packet exactly when some input queue is
  not empty; it then asks the first such queue in gate order, every queue before it is empty,
  and no other queue is touched. \<open>PrioritySchedulerEx\<close> schedules identically.
\<close>

theorem prio_schedulePacket_spec:
  "case prio_schedulePacket e r qs of (qs', success) \<Rightarrow>
     success = (\<exists>q. q \<in> set qs \<and> \<not> e q)
     \<and> (if success
        then let i = first_nonempty e qs
             in i < length qs \<and> \<not> e (qs ! i) \<and> (\<forall>j. j < i \<longrightarrow> e (qs ! j)) \<and> qs' = qs[i := r (qs ! i)]
        else qs' = qs)
     \<and> prioex_schedulePacket e r qs = (qs', success)"
proof (cases "list_all e qs")
  case True
  then show ?thesis by (auto simp: prio_schedulePacket_eq prioex_eq list_all_iff)
next
  case False
  then show ?thesis
    using first_nonempty_less [OF False] first_nonempty_not_empty [OF False]
      first_nonempty_before [of _ e qs]
    by (auto simp: prio_schedulePacket_eq prioex_eq list_all_iff Let_def)
qed

lemma prio_schedulePacket_spec_witness:
  "prio_schedulePacket (\<lambda>q. q = []) tl [[], [1, 2 :: nat], [3]] = ([[], [2], [3]], True)
   \<and> first_nonempty (\<lambda>q. q = []) [[], [1, 2 :: nat], [3]] = 1"
  using prio_schedulePacket_spec
    [where e = "\<lambda>q. q = []" and r = tl and qs = "[[], [1, 2 :: nat], [3]]"]
  by (simp add: first_nonempty_def)

text \<open>
  The weighted round robin scheduler keeps every bucket between zero and its weight, never
  changes a weight, and is work conserving up to zero weights: it requests a packet exactly when
  some non-empty queue has a positive weight.
\<close>

theorem wrr_schedulePacket_spec:
  assumes "wrr_inv ws"
  shows "wrr_inv (fst (wrr_schedulePacket e r ws))
    \<and> map weight (fst (wrr_schedulePacket e r ws)) = map weight ws
    \<and> (snd (wrr_schedulePacket e r ws) \<longleftrightarrow> (\<exists>w. w \<in> set ws \<and> \<not> e (wrrQueue w) \<and> weight w > 0))"
proof (cases "snd (snd (wrr_scan e r True ws))")
  case True
  then have "wrr_schedulePacket e r ws = (fst (wrr_scan e r True ws), True)"
    by (cases "wrr_scan e r True ws") (auto simp: wrr_schedulePacket_def)
  moreover have "\<exists>w. w \<in> set ws \<and> \<not> e (wrrQueue w) \<and> weight w > 0"
    using True assms by (fastforce simp: wrr_scan_done wrr_inv_def)
  ultimately show ?thesis using wrr_scan_inv [OF assms] by (simp add: wrr_scan_weights)
next
  case False
  have pos: "\<forall>w \<in> set ws. 0 \<le> weight w" using assms by (force simp: wrr_inv_def)
  have "wrr_schedulePacket e r ws =
      (if \<forall>w \<in> set ws. e (wrrQueue w) then (ws, False) else wrr_refill e r False ws)"
    using wrr_scan_not_done [OF False] False
    by (cases "wrr_scan e r True ws") (auto simp: wrr_schedulePacket_def)
  then show ?thesis
    using assms pos by (auto simp: wrr_refill_inv wrr_refill_weights wrr_refill_done)
qed

lemma wrr_schedulePacket_spec_witness:
  "snd (wrr_schedulePacket (\<lambda>q. q = []) tl
     [\<lparr>wrrQueue = [], weight = 2, bucket = 1\<rparr>, \<lparr>wrrQueue = [5 :: nat], weight = 3, bucket = 0\<rparr>])"
  using wrr_schedulePacket_spec
    [of "[\<lparr>wrrQueue = [], weight = 2, bucket = 1\<rparr>, \<lparr>wrrQueue = [5 :: nat], weight = 3, bucket = 0\<rparr>]"
        "\<lambda>q. q = []" tl]
  by (auto simp: wrr_inv_def)

end
