(* ===== verification/EtherMACBase.thy ===== *)
theory EtherMACBase
  imports Scheduler AppTimer
begin

text \<open>
  \<open>linklayer/ethernet/EtherMACBase\<close> and its base class \<open>linklayer/common/MACBase\<close>: the state both
  Ethernet MACs share, the output queue (inner or external), the connection to the channel, life
  cycle and address filter. A call of the external queue is a call of the function of the record
  \<open>iqueue\<close>; what a request makes the queue send arrives in a later event.
\<close>

section \<open>Modes\<close>

text \<open>
  The descriptions of the Ethernet modes. The durations of a half bit and of a slot and the maximal
  delay are of no consequence for a full duplex MAC but belong to the table.
\<close>

record ether_descr =
  txrate :: real
  halfBitTime :: real
  frameMinBytes :: int
  maxFramesInBurst :: int
  maxBytesInBurst :: int
  halfDuplexFrameMinBytes :: int
  frameInBurstMinBytes :: int
  slotTime :: real
  maxPropagationDelay :: real

definition SPEED_OF_LIGHT_IN_CABLE :: real where "SPEED_OF_LIGHT_IN_CABLE = 200000000"
definition ETHERNET_TXRATE :: real where "ETHERNET_TXRATE = 10000000"
definition FAST_ETHERNET_TXRATE :: real where "FAST_ETHERNET_TXRATE = 100000000"
definition GIGABIT_ETHERNET_TXRATE :: real where "GIGABIT_ETHERNET_TXRATE = 1000000000"
definition FAST_GIGABIT_ETHERNET_TXRATE :: real where "FAST_GIGABIT_ETHERNET_TXRATE = 10000000000"
definition FOURTY_GIGABIT_ETHERNET_TXRATE :: real where "FOURTY_GIGABIT_ETHERNET_TXRATE = 40000000000"
definition HUNDRED_GIGABIT_ETHERNET_TXRATE :: real where "HUNDRED_GIGABIT_ETHERNET_TXRATE = 100000000000"
definition MAX_PACKETBURST :: int where "MAX_PACKETBURST = 13"
definition GIGABIT_MAX_BURST_BYTES :: int where "GIGABIT_MAX_BURST_BYTES = 8192"

lemmas rate_defs = ETHERNET_TXRATE_def FAST_ETHERNET_TXRATE_def GIGABIT_ETHERNET_TXRATE_def
  FAST_GIGABIT_ETHERNET_TXRATE_def FOURTY_GIGABIT_ETHERNET_TXRATE_def HUNDRED_GIGABIT_ETHERNET_TXRATE_def

definition nullEtherDescr :: ether_descr where
  "nullEtherDescr =
     \<lparr>txrate = 0, halfBitTime = 0, frameMinBytes = 0, maxFramesInBurst = 0, maxBytesInBurst = 0,
      halfDuplexFrameMinBytes = 0, frameInBurstMinBytes = 0, slotTime = 0, maxPropagationDelay = 0\<rparr>"

definition etherDescrs :: "ether_descr list" where
  "etherDescrs =
     [\<lparr>txrate = ETHERNET_TXRATE, halfBitTime = 0.5 / ETHERNET_TXRATE,
       frameMinBytes = MIN_ETHERNET_FRAME_BYTES, maxFramesInBurst = 0, maxBytesInBurst = 0,
       halfDuplexFrameMinBytes = MIN_ETHERNET_FRAME_BYTES,
       frameInBurstMinBytes = MIN_ETHERNET_FRAME_BYTES, slotTime = 512 / ETHERNET_TXRATE,
       maxPropagationDelay = 2500 / SPEED_OF_LIGHT_IN_CABLE\<rparr>,
      \<lparr>txrate = FAST_ETHERNET_TXRATE, halfBitTime = 0.5 / FAST_ETHERNET_TXRATE,
       frameMinBytes = MIN_ETHERNET_FRAME_BYTES, maxFramesInBurst = 0, maxBytesInBurst = 0,
       halfDuplexFrameMinBytes = MIN_ETHERNET_FRAME_BYTES,
       frameInBurstMinBytes = MIN_ETHERNET_FRAME_BYTES, slotTime = 512 / FAST_ETHERNET_TXRATE,
       maxPropagationDelay = 250 / SPEED_OF_LIGHT_IN_CABLE\<rparr>,
      \<lparr>txrate = GIGABIT_ETHERNET_TXRATE, halfBitTime = 0.5 / GIGABIT_ETHERNET_TXRATE,
       frameMinBytes = MIN_ETHERNET_FRAME_BYTES, maxFramesInBurst = MAX_PACKETBURST,
       maxBytesInBurst = GIGABIT_MAX_BURST_BYTES,
       halfDuplexFrameMinBytes = GIGABIT_MIN_FRAME_BYTES_WITH_EXT,
       frameInBurstMinBytes = MIN_ETHERNET_FRAME_BYTES, slotTime = 4096 / GIGABIT_ETHERNET_TXRATE,
       maxPropagationDelay = 250 / SPEED_OF_LIGHT_IN_CABLE\<rparr>,
      \<lparr>txrate = FAST_GIGABIT_ETHERNET_TXRATE, halfBitTime = 0.5 / FAST_GIGABIT_ETHERNET_TXRATE,
       frameMinBytes = MIN_ETHERNET_FRAME_BYTES, maxFramesInBurst = 0, maxBytesInBurst = 0,
       halfDuplexFrameMinBytes = -1, frameInBurstMinBytes = 0, slotTime = 0, maxPropagationDelay = 0\<rparr>,
      \<lparr>txrate = FOURTY_GIGABIT_ETHERNET_TXRATE, halfBitTime = 0.5 / FOURTY_GIGABIT_ETHERNET_TXRATE,
       frameMinBytes = MIN_ETHERNET_FRAME_BYTES, maxFramesInBurst = 0, maxBytesInBurst = 0,
       halfDuplexFrameMinBytes = -1, frameInBurstMinBytes = 0, slotTime = 0, maxPropagationDelay = 0\<rparr>,
      \<lparr>txrate = HUNDRED_GIGABIT_ETHERNET_TXRATE, halfBitTime = 0.5 / HUNDRED_GIGABIT_ETHERNET_TXRATE,
       frameMinBytes = MIN_ETHERNET_FRAME_BYTES, maxFramesInBurst = 0, maxBytesInBurst = 0,
       halfDuplexFrameMinBytes = -1, frameInBurstMinBytes = 0, slotTime = 0, maxPropagationDelay = 0\<rparr>]"

datatype MACTransmitState = TX_IDLE_STATE | WAIT_IFG_STATE | SEND_IFG_STATE | TRANSMITTING_STATE
  | JAMMING_STATE | BACKOFF_STATE | PAUSE_STATE

datatype MACReceiveState = RX_IDLE_STATE | RECEIVING_STATE | RX_COLLISION_STATE | RX_RECONNECT_STATE

definition ENDIFG :: int where "ENDIFG = 100"
definition ENDTRANSMISSION :: int where "ENDTRANSMISSION = 103"
definition ENDPAUSE :: int where "ENDPAUSE = 105"

section \<open>The output queue\<close>

text \<open>The virtual functions of \<open>IPassiveQueue\<close>; \<open>None\<close> is a call of \<open>clear\<close> that does not return.\<close>

record ('q, 'm) iqueue =
  iq_getNumPendingRequests :: "'q \<Rightarrow> int"
  iq_requestPacket :: "'q \<Rightarrow> 'q"
  iq_isEmpty :: "'q \<Rightarrow> bool"
  iq_pop :: "'q \<Rightarrow> 'q \<times> 'm option"
  iq_clear :: "'q \<Rightarrow> 'q option"

text \<open>
  The documented order of \<open>cQueue\<close>, a class of the kernel: \<open>insert\<close> with a comparison function walks from the back over the elements the new one
  comes before, and keeps the order of arrival among equal ones.
\<close>

definition packetCompare :: "'p EtherFrame \<Rightarrow> 'p EtherFrame \<Rightarrow> int" where
  "packetCompare a b = (if isPauseFrame a then 0 else 1) - (if isPauseFrame b then 0 else 1)"

definition cQueue_insert :: "('a \<Rightarrow> 'a \<Rightarrow> int) \<Rightarrow> 'a \<Rightarrow> 'a list \<Rightarrow> 'a list" where
  "cQueue_insert cmp x xs =
     (let before = rev (dropWhile (\<lambda>y. cmp x y < 0) (rev xs)) in before @ x # drop (length before) xs)"

definition insertFrame :: "'p EtherFrame \<Rightarrow> 'p EtherFrame list \<Rightarrow> 'p EtherFrame list" where
  "insertFrame = cQueue_insert packetCompare"

definition inner_isFull :: "int \<Rightarrow> 'p EtherFrame list \<Rightarrow> bool" where
  "inner_isFull queueLimit xs \<longleftrightarrow> queueLimit \<noteq> 0 \<and> int (length xs) > queueLimit"

text \<open>\<open>NoQueue\<close>: both pointers are NULL. \<open>Inner\<close> holds the frames and the limit.\<close>

datatype ('p, 'q) MacQueue = NoQueue | Inner "'p EtherFrame list" int | Ext 'q

section \<open>Channels, parameters and state\<close>

record tr_channel =
  ch_datarate :: real
  ch_disabled :: bool

text \<open>What the two gates lead to.\<close>

record phys =
  outTrChannel :: "tr_channel option"
  inTrChannel :: "tr_channel option"
  outPathConnected :: bool
  inPathConnected :: bool

text \<open>
  \<open>mp_queue\<close> is the module \<open>queueModule\<close> names in its initial state, \<open>None\<close> for the empty name.
  \<open>mp_simtime\<close> converts a double to a simulation time, \<open>mp_txDuration\<close> is the time a channel of a
  data rate takes for a number of bytes.
\<close>

record 'q mac_par =
  mp_promiscuous :: bool
  mp_queue :: "'q option"
  mp_txQueueLimit :: int
  mp_duplexMode :: bool
  mp_multiCastGroupAddr :: "string list"
  mp_registers :: bool
  mp_simtime :: "real \<Rightarrow> simtime"
  mp_txDuration :: "real \<Rightarrow> int \<Rightarrow> simtime"

record mac_stats =
  numFramesSent :: int
  numFramesReceivedOK :: int
  numBytesSent :: int
  numBytesReceivedOK :: int
  numFramesFromHL :: int
  numDroppedPkFromHLIfaceDown :: int
  numDroppedIfaceDown :: int
  numDroppedBitError :: int
  numDroppedNotForUs :: int
  numFramesPassedToHL :: int
  numPauseFramesRcvd :: int
  numPauseFramesSent :: int

definition initializeStatistics :: mac_stats where
  "initializeStatistics =
     \<lparr>numFramesSent = 0, numFramesReceivedOK = 0, numBytesSent = 0, numBytesReceivedOK = 0,
      numFramesFromHL = 0, numDroppedPkFromHLIfaceDown = 0, numDroppedIfaceDown = 0,
      numDroppedBitError = 0, numDroppedNotForUs = 0, numFramesPassedToHL = 0,
      numPauseFramesRcvd = 0, numPauseFramesSent = 0\<rparr>"

text \<open>
  \<open>mIfEntry\<close> is the interface entry's carrier and data rate, \<open>mPhysOut\<close> and \<open>mUpperOut\<close> log what
  the module sends, \<open>mSubs\<close> and \<open>mTotalRxTime\<close> are the members of \<open>EtherMACFullDuplex\<close>.
\<close>

record ('p, 'q) mac =
  mDescr :: ether_descr
  mAddress :: mac_addr
  mAddressPar :: string
  mConnected :: bool
  mDisabled :: bool
  mPromiscuous :: bool
  mDuplexMode :: bool
  mFrameBursting :: bool
  mTxQueue :: "('p, 'q) MacQueue"
  mChannel :: "tr_channel option"
  mChannelsDiffer :: bool
  mTransmitState :: MACTransmitState
  mReceiveState :: MACReceiveState
  mLastTxFinishTime :: simtime
  mPauseUnitsRequested :: int
  mCurTxFrame :: "'p EtherFrame option"
  mEndTx :: app_timer
  mEndIFG :: app_timer
  mEndPause :: app_timer
  mIfEntry :: "(bool \<times> real) option"
  mOperational :: bool
  mStats :: mac_stats
  mSubs :: "mac_addr list"
  mTotalRxTime :: simtime
  mPhysOut :: "'p EtherFrame list"
  mUpperOut :: "'p EtherFrame list"

abbreviation count_in ::
    "((int \<Rightarrow> int) \<Rightarrow> mac_stats \<Rightarrow> mac_stats) \<Rightarrow> int \<Rightarrow> ('p, 'q) mac \<Rightarrow> ('p, 'q) mac" where
  "count_in upd n s \<equiv> s\<lparr>mStats := upd (\<lambda>i. i + n) (mStats s)\<rparr>"

section \<open>Requests to the queue\<close>

definition request_if_none :: "('q, 'm) iqueue \<Rightarrow> 'q \<Rightarrow> 'q" where
  "request_if_none ops q = (if iq_getNumPendingRequests ops q = 0 then iq_requestPacket ops q else q)"

definition requestNextFrameFromExtQueue ::
    "('q, 'p EtherFrame) iqueue \<Rightarrow> ('p, 'q) mac \<Rightarrow> ('p, 'q) mac" where
  "requestNextFrameFromExtQueue ops s =
     (case mTxQueue s of Ext q \<Rightarrow> s\<lparr>mTxQueue := Ext (request_if_none ops q)\<rparr> | _ \<Rightarrow> s)"

definition getNextFrameFromQueue ::
    "('q, 'p EtherFrame) iqueue \<Rightarrow> ('p, 'q) mac \<Rightarrow> ('p, 'q) mac res" where
  "getNextFrameFromQueue ops s =
     (case mTxQueue s of
        NoQueue \<Rightarrow> Inl NullDeref
      | Ext q \<Rightarrow> Inr (s\<lparr>mTxQueue := Ext (request_if_none ops q)\<rparr>)
      | Inner [] limit \<Rightarrow> Inr s
      | Inner (f # fs) limit \<Rightarrow> Inr (s\<lparr>mTxQueue := Inner fs limit, mCurTxFrame := Some f\<rparr>))"

section \<open>Initialization\<close>

text \<open>The module named stays the same object: a second call finds it in its current state.\<close>

definition initializeQueueModule ::
    "('q, 'p EtherFrame) iqueue \<Rightarrow> 'q mac_par \<Rightarrow> ('p, 'q) mac \<Rightarrow> ('p, 'q) mac" where
  "initializeQueueModule ops par s =
     (case mp_queue par of
        Some q0 \<Rightarrow>
          let q = (case mTxQueue s of Ext q \<Rightarrow> q | _ \<Rightarrow> q0)
          in s\<lparr>mTxQueue := Ext (request_if_none ops q)\<rparr>
      | None \<Rightarrow> s\<lparr>mTxQueue := Inner [] (mp_txQueueLimit par)\<rparr>)"

text \<open>The counter of automatic addresses is global.\<close>

definition initializeMACAddress :: "u32 \<Rightarrow> ('p, 'q) mac \<Rightarrow> (u32 \<times> ('p, 'q) mac) res" where
  "initializeMACAddress ctr s =
     (if mAddressPar s = ''auto''
      then let (ctr', a) = generateAutoAddress ctr
           in Inr (ctr', s\<lparr>mAddress := a, mAddressPar := mac_str a\<rparr>)
      else bindR (setAddress (mAddress s) (mAddressPar s)) (\<lambda>a. Inr (ctr, s\<lparr>mAddress := a\<rparr>)))"

definition phys_connected :: "phys \<Rightarrow> bool" where
  "phys_connected ph \<longleftrightarrow> outPathConnected ph \<and> inPathConnected ph"

definition initializeFlags :: "'q mac_par \<Rightarrow> phys \<Rightarrow> ('p, 'q) mac \<Rightarrow> ('p, 'q) mac" where
  "initializeFlags par ph s =
     s\<lparr>mDuplexMode := True, mConnected := phys_connected ph, mDisabled := False,
       mPromiscuous := mp_promiscuous par, mFrameBursting := False\<rparr>"

text \<open>The members after the constructor; \<open>addr\<close> is the parameter \<open>address\<close>.\<close>

definition mac_new :: "string \<Rightarrow> ('p, 'q) mac" where
  "mac_new addr =
     \<lparr>mDescr = nullEtherDescr, mAddress = 0, mAddressPar = addr, mConnected = False, mDisabled = False,
      mPromiscuous = False, mDuplexMode = False, mFrameBursting = False, mTxQueue = NoQueue,
      mChannel = None, mChannelsDiffer = False, mTransmitState = TX_IDLE_STATE,
      mReceiveState = RX_IDLE_STATE, mLastTxFinishTime = - SIMTIME_SECOND, mPauseUnitsRequested = 0,
      mCurTxFrame = None, mEndTx = \<lparr>tm_kind = ENDTRANSMISSION, tm_at = None\<rparr>,
      mEndIFG = \<lparr>tm_kind = ENDIFG, tm_at = None\<rparr>, mEndPause = \<lparr>tm_kind = ENDPAUSE, tm_at = None\<rparr>,
      mIfEntry = None, mOperational = False, mStats = initializeStatistics, mSubs = [],
      mTotalRxTime = 0, mPhysOut = [], mUpperOut = []\<rparr>"

definition channel_off :: "tr_channel option \<Rightarrow> bool" where
  "channel_off c \<longleftrightarrow> (case c of None \<Rightarrow> True | Some ch \<Rightarrow> ch_disabled ch)"

definition channel_rate :: "tr_channel option \<Rightarrow> real" where
  "channel_rate c = (case c of None \<Rightarrow> 0 | Some ch \<Rightarrow> ch_datarate ch)"

text \<open>The end of \<open>readChannelParameters\<close>, when nothing speaks against the channel.\<close>

definition adopt_channel :: "phys \<Rightarrow> bool \<Rightarrow> bool \<Rightarrow> ('p, 'q) mac \<Rightarrow> ('p, 'q) mac res" where
  "adopt_channel ph conn channelsDiffer s =
     (let txRate = channel_rate (outTrChannel ph);
          s1 = s\<lparr>mConnected := conn, mChannelsDiffer := channelsDiffer\<rparr>
      in if conn
         then (case find (\<lambda>d. txRate = txrate d) etherDescrs of
                 None \<Rightarrow> Inl (RuntimeError ''Invalid transmission rate'')
               | Some d \<Rightarrow>
                   Inr (s1\<lparr>mChannel := outTrChannel ph, mDescr := d,
                           mIfEntry := map_option (\<lambda>_. (True, txRate)) (mIfEntry s1)\<rparr>))
         else Inr (s1\<lparr>mDescr := nullEtherDescr,
                      mChannel := (if outTrChannel ph = None then None else mChannel s1),
                      mIfEntry := map_option (\<lambda>_. (False, 0)) (mIfEntry s1)\<rparr>))"

definition readChannelParameters :: "bool \<Rightarrow> phys \<Rightarrow> ('p, 'q) mac \<Rightarrow> ('p, 'q) mac res" where
  "readChannelParameters errorWhenAsymmetric ph s =
     (if phys_connected ph \<and> (outTrChannel ph = None \<or> inTrChannel ph = None)
      then Inl (RuntimeError ''Ethernet phys gate must be connected using a transmission channel'')
      else
        let rxDisabled = channel_off (inTrChannel ph);
            txDisabled = channel_off (outTrChannel ph);
            conn = (phys_connected ph \<and> \<not> txDisabled);
            dataratesDiffer = (conn \<and> channel_rate (outTrChannel ph) \<noteq> channel_rate (inTrChannel ph))
        in if errorWhenAsymmetric \<and> rxDisabled \<noteq> txDisabled
           then Inl (RuntimeError ''The enablements of the input/output channels differ'')
           else if errorWhenAsymmetric \<and> dataratesDiffer
           then Inl (RuntimeError ''The input/output datarates differ'')
           else adopt_channel ph conn (dataratesDiffer \<or> rxDisabled \<noteq> txDisabled) s)"

text \<open>Stage 0 of \<open>EtherMACBase::initialize\<close>; the flags are those of the derived class.\<close>

definition mac_base_initialize0 ::
    "('q, 'p EtherFrame) iqueue \<Rightarrow> 'q mac_par \<Rightarrow> phys \<Rightarrow> u32 \<Rightarrow> ('p, 'q) mac \<Rightarrow> (u32 \<times> ('p, 'q) mac) res" where
  "mac_base_initialize0 ops par ph ctr s =
     bindR (initializeMACAddress ctr
       (initializeFlags par ph (s\<lparr>mChannel := None, mCurTxFrame := None\<rparr>))) (\<lambda>(ctr', s1).
     let s2 = s1\<lparr>mStats := initializeStatistics, mLastTxFinishTime := - SIMTIME_SECOND,
                 mEndTx := \<lparr>tm_kind = ENDTRANSMISSION, tm_at = None\<rparr>,
                 mEndIFG := \<lparr>tm_kind = ENDIFG, tm_at = None\<rparr>,
                 mEndPause := \<lparr>tm_kind = ENDPAUSE, tm_at = None\<rparr>,
                 mTransmitState := TX_IDLE_STATE, mReceiveState := RX_IDLE_STATE,
                 mPauseUnitsRequested := 0,
                 mIfEntry := (if mp_registers par then Some (True, 0) else None)\<rparr>
     in bindR (readChannelParameters True ph (initializeQueueModule ops par s2)) (\<lambda>s3. Inr (ctr', s3)))"

section \<open>Connection and life cycle\<close>

text \<open>The loop that drops the frames of the inner queue.\<close>

fun drop_inner :: "'p EtherFrame list \<Rightarrow> int \<Rightarrow> ('p, 'q) mac \<Rightarrow> ('p, 'q) mac" where
  "drop_inner [] limit s = s\<lparr>mTxQueue := Inner [] limit\<rparr>"
| "drop_inner (f # fs) limit s = drop_inner fs limit (count_in numDroppedPkFromHLIfaceDown_update 1 s)"

definition processConnectDisconnect ::
    "('q, 'p EtherFrame) iqueue \<Rightarrow> ('p, 'q) mac \<Rightarrow> ('p, 'q) mac res" where
  "processConnectDisconnect ops s =
     (if mConnected s then Inr s
      else
        let s1 = s\<lparr>mEndTx := cancelEvent (mEndTx s), mEndIFG := cancelEvent (mEndIFG s),
                   mEndPause := cancelEvent (mEndPause s)\<rparr>;
            s2 = (if mCurTxFrame s1 \<noteq> None
                  then s1\<lparr>mCurTxFrame := None, mLastTxFinishTime := - SIMTIME_SECOND\<rparr> else s1);
            idle = (\<lambda>t. t\<lparr>mTransmitState := TX_IDLE_STATE, mReceiveState := RX_IDLE_STATE\<rparr>)
        in case mTxQueue s2 of
             NoQueue \<Rightarrow> Inl NullDeref
           | Ext q \<Rightarrow> Inr (idle (s2\<lparr>mTxQueue := Ext (request_if_none ops q)\<rparr>))
           | Inner fs limit \<Rightarrow> Inr (idle (drop_inner fs limit s2)))"

text \<open>The loop over an external queue; \<open>None\<close> is a loop that does not end.\<close>

partial_function (option) flush_ext :: "('q, 'm) iqueue \<Rightarrow> 'q \<Rightarrow> 'q option" where
  "flush_ext ops q = (if iq_isEmpty ops q then Some q else flush_ext ops (fst (iq_pop ops q)))"

definition flushQueue ::
    "('q, 'p EtherFrame) iqueue \<Rightarrow> ('p, 'q) mac \<Rightarrow> ('p, 'q) mac res option" where
  "flushQueue ops s =
     (case mTxQueue s of
        NoQueue \<Rightarrow> Some (Inl NullDeref)
      | Inner fs limit \<Rightarrow> Some (Inr (s\<lparr>mTxQueue := Inner [] limit\<rparr>))
      | Ext q \<Rightarrow> map_option (\<lambda>q'. Inr (s\<lparr>mTxQueue := Ext q'\<rparr>))
                    (Option.bind (flush_ext ops q) (iq_clear ops)))"

definition clearQueue ::
    "('q, 'p EtherFrame) iqueue \<Rightarrow> ('p, 'q) mac \<Rightarrow> ('p, 'q) mac res option" where
  "clearQueue ops s =
     (case mTxQueue s of
        NoQueue \<Rightarrow> Some (Inl NullDeref)
      | Inner fs limit \<Rightarrow> Some (Inr (s\<lparr>mTxQueue := Inner [] limit\<rparr>))
      | Ext q \<Rightarrow> map_option (\<lambda>q'. Inr (s\<lparr>mTxQueue := Ext q'\<rparr>)) (iq_clear ops q))"

definition refreshConnection ::
    "('q, 'p EtherFrame) iqueue \<Rightarrow> phys \<Rightarrow> ('p, 'q) mac \<Rightarrow> ('p, 'q) mac res" where
  "refreshConnection ops ph s =
     bindR (readChannelParameters False ph s) (\<lambda>s1.
       if mConnected s \<noteq> mConnected s1 then processConnectDisconnect ops s1 else Inr s1)"

text \<open>
  The notifications of the kernel about a path and a parameter, each with whether it concerns this MAC: the
  path starts at \<open>physOutGate\<close> or ends at \<open>physInGate\<close>, the parameter belongs to the channel in use.
\<close>

datatype mac_signal = PathCreated bool bool | PathCut bool bool | ParameterChanged bool | OtherSignal

definition receiveSignal ::
    "('q, 'p EtherFrame) iqueue \<Rightarrow> phys \<Rightarrow> mac_signal \<Rightarrow> ('p, 'q) mac \<Rightarrow> ('p, 'q) mac res" where
  "receiveSignal ops ph sig s =
     (case sig of
        PathCreated starts ends \<Rightarrow> if starts \<or> ends then refreshConnection ops ph s else Inr s
      | PathCut starts ends \<Rightarrow> if starts \<or> ends then refreshConnection ops ph s else Inr s
      | ParameterChanged owner \<Rightarrow>
          if mChannel s \<noteq> None \<and> owner then refreshConnection ops ph s else Inr s
      | OtherSignal \<Rightarrow> Inr s)"

text \<open>\<open>MACBase\<close> forgets an interface entry that is deleted.\<close>

definition receiveChangeNotification :: "bool \<Rightarrow> bool \<Rightarrow> ('p, 'q) mac \<Rightarrow> ('p, 'q) mac" where
  "receiveChangeNotification interfaceDeleted ours s =
     (if interfaceDeleted \<and> ours then s\<lparr>mIfEntry := None\<rparr> else s)"

definition updateOperationalFlag :: "bool \<Rightarrow> ('p, 'q) mac \<Rightarrow> ('p, 'q) mac" where
  "updateOperationalFlag isNodeUp s = s\<lparr>mOperational := isNodeUp\<rparr>"

text \<open>\<open>MACBase::handleOperationStage\<close>, called last by that of the derived class.\<close>

fun macbase_handleOperationStage ::
    "('q, 'p EtherFrame) iqueue \<Rightarrow> LifecycleOperation \<Rightarrow> nat \<Rightarrow> ('p, 'q) mac \<Rightarrow> ('p, 'q) mac res option" where
  "macbase_handleOperationStage ops NodeStartOperation stage s =
     Some (Inr (if stage = start_STAGE_LINK_LAYER then updateOperationalFlag True s else s))"
| "macbase_handleOperationStage ops NodeShutdownOperation stage s =
     (if stage = shutdown_STAGE_LINK_LAYER then flushQueue ops (updateOperationalFlag False s)
      else Some (Inr s))"
| "macbase_handleOperationStage ops NodeCrashOperation stage s =
     (if stage = crash_STAGE_CRASH then clearQueue ops (updateOperationalFlag False s) else Some (Inr s))"
| "macbase_handleOperationStage ops OtherOperation stage s =
     Some (Inl (RuntimeError ''Unsupported operation''))"

definition down_or_error ::
    "('q, 'p EtherFrame) iqueue \<Rightarrow> LifecycleOperation \<Rightarrow> nat \<Rightarrow> ('p, 'q) mac \<Rightarrow> ('p, 'q) mac res option" where
  "down_or_error ops operation stage s =
     (case processConnectDisconnect ops (s\<lparr>mConnected := False\<rparr>) of
        Inl e \<Rightarrow> Some (Inl e)
      | Inr s1 \<Rightarrow> macbase_handleOperationStage ops operation stage s1)"

fun mac_handleOperationStage ::
    "('q, 'p EtherFrame) iqueue \<Rightarrow> 'q mac_par \<Rightarrow> phys \<Rightarrow> u32 \<Rightarrow> LifecycleOperation \<Rightarrow> nat
     \<Rightarrow> ('p, 'q) mac \<Rightarrow> (u32 \<times> ('p, 'q) mac) res option" where
  "mac_handleOperationStage ops par ph ctr NodeStartOperation stage s =
     (if stage = start_STAGE_LINK_LAYER then
        (case initializeMACAddress ctr (initializeFlags par ph s) of
           Inl e \<Rightarrow> Some (Inl e)
         | Inr (ctr', s1) \<Rightarrow>
             map_option (\<lambda>r. bindR r (\<lambda>s2. Inr (ctr', s2)))
               (macbase_handleOperationStage ops NodeStartOperation stage (initializeQueueModule ops par s1)))
      else map_option (\<lambda>r. bindR r (\<lambda>s2. Inr (ctr, s2)))
             (macbase_handleOperationStage ops NodeStartOperation stage s))"
| "mac_handleOperationStage ops par ph ctr operation stage s =
     map_option (\<lambda>r. bindR r (\<lambda>s2. Inr (ctr, s2)))
       (if (operation = NodeShutdownOperation \<and> stage = shutdown_STAGE_LINK_LAYER)
           \<or> (operation = NodeCrashOperation \<and> stage = crash_STAGE_CRASH)
        then down_or_error ops operation stage s
        else macbase_handleOperationStage ops operation stage s)"

section \<open>Address filter\<close>

definition dropFrameNotForUs :: "'p EtherFrame \<Rightarrow> ('p, 'q) mac \<Rightarrow> bool \<times> ('p, 'q) mac" where
  "dropFrameNotForUs frame s =
     (if fr_dest frame = mAddress s then (False, s)
      else if isBroadcast (fr_dest frame) then (False, s)
      else if \<not> isPauseFrame frame \<and> (mPromiscuous s \<or> isMulticast (fr_dest frame)) then (False, s)
      else if isPauseFrame frame \<and> fr_dest frame = MULTICAST_PAUSE_ADDRESS then (False, s)
      else (True, count_in numDroppedNotForUs_update 1 s))"

lemma scheduleAt_Inr:
  "scheduleAt now due t = Inr t' \<longleftrightarrow> tm_at t = None \<and> now \<le> due \<and> t' = t\<lparr>tm_at := Some due\<rparr>"
  by (auto simp: scheduleAt_def)

section \<open>The inner queue\<close>

abbreviation pauses :: "'p EtherFrame list \<Rightarrow> 'p EtherFrame list" where
  "pauses \<equiv> filter (\<lambda>f. isPauseFrame f)"

abbreviation data_frames :: "'p EtherFrame list \<Rightarrow> 'p EtherFrame list" where
  "data_frames \<equiv> filter (\<lambda>f. \<not> isPauseFrame f)"

definition inner_sorted :: "'p EtherFrame list \<Rightarrow> bool" where
  "inner_sorted fs \<longleftrightarrow> fs = pauses fs @ data_frames fs"

lemma dropWhile_none: "(\<And>x. x \<in> set xs \<Longrightarrow> \<not> P x) \<Longrightarrow> dropWhile P xs = xs"
  by (cases xs) auto

lemma insertFrame_sorted:
  assumes "inner_sorted fs"
  shows "insertFrame f fs = pauses (fs @ [f]) @ data_frames (fs @ [f])"
proof (cases "isPauseFrame f")
  case True
  have r: "rev fs = rev (data_frames fs) @ rev (pauses fs)"
    using assms unfolding inner_sorted_def by (metis rev_append)
  have "dropWhile (\<lambda>y. packetCompare f y < 0) (rev fs) = dropWhile (\<lambda>y. packetCompare f y < 0) (rev (pauses fs))"
    unfolding r by (rule dropWhile_append2) (use True in \<open>auto simp: packetCompare_def\<close>)
  also have "\<dots> = rev (pauses fs)" using True by (intro dropWhile_none) (auto simp: packetCompare_def)
  finally have d: "rev (dropWhile (\<lambda>y. packetCompare f y < 0) (rev fs)) = pauses fs" by simp
  have "drop (length (pauses fs)) fs = data_frames fs"
    using assms unfolding inner_sorted_def by (metis append_eq_conv_conj)
  then show ?thesis using True by (simp add: insertFrame_def cQueue_insert_def d Let_def)
next
  case False
  have "dropWhile (\<lambda>y. packetCompare f y < 0) (rev fs) = rev fs"
    using False by (intro dropWhile_none) (auto simp: packetCompare_def)
  then have "insertFrame f fs = fs @ [f]" by (simp add: insertFrame_def cQueue_insert_def Let_def)
  then show ?thesis using False assms unfolding inner_sorted_def by simp
qed

lemma inner_sorted_insert: "inner_sorted fs \<Longrightarrow> inner_sorted (insertFrame f fs)"
  by (simp add: insertFrame_sorted inner_sorted_def)

lemma inner_sorted_tl: "inner_sorted (f # fs) \<Longrightarrow> inner_sorted fs"
proof -
  assume s: "inner_sorted (f # fs)"
  show "inner_sorted fs"
  proof (cases "isPauseFrame f")
    case False
    have e: "f # fs = pauses fs @ f # data_frames fs" using s False by (simp add: inner_sorted_def)
    have "pauses fs = []"
    proof (cases "pauses fs")
      case (Cons g gs)
      then have "g \<in> set (pauses fs)" by simp
      moreover have "f = g" using e Cons by simp
      ultimately show ?thesis using False by simp
    qed
    then show ?thesis using s False by (simp add: inner_sorted_def)
  qed (use s in \<open>simp add: inner_sorted_def\<close>)
qed

lemma insertFrame_split: "\<exists>as bs. fs = as @ bs \<and> insertFrame f fs = as @ f # bs"
proof -
  define as where "as = rev (dropWhile (\<lambda>y. packetCompare f y < 0) (rev fs))"
  define bs where "bs = rev (takeWhile (\<lambda>y. packetCompare f y < 0) (rev fs))"
  have e: "fs = as @ bs" by (metis as_def bs_def rev_append rev_rev_ident takeWhile_dropWhile_id)
  moreover have "insertFrame f fs = as @ f # drop (length as) fs"
    by (simp add: insertFrame_def cQueue_insert_def Let_def as_def)
  moreover have "drop (length as) fs = bs" by (subst e) simp
  ultimately show ?thesis by auto
qed

lemma insertFrame_props [simp]:
  "set (insertFrame f fs) = insert f (set fs)" "length (insertFrame f fs) = Suc (length fs)"
  using insertFrame_split [of fs f] by auto

lemma insertFrame_nonempty [simp]: "insertFrame f fs \<noteq> []"
  by (simp add: insertFrame_def cQueue_insert_def Let_def)

end
