(* ===== verification/EtherMACFullDuplex.thy ===== *)
theory EtherMACFullDuplex
  imports EtherMACBase
begin

text \<open>
  \<open>linklayer/ethernet/EtherMACFullDuplex\<close>: transmission with interframe gaps, reception with the
  address filter and the eight multicast subscriptions added for the process bus, and PAUSE. A
  handler takes the simulation time \<open>now\<close> and what the gates are connected to.
\<close>

section \<open>Timers and transmission\<close>

text \<open>
  A quotient by a rate of zero is infinite and converts to no simulation time; so does a product
  that does not fit an \<open>int\<close>.
\<close>

definition scheduleEndIFGPeriod :: "'q mac_par \<Rightarrow> simtime \<Rightarrow> ('p, 'q) mac \<Rightarrow> ('p, 'q) mac res" where
  "scheduleEndIFGPeriod par now s =
     (if txrate (mDescr s) = 0 then Inl UndefinedConversion
      else
        let endIFGTime = now + mp_simtime par (real_of_int INTERFRAME_GAP_BITS / txrate (mDescr s))
        in bindR (scheduleAt now endIFGTime (mEndIFG s)) (\<lambda>t.
             Inr (s\<lparr>mTransmitState := WAIT_IFG_STATE, mEndIFG := t\<rparr>)))"

definition scheduleEndPausePeriod :: "'q mac_par \<Rightarrow> simtime \<Rightarrow> int \<Rightarrow> ('p, 'q) mac \<Rightarrow> ('p, 'q) mac res" where
  "scheduleEndPausePeriod par now pauseUnits s =
     (if txrate (mDescr s) = 0 \<or> \<not> (\<bar>pauseUnits * PAUSE_UNIT_BITS\<bar> < 2 ^ 31) then Inl UndefinedConversion
      else
        let pausePeriod = mp_simtime par (real_of_int (pauseUnits * PAUSE_UNIT_BITS) / txrate (mDescr s))
        in bindR (scheduleAt now (now + pausePeriod) (mEndPause s)) (\<lambda>t.
             Inr (s\<lparr>mEndPause := t, mTransmitState := PAUSE_STATE\<rparr>)))"

text \<open>The frame as it goes on the wire: source address, padding, preamble and start delimiter.\<close>

definition wire_frame :: "('p, 'q) mac \<Rightarrow> 'p EtherFrame \<Rightarrow> 'p EtherFrame" where
  "wire_frame s f =
     (let f1 = (if isUnspecified (fr_src f) then f\<lparr>fr_src := mAddress s\<rparr> else f);
          f2 = (if fr_byteLength f1 < frameMinBytes (mDescr s)
                then f1\<lparr>fr_byteLength := frameMinBytes (mDescr s)\<rparr> else f1)
      in f2\<lparr>fr_byteLength := fr_byteLength f2 + (PREAMBLE_BYTES + SFD_BYTES)\<rparr>)"

definition startFrameTransmission :: "'q mac_par \<Rightarrow> simtime \<Rightarrow> ('p, 'q) mac \<Rightarrow> ('p, 'q) mac res" where
  "startFrameTransmission par now s =
     (case mCurTxFrame s of
        None \<Rightarrow> Inl AssertFailed
      | Some cur \<Rightarrow>
          let frame = wire_frame s cur
          in case mChannel s of
               None \<Rightarrow> Inl NullDeref
             | Some ch \<Rightarrow>
                 bindR (scheduleAt now (now + mp_txDuration par (ch_datarate ch) (fr_byteLength frame)) (mEndTx s))
                   (\<lambda>t. Inr (s\<lparr>mPhysOut := mPhysOut s @ [frame], mEndTx := t,
                               mTransmitState := TRANSMITTING_STATE\<rparr>)))"

definition beginSendFrames :: "'q mac_par \<Rightarrow> simtime \<Rightarrow> ('p, 'q) mac \<Rightarrow> ('p, 'q) mac res" where
  "beginSendFrames par now s =
     (if mCurTxFrame s \<noteq> None then startFrameTransmission par now s
      else Inr (s\<lparr>mTransmitState := TX_IDLE_STATE\<rparr>))"

definition handleEndIFGPeriod :: "'q mac_par \<Rightarrow> simtime \<Rightarrow> ('p, 'q) mac \<Rightarrow> ('p, 'q) mac res" where
  "handleEndIFGPeriod par now s =
     (if mTransmitState s \<noteq> WAIT_IFG_STATE
      then Inl (RuntimeError ''Not in WAIT_IFG_STATE at the end of IFG period'')
      else beginSendFrames par now s)"

definition handleEndPausePeriod :: "'q mac_par \<Rightarrow> simtime \<Rightarrow> ('p, 'q) mac \<Rightarrow> ('p, 'q) mac res" where
  "handleEndPausePeriod par now s =
     (if mTransmitState s \<noteq> PAUSE_STATE
      then Inl (RuntimeError ''End of PAUSE event occurred when not in PAUSE_STATE!'')
      else beginSendFrames par now s)"

definition count_sent :: "'p EtherFrame \<Rightarrow> ('p, 'q) mac \<Rightarrow> ('p, 'q) mac" where
  "count_sent f s =
     (if isPauseFrame f then count_in numPauseFramesSent_update 1 s
      else count_in numBytesSent_update (fr_byteLength f) (count_in numFramesSent_update 1 s))"

definition handleEndTxPeriod ::
    "('q, 'p EtherFrame) iqueue \<Rightarrow> 'q mac_par \<Rightarrow> simtime \<Rightarrow> ('p, 'q) mac \<Rightarrow> ('p, 'q) mac res" where
  "handleEndTxPeriod ops par now s =
     (if mTransmitState s \<noteq> TRANSMITTING_STATE
      then Inl (RuntimeError ''End of transmission, and incorrect state detected'')
      else case mCurTxFrame s of
        None \<Rightarrow> Inl (RuntimeError ''Frame under transmission cannot be found'')
      | Some cur \<Rightarrow>
          let s1 = (count_sent cur s)\<lparr>mCurTxFrame := None, mLastTxFinishTime := now\<rparr>
          in bindR (getNextFrameFromQueue ops s1) (\<lambda>s2.
               if mPauseUnitsRequested s2 > 0
               then bindR (scheduleEndPausePeriod par now (mPauseUnitsRequested s2) s2) (\<lambda>s3.
                      Inr (s3\<lparr>mPauseUnitsRequested := 0\<rparr>))
               else scheduleEndIFGPeriod par now s2))"

section \<open>Frames from the upper layer\<close>

definition processFrameFromUpperLayer ::
    "('q, 'p EtherFrame) iqueue \<Rightarrow> 'q mac_par \<Rightarrow> simtime \<Rightarrow> 'p EtherFrame \<Rightarrow> ('p, 'q) mac
     \<Rightarrow> ('p, 'q) mac res" where
  "processFrameFromUpperLayer ops par now frame0 s =
     (let frame = pad_frame frame0 in
      if fr_dest frame = mAddress s
      then Inl (RuntimeError ''logic error: frame from higher layer has local MAC address as dest'')
      else if fr_byteLength frame > MAX_ETHERNET_FRAME_BYTES
      then Inl (RuntimeError ''packet from higher layer exceeds maximum Ethernet frame size'')
      else if \<not> mConnected s \<or> mDisabled s
      then Inr (requestNextFrameFromExtQueue ops (count_in numDroppedPkFromHLIfaceDown_update 1 s))
      else
        let frame1 = (if isUnspecified (fr_src frame) then frame\<lparr>fr_src := mAddress s\<rparr> else frame);
            s1 = (if isPauseFrame frame1 then s else count_in numFramesFromHL_update 1 s);
            stored =
              (case mTxQueue s1 of
                 NoQueue \<Rightarrow> Inl NullDeref
               | Ext q \<Rightarrow> if mCurTxFrame s1 = None then Inr (s1\<lparr>mCurTxFrame := Some frame1\<rparr>)
                          else Inl AssertFailed
               | Inner fs limit \<Rightarrow>
                   if inner_isFull limit fs then Inl (RuntimeError ''txQueue length exceeds limit'')
                   else
                     let fs1 = insertFrame frame1 fs
                     in if mCurTxFrame s1 = None \<and> fs1 \<noteq> []
                        then Inr (s1\<lparr>mTxQueue := Inner (tl fs1) limit, mCurTxFrame := Some (hd fs1)\<rparr>)
                        else Inr (s1\<lparr>mTxQueue := Inner fs1 limit\<rparr>))
        in bindR stored (\<lambda>s2.
             if mTransmitState s2 = TX_IDLE_STATE then startFrameTransmission par now s2 else Inr s2))"

section \<open>Messages from the network\<close>

definition processReceivedDataFrame :: "'p EtherFrame \<Rightarrow> ('p, 'q) mac \<Rightarrow> ('p, 'q) mac" where
  "processReceivedDataFrame frame0 s =
     (let frame = frame0\<lparr>fr_byteLength := fr_byteLength frame0 - PREAMBLE_BYTES - SFD_BYTES\<rparr>;
          s1 = count_in numBytesReceivedOK_update (fr_byteLength frame)
                 (count_in numFramesReceivedOK_update 1 s);
          s2 = count_in numFramesPassedToHL_update 1 s1
      in s2\<lparr>mUpperOut := mUpperOut s2 @ [frame]\<rparr>)"

definition processPauseCommand :: "'q mac_par \<Rightarrow> simtime \<Rightarrow> int \<Rightarrow> ('p, 'q) mac \<Rightarrow> ('p, 'q) mac res" where
  "processPauseCommand par now pauseUnits s =
     (if mTransmitState s = TX_IDLE_STATE then
        (if pauseUnits > 0 then scheduleEndPausePeriod par now pauseUnits s else Inr s)
      else if mTransmitState s = PAUSE_STATE then
        (let s1 = s\<lparr>mEndPause := cancelEvent (mEndPause s)\<rparr>
         in if pauseUnits > 0 then scheduleEndPausePeriod par now pauseUnits s1 else Inr s1)
      else Inr (s\<lparr>mPauseUnitsRequested := pauseUnits\<rparr>))"

text \<open>The loop over the subscriptions: whether it breaks.\<close>

fun subscribed :: "mac_addr \<Rightarrow> mac_addr list \<Rightarrow> bool" where
  "subscribed destAddr [] = False"
| "subscribed destAddr (a # as) = (if a \<noteq> 0 \<and> destAddr = a then True else subscribed destAddr as)"

fun pause_time :: "'p EtherFrame \<Rightarrow> int option" where
  "pause_time f = (case fr_class f of EtherPauseFrame units \<Rightarrow> Some units | _ \<Rightarrow> None)"

declare pause_time.simps [simp del]

definition processMsgFromNetwork ::
    "'q mac_par \<Rightarrow> simtime \<Rightarrow> 'p EtherTraffic \<Rightarrow> simtime \<Rightarrow> ('p, 'q) mac \<Rightarrow> ('p, 'q) mac res" where
  "processMsgFromNetwork par now msg duration s =
     (if \<not> mConnected s \<or> mDisabled s
      then Inr (case msg of EtherFrameMsg _ \<Rightarrow> count_in numDroppedIfaceDown_update 1 s | _ \<Rightarrow> s)
      else case msg of
        EtherIFG \<Rightarrow> Inl (RuntimeError ''There is no burst mode in full-duplex operation: EtherIFG is unexpected'')
      | EtherJam \<Rightarrow> Inl BadCast
      | EtherFrameMsg frame \<Rightarrow>
          let s1 = s\<lparr>mTotalRxTime := mTotalRxTime s + duration\<rparr>
          in if fr_bitError frame then Inr (count_in numDroppedBitError_update 1 s1)
             else
               let (dropped, s2) = dropFrameNotForUs frame s1
               in if dropped then Inr s2
                  else (case pause_time frame of
                     Some pauseUnits \<Rightarrow>
                       processPauseCommand par now pauseUnits (count_in numPauseFramesRcvd_update 1 s2)
                   | None \<Rightarrow>
                       if \<not> mPromiscuous s2 \<and> isMulticast (fr_dest frame) \<and> \<not> isBroadcast (fr_dest frame)
                          \<and> \<not> subscribed (fr_dest frame) (mSubs s2)
                       then Inr (count_in numDroppedNotForUs_update 1 s2)
                       else Inr (processReceivedDataFrame frame s2)))"

section \<open>Initialization and messages\<close>

definition resolveMultiMACAddress :: "string \<Rightarrow> mac_addr" where
  "resolveMultiMACAddress multiCastAddr =
     (if multiCastAddr \<noteq> [] then snd (tryParse 0 multiCastAddr) else 0)"

text \<open>Stage 0, then stage 1 of the base class, which reads whether the node is up.\<close>

definition mac_initialize ::
    "('q, 'p EtherFrame) iqueue \<Rightarrow> 'q mac_par \<Rightarrow> phys \<Rightarrow> simtime \<Rightarrow> u32 \<Rightarrow> string \<Rightarrow> bool
     \<Rightarrow> (u32 \<times> ('p, 'q) mac) res" where
  "mac_initialize ops par ph now ctr addr isNodeUp =
     bindR (mac_base_initialize0 ops par ph ctr (mac_new addr)) (\<lambda>(ctr', s).
       if length (mp_multiCastGroupAddr par) \<noteq> 8 then Inl (RuntimeError ''no such parameter'')
       else
         let s1 = s\<lparr>mSubs := map resolveMultiMACAddress (mp_multiCastGroupAddr par)\<rparr>
         in if \<not> mp_duplexMode par
            then Inl (RuntimeError ''Half duplex operation is not supported by EtherMACFullDuplex'')
            else bindR (beginSendFrames par now s1) (\<lambda>s2.
                   Inr (ctr', updateOperationalFlag isNodeUp s2)))"

datatype 'p mac_msg = EndTx | EndIFG | EndPause | FromUpperLayer "'p EtherFrame"
  | FromNetwork "'p EtherTraffic" simtime

definition handleSelfMessage ::
    "('q, 'p EtherFrame) iqueue \<Rightarrow> 'q mac_par \<Rightarrow> simtime \<Rightarrow> 'p mac_msg \<Rightarrow> ('p, 'q) mac \<Rightarrow> ('p, 'q) mac res" where
  "handleSelfMessage ops par now m s =
     (case m of
        EndTx \<Rightarrow> handleEndTxPeriod ops par now (s\<lparr>mEndTx := cancelEvent (mEndTx s)\<rparr>)
      | EndIFG \<Rightarrow> handleEndIFGPeriod par now (s\<lparr>mEndIFG := cancelEvent (mEndIFG s)\<rparr>)
      | EndPause \<Rightarrow> handleEndPausePeriod par now (s\<lparr>mEndPause := cancelEvent (mEndPause s)\<rparr>)
      | _ \<Rightarrow> Inl (RuntimeError ''Unknown self message received!''))"

text \<open>A message to a MAC that is not operational: \<open>MACBase::handleMessageWhenDown\<close>.\<close>

definition handleMessageWhenDown :: "'p mac_msg \<Rightarrow> ('p, 'q) mac \<Rightarrow> ('p, 'q) mac res" where
  "handleMessageWhenDown m s =
     (case m of
        FromNetwork _ _ \<Rightarrow> Inr s
      | _ \<Rightarrow> Inl (RuntimeError ''Message received from higher layer while interface is off''))"

definition mac_handleMessage ::
    "('q, 'p EtherFrame) iqueue \<Rightarrow> 'q mac_par \<Rightarrow> phys \<Rightarrow> simtime \<Rightarrow> 'p mac_msg \<Rightarrow> ('p, 'q) mac
     \<Rightarrow> ('p, 'q) mac res" where
  "mac_handleMessage ops par ph now m s =
     (if \<not> mOperational s then handleMessageWhenDown m s
      else bindR (if mChannelsDiffer s then readChannelParameters True ph s else Inr s) (\<lambda>s1.
        case m of
          FromUpperLayer frame \<Rightarrow> processFrameFromUpperLayer ops par now frame s1
        | FromNetwork msg duration \<Rightarrow> processMsgFromNetwork par now msg duration s1
        | _ \<Rightarrow> handleSelfMessage ops par now m s1))"

section \<open>Transmit state and timers\<close>

abbreviation armed :: "app_timer \<Rightarrow> bool" where "armed t \<equiv> tm_at t \<noteq> None"

text \<open>Which timers run in which state; in \<open>PAUSE_STATE\<close> \<open>endPauseMsg\<close> may be missing.\<close>

fun tx_ok :: "MACTransmitState \<Rightarrow> bool \<Rightarrow> bool \<Rightarrow> bool \<Rightarrow> bool \<Rightarrow> bool" where
  "tx_ok TX_IDLE_STATE frame endTx endIFG endPause \<longleftrightarrow> \<not> frame \<and> \<not> endTx \<and> \<not> endIFG \<and> \<not> endPause"
| "tx_ok TRANSMITTING_STATE frame endTx endIFG endPause \<longleftrightarrow> frame \<and> endTx \<and> \<not> endIFG \<and> \<not> endPause"
| "tx_ok WAIT_IFG_STATE frame endTx endIFG endPause \<longleftrightarrow> \<not> endTx \<and> endIFG \<and> \<not> endPause"
| "tx_ok PAUSE_STATE frame endTx endIFG endPause \<longleftrightarrow> \<not> endTx \<and> \<not> endIFG"
| "tx_ok _ frame endTx endIFG endPause \<longleftrightarrow> False"

definition tx_inv :: "('p, 'q) mac \<Rightarrow> bool" where
  "tx_inv s \<longleftrightarrow> tx_ok (mTransmitState s) (mCurTxFrame s \<noteq> None) (armed (mEndTx s)) (armed (mEndIFG s))
     (armed (mEndPause s))"

definition frame_fits :: "'p EtherFrame \<Rightarrow> bool" where
  "frame_fits f \<longleftrightarrow> 64 \<le> fr_byteLength f \<and> fr_byteLength f \<le> 1518"

definition wire_fits :: "'p EtherFrame \<Rightarrow> bool" where
  "wire_fits f \<longleftrightarrow> 72 \<le> fr_byteLength f \<and> fr_byteLength f \<le> 1526"

text \<open>An inner queue is sorted, and frames wait in it only behind a current frame.\<close>

text \<open>The limit of the inner queue is passed by one frame before the queue counts as full.\<close>

definition inner_within :: "int \<Rightarrow> nat \<Rightarrow> bool" where
  "inner_within limit n \<longleftrightarrow> limit = 0 \<or> int n \<le> max 0 (limit + 1)"

lemma inner_within_simps [simp]: "inner_within limit 0" "inner_within limit (Suc n) \<Longrightarrow> inner_within limit n"
  by (auto simp: inner_within_def)

lemma inner_within_insert: "\<not> inner_isFull limit fs \<Longrightarrow> inner_within limit (Suc (length fs))"
  by (auto simp: inner_within_def inner_isFull_def)

fun inner_ok :: "'p EtherFrame option \<Rightarrow> ('p, 'q) MacQueue \<Rightarrow> bool" where
  "inner_ok cur (Inner fs limit) \<longleftrightarrow> inner_sorted fs \<and> (cur = None \<longrightarrow> fs = []) \<and> list_all frame_fits fs
     \<and> inner_within limit (length fs)"
| "inner_ok cur (Ext q) \<longleftrightarrow> True"
| "inner_ok cur NoQueue \<longleftrightarrow> False"

definition descr_inv :: "('p, 'q) mac \<Rightarrow> bool" where
  "descr_inv s \<longleftrightarrow> frameMinBytes (mDescr s) \<le> 64"

definition mac_inv :: "('p, 'q) mac \<Rightarrow> bool" where
  "mac_inv s \<longleftrightarrow> tx_inv s \<and> inner_ok (mCurTxFrame s) (mTxQueue s) \<and> descr_inv s
     \<and> (\<forall>f. mCurTxFrame s = Some f \<longrightarrow> frame_fits f) \<and> list_all wire_fits (mPhysOut s)"

lemma wire_frame_fits: "frame_fits f \<Longrightarrow> descr_inv s \<Longrightarrow> wire_fits (wire_frame s f)"
  by (auto simp: wire_frame_def wire_fits_def frame_fits_def descr_inv_def PREAMBLE_BYTES_def SFD_BYTES_def)

lemmas mac_inv_defs = mac_inv_def tx_inv_def descr_inv_def

lemma mac_inv_stats [simp]:
  "mac_inv (s\<lparr>mStats := x\<rparr>) = mac_inv s" "mac_inv (s\<lparr>mTotalRxTime := t\<rparr>) = mac_inv s"
  "mac_inv (s\<lparr>mUpperOut := l\<rparr>) = mac_inv s" "mac_inv (s\<lparr>mPauseUnitsRequested := i\<rparr>) = mac_inv s"
  "mac_inv (s\<lparr>mOperational := b\<rparr>) = mac_inv s" "mac_inv (s\<lparr>mIfEntry := e\<rparr>) = mac_inv s"
  "mac_inv (s\<lparr>mLastTxFinishTime := t\<rparr>) = mac_inv s" "mac_inv (s\<lparr>mSubs := as\<rparr>) = mac_inv s"
  by (simp_all add: mac_inv_defs)

section \<open>Every operation keeps the invariant\<close>

lemma mac_inv_startFrameTransmission:
  assumes "startFrameTransmission par now s = Inr t"
    and "\<not> armed (mEndIFG s)" and "\<not> armed (mEndPause s)"
    and "inner_ok (mCurTxFrame s) (mTxQueue s)" and "descr_inv s"
    and "\<forall>f. mCurTxFrame s = Some f \<longrightarrow> frame_fits f" and "list_all wire_fits (mPhysOut s)"
  shows "mac_inv t"
  using assms wire_frame_fits [of _ s]
  by (auto simp: startFrameTransmission_def Let_def bindR_Inr_iff scheduleAt_Inr mac_inv_defs
      split: option.splits)

lemma mac_inv_beginSendFrames:
  assumes "beginSendFrames par now s = Inr t"
    and "\<not> armed (mEndTx s)" and "\<not> armed (mEndIFG s)" and "\<not> armed (mEndPause s)"
    and "inner_ok (mCurTxFrame s) (mTxQueue s)" and "descr_inv s"
    and "\<forall>f. mCurTxFrame s = Some f \<longrightarrow> frame_fits f" and "list_all wire_fits (mPhysOut s)"
  shows "mac_inv t"
  using assms mac_inv_startFrameTransmission [of par now s t]
  by (auto simp: beginSendFrames_def mac_inv_defs split: if_splits)

lemma mac_inv_schedule:
  "scheduleEndIFGPeriod par now s = Inr t \<Longrightarrow> \<not> armed (mEndTx s) \<Longrightarrow> \<not> armed (mEndPause s)
   \<Longrightarrow> inner_ok (mCurTxFrame s) (mTxQueue s) \<Longrightarrow> descr_inv s
   \<Longrightarrow> \<forall>f. mCurTxFrame s = Some f \<longrightarrow> frame_fits f \<Longrightarrow> list_all wire_fits (mPhysOut s) \<Longrightarrow> mac_inv t"
  "scheduleEndPausePeriod par now n s = Inr t \<Longrightarrow> \<not> armed (mEndTx s) \<Longrightarrow> \<not> armed (mEndIFG s)
   \<Longrightarrow> inner_ok (mCurTxFrame s) (mTxQueue s) \<Longrightarrow> descr_inv s
   \<Longrightarrow> \<forall>f. mCurTxFrame s = Some f \<longrightarrow> frame_fits f \<Longrightarrow> list_all wire_fits (mPhysOut s) \<Longrightarrow> mac_inv t"
  by (auto simp: scheduleEndIFGPeriod_def scheduleEndPausePeriod_def Let_def bindR_Inr_iff scheduleAt_Inr
      mac_inv_defs split: if_splits)

lemma getNextFrameFromQueue_inv:
  assumes "getNextFrameFromQueue ops s = Inr t" and "mCurTxFrame s = None"
    and "inner_ok (Some f) (mTxQueue s)"
  shows "inner_ok (mCurTxFrame t) (mTxQueue t) \<and> (\<forall>g. mCurTxFrame t = Some g \<longrightarrow> frame_fits g)
    \<and> mDescr t = mDescr s \<and> mPhysOut t = mPhysOut s \<and> mEndTx t = mEndTx s \<and> mEndIFG t = mEndIFG s
    \<and> mEndPause t = mEndPause s \<and> mPauseUnitsRequested t = mPauseUnitsRequested s
    \<and> mTransmitState t = mTransmitState s \<and> mChannel t = mChannel s"
  using assms inner_sorted_tl
  by (auto simp: getNextFrameFromQueue_def split: MacQueue.splits list.splits)

lemma count_sent_simps [simp]:
  "mCurTxFrame (count_sent f s) = mCurTxFrame s" "mTxQueue (count_sent f s) = mTxQueue s"
  "mDescr (count_sent f s) = mDescr s" "mPhysOut (count_sent f s) = mPhysOut s"
  "mEndTx (count_sent f s) = mEndTx s" "mEndIFG (count_sent f s) = mEndIFG s"
  "mEndPause (count_sent f s) = mEndPause s" "mTransmitState (count_sent f s) = mTransmitState s"
  "mPauseUnitsRequested (count_sent f s) = mPauseUnitsRequested s" "mChannel (count_sent f s) = mChannel s"
  by (simp_all add: count_sent_def)

lemma mac_inv_endTx:
  assumes "handleEndTxPeriod ops par now s = Inr t" and "mac_inv (s\<lparr>mEndTx := x\<rparr>)" and "armed x"
    and "\<not> armed (mEndTx s)"
  shows "mac_inv t"
proof -
  obtain cur where st: "mTransmitState s = TRANSMITTING_STATE" and c: "mCurTxFrame s = Some cur"
    using assms(1) by (auto simp: handleEndTxPeriod_def split: if_splits option.splits)
  define s1 where "s1 = (count_sent cur s)\<lparr>mCurTxFrame := None, mLastTxFinishTime := now\<rparr>"
  obtain s2 where g: "getNextFrameFromQueue ops s1 = Inr s2"
    and r: "(if mPauseUnitsRequested s2 > 0
             then bindR (scheduleEndPausePeriod par now (mPauseUnitsRequested s2) s2) (\<lambda>s3. Inr (s3\<lparr>mPauseUnitsRequested := 0\<rparr>))
             else scheduleEndIFGPeriod par now s2) = Inr t"
    using assms(1) st c by (auto simp: handleEndTxPeriod_def Let_def bindR_Inr_iff s1_def)
  have i: "inner_ok (Some cur) (mTxQueue s1)" "mCurTxFrame s1 = None" "descr_inv s1" "list_all wire_fits (mPhysOut s1)"
      "\<not> armed (mEndIFG s1)" "\<not> armed (mEndPause s1)" "\<not> armed (mEndTx s1)"
    using assms(2-4) st c by (auto simp: mac_inv_defs s1_def)
  note s2 = getNextFrameFromQueue_inv [OF g i(2,1)]
  have "inner_ok (mCurTxFrame s2) (mTxQueue s2)" "descr_inv s2" "list_all wire_fits (mPhysOut s2)"
      "\<not> armed (mEndTx s2)" "\<not> armed (mEndIFG s2)" "\<not> armed (mEndPause s2)" "\<forall>g. mCurTxFrame s2 = Some g \<longrightarrow> frame_fits g"
    using s2 i by (simp_all add: descr_inv_def)
  then show ?thesis
    using r mac_inv_schedule(1) [of par now s2] mac_inv_schedule(2) [of par now "mPauseUnitsRequested s2" s2]
    by (auto simp: bindR_Inr_iff split: if_splits)
qed

lemma pad_frame_fits: "fr_byteLength (pad_frame f) \<le> MAX_ETHERNET_FRAME_BYTES \<Longrightarrow> frame_fits (pad_frame f)"
  by (auto simp: pad_frame_def frame_fits_def MAX_ETHERNET_FRAME_BYTES_def MIN_ETHERNET_FRAME_BYTES_def)

lemma frame_fits_src [simp]: "frame_fits (f\<lparr>fr_src := a\<rparr>) = frame_fits f"
  by (simp add: frame_fits_def)

lemma request_keeps_inv: "mac_inv s \<Longrightarrow> mac_inv (requestNextFrameFromExtQueue ops s)"
  by (auto simp: requestNextFrameFromExtQueue_def mac_inv_defs split: MacQueue.split)

text \<open>Storing a frame that fits; afterwards the idle transmitter may have a current frame.\<close>

definition store_frame :: "'p EtherFrame \<Rightarrow> ('p, 'q) mac \<Rightarrow> ('p, 'q) mac res" where
  "store_frame f s =
     (case mTxQueue s of
        NoQueue \<Rightarrow> Inl NullDeref
      | Ext q \<Rightarrow> if mCurTxFrame s = None then Inr (s\<lparr>mCurTxFrame := Some f\<rparr>) else Inl AssertFailed
      | Inner fs limit \<Rightarrow>
          if inner_isFull limit fs then Inl (RuntimeError ''txQueue length exceeds limit'')
          else
            let fs1 = insertFrame f fs
            in if mCurTxFrame s = None \<and> fs1 \<noteq> []
               then Inr (s\<lparr>mTxQueue := Inner (tl fs1) limit, mCurTxFrame := Some (hd fs1)\<rparr>)
               else Inr (s\<lparr>mTxQueue := Inner fs1 limit\<rparr>))"

lemma store_frame_shape:
  assumes "store_frame f s = Inr t"
  shows "t = s\<lparr>mTxQueue := mTxQueue t, mCurTxFrame := mCurTxFrame t\<rparr>"
  using assms by (auto simp: store_frame_def Let_def split: MacQueue.splits if_splits)

lemma store_frame_queue:
  assumes "store_frame f s = Inr t" and "frame_fits f" and "inner_ok (mCurTxFrame s) (mTxQueue s)"
    and "\<forall>g. mCurTxFrame s = Some g \<longrightarrow> frame_fits g"
  shows "inner_ok (mCurTxFrame t) (mTxQueue t)" and "\<forall>g. mCurTxFrame t = Some g \<longrightarrow> frame_fits g"
    and "mCurTxFrame t \<noteq> None"
proof -
  have "inner_ok (mCurTxFrame t) (mTxQueue t) \<and> (\<forall>g. mCurTxFrame t = Some g \<longrightarrow> frame_fits g) \<and> mCurTxFrame t \<noteq> None"
  proof (cases "mTxQueue s")
    case NoQueue
    then show ?thesis using assms(1) by (simp add: store_frame_def)
  next
    case (Ext q)
    then show ?thesis using assms(1,2) by (auto simp: store_frame_def split: if_splits)
  next
    case (Inner fs limit)
    have nf: "\<not> inner_isFull limit fs" using assms(1) Inner by (auto simp: store_frame_def)
    have ok: "inner_ok (mCurTxFrame s) (Inner fs limit)" using assms(3) Inner by simp
    obtain g gs where gs: "insertFrame f fs = g # gs" using insertFrame_nonempty [of f fs] by (cases "insertFrame f fs") auto
    have srt: "inner_sorted (g # gs)" using inner_sorted_insert [of fs f] ok gs by simp
    have fit: "list_all frame_fits (g # gs)" using ok assms(2) gs [symmetric] by (auto simp: list_all_iff)
    have len: "inner_within limit (Suc (length gs))"
      using inner_within_insert [OF nf] insertFrame_props(2) [of f fs] unfolding gs by simp
    have "length gs = length fs" using insertFrame_props(2) [of f fs] unfolding gs by simp
    then have "mCurTxFrame s = None \<Longrightarrow> gs = []" using ok by auto
    then show ?thesis
      using assms(1,4) Inner nf gs srt fit len inner_sorted_tl [of g gs]
      by (auto simp: store_frame_def Let_def split: if_splits)
  qed
  then show "inner_ok (mCurTxFrame t) (mTxQueue t)" and "\<forall>g. mCurTxFrame t = Some g \<longrightarrow> frame_fits g"
    and "mCurTxFrame t \<noteq> None" by blast+
qed

lemma store_frame_inv:
  assumes "store_frame f s = Inr t" and "frame_fits f" and "mac_inv s"
  shows "inner_ok (mCurTxFrame t) (mTxQueue t)" and "\<forall>g. mCurTxFrame t = Some g \<longrightarrow> frame_fits g"
    and "mCurTxFrame t \<noteq> None" and "mTransmitState t = mTransmitState s" and "mDescr t = mDescr s"
    and "mPhysOut t = mPhysOut s" and "mEndTx t = mEndTx s" and "mEndIFG t = mEndIFG s" and "mEndPause t = mEndPause s"
  using store_frame_queue [OF assms(1,2)] assms(3)
  by (simp_all add: mac_inv_def, (subst store_frame_shape [OF assms(1)], simp)+)

definition own_src :: "('p, 'q) mac \<Rightarrow> 'p EtherFrame \<Rightarrow> 'p EtherFrame" where
  "own_src s f = (if isUnspecified (fr_src f) then f\<lparr>fr_src := mAddress s\<rparr> else f)"

text \<open>The two ways \<open>processFrameFromUpperLayer\<close> returns.\<close>

lemma processFrameFromUpperLayer_Inr:
  "processFrameFromUpperLayer ops par now f s = Inr t \<longleftrightarrow>
     fr_dest f \<noteq> mAddress s \<and> fr_byteLength (pad_frame f) \<le> MAX_ETHERNET_FRAME_BYTES
     \<and> (if mConnected s \<and> \<not> mDisabled s
        then \<exists>u. store_frame (own_src s (pad_frame f))
                   (if isPauseFrame f then s else count_in numFramesFromHL_update 1 s) = Inr u
               \<and> (if mTransmitState u = TX_IDLE_STATE then startFrameTransmission par now u else Inr u) = Inr t
        else t = requestNextFrameFromExtQueue ops (count_in numDroppedPkFromHLIfaceDown_update 1 s))"
proof -
  have p: "isPauseFrame (own_src s (pad_frame f)) = isPauseFrame f" by (simp add: own_src_def)
  show ?thesis
    unfolding processFrameFromUpperLayer_def Let_def own_src_def [symmetric] p store_frame_def [unfolded Let_def, symmetric]
    by (auto simp: bindR_Inr_iff)
qed

lemma mac_inv_upper:
  assumes "processFrameFromUpperLayer ops par now f s = Inr t" and "mac_inv s"
  shows "mac_inv t"
proof (cases "mConnected s \<and> \<not> mDisabled s")
  case False
  then show ?thesis
    using assms request_keeps_inv [of "count_in numDroppedPkFromHLIfaceDown_update 1 s" ops]
    by (auto simp: processFrameFromUpperLayer_Inr)
next
  case True
  define s1 where "s1 = (if isPauseFrame f then s else count_in numFramesFromHL_update 1 s)"
  obtain u where u: "store_frame (own_src s (pad_frame f)) s1 = Inr u"
    and r: "(if mTransmitState u = TX_IDLE_STATE then startFrameTransmission par now u else Inr u) = Inr t"
    and len: "fr_byteLength (pad_frame f) \<le> MAX_ETHERNET_FRAME_BYTES"
    using assms(1) True by (auto simp: processFrameFromUpperLayer_Inr s1_def)
  have i: "mac_inv s1" using assms(2) by (simp add: s1_def)
  have fit: "frame_fits (own_src s (pad_frame f))" using pad_frame_fits [OF len] by (simp add: own_src_def)
  note st = store_frame_inv [OF u fit i]
  show ?thesis
  proof (cases "mTransmitState u = TX_IDLE_STATE")
    case True
    then have "startFrameTransmission par now u = Inr t" using r by simp
    then show ?thesis
      by (rule mac_inv_startFrameTransmission) (use st i True in \<open>auto simp: mac_inv_def tx_inv_def descr_inv_def\<close>)
  next
    case False
    then have "t = u" using r by simp
    moreover have "tx_inv u"
      using st(3-9) i False by (cases "mTransmitState s1") (auto simp: mac_inv_def tx_inv_def)
    ultimately show ?thesis using st i by (simp add: mac_inv_def descr_inv_def)
  qed
qed

lemma mac_inv_pause:
  assumes "processPauseCommand par now n s = Inr t" and "mac_inv s"
  shows "mac_inv t"
proof (cases "mTransmitState s = TX_IDLE_STATE \<or> mTransmitState s = PAUSE_STATE")
  case True
  define u where "u = (if mTransmitState s = PAUSE_STATE then s\<lparr>mEndPause := cancelEvent (mEndPause s)\<rparr> else s)"
  have u: "mac_inv u" "\<not> armed (mEndTx u)" "\<not> armed (mEndIFG u)"
    using assms(2) True by (auto simp: u_def mac_inv_def tx_inv_def descr_inv_def)
  have "(if n > 0 then scheduleEndPausePeriod par now n u else Inr u) = Inr t"
    using assms(1) True by (auto simp: processPauseCommand_def u_def split: if_splits)
  then show ?thesis
    using u mac_inv_schedule(2) [of par now n u t] by (auto simp: mac_inv_def split: if_splits)
next
  case False
  then have "t = s\<lparr>mPauseUnitsRequested := n\<rparr>" using assms(1) by (simp add: processPauseCommand_def)
  then show ?thesis using assms(2) by simp
qed

lemma dropFrame_inv [simp]:
  "mac_inv (snd (dropFrameNotForUs f s)) = mac_inv s"
  by (simp add: dropFrameNotForUs_def)

lemma mac_inv_network:
  assumes "processMsgFromNetwork par now msg d s = Inr t" and "mac_inv s"
  shows "mac_inv t"
proof -
  have "mac_inv s2" if "dropFrameNotForUs f s1 = (b, s2)" "mac_inv s1" for f s1 b s2
    using that dropFrame_inv [of f s1] by simp
  then show ?thesis
    using assms mac_inv_pause
    by (fastforce simp: processMsgFromNetwork_def processReceivedDataFrame_def Let_def
        split: if_splits EtherTraffic.splits prod.splits option.splits)
qed

lemma mac_inv_self:
  assumes "handleSelfMessage ops par now m s = Inr t" and "mac_inv s"
    and "m = EndTx \<Longrightarrow> armed (mEndTx s)" and "m = EndIFG \<Longrightarrow> armed (mEndIFG s)"
    and "m = EndPause \<Longrightarrow> armed (mEndPause s)"
  shows "mac_inv t"
proof -
  have i: "inner_ok (mCurTxFrame s) (mTxQueue s)" "descr_inv s" "\<forall>f. mCurTxFrame s = Some f \<longrightarrow> frame_fits f"
      "list_all wire_fits (mPhysOut s)" and tx: "tx_inv s"
    using assms(2) by (simp_all add: mac_inv_def)
  show ?thesis
  proof (cases m)
    case EndTx
    then show ?thesis
      using assms(1-3) mac_inv_endTx [of ops par now "s\<lparr>mEndTx := cancelEvent (mEndTx s)\<rparr>" t "mEndTx s"]
      by (simp add: handleSelfMessage_def cancelEvent_def)
  next
    case EndIFG
    then have "mTransmitState s = WAIT_IFG_STATE"
        and "beginSendFrames par now (s\<lparr>mEndIFG := cancelEvent (mEndIFG s)\<rparr>) = Inr t"
      using assms(1) by (auto simp: handleSelfMessage_def handleEndIFGPeriod_def split: if_splits)
    from this(2) show ?thesis
      by (rule mac_inv_beginSendFrames)
        (use i tx \<open>mTransmitState s = WAIT_IFG_STATE\<close> in \<open>simp_all add: tx_inv_def descr_inv_def cancelEvent_def\<close>)
  next
    case EndPause
    then have "mTransmitState s = PAUSE_STATE"
        and "beginSendFrames par now (s\<lparr>mEndPause := cancelEvent (mEndPause s)\<rparr>) = Inr t"
      using assms(1) by (auto simp: handleSelfMessage_def handleEndPausePeriod_def split: if_splits)
    from this(2) show ?thesis
      by (rule mac_inv_beginSendFrames)
        (use i tx \<open>mTransmitState s = PAUSE_STATE\<close> in \<open>simp_all add: tx_inv_def descr_inv_def cancelEvent_def\<close>)
  qed (use assms(1) in \<open>simp_all add: handleSelfMessage_def\<close>)
qed

section \<open>Connection, life cycle, initialization\<close>

lemma etherDescrs_set: "list_all (\<lambda>d. frameMinBytes d = 64 \<and> 0 < txrate d) etherDescrs"
  by (simp only: etherDescrs_def list.pred_inject ether_descr.select_convs MIN_ETHERNET_FRAME_BYTES_def rate_defs) simp

lemma etherDescrs_min:
  assumes "find (\<lambda>d. r = txrate d) etherDescrs = Some d"
  shows "frameMinBytes d = 64 \<and> txrate d = r \<and> 0 < r"
proof -
  have "d \<in> set etherDescrs" and "r = txrate d"
    using assms by (auto simp: find_Some_iff)
  then show ?thesis using etherDescrs_set by (simp add: list_all_iff)
qed

lemma adopt_channel_Inr:
  assumes "adopt_channel ph conn diff s = Inr t" and "conn \<Longrightarrow> outTrChannel ph \<noteq> None"
  shows "t = s\<lparr>mConnected := mConnected t, mChannelsDiffer := mChannelsDiffer t, mChannel := mChannel t,
      mDescr := mDescr t, mIfEntry := mIfEntry t\<rparr> \<and> frameMinBytes (mDescr t) \<le> 64
      \<and> (mConnected t \<longrightarrow> 0 < txrate (mDescr t) \<and> mChannel t \<noteq> None)"
proof (cases conn)
  case True
  define r where "r = channel_rate (outTrChannel ph)"
  obtain d where "find (\<lambda>d. r = txrate d) etherDescrs = Some d"
    and "t = s\<lparr>mConnected := True, mChannelsDiffer := diff, mChannel := outTrChannel ph, mDescr := d,
              mIfEntry := map_option (\<lambda>_. (True, r)) (mIfEntry s)\<rparr>"
    using assms(1) True by (auto simp: adopt_channel_def r_def Let_def split: option.splits)
  then show ?thesis using etherDescrs_min [of r d] assms(2) True by simp
next
  case False
  then show ?thesis using assms(1) by (auto simp: adopt_channel_def nullEtherDescr_def Let_def)
qed

lemma readChannelParameters_Inr:
  assumes "readChannelParameters e ph s = Inr t"
  shows "t = s\<lparr>mConnected := mConnected t, mChannelsDiffer := mChannelsDiffer t, mChannel := mChannel t,
      mDescr := mDescr t, mIfEntry := mIfEntry t\<rparr>"
    and "frameMinBytes (mDescr t) \<le> 64"
    and "mConnected t \<Longrightarrow> 0 < txrate (mDescr t) \<and> mChannel t \<noteq> None"
proof -
  obtain conn diff where "adopt_channel ph conn diff s = Inr t" and "conn \<Longrightarrow> outTrChannel ph \<noteq> None"
    using assms by (auto simp: readChannelParameters_def Let_def split: if_splits)
  note a = adopt_channel_Inr [OF this]
  show "t = s\<lparr>mConnected := mConnected t, mChannelsDiffer := mChannelsDiffer t, mChannel := mChannel t,
      mDescr := mDescr t, mIfEntry := mIfEntry t\<rparr>"
    and "frameMinBytes (mDescr t) \<le> 64"
    and "mConnected t \<Longrightarrow> 0 < txrate (mDescr t) \<and> mChannel t \<noteq> None"
    using a by blast+
qed

lemma readChannelParameters_frame:
  assumes "readChannelParameters e ph s = Inr t"
  shows "mTransmitState t = mTransmitState s" "mCurTxFrame t = mCurTxFrame s" "mTxQueue t = mTxQueue s"
    "mEndTx t = mEndTx s" "mEndIFG t = mEndIFG s" "mEndPause t = mEndPause s" "mPhysOut t = mPhysOut s"
    "mAddress t = mAddress s" "mDisabled t = mDisabled s" "mUpperOut t = mUpperOut s"
    "mOperational t = mOperational s" "mPauseUnitsRequested t = mPauseUnitsRequested s"
    "mReceiveState t = mReceiveState s" "mStats t = mStats s"
  by (subst readChannelParameters_Inr(1) [OF assms], simp)+

lemma mac_inv_readChannel:
  assumes "readChannelParameters e ph s = Inr t" and "mac_inv s"
  shows "mac_inv t"
  using assms(2) readChannelParameters_Inr(2) [OF assms(1)]
  by (simp add: mac_inv_defs readChannelParameters_frame [OF assms(1)])

lemma mac_inv_handleMessage:
  assumes "mac_handleMessage ops par ph now m s = Inr t" and "mac_inv s"
    and "m = EndTx \<Longrightarrow> armed (mEndTx s)" and "m = EndIFG \<Longrightarrow> armed (mEndIFG s)"
    and "m = EndPause \<Longrightarrow> armed (mEndPause s)"
  shows "mac_inv t"
proof (cases "mOperational s")
  case False
  then show ?thesis
    using assms(1,2) by (auto simp: mac_handleMessage_def handleMessageWhenDown_def split: mac_msg.splits)
next
  case True
  then obtain s1 where s1: "(if mChannelsDiffer s then readChannelParameters True ph s else Inr s) = Inr s1"
    and r: "(case m of FromUpperLayer frame \<Rightarrow> processFrameFromUpperLayer ops par now frame s1
        | FromNetwork msg duration \<Rightarrow> processMsgFromNetwork par now msg duration s1
        | _ \<Rightarrow> handleSelfMessage ops par now m s1) = Inr t"
    using assms(1) by (auto simp: mac_handleMessage_def bindR_Inr_iff)
  have i: "mac_inv s1" using s1 assms(2) mac_inv_readChannel by (auto split: if_splits)
  have a: "mEndTx s1 = mEndTx s" "mEndIFG s1 = mEndIFG s" "mEndPause s1 = mEndPause s"
    using s1 readChannelParameters_frame(4-6) [of True ph s s1] by (auto split: if_splits)
  show ?thesis
    using r i a assms(3-5) mac_inv_self [of ops par now m s1 t]
    by (auto split: mac_msg.splits intro: mac_inv_upper mac_inv_network)
qed

lemma drop_inner_eq:
  "drop_inner fs limit s =
     s\<lparr>mTxQueue := Inner [] limit, mStats := numDroppedPkFromHLIfaceDown_update (\<lambda>i. i + int (length fs)) (mStats s)\<rparr>"
  by (induction fs limit s rule: drop_inner.induct) (auto simp: algebra_simps)

lemma mac_inv_disconnect:
  assumes "processConnectDisconnect ops s = Inr t" and "mac_inv s"
  shows "mac_inv t"
  using assms
  by (auto simp: processConnectDisconnect_def Let_def drop_inner_eq cancelEvent_def inner_sorted_def mac_inv_defs
      split: if_splits MacQueue.splits)

lemma mac_inv_refresh:
  fixes s t :: "('p, 'q) mac"
  assumes "refreshConnection ops ph s = Inr t" and "mac_inv s"
  shows "mac_inv t"
proof -
  obtain u where u: "readChannelParameters False ph s = Inr u"
    and t: "(if mConnected s \<noteq> mConnected u then processConnectDisconnect ops u else Inr u) = Inr t"
    using assms(1) by (auto simp: refreshConnection_def bindR_Inr_iff)
  show ?thesis
    using t mac_inv_readChannel [OF u assms(2)] mac_inv_disconnect [of ops u t] by (auto split: if_splits)
qed

lemma mac_inv_signal:
  assumes "receiveSignal ops ph sig s = Inr t" and "mac_inv s"
  shows "mac_inv t"
  using assms mac_inv_refresh [of ops ph s t]
  by (cases sig) (auto simp: receiveSignal_def split: if_splits)

lemma flush_clear_inv:
  "flushQueue ops s = Some (Inr t) \<Longrightarrow> mac_inv s \<Longrightarrow> mac_inv t"
  "clearQueue ops s = Some (Inr t) \<Longrightarrow> mac_inv s \<Longrightarrow> mac_inv t"
  by (auto simp: flushQueue_def clearQueue_def mac_inv_defs inner_sorted_def split: MacQueue.splits)

lemma initializeQueueModule_inv: "mac_inv s \<Longrightarrow> mac_inv (initializeQueueModule ops par s)"
  by (auto simp: initializeQueueModule_def mac_inv_defs inner_sorted_def Let_def split: option.splits)

lemma initializeFlags_inv: "mac_inv (initializeFlags par ph s) = mac_inv s"
  by (simp add: initializeFlags_def mac_inv_defs)

lemma initializeMACAddress_Inr:
  assumes "initializeMACAddress ctr s = Inr (ctr', t)"
  shows "t = s\<lparr>mAddress := mAddress t, mAddressPar := mAddressPar t\<rparr>"
  using assms by (auto simp: initializeMACAddress_def bindR_Inr_iff split: if_splits prod.splits)

lemma initializeMACAddress_inv:
  assumes "initializeMACAddress ctr s = Inr (ctr', t)"
  shows "mac_inv t = mac_inv s"
  by (subst initializeMACAddress_Inr [OF assms]) (simp add: mac_inv_defs)

lemma mac_inv_macbase:
  "macbase_handleOperationStage ops op stage s = Some (Inr t) \<Longrightarrow> mac_inv s \<Longrightarrow> mac_inv t"
  using flush_clear_inv [of ops "updateOperationalFlag False s" t]
  by (cases op) (auto simp: updateOperationalFlag_def split: if_splits)

lemma mac_inv_down:
  fixes s t :: "('p, 'q) mac"
  assumes "down_or_error ops op stage s = Some (Inr t)" and "mac_inv s"
  shows "mac_inv t"
proof (cases "processConnectDisconnect ops (s\<lparr>mConnected := False\<rparr>)")
  case (Inl e)
  then show ?thesis using assms(1) by (simp add: down_or_error_def)
next
  case (Inr u)
  have "mac_inv (s\<lparr>mConnected := False\<rparr>)" using assms(2) by (simp add: mac_inv_defs)
  then have "mac_inv u" by (rule mac_inv_disconnect [OF Inr])
  moreover have "macbase_handleOperationStage ops op stage u = Some (Inr t)"
    using assms(1) Inr by (simp add: down_or_error_def)
  ultimately show ?thesis by (rule mac_inv_macbase [rotated])
qed

lemma mac_inv_lifecycle:
  fixes s t :: "('p, 'q) mac"
  assumes "mac_handleOperationStage ops par ph ctr op stage s = Some (Inr (ctr', t))" and "mac_inv s"
  shows "mac_inv t"
proof (cases "op = NodeStartOperation")
  case True
  show ?thesis
  proof (cases "stage = start_STAGE_LINK_LAYER")
    case stage: True
    obtain u where u: "initializeMACAddress ctr (initializeFlags par ph s) = Inr (ctr', u)"
      and "t = updateOperationalFlag True (initializeQueueModule ops par u)"
      using assms(1) True stage by (auto simp: bindR_Inr_iff split: sum.splits prod.splits)
    then show ?thesis
      using initializeMACAddress_inv [OF u] assms(2)
      by (simp add: updateOperationalFlag_def initializeQueueModule_inv initializeFlags_inv)
  next
    case False
    then show ?thesis using assms True by (auto simp: bindR_Inr_iff)
  qed
next
  case False
  then show ?thesis
    using assms mac_inv_macbase [of ops op stage s t] mac_inv_down [of ops op stage s t]
    by (cases op) (auto simp: bindR_Inr_iff split: if_splits)
qed

lemma base_initialize_shape:
  fixes s t :: "('p, 'q) mac"
  assumes "mac_base_initialize0 ops par ph ctr s = Inr (ctr', t)" and "mPhysOut s = []"
  shows "mCurTxFrame t = None" "\<not> armed (mEndTx t)" "\<not> armed (mEndIFG t)" "\<not> armed (mEndPause t)"
    "inner_ok None (mTxQueue t)" "frameMinBytes (mDescr t) \<le> 64" "mPhysOut t = []"
    "mTxQueue s = NoQueue \<Longrightarrow> mp_queue par = Some q0 \<Longrightarrow> mTxQueue t = Ext (request_if_none ops q0)"
    "mTransmitState t = TX_IDLE_STATE" "mReceiveState t = RX_IDLE_STATE" "mPauseUnitsRequested t = 0"
proof -
  define s0 where "s0 = initializeFlags par ph (s\<lparr>mChannel := None, mCurTxFrame := None\<rparr>)"
  obtain s1 where s1: "initializeMACAddress ctr s0 = Inr (ctr', s1)"
    and r: "readChannelParameters True ph (initializeQueueModule ops par
      (s1\<lparr>mStats := initializeStatistics, mLastTxFinishTime := - SIMTIME_SECOND,
                 mEndTx := \<lparr>tm_kind = ENDTRANSMISSION, tm_at = None\<rparr>,
                 mEndIFG := \<lparr>tm_kind = ENDIFG, tm_at = None\<rparr>,
                 mEndPause := \<lparr>tm_kind = ENDPAUSE, tm_at = None\<rparr>,
                 mTransmitState := TX_IDLE_STATE, mReceiveState := RX_IDLE_STATE,
                 mPauseUnitsRequested := 0,
                 mIfEntry := (if mp_registers par then Some (True, 0) else None)\<rparr>)) = Inr t"
    using assms(1) by (auto simp: mac_base_initialize0_def bindR_Inr_iff s0_def Let_def)
  have s1': "mCurTxFrame s1 = None" "mPhysOut s1 = []"
    using assms(2) by (subst initializeMACAddress_Inr [OF s1], simp add: s0_def initializeFlags_def)+
  note f = readChannelParameters_frame [OF r]
  show "mCurTxFrame t = None" "\<not> armed (mEndTx t)" "\<not> armed (mEndIFG t)" "\<not> armed (mEndPause t)"
    "mPhysOut t = []" "mTransmitState t = TX_IDLE_STATE" "mReceiveState t = RX_IDLE_STATE" "mPauseUnitsRequested t = 0"
    unfolding f using s1' by (simp_all add: initializeQueueModule_def Let_def split: option.split)
  show "inner_ok None (mTxQueue t)"
    unfolding f by (simp add: initializeQueueModule_def Let_def inner_sorted_def split: option.split)
  show "frameMinBytes (mDescr t) \<le> 64" by (rule readChannelParameters_Inr(2) [OF r])
  show "mTxQueue t = Ext (request_if_none ops q0)" if "mTxQueue s = NoQueue" and "mp_queue par = Some q0"
  proof -
    have "mTxQueue s1 = mTxQueue s"
      by (subst initializeMACAddress_Inr [OF s1], simp add: s0_def initializeFlags_def)
    then show ?thesis unfolding f using that by (simp add: initializeQueueModule_def)
  qed
qed

lemma mac_inv_initialize:
  assumes "mac_initialize ops par ph now ctr addr up = Inr (ctr', t)"
  shows "mac_inv t"
proof -
  obtain s u where b: "mac_base_initialize0 ops par ph ctr (mac_new addr) = Inr (ctr', s)"
    and u: "beginSendFrames par now (s\<lparr>mSubs := map resolveMultiMACAddress (mp_multiCastGroupAddr par)\<rparr>) = Inr u"
    and t: "t = updateOperationalFlag up u"
    using assms by (auto simp: mac_initialize_def bindR_Inr_iff Let_def split: if_splits)
  note sh = base_initialize_shape [OF b]
  have "mac_inv u"
    by (rule mac_inv_beginSendFrames [OF u]) (use sh in \<open>simp_all add: mac_new_def descr_inv_def\<close>)
  then show ?thesis by (simp add: t updateOperationalFlag_def)
qed

end
