(* ===== verification/EtherMACRuns.thy ===== *)
theory EtherMACRuns
  imports EtherMACFullDuplex
begin

text \<open>
  Runs of the full duplex MAC: the states it can reach, the discipline of its timers, what it accepts
  from the network, and PAUSE. The properties of the MAC on its own are at the end.
\<close>

text \<open>A self message is delivered at the time it is scheduled for.\<close>

fun due :: "simtime \<Rightarrow> 'p mac_msg \<Rightarrow> ('p, 'q) mac \<Rightarrow> bool" where
  "due now EndTx s \<longleftrightarrow> tm_at (mEndTx s) = Some now"
| "due now EndIFG s \<longleftrightarrow> tm_at (mEndIFG s) = Some now"
| "due now EndPause s \<longleftrightarrow> tm_at (mEndPause s) = Some now"
| "due now _ s \<longleftrightarrow> True"

text \<open>
  The states a MAC can reach: messages in any order their times allow, changes of the connection, life
  cycle operations at any stage, arbitrary changes of the external queue, loss of the interface entry.
\<close>

inductive mac_reach :: "('q, 'p EtherFrame) iqueue \<Rightarrow> 'q mac_par \<Rightarrow> ('p, 'q) mac \<Rightarrow> bool" for ops par where
  start: "mac_initialize ops par ph now ctr addr up = Inr (ctr', s) \<Longrightarrow> mac_reach ops par s"
| message: "mac_reach ops par s \<Longrightarrow> due now m s \<Longrightarrow> mac_handleMessage ops par ph now m s = Inr t \<Longrightarrow> mac_reach ops par t"
| connection: "mac_reach ops par s \<Longrightarrow> receiveSignal ops ph sig s = Inr t \<Longrightarrow> mac_reach ops par t"
| operation: "mac_reach ops par s \<Longrightarrow>
    mac_handleOperationStage ops par ph ctr oper stage s = Some (Inr (ctr', t)) \<Longrightarrow> mac_reach ops par t"
| queue: "mac_reach ops par s \<Longrightarrow> mTxQueue s = Ext q \<Longrightarrow> mac_reach ops par (s\<lparr>mTxQueue := Ext q'\<rparr>)"
| entry: "mac_reach ops par s \<Longrightarrow> mac_reach ops par (receiveChangeNotification deleted ours s)"

lemma mac_reach_inv: "mac_reach ops par s \<Longrightarrow> mac_inv s"
proof (induction rule: mac_reach.induct)
  case (message s now m ph t)
  then show ?case
    by (intro mac_inv_handleMessage [of ops par ph now m s t]) auto
next
  case (queue s q q')
  then show ?case by (simp add: mac_inv_defs)
qed (auto simp: receiveChangeNotification_def intro: mac_inv_initialize mac_inv_signal mac_inv_lifecycle)

text \<open>Runs of messages alone.\<close>

inductive mac_run ::
    "('q, 'p EtherFrame) iqueue \<Rightarrow> 'q mac_par \<Rightarrow> ('p, 'q) mac \<Rightarrow> (phys \<times> simtime \<times> 'p mac_msg) list
     \<Rightarrow> ('p, 'q) mac \<Rightarrow> bool" for ops par where
  mac_run_Nil: "mac_run ops par s [] s"
| mac_run_Cons: "due now m s \<Longrightarrow> mac_handleMessage ops par ph now m s = Inr u \<Longrightarrow> mac_run ops par u es t
    \<Longrightarrow> mac_run ops par s ((ph, now, m) # es) t"

inductive_simps mac_run_simps [simp]: "mac_run ops par s [] t" "mac_run ops par s (e # es) t"

section \<open>The timer handlers return\<close>

text \<open>What the kernel promises: durations are not negative.\<close>

definition durations_ok :: "'q mac_par \<Rightarrow> bool" where
  "durations_ok par \<longleftrightarrow> (\<forall>r. 0 \<le> r \<longrightarrow> 0 \<le> mp_simtime par r) \<and> (\<forall>r n. 0 \<le> r \<longrightarrow> 0 \<le> n \<longrightarrow> 0 \<le> mp_txDuration par r n)"

lemma durations_okD [simp]:
  "durations_ok par \<Longrightarrow> 0 \<le> r \<Longrightarrow> \<not> mp_simtime par r < 0"
  "durations_ok par \<Longrightarrow> 0 \<le> r \<Longrightarrow> 0 \<le> n \<Longrightarrow> \<not> mp_txDuration par r n < 0"
  by (auto simp: durations_ok_def not_less)

lemma scheduleEndIFGPeriod_returns:
  assumes "durations_ok par" and "0 < txrate (mDescr s)" and "\<not> armed (mEndIFG s)"
  shows "\<exists>w. scheduleEndIFGPeriod par now s = Inr (s\<lparr>mTransmitState := WAIT_IFG_STATE, mEndIFG := w\<rparr>)"
  using assms by (auto simp: scheduleEndIFGPeriod_def scheduleAt_def INTERFRAME_GAP_BITS_def Let_def)

lemma scheduleEndPausePeriod_returns:
  assumes "durations_ok par" and "0 < txrate (mDescr s)" and "\<not> armed (mEndPause s)"
    and "0 < n" and "n * 512 < 2 ^ 31"
  shows "\<exists>w. scheduleEndPausePeriod par now n s = Inr (s\<lparr>mEndPause := w, mTransmitState := PAUSE_STATE\<rparr>)"
  using assms by (auto simp: scheduleEndPausePeriod_def scheduleAt_def PAUSE_UNIT_BITS_def Let_def)

lemma startFrameTransmission_returns:
  assumes "durations_ok par" and "mCurTxFrame s = Some f" and "frame_fits f" and "mChannel s = Some ch" and "0 \<le> ch_datarate ch"
    and "\<not> armed (mEndTx s)" and "descr_inv s"
  shows "\<exists>w. startFrameTransmission par now s =
      Inr (s\<lparr>mPhysOut := mPhysOut s @ [wire_frame s f], mEndTx := w, mTransmitState := TRANSMITTING_STATE\<rparr>)"
proof -
  have "0 \<le> fr_byteLength (wire_frame s f)"
    using wire_frame_fits [OF assms(3,7)] by (simp add: wire_fits_def)
  then show ?thesis using assms by (auto simp: startFrameTransmission_def scheduleAt_def Let_def)
qed

lemma beginSendFrames_returns:
  assumes "durations_ok par" and "\<forall>f. mCurTxFrame s = Some f \<longrightarrow> frame_fits f" and "mChannel s = Some ch"
    and "0 \<le> ch_datarate ch"
    and "\<not> armed (mEndTx s)" and "descr_inv s"
  shows "\<exists>t. beginSendFrames par now s = Inr t
      \<and> (case mCurTxFrame s of
           None \<Rightarrow> mTransmitState t = TX_IDLE_STATE \<and> mPhysOut t = mPhysOut s
         | Some f \<Rightarrow> mTransmitState t = TRANSMITTING_STATE \<and> mPhysOut t = mPhysOut s @ [wire_frame s f])"
proof (cases "mCurTxFrame s")
  case (Some f)
  obtain w where "startFrameTransmission par now s =
      Inr (s\<lparr>mPhysOut := mPhysOut s @ [wire_frame s f], mEndTx := w, mTransmitState := TRANSMITTING_STATE\<rparr>)"
    using startFrameTransmission_returns [OF assms(1) Some] assms Some by blast
  then show ?thesis using Some by (simp add: beginSendFrames_def)
qed (simp add: beginSendFrames_def)

lemma getNextFrameFromQueue_returns:
  "inner_ok cur (mTxQueue s) \<Longrightarrow> \<exists>t. getNextFrameFromQueue ops s = Inr t"
  by (cases "(cur, mTxQueue s)" rule: inner_ok.cases)
    (auto simp: getNextFrameFromQueue_def split: list.split)

lemma handleEndTxPeriod_returns:
  assumes "durations_ok par" and "0 < txrate (mDescr s)" and "\<not> armed (mEndIFG s)" and "\<not> armed (mEndPause s)"
    and "mTransmitState s = TRANSMITTING_STATE" and "mCurTxFrame s = Some f" and "inner_ok (Some f) (mTxQueue s)"
    and "mPauseUnitsRequested s * 512 < 2 ^ 31"
  shows "\<exists>t. handleEndTxPeriod ops par now s = Inr t \<and> mPhysOut t = mPhysOut s
      \<and> mTransmitState t = (if mPauseUnitsRequested s > 0 then PAUSE_STATE else WAIT_IFG_STATE)"
proof -
  define s1 where "s1 = (count_sent f s)\<lparr>mCurTxFrame := None, mLastTxFinishTime := now\<rparr>"
  obtain s2 where g: "getNextFrameFromQueue ops s1 = Inr s2"
    using getNextFrameFromQueue_returns [of "Some f" s1 ops] assms(7) by (auto simp: s1_def)
  have "mCurTxFrame s1 = None" and "inner_ok (Some f) (mTxQueue s1)" using assms(7) by (simp_all add: s1_def)
  note s2 = getNextFrameFromQueue_inv [OF g this]
  have s2': "0 < txrate (mDescr s2)" "\<not> armed (mEndIFG s2)" "\<not> armed (mEndPause s2)"
      "mPauseUnitsRequested s2 = mPauseUnitsRequested s" "mPhysOut s2 = mPhysOut s"
    using s2 assms(2-4) by (simp_all add: s1_def)
  show ?thesis
    using scheduleEndIFGPeriod_returns [of par s2 now] scheduleEndPausePeriod_returns [of par s2 "mPauseUnitsRequested s2" now]
      s2' assms(1,5,6,8) g
    by (auto simp: handleEndTxPeriod_def Let_def s1_def [symmetric])
qed

section \<open>Reception\<close>

definition accepts :: "('p, 'q) mac \<Rightarrow> 'p EtherFrame \<Rightarrow> bool" where
  "accepts s f \<longleftrightarrow> mPromiscuous s \<or> isBroadcast (fr_dest f)
     \<or> (if isMulticast (fr_dest f) then fr_dest f \<in> set (mSubs s) else fr_dest f = mAddress s)"

lemma not_multicast_0 [simp]: "\<not> isMulticast 0" "\<not> isBroadcast 0"
  by (simp_all add: isMulticast_bit isBroadcast_def BROADCAST_ADDRESS_def MAC_ADDRESS_MASK_def)

lemma subscribed_iff: "subscribed a as \<longleftrightarrow> a \<noteq> 0 \<and> a \<in> set as"
  by (induction a as rule: subscribed.induct) auto

lemma pause_time_None: "pause_time f = None \<longleftrightarrow> \<not> isPauseFrame f"
  by (cases "fr_class f") (simp_all add: pause_time.simps)

lemma processMsgFromNetwork_data:
  assumes "mConnected s" and "\<not> mDisabled s" and "\<not> fr_bitError f" and "\<not> isPauseFrame f"
  shows "\<exists>t. processMsgFromNetwork par now (EtherFrameMsg f) d s = Inr t
    \<and> (if accepts s f
         then mUpperOut t = mUpperOut s @ [f\<lparr>fr_byteLength := fr_byteLength f - 8\<rparr>]
           \<and> mStats t = (mStats s)\<lparr>numFramesReceivedOK := numFramesReceivedOK (mStats s) + 1,
               numBytesReceivedOK := numBytesReceivedOK (mStats s) + (fr_byteLength f - 8),
               numFramesPassedToHL := numFramesPassedToHL (mStats s) + 1\<rparr>
         else mUpperOut t = mUpperOut s
           \<and> mStats t = (mStats s)\<lparr>numDroppedNotForUs := numDroppedNotForUs (mStats s) + 1\<rparr>)"
  using assms pause_time_None [of f]
  by (auto simp: processMsgFromNetwork_def dropFrameNotForUs_def Let_def subscribed_iff
      processReceivedDataFrame_def accepts_def PREAMBLE_BYTES_def SFD_BYTES_def)

section \<open>PAUSE\<close>

text \<open>A message that could end the state: a PAUSE of a positive duration.\<close>

fun resumes :: "'p mac_msg \<Rightarrow> bool" where
  "resumes (FromNetwork (EtherFrameMsg f) d) \<longleftrightarrow> (case pause_time f of Some n \<Rightarrow> 0 < n | None \<Rightarrow> False)"
| "resumes _ \<longleftrightarrow> False"

definition stalled :: "('p, 'q) mac \<Rightarrow> bool" where
  "stalled s \<longleftrightarrow> mTransmitState s = PAUSE_STATE \<and> \<not> armed (mEndTx s) \<and> \<not> armed (mEndIFG s) \<and> \<not> armed (mEndPause s)"

lemma store_frame_kept:
  assumes "store_frame f s = Inr t"
  shows "mTransmitState t = mTransmitState s \<and> mPhysOut t = mPhysOut s \<and> mEndTx t = mEndTx s
    \<and> mEndIFG t = mEndIFG s \<and> mEndPause t = mEndPause s \<and> mOperational t = mOperational s
    \<and> mChannelsDiffer t = mChannelsDiffer s"
  using assms by (auto simp: store_frame_def Let_def split: MacQueue.splits if_splits)

lemma stalled_upper:
  assumes "processFrameFromUpperLayer ops par now f s = Inr t" and "stalled s"
  shows "stalled t \<and> mPhysOut t = mPhysOut s \<and> mOperational t = mOperational s \<and> mChannelsDiffer t = mChannelsDiffer s"
proof (cases "mConnected s \<and> \<not> mDisabled s")
  case True
  define s1 where "s1 = (if isPauseFrame f then s else count_in numFramesFromHL_update 1 s)"
  obtain u where u: "store_frame (own_src s (pad_frame f)) s1 = Inr u"
    and r: "(if mTransmitState u = TX_IDLE_STATE then startFrameTransmission par now u else Inr u) = Inr t"
    using assms(1) True by (auto simp: processFrameFromUpperLayer_Inr s1_def)
  have "mTransmitState u = PAUSE_STATE"
    using store_frame_kept [OF u] assms(2) by (simp add: s1_def stalled_def)
  then show ?thesis using r store_frame_kept [OF u] assms(2) by (simp add: s1_def stalled_def)
next
  case False
  then show ?thesis
    using assms by (auto simp: processFrameFromUpperLayer_Inr requestNextFrameFromExtQueue_def stalled_def
        split: MacQueue.splits)
qed

lemma stalled_pause:
  assumes "processPauseCommand par now n s = Inr t" and "stalled s" and "n \<le> 0"
  shows "stalled t \<and> mPhysOut t = mPhysOut s \<and> mOperational t = mOperational s \<and> mChannelsDiffer t = mChannelsDiffer s"
  using assms by (auto simp: processPauseCommand_def stalled_def cancelEvent_def Let_def)

text \<open>What a message from the network can do to the transmitter.\<close>

definition same_sender :: "('p, 'q) mac \<Rightarrow> ('p, 'q) mac \<Rightarrow> bool" where
  "same_sender s t \<longleftrightarrow> mTransmitState t = mTransmitState s \<and> mPhysOut t = mPhysOut s \<and> mEndTx t = mEndTx s
     \<and> mEndIFG t = mEndIFG s \<and> mEndPause t = mEndPause s \<and> mOperational t = mOperational s
     \<and> mChannelsDiffer t = mChannelsDiffer s \<and> mTxQueue t = mTxQueue s \<and> mCurTxFrame t = mCurTxFrame s
     \<and> mAddress t = mAddress s \<and> mDescr t = mDescr s \<and> mConnected t = mConnected s \<and> mDisabled t = mDisabled s"

lemma same_sender_simps [simp]:
  "same_sender s s" "same_sender s (t\<lparr>mStats := n\<rparr>) = same_sender s t"
  "same_sender s (t\<lparr>mTotalRxTime := d\<rparr>) = same_sender s t" "same_sender s (t\<lparr>mUpperOut := l\<rparr>) = same_sender s t"
  by (simp_all add: same_sender_def)

lemma same_sender_received [simp]:
  "same_sender s (processReceivedDataFrame f t) = same_sender s t"
  "same_sender s (snd (dropFrameNotForUs f t)) = same_sender s t"
  by (simp_all add: processReceivedDataFrame_def dropFrameNotForUs_def Let_def)

lemma network_same_sender:
  assumes "processMsgFromNetwork par now (EtherFrameMsg f) d s = Inr t"
  shows "same_sender s t \<or> (\<exists>n u. pause_time f = Some n \<and> same_sender s u \<and> processPauseCommand par now n u = Inr t)"
proof -
  define s1 where "s1 = s\<lparr>mTotalRxTime := mTotalRxTime s + d\<rparr>"
  obtain b s2 where d: "dropFrameNotForUs f s1 = (b, s2)" by fastforce
  have "s2 = snd (dropFrameNotForUs f s1)" by (simp add: d)
  then have s2: "same_sender s s2" by (simp add: s1_def)
  show ?thesis
  proof (cases "mConnected s \<and> \<not> mDisabled s \<and> \<not> fr_bitError f \<and> \<not> b")
    case False
    then show ?thesis
      using assms d s2 by (auto simp: processMsgFromNetwork_def s1_def [symmetric] split: if_splits) (simp_all add: s1_def)
  next
    case True
    then show ?thesis
    proof (cases "pause_time f")
      case None
      then show ?thesis
        using assms d s2 True
        by (auto simp: processMsgFromNetwork_def s1_def [symmetric] split: if_splits)
    next
      case (Some n)
      then have "processPauseCommand par now n (count_in numPauseFramesRcvd_update 1 s2) = Inr t"
        using assms d True by (simp add: processMsgFromNetwork_def s1_def [symmetric])
      moreover have "same_sender s (count_in numPauseFramesRcvd_update 1 s2)" using s2 by simp
      ultimately show ?thesis using Some by blast
    qed
  qed
qed

lemma same_sender_stalled:
  "same_sender s t \<Longrightarrow> stalled s \<Longrightarrow> stalled t \<and> mPhysOut t = mPhysOut s \<and> mOperational t = mOperational s
    \<and> mChannelsDiffer t = mChannelsDiffer s"
  by (simp add: same_sender_def stalled_def)

lemma stalled_network:
  assumes "processMsgFromNetwork par now msg d s = Inr t" and "stalled s" and "\<not> resumes (FromNetwork msg d)"
  shows "stalled t \<and> mPhysOut t = mPhysOut s \<and> mOperational t = mOperational s \<and> mChannelsDiffer t = mChannelsDiffer s"
proof (cases msg)
  case (EtherFrameMsg f)
  consider "same_sender s t"
    | n u where "pause_time f = Some n" "same_sender s u" "processPauseCommand par now n u = Inr t"
    using network_same_sender [of par now f d s t] assms(1) EtherFrameMsg by auto
  then show ?thesis
  proof cases
    case 1
    then show ?thesis using same_sender_stalled assms(2) by blast
  next
    case 2
    then have "n \<le> 0" using assms(3) EtherFrameMsg by simp
    then show ?thesis
      using stalled_pause [OF 2(3)] same_sender_stalled [OF 2(2) assms(2)] by simp
  qed
qed (use assms in \<open>auto simp: processMsgFromNetwork_def split: if_splits\<close>)

lemma stalled_step:
  assumes "mac_handleMessage ops par ph now m s = Inr t" and "stalled s" and "due now m s" and "\<not> resumes m"
    and "\<not> mChannelsDiffer s" and "mOperational s"
  shows "stalled t \<and> mPhysOut t = mPhysOut s \<and> mOperational t = mOperational s \<and> mChannelsDiffer t = mChannelsDiffer s"
proof (cases m)
  case (FromUpperLayer f)
  then show ?thesis using assms stalled_upper [of ops par now f s t] by (simp add: mac_handleMessage_def)
next
  case (FromNetwork msg d)
  then show ?thesis using assms stalled_network [of par now msg d s t] by (simp add: mac_handleMessage_def)
qed (use assms in \<open>simp_all add: stalled_def\<close>)

lemma stalled_run:
  assumes "mac_run ops par s es t" and "stalled s" and "\<not> mChannelsDiffer s" and "mOperational s"
    and "list_all (\<lambda>(ph, now, m). \<not> resumes m) es"
  shows "stalled t \<and> mPhysOut t = mPhysOut s"
  using assms
proof (induction rule: mac_run.induct)
  case (mac_run_Cons now m s ph u es t)
  then show ?case using stalled_step [of ops par ph now m s u] by simp
qed simp

section \<open>An example\<close>

text \<open>The functions of a drop tail queue as an external queue.\<close>

definition dtq_ops :: "(('m droptail, 'm) pqueue, 'm) iqueue" where
  "dtq_ops =
     \<lparr>iq_getNumPendingRequests = packetRequested, iq_requestPacket = pq_requestPacket dt_dequeue,
      iq_isEmpty = dtq_isEmpty, iq_pop = pq_pop dt_dequeue, iq_clear = pq_clear dt_dequeue\<rparr>"

definition w_par :: "'q option \<Rightarrow> 'q mac_par" where
  "w_par q = \<lparr>mp_promiscuous = False, mp_queue = q, mp_txQueueLimit = 4, mp_duplexMode = True,
     mp_multiCastGroupAddr = ''01-0C-CD-01-00-01'' # replicate 7 '''', mp_registers = True,
     mp_simtime = (\<lambda>r. \<lfloor>r * 1000000000000\<rfloor>), mp_txDuration = (\<lambda>r n. \<lfloor>real_of_int (8 * n) / r * 1000000000000\<rfloor>)\<rparr>"

definition w_phys :: phys where
  "w_phys = \<lparr>outTrChannel = Some \<lparr>ch_datarate = 100000000, ch_disabled = False\<rparr>,
     inTrChannel = Some \<lparr>ch_datarate = 100000000, ch_disabled = False\<rparr>, outPathConnected = True, inPathConnected = True\<rparr>"



type_synonym w_mac = "(unit, (unit EtherFrame droptail, unit EtherFrame) pqueue) mac"

definition w0 :: w_mac where
  "w0 = (mac_new (mac_str 11725260718086))\<lparr>mDescr := etherDescrs ! 1, mAddress := 11725260718086, mConnected := True,
     mDuplexMode := True, mTxQueue := Inner [] 4, mChannel := outTrChannel w_phys, mIfEntry := Some (True, 100000000),
     mOperational := True, mSubs := 1154490630145 # replicate 7 0\<rparr>"

lemma w_subs: "map resolveMultiMACAddress (mp_multiCastGroupAddr (w_par q)) = 1154490630145 # replicate 7 0"
  unfolding w_par_def by code_simp

lemma w_auto: "generateAutoAddress 5 = (6, 11725260718086)" by code_simp

lemma w_find: "find (\<lambda>d. 100000000 = txrate d) etherDescrs = Some (etherDescrs ! 1)" "find (\<lambda>d. txrate d = 100000000) etherDescrs = Some (etherDescrs ! 1)"
  by (simp_all only: etherDescrs_def find.simps ether_descr.select_convs rate_defs) (simp_all add: rate_defs)

lemma w_par_simps [simp]:
  "mp_promiscuous (w_par q) = False" "mp_queue (w_par q) = q" "mp_txQueueLimit (w_par q) = 4"
  "mp_duplexMode (w_par q)" "length (mp_multiCastGroupAddr (w_par q)) = 8" "mp_registers (w_par q)"
  "mp_simtime (w_par q) r = \<lfloor>r * 1000000000000\<rfloor>"
  "mp_txDuration (w_par q) r n = \<lfloor>real_of_int (8 * n) / r * 1000000000000\<rfloor>"
  by (simp_all add: w_par_def)

lemma w_start: "mac_initialize dtq_ops (w_par None) w_phys 0 5 ''auto'' True = Inr (6, w0)"
  by (simp add: mac_initialize_def mac_base_initialize0_def initializeMACAddress_def w_auto w_subs
     mac_new_def initializeFlags_def initializeQueueModule_def readChannelParameters_def adopt_channel_def Let_def
     w_phys_def phys_connected_def channel_off_def channel_rate_def w_find beginSendFrames_def updateOperationalFlag_def w0_def)


text \<open>Lists of messages, run while each is due.\<close>

definition w_frame :: "int \<Rightarrow> unit EtherFrame" where
  "w_frame len = new_frame 0 0x0A0000000001 (EthernetIIFrame 0x800) len"

definition w_pause :: "int \<Rightarrow> unit EtherFrame" where
  "w_pause n = new_frame 0 11725260718086 (EtherPauseFrame n) 72"

lemmas w_defs = w_frame_def w_pause_def new_frame_def pad_frame_def MIN_ETHERNET_FRAME_BYTES_def
  MAX_ETHERNET_FRAME_BYTES_def

abbreviation w_step :: "simtime \<Rightarrow> unit mac_msg \<Rightarrow> w_mac \<Rightarrow> w_mac res" where
  "w_step \<equiv> mac_handleMessage dtq_ops (w_par None) w_phys"

definition w1 :: w_mac where
  "w1 = w0\<lparr>mTransmitState := TRANSMITTING_STATE, mCurTxFrame := Some ((w_frame 100)\<lparr>fr_src := 11725260718086\<rparr>),
     mEndTx := \<lparr>tm_kind = ENDTRANSMISSION, tm_at = Some 8640000\<rparr>,
     mPhysOut := [(w_frame 108)\<lparr>fr_src := 11725260718086\<rparr>],
     mStats := initializeStatistics\<lparr>numFramesFromHL := 1\<rparr>\<rparr>"

lemmas w_eval = mac_handleMessage_def processFrameFromUpperLayer_def w0_def mac_new_def Let_def inner_isFull_def
  isUnspecified_def insertFrame_def cQueue_insert_def startFrameTransmission_def wire_frame_def w_phys_def
  PREAMBLE_BYTES_def SFD_BYTES_def scheduleAt_def initializeStatistics_def

lemma w_descr [simp]: "frameMinBytes (etherDescrs ! Suc 0) = 64" "txrate (etherDescrs ! Suc 0) = 100000000"
  by (simp_all add: etherDescrs_def rate_defs MIN_ETHERNET_FRAME_BYTES_def)

lemma w_step1: "w_step 0 (FromUpperLayer (w_frame 100)) w0 = Inr w1"
  by (simp add: w_eval w1_def w_defs)

definition w2 :: w_mac where
  "w2 = w1\<lparr>mTxQueue := Inner [(w_frame 64)\<lparr>fr_src := 11725260718086\<rparr>] 4,
     mStats := initializeStatistics\<lparr>numFramesFromHL := 2\<rparr>\<rparr>"

lemma w_step2: "w_step 1 (FromUpperLayer (w_frame 60)) w1 = Inr w2"
  by (simp add: w_eval w2_def w1_def w_defs)

definition w3 :: w_mac where
  "w3 = w2\<lparr>mPauseUnitsRequested := 3, mStats := initializeStatistics\<lparr>numFramesFromHL := 2, numPauseFramesRcvd := 1\<rparr>\<rparr>"

lemma w_step3: "w_step 2 (FromNetwork (EtherFrameMsg (w_pause 3)) 0) w2 = Inr w3"
  by (simp add: w_eval w3_def w2_def w1_def w_defs processMsgFromNetwork_def dropFrameNotForUs_def pause_time.simps processPauseCommand_def)

definition w4 :: w_mac where
  "w4 = w3\<lparr>mTransmitState := PAUSE_STATE, mEndTx := \<lparr>tm_kind = ENDTRANSMISSION, tm_at = None\<rparr>,
     mCurTxFrame := Some ((w_frame 64)\<lparr>fr_src := 11725260718086\<rparr>), mTxQueue := Inner [] 4,
     mEndPause := \<lparr>tm_kind = ENDPAUSE, tm_at = Some 24000000\<rparr>, mPauseUnitsRequested := 0, mLastTxFinishTime := 8640000,
     mStats := initializeStatistics\<lparr>numFramesFromHL := 2, numPauseFramesRcvd := 1, numFramesSent := 1, numBytesSent := 100\<rparr>\<rparr>"

lemma w_step4: "w_step 8640000 EndTx w3 = Inr w4"
  by (simp add: w_eval w4_def w3_def w2_def w1_def w_defs handleSelfMessage_def handleEndTxPeriod_def cancelEvent_def
     count_sent_def getNextFrameFromQueue_def scheduleEndPausePeriod_def PAUSE_UNIT_BITS_def)

text \<open>Further states of the example.\<close>

lemma w_durations: "durations_ok (w_par q)"
  by (simp add: durations_ok_def)

lemma mac_reach_step:
  "mac_reach dtq_ops (w_par None) s \<Longrightarrow> due now m s \<Longrightarrow> w_step now m s = Inr t \<Longrightarrow> mac_reach dtq_ops (w_par None) t"
  by (rule mac_reach.message)

lemma w_reach:
  "mac_reach dtq_ops (w_par None) w0" "mac_reach dtq_ops (w_par None) w1" "mac_reach dtq_ops (w_par None) w2"
  "mac_reach dtq_ops (w_par None) w3" "mac_reach dtq_ops (w_par None) w4"
proof -
  show 0: "mac_reach dtq_ops (w_par None) w0" by (rule mac_reach.start [OF w_start])
  show 1: "mac_reach dtq_ops (w_par None) w1" by (rule mac_reach_step [OF 0 _ w_step1]) simp
  show 2: "mac_reach dtq_ops (w_par None) w2" by (rule mac_reach_step [OF 1 _ w_step2]) simp
  show 3: "mac_reach dtq_ops (w_par None) w3" by (rule mac_reach_step [OF 2 _ w_step3]) simp
  show "mac_reach dtq_ops (w_par None) w4"
    by (rule mac_reach_step [OF 3 _ w_step4]) (simp add: w3_def w2_def w1_def)
qed

lemmas w_states = w4_def w3_def w2_def w1_def

definition w5 :: w_mac where
  "w5 = w4\<lparr>mEndPause := \<lparr>tm_kind = ENDPAUSE, tm_at = None\<rparr>,
     mStats := (mStats w4)\<lparr>numPauseFramesRcvd := 2\<rparr>\<rparr>"

lemma w_step5: "w_step 9000000 (FromNetwork (EtherFrameMsg (w_pause 0)) 0) w4 = Inr w5"
  by (simp add: w_eval w5_def w_states w_defs processMsgFromNetwork_def dropFrameNotForUs_def pause_time.simps
      processPauseCommand_def cancelEvent_def)

definition g1 :: w_mac where
  "g1 = w1\<lparr>mTransmitState := WAIT_IFG_STATE, mEndTx := \<lparr>tm_kind = ENDTRANSMISSION, tm_at = None\<rparr>,
     mCurTxFrame := None, mEndIFG := \<lparr>tm_kind = ENDIFG, tm_at = Some 9600000\<rparr>, mLastTxFinishTime := 8640000,
     mStats := (mStats w1)\<lparr>numFramesSent := 1, numBytesSent := 100\<rparr>\<rparr>"

lemma g_step1: "w_step 8640000 EndTx w1 = Inr g1"
  by (simp add: w_eval g1_def w1_def w_defs handleSelfMessage_def handleEndTxPeriod_def cancelEvent_def
     count_sent_def getNextFrameFromQueue_def scheduleEndIFGPeriod_def INTERFRAME_GAP_BITS_def)

lemma g_reach: "mac_reach dtq_ops (w_par None) g1"
  by (rule mac_reach_step [OF w_reach(2) _ g_step1]) (simp add: w1_def)

definition g2 :: w_mac where
  "g2 = g1\<lparr>mPauseUnitsRequested := 5, mStats := (mStats g1)\<lparr>numPauseFramesRcvd := 1\<rparr>\<rparr>"

lemma g_step2: "w_step 9000000 (FromNetwork (EtherFrameMsg (w_pause 5)) 0) g1 = Inr g2"
  by (simp add: w_eval g2_def g1_def w1_def w_defs processMsgFromNetwork_def dropFrameNotForUs_def pause_time.simps
      processPauseCommand_def)

definition g3 :: w_mac where
  "g3 = g2\<lparr>mTransmitState := TX_IDLE_STATE, mEndIFG := \<lparr>tm_kind = ENDIFG, tm_at = None\<rparr>\<rparr>"

lemma g_step3: "w_step 9600000 EndIFG g2 = Inr g3"
  by (simp add: w_eval g3_def g2_def g1_def w1_def w_defs handleSelfMessage_def handleEndIFGPeriod_def cancelEvent_def
      beginSendFrames_def)

section \<open>Properties\<close>

text \<open>
  C7. In every state a full duplex MAC can reach, its transmit state says exactly which timers run and
  whether a frame is current: an idle transmitter has no frame and no timer, a transmitting one has a
  frame and only \<open>endTxMsg\<close>, in the gap only \<open>endIFGMsg\<close> runs, during a pause neither of the
  two. The states of the half duplex MAC do not occur.
\<close>

theorem mac_timer_discipline:
  assumes "mac_reach ops par s"
  shows "case mTransmitState s of
      TX_IDLE_STATE \<Rightarrow> mCurTxFrame s = None \<and> tm_at (mEndTx s) = None \<and> tm_at (mEndIFG s) = None
        \<and> tm_at (mEndPause s) = None
    | TRANSMITTING_STATE \<Rightarrow> mCurTxFrame s \<noteq> None \<and> tm_at (mEndTx s) \<noteq> None \<and> tm_at (mEndIFG s) = None
        \<and> tm_at (mEndPause s) = None
    | WAIT_IFG_STATE \<Rightarrow> tm_at (mEndTx s) = None \<and> tm_at (mEndIFG s) \<noteq> None \<and> tm_at (mEndPause s) = None
    | PAUSE_STATE \<Rightarrow> tm_at (mEndTx s) = None \<and> tm_at (mEndIFG s) = None
    | _ \<Rightarrow> False"
  using mac_reach_inv [OF assms] by (cases "mTransmitState s") (auto simp: mac_inv_def tx_inv_def)

lemma mac_timer_discipline_witness:
  "mTransmitState w4 = PAUSE_STATE \<and> tm_at (mEndTx w4) = None \<and> tm_at (mEndIFG w4) = None"
  using mac_timer_discipline [OF w_reach(5)] by (simp add: w4_def)

text \<open>
  The inner queue: PAUSE frames wait before all others, frames wait only while one is current, and a
  positive limit is exceeded by at most one frame, because the queue counts as full only beyond it.
\<close>

theorem mac_inner_queue:
  assumes "mac_reach ops par s" and "mTxQueue s = Inner fs limit"
  shows "(\<exists>ps ds. fs = ps @ ds \<and> list_all (\<lambda>f. isPauseFrame f) ps \<and> list_all (\<lambda>f. \<not> isPauseFrame f) ds)
    \<and> (mCurTxFrame s = None \<longrightarrow> fs = []) \<and> (0 < limit \<longrightarrow> int (length fs) \<le> limit + 1)"
proof -
  have i: "inner_ok (mCurTxFrame s) (Inner fs limit)"
    using mac_reach_inv [OF assms(1)] assms(2) by (simp add: mac_inv_def)
  moreover have "\<exists>ps ds. fs = ps @ ds \<and> list_all (\<lambda>f. isPauseFrame f) ps \<and> list_all (\<lambda>f. \<not> isPauseFrame f) ds"
    using i by (intro exI [of _ "pauses fs"] exI [of _ "data_frames fs"]) (auto simp: inner_sorted_def list_all_iff)
  ultimately show ?thesis by (auto simp: inner_within_def)
qed

lemma mac_inner_queue_witness:
  "\<exists>ps ds. [(w_frame 64)\<lparr>fr_src := 11725260718086\<rparr>] = ps @ ds \<and> list_all (\<lambda>f. isPauseFrame f) ps
     \<and> list_all (\<lambda>f. \<not> isPauseFrame f) ds"
  using mac_inner_queue [OF w_reach(3), of "[(w_frame 64)\<lparr>fr_src := 11725260718086\<rparr>]" 4] by (simp add: w2_def)

text \<open>
  Every frame a MAC puts on the wire has between 72 and 1526 bytes with preamble and start delimiter,
  that is an Ethernet frame of 64 to 1518 bytes.
\<close>

theorem mac_wire_lengths:
  assumes "mac_reach ops par s"
  shows "list_all (\<lambda>f. 72 \<le> fr_byteLength f \<and> fr_byteLength f \<le> 1526) (mPhysOut s)"
  using mac_reach_inv [OF assms] by (simp add: mac_inv_def list_all_iff wire_fits_def)

lemma mac_wire_lengths_witness: "list_all (\<lambda>f. 72 \<le> fr_byteLength f \<and> fr_byteLength f \<le> 1526) (mPhysOut w1)"
  using mac_wire_lengths [OF w_reach(2)] .





text \<open>
  A PAUSE of duration zero, which ends a pause by the standard, cancels the timer of a paused MAC
  without scheduling anything: until a PAUSE of a positive duration arrives, no sequence of messages
  makes it transmit again.
\<close>

theorem mac_pause_zero_stalls:
  assumes "mac_reach ops par s" and "mTransmitState s = PAUSE_STATE" and "mOperational s"
    and "\<not> mChannelsDiffer s" and "mConnected s" and "\<not> mDisabled s"
    and "pause_time f = Some 0" and "\<not> fr_bitError f" and "fr_dest f = mAddress s"
    and "mac_run ops par s ((ph, now, FromNetwork (EtherFrameMsg f) d) # es) t"
    and "list_all (\<lambda>(ph, now, m). \<not> resumes m) es"
  shows "mTransmitState t = PAUSE_STATE \<and> mPhysOut t = mPhysOut s
    \<and> tm_at (mEndTx t) = None \<and> tm_at (mEndIFG t) = None \<and> tm_at (mEndPause t) = None"
proof -
  obtain u where u: "mac_handleMessage ops par ph now (FromNetwork (EtherFrameMsg f) d) s = Inr u"
    and r: "mac_run ops par u es t"
    using assms(10) by auto
  have "tx_inv s" using mac_reach_inv [OF assms(1)] by (simp add: mac_inv_def)
  then have "\<not> armed (mEndTx s)" "\<not> armed (mEndIFG s)" using assms(2) by (simp_all add: tx_inv_def)
  then have "stalled u \<and> mPhysOut u = mPhysOut s \<and> \<not> mChannelsDiffer u \<and> mOperational u"
    using u assms(2-9)
    by (auto simp: mac_handleMessage_def processMsgFromNetwork_def dropFrameNotForUs_def processPauseCommand_def
        Let_def stalled_def cancelEvent_def)
  then show ?thesis using stalled_run [OF r] assms(11) by (simp add: stalled_def)
qed

lemma mac_pause_zero_stalls_witness:
  "mTransmitState w5 = PAUSE_STATE \<and> mPhysOut w5 = mPhysOut w4 \<and> tm_at (mEndPause w5) = None"
proof -
  have "mac_run dtq_ops (w_par None) w4 [(w_phys, 9000000, FromNetwork (EtherFrameMsg (w_pause 0)) 0)] w5"
    using w_step5 by simp
  then show ?thesis
    using mac_pause_zero_stalls [OF w_reach(5), of "w_pause 0" w_phys 9000000 0 "[]" w5]
    by (simp add: w_states w0_def mac_new_def w_pause_def new_frame_def pause_time.simps)
qed

text \<open>
  A PAUSE that arrives in the gap after a transmission is only noted: at the end of the gap the waiting
  frame goes on the wire, or the transmitter becomes idle, and no pause is timed.
\<close>

theorem mac_pause_during_gap:
  assumes "mac_reach ops par s" and "mTransmitState s = WAIT_IFG_STATE" and "mOperational s"
    and "\<not> mChannelsDiffer s" and "mConnected s" and "\<not> mDisabled s"
    and "pause_time f = Some n" and "\<not> fr_bitError f" and "fr_dest f = mAddress s"
    and "mac_run ops par s [(ph, now, FromNetwork (EtherFrameMsg f) d), (ph, later, EndIFG)] t"
  shows "mPauseUnitsRequested t = n \<and> tm_at (mEndPause t) = None
    \<and> (case mCurTxFrame s of
         None \<Rightarrow> mTransmitState t = TX_IDLE_STATE \<and> mPhysOut t = mPhysOut s
       | Some g \<Rightarrow> mTransmitState t = TRANSMITTING_STATE \<and> mPhysOut t = mPhysOut s @ [wire_frame s g])"
proof -
  have "tx_inv s" using mac_reach_inv [OF assms(1)] by (simp add: mac_inv_def)
  then have p: "tm_at (mEndPause s) = None" using assms(2) by (simp add: tx_inv_def)
  obtain u where u: "mac_handleMessage ops par ph now (FromNetwork (EtherFrameMsg f) d) s = Inr u"
    and r: "mac_handleMessage ops par ph later EndIFG u = Inr t"
    using assms(10) by auto
  define v where "v = s\<lparr>mTotalRxTime := mTotalRxTime s + d,
      mStats := numPauseFramesRcvd_update (\<lambda>i. i + 1) (mStats s), mPauseUnitsRequested := n\<rparr>"
  have "u = v" using u assms(2-9)
    by (simp add: mac_handleMessage_def processMsgFromNetwork_def dropFrameNotForUs_def processPauseCommand_def v_def)
  then have b: "beginSendFrames par later (v\<lparr>mEndIFG := cancelEvent (mEndIFG v)\<rparr>) = Inr t"
    using r assms(2-4) by (simp add: mac_handleMessage_def handleSelfMessage_def handleEndIFGPeriod_def v_def)
  show ?thesis
  proof (cases "mCurTxFrame s")
    case None
    then show ?thesis using b p by (auto simp: beginSendFrames_def v_def)
  next
    case (Some g)
    then show ?thesis using b p
      by (auto simp: beginSendFrames_def v_def startFrameTransmission_def bindR_Inr_iff wire_frame_def Let_def
          split: option.splits)
  qed
qed

lemma mac_pause_during_gap_witness:
  "mPauseUnitsRequested g3 = 5 \<and> tm_at (mEndPause g3) = None \<and> mTransmitState g3 = TX_IDLE_STATE"
proof -
  have "mac_run dtq_ops (w_par None) g1 [(w_phys, 9000000, FromNetwork (EtherFrameMsg (w_pause 5)) 0), (w_phys, 9600000, EndIFG)] g3"
    using g_step2 g_step3 by (simp add: g2_def g1_def)
  then show ?thesis
    using mac_pause_during_gap [OF g_reach, of "w_pause 5" 5 w_phys 9000000 0 9600000 g3]
    by (simp add: g1_def w1_def w0_def mac_new_def w_pause_def new_frame_def pause_time.simps)
qed

end
