(* ===== verification/Queue1q.thy ===== *)
theory Queue1q
  imports Scheduler
begin

text \<open>
  \<open>Ether1qClassifier\<close>, \<open>EtherFrameClassifier\<close> and the compound output queue \<open>EtherQueue1q\<close> of
  the process bus switch: a classifier, eight drop tail queues and a priority scheduler. The
  wiring is that of \<open>EtherQueue1q.ned\<close>; the queues are numbered by the classifier gate that feeds
  them, \<open>0\<close> for \<open>queue7\<close> to \<open>6\<close> for \<open>queue1\<close> and \<open>7\<close> for \<open>data\<close>, which is also their order at the
  scheduler. A connection is the log of what was sent on it and the number of messages already
  delivered, so that messages on one connection arrive in order and all other interleavings of
  deliveries, arrivals and requests are possible.
\<close>

section \<open>Classifiers\<close>

datatype cls_gate = Out nat | DefaultOut

definition classifier1q :: "'p EtherFrame \<Rightarrow> cls_gate" where
  "classifier1q msg =
     (case fr_class msg of
        Ethernet1QTag ty priTag apptype \<Rightarrow>
          let priority = unat (tag_ppc priTag)
          in if priority > 0 \<and> priority \<le> 7 then Out (7 - priority) else DefaultOut
      | _ \<Rightarrow> DefaultOut)"

datatype pause_gate = PauseOut | PauseDefaultOut

definition frame_classifier :: "'p EtherFrame \<Rightarrow> pause_gate" where
  "frame_classifier msg = (if isPauseFrame msg then PauseOut else PauseDefaultOut)"

fun gate_queue :: "cls_gate \<Rightarrow> nat" where
  "gate_queue (Out k) = k"
| "gate_queue DefaultOut = 7"

abbreviation frame_queue :: "'p EtherFrame \<Rightarrow> nat" where
  "frame_queue f \<equiv> gate_queue (classifier1q f)"

lemma unat_3_less: "unat (p :: 3 word) < 8"
  using unsigned_less [of p, where 'a = nat] by simp

lemma frame_queue_eq:
  "frame_queue f = (case class_tag (fr_class f) of None \<Rightarrow> 7
                    | Some tag \<Rightarrow> if tag_ppc tag = 0 then 7 else 7 - unat (tag_ppc tag))"
proof (cases "fr_class f")
  case (Ethernet1QTag ty tag app)
  have "tag_ppc tag = 0 \<longleftrightarrow> unat (tag_ppc tag) = 0" by (simp add: unat_eq_0)
  then show ?thesis
    using Ethernet1QTag unat_3_less [of "tag_ppc tag"] by (auto simp: classifier1q_def Let_def)
qed (simp_all add: classifier1q_def)

lemma frame_queue_less [simp]: "frame_queue f < 8"
  by (auto simp: frame_queue_eq split: option.split)

section \<open>The compound module\<close>

type_synonym 'p port_queue = "('p EtherFrame droptail, 'p EtherFrame) pqueue"
type_synonym 'p port_sched = "('p port_queue list, 'p EtherFrame) scheduler"

record 'p q1q =
  arrived :: "'p EtherFrame list"
  clsOut :: "nat \<Rightarrow> 'p EtherFrame list"
  clsTaken :: "nat \<Rightarrow> nat"
  sch :: "'p port_sched"
  qTaken :: "nat \<Rightarrow> nat"

abbreviation port_schedulePacket :: "'p port_queue list \<Rightarrow> 'p port_queue list \<times> bool" where
  "port_schedulePacket \<equiv> prio_schedulePacket dtq_isEmpty (pq_requestPacket dt_dequeue)"

definition q1q_init :: "int list \<Rightarrow> 'p q1q" where
  "q1q_init caps =
     \<lparr>arrived = [], clsOut = (\<lambda>_. []), clsTaken = (\<lambda>_. 0),
      sch = sched_initialize
        (map (\<lambda>i. pq_initialize \<lparr>frameCapacity = caps ! i, dtQueue = []\<rparr>) [0..<8]),
      qTaken = (\<lambda>_. 0)\<rparr>"

datatype 'p q1q_event = FrameIn "'p EtherFrame" | ToQueue nat | ToScheduler nat | MacRequest

abbreviation qat :: "'p q1q \<Rightarrow> nat \<Rightarrow> 'p port_queue" where
  "qat s i \<equiv> inputs (sch s) ! i"

text \<open>A delivery can happen when its connection holds an undelivered message.\<close>

fun q1q_enabled :: "'p q1q \<Rightarrow> 'p q1q_event \<Rightarrow> bool" where
  "q1q_enabled s (FrameIn f) = True"
| "q1q_enabled s (ToQueue i) = (i < 8 \<and> clsTaken s i < length (clsOut s i))"
| "q1q_enabled s (ToScheduler i) = (i < 8 \<and> qTaken s i < length (sentOut (qat s i)))"
| "q1q_enabled s MacRequest = True"

fun q1q_exec :: "'p q1q \<Rightarrow> 'p q1q_event \<Rightarrow> 'p q1q res" where
  "q1q_exec s (FrameIn f) =
     (let g = frame_queue f
      in Inr (s\<lparr>arrived := arrived s @ [f], clsOut := (clsOut s)(g := clsOut s g @ [f])\<rparr>))"
| "q1q_exec s (ToQueue i) =
     (let f = clsOut s i ! clsTaken s i;
          (q, notify) = pq_handleMessage dt_enqueue (qat s i) f;
          sch1 = (sch s)\<lparr>inputs := (inputs (sch s))[i := q]\<rparr>;
          sch2 = (if notify then sched_packetEnqueued port_schedulePacket sch1 else sch1)
      in Inr (s\<lparr>clsTaken := (clsTaken s)(i := Suc (clsTaken s i)), sch := sch2\<rparr>))"
| "q1q_exec s (ToScheduler i) =
     (let f = sentOut (qat s i) ! qTaken s i
      in bindR (sched_handleMessage (sch s) f) (\<lambda>sch1.
           Inr (s\<lparr>qTaken := (qTaken s)(i := Suc (qTaken s i)), sch := sch1\<rparr>)))"
| "q1q_exec s MacRequest = Inr (s\<lparr>sch := sched_requestPacket port_schedulePacket (sch s)\<rparr>)"

inductive q1q_reach :: "int list \<Rightarrow> 'p q1q \<Rightarrow> bool" for caps where
  init: "q1q_reach caps (q1q_init caps)"
| step: "q1q_reach caps s \<Longrightarrow> q1q_enabled s e \<Longrightarrow> q1q_exec s e = Inr t \<Longrightarrow> q1q_reach caps t"

inductive_cases q1q_reachE: "q1q_reach caps s"

section \<open>Invariant\<close>

definition in_flight :: "'p q1q \<Rightarrow> nat \<Rightarrow> nat" where
  "in_flight s i = length (sentOut (qat s i)) - qTaken s i"

text \<open>
  The facts about one queue, about the two counters of the scheduler, and about the order of
  what has been delivered to the MAC.
\<close>

definition queue_inv :: "'p q1q \<Rightarrow> nat \<Rightarrow> bool" where
  "queue_inv s i \<longleftrightarrow> clsTaken s i \<le> length (clsOut s i)
     \<and> qTaken s i \<le> length (sentOut (qat s i)) \<and> packetRequested (qat s i) = 0
     \<and> dt.explains (qat s i) (take (clsTaken s i) (clsOut s i))
     \<and> filter (\<lambda>f. frame_queue f = i) (arrived s) = clsOut s i
     \<and> filter (\<lambda>f. frame_queue f = i) (schedOut (sch s)) = take (qTaken s i) (sentOut (qat s i))"

definition sched_inv :: "'p q1q \<Rightarrow> bool" where
  "sched_inv s \<longleftrightarrow> length (inputs (sch s)) = 8
     \<and> 0 \<le> packetsToBeRequestedFromInputs (sch s)
     \<and> packetsRequestedFromUs (sch s) =
         packetsToBeRequestedFromInputs (sch s) + int (\<Sum>i<8. in_flight s i)
     \<and> (packetsToBeRequestedFromInputs (sch s) > 0 \<longrightarrow> list_all dtq_isEmpty (inputs (sch s)))"

definition q1q_inv :: "'p q1q \<Rightarrow> bool" where
  "q1q_inv s \<longleftrightarrow> sched_inv s \<and> (\<forall>i<8. queue_inv s i)"

lemma dtq_isEmpty_iff: "dtq_isEmpty q \<longleftrightarrow> dtQueue (store q) = []"
  by (simp add: dtq_isEmpty_def dt_isEmpty_def)

text \<open>Requesting from a queue that is not empty moves one frame from its store to its output.\<close>

lemma request_nonempty:
  assumes "\<not> dtq_isEmpty q"
  shows "sentOut (pq_requestPacket dt_dequeue q) = sentOut q @ [hd (dtQueue (store q))]"
    and "dtQueue (store (pq_requestPacket dt_dequeue q)) = tl (dtQueue (store q))"
    and "packetRequested (pq_requestPacket dt_dequeue q) = packetRequested q"
  using assms
  by (cases "dtQueue (store q)"; simp add: dtq_isEmpty_iff pq_requestPacket_def dt_dequeue_def)+

text \<open>
  One call of \<open>schedulePacket\<close> on behalf of the scheduler: either every queue is empty and nothing
  happens, or the first queue with a frame sends one.
\<close>

definition send_from :: "'p q1q \<Rightarrow> nat \<Rightarrow> 'p q1q" where
  "send_from s i =
     s\<lparr>sch := (sch s)\<lparr>inputs := (inputs (sch s))[i := pq_requestPacket dt_dequeue (qat s i)]\<rparr>\<rparr>"

lemma in_flight_send_from:
  assumes "i < length (inputs (sch s))" and "\<not> dtq_isEmpty (qat s i)"
    and "qTaken s i \<le> length (sentOut (qat s i))"
  shows "in_flight (send_from s i) j = (if j = i then Suc (in_flight s i) else in_flight s j)"
  using assms by (auto simp: in_flight_def send_from_def request_nonempty nth_list_update)

lemma sum_in_flight_send_from:
  assumes "i < 8" and "length (inputs (sch s)) = 8" and "\<not> dtq_isEmpty (qat s i)"
    and "qTaken s i \<le> length (sentOut (qat s i))"
  shows "(\<Sum>j<8. in_flight (send_from s i) j) = Suc (\<Sum>j<8. in_flight s j)"
proof -
  have "(\<Sum>j<8. in_flight (send_from s i) j) = (\<Sum>j<8. in_flight s j + (if j = i then 1 else 0))"
    using assms by (intro sum.cong) (auto simp: in_flight_send_from)
  also have "\<dots> = (\<Sum>j<8. in_flight s j) + 1"
    using assms(1) by (simp add: sum.distrib)
  finally show ?thesis by simp
qed

lemma queue_inv_send_from:
  assumes "\<forall>k<8. queue_inv s k" and "length (inputs (sch s)) = 8" and "i < 8"
    and "\<not> dtq_isEmpty (qat s i)" and "k < 8"
  shows "queue_inv (send_from s i) k"
proof -
  have q: "queue_inv s k" using assms by blast
  have e: "dt.explains (pq_requestPacket dt_dequeue (qat s k)) arr" if "dt.explains (qat s k) arr" for arr
    using that by (rule dt.explains_requestPacket)
  from q e assms show ?thesis
    by (auto simp: queue_inv_def send_from_def nth_list_update request_nonempty)
qed

lemma q1q_inv_init: "q1q_inv (q1q_init caps :: 'p q1q)"
proof -
  have "dt.explains (pq_initialize \<lparr>frameCapacity = c, dtQueue = [] :: 'p EtherFrame list\<rparr>) []" for c
    by (simp add: dt.explains_def dt.sound_initialize dt.accepted_def) (simp add: pq_initialize_def)
  then have "queue_inv (q1q_init caps :: 'p q1q) i" if "i < 8" for i
    using that by (auto simp: queue_inv_def q1q_init_def sched_initialize_def)
      (simp_all add: pq_initialize_def)
  moreover have "sched_inv (q1q_init caps :: 'p q1q)"
    by (auto simp: sched_inv_def q1q_init_def sched_initialize_def in_flight_def pq_initialize_def
        list_all_iff dtq_isEmpty_iff)
  ultimately show ?thesis by (simp add: q1q_inv_def)
qed

section \<open>One event\<close>

text \<open>The counters of the scheduler do not matter to the facts about the queues.\<close>

definition set_counters :: "int \<Rightarrow> int \<Rightarrow> int \<Rightarrow> 'p q1q \<Rightarrow> 'p q1q" where
  "set_counters a b c s =
     s\<lparr>sch := (sch s)\<lparr>packetsRequestedFromUs := a, packetsToBeRequestedFromInputs := b,
                     schedNotified := c\<rparr>\<rparr>"

lemma set_counters_simps [simp]:
  "queue_inv (set_counters a b c s) i = queue_inv s i"
  "in_flight (set_counters a b c s) i = in_flight s i"
  "inputs (sch (set_counters a b c s)) = inputs (sch s)"
  "packetsRequestedFromUs (sch (set_counters a b c s)) = a"
  "packetsToBeRequestedFromInputs (sch (set_counters a b c s)) = b"
  by (simp_all add: set_counters_def queue_inv_def in_flight_def)

abbreviation all_empty :: "'p q1q \<Rightarrow> bool" where
  "all_empty s \<equiv> list_all dtq_isEmpty (inputs (sch s))"

abbreviation first_queue :: "'p q1q \<Rightarrow> nat" where
  "first_queue s \<equiv> first_nonempty dtq_isEmpty (inputs (sch s))"

lemma requestPacket_q1q:
  "s\<lparr>sch := sched_requestPacket port_schedulePacket (sch s)\<rparr> =
     (if all_empty s
      then set_counters (packetsRequestedFromUs (sch s) + 1)
             (packetsToBeRequestedFromInputs (sch s) + 1) (schedNotified (sch s)) s
      else set_counters (packetsRequestedFromUs (sch s) + 1)
             (packetsToBeRequestedFromInputs (sch s)) (schedNotified (sch s))
             (send_from s (first_queue s)))"
  by (simp add: sched_requestPacket_def prio_schedulePacket_eq set_counters_def send_from_def Let_def)

lemma packetEnqueued_q1q:
  "s\<lparr>sch := sched_packetEnqueued port_schedulePacket (sch s)\<rparr> =
     (if packetsToBeRequestedFromInputs (sch s) > 0 then
        (if all_empty s then s
         else set_counters (packetsRequestedFromUs (sch s))
                (packetsToBeRequestedFromInputs (sch s) - 1) (schedNotified (sch s))
                (send_from s (first_queue s)))
      else if packetsRequestedFromUs (sch s) = 0
      then set_counters (packetsRequestedFromUs (sch s)) (packetsToBeRequestedFromInputs (sch s))
             (schedNotified (sch s) + 1) s
      else s)"
  by (simp add: sched_packetEnqueued_def prio_schedulePacket_eq set_counters_def send_from_def Let_def)

lemma send_from_simps [simp]:
  "packetsRequestedFromUs (sch (send_from s i)) = packetsRequestedFromUs (sch s)"
  "packetsToBeRequestedFromInputs (sch (send_from s i)) = packetsToBeRequestedFromInputs (sch s)"
  "length (inputs (sch (send_from s i))) = length (inputs (sch s))"
  by (simp_all add: send_from_def)

lemma request_inv:
  assumes "q1q_inv s"
  shows "q1q_inv (s\<lparr>sch := sched_requestPacket port_schedulePacket (sch s)\<rparr>)"
proof (cases "all_empty s")
  case True
  then show ?thesis
    using assms by (subst requestPacket_q1q) (simp add: q1q_inv_def sched_inv_def)
next
  case False
  have q: "\<forall>i<8. queue_inv s i" and c: "sched_inv s" using assms by (auto simp: q1q_inv_def)
  have len: "length (inputs (sch s)) = 8" using c by (simp add: sched_inv_def)
  define i where "i = first_queue s"
  have i: "i < 8" "\<not> dtq_isEmpty (qat s i)"
    using first_nonempty_less [OF False] first_nonempty_not_empty [OF False] len by (auto simp: i_def)
  have t: "qTaken s i \<le> length (sentOut (qat s i))" using q i by (auto simp: queue_inv_def)
  have z: "packetsToBeRequestedFromInputs (sch s) = 0" using c False by (auto simp: sched_inv_def)
  show ?thesis
    using c z queue_inv_send_from [OF q len i] sum_in_flight_send_from [OF i(1) len i(2) t] False
    by (subst requestPacket_q1q) (simp add: q1q_inv_def sched_inv_def i_def)
qed

text \<open>A message reaches queue \<open>i\<close>; the notification of the scheduler is a second step.\<close>

definition enq_at :: "'p q1q \<Rightarrow> nat \<Rightarrow> 'p q1q" where
  "enq_at s i =
     s\<lparr>clsTaken := (clsTaken s)(i := Suc (clsTaken s i)),
       sch := (sch s)\<lparr>inputs := (inputs (sch s))
         [i := fst (pq_handleMessage dt_enqueue (qat s i) (clsOut s i ! clsTaken s i))]\<rparr>\<rparr>"

lemma exec_ToQueue:
  "q1q_exec s (ToQueue i) = Inr
     (if snd (pq_handleMessage dt_enqueue (qat s i) (clsOut s i ! clsTaken s i))
      then (enq_at s i)\<lparr>sch := sched_packetEnqueued port_schedulePacket (sch (enq_at s i))\<rparr>
      else enq_at s i)"
  by (simp add: enq_at_def Let_def split: prod.split)

lemma enq_at_simps [simp]:
  "packetsRequestedFromUs (sch (enq_at s i)) = packetsRequestedFromUs (sch s)"
  "packetsToBeRequestedFromInputs (sch (enq_at s i)) = packetsToBeRequestedFromInputs (sch s)"
  "length (inputs (sch (enq_at s i))) = length (inputs (sch s))"
  "j \<noteq> i \<Longrightarrow> qat (enq_at s i) j = qat s j"
  by (simp_all add: enq_at_def)

lemma enq_at_queue:
  assumes "queue_inv s i" and "i < length (inputs (sch s))"
  shows "sentOut (qat (enq_at s i) i) = sentOut (qat s i)"
    and "packetRequested (qat (enq_at s i) i) = 0"
    and "dtQueue (store (qat (enq_at s i) i)) =
           (if snd (pq_handleMessage dt_enqueue (qat s i) (clsOut s i ! clsTaken s i))
            then dtQueue (store (qat s i)) @ [clsOut s i ! clsTaken s i]
            else dtQueue (store (qat s i)))"
proof -
  obtain q n where h: "pq_handleMessage dt_enqueue (qat s i) (clsOut s i ! clsTaken s i) = (q, n)"
    by fastforce
  have r: "packetRequested (qat s i) = 0" using assms(1) by (simp add: queue_inv_def)
  have e: "qat (enq_at s i) i = q" using assms(2) by (simp add: enq_at_def h)
  show "sentOut (qat (enq_at s i) i) = sentOut (qat s i)"
    and "packetRequested (qat (enq_at s i) i) = 0"
    and "dtQueue (store (qat (enq_at s i) i)) =
           (if snd (pq_handleMessage dt_enqueue (qat s i) (clsOut s i ! clsTaken s i))
            then dtQueue (store (qat s i)) @ [clsOut s i ! clsTaken s i]
            else dtQueue (store (qat s i)))"
    using dt.handleMessage_notifies [OF r h] by (auto simp: e h)
qed

lemma in_flight_enq_at:
  assumes "queue_inv s i" and "i < length (inputs (sch s))"
  shows "in_flight (enq_at s i) j = in_flight s j"
  using enq_at_queue(1) [OF assms]
  by (cases "j = i") (simp_all add: in_flight_def, simp_all add: enq_at_def)

lemma queue_inv_enq_at:
  assumes "queue_inv s i" and "queue_inv s k" and "i < length (inputs (sch s))"
    and "clsTaken s i < length (clsOut s i)"
  shows "queue_inv (enq_at s i) k"
proof (cases "k = i")
  case True
  have "dt.explains (qat s i) (take (clsTaken s i) (clsOut s i))"
    using assms(1) unfolding queue_inv_def by blast
  from dt.explains_handleMessage [OF this, of "clsOut s i ! clsTaken s i"]
  have "dt.explains (qat (enq_at s i) i) (take (Suc (clsTaken s i)) (clsOut s i))"
    using assms(3,4) by (simp add: enq_at_def take_Suc_conv_app_nth)
  then show ?thesis
    using True assms enq_at_queue(1,2) [OF assms(1,3)]
    by (simp add: queue_inv_def) (simp add: enq_at_def)
next
  case False
  have "queue_inv (enq_at s i) k = queue_inv s k"
    unfolding queue_inv_def enq_at_simps(4) [OF False] using False by (simp add: enq_at_def)
  then show ?thesis using assms(2) by simp
qed

lemma first_queue_single:
  assumes "i < length qs" and "\<not> e (qs ! i)" and "\<And>j. j < length qs \<Longrightarrow> j \<noteq> i \<Longrightarrow> e (qs ! j)"
  shows "first_nonempty e qs = i" and "\<not> list_all e qs"
proof -
  show n: "\<not> list_all e qs" using assms(1,2) by (auto simp: list_all_length)
  show "first_nonempty e qs = i"
    using first_nonempty_less [OF n] first_nonempty_not_empty [OF n] assms(3) by blast
qed

text \<open>
  When the scheduler owes packets to the MAC, all queues were empty, so the frame that was just
  queued is requested at once.
\<close>

lemma ToQueue_inv:
  assumes inv: "q1q_inv s" and i: "i < 8" and m: "clsTaken s i < length (clsOut s i)"
    and e: "q1q_exec s (ToQueue i) = Inr t"
  shows "q1q_inv t"
proof -
  define f where "f = clsOut s i ! clsTaken s i"
  define n where "n = snd (pq_handleMessage dt_enqueue (qat s i) f)"
  define u where "u = enq_at s i"
  have q: "\<forall>k<8. queue_inv s k" and c: "sched_inv s" using inv by (auto simp: q1q_inv_def)
  have len: "length (inputs (sch s)) = 8" using c by (simp add: sched_inv_def)
  have qi: "queue_inv s i" and il: "i < length (inputs (sch s))" using q i len by auto
  have qu: "\<forall>k<8. queue_inv u k" using queue_inv_enq_at [OF qi _ il m] q by (simp add: u_def)
  have fu: "in_flight u j = in_flight s j" for j using in_flight_enq_at [OF qi il] by (simp add: u_def)
  have su: "dtQueue (store (qat u i)) =
      (if n then dtQueue (store (qat s i)) @ [f] else dtQueue (store (qat s i)))"
    using enq_at_queue(3) [OF qi il] by (simp add: u_def n_def f_def)
  have t: "t = (if n then u\<lparr>sch := sched_packetEnqueued port_schedulePacket (sch u)\<rparr> else u)"
    using e by (simp only: exec_ToQueue f_def [symmetric] n_def [symmetric] u_def [symmetric] sum.inject)
  show ?thesis
  proof (cases "n \<and> packetsToBeRequestedFromInputs (sch s) > 0")
    case True
    have oth: "dtq_isEmpty (qat u j)" if "j < length (inputs (sch u))" "j \<noteq> i" for j
      using that c True len by (simp add: u_def sched_inv_def list_all_length)
    have ne: "\<not> dtq_isEmpty (qat u i)" using su True by (simp add: dtq_isEmpty_iff)
    have fi: "first_queue u = i" "\<not> all_empty u"
      using first_queue_single [of i "inputs (sch u)" dtq_isEmpty] oth ne il by (simp_all add: u_def)
    have ei: "dtQueue (store (qat s i)) = []"
      using c True il by (simp add: sched_inv_def list_all_length dtq_isEmpty_iff)
    have "dtq_isEmpty (qat (send_from u i) j)" if "j < 8" for j
      using that oth su True ei ne il len
      by (auto simp: send_from_def nth_list_update dtq_isEmpty_iff request_nonempty u_def)
    then have em: "all_empty (send_from u i)" using len by (simp add: list_all_length u_def)
    have tk: "qTaken u i \<le> length (sentOut (qat u i))" using qu i by (simp add: queue_inv_def)
    have lu: "length (inputs (sch u)) = 8" using len by (simp add: u_def)
    have "t = set_counters (packetsRequestedFromUs (sch s))
           (packetsToBeRequestedFromInputs (sch s) - 1) (schedNotified (sch u)) (send_from u i)"
      using True fi t by (simp add: packetEnqueued_q1q) (simp add: u_def)
    then show ?thesis
      using c True em queue_inv_send_from [OF qu lu i ne] sum_in_flight_send_from [OF i lu ne tk] lu
      by (simp add: q1q_inv_def sched_inv_def fu [unfolded u_def] u_def del: of_nat_sum)
  next
    case False
    have "all_empty u" if "packetsToBeRequestedFromInputs (sch s) > 0"
    proof -
      have "dtq_isEmpty (qat u j)" if "j < 8" for j
        using that su False c len \<open>packetsToBeRequestedFromInputs (sch s) > 0\<close>
        by (cases "j = i") (auto simp: u_def dtq_isEmpty_iff sched_inv_def list_all_length)
      then show ?thesis using len by (simp add: list_all_length u_def)
    qed
    then have "q1q_inv u"
      using c qu fu by (simp add: q1q_inv_def sched_inv_def u_def)
    then show ?thesis
      using t False by (auto simp: packetEnqueued_q1q q1q_inv_def sched_inv_def u_def)
  qed
qed

lemma ToScheduler_step:
  assumes inv: "q1q_inv s" and i: "i < 8" and m: "qTaken s i < length (sentOut (qat s i))"
  shows "q1q_exec s (ToScheduler i) = Inr
           (s\<lparr>qTaken := (qTaken s)(i := Suc (qTaken s i)),
              sch := (sch s)\<lparr>packetsRequestedFromUs := packetsRequestedFromUs (sch s) - 1,
                             schedOut := schedOut (sch s) @ [sentOut (qat s i) ! qTaken s i]\<rparr>\<rparr>)"
    and "(\<Sum>j<8. in_flight s j) > 0"
proof -
  have "in_flight s i > 0" using m by (simp add: in_flight_def)
  then show p: "(\<Sum>j<8. in_flight s j) > 0"
    using i by (intro sum_pos2 [of _ i]) auto
  have "packetsRequestedFromUs (sch s) > 0"
    using inv p by (simp add: q1q_inv_def sched_inv_def del: of_nat_sum)
  then show "q1q_exec s (ToScheduler i) = Inr
           (s\<lparr>qTaken := (qTaken s)(i := Suc (qTaken s i)),
              sch := (sch s)\<lparr>packetsRequestedFromUs := packetsRequestedFromUs (sch s) - 1,
                             schedOut := schedOut (sch s) @ [sentOut (qat s i) ! qTaken s i]\<rparr>\<rparr>)"
    by (simp add: sched_handleMessage_def)
qed

text \<open>Every frame in queue \<open>i\<close> or on its connection is one the classifier sent to gate \<open>i\<close>.\<close>

lemma sentOut_class:
  assumes "queue_inv s i" and "f \<in> set (sentOut (qat s i))"
  shows "frame_queue f = i"
proof -
  have "subseq (dt.accepted (qat s i)) (take (clsTaken s i) (clsOut s i))"
    using assms(1) unfolding queue_inv_def dt.explains_def by blast
  moreover have "f \<in> set (dt.accepted (qat s i))" using assms(2) by (simp add: dt.accepted_def)
  ultimately obtain g where "g \<in> set (take (clsTaken s i) (clsOut s i))" "f = g"
    by (rule list_emb_set)
  then have "f \<in> set (clsOut s i)" by (auto dest: in_set_takeD)
  then have "f \<in> set (filter (\<lambda>f. frame_queue f = i) (arrived s))"
    using assms(1) unfolding queue_inv_def by simp
  then show ?thesis by simp
qed

lemma ToScheduler_inv:
  assumes inv: "q1q_inv s" and i: "i < 8" and m: "qTaken s i < length (sentOut (qat s i))"
    and e: "q1q_exec s (ToScheduler i) = Inr t"
  shows "q1q_inv t"
proof -
  define f where "f = sentOut (qat s i) ! qTaken s i"
  have q: "\<And>k. k < 8 \<Longrightarrow> queue_inv s k" and c: "sched_inv s" using inv by (auto simp: q1q_inv_def)
  have t: "t = s\<lparr>qTaken := (qTaken s)(i := Suc (qTaken s i)),
              sch := (sch s)\<lparr>packetsRequestedFromUs := packetsRequestedFromUs (sch s) - 1,
                             schedOut := schedOut (sch s) @ [f]\<rparr>\<rparr>"
    using e ToScheduler_step(1) [OF inv i m] by (simp add: f_def)
  have cf: "frame_queue f = i" using sentOut_class [OF q [OF i]] m by (simp add: f_def)
  have "queue_inv t k" if "k < 8" for k
  proof -
    have "take (Suc (qTaken s i)) (sentOut (qat s i)) = take (qTaken s i) (sentOut (qat s i)) @ [f]"
      using m by (simp add: take_Suc_conv_app_nth f_def)
    moreover have "filter (\<lambda>f. frame_queue f = i) (schedOut (sch s)) = take (qTaken s i) (sentOut (qat s i))"
      using q [OF i] unfolding queue_inv_def by blast
    ultimately have "queue_inv t i"
      using q [OF i] m cf unfolding queue_inv_def t by simp
    moreover have "queue_inv t k = queue_inv s k" if "k \<noteq> i"
      using that cf unfolding queue_inv_def t by simp
    ultimately show ?thesis using q [OF that] by (cases "k = i") simp_all
  qed
  moreover have "(\<Sum>j<8. in_flight s j) = (\<Sum>j<8. in_flight t j) + 1"
  proof -
    have "(\<Sum>j<8. in_flight s j) = (\<Sum>j<8. in_flight t j + (if j = i then 1 else 0))"
      using m by (intro sum.cong) (auto simp: in_flight_def t)
    then show ?thesis using i by (simp add: sum.distrib)
  qed
  moreover have "inputs (sch t) = inputs (sch s)"
    and "packetsRequestedFromUs (sch t) = packetsRequestedFromUs (sch s) - 1"
    and "packetsToBeRequestedFromInputs (sch t) = packetsToBeRequestedFromInputs (sch s)"
    by (simp_all add: t)
  ultimately show ?thesis
    using c by (simp add: q1q_inv_def sched_inv_def del: of_nat_sum)
qed

lemma FrameIn_inv:
  assumes "q1q_inv s" and "q1q_exec s (FrameIn f) = Inr t"
  shows "q1q_inv t"
proof -
  have t: "t = s\<lparr>arrived := arrived s @ [f],
                clsOut := (clsOut s)(frame_queue f := clsOut s (frame_queue f) @ [f])\<rparr>"
    using assms(2) by (simp add: Let_def)
  have "queue_inv t k" if "queue_inv s k" for k
    using that unfolding queue_inv_def t by (cases "k = frame_queue f") auto
  moreover have "sched_inv t = sched_inv s"
    by (simp add: sched_inv_def t in_flight_def)
  ultimately show ?thesis using assms(1) by (simp add: q1q_inv_def)
qed

lemma q1q_inv_step:
  assumes "q1q_inv s" and "q1q_enabled s e" and "q1q_exec s e = Inr t"
  shows "q1q_inv t"
proof (cases e)
  case (FrameIn f)
  then show ?thesis using FrameIn_inv assms by blast
next
  case (ToQueue i)
  then show ?thesis using ToQueue_inv [of s i t] assms by auto
next
  case (ToScheduler i)
  then show ?thesis using ToScheduler_inv [of s i t] assms by auto
next
  case MacRequest
  then show ?thesis using request_inv [of s] assms by auto
qed

lemma q1q_reach_inv: "q1q_reach caps s \<Longrightarrow> q1q_inv s"
  by (induction rule: q1q_reach.induct) (auto intro: q1q_inv_init q1q_inv_step)

text \<open>The frames waiting in queue \<open>i\<close>, and what \<open>schedulePacket\<close> leaves of the others.\<close>

abbreviation waiting :: "'p q1q \<Rightarrow> nat \<Rightarrow> 'p EtherFrame list" where
  "waiting s i \<equiv> dtQueue (store (qat s i))"

lemma send_first_priority:
  assumes "\<not> all_empty s" and "i < length (inputs (sch s))"
    and "length (sentOut (qat (send_from s (first_queue s)) i)) > length (sentOut (qat s i))"
    and "j < i"
  shows "waiting (send_from s (first_queue s)) j = []"
proof -
  have "i = first_queue s"
    using assms(2,3) by (cases "i = first_queue s") (simp_all add: send_from_def)
  then show ?thesis
    using first_nonempty_before [of j dtq_isEmpty "inputs (sch s)"] assms(4)
    by (simp add: send_from_def dtq_isEmpty_iff)
qed

lemma packetEnqueued_priority:
  assumes "i < length (inputs (sch s))" and "j < i"
    and "length (sentOut (qat (s\<lparr>sch := sched_packetEnqueued port_schedulePacket (sch s)\<rparr>) i))
           > length (sentOut (qat s i))"
  shows "waiting (s\<lparr>sch := sched_packetEnqueued port_schedulePacket (sch s)\<rparr>) j = []"
  using assms send_first_priority [of s i j]
  unfolding packetEnqueued_q1q by (auto split: if_splits)

text \<open>A list of events, run while each is enabled.\<close>

fun q1q_run :: "'p q1q \<Rightarrow> 'p q1q_event list \<Rightarrow> 'p q1q option" where
  "q1q_run s [] = Some s"
| "q1q_run s (e # es) =
     (if q1q_enabled s e then (case q1q_exec s e of Inr t \<Rightarrow> q1q_run t es | Inl _ \<Rightarrow> None) else None)"

lemma q1q_run_reach: "q1q_reach caps s \<Longrightarrow> q1q_run s es = Some t \<Longrightarrow> q1q_reach caps t"
  by (induction s es rule: q1q_run.induct)
    (auto split: if_splits sum.splits intro: q1q_reach.step)

section \<open>Properties\<close>

text \<open>
  C2. In every reachable state every enabled event of the output queue completes: in particular
  the scheduler's \<open>ASSERT(packetsRequestedFromUs > 0)\<close> holds whenever a frame reaches it, in any
  interleaving of arrivals, deliveries and requests.
\<close>

theorem q1q_no_assertion:
  assumes "q1q_reach caps s" and "q1q_enabled s e"
  shows "\<exists>t. q1q_exec s e = Inr t"
proof -
  have inv: "q1q_inv s" using q1q_reach_inv [OF assms(1)] .
  show ?thesis
  proof (cases e)
    case (FrameIn f)
    then show ?thesis by (simp add: Let_def)
  next
    case (ToQueue i)
    then show ?thesis using exec_ToQueue [of s i] by blast
  next
    case (ToScheduler i)
    then show ?thesis using ToScheduler_step(1) [OF inv] assms(2) by auto
  next
    case MacRequest
    then show ?thesis by simp
  qed
qed

text \<open>
  C3. Strict priority: when an event makes queue \<open>i\<close> send a frame, no frame is left waiting in
  any queue of higher priority, that is with a smaller number.
\<close>

theorem q1q_strict_priority:
  assumes "q1q_reach caps s" and "q1q_enabled s e" and "q1q_exec s e = Inr t"
    and "i < 8" and "length (sentOut (qat t i)) > length (sentOut (qat s i))" and "j < i"
  shows "waiting t j = []"
proof -
  have inv: "q1q_inv s" using q1q_reach_inv [OF assms(1)] .
  then have len: "length (inputs (sch s)) = 8" and q: "\<And>k. k < 8 \<Longrightarrow> queue_inv s k"
    by (auto simp: q1q_inv_def sched_inv_def)
  show ?thesis
  proof (cases e)
    case (FrameIn f)
    then show ?thesis using assms by (auto simp: Let_def)
  next
    case (ToQueue k)
    then have k: "k < 8" using assms(2) by simp
    have u: "length (sentOut (qat (enq_at s k) i)) = length (sentOut (qat s i))"
      using enq_at_queue(1) [OF q [OF k]] k len by (cases "i = k") simp_all
    then have "t = (enq_at s k)\<lparr>sch := sched_packetEnqueued port_schedulePacket (sch (enq_at s k))\<rparr>"
      using assms(3,5) ToQueue exec_ToQueue [of s k] by (simp split: if_splits)
    then show ?thesis
      using packetEnqueued_priority [of i "enq_at s k" j] u assms(4-6) len by simp
  next
    case (ToScheduler k)
    then show ?thesis using ToScheduler_step(1) [OF inv, of k] assms by auto
  next
    case MacRequest
    then have "t = s\<lparr>sch := sched_requestPacket port_schedulePacket (sch s)\<rparr>" using assms(3) by simp
    then show ?thesis
      using send_first_priority [of s i j] assms(4-6) len
      by (auto simp: requestPacket_q1q split: if_splits)
  qed
qed

text \<open>
  C4. Work conservation: whenever the MAC has asked for more frames than are already on their way
  to it, all eight queues are empty.
\<close>

theorem q1q_work_conserving:
  assumes "q1q_reach caps s"
    and "packetsRequestedFromUs (sch s) > int (\<Sum>i<8. length (sentOut (qat s i)) - qTaken s i)"
    and "i < 8"
  shows "waiting s i = []"
  using q1q_reach_inv [OF assms(1)] assms(2,3)
  by (simp add: q1q_inv_def sched_inv_def in_flight_def list_all_length dtq_isEmpty_iff
      del: of_nat_sum)

text \<open>
  Order within a class: the frames of one priority that the MAC received are a subsequence
  of the frames of that priority in the order in which they arrived at the classifier.
\<close>

theorem q1q_class_fifo:
  assumes "q1q_reach caps s" and "i < 8"
  shows "subseq (filter (\<lambda>f. frame_queue f = i) (schedOut (sch s)))
                (filter (\<lambda>f. frame_queue f = i) (arrived s))"
proof -
  have q: "queue_inv s i" using q1q_reach_inv [OF assms(1)] assms(2) by (simp add: q1q_inv_def)
  have pre: "subseq (take n xs) (xs @ ys)" for n and xs ys :: "'a EtherFrame list"
    by (metis append_take_drop_id append.assoc list_emb_append2 subseq_order.order_refl
        subseq_rev_drop_many)
  have "filter (\<lambda>f. frame_queue f = i) (schedOut (sch s)) = take (qTaken s i) (sentOut (qat s i))"
    and c: "filter (\<lambda>f. frame_queue f = i) (arrived s) = clsOut s i"
    and "subseq (dt.accepted (qat s i)) (take (clsTaken s i) (clsOut s i))"
    using q unfolding queue_inv_def dt.explains_def by blast+
  moreover have "subseq (take (clsTaken s i) (clsOut s i)) (clsOut s i)"
    using pre [of _ "clsOut s i" "[]"] by simp
  ultimately show ?thesis
    using pre [of "qTaken s i" "sentOut (qat s i)" "dtQueue (store (qat s i))"]
    by (metis dt.accepted_def subseq_order.trans)
qed

text \<open>A tagged frame of priority 4 overtakes an untagged one; both wait for the same request.\<close>

definition frame_of_prio :: "3 word \<Rightarrow> unit EtherFrame" where
  "frame_of_prio p =
     \<lparr>fr_dest = 0, fr_src = 0,
      fr_class = (if p = 0 then EthernetIIFrame 0x800
                  else Ethernet1QTag 0x8100 \<lparr>tag_ppc = p, tag_de = 0, tag_vid = 1\<rparr> 0),
      fr_byteLength = 64, fr_bitError = False, fr_encap = None\<rparr>"

abbreviation caps8 :: "int list" where "caps8 \<equiv> replicate 8 100"

abbreviation two_frames :: "unit q1q_event list" where
  "two_frames \<equiv>
     [FrameIn (frame_of_prio 0), FrameIn (frame_of_prio 4), ToQueue 7, ToQueue 3, MacRequest]"

definition run8 :: "unit q1q_event list \<Rightarrow> unit q1q" where
  "run8 es = the (q1q_run (q1q_init caps8) es)"

lemma run8_reach: "q1q_run (q1q_init caps8) es \<noteq> None \<Longrightarrow> q1q_reach caps8 (run8 es)"
  by (auto simp: run8_def intro: q1q_run_reach [OF q1q_reach.init])

lemma q1q_no_assertion_witness:
  "\<exists>t. q1q_exec (run8 two_frames) (ToScheduler 3) = Inr t"
proof (rule q1q_no_assertion)
  show "q1q_reach caps8 (run8 two_frames)" by (rule run8_reach) code_simp
  show "q1q_enabled (run8 two_frames) (ToScheduler 3)" by code_simp
qed

lemma q1q_strict_priority_witness:
  "waiting (projr (q1q_exec (run8 (butlast two_frames)) MacRequest)) 2 = []"
proof (rule q1q_strict_priority)
  show "q1q_reach caps8 (run8 (butlast two_frames))" by (rule run8_reach) code_simp
  show "q1q_enabled (run8 (butlast two_frames)) MacRequest" by simp
  show "q1q_exec (run8 (butlast two_frames)) MacRequest
      = Inr (projr (q1q_exec (run8 (butlast two_frames)) MacRequest))" by simp
  show "length (sentOut (qat (run8 (butlast two_frames)) 3))
      < length (sentOut (qat (projr (q1q_exec (run8 (butlast two_frames)) MacRequest)) 3))"
    by code_simp
qed simp_all

lemma q1q_work_conserving_witness: "waiting (run8 [MacRequest]) 7 = []"
proof (rule q1q_work_conserving)
  show "q1q_reach caps8 (run8 [MacRequest])" by (rule run8_reach) code_simp
  show "packetsRequestedFromUs (sch (run8 [MacRequest]))
      > int (\<Sum>i<8. length (sentOut (qat (run8 [MacRequest]) i)) - qTaken (run8 [MacRequest]) i)"
    by code_simp
qed simp

lemma q1q_class_fifo_witness:
  "subseq (filter (\<lambda>f. frame_queue f = 3) (schedOut (sch (run8 (two_frames @ [ToScheduler 3])))))
     (filter (\<lambda>f. frame_queue f = 3) (arrived (run8 (two_frames @ [ToScheduler 3]))))"
proof (rule q1q_class_fifo)
  show "q1q_reach caps8 (run8 (two_frames @ [ToScheduler 3]))" by (rule run8_reach) code_simp
qed simp

end
