(* ===== verification/MacPort.thy ===== *)
theory MacPort
  imports EtherMACRuns Queue1q
begin

text \<open>
  A port of the process bus: the full duplex MAC and its external queue, a drop tail queue or the
  compound 802.1Q queue. The queue is reached through its interface and answers a request by sending
  a frame, which arrives at the MAC in a later event.
\<close>

section \<open>The MAC and its external queue\<close>

text \<open>What the port has put on the wire or is committed to: the log and a frame that waits for the gap or the pause to end.\<close>

definition committed :: "('p, 'q) mac \<Rightarrow> 'p EtherFrame list" where
  "committed s = mPhysOut s @
     (if mTransmitState s = WAIT_IFG_STATE \<or> mTransmitState s = PAUSE_STATE
      then (case mCurTxFrame s of Some f \<Rightarrow> [wire_frame s f] | None \<Rightarrow> []) else [])"

definition wire_of :: "('p, 'q) mac \<Rightarrow> 'p EtherFrame \<Rightarrow> 'p EtherFrame" where
  "wire_of s f = wire_frame s (own_src s (pad_frame f))"

lemma wire_frame_cong: "mAddress t = mAddress s \<Longrightarrow> mDescr t = mDescr s \<Longrightarrow> wire_frame t = wire_frame s"
  by (simp add: wire_frame_def fun_eq_iff)

lemma wire_of_cong: "mAddress t = mAddress s \<Longrightarrow> mDescr t = mDescr s \<Longrightarrow> wire_of t = wire_of s"
  using wire_frame_cong [of t s] by (intro ext) (simp add: wire_of_def own_src_def)

text \<open>The fields no message changes while the link is up.\<close>

definition same_port :: "('p, 'q) mac \<Rightarrow> ('p, 'q) mac \<Rightarrow> bool" where
  "same_port s t \<longleftrightarrow> mAddress t = mAddress s \<and> mDescr t = mDescr s \<and> mConnected t = mConnected s
     \<and> mDisabled t = mDisabled s \<and> mOperational t = mOperational s \<and> mChannelsDiffer t = mChannelsDiffer s"

definition link_up :: "('p, 'q) mac \<Rightarrow> bool" where
  "link_up s \<longleftrightarrow> mConnected s \<and> \<not> mDisabled s \<and> mOperational s \<and> \<not> mChannelsDiffer s"

lemma same_port_link_up: "same_port s t \<Longrightarrow> link_up t = link_up s"
  by (simp add: same_port_def link_up_def)

lemma committed_fields:
  assumes "mTransmitState t = mTransmitState s" and "mPhysOut t = mPhysOut s" and "mCurTxFrame t = mCurTxFrame s"
    and "mAddress t = mAddress s" and "mDescr t = mDescr s"
  shows "committed t = committed s"
  using assms wire_frame_cong [of t s] by (simp add: committed_def split: option.split)

lemma committed_cong: "same_sender s t \<Longrightarrow> committed t = committed s"
  by (rule committed_fields) (simp_all add: same_sender_def)

lemma scheduleEnd_shape:
  "scheduleEndPausePeriod par now n s = Inr t \<Longrightarrow> \<exists>w. t = s\<lparr>mEndPause := w, mTransmitState := PAUSE_STATE\<rparr>"
  "scheduleEndIFGPeriod par now s = Inr t \<Longrightarrow> \<exists>w. t = s\<lparr>mTransmitState := WAIT_IFG_STATE, mEndIFG := w\<rparr>"
  by (auto simp: scheduleEndPausePeriod_def scheduleEndIFGPeriod_def bindR_Inr_iff Let_def split: if_splits)

lemma pause_shape:
  assumes "processPauseCommand par now n s = Inr t"
  shows "(\<exists>w. t = s\<lparr>mEndPause := w\<rparr>) \<or> (\<exists>i. t = s\<lparr>mPauseUnitsRequested := i\<rparr>)
    \<or> ((mTransmitState s = TX_IDLE_STATE \<or> mTransmitState s = PAUSE_STATE)
        \<and> (\<exists>w. t = s\<lparr>mEndPause := w, mTransmitState := PAUSE_STATE\<rparr>))"
proof -
  consider (idle) "mTransmitState s = TX_IDLE_STATE" | (pause) "mTransmitState s = PAUSE_STATE"
    | (busy) "mTransmitState s \<noteq> TX_IDLE_STATE" "mTransmitState s \<noteq> PAUSE_STATE" by blast
  then show ?thesis
  proof cases
    case idle
    show ?thesis
    proof (cases "n > 0")
      case True
      then obtain w where "t = s\<lparr>mEndPause := w, mTransmitState := PAUSE_STATE\<rparr>"
        using assms idle scheduleEnd_shape(1) [of par now n s t] by (auto simp: processPauseCommand_def)
      then show ?thesis using idle by blast
    next
      case False
      then have "t = s\<lparr>mEndPause := mEndPause s\<rparr>"
        using assms idle by (simp add: processPauseCommand_def)
      then show ?thesis by blast
    qed
  next
    case pause
    show ?thesis
    proof (cases "n > 0")
      case True
      then obtain w where "t = s\<lparr>mEndPause := w, mTransmitState := PAUSE_STATE\<rparr>"
        using assms pause scheduleEnd_shape(1) [of par now n "s\<lparr>mEndPause := cancelEvent (mEndPause s)\<rparr>" t]
        by (auto simp: processPauseCommand_def)
      then show ?thesis using pause by blast
    next
      case False
      then have "t = s\<lparr>mEndPause := cancelEvent (mEndPause s)\<rparr>"
        using assms pause by (simp add: processPauseCommand_def)
      then show ?thesis by blast
    qed
  next
    case busy
    then have "t = s\<lparr>mPauseUnitsRequested := n\<rparr>"
      using assms by (simp add: processPauseCommand_def)
    then show ?thesis by blast
  qed
qed

lemma committed_pause:
  "committed (s\<lparr>mEndPause := w\<rparr>) = committed s" "committed (s\<lparr>mPauseUnitsRequested := i\<rparr>) = committed s"
  "mTransmitState s = PAUSE_STATE \<or> (mTransmitState s = TX_IDLE_STATE \<and> mCurTxFrame s = None)
   \<Longrightarrow> committed (s\<lparr>mEndPause := w, mTransmitState := PAUSE_STATE\<rparr>) = committed s"
  using wire_frame_cong [of "s\<lparr>mEndPause := w\<rparr>" s] wire_frame_cong [of "s\<lparr>mPauseUnitsRequested := i\<rparr>" s]
    wire_frame_cong [of "s\<lparr>mEndPause := w, mTransmitState := PAUSE_STATE\<rparr>" s]
  by (auto simp: committed_def split: option.split)

text \<open>A message other than a frame from the queue: the queue is asked for a frame when one has left.\<close>

lemma port_network:
  assumes "processMsgFromNetwork par now msg d s = Inr t" and "link_up s" and "tx_inv s"
  shows "same_port s t \<and> mTxQueue t = mTxQueue s \<and> mCurTxFrame t = mCurTxFrame s \<and> committed t = committed s"
proof (cases msg)
  case (EtherFrameMsg f)
  consider "same_sender s t"
    | n u where "same_sender s u" "processPauseCommand par now n u = Inr t"
    using network_same_sender [of par now f d s t] assms(1) EtherFrameMsg by auto
  then show ?thesis
  proof cases
    case 1
    then show ?thesis using committed_cong [OF 1] by (simp add: same_sender_def same_port_def)
  next
    case 2
    have u: "tx_inv u" using 2(1) assms(3) by (simp add: same_sender_def tx_inv_def)
    have "same_port u t \<and> mTxQueue t = mTxQueue u \<and> mCurTxFrame t = mCurTxFrame u \<and> committed t = committed u"
      using pause_shape [OF 2(2)] committed_pause(1,2) [where s = u] committed_pause(3) [of u] u
      by (auto simp: same_port_def tx_inv_def)
    then show ?thesis using 2(1) committed_cong [OF 2(1)] by (simp add: same_sender_def same_port_def)
  qed
qed (use assms in \<open>auto simp: processMsgFromNetwork_def link_up_def split: if_splits\<close>)

lemma port_beginSendFrames:
  assumes "beginSendFrames par now s = Inr t"
    and "mTransmitState s = WAIT_IFG_STATE \<or> mTransmitState s = PAUSE_STATE"
  shows "same_port s t \<and> mTxQueue t = mTxQueue s \<and> mCurTxFrame t = mCurTxFrame s \<and> committed t = committed s"
proof (cases "mCurTxFrame s")
  case None
  then have "t = s\<lparr>mTransmitState := TX_IDLE_STATE\<rparr>" using assms(1) by (simp add: beginSendFrames_def)
  then show ?thesis using None by (simp add: same_port_def committed_def)
next
  case (Some f)
  then obtain w where "t = s\<lparr>mPhysOut := mPhysOut s @ [wire_frame s f], mEndTx := w, mTransmitState := TRANSMITTING_STATE\<rparr>"
    using assms(1) by (auto simp: beginSendFrames_def startFrameTransmission_def bindR_Inr_iff Let_def split: option.splits)
  then show ?thesis using Some assms(2) by (simp add: same_port_def committed_def)
qed

lemma port_endTx:
  assumes "handleEndTxPeriod ops par now s = Inr t" and "mTxQueue s = Ext q"
  shows "same_port s t \<and> mTxQueue t = Ext (request_if_none ops q) \<and> mCurTxFrame s \<noteq> None \<and> mCurTxFrame t = None
    \<and> committed t = committed s"
proof -
  obtain f where st: "mTransmitState s = TRANSMITTING_STATE" and f: "mCurTxFrame s = Some f"
    using assms(1) by (auto simp: handleEndTxPeriod_def split: if_splits option.splits)
  define u where "u = (count_sent f s)\<lparr>mCurTxFrame := None, mLastTxFinishTime := now, mTxQueue := Ext (request_if_none ops q)\<rparr>"
  have "mTxQueue (count_sent f s) = Ext q" using assms(2) by simp
  then have r: "(if mPauseUnitsRequested u > 0
      then bindR (scheduleEndPausePeriod par now (mPauseUnitsRequested u) u) (\<lambda>v. Inr (v\<lparr>mPauseUnitsRequested := 0\<rparr>))
      else scheduleEndIFGPeriod par now u) = Inr t"
    using assms(1) st f by (auto simp: handleEndTxPeriod_def getNextFrameFromQueue_def u_def Let_def split: if_splits)
  have u: "same_port s u" "mPhysOut u = mPhysOut s" "mCurTxFrame u = None"
    by (simp_all add: u_def same_port_def count_sent_def)
  have "same_port u t \<and> mTxQueue t = mTxQueue u \<and> mCurTxFrame t = None \<and> committed t = mPhysOut u"
  proof (cases "mPauseUnitsRequested u > 0")
    case True
    then obtain w where "t = u\<lparr>mEndPause := w, mTransmitState := PAUSE_STATE, mPauseUnitsRequested := 0\<rparr>"
      using r scheduleEnd_shape(1) [of par now "mPauseUnitsRequested u" u] by (auto simp: bindR_Inr_iff)
    then show ?thesis using u(3) by (simp add: committed_def same_port_def)
  next
    case False
    then obtain w where "t = u\<lparr>mTransmitState := WAIT_IFG_STATE, mEndIFG := w\<rparr>"
      using r scheduleEnd_shape(2) [of par now u t] by auto
    then show ?thesis using u(3) by (simp add: committed_def same_port_def)
  qed
  moreover have "committed s = mPhysOut s" using st by (simp add: committed_def)
  ultimately show ?thesis using u f by (simp add: same_port_def) (simp add: u_def)
qed

text \<open>
  Runs of a port: messages to the MAC, deliveries of what its queue has sent, in order, and steps of the
  queue of its own accord. \<open>k\<close> counts the deliveries.
\<close>

fun from_upper :: "'p mac_msg \<Rightarrow> bool" where
  "from_upper (FromUpperLayer f) = True"
| "from_upper _ = False"

inductive port_reach ::
    "('q, 'p EtherFrame) iqueue \<Rightarrow> ('q \<Rightarrow> 'p EtherFrame list) \<Rightarrow> ('q \<Rightarrow> 'q \<Rightarrow> bool) \<Rightarrow> 'q mac_par
     \<Rightarrow> ('p, 'q) mac \<Rightarrow> nat \<Rightarrow> bool" for ops sent qstep par where
  port_start: "mac_initialize ops par ph now ctr addr True = Inr (ctr', s) \<Longrightarrow> link_up s
    \<Longrightarrow> port_reach ops sent qstep par s 0"
| port_message: "port_reach ops sent qstep par s k \<Longrightarrow> due now m s \<Longrightarrow> \<not> from_upper m
    \<Longrightarrow> mac_handleMessage ops par ph now m s = Inr t \<Longrightarrow> port_reach ops sent qstep par t k"
| port_delivery: "port_reach ops sent qstep par s k \<Longrightarrow> mTxQueue s = Ext q \<Longrightarrow> k < length (sent q)
    \<Longrightarrow> mac_handleMessage ops par ph now (FromUpperLayer (sent q ! k)) s = Inr t
    \<Longrightarrow> port_reach ops sent qstep par t (Suc k)"
| port_queue: "port_reach ops sent qstep par s k \<Longrightarrow> mTxQueue s = Ext q \<Longrightarrow> qstep q q'
    \<Longrightarrow> port_reach ops sent qstep par (s\<lparr>mTxQueue := Ext q'\<rparr>) k"

text \<open>
  What the MAC relies on: a request is answered by exactly one packet, now or later, and nothing
  is sent that was not requested.
\<close>

locale packet_source =
  fixes ops :: "('q, 'p EtherFrame) iqueue"
    and sent :: "'q \<Rightarrow> 'p EtherFrame list"
    and qstep :: "'q \<Rightarrow> 'q \<Rightarrow> bool"
    and good :: "'q \<Rightarrow> bool"
  assumes good_request: "\<And>q. good q \<Longrightarrow> good (iq_requestPacket ops q)"
    and good_step: "\<And>q q'. good q \<Longrightarrow> qstep q q' \<Longrightarrow> good q'"
    and pending_nonneg: "\<And>q. good q \<Longrightarrow> 0 \<le> iq_getNumPendingRequests ops q"
    and request_answered: "\<And>q. good q \<Longrightarrow> \<exists>ms. sent (iq_requestPacket ops q) = sent q @ ms
      \<and> iq_getNumPendingRequests ops (iq_requestPacket ops q) + int (length ms) = iq_getNumPendingRequests ops q + 1"
    and step_answers: "\<And>q q'. good q \<Longrightarrow> qstep q q' \<Longrightarrow> \<exists>ms. sent q' = sent q @ ms
      \<and> iq_getNumPendingRequests ops q' + int (length ms) = iq_getNumPendingRequests ops q"
begin

definition credit :: "'q \<Rightarrow> nat \<Rightarrow> int" where
  "credit q k = iq_getNumPendingRequests ops q + int (length (sent q)) - int k"

definition port_inv :: "('p, 'q) mac \<Rightarrow> nat \<Rightarrow> bool" where
  "port_inv s k \<longleftrightarrow> mac_inv s \<and> link_up s \<and> (\<exists>q. mTxQueue s = Ext q \<and> good q \<and> k \<le> length (sent q)
     \<and> credit q k + (if mCurTxFrame s = None then 0 else 1) = 1
     \<and> map (wire_of s) (take k (sent q)) = committed s)"

lemma request_if_none_credit:
  assumes "good q" and "k \<le> length (sent q)" and "credit q k = 0"
  shows "good (request_if_none ops q) \<and> credit (request_if_none ops q) k = 1
    \<and> k \<le> length (sent (request_if_none ops q)) \<and> take k (sent (request_if_none ops q)) = take k (sent q)"
proof -
  have "iq_getNumPendingRequests ops q = 0"
    using assms pending_nonneg [OF assms(1)] by (simp add: credit_def)
  then show ?thesis
    using request_answered [OF assms(1)] good_request [OF assms(1)] assms(2,3)
    by (auto simp: request_if_none_def credit_def)
qed

lemma port_inv_start:
  assumes "mac_initialize ops par ph now ctr addr True = Inr (ctr', s)" and "link_up s"
    and "mp_queue par = Some q0" and "good q0" and "sent q0 = []" and "iq_getNumPendingRequests ops q0 = 0"
  shows "port_inv s 0"
proof -
  obtain s0 u where b: "mac_base_initialize0 ops par ph ctr (mac_new addr) = Inr (ctr', s0)"
    and u: "beginSendFrames par now (s0\<lparr>mSubs := map resolveMultiMACAddress (mp_multiCastGroupAddr par)\<rparr>) = Inr u"
    and s: "s = updateOperationalFlag True u"
    using assms(1) by (auto simp: mac_initialize_def bindR_Inr_iff Let_def split: if_splits)
  have n: "mPhysOut (mac_new addr :: ('p, 'q) mac) = []" by (simp add: mac_new_def)
  note sh = base_initialize_shape [OF b n]
  have "mTxQueue s0 = Ext (request_if_none ops q0)"
    by (rule sh(8)) (simp_all add: mac_new_def assms(3))
  then have "mTxQueue s = Ext (request_if_none ops q0)" "mCurTxFrame s = None" "committed s = []"
    using u sh(1,7) by (auto simp: beginSendFrames_def s updateOperationalFlag_def committed_def)
  then show ?thesis
    using request_if_none_credit [of q0 0] assms(2,4-6) mac_inv_initialize [OF assms(1)]
    by (auto simp: port_inv_def credit_def)
qed

lemma port_invI:
  assumes "mac_inv t" and "same_port s t" and "link_up s" and "mTxQueue t = Ext q" and "good q" and "k \<le> length (sent q)"
    and "credit q k + (if mCurTxFrame t = None then 0 else 1) = 1"
    and "map (wire_of s) (take k (sent q)) = committed t"
  shows "port_inv t k"
  using assms wire_of_cong [of t s] same_port_link_up [of s t] by (simp add: port_inv_def same_port_def)

lemma port_inv_message:
  assumes "port_inv s k" and "due now m s" and "\<not> from_upper m" and "mac_handleMessage ops par ph now m s = Inr t"
  shows "port_inv t k"
proof -
  obtain q where q: "mTxQueue s = Ext q" "good q" "k \<le> length (sent q)"
      "credit q k + (if mCurTxFrame s = None then 0 else 1) = 1" "map (wire_of s) (take k (sent q)) = committed s"
    and i: "mac_inv s" and l: "link_up s"
    using assms(1) by (auto simp: port_inv_def)
  have tx: "tx_inv s" using i by (simp add: mac_inv_def)
  have t: "mac_inv t"
    by (rule mac_inv_handleMessage [OF assms(4) i]) (use assms(2) in auto)
  have keep: "port_inv t k" if "same_port s t \<and> mTxQueue t = mTxQueue s \<and> mCurTxFrame t = mCurTxFrame s \<and> committed t = committed s"
    by (rule port_invI [OF t _ l]) (use that q in simp_all)
  show ?thesis
  proof (cases m)
    case EndTx
    then have e: "handleEndTxPeriod ops par now (s\<lparr>mEndTx := cancelEvent (mEndTx s)\<rparr>) = Inr t"
      using assms(4) l by (simp add: mac_handleMessage_def handleSelfMessage_def link_up_def)
    have c: "committed (s\<lparr>mEndTx := cancelEvent (mEndTx s)\<rparr>) = committed s" by (rule committed_fields) simp_all
    have p: "same_port s t \<and> mTxQueue t = Ext (request_if_none ops q) \<and> mCurTxFrame s \<noteq> None \<and> mCurTxFrame t = None
        \<and> committed t = committed s"
      using port_endTx [OF e] q(1) c by (simp add: same_port_def)
    then have "credit q k = 0" using q(4) by (auto split: if_splits)
    note r = request_if_none_credit [OF q(2,3) this]
    show ?thesis
      by (rule port_invI [OF t _ l, where q = "request_if_none ops q"]) (use p r q(5) in simp_all)
  next
    case EndIFG
    then have st: "mTransmitState s = WAIT_IFG_STATE"
      and "beginSendFrames par now (s\<lparr>mEndIFG := cancelEvent (mEndIFG s)\<rparr>) = Inr t"
      using assms(4) l by (auto simp: mac_handleMessage_def handleSelfMessage_def handleEndIFGPeriod_def link_up_def split: if_splits)
    moreover have "committed (s\<lparr>mEndIFG := cancelEvent (mEndIFG s)\<rparr>) = committed s" by (rule committed_fields) simp_all
    ultimately show ?thesis
      using port_beginSendFrames [of par now "s\<lparr>mEndIFG := cancelEvent (mEndIFG s)\<rparr>" t]
      by (intro keep) (simp add: same_port_def)
  next
    case EndPause
    then have st: "mTransmitState s = PAUSE_STATE"
      and "beginSendFrames par now (s\<lparr>mEndPause := cancelEvent (mEndPause s)\<rparr>) = Inr t"
      using assms(4) l by (auto simp: mac_handleMessage_def handleSelfMessage_def handleEndPausePeriod_def link_up_def split: if_splits)
    moreover have "committed (s\<lparr>mEndPause := cancelEvent (mEndPause s)\<rparr>) = committed s" by (rule committed_fields) simp_all
    ultimately show ?thesis
      using port_beginSendFrames [of par now "s\<lparr>mEndPause := cancelEvent (mEndPause s)\<rparr>" t]
      by (intro keep) (simp add: same_port_def)
  next
    case (FromNetwork msg d)
    then have "processMsgFromNetwork par now msg d s = Inr t"
      using assms(4) l by (simp add: mac_handleMessage_def link_up_def)
    then show ?thesis using port_network l tx keep by blast
  qed (use assms(3) in simp)
qed

lemma port_delivery_shape:
  assumes "port_inv s k" and "mTxQueue s = Ext q" and "k < length (sent q)"
  shows "mCurTxFrame s = None" and "credit q k = 1"
proof -
  have c: "credit q k + (if mCurTxFrame s = None then 0 else 1) = 1" and "good q"
    using assms(1,2) by (auto simp: port_inv_def)
  moreover have "1 \<le> credit q k" using pending_nonneg [OF \<open>good q\<close>] assms(3) by (simp add: credit_def)
  ultimately show "mCurTxFrame s = None" and "credit q k = 1" by (auto split: if_splits)
qed

lemma port_inv_delivery:
  assumes "port_inv s k" and "mTxQueue s = Ext q" and "k < length (sent q)"
    and "mac_handleMessage ops par ph now (FromUpperLayer (sent q ! k)) s = Inr t"
  shows "port_inv t (Suc k)"
proof -
  define f where "f = sent q ! k"
  note d = port_delivery_shape [OF assms(1-3)]
  have q: "good q" "map (wire_of s) (take k (sent q)) = committed s" and i: "mac_inv s" and l: "link_up s"
    using assms(1,2) by (auto simp: port_inv_def)
  have t: "mac_inv t" by (rule mac_inv_handleMessage [OF assms(4) i]) simp_all
  define u where "u = (if isPauseFrame f then s else count_in numFramesFromHL_update 1 s)\<lparr>mCurTxFrame := Some (own_src s (pad_frame f))\<rparr>"
  have us: "same_port s u" "mTxQueue u = Ext q" "mPhysOut u = mPhysOut s" "mTransmitState u = mTransmitState s"
    using assms(2) by (simp_all add: u_def same_port_def)
  have cu: "mCurTxFrame u = Some (own_src s (pad_frame f))" by (simp add: u_def)
  have w: "wire_frame u = wire_frame s" by (rule wire_frame_cong) (use us(1) in \<open>simp_all add: same_port_def\<close>)
  have r: "(if mTransmitState u = TX_IDLE_STATE then startFrameTransmission par now u else Inr u) = Inr t"
    using assms(2,4) l d(1)
    by (auto simp: mac_handleMessage_def link_up_def processFrameFromUpperLayer_Inr store_frame_def f_def [symmetric] u_def
        split: if_splits)
  have cs: "committed s = mPhysOut s" using d(1) by (simp add: committed_def)
  have "same_port s t \<and> mTxQueue t = Ext q \<and> mCurTxFrame t \<noteq> None \<and> committed t = committed s @ [wire_of s f]"
  proof (cases "mTransmitState s = TX_IDLE_STATE")
    case True
    then obtain ww where "t = u\<lparr>mPhysOut := mPhysOut u @ [wire_frame u (own_src s (pad_frame f))], mEndTx := ww,
        mTransmitState := TRANSMITTING_STATE\<rparr>"
      using r us(4) by (auto simp: startFrameTransmission_def bindR_Inr_iff Let_def u_def split: option.splits)
    then show ?thesis using us cs by (simp add: committed_def same_port_def w wire_of_def cu)
  next
    case False
    then have "t = u" using r us(4) by simp
    moreover have "mTransmitState s = WAIT_IFG_STATE \<or> mTransmitState s = PAUSE_STATE"
      using False i d(1) by (cases "mTransmitState s") (auto simp: mac_inv_def tx_inv_def)
    ultimately show ?thesis using us cs by (auto simp: committed_def w wire_of_def cu)
  qed
  then show ?thesis
    using port_invI [OF t, of s q "Suc k"] l q assms(3) d(2)
    by (auto simp: credit_def take_Suc_conv_app_nth f_def)
qed

lemma port_inv_queue:
  assumes "port_inv s k" and "mTxQueue s = Ext q" and "qstep q q'"
  shows "port_inv (s\<lparr>mTxQueue := Ext q'\<rparr>) k"
proof -
  have q: "good q" "k \<le> length (sent q)" "credit q k + (if mCurTxFrame s = None then 0 else 1) = 1"
      "map (wire_of s) (take k (sent q)) = committed s" and l: "link_up s" and i: "mac_inv s"
    using assms(1,2) by (auto simp: port_inv_def)
  obtain ms where ms: "sent q' = sent q @ ms"
      "iq_getNumPendingRequests ops q' + int (length ms) = iq_getNumPendingRequests ops q"
    using step_answers [OF q(1) assms(3)] by blast
  have "mac_inv (s\<lparr>mTxQueue := Ext q'\<rparr>)" using i assms(2) by (simp add: mac_inv_defs)
  moreover have "committed (s\<lparr>mTxQueue := Ext q'\<rparr>) = committed s" by (rule committed_fields) simp_all
  ultimately show ?thesis
    using port_invI [of "s\<lparr>mTxQueue := Ext q'\<rparr>" s q' k] q l ms good_step [OF q(1) assms(3)]
    by (simp add: same_port_def credit_def)
qed

lemma port_reach_inv:
  assumes "port_reach ops sent qstep par s k"
    and "mp_queue par = Some q0" and "good q0" and "sent q0 = []" and "iq_getNumPendingRequests ops q0 = 0"
  shows "port_inv s k"
  using assms(1)
proof (induction rule: port_reach.induct)
  case (port_start ph now ctr addr ctr' s)
  then show ?case by (rule port_inv_start) (use assms(2-5) in simp_all)
next
  case (port_message s k now m ph t)
  show ?case using port_message.IH port_message.hyps(2-4) by (rule port_inv_message)
next
  case (port_delivery s k q ph now t)
  show ?case using port_delivery.IH port_delivery.hyps(2-4) by (rule port_inv_delivery)
next
  case (port_queue s k q q')
  show ?case using port_queue.IH port_queue.hyps(2,3) by (rule port_inv_queue)
qed

text \<open>The two facts a property of a port needs.\<close>

lemma port_order:
  assumes "port_reach ops sent qstep par s k"
    and "mp_queue par = Some q0" and "good q0" and "sent q0 = []" and "iq_getNumPendingRequests ops q0 = 0"
  shows "\<exists>q. mTxQueue s = Ext q \<and> k \<le> length (sent q)
    \<and> map (wire_of s) (take k (sent q)) = committed s
    \<and> iq_getNumPendingRequests ops q + int (length (sent q) - k) + (if mCurTxFrame s = None then 0 else 1) = 1
    \<and> (k < length (sent q) \<longrightarrow> mCurTxFrame s = None)"
proof -
  have i: "port_inv s k" by (rule port_reach_inv [OF assms])
  then obtain q where "mTxQueue s = Ext q" by (auto simp: port_inv_def)
  then show ?thesis using i port_delivery_shape(1) [OF i, of q] by (auto simp: port_inv_def credit_def of_nat_diff)
qed

end

section \<open>Drop tail queues and the 802.1Q queue as sources\<close>

definition dtq_arrival :: "('m droptail, 'm) pqueue \<Rightarrow> ('m droptail, 'm) pqueue \<Rightarrow> bool" where
  "dtq_arrival q q' \<longleftrightarrow> (\<exists>f. q' = fst (pq_handleMessage dt_enqueue q f))"

text \<open>The compound module passes the calls on to its scheduler.\<close>

definition on_sched :: "('p port_sched \<Rightarrow> 'p port_sched) \<Rightarrow> 'p q1q \<Rightarrow> 'p q1q" where
  "on_sched f q = q\<lparr>sch := f (sch q)\<rparr>"

definition q1q_ops :: "('p q1q, 'p EtherFrame) iqueue" where
  "q1q_ops =
     \<lparr>iq_getNumPendingRequests = (\<lambda>q. sched_getNumPendingRequests (sch q)),
      iq_requestPacket = on_sched (sched_requestPacket port_schedulePacket),
      iq_isEmpty = (\<lambda>q. sched_isEmpty dtq_isEmpty (sch q)),
      iq_pop = (\<lambda>q. case sched_pop dtq_isEmpty (pq_pop dt_dequeue) (sch q) of (s, m) \<Rightarrow> (q\<lparr>sch := s\<rparr>, m)),
      iq_clear = (\<lambda>q. map_option (\<lambda>s. q\<lparr>sch := s\<rparr>) (sched_clear (pq_clear dt_dequeue) (sch q)))\<rparr>"

definition q1q_sent :: "'p q1q \<Rightarrow> 'p EtherFrame list" where
  "q1q_sent q = schedOut (sch q)"

definition q1q_step :: "'p q1q \<Rightarrow> 'p q1q \<Rightarrow> bool" where
  "q1q_step q q' \<longleftrightarrow> (\<exists>e. e \<noteq> MacRequest \<and> q1q_enabled q e \<and> q1q_exec q e = Inr q')"

interpretation dtsrc: packet_source dtq_ops sentOut dtq_arrival "\<lambda>q. 0 \<le> packetRequested q"
proof unfold_locales
  fix q q' :: "('p EtherFrame droptail, 'p EtherFrame) pqueue"
  assume g: "0 \<le> packetRequested q"
  show "0 \<le> packetRequested (iq_requestPacket dtq_ops q)"
    and "\<exists>ms. sentOut (iq_requestPacket dtq_ops q) = sentOut q @ ms
      \<and> iq_getNumPendingRequests dtq_ops (iq_requestPacket dtq_ops q) + int (length ms) = iq_getNumPendingRequests dtq_ops q + 1"
    using g by (auto simp: dtq_ops_def pq_requestPacket_def split: prod.split option.split)
  show "0 \<le> iq_getNumPendingRequests dtq_ops q" using g by (simp add: dtq_ops_def)
  assume "dtq_arrival q q'"
  then obtain f where "q' = fst (pq_handleMessage dt_enqueue q f)" by (auto simp: dtq_arrival_def)
  then show "0 \<le> packetRequested q'"
    and "\<exists>ms. sentOut q' = sentOut q @ ms
      \<and> iq_getNumPendingRequests dtq_ops q' + int (length ms) = iq_getNumPendingRequests dtq_ops q"
    using g by (auto simp: dtq_ops_def pq_handleMessage_def dt_enqueue_def Let_def)
qed

interpretation q1src: packet_source q1q_ops q1q_sent q1q_step q1q_inv
proof unfold_locales
  fix q q' :: "'p q1q"
  assume g: "q1q_inv q"
  show "q1q_inv (iq_requestPacket q1q_ops q)"
    using request_inv [OF g] by (simp add: q1q_ops_def on_sched_def)
  show "0 \<le> iq_getNumPendingRequests q1q_ops q"
    using g by (auto simp: q1q_ops_def q1q_inv_def sched_inv_def sched_getNumPendingRequests_def sum_nonneg)
  show "\<exists>ms. q1q_sent (iq_requestPacket q1q_ops q) = q1q_sent q @ ms
      \<and> iq_getNumPendingRequests q1q_ops (iq_requestPacket q1q_ops q) + int (length ms) = iq_getNumPendingRequests q1q_ops q + 1"
    by (simp add: q1q_ops_def on_sched_def q1q_sent_def sched_getNumPendingRequests_def sched_requestPacket_def
        Let_def split: prod.split)
  assume "q1q_step q q'"
  then obtain e where e: "e \<noteq> MacRequest" "q1q_enabled q e" "q1q_exec q e = Inr q'" by (auto simp: q1q_step_def)
  show "q1q_inv q'" by (rule q1q_inv_step [OF g e(2,3)])
  show "\<exists>ms. q1q_sent q' = q1q_sent q @ ms
      \<and> iq_getNumPendingRequests q1q_ops q' + int (length ms) = iq_getNumPendingRequests q1q_ops q"
    using e(1,3)
    by (cases e) (auto simp: q1q_ops_def q1q_sent_def sched_getNumPendingRequests_def sched_packetEnqueued_def
        sched_handleMessage_def Let_def bindR_Inr_iff split: prod.splits if_splits)
qed

section \<open>Shutting down\<close>

context ipassive_queue
begin

lemma flush_ext_returns:
  assumes "iq_isEmpty ops = ip_isEmpty" and "iq_pop ops = ip_pop"
  shows "\<exists>q'. flush_ext ops q = Some q' \<and> frames q' = {#}"
proof (induction "size (frames q)" arbitrary: q rule: less_induct)
  case less
  show ?case
  proof (cases "frames q = {#}")
    case True
    then show ?thesis using assms by (subst flush_ext.simps) (simp add: ip_isEmpty_iff)
  next
    case False
    then obtain q' m where "ip_pop q = (q', Some m)" and "frames q = add_mset m (frames q')"
      using ip_pop_nonempty by blast
    then show ?thesis using less [of q'] False assms by (subst flush_ext.simps) (simp add: ip_isEmpty_iff)
  qed
qed

end

interpretation dtip: ipassive_queue "iq_isEmpty dtq_ops" "iq_pop dtq_ops" "iq_clear dtq_ops"
    "iq_requestPacket dtq_ops" "iq_getNumPendingRequests dtq_ops" dtq_frames
  using dtq.ipassive_queue_axioms by (simp add: dtq_ops_def)

interpretation q1ip: ipassive_queue "iq_isEmpty q1q_ops" "iq_pop q1q_ops" "iq_clear q1q_ops"
    "iq_requestPacket q1q_ops" "iq_getNumPendingRequests q1q_ops" "\<lambda>q. dtq.sched_frames (sch q)"
proof unfold_locales
  fix q :: "'p q1q"
  show "iq_isEmpty q1q_ops q \<longleftrightarrow> dtq.sched_frames (sch q) = {#}"
    using prioq.ip_isEmpty_iff [of "sch q"] by (simp add: q1q_ops_def)
  show "\<exists>q' m. iq_pop q1q_ops q = (q', Some m) \<and> dtq.sched_frames (sch q) = add_mset m (dtq.sched_frames (sch q'))"
    if "dtq.sched_frames (sch q) \<noteq> {#}"
    using prioq.ip_pop_nonempty [OF that] by (auto simp: q1q_ops_def)
  show "\<exists>q'. iq_clear q1q_ops q = Some q' \<and> dtq.sched_frames (sch q') = {#} \<and> iq_getNumPendingRequests q1q_ops q' = 0"
    using prioq.ip_clear_spec [of "sch q"] by (auto simp: q1q_ops_def)
  show "iq_getNumPendingRequests q1q_ops q \<le> iq_getNumPendingRequests q1q_ops (iq_requestPacket q1q_ops q)
      \<and> iq_getNumPendingRequests q1q_ops (iq_requestPacket q1q_ops q) \<le> iq_getNumPendingRequests q1q_ops q + 1"
    using prioq.ip_request_pending [of "sch q"] by (simp add: q1q_ops_def on_sched_def)
qed

text \<open>Every stage of every operation returns, for every queue that keeps the contract.\<close>

lemma operation_returns:
  assumes "ipassive_queue (iq_isEmpty ops) (iq_pop ops) (iq_clear ops) (iq_requestPacket ops)
      (iq_getNumPendingRequests ops) frames"
  shows "\<exists>r. mac_handleOperationStage ops par ph ctr oper stage s = Some r"
proof -
  have f: "flush_ext ops q \<noteq> None" for q using ipassive_queue.flush_ext_returns [OF assms refl refl, of q] by auto
  have c: "iq_clear ops q \<noteq> None" for q using ipassive_queue.ip_clear_spec [OF assms, of q] by auto
  have fc: "Option.bind (flush_ext ops q) (iq_clear ops) \<noteq> None" for q
    using f [of q] c by (cases "flush_ext ops q") auto
  have b: "macbase_handleOperationStage ops oper stage u \<noteq> None" for u
    using fc c by (cases oper) (auto simp: flushQueue_def clearQueue_def split: MacQueue.split)
  have d: "down_or_error ops oper stage u \<noteq> None" for u
    using b by (auto simp: down_or_error_def split: sum.split)
  show ?thesis
    using b d by (cases oper) (auto simp: Let_def split: sum.split)
qed

lemma flush_dtq_eq: "flush_ext dtq_ops q = Some (q\<lparr>store := (store q)\<lparr>dtQueue := []\<rparr>\<rparr>)"
proof (induction "dtQueue (store q)" arbitrary: q)
  case Nil
  then show ?case by (subst flush_ext.simps) (simp add: dtq_ops_def dtq_isEmpty_iff)
next
  case (Cons f fs)
  then have "dtQueue (store q) = f # fs" by simp
  then have p: "iq_pop dtq_ops q = (q\<lparr>store := (store q)\<lparr>dtQueue := fs\<rparr>\<rparr>, Some f)"
    by (simp add: dtq_ops_def pq_pop_def dt_dequeue_def)
  show ?case
    using Cons(1) [of "q\<lparr>store := (store q)\<lparr>dtQueue := fs\<rparr>\<rparr>"] Cons(2) [symmetric] p
    by (subst flush_ext.simps) (simp add: dtq_isEmpty_iff dtq_ops_def)
qed

lemma clear_dtq_eq: "dtQueue (store q) = [] \<Longrightarrow> iq_clear dtq_ops q = Some (q\<lparr>packetRequested := 0\<rparr>)"
  unfolding dtq_ops_def pq_clear_def by (simp, subst drain.simps, simp add: dt_dequeue_def)

section \<open>An example\<close>

definition p_frame :: "unit EtherFrame" where
  "p_frame = (w_frame 100)\<lparr>fr_src := 1\<rparr>"

type_synonym w_queue = "(unit EtherFrame droptail, unit EtherFrame) pqueue"

definition d0 :: w_queue where
  "d0 = pq_initialize \<lparr>frameCapacity = 0, dtQueue = []\<rparr>"

definition port0 :: w_mac where
  "port0 = w0\<lparr>mTxQueue := Ext (d0\<lparr>packetRequested := 1\<rparr>)\<rparr>"

lemma port0_start: "mac_initialize dtq_ops (w_par (Some d0)) w_phys 0 5 ''auto'' True = Inr (6, port0)"
  by (simp add: mac_initialize_def mac_base_initialize0_def initializeMACAddress_def w_auto w_subs
     mac_new_def initializeFlags_def initializeQueueModule_def readChannelParameters_def adopt_channel_def Let_def
     w_phys_def phys_connected_def channel_off_def channel_rate_def w_find beginSendFrames_def updateOperationalFlag_def
     w0_def port0_def request_if_none_def dtq_ops_def d0_def pq_initialize_def pq_requestPacket_def dt_dequeue_def)

definition d1 :: w_queue where
  "d1 = fst (pq_handleMessage dt_enqueue (d0\<lparr>packetRequested := 1\<rparr>) p_frame)"

definition port1 :: w_mac where
  "port1 = port0\<lparr>mTxQueue := Ext d1, mTransmitState := TRANSMITTING_STATE, mCurTxFrame := Some p_frame,
     mEndTx := \<lparr>tm_kind = ENDTRANSMISSION, tm_at = Some 8640000\<rparr>, mPhysOut := [p_frame\<lparr>fr_byteLength := 108\<rparr>],
     mStats := initializeStatistics\<lparr>numFramesFromHL := 1\<rparr>\<rparr>"

lemma d1_sent: "sentOut d1 = [p_frame]"
  by (simp add: d1_def d0_def pq_handleMessage_def pq_initialize_def Let_def)

lemma port1_step:
  "mac_handleMessage dtq_ops (w_par (Some d0)) w_phys 0 (FromUpperLayer p_frame) (port0\<lparr>mTxQueue := Ext d1\<rparr>) = Inr port1"
  by (simp add: w_eval port1_def port0_def p_frame_def w_defs)

definition d2 :: w_queue where
  "d2 = fst (pq_handleMessage dt_enqueue d1 p_frame)"

lemma d2_queue: "dtQueue (store d2) = [p_frame]"
  by (simp add: d2_def d1_def d0_def pq_handleMessage_def pq_initialize_def dt_enqueue_def Let_def)

lemma port2_reach: "port_reach dtq_ops sentOut dtq_arrival (w_par (Some d0)) (port1\<lparr>mTxQueue := Ext d2\<rparr>) 1"
proof -
  have "link_up port0" by (simp add: link_up_def port0_def w0_def mac_new_def)
  then have 0: "port_reach dtq_ops sentOut dtq_arrival (w_par (Some d0)) port0 0" by (rule port_start [OF port0_start])
  have "dtq_arrival (d0\<lparr>packetRequested := 1\<rparr>) d1" by (auto simp: dtq_arrival_def d1_def)
  then have 1: "port_reach dtq_ops sentOut dtq_arrival (w_par (Some d0)) (port0\<lparr>mTxQueue := Ext d1\<rparr>) 0"
    by (intro port_queue [OF 0]) (simp_all add: port0_def)
  have 2: "port_reach dtq_ops sentOut dtq_arrival (w_par (Some d0)) port1 (Suc 0)"
    by (rule port_delivery [OF 1, of d1 w_phys 0]) (use port1_step in \<open>simp_all add: d1_sent\<close>)
  have "dtq_arrival d1 d2" by (auto simp: dtq_arrival_def d2_def)
  then show ?thesis using port_queue [OF 2, of d1 d2] by (simp add: port1_def)
qed

text \<open>The same with the 802.1Q queue: a frame goes through classifier, queue and scheduler.\<close>

definition q0 :: "unit q1q" where
  "q0 = q1q_init (replicate 8 0)"

definition q1 :: "unit q1q" where
  "q1 = on_sched (sched_requestPacket port_schedulePacket) q0"

definition portq0 :: "(unit, unit q1q) mac" where
  "portq0 = (mac_new (mac_str 11725260718086))\<lparr>mDescr := etherDescrs ! 1, mAddress := 11725260718086, mConnected := True,
     mDuplexMode := True, mTxQueue := Ext q1, mChannel := outTrChannel w_phys, mIfEntry := Some (True, 100000000),
     mOperational := True, mSubs := 1154490630145 # replicate 7 0\<rparr>"

lemma q0_pending: "sched_getNumPendingRequests (sch q0) = 0"
  by (simp add: q0_def q1q_init_def sched_initialize_def sched_getNumPendingRequests_def)

lemma portq0_start: "mac_initialize q1q_ops (w_par (Some q0)) w_phys 0 5 ''auto'' True = Inr (6, portq0)"
  by (simp add: mac_initialize_def mac_base_initialize0_def initializeMACAddress_def w_auto w_subs
     mac_new_def initializeFlags_def initializeQueueModule_def readChannelParameters_def adopt_channel_def Let_def
     w_phys_def phys_connected_def channel_off_def channel_rate_def w_find beginSendFrames_def updateOperationalFlag_def
     portq0_def request_if_none_def q1q_ops_def q0_pending q1_def)

lemma q1q_run_port:
  assumes "q1q_run q es = Some q'" and "MacRequest \<notin> set es"
    and "port_reach q1q_ops q1q_sent q1q_step par s k" and "mTxQueue s = Ext q"
  shows "port_reach q1q_ops q1q_sent q1q_step par (s\<lparr>mTxQueue := Ext q'\<rparr>) k"
  using assms
proof (induction es arbitrary: q s)
  case Nil
  then have "s\<lparr>mTxQueue := Ext q'\<rparr> = s" by (cases s) simp
  then show ?case using Nil.prems(3) by (simp only:)
next
  case (Cons e es)
  then obtain q2 where e: "q1q_enabled q e" "q1q_exec q e = Inr q2" and r: "q1q_run q2 es = Some q'"
    by (auto split: if_splits sum.splits)
  have "q1q_step q q2" unfolding q1q_step_def by (rule exI [of _ e]) (use e Cons.prems(2) in auto)
  then have "port_reach q1q_ops q1q_sent q1q_step par (s\<lparr>mTxQueue := Ext q2\<rparr>) k"
    by (rule port_queue [OF Cons.prems(3,4)])
  then show ?case using Cons.IH [OF r, of "s\<lparr>mTxQueue := Ext q2\<rparr>"] Cons.prems(2) by simp
qed

definition q2 :: "unit q1q" where
  "q2 = the (q1q_run q1 [FrameIn p_frame, ToQueue 7, ToScheduler 7])"

lemma q2_run: "q1q_run q1 [FrameIn p_frame, ToQueue 7, ToScheduler 7] = Some q2 \<and> schedOut (sch q2) = [p_frame]"
proof -
  have "q1q_run q1 [FrameIn p_frame, ToQueue 7, ToScheduler 7] \<noteq> None
      \<and> schedOut (sch (the (q1q_run q1 [FrameIn p_frame, ToQueue 7, ToScheduler 7]))) = [p_frame]"
    by code_simp
  then show ?thesis by (auto simp: q2_def)
qed

definition portq1 :: "(unit, unit q1q) mac" where
  "portq1 = portq0\<lparr>mTxQueue := Ext q2, mTransmitState := TRANSMITTING_STATE, mCurTxFrame := Some p_frame,
     mEndTx := \<lparr>tm_kind = ENDTRANSMISSION, tm_at = Some 8640000\<rparr>, mPhysOut := [p_frame\<lparr>fr_byteLength := 108\<rparr>],
     mStats := initializeStatistics\<lparr>numFramesFromHL := 1\<rparr>\<rparr>"

lemma portq1_step:
  "mac_handleMessage q1q_ops (w_par (Some q0)) w_phys 0 (FromUpperLayer p_frame) (portq0\<lparr>mTxQueue := Ext q2\<rparr>) = Inr portq1"
  by (simp add: w_eval portq1_def portq0_def p_frame_def w_defs)

lemma portq1_reach: "port_reach q1q_ops q1q_sent q1q_step (w_par (Some q0)) portq1 1"
proof -
  have "link_up portq0" by (simp add: link_up_def portq0_def mac_new_def)
  then have 0: "port_reach q1q_ops q1q_sent q1q_step (w_par (Some q0)) portq0 0" by (rule port_start [OF portq0_start])
  have 1: "port_reach q1q_ops q1q_sent q1q_step (w_par (Some q0)) (portq0\<lparr>mTxQueue := Ext q2\<rparr>) 0"
    by (rule q1q_run_port [OF conjunct1 [OF q2_run] _ 0]) (simp_all add: portq0_def)
  show ?thesis
    using port_delivery [OF 1, of q2 w_phys 0 portq1] portq1_step q2_run by (simp add: q1q_sent_def)
qed

section \<open>Properties\<close>

text \<open>
  C5. A MAC with the compound 802.1Q queue on a link that is up. The frames the scheduler has sent and the MAC
  has received are, in this order and each once, those it has put on the wire or will put there at
  the end of the gap or pause; exactly one frame at a time is requested, on its way or being sent,
  so a frame from the queue never meets another current frame.
\<close>

theorem port_1q_wire_order:
  assumes "port_reach q1q_ops q1q_sent q1q_step par s k" and "mp_queue par = Some (q1q_init caps)"
  shows "\<exists>q. mTxQueue s = Ext q \<and> k \<le> length (schedOut (sch q))
    \<and> map (wire_of s) (take k (schedOut (sch q))) = committed s
    \<and> packetsRequestedFromUs (sch q) + int (length (schedOut (sch q)) - k) + (if mCurTxFrame s = None then 0 else 1) = 1
    \<and> (k < length (schedOut (sch q)) \<longrightarrow> mCurTxFrame s = None)"
proof -
  have "sch (q1q_init caps :: 'a q1q) = sched_initialize (map (\<lambda>i. pq_initialize \<lparr>frameCapacity = caps ! i, dtQueue = []\<rparr>) [0..<8])"
    by (simp add: q1q_init_def)
  then show ?thesis
    using q1src.port_order [OF assms q1q_inv_init]
    by (simp add: q1q_ops_def q1q_sent_def sched_initialize_def sched_getNumPendingRequests_def)
qed

lemma port_1q_wire_order_witness:
  "map (wire_of portq1) (take 1 [p_frame]) = committed portq1 \<and> packetsRequestedFromUs (sch q2) = 0"
  using port_1q_wire_order [OF portq1_reach, of "replicate 8 0"] q2_run by (auto simp: q0_def portq1_def)

text \<open>
  C10. Every stage of every life cycle operation returns, with a drop tail queue and with the compound queue
  behind the MAC: the loop that empties the queue at shutdown ends.
\<close>

theorem mac_operations_return:
  "(\<exists>r. mac_handleOperationStage dtq_ops par ph ctr oper stage s = Some r)
   \<and> (\<exists>r. mac_handleOperationStage q1q_ops par1 ph ctr oper stage s1 = Some r)"
  by (intro conjI operation_returns [OF dtip.ipassive_queue_axioms] operation_returns [OF q1ip.ipassive_queue_axioms])

text \<open>
  Shutting a node down while its MAC sends and its queue holds frames: the MAC asks the queue for a
  frame before it empties it, the queue answers, and the frame arrives at a MAC that is not
  operational any more, which raises an error.
\<close>

theorem mac_shutdown_while_sending:
  assumes "port_reach dtq_ops sentOut dtq_arrival par s k"
    and "mp_queue par = Some (pq_initialize \<lparr>frameCapacity = cap, dtQueue = []\<rparr>)"
    and "mCurTxFrame s \<noteq> None" and "mTxQueue s = Ext q" and "dtQueue (store q) = f # fs"
  shows "\<exists>t q'. mac_handleOperationStage dtq_ops par ph ctr NodeShutdownOperation shutdown_STAGE_LINK_LAYER s
      = Some (Inr (ctr, t))
    \<and> mTxQueue t = Ext q' \<and> sentOut q' = sentOut q @ [f] \<and> k = length (sentOut q)
    \<and> mac_handleMessage dtq_ops par ph now (FromUpperLayer (sentOut q' ! k)) t
      = Inl (RuntimeError ''Message received from higher layer while interface is off'')"
proof -
  define q0 where "q0 = pq_initialize \<lparr>frameCapacity = cap, dtQueue = [] :: 'a EtherFrame list\<rparr>"
  have i: "dtsrc.port_inv s k"
    by (rule dtsrc.port_reach_inv [OF assms(1,2)]) (simp_all add: pq_initialize_def dtq_ops_def)
  then have "dtsrc.credit q k = 0" "k \<le> length (sentOut q)" "0 \<le> packetRequested q"
    using assms(3,4) by (auto simp: dtsrc.port_inv_def)
  then have c: "packetRequested q = 0" "k = length (sentOut q)"
    unfolding dtsrc.credit_def by (simp_all add: dtq_ops_def)
  define q' where "q' = q\<lparr>sentOut := sentOut q @ [f], store := (store q)\<lparr>dtQueue := []\<rparr>, packetRequested := 0\<rparr>"
  have r: "request_if_none dtq_ops q = q\<lparr>store := (store q)\<lparr>dtQueue := fs\<rparr>, sentOut := sentOut q @ [f]\<rparr>"
    using assms(5) c by (simp add: request_if_none_def dtq_ops_def pq_requestPacket_def dt_dequeue_def)
  have fl: "Option.bind (flush_ext dtq_ops (request_if_none dtq_ops q)) (iq_clear dtq_ops) = Some q'"
    by (simp add: flush_dtq_eq clear_dtq_eq r q'_def)
  obtain t where t: "mac_handleOperationStage dtq_ops par ph ctr NodeShutdownOperation shutdown_STAGE_LINK_LAYER s
      = Some (Inr (ctr, t))" "mTxQueue t = Ext q'" "\<not> mOperational t"
    using assms(3,4) fl
    by (auto simp: down_or_error_def processConnectDisconnect_def flushQueue_def updateOperationalFlag_def Let_def)
  then show ?thesis
    using c by (auto simp: q'_def mac_handleMessage_def handleMessageWhenDown_def)
qed

lemma mac_shutdown_while_sending_witness:
  "\<exists>t q'. mac_handleOperationStage dtq_ops (w_par (Some d0)) w_phys 6 NodeShutdownOperation shutdown_STAGE_LINK_LAYER
      (port1\<lparr>mTxQueue := Ext d2\<rparr>) = Some (Inr (6, t)) \<and> mTxQueue t = Ext q'
    \<and> mac_handleMessage dtq_ops (w_par (Some d0)) w_phys 1 (FromUpperLayer (sentOut q' ! 1)) t
      = Inl (RuntimeError ''Message received from higher layer while interface is off'')"
  using mac_shutdown_while_sending [OF port2_reach, of 0 d2 p_frame "[]" w_phys 6 1] d2_queue
  by (auto simp: d0_def port1_def)

end
