(* ===== verification/EtherEncap.thy ===== *)
theory EtherEncap
  imports EtherFrame
begin

text \<open>
  \<open>linklayer/ethernet/EtherEncap\<close> and \<open>EtherEncapExt\<close>: packets from the application are put
  into 802.1Q, SNAP or Ethernet II frames, frames from the MAC are opened and passed up. The
  module state is the record \<open>encap\<close>; its last three fields log what was sent on the gates
  \<open>lowerLayerOut\<close>, \<open>upperLayerOut\<close> and \<open>upperLayerOutSv\<close> (the last exists in \<open>EtherEncapExt\<close> only).
\<close>

record 'p encap =
  useSNAP :: bool
  encSeqNum :: int
  totalFromHigherLayer :: int
  totalFromMAC :: int
  totalPauseSent :: int
  lowerOut :: "'p EtherFrame list"
  upperOut :: "'p cPacket list"
  upperOutSv :: "'p cPacket list"

definition encap_initialize :: "bool \<Rightarrow> 'p encap" where
  "encap_initialize snap =
     \<lparr>useSNAP = snap, encSeqNum = 0, totalFromHigherLayer = 0, totalFromMAC = 0,
      totalPauseSent = 0, lowerOut = [], upperOut = [], upperOutSv = []\<rparr>"

text \<open>What can arrive at the module: a frame on \<open>lowerLayerIn\<close> or a packet from above.\<close>

datatype 'p encap_msg = FromMAC "'p EtherFrame" | FromHigherLayer "'p cPacket"

section \<open>EtherEncap\<close>

definition processPacketFromHigherLayer :: "'p encap \<Rightarrow> 'p cPacket \<Rightarrow> 'p encap res" where
  "processPacketFromHigherLayer s msg =
     (if pk_byteLength msg > MAX_ETHERNET_DATA_BYTES then Inl (RuntimeError ''payload too long'')
      else
        let s1 = s\<lparr>totalFromHigherLayer := totalFromHigherLayer s + 1\<rparr> in
        case pk_ctrl msg of
          None \<Rightarrow> Inl BadCast
        | Some etherctrl \<Rightarrow>
            let msg1 = msg\<lparr>pk_ctrl := None\<rparr>;
                frame =
                  (if ctl_etherType etherctrl = ETHERTYPE_802_1_Q then
                     new_frame (ctl_src etherctrl) (ctl_dest etherctrl)
                       (Ethernet1QTag (ctl_etherType etherctrl)
                          \<lparr>tag_ppc = word_of_int (ctl_ppc etherctrl),
                           tag_de = of_bool (ctl_de etherctrl),
                           tag_vid = word_of_int (ctl_vid etherctrl)\<rparr>
                          (ctl_apptype etherctrl))
                       (ETHER_MAC_FRAME_BYTES + ETHER_802_1_Q_HEADER_LENGTH)
                   else if useSNAP s then
                     new_frame (ctl_src etherctrl) (ctl_dest etherctrl)
                       (EtherFrameWithSNAP 0xAA 0xAA 0x03 0 (ctl_etherType etherctrl))
                       (ETHER_MAC_FRAME_BYTES + ETHER_LLC_HEADER_LENGTH + ETHER_SNAP_HEADER_LENGTH)
                   else
                     new_frame (ctl_src etherctrl) (ctl_dest etherctrl)
                       (EthernetIIFrame (ctl_etherType etherctrl)) ETHER_MAC_FRAME_BYTES);
                frame1 = pad_frame (encapsulate frame msg1)
            in Inr (s1\<lparr>lowerOut := lowerOut s1 @ [frame1]\<rparr>))"

text \<open>The control information \<open>processFrameFromMAC\<close> attaches, by the class of the frame.\<close>

definition ctrl_of_frame :: "'p EtherFrame \<Rightarrow> Ieee802Ctrl" where
  "ctrl_of_frame frame =
     (let c = new_Ieee802Ctrl\<lparr>ctl_src := fr_src frame, ctl_dest := fr_dest frame\<rparr> in
      case fr_class frame of
        EthernetIIFrame ty \<Rightarrow> c\<lparr>ctl_etherType := ty\<rparr>
      | EtherFrameWithSNAP dsap ssap ctl org localcode \<Rightarrow> c\<lparr>ctl_etherType := localcode\<rparr>
      | Ethernet1QTag ty tag apptype \<Rightarrow>
          c\<lparr>ctl_etherType := ty, ctl_ppc := uint (tag_ppc tag), ctl_de := (tag_de tag \<noteq> 0),
             ctl_vid := uint (tag_vid tag), ctl_apptype := apptype\<rparr>
      | _ \<Rightarrow> c)"

definition processFrameFromMAC :: "'p encap \<Rightarrow> 'p EtherFrame \<Rightarrow> 'p encap res" where
  "processFrameFromMAC s frame =
     bindR (decapsulate frame) (\<lambda>(frame1, msg).
       let msg1 = msg\<lparr>pk_ctrl := Some (ctrl_of_frame frame1)\<rparr>
       in Inr (s\<lparr>totalFromMAC := totalFromMAC s + 1, upperOut := upperOut s @ [msg1]\<rparr>))"

text \<open>
  \<open>handleSendPause\<close> deletes the control object and then reads its destination; \<open>stale\<close> stands
  for what that read of freed memory returns.
\<close>

definition handleSendPause :: "mac_addr \<Rightarrow> 'p encap \<Rightarrow> 'p cPacket \<Rightarrow> 'p encap res" where
  "handleSendPause stale s msg =
     (case pk_ctrl msg of
        None \<Rightarrow> Inl (RuntimeError ''PAUSE without Ieee802Ctrl'')
      | Some etherctrl \<Rightarrow>
          let pauseUnits = ctl_pauseUnits etherctrl;
              s1 = s\<lparr>encSeqNum := encSeqNum s + 1\<rparr>;
              dest = (if isUnspecified stale then MULTICAST_PAUSE_ADDRESS else stale);
              frame = new_frame 0 dest (EtherPauseFrame pauseUnits) ETHER_PAUSE_COMMAND_PADDED_BYTES
          in Inr (s1\<lparr>lowerOut := lowerOut s1 @ [frame], totalPauseSent := totalPauseSent s1 + 1\<rparr>))"

definition encap_handleMessage :: "mac_addr \<Rightarrow> 'p encap \<Rightarrow> 'p encap_msg \<Rightarrow> 'p encap res" where
  "encap_handleMessage stale s m =
     (case m of
        FromMAC frame \<Rightarrow> processFrameFromMAC s frame
      | FromHigherLayer msg \<Rightarrow>
          if pk_kind msg = IEEE802CTRL_DATA \<or> pk_kind msg = 0 then processPacketFromHigherLayer s msg
          else if pk_kind msg = IEEE802CTRL_SENDPAUSE then handleSendPause stale s msg
          else Inl (RuntimeError ''unknown message kind''))"

section \<open>EtherEncapExt\<close>

text \<open>
  The P\&C IED has two applications above the encapsulation. \<open>EtherEncapExt\<close> repeats the code of
  \<open>EtherEncap\<close> and differs where a packet is passed up: the gate is chosen by the APPTYPE of the
  802.1Q tag.
\<close>

definition ext_processPacketFromHigherLayer :: "'p encap \<Rightarrow> 'p cPacket \<Rightarrow> 'p encap res" where
  "ext_processPacketFromHigherLayer s msg =
     (if pk_byteLength msg > MAX_ETHERNET_DATA_BYTES then Inl (RuntimeError ''payload too long'')
      else
        let s1 = s\<lparr>totalFromHigherLayer := totalFromHigherLayer s + 1\<rparr> in
        case pk_ctrl msg of
          None \<Rightarrow> Inl BadCast
        | Some etherctrl \<Rightarrow>
            let msg1 = msg\<lparr>pk_ctrl := None\<rparr>;
                priTag = \<lparr>tag_ppc = word_of_int (ctl_ppc etherctrl),
                          tag_de = of_bool (ctl_de etherctrl),
                          tag_vid = word_of_int (ctl_vid etherctrl)\<rparr>;
                cl = (if ctl_etherType etherctrl = ETHERTYPE_802_1_Q
                      then Ethernet1QTag (ctl_etherType etherctrl) priTag (ctl_apptype etherctrl)
                      else if useSNAP s
                      then EtherFrameWithSNAP 0xAA 0xAA 0x03 0 (ctl_etherType etherctrl)
                      else EthernetIIFrame (ctl_etherType etherctrl));
                len = (if ctl_etherType etherctrl = ETHERTYPE_802_1_Q
                       then ETHER_MAC_FRAME_BYTES + ETHER_802_1_Q_HEADER_LENGTH
                       else if useSNAP s
                       then ETHER_MAC_FRAME_BYTES + ETHER_LLC_HEADER_LENGTH + ETHER_SNAP_HEADER_LENGTH
                       else ETHER_MAC_FRAME_BYTES);
                frame = pad_frame (encapsulate
                          (new_frame (ctl_src etherctrl) (ctl_dest etherctrl) cl len) msg1)
            in Inr (s1\<lparr>lowerOut := lowerOut s1 @ [frame]\<rparr>))"

definition ext_processFrameFromMAC :: "'p encap \<Rightarrow> 'p EtherFrame \<Rightarrow> 'p encap res" where
  "ext_processFrameFromMAC s frame =
     bindR (decapsulate frame) (\<lambda>(frame1, msg).
       let etherctrl = ctrl_of_frame frame1;
           msg1 = msg\<lparr>pk_ctrl := Some etherctrl\<rparr>;
           s1 = s\<lparr>totalFromMAC := totalFromMAC s + 1\<rparr>
       in if ctl_apptype etherctrl = ETHERTYPE_GOOSE
          then Inr (s1\<lparr>upperOut := upperOut s1 @ [msg1]\<rparr>)
          else if ctl_apptype etherctrl = ETHERTYPE_SV
          then Inr (s1\<lparr>upperOutSv := upperOutSv s1 @ [msg1]\<rparr>)
          else Inr s1)"

definition ext_handleSendPause :: "mac_addr \<Rightarrow> 'p encap \<Rightarrow> 'p cPacket \<Rightarrow> 'p encap res" where
  "ext_handleSendPause stale s msg =
     (case pk_ctrl msg of
        None \<Rightarrow> Inl (RuntimeError ''PAUSE without Ieee802Ctrl'')
      | Some etherctrl \<Rightarrow>
          let pauseUnits = ctl_pauseUnits etherctrl;
              s1 = s\<lparr>encSeqNum := encSeqNum s + 1\<rparr>;
              dest = (if isUnspecified stale then MULTICAST_PAUSE_ADDRESS else stale);
              frame = new_frame 0 dest (EtherPauseFrame pauseUnits) ETHER_PAUSE_COMMAND_PADDED_BYTES
          in Inr (s1\<lparr>lowerOut := lowerOut s1 @ [frame], totalPauseSent := totalPauseSent s1 + 1\<rparr>))"

definition ext_handleMessage :: "mac_addr \<Rightarrow> 'p encap \<Rightarrow> 'p encap_msg \<Rightarrow> 'p encap res" where
  "ext_handleMessage stale s m =
     (case m of
        FromMAC frame \<Rightarrow> ext_processFrameFromMAC s frame
      | FromHigherLayer msg \<Rightarrow>
          if pk_kind msg = IEEE802CTRL_DATA \<or> pk_kind msg = 0
          then ext_processPacketFromHigherLayer s msg
          else if pk_kind msg = IEEE802CTRL_SENDPAUSE then ext_handleSendPause stale s msg
          else Inl (RuntimeError ''unknown message kind''))"

declare processPacketFromHigherLayer_def [step_defs] processFrameFromMAC_def [step_defs]
  ext_processPacketFromHigherLayer_def [step_defs] ext_processFrameFromMAC_def [step_defs]

section \<open>Contract\<close>

text \<open>
  What the peer's application gets to see of the control information \<open>c\<close> of a packet sent with
  it: addresses and type unchanged; the tag fields only for 802.1Q, cut to their bit widths.
\<close>

definition delivered_ctrl :: "Ieee802Ctrl \<Rightarrow> Ieee802Ctrl" where
  "delivered_ctrl c =
     (let base = new_Ieee802Ctrl\<lparr>ctl_src := ctl_src c, ctl_dest := ctl_dest c,
                                  ctl_etherType := ctl_etherType c\<rparr> in
      if ctl_etherType c = ETHERTYPE_802_1_Q
      then base\<lparr>ctl_ppc := ctl_ppc c mod 8, ctl_de := ctl_de c, ctl_vid := ctl_vid c mod 4096,
                 ctl_apptype := ctl_apptype c\<rparr>
      else base)"

definition encap_header :: "bool \<Rightarrow> Ieee802Ctrl \<Rightarrow> int" where
  "encap_header snap c =
     (if ctl_etherType c = ETHERTYPE_802_1_Q then 22 else if snap then 26 else 18)"

lemma processPacket_Inr:
  assumes "pk_ctrl msg = Some c" and "pk_byteLength msg \<le> MAX_ETHERNET_DATA_BYTES"
  obtains f where
    "processPacketFromHigherLayer s msg =
       Inr (s\<lparr>totalFromHigherLayer := totalFromHigherLayer s + 1, lowerOut := lowerOut s @ [f]\<rparr>)"
    "fr_encap f = Some (msg\<lparr>pk_ctrl := None\<rparr>)"
    "\<And>n. ctrl_of_frame (f\<lparr>fr_byteLength := n, fr_encap := None\<rparr>) = delivered_ctrl c"
    "fr_byteLength f = max 64 (encap_header (useSNAP s) c + pk_byteLength msg)"
    "\<not> isPauseFrame f"
proof -
  let ?f = "last (lowerOut (projr (processPacketFromHigherLayer s msg)))"
  show ?thesis
  proof (rule that [of ?f])
    show "processPacketFromHigherLayer s msg =
       Inr (s\<lparr>totalFromHigherLayer := totalFromHigherLayer s + 1, lowerOut := lowerOut s @ [?f]\<rparr>)"
      using assms by (simp add: processPacketFromHigherLayer_def Let_def)
    show "fr_encap ?f = Some (msg\<lparr>pk_ctrl := None\<rparr>)" and "\<not> isPauseFrame ?f"
      using assms by (simp_all add: processPacketFromHigherLayer_def Let_def)
    show "fr_byteLength ?f = max 64 (encap_header (useSNAP s) c + pk_byteLength msg)"
      using assms by (simp add: processPacketFromHigherLayer_def Let_def encap_header_def ether_sizes)
    show "ctrl_of_frame (?f\<lparr>fr_byteLength := n, fr_encap := None\<rparr>) = delivered_ctrl c" for n
      using assms
      by (simp add: processPacketFromHigherLayer_def Let_def ctrl_of_frame_def delivered_ctrl_def
          uint_word_of_int)
  qed
qed

section \<open>Properties\<close>

text \<open>
  C36. Encapsulation and decapsulation are inverse: a packet of at most 1500 bytes handed to one
  \<open>EtherEncap\<close> leaves as exactly one frame, and a peer that receives this frame passes up the
  same payload, kind and length, with the sender's control information reduced to what the
  frame carries. Both counters grow by one.
\<close>

theorem encap_roundtrip:
  assumes "pk_ctrl msg = Some c" and "pk_byteLength msg \<le> 1500"
  shows "\<exists>f. processPacketFromHigherLayer s msg =
           Inr (s\<lparr>totalFromHigherLayer := totalFromHigherLayer s + 1, lowerOut := lowerOut s @ [f]\<rparr>)
         \<and> processFrameFromMAC r f =
           Inr (r\<lparr>totalFromMAC := totalFromMAC r + 1,
                  upperOut := upperOut r @ [msg\<lparr>pk_ctrl := Some (delivered_ctrl c)\<rparr>]\<rparr>)"
proof -
  have "pk_byteLength msg \<le> MAX_ETHERNET_DATA_BYTES" using assms(2) by (simp add: ether_sizes)
  with assms(1) obtain f where f:
    "processPacketFromHigherLayer s msg =
       Inr (s\<lparr>totalFromHigherLayer := totalFromHigherLayer s + 1, lowerOut := lowerOut s @ [f]\<rparr>)"
    "fr_encap f = Some (msg\<lparr>pk_ctrl := None\<rparr>)"
    "\<And>n. ctrl_of_frame (f\<lparr>fr_byteLength := n, fr_encap := None\<rparr>) = delivered_ctrl c"
    by (rule processPacket_Inr) blast
  then show ?thesis
    by (intro exI [of _ f]) (simp add: processFrameFromMAC_def decapsulate_def)
qed

lemma encap_roundtrip_witness:
  "\<exists>f. processPacketFromHigherLayer (encap_initialize False)
        \<lparr>pk_kind = 2003, pk_byteLength = 119,
         pk_ctrl = Some (new_Ieee802Ctrl\<lparr>ctl_dest := 0x010CCD010001, ctl_etherType := 0x8100,
                      ctl_ppc := 4, ctl_apptype := ETHERTYPE_GOOSE\<rparr>), pk_data = (7 :: nat)\<rparr>
      = Inr ((encap_initialize False)\<lparr>totalFromHigherLayer := 1, lowerOut := [f]\<rparr>)"
  using encap_roundtrip
    [of "\<lparr>pk_kind = 2003, pk_byteLength = 119,
          pk_ctrl = Some (new_Ieee802Ctrl\<lparr>ctl_dest := 0x010CCD010001, ctl_etherType := 0x8100,
                      ctl_ppc := 4, ctl_apptype := ETHERTYPE_GOOSE\<rparr>), pk_data = 7\<rparr>"
        _ "encap_initialize False" "encap_initialize False"]
  by (auto simp: encap_initialize_def)

text \<open>
  The frame that leaves the encapsulation is at least 64 bytes long, and it fits into
  the 1518 bytes that the MAC accepts exactly when the payload is at most 1496 bytes under an
  802.1Q tag, 1492 bytes under SNAP and 1500 bytes otherwise. The length check in
  \<open>processPacketFromHigherLayer\<close> lets payloads of up to 1500 bytes through in every case.
\<close>

theorem encap_frame_length:
  assumes "pk_ctrl msg = Some c" and "0 \<le> pk_byteLength msg" and "pk_byteLength msg \<le> 1500"
  shows "\<exists>f. map_sum id lowerOut (processPacketFromHigherLayer s msg) = Inr (lowerOut s @ [f])
         \<and> MIN_ETHERNET_FRAME_BYTES \<le> fr_byteLength f
         \<and> (fr_byteLength f \<le> MAX_ETHERNET_FRAME_BYTES \<longleftrightarrow>
              pk_byteLength msg \<le> (if ctl_etherType c = ETHERTYPE_802_1_Q then 1496
                                   else if useSNAP s then 1492 else 1500))"
proof -
  have "pk_byteLength msg \<le> MAX_ETHERNET_DATA_BYTES" using assms(3) by (simp add: ether_sizes)
  with assms(1) obtain f where
    "processPacketFromHigherLayer s msg =
       Inr (s\<lparr>totalFromHigherLayer := totalFromHigherLayer s + 1, lowerOut := lowerOut s @ [f]\<rparr>)"
    "fr_byteLength f = max 64 (encap_header (useSNAP s) c + pk_byteLength msg)"
    by (rule processPacket_Inr) blast
  with assms show ?thesis
    by (intro exI [of _ f]) (auto simp: encap_header_def ether_sizes)
qed

lemma encap_frame_length_witness:
  "\<exists>f. map_sum id lowerOut (processPacketFromHigherLayer (encap_initialize False)
        \<lparr>pk_kind = 2003, pk_byteLength = 1500,
         pk_ctrl = Some (new_Ieee802Ctrl\<lparr>ctl_etherType := 0x8100\<rparr>), pk_data = (7 :: nat)\<rparr>)
      = Inr [f] \<and> fr_byteLength f > MAX_ETHERNET_FRAME_BYTES"
  using encap_frame_length
    [of "\<lparr>pk_kind = 2003, pk_byteLength = 1500,
          pk_ctrl = Some (new_Ieee802Ctrl\<lparr>ctl_etherType := 0x8100\<rparr>), pk_data = 7\<rparr>"
        _ "encap_initialize False"]
  by (auto simp: encap_initialize_def ETHERTYPE_802_1_Q_def)

text \<open>
  \<open>EtherEncapExt\<close> encapsulates and sends PAUSE frames exactly as \<open>EtherEncap\<close> does.
  Upwards it demultiplexes: a frame with the GOOSE type goes to \<open>upperLayerOut\<close>, one with the SV
  type to \<open>upperLayerOutSv\<close>, and the payload of every other frame is passed to nobody, although
  it is counted.
\<close>

theorem ext_demultiplexes:
  assumes "fr_encap f = Some msg"
  shows "ext_processPacketFromHigherLayer s m = processPacketFromHigherLayer s m
    \<and> ext_handleSendPause stale s m = handleSendPause stale s m
    \<and> ext_processFrameFromMAC s f =
        Inr (let up = [msg\<lparr>pk_ctrl := Some (ctrl_of_frame f)\<rparr>];
                 ty = (case fr_class f of Ethernet1QTag _ _ apptype \<Rightarrow> apptype | _ \<Rightarrow> 0)
             in s\<lparr>totalFromMAC := totalFromMAC s + 1,
                  upperOut := upperOut s @ (if ty = ETHERTYPE_GOOSE then up else []),
                  upperOutSv := upperOutSv s @ (if ty = ETHERTYPE_SV then up else [])\<rparr>)"
proof -
  have c: "ctrl_of_frame (f\<lparr>fr_byteLength := n, fr_encap := e\<rparr>) = ctrl_of_frame f" for n e
    by (simp add: ctrl_of_frame_def)
  have "ext_processPacketFromHigherLayer s m = processPacketFromHigherLayer s m"
    by (simp add: ext_processPacketFromHigherLayer_def processPacketFromHigherLayer_def Let_def
        split: option.split)
  moreover have "ext_handleSendPause stale s m = handleSendPause stale s m"
    by (simp add: ext_handleSendPause_def handleSendPause_def)
  moreover have "ctl_apptype (ctrl_of_frame f) =
      (case fr_class f of Ethernet1QTag _ _ apptype \<Rightarrow> apptype | _ \<Rightarrow> 0)"
    by (simp add: ctrl_of_frame_def Let_def new_Ieee802Ctrl_def split: frame_class.split)
  ultimately show ?thesis
    using assms
    by (simp add: ext_processFrameFromMAC_def decapsulate_def c Let_def ETHERTYPE_GOOSE_def
        ETHERTYPE_SV_def)
qed

lemma ext_demultiplexes_witness:
  "ext_processFrameFromMAC (encap_initialize False)
     (encapsulate (new_frame 1 2 (EthernetIIFrame 0x0800) 18)
        \<lparr>pk_kind = 0, pk_byteLength = 50, pk_ctrl = None, pk_data = (7 :: nat)\<rparr>)
   = Inr ((encap_initialize False)\<lparr>totalFromMAC := 1\<rparr>)"
  using ext_demultiplexes
    [of "encapsulate (new_frame 1 2 (EthernetIIFrame 0x0800) 18)
           \<lparr>pk_kind = 0, pk_byteLength = 50, pk_ctrl = None, pk_data = (7 :: nat)\<rparr>"
        "\<lparr>pk_kind = 0, pk_byteLength = 50, pk_ctrl = None, pk_data = 7\<rparr>"
        "encap_initialize False"]
  by (simp add: encap_initialize_def ETHERTYPE_GOOSE_def ETHERTYPE_SV_def)

end
