(* ===== verification/EtherMAC.thy ===== *)
theory EtherMAC
  imports EtherMACFullDuplex
begin

text \<open>
  \<open>linklayer/ethernet/EtherMAC\<close>: the MAC that supports half duplex operation with CSMA/CD: collisions, jam
  signals, backoff, frame bursts, and the reception of frames from their first bit on. Its state is that of
  \<open>EtherMACBase\<close> with the members of the class; the parts of its code that repeat
  \<open>EtherMACFullDuplex\<close> word for word use the definitions made there.
\<close>

definition MAX_ATTEMPTS :: int where "MAX_ATTEMPTS = 16"
definition BACKOFF_RANGE_LIMIT :: int where "BACKOFF_RANGE_LIMIT = 10"
definition JAM_SIGNAL_BYTES :: int where "JAM_SIGNAL_BYTES = 4"
definition ENDRECEPTION :: int where "ENDRECEPTION = 101"
definition ENDBACKOFF :: int where "ENDBACKOFF = 102"
definition ENDJAMMING :: int where "ENDJAMMING = 104"

section \<open>State\<close>

text \<open>What goes out on the wire; a jam names the transmission it aborts.\<close>

datatype 'p em_signal = SentFrame "'p EtherFrame" | SentJam int | SentIFG

text \<open>
  The tree identifier of a message and the random numbers are the kernel's: \<open>em_treeId\<close> is the identifier of
  a frame and its copies, \<open>em_newTreeId\<close> that of a message created at a time.
\<close>

record ('p, 'q) em_par =
  em_mp :: "'q mac_par"
  em_frameBursting :: bool
  em_treeId :: "'p EtherFrame \<Rightarrow> int"
  em_newTreeId :: "simtime \<Rightarrow> int"

text \<open>
  \<open>endRxArrival\<close> is the arrival time of \<open>endRxMsg\<close>, which it keeps when it is delivered or cancelled,
  \<open>endIFGSent\<close> the time \<open>endIFGMsg\<close> was last scheduled.
\<close>

record ('p, 'q) em =
  em_mac :: "('p, 'q) mac"
  numConcurrentTransmissions :: int
  backoffs :: int
  currentSendPkTreeID :: int
  frameBeingReceived :: "'p EtherTraffic option"
  emEndRx :: app_timer
  emEndBackoff :: app_timer
  emEndJamming :: app_timer
  endRxArrival :: simtime
  endIFGSent :: simtime
  endRxTimeList :: "(int \<times> simtime) list"
  totalCollisionTime :: simtime
  totalSuccessfulRxTxTime :: simtime
  channelBusySince :: simtime
  numCollisions :: int
  numBackoffs :: int
  framesSentInBurst :: int
  bytesSentInBurst :: int
  emSignals :: "'p em_signal list"

abbreviation em_tx :: "('p, 'q) em \<Rightarrow> MACTransmitState" where "em_tx s \<equiv> mTransmitState (em_mac s)"
abbreviation em_rx :: "('p, 'q) em \<Rightarrow> MACReceiveState" where "em_rx s \<equiv> mReceiveState (em_mac s)"
abbreviation em_cur :: "('p, 'q) em \<Rightarrow> 'p EtherFrame option" where "em_cur s \<equiv> mCurTxFrame (em_mac s)"
abbreviation em_duplex :: "('p, 'q) em \<Rightarrow> bool" where "em_duplex s \<equiv> mDuplexMode (em_mac s)"
abbreviation em_descr :: "('p, 'q) em \<Rightarrow> ether_descr" where "em_descr s \<equiv> mDescr (em_mac s)"

text \<open>An operation of the base class on the part of the state that belongs to it.\<close>

definition on_mac :: "(('p, 'q) mac \<Rightarrow> ('p, 'q) mac res) \<Rightarrow> ('p, 'q) em \<Rightarrow> ('p, 'q) em res" where
  "on_mac f s = bindR (f (em_mac s)) (\<lambda>m. Inr (s\<lparr>em_mac := m\<rparr>))"

abbreviation set_tx :: "MACTransmitState \<Rightarrow> ('p, 'q) em \<Rightarrow> ('p, 'q) em" where
  "set_tx st s \<equiv> s\<lparr>em_mac := (em_mac s)\<lparr>mTransmitState := st\<rparr>\<rparr>"

abbreviation set_rx :: "MACReceiveState \<Rightarrow> ('p, 'q) em \<Rightarrow> ('p, 'q) em" where
  "set_rx st s \<equiv> s\<lparr>em_mac := (em_mac s)\<lparr>mReceiveState := st\<rparr>\<rparr>"

section \<open>Timers\<close>

definition em_scheduleEndIFGPeriod :: "('p, 'q) em_par \<Rightarrow> simtime \<Rightarrow> ('p, 'q) em \<Rightarrow> ('p, 'q) em res" where
  "em_scheduleEndIFGPeriod par now s =
     bindR (on_mac (scheduleEndIFGPeriod (em_mp par) now) s) (\<lambda>t. Inr (t\<lparr>endIFGSent := now\<rparr>))"

definition em_scheduleEndPausePeriod ::
    "('p, 'q) em_par \<Rightarrow> simtime \<Rightarrow> int \<Rightarrow> ('p, 'q) em \<Rightarrow> ('p, 'q) em res" where
  "em_scheduleEndPausePeriod par now pauseUnits = on_mac (scheduleEndPausePeriod (em_mp par) now pauseUnits)"

text \<open>The kernel's \<open>cancelEvent\<close> and \<open>scheduleAt\<close> for \<open>endRxMsg\<close>.\<close>

definition reschedule_endRx :: "simtime \<Rightarrow> simtime \<Rightarrow> ('p, 'q) em \<Rightarrow> ('p, 'q) em res" where
  "reschedule_endRx now endRxTime s =
     bindR (scheduleAt now endRxTime (cancelEvent (emEndRx s))) (\<lambda>t.
       Inr (s\<lparr>emEndRx := t, endRxArrival := endRxTime\<rparr>))"

text \<open>When the transmission of a number of bytes that starts now will be finished.\<close>

definition finish_time :: "('p, 'q) em_par \<Rightarrow> simtime \<Rightarrow> int \<Rightarrow> ('p, 'q) em \<Rightarrow> simtime res" where
  "finish_time par now bytes s =
     (case mChannel (em_mac s) of
        None \<Rightarrow> Inl NullDeref
      | Some ch \<Rightarrow> Inr (now + mp_txDuration (em_mp par) (ch_datarate ch) bytes))"

definition fillIFGIfInBurst :: "('p, 'q) em_par \<Rightarrow> simtime \<Rightarrow> ('p, 'q) em \<Rightarrow> ('p, 'q) em res" where
  "fillIFGIfInBurst par now s =
     (if \<not> mFrameBursting (em_mac s) then Inr s
      else if (case em_cur s of None \<Rightarrow> False
         | Some f \<Rightarrow>
             tm_at (mEndIFG (em_mac s)) \<noteq> None \<and> em_tx s = WAIT_IFG_STATE
             \<and> now = mLastTxFinishTime (em_mac s) \<and> now = endIFGSent s
             \<and> framesSentInBurst s > 0 \<and> framesSentInBurst s < maxFramesInBurst (em_descr s)
             \<and> bytesSentInBurst s + INTERFRAME_GAP_BITS div 8 + fr_byteLength f \<le> maxBytesInBurst (em_descr s))
      then
        let s1 = s\<lparr>bytesSentInBurst := bytesSentInBurst s + INTERFRAME_GAP_BITS div 8,
                   currentSendPkTreeID := em_newTreeId par now, emSignals := emSignals s @ [SentIFG]\<rparr>
        in bindR (finish_time par now (INTERFRAME_GAP_BITS div 8) s1) (\<lambda>finish.
           bindR (scheduleAt now finish (cancelEvent (mEndIFG (em_mac s1)))) (\<lambda>t.
             Inr (s1\<lparr>em_mac := (em_mac s1)\<lparr>mTransmitState := SEND_IFG_STATE, mEndIFG := t\<rparr>,
                     endIFGSent := now\<rparr>)))
      else Inr (s\<lparr>bytesSentInBurst := 0, framesSentInBurst := 0\<rparr>))"

definition em_scheduleEndTxPeriod ::
    "('p, 'q) em_par \<Rightarrow> simtime \<Rightarrow> 'p EtherFrame \<Rightarrow> ('p, 'q) em \<Rightarrow> ('p, 'q) em res" where
  "em_scheduleEndTxPeriod par now frame s =
     (let s1 = (if mFrameBursting (em_mac s)
                then s\<lparr>bytesSentInBurst := bytesSentInBurst s + fr_byteLength frame,
                       framesSentInBurst := framesSentInBurst s + 1\<rparr> else s)
      in bindR (finish_time par now (fr_byteLength frame) s1) (\<lambda>finish.
         bindR (scheduleAt now finish (mEndTx (em_mac s1))) (\<lambda>t.
           Inr (s1\<lparr>em_mac := (em_mac s1)\<lparr>mEndTx := t, mTransmitState := TRANSMITTING_STATE\<rparr>\<rparr>))))"

section \<open>Transmission\<close>

definition sendJamSignal :: "('p, 'q) em_par \<Rightarrow> simtime \<Rightarrow> ('p, 'q) em \<Rightarrow> ('p, 'q) em res" where
  "sendJamSignal par now s =
     (if currentSendPkTreeID s = 0 then Inl (RuntimeError ''Model error: sending JAM while not transmitting'')
      else
        let s1 = s\<lparr>emSignals := emSignals s @ [SentJam (currentSendPkTreeID s)]\<rparr>
        in bindR (finish_time par now JAM_SIGNAL_BYTES s1) (\<lambda>finish.
           bindR (scheduleAt now finish (emEndJamming s1)) (\<lambda>t.
             Inr (set_tx JAMMING_STATE (s1\<lparr>emEndJamming := t\<rparr>)))))"

text \<open>The copy of the current frame that is sent.\<close>

definition em_wire_frame :: "('p, 'q) em \<Rightarrow> 'p EtherFrame \<Rightarrow> 'p EtherFrame" where
  "em_wire_frame s f =
     (let f1 = (if isUnspecified (fr_src f) then f\<lparr>fr_src := mAddress (em_mac s)\<rparr> else f);
          inBurst = (mFrameBursting (em_mac s) \<and> framesSentInBurst s \<noteq> 0);
          minFrameLength = (if em_duplex s then frameMinBytes (em_descr s)
                            else if inBurst then frameInBurstMinBytes (em_descr s)
                            else halfDuplexFrameMinBytes (em_descr s));
          f2 = (if fr_byteLength f1 < minFrameLength then f1\<lparr>fr_byteLength := minFrameLength\<rparr> else f1)
      in f2\<lparr>fr_byteLength := fr_byteLength f2 + (PREAMBLE_BYTES + SFD_BYTES)\<rparr>)"

definition em_startFrameTransmission :: "('p, 'q) em_par \<Rightarrow> simtime \<Rightarrow> ('p, 'q) em \<Rightarrow> ('p, 'q) em res" where
  "em_startFrameTransmission par now s =
     (case em_cur s of
        None \<Rightarrow> Inl AssertFailed
      | Some cur \<Rightarrow>
          let frame = em_wire_frame s cur;
              s1 = s\<lparr>currentSendPkTreeID := em_treeId par cur, emSignals := emSignals s @ [SentFrame frame]\<rparr>
          in if \<not> em_duplex s1 \<and> em_rx s1 \<noteq> RX_IDLE_STATE
             then bindR (sendJamSignal par now s1) (\<lambda>s2.
                    let s3 = (if em_rx s2 = RECEIVING_STATE
                              then s2\<lparr>frameBeingReceived := None, numCollisions := numCollisions s2 + 1\<rparr> else s2)
                    in Inr (set_rx RX_COLLISION_STATE s3))
             else bindR (em_scheduleEndTxPeriod par now frame s1) (\<lambda>s2.
                    Inr (if \<not> em_duplex s2 then s2\<lparr>channelBusySince := now\<rparr> else s2)))"

definition em_beginSendFrames :: "('p, 'q) em_par \<Rightarrow> simtime \<Rightarrow> ('p, 'q) em \<Rightarrow> ('p, 'q) em res" where
  "em_beginSendFrames par now s =
     (if em_cur s \<noteq> None then em_startFrameTransmission par now s else Inr (set_tx TX_IDLE_STATE s))"

definition em_handleEndIFGPeriod :: "('p, 'q) em_par \<Rightarrow> simtime \<Rightarrow> ('p, 'q) em \<Rightarrow> ('p, 'q) em res" where
  "em_handleEndIFGPeriod par now s =
     (if em_tx s \<noteq> WAIT_IFG_STATE \<and> em_tx s \<noteq> SEND_IFG_STATE
      then Inl (RuntimeError ''Not in WAIT_IFG_STATE at the end of IFG period'')
      else
        let s1 = s\<lparr>currentSendPkTreeID := 0\<rparr>;
            s2 = (if mFrameBursting (em_mac s1) \<and> em_tx s1 \<noteq> SEND_IFG_STATE
                  then s1\<lparr>bytesSentInBurst := 0, framesSentInBurst := 0\<rparr> else s1)
        in em_beginSendFrames par now s2)"

definition em_handleEndPausePeriod :: "('p, 'q) em_par \<Rightarrow> simtime \<Rightarrow> ('p, 'q) em \<Rightarrow> ('p, 'q) em res" where
  "em_handleEndPausePeriod par now s =
     (if em_tx s \<noteq> PAUSE_STATE then Inl (RuntimeError ''At end of PAUSE and not in PAUSE_STATE'')
      else em_beginSendFrames par now s)"

definition em_count_sent :: "'p EtherFrame \<Rightarrow> ('p, 'q) mac \<Rightarrow> ('p, 'q) mac" where
  "em_count_sent f m =
     (if isPauseFrame f then count_in numPauseFramesSent_update 1 m
      else count_in numBytesSent_update 0 (count_in numFramesSent_update 1 m))"

text \<open>The end of \<open>handleEndTxPeriod\<close>.\<close>

definition pause_or_gap :: "('p, 'q) em_par \<Rightarrow> simtime \<Rightarrow> ('p, 'q) em \<Rightarrow> ('p, 'q) em res" where
  "pause_or_gap par now s =
     (let units = mPauseUnitsRequested (em_mac s)
      in if units > 0
         then bindR (em_scheduleEndPausePeriod par now units s) (\<lambda>s1.
                Inr (s1\<lparr>em_mac := (em_mac s1)\<lparr>mPauseUnitsRequested := 0\<rparr>\<rparr>))
         else bindR (em_scheduleEndIFGPeriod par now s) (\<lambda>s1.
                case mTxQueue (em_mac s1) of
                  Ext q \<Rightarrow> Inr s1
                | _ \<Rightarrow> fillIFGIfInBurst par now s1))"

definition em_handleEndTxPeriod ::
    "('q, 'p EtherFrame) iqueue \<Rightarrow> ('p, 'q) em_par \<Rightarrow> simtime \<Rightarrow> ('p, 'q) em \<Rightarrow> ('p, 'q) em res" where
  "em_handleEndTxPeriod ops par now s =
     (if em_tx s \<noteq> TRANSMITTING_STATE \<or> (\<not> em_duplex s \<and> em_rx s \<noteq> RX_IDLE_STATE)
      then Inl (RuntimeError ''End of transmission, and incorrect state detected'')
      else case em_cur s of
        None \<Rightarrow> Inl (RuntimeError ''Frame under transmission cannot be found'')
      | Some cur \<Rightarrow>
          let m1 = (em_count_sent cur (em_mac s))\<lparr>mCurTxFrame := None, mLastTxFinishTime := now\<rparr>;
              s1 = s\<lparr>currentSendPkTreeID := 0, em_mac := m1\<rparr>
          in bindR (on_mac (getNextFrameFromQueue ops) s1) (\<lambda>s2.
             let s3 = (if \<not> em_duplex s2
                       then s2\<lparr>totalSuccessfulRxTxTime := totalSuccessfulRxTxTime s2 + (now - channelBusySince s2)\<rparr>
                       else s2)
             in pause_or_gap par now (s3\<lparr>backoffs := 0\<rparr>)))"

text \<open>The number of slots \<open>handleRetransmission\<close> chooses from.\<close>

definition backoff_range :: "int \<Rightarrow> int" where
  "backoff_range n = (if n \<ge> BACKOFF_RANGE_LIMIT then 1024 else 2 ^ nat n)"

text \<open>\<open>draw a b\<close> is the random number \<open>intuniform(a, b)\<close> returns.\<close>

definition handleRetransmission ::
    "('q, 'p EtherFrame) iqueue \<Rightarrow> ('p, 'q) em_par \<Rightarrow> simtime \<Rightarrow> (int \<Rightarrow> int \<Rightarrow> int) \<Rightarrow> ('p, 'q) em \<Rightarrow> ('p, 'q) em res" where
  "handleRetransmission ops par now draw s =
     (let s1 = s\<lparr>backoffs := backoffs s + 1\<rparr> in
      if backoffs s1 > MAX_ATTEMPTS
      then bindR (on_mac (getNextFrameFromQueue ops)
                    (s1\<lparr>em_mac := (em_mac s1)\<lparr>mCurTxFrame := None, mTransmitState := TX_IDLE_STATE\<rparr>, backoffs := 0\<rparr>))
             (em_beginSendFrames par now)
      else
        let slotNumber = draw 0 (backoff_range (backoffs s1) - 1)
        in bindR (scheduleAt now (now + mp_simtime (em_mp par) (real_of_int slotNumber * slotTime (em_descr s1)))
                    (emEndBackoff s1)) (\<lambda>t.
             Inr ((set_tx BACKOFF_STATE (s1\<lparr>emEndBackoff := t\<rparr>))\<lparr>numBackoffs := numBackoffs s1 + 1\<rparr>)))"

definition handleEndJammingPeriod ::
    "('q, 'p EtherFrame) iqueue \<Rightarrow> ('p, 'q) em_par \<Rightarrow> simtime \<Rightarrow> (int \<Rightarrow> int \<Rightarrow> int) \<Rightarrow> ('p, 'q) em \<Rightarrow> ('p, 'q) em res" where
  "handleEndJammingPeriod ops par now draw s =
     (if em_tx s \<noteq> JAMMING_STATE then Inl (RuntimeError ''At end of JAMMING but not in JAMMING_STATE'')
      else handleRetransmission ops par now draw s)"

definition handleEndBackoffPeriod :: "('p, 'q) em_par \<Rightarrow> simtime \<Rightarrow> ('p, 'q) em \<Rightarrow> ('p, 'q) em res" where
  "handleEndBackoffPeriod par now s =
     (if em_tx s \<noteq> BACKOFF_STATE then Inl (RuntimeError ''At end of BACKOFF and not in BACKOFF_STATE'')
      else if em_cur s = None then Inl (RuntimeError ''At end of BACKOFF and no frame to transmit'')
      else if em_rx s = RX_IDLE_STATE then em_scheduleEndIFGPeriod par now s
      else Inr (set_tx TX_IDLE_STATE s))"

section \<open>Reception\<close>

text \<open>
  A message as it arrives with its first bit: its tree identifier, the one a jam says it aborts, when it was
  sent, and how long it lasts.
\<close>

record 'p em_arrival =
  ar_msg :: "'p EtherTraffic"
  ar_treeId :: int
  ar_abortedPkTreeID :: int
  ar_sent :: simtime
  ar_duration :: simtime

fun is_jam :: "'p EtherTraffic \<Rightarrow> bool" where
  "is_jam EtherJam \<longleftrightarrow> True"
| "is_jam _ \<longleftrightarrow> False"

definition addReception :: "simtime \<Rightarrow> simtime \<Rightarrow> ('p, 'q) em \<Rightarrow> ('p, 'q) em res" where
  "addReception now endRxTime s =
     (let s1 = s\<lparr>numConcurrentTransmissions := numConcurrentTransmissions s + 1\<rparr>
      in if endRxArrival s1 < endRxTime then reschedule_endRx now endRxTime s1 else Inr s1)"

text \<open>The three loops over the list of receptions: expired entries, an entry of the same message, insertion.\<close>

fun drop_expired :: "simtime \<Rightarrow> (int \<times> simtime) list \<Rightarrow> (int \<times> simtime) list" where
  "drop_expired now [] = []"
| "drop_expired now ((i, e) # rs) = (if e \<le> now then drop_expired now rs else (i, e) # rs)"

fun erase_reception :: "int \<Rightarrow> (int \<times> simtime) list \<Rightarrow> (int \<times> simtime) list" where
  "erase_reception treeId [] = []"
| "erase_reception treeId ((i, e) # rs) = (if i = treeId then rs else (i, e) # erase_reception treeId rs)"

fun insert_reception :: "int \<Rightarrow> simtime \<Rightarrow> (int \<times> simtime) list \<Rightarrow> (int \<times> simtime) list" where
  "insert_reception treeId endRxTime [] = [(treeId, endRxTime)]"
| "insert_reception treeId endRxTime ((i, e) # rs) =
     (if e \<le> endRxTime then (i, e) # insert_reception treeId endRxTime rs else (treeId, endRxTime) # (i, e) # rs)"

definition addReceptionInReconnectState ::
    "simtime \<Rightarrow> int \<Rightarrow> simtime \<Rightarrow> ('p, 'q) em \<Rightarrow> ('p, 'q) em res" where
  "addReceptionInReconnectState now treeId endRxTime s =
     (let rs = insert_reception treeId endRxTime (erase_reception treeId (drop_expired now (endRxTimeList s)));
          s1 = s\<lparr>endRxTimeList := rs\<rparr>;
          maxRxTime = snd (last rs)
      in if endRxArrival s1 \<noteq> maxRxTime then reschedule_endRx now maxRxTime s1 else Inr s1)"

definition processDetectedCollision :: "('p, 'q) em \<Rightarrow> ('p, 'q) em" where
  "processDetectedCollision s =
     (if em_rx s \<noteq> RX_COLLISION_STATE
      then set_rx RX_COLLISION_STATE (s\<lparr>frameBeingReceived := None, numCollisions := numCollisions s + 1\<rparr>)
      else s)"

definition processReceivedJam :: "simtime \<Rightarrow> simtime \<Rightarrow> ('p, 'q) em \<Rightarrow> ('p, 'q) em res" where
  "processReceivedJam now duration s =
     (let endRxTime = now + duration;
          s1 = s\<lparr>numConcurrentTransmissions := numConcurrentTransmissions s - 1\<rparr>
      in if numConcurrentTransmissions s1 < 0 then Inl (RuntimeError ''Received JAM without message'')
         else bindR (if numConcurrentTransmissions s1 = 0 \<or> endRxArrival s1 < endRxTime
                     then reschedule_endRx now endRxTime s1 else Inr s1)
                (\<lambda>s2. Inr (processDetectedCollision s2)))"

definition scheduleEndRxPeriod :: "simtime \<Rightarrow> 'p em_arrival \<Rightarrow> ('p, 'q) em \<Rightarrow> ('p, 'q) em res" where
  "scheduleEndRxPeriod now a s =
     (if frameBeingReceived s \<noteq> None \<or> tm_at (emEndRx s) \<noteq> None then Inl AssertFailed
      else addReception now (now + ar_duration a) (set_rx RECEIVING_STATE (s\<lparr>frameBeingReceived := Some (ar_msg a)\<rparr>)))"

definition em_processReceivedDataFrame :: "'p EtherFrame \<Rightarrow> ('p, 'q) mac \<Rightarrow> ('p, 'q) mac" where
  "em_processReceivedDataFrame frame0 m =
     (let frame = frame0\<lparr>fr_byteLength := 0\<rparr>;
          m1 = count_in numBytesReceivedOK_update (fr_byteLength frame) (count_in numFramesReceivedOK_update 1 m);
          m2 = count_in numFramesPassedToHL_update 1 m1
      in m2\<lparr>mUpperOut := mUpperOut m2 @ [frame]\<rparr>)"

definition frameReceptionComplete :: "('p, 'q) em_par \<Rightarrow> simtime \<Rightarrow> ('p, 'q) em \<Rightarrow> ('p, 'q) em res" where
  "frameReceptionComplete par now s =
     (let s0 = s\<lparr>frameBeingReceived := None\<rparr> in
      case frameBeingReceived s of
        Some EtherIFG \<Rightarrow> Inr s0
      | Some (EtherFrameMsg frame) \<Rightarrow>
          if fr_bitError frame then on_mac (\<lambda>m. Inr (count_in numDroppedBitError_update 1 m)) s0
          else
            let (dropped, m) = dropFrameNotForUs frame (em_mac s0);
                s1 = s0\<lparr>em_mac := m\<rparr>
            in if dropped then Inr s1
               else (case pause_time frame of
                  Some pauseUnits \<Rightarrow>
                    on_mac (\<lambda>m. processPauseCommand (em_mp par) now pauseUnits (count_in numPauseFramesRcvd_update 1 m)) s1
                | None \<Rightarrow> on_mac (\<lambda>m. Inr (em_processReceivedDataFrame frame m)) s1)
      | _ \<Rightarrow> Inl BadCast)"

definition handleEndRxPeriod :: "('p, 'q) em_par \<Rightarrow> simtime \<Rightarrow> ('p, 'q) em \<Rightarrow> ('p, 'q) em res" where
  "handleEndRxPeriod par now s =
     (let dt = now - channelBusySince s in
      bindR (case em_rx s of
               RECEIVING_STATE \<Rightarrow>
                 bindR (frameReceptionComplete par now s) (\<lambda>s1.
                   Inr (s1\<lparr>totalSuccessfulRxTxTime := totalSuccessfulRxTxTime s1 + dt\<rparr>))
             | RX_COLLISION_STATE \<Rightarrow> Inr (s\<lparr>totalCollisionTime := totalCollisionTime s + dt\<rparr>)
             | RX_RECONNECT_STATE \<Rightarrow> Inr (s\<lparr>endRxTimeList := []\<rparr>)
             | RX_IDLE_STATE \<Rightarrow> Inl (RuntimeError ''model error: invalid receiveState''))
        (\<lambda>s1. let s2 = (set_rx RX_IDLE_STATE s1)\<lparr>numConcurrentTransmissions := 0\<rparr>
              in if em_tx s2 = TX_IDLE_STATE then em_scheduleEndIFGPeriod par now s2 else Inr s2))"

section \<open>Messages\<close>

text \<open>
  \<open>own_src\<close> fills in the source address, \<open>store_frame\<close> makes the frame current or puts it into the inner
  queue, as in \<open>EtherMACFullDuplex\<close>.
\<close>

definition em_processFrameFromUpperLayer ::
    "('q, 'p EtherFrame) iqueue \<Rightarrow> ('p, 'q) em_par \<Rightarrow> simtime \<Rightarrow> 'p EtherFrame \<Rightarrow> ('p, 'q) em
     \<Rightarrow> ('p, 'q) em res" where
  "em_processFrameFromUpperLayer ops par now frame0 s =
     (let frame = pad_frame frame0; m = em_mac s in
      if fr_dest frame = mAddress m
      then Inl (RuntimeError ''Logic error: frame from higher layer has local MAC address as dest'')
      else if fr_byteLength frame > MAX_ETHERNET_FRAME_BYTES
      then Inl (RuntimeError ''Packet from higher layer exceeds maximum Ethernet frame size'')
      else if \<not> mConnected m \<or> mDisabled m
      then Inr (s\<lparr>em_mac := requestNextFrameFromExtQueue ops (count_in numDroppedPkFromHLIfaceDown_update 1 m)\<rparr>)
      else
        let frame1 = own_src m frame;
            m1 = (if isPauseFrame frame1 then m else count_in numFramesFromHL_update 1 m);
            stored = bindR (store_frame frame1 m1) (\<lambda>m2.
                let s1 = s\<lparr>em_mac := m2\<rparr>
                in case mTxQueue m1 of Ext q \<Rightarrow> fillIFGIfInBurst par now s1 | _ \<Rightarrow> Inr s1)
        in bindR stored (\<lambda>s2.
             if (em_duplex s2 \<or> em_rx s2 = RX_IDLE_STATE) \<and> em_tx s2 = TX_IDLE_STATE
             then em_startFrameTransmission par now s2 else Inr s2))"

text \<open>A frame that comes in while this station transmits.\<close>

definition interrupt_transmission ::
    "('p, 'q) em_par \<Rightarrow> simtime \<Rightarrow> simtime \<Rightarrow> ('p, 'q) em \<Rightarrow> ('p, 'q) em res" where
  "interrupt_transmission par now endRxTime s =
     bindR (addReception now endRxTime (set_rx RX_COLLISION_STATE s)) (\<lambda>s1.
       let m = em_mac s1;
           m1 = (if em_tx s1 = TRANSMITTING_STATE then m\<lparr>mEndTx := cancelEvent (mEndTx m)\<rparr>
                 else m\<lparr>mEndIFG := cancelEvent (mEndIFG m)\<rparr>)
       in bindR (sendJamSignal par now (s1\<lparr>em_mac := m1\<rparr>)) (\<lambda>s2.
            Inr (s2\<lparr>numCollisions := numCollisions s2 + 1\<rparr>)))"

definition em_processMsgFromNetwork ::
    "('p, 'q) em_par \<Rightarrow> simtime \<Rightarrow> 'p em_arrival \<Rightarrow> ('p, 'q) em \<Rightarrow> ('p, 'q) em res" where
  "em_processMsgFromNetwork par now a s =
     (if \<not> mConnected (em_mac s) \<or> mDisabled (em_mac s)
      then Inr (case ar_msg a of
                  EtherFrameMsg _ \<Rightarrow> s\<lparr>em_mac := count_in numDroppedIfaceDown_update 1 (em_mac s)\<rparr> | _ \<Rightarrow> s)
      else if \<not> em_duplex s \<and> now - ar_sent a \<ge> mp_simtime (em_mp par) (maxPropagationDelay (em_descr s))
      then Inl (RuntimeError ''Very long frame propagation time detected'')
      else
        let endRxTime = now + ar_duration a; jam = is_jam (ar_msg a) in
        if em_duplex s \<and> jam then Inl (RuntimeError ''Stray jam signal arrived in full-duplex mode'')
        else if \<not> em_duplex s \<and> em_rx s = RX_RECONNECT_STATE
        then addReceptionInReconnectState now (if jam then ar_abortedPkTreeID a else ar_treeId a) endRxTime s
        else if \<not> em_duplex s \<and> (em_tx s = TRANSMITTING_STATE \<or> em_tx s = SEND_IFG_STATE)
        then if jam then Inl (RuntimeError ''Stray jam signal arrived while transmitting'')
             else interrupt_transmission par now endRxTime s
        else if em_rx s = RX_IDLE_STATE
        then if jam then Inl (RuntimeError ''Stray jam signal arrived'')
             else scheduleEndRxPeriod now a (s\<lparr>channelBusySince := now\<rparr>)
        else if em_rx s = RECEIVING_STATE \<and> \<not> jam
             \<and> endRxArrival s - now < mp_simtime (em_mp par) (halfBitTime (em_descr s))
        then bindR (frameReceptionComplete par now (s\<lparr>emEndRx := cancelEvent (emEndRx s)\<rparr>)) (\<lambda>s1.
               scheduleEndRxPeriod now a
                 (s1\<lparr>totalSuccessfulRxTxTime := totalSuccessfulRxTxTime s1 + (now - channelBusySince s1),
                     channelBusySince := now\<rparr>))
        else if jam then processReceivedJam now (ar_duration a) s
        else bindR (addReception now endRxTime s) (\<lambda>s1. Inr (processDetectedCollision s1)))"

datatype 'p em_msg = EmEndIFG | EmEndTx | EmEndRx | EmEndBackoff | EmEndJamming | EmEndPause
  | EmUpper "'p EtherFrame" | EmNetwork "'p em_arrival"

text \<open>A self message has left the future event set when it is delivered.\<close>

fun em_delivered :: "'p em_msg \<Rightarrow> ('p, 'q) em \<Rightarrow> ('p, 'q) em" where
  "em_delivered EmEndIFG s = s\<lparr>em_mac := (em_mac s)\<lparr>mEndIFG := cancelEvent (mEndIFG (em_mac s))\<rparr>\<rparr>"
| "em_delivered EmEndTx s = s\<lparr>em_mac := (em_mac s)\<lparr>mEndTx := cancelEvent (mEndTx (em_mac s))\<rparr>\<rparr>"
| "em_delivered EmEndPause s = s\<lparr>em_mac := (em_mac s)\<lparr>mEndPause := cancelEvent (mEndPause (em_mac s))\<rparr>\<rparr>"
| "em_delivered EmEndRx s = s\<lparr>emEndRx := cancelEvent (emEndRx s)\<rparr>"
| "em_delivered EmEndBackoff s = s\<lparr>emEndBackoff := cancelEvent (emEndBackoff s)\<rparr>"
| "em_delivered EmEndJamming s = s\<lparr>emEndJamming := cancelEvent (emEndJamming s)\<rparr>"
| "em_delivered _ s = s"

definition em_handleSelfMessage ::
    "('q, 'p EtherFrame) iqueue \<Rightarrow> ('p, 'q) em_par \<Rightarrow> simtime \<Rightarrow> (int \<Rightarrow> int \<Rightarrow> int) \<Rightarrow> 'p em_msg \<Rightarrow> ('p, 'q) em
     \<Rightarrow> ('p, 'q) em res" where
  "em_handleSelfMessage ops par now draw m s =
     (case m of
        EmEndIFG \<Rightarrow> em_handleEndIFGPeriod par now s
      | EmEndTx \<Rightarrow> em_handleEndTxPeriod ops par now s
      | EmEndRx \<Rightarrow> handleEndRxPeriod par now s
      | EmEndBackoff \<Rightarrow> handleEndBackoffPeriod par now s
      | EmEndJamming \<Rightarrow> handleEndJammingPeriod ops par now draw s
      | EmEndPause \<Rightarrow> em_handleEndPausePeriod par now s
      | _ \<Rightarrow> Inl (RuntimeError ''Self-message with unexpected message kind''))"

section \<open>Initialization, connection, life cycle\<close>

text \<open>The members after the constructor and stage 0 of \<open>initialize\<close>.\<close>

definition em_new :: "('p, 'q) mac \<Rightarrow> ('p, 'q) em" where
  "em_new m =
     \<lparr>em_mac = m, numConcurrentTransmissions = 0, backoffs = 0, currentSendPkTreeID = 0, frameBeingReceived = None,
      emEndRx = \<lparr>tm_kind = ENDRECEPTION, tm_at = None\<rparr>, emEndBackoff = \<lparr>tm_kind = ENDBACKOFF, tm_at = None\<rparr>,
      emEndJamming = \<lparr>tm_kind = ENDJAMMING, tm_at = None\<rparr>, endRxArrival = 0, endIFGSent = 0, endRxTimeList = [],
      totalCollisionTime = 0, totalSuccessfulRxTxTime = 0, channelBusySince = 0, numCollisions = 0, numBackoffs = 0,
      framesSentInBurst = 0, bytesSentInBurst = 0, emSignals = []\<rparr>"

definition em_initializeFlags :: "('p, 'q) em_par \<Rightarrow> ('p, 'q) mac \<Rightarrow> ('p, 'q) mac" where
  "em_initializeFlags par m =
     m\<lparr>mDuplexMode := mp_duplexMode (em_mp par),
       mFrameBursting := \<not> mp_duplexMode (em_mp par) \<and> em_frameBursting par\<rparr>"

definition half_duplex_allowed :: "('p, 'q) mac \<Rightarrow> ('p, 'q) mac res" where
  "half_duplex_allowed m =
     (if mConnected m \<and> \<not> mDuplexMode m \<and> halfDuplexFrameMinBytes (mDescr m) < 0
      then Inl (RuntimeError ''Ethernet only supports full-duplex links'') else Inr m)"

definition em_readChannelParameters :: "bool \<Rightarrow> phys \<Rightarrow> ('p, 'q) em \<Rightarrow> ('p, 'q) em res" where
  "em_readChannelParameters errorWhenAsymmetric ph =
     on_mac (\<lambda>m. bindR (readChannelParameters errorWhenAsymmetric ph m) half_duplex_allowed)"

text \<open>
  The base class calls the overriding functions: \<open>initializeFlags\<close> first, of whose results no later step but
  the overriding part of \<open>readChannelParameters\<close> depends, which is the last step of stage 0.
\<close>

definition em_initialize ::
    "('q, 'p EtherFrame) iqueue \<Rightarrow> ('p, 'q) em_par \<Rightarrow> phys \<Rightarrow> u32 \<Rightarrow> string \<Rightarrow> bool \<Rightarrow> (u32 \<times> ('p, 'q) em) res" where
  "em_initialize ops par ph ctr addr isNodeUp =
     bindR (mac_base_initialize0 ops (em_mp par) ph ctr (mac_new addr)) (\<lambda>(ctr', m).
     bindR (half_duplex_allowed (em_initializeFlags par m)) (\<lambda>m1.
       Inr (ctr', em_new (updateOperationalFlag isNodeUp m1))))"

definition em_processConnectDisconnect ::
    "('q, 'p EtherFrame) iqueue \<Rightarrow> ('p, 'q) em_par \<Rightarrow> simtime \<Rightarrow> ('p, 'q) em \<Rightarrow> ('p, 'q) em res" where
  "em_processConnectDisconnect ops par now s =
     (let s1 = (if \<not> mConnected (em_mac s)
                then s\<lparr>frameBeingReceived := None, emEndRx := cancelEvent (emEndRx s),
                       emEndBackoff := cancelEvent (emEndBackoff s), emEndJamming := cancelEvent (emEndJamming s),
                       bytesSentInBurst := 0, framesSentInBurst := 0\<rparr> else s)
      in bindR (on_mac (processConnectDisconnect ops) s1) (\<lambda>s2.
           if mConnected (em_mac s2) \<and> \<not> em_duplex s2
           then if txrate (em_descr s2) = 0 then Inl UndefinedConversion
                else
                  let reconnectEndTime = now + mp_simtime (em_mp par)
                        (real_of_int (8 * (MAX_ETHERNET_FRAME_BYTES + JAM_SIGNAL_BYTES)) / txrate (em_descr s2))
                  in addReceptionInReconnectState now (-1) reconnectEndTime
                       ((set_rx RX_RECONNECT_STATE s2)\<lparr>endRxTimeList := []\<rparr>)
           else Inr s2))"

definition em_refreshConnection ::
    "('q, 'p EtherFrame) iqueue \<Rightarrow> ('p, 'q) em_par \<Rightarrow> phys \<Rightarrow> simtime \<Rightarrow> ('p, 'q) em \<Rightarrow> ('p, 'q) em res" where
  "em_refreshConnection ops par ph now s =
     bindR (em_readChannelParameters False ph s) (\<lambda>s1.
       if mConnected (em_mac s) \<noteq> mConnected (em_mac s1) then em_processConnectDisconnect ops par now s1 else Inr s1)"

definition em_receiveSignal ::
    "('q, 'p EtherFrame) iqueue \<Rightarrow> ('p, 'q) em_par \<Rightarrow> phys \<Rightarrow> simtime \<Rightarrow> mac_signal \<Rightarrow> ('p, 'q) em \<Rightarrow> ('p, 'q) em res" where
  "em_receiveSignal ops par ph now sig s =
     (case sig of
        PathCreated starts ends \<Rightarrow> if starts \<or> ends then em_refreshConnection ops par ph now s else Inr s
      | PathCut starts ends \<Rightarrow> if starts \<or> ends then em_refreshConnection ops par ph now s else Inr s
      | ParameterChanged owner \<Rightarrow>
          if mChannel (em_mac s) \<noteq> None \<and> owner then em_refreshConnection ops par ph now s else Inr s
      | OtherSignal \<Rightarrow> Inr s)"

text \<open>\<open>EtherMACBase::handleOperationStage\<close> with the overriding functions.\<close>

definition lift_stage :: "('p, 'q) em \<Rightarrow> ('p, 'q) mac res option \<Rightarrow> ('p, 'q) em res option" where
  "lift_stage s = map_option (\<lambda>r. bindR r (\<lambda>m. Inr (s\<lparr>em_mac := m\<rparr>)))"

definition em_handleOperationStage ::
    "('q, 'p EtherFrame) iqueue \<Rightarrow> ('p, 'q) em_par \<Rightarrow> phys \<Rightarrow> simtime \<Rightarrow> u32 \<Rightarrow> LifecycleOperation \<Rightarrow> nat
     \<Rightarrow> ('p, 'q) em \<Rightarrow> (u32 \<times> ('p, 'q) em) res option" where
  "em_handleOperationStage ops par ph now ctr operation stage s =
     (if operation = NodeStartOperation \<and> stage = start_STAGE_LINK_LAYER
      then (case initializeMACAddress ctr (em_initializeFlags par (initializeFlags (em_mp par) ph (em_mac s))) of
              Inl e \<Rightarrow> Some (Inl e)
            | Inr (ctr', m) \<Rightarrow>
                map_option (\<lambda>r. bindR r (\<lambda>s1. Inr (ctr', s1)))
                  (lift_stage s (macbase_handleOperationStage ops operation stage (initializeQueueModule ops (em_mp par) m))))
      else map_option (\<lambda>r. bindR r (\<lambda>s1. Inr (ctr, s1)))
        (if (operation = NodeShutdownOperation \<and> stage = shutdown_STAGE_LINK_LAYER)
            \<or> (operation = NodeCrashOperation \<and> stage = crash_STAGE_CRASH)
         then (case em_processConnectDisconnect ops par now (s\<lparr>em_mac := (em_mac s)\<lparr>mConnected := False\<rparr>\<rparr>) of
                 Inl e \<Rightarrow> Some (Inl e)
               | Inr s1 \<Rightarrow> lift_stage s1 (macbase_handleOperationStage ops operation stage (em_mac s1)))
         else lift_stage s (macbase_handleOperationStage ops operation stage (em_mac s))))"

definition em_handleMessage ::
    "('q, 'p EtherFrame) iqueue \<Rightarrow> ('p, 'q) em_par \<Rightarrow> phys \<Rightarrow> simtime \<Rightarrow> (int \<Rightarrow> int \<Rightarrow> int) \<Rightarrow> 'p em_msg \<Rightarrow> ('p, 'q) em
     \<Rightarrow> ('p, 'q) em res" where
  "em_handleMessage ops par ph now draw m s0 =
     (let s = em_delivered m s0 in
      if \<not> mOperational (em_mac s)
      then (case m of
              EmNetwork _ \<Rightarrow> Inr s
            | _ \<Rightarrow> Inl (RuntimeError ''Message received from higher layer while interface is off''))
      else bindR (if mChannelsDiffer (em_mac s) then em_readChannelParameters True ph s else Inr s) (\<lambda>s1.
        if \<not> em_duplex s1 \<and> em_tx s1 = TRANSMITTING_STATE \<and> em_rx s1 \<noteq> RX_IDLE_STATE
        then Inl (RuntimeError ''Inconsistent state -- transmitting and receiving at the same time'')
        else case m of
          EmUpper frame \<Rightarrow> em_processFrameFromUpperLayer ops par now frame s1
        | EmNetwork a \<Rightarrow> em_processMsgFromNetwork par now a s1
        | _ \<Rightarrow> em_handleSelfMessage ops par now draw m s1))"

end
