(* ===== verification/EtherMACInv.thy ===== *)
theory EtherMACInv
  imports EtherMAC EtherMACRuns
begin

text \<open>
  The invariant of \<open>EtherMAC\<close> while its link is up, and the proof that the handlers of its timers return.
\<close>

text \<open>The result exists and has a property.\<close>

definition yields :: "'a res \<Rightarrow> ('a \<Rightarrow> bool) \<Rightarrow> bool" where
  "yields r P \<longleftrightarrow> (\<exists>a. r = Inr a \<and> P a)"

lemma yields_simps [simp]: "yields (Inr a) P = P a" "\<not> yields (Inl e) P"
  by (auto simp: yields_def)

lemma yields_bind: "yields r Q \<Longrightarrow> (\<And>a. Q a \<Longrightarrow> yields (f a) P) \<Longrightarrow> yields (bindR r f) P"
  by (auto simp: yields_def)

lemma yields_bindI: "yields r (\<lambda>a. yields (f a) P) \<Longrightarrow> yields (bindR r f) P"
  by (auto simp: yields_def)

lemma yields_mono: "yields r Q \<Longrightarrow> (\<And>a. Q a \<Longrightarrow> P a) \<Longrightarrow> yields r P"
  by (auto simp: yields_def)

section \<open>The invariant\<close>

definition em_link :: "('p, 'q) em \<Rightarrow> bool" where
  "em_link s \<longleftrightarrow> mConnected (em_mac s) \<and> \<not> mDisabled (em_mac s) \<and> mOperational (em_mac s) \<and> \<not> mChannelsDiffer (em_mac s)
     \<and> (\<exists>ch. mChannel (em_mac s) = Some ch \<and> 0 \<le> ch_datarate ch) \<and> em_descr s \<in> set etherDescrs
     \<and> (\<not> em_duplex s \<longrightarrow> 0 \<le> halfDuplexFrameMinBytes (em_descr s)) \<and> (mFrameBursting (em_mac s) \<longrightarrow> \<not> em_duplex s)"

definition pause_small :: "'p EtherFrame \<Rightarrow> bool" where
  "pause_small f \<longleftrightarrow> (\<forall>n. pause_time f = Some n \<longrightarrow> n * 512 < 2 ^ 31)"

fun receivable :: "'p EtherTraffic \<Rightarrow> bool" where
  "receivable (EtherFrameMsg f) = pause_small f"
| "receivable EtherIFG = True"
| "receivable EtherJam = False"

fun em_rx_ok :: "MACReceiveState \<Rightarrow> bool \<Rightarrow> bool \<Rightarrow> bool" where
  "em_rx_ok RX_IDLE_STATE endRx frame \<longleftrightarrow> \<not> endRx"
| "em_rx_ok RECEIVING_STATE endRx frame \<longleftrightarrow> endRx \<and> frame"
| "em_rx_ok _ endRx frame \<longleftrightarrow> endRx"

text \<open>The arrival time of \<open>endRxMsg\<close> is past when it is not scheduled.\<close>

fun arrival_ok :: "simtime \<Rightarrow> simtime option \<Rightarrow> simtime \<Rightarrow> bool" where
  "arrival_ok now (Some e) arrival \<longleftrightarrow> arrival = e"
| "arrival_ok now None arrival \<longleftrightarrow> arrival \<le> now"

text \<open>What holds of everything but the transmitter.\<close>

definition em_base :: "simtime \<Rightarrow> ('p, 'q) em \<Rightarrow> bool" where
  "em_base now s \<longleftrightarrow> em_link s \<and> inner_ok (em_cur s) (mTxQueue (em_mac s))
     \<and> (\<forall>f. em_cur s = Some f \<longrightarrow> frame_fits f) \<and> mPauseUnitsRequested (em_mac s) * 512 < 2 ^ 31
     \<and> (\<forall>m. frameBeingReceived s = Some m \<longrightarrow> receivable m)
     \<and> em_rx_ok (em_rx s) (armed (emEndRx s)) (frameBeingReceived s \<noteq> None)
     \<and> arrival_ok now (tm_at (emEndRx s)) (endRxArrival s)
     \<and> 0 \<le> backoffs s \<and> backoffs s \<le> 16 \<and> (em_duplex s \<longrightarrow> em_rx s \<noteq> RX_RECONNECT_STATE)"

fun em_tx_ok :: "MACTransmitState \<Rightarrow> bool \<Rightarrow> bool \<Rightarrow> bool \<Rightarrow> bool \<Rightarrow> bool \<Rightarrow> bool \<Rightarrow> bool" where
  "em_tx_ok TX_IDLE_STATE frame endTx endIFG endPause endBackoff endJam
     \<longleftrightarrow> \<not> endTx \<and> \<not> endIFG \<and> \<not> endPause \<and> \<not> endBackoff \<and> \<not> endJam"
| "em_tx_ok WAIT_IFG_STATE frame endTx endIFG endPause endBackoff endJam
     \<longleftrightarrow> \<not> endTx \<and> endIFG \<and> \<not> endPause \<and> \<not> endBackoff \<and> \<not> endJam"
| "em_tx_ok SEND_IFG_STATE frame endTx endIFG endPause endBackoff endJam
     \<longleftrightarrow> frame \<and> \<not> endTx \<and> endIFG \<and> \<not> endPause \<and> \<not> endBackoff \<and> \<not> endJam"
| "em_tx_ok TRANSMITTING_STATE frame endTx endIFG endPause endBackoff endJam
     \<longleftrightarrow> frame \<and> endTx \<and> \<not> endIFG \<and> \<not> endPause \<and> \<not> endBackoff \<and> \<not> endJam"
| "em_tx_ok JAMMING_STATE frame endTx endIFG endPause endBackoff endJam
     \<longleftrightarrow> frame \<and> \<not> endTx \<and> \<not> endIFG \<and> \<not> endPause \<and> \<not> endBackoff \<and> endJam"
| "em_tx_ok BACKOFF_STATE frame endTx endIFG endPause endBackoff endJam
     \<longleftrightarrow> frame \<and> \<not> endTx \<and> \<not> endIFG \<and> \<not> endPause \<and> endBackoff \<and> \<not> endJam"
| "em_tx_ok PAUSE_STATE frame endTx endIFG endPause endBackoff endJam
     \<longleftrightarrow> \<not> endTx \<and> \<not> endIFG \<and> \<not> endBackoff \<and> \<not> endJam"

text \<open>Transmitter and receiver together: mode, states, and whether a frame waits.\<close>

fun em_mix :: "bool \<Rightarrow> MACTransmitState \<Rightarrow> MACReceiveState \<Rightarrow> bool \<Rightarrow> bool" where
  "em_mix True tx rx frame \<longleftrightarrow> tx \<noteq> SEND_IFG_STATE \<and> tx \<noteq> JAMMING_STATE \<and> tx \<noteq> BACKOFF_STATE
     \<and> (tx = TX_IDLE_STATE \<longrightarrow> \<not> frame)"
| "em_mix False tx rx frame \<longleftrightarrow> (tx = TRANSMITTING_STATE \<longrightarrow> rx = RX_IDLE_STATE)
     \<and> (tx = TX_IDLE_STATE \<and> frame \<longrightarrow> rx \<noteq> RX_IDLE_STATE)"

definition em_sender :: "('p, 'q) em \<Rightarrow> bool" where
  "em_sender s \<longleftrightarrow> em_tx_ok (em_tx s) (em_cur s \<noteq> None) (armed (mEndTx (em_mac s))) (armed (mEndIFG (em_mac s)))
       (armed (mEndPause (em_mac s))) (armed (emEndBackoff s)) (armed (emEndJamming s))
     \<and> em_mix (em_duplex s) (em_tx s) (em_rx s) (em_cur s \<noteq> None)
     \<and> (em_tx s = TRANSMITTING_STATE \<or> em_tx s = SEND_IFG_STATE \<longrightarrow> currentSendPkTreeID s \<noteq> 0)"

definition em_inv :: "simtime \<Rightarrow> ('p, 'q) em \<Rightarrow> bool" where
  "em_inv now s \<longleftrightarrow> em_base now s \<and> em_sender s"

definition tx_quiet :: "('p, 'q) em \<Rightarrow> bool" where
  "tx_quiet s \<longleftrightarrow> \<not> armed (mEndTx (em_mac s)) \<and> \<not> armed (mEndIFG (em_mac s)) \<and> \<not> armed (mEndPause (em_mac s))
     \<and> \<not> armed (emEndBackoff s) \<and> \<not> armed (emEndJamming s)"

text \<open>What the kernel and the descriptions of the modes provide.\<close>

definition em_par_ok :: "('p, 'q) em_par \<Rightarrow> bool" where
  "em_par_ok par \<longleftrightarrow> durations_ok (em_mp par) \<and> (\<forall>f. em_treeId par f \<noteq> 0) \<and> (\<forall>t. em_newTreeId par t \<noteq> 0)"

lemma etherDescrs_facts:
  "list_all (\<lambda>d. 0 < txrate d \<and> frameMinBytes d = 64 \<and> 0 \<le> slotTime d \<and> 0 \<le> halfBitTime d
     \<and> (0 \<le> halfDuplexFrameMinBytes d \<longrightarrow> 64 \<le> halfDuplexFrameMinBytes d \<and> frameInBurstMinBytes d = 64)) etherDescrs"
  by (simp only: etherDescrs_def list.pred_inject ether_descr.select_convs MIN_ETHERNET_FRAME_BYTES_def rate_defs
      GIGABIT_MIN_FRAME_BYTES_WITH_EXT_def) simp

lemma em_linkD:
  assumes "em_link s"
  shows "0 < txrate (em_descr s)" "frameMinBytes (em_descr s) = 64" "0 \<le> slotTime (em_descr s)"
    "0 \<le> halfBitTime (em_descr s)"
  using assms etherDescrs_facts by (auto simp: em_link_def list_all_iff)

section \<open>Scheduling\<close>

lemma em_ifg_yields:
  assumes "em_par_ok par" and "em_link s" and "\<not> armed (mEndIFG (em_mac s))"
    and "\<And>w. armed w \<Longrightarrow> P (s\<lparr>em_mac := (em_mac s)\<lparr>mTransmitState := WAIT_IFG_STATE, mEndIFG := w\<rparr>, endIFGSent := now\<rparr>)"
  shows "yields (em_scheduleEndIFGPeriod par now s) P"
  using assms em_linkD [OF assms(2)]
  by (auto simp: em_scheduleEndIFGPeriod_def on_mac_def scheduleEndIFGPeriod_def scheduleAt_def Let_def em_par_ok_def
      INTERFRAME_GAP_BITS_def)

lemma em_pause_yields:
  assumes "em_par_ok par" and "em_link s" and "\<not> armed (mEndPause (em_mac s))" and "0 < n" and "n * 512 < 2 ^ 31"
    and "\<And>w. P (s\<lparr>em_mac := (em_mac s)\<lparr>mEndPause := w, mTransmitState := PAUSE_STATE\<rparr>\<rparr>)"
  shows "yields (em_scheduleEndPausePeriod par now n s) P"
  using scheduleEndPausePeriod_returns [of "em_mp par" "em_mac s" n now] assms em_linkD [OF assms(2)]
  by (auto simp: em_scheduleEndPausePeriod_def on_mac_def em_par_ok_def)

lemma finish_schedule_yields:
  assumes "em_par_ok par" and "em_link s" and "0 \<le> n" and "\<not> armed t" and "\<And>w. armed w \<Longrightarrow> yields (f w) P"
  shows "yields (bindR (finish_time par now n s) (\<lambda>finish. bindR (scheduleAt now finish t) f)) P"
  using assms by (auto simp: em_link_def finish_time_def em_par_ok_def durations_ok_def scheduleAt_def not_less)

lemma jam_yields:
  assumes "em_par_ok par" and "em_link s" and "currentSendPkTreeID s \<noteq> 0" and "\<not> armed (emEndJamming s)"
    and "\<And>w. armed w \<Longrightarrow> P (s\<lparr>emSignals := emSignals s @ [SentJam (currentSendPkTreeID s)],
           emEndJamming := w, em_mac := (em_mac s)\<lparr>mTransmitState := JAMMING_STATE\<rparr>\<rparr>)"
  shows "yields (sendJamSignal par now s) P"
proof -
  have l: "em_link (s\<lparr>emSignals := l\<rparr>)" for l using assms(2) by (simp add: em_link_def)
  show ?thesis
    unfolding sendJamSignal_def Let_def if_not_P [OF assms(3)]
    by (rule finish_schedule_yields [OF assms(1) l]) (use assms(4,5) in \<open>simp_all add: JAM_SIGNAL_BYTES_def\<close>)
qed

section \<open>Transmission\<close>

text \<open>Updates that leave what an invariant speaks of alone.\<close>

lemma em_base_updates [simp]:
  "em_base now (s\<lparr>emSignals := l\<rparr>) = em_base now s"
  "em_base now (s\<lparr>currentSendPkTreeID := i\<rparr>) = em_base now s"
  "em_base now (s\<lparr>framesSentInBurst := i\<rparr>) = em_base now s"
  "em_base now (s\<lparr>bytesSentInBurst := i\<rparr>) = em_base now s"
  "em_base now (s\<lparr>endIFGSent := t\<rparr>) = em_base now s"
  "em_base now (s\<lparr>channelBusySince := t\<rparr>) = em_base now s"
  "em_base now (s\<lparr>totalSuccessfulRxTxTime := t\<rparr>) = em_base now s"
  "em_base now (s\<lparr>totalCollisionTime := t\<rparr>) = em_base now s"
  "em_base now (s\<lparr>numCollisions := i\<rparr>) = em_base now s"
  "em_base now (s\<lparr>numBackoffs := i\<rparr>) = em_base now s"
  "em_base now (s\<lparr>numConcurrentTransmissions := i\<rparr>) = em_base now s"
  "em_base now (s\<lparr>emEndBackoff := w\<rparr>) = em_base now s"
  "em_base now (s\<lparr>emEndJamming := w\<rparr>) = em_base now s"
  "em_base now (s\<lparr>em_mac := (em_mac s)\<lparr>mTransmitState := st\<rparr>\<rparr>) = em_base now s"
  by (simp_all add: em_base_def em_link_def)

lemma em_base_backoffs: "em_base now s \<Longrightarrow> 0 \<le> i \<Longrightarrow> i \<le> 16 \<Longrightarrow> em_base now (s\<lparr>backoffs := i\<rparr>)"
  by (simp add: em_base_def em_link_def)

lemma em_base_timers [simp]:
  "em_base now (s\<lparr>em_mac := (em_mac s)\<lparr>mEndTx := w\<rparr>\<rparr>) = em_base now s"
  "em_base now (s\<lparr>em_mac := (em_mac s)\<lparr>mEndIFG := w\<rparr>\<rparr>) = em_base now s"
  "em_base now (s\<lparr>em_mac := (em_mac s)\<lparr>mEndPause := w\<rparr>\<rparr>) = em_base now s"
  "em_base now (s\<lparr>em_mac := (em_mac s)\<lparr>mTransmitState := st, mEndIFG := w\<rparr>\<rparr>) = em_base now s"
  "em_base now (s\<lparr>em_mac := (em_mac s)\<lparr>mEndPause := w, mTransmitState := st\<rparr>\<rparr>) = em_base now s"
  "em_base now (s\<lparr>em_mac := (em_mac s)\<lparr>mEndTx := w, mTransmitState := st\<rparr>\<rparr>) = em_base now s"
  by (simp_all add: em_base_def em_link_def)

lemma em_wire_frame_length:
  assumes "em_link s" and "frame_fits f"
  shows "72 \<le> fr_byteLength (em_wire_frame s f)"
  using assms(2) by (simp add: em_wire_frame_def frame_fits_def Let_def PREAMBLE_BYTES_def SFD_BYTES_def)

lemma em_tx_yields:
  assumes "em_par_ok par" and "em_link s" and "0 \<le> fr_byteLength f" and "\<not> armed (mEndTx (em_mac s))"
    and "\<And>w b n. armed w \<Longrightarrow> P (s\<lparr>bytesSentInBurst := b, framesSentInBurst := n,
           em_mac := (em_mac s)\<lparr>mEndTx := w, mTransmitState := TRANSMITTING_STATE\<rparr>\<rparr>)"
  shows "yields (em_scheduleEndTxPeriod par now f s) P"
proof -
  define s1 where "s1 = (if mFrameBursting (em_mac s)
                then s\<lparr>bytesSentInBurst := bytesSentInBurst s + fr_byteLength f,
                       framesSentInBurst := framesSentInBurst s + 1\<rparr> else s)"
  have s1: "s1 = s\<lparr>bytesSentInBurst := bytesSentInBurst s1, framesSentInBurst := framesSentInBurst s1\<rparr>"
    by (simp add: s1_def)
  have l: "em_link s1" "em_mac s1 = em_mac s" using assms(2) by (simp_all add: s1_def em_link_def)
  show ?thesis
    unfolding em_scheduleEndTxPeriod_def Let_def s1_def [symmetric]
  proof (rule finish_schedule_yields [OF assms(1) l(1) assms(3)])
    show "\<not> armed (mEndTx (em_mac s1))" using assms(4) l(2) by simp
    show "yields (Inr (s1\<lparr>em_mac := (em_mac s1)\<lparr>mEndTx := w, mTransmitState := TRANSMITTING_STATE\<rparr>\<rparr>)) P" if "armed w" for w
      by (subst s1) (use assms(5) [OF that] l(2) in simp)
  qed
qed

lemma em_start_yields:
  assumes "em_par_ok par" and "em_base now s" and "tx_quiet s" and "em_cur s \<noteq> None"
  shows "yields (em_startFrameTransmission par now s) (em_inv now)"
proof -
  obtain f where f: "em_cur s = Some f" using assms(4) by auto
  define s1 where "s1 = s\<lparr>currentSendPkTreeID := em_treeId par f, emSignals := emSignals s @ [SentFrame (em_wire_frame s f)]\<rparr>"
  have b: "em_base now s1" using assms(2) by (simp add: s1_def)
  have l: "em_link s1" using b by (simp add: em_base_def)
  have q: "tx_quiet s1" "em_cur s1 = Some f" "currentSendPkTreeID s1 \<noteq> 0"
    using assms(1,3) f by (simp_all add: s1_def tx_quiet_def em_par_ok_def)
  have len: "0 \<le> fr_byteLength (em_wire_frame s f)"
    using em_wire_frame_length [of s f] assms(2) f by (simp add: em_base_def)
  show ?thesis
  proof (cases "\<not> em_duplex s1 \<and> em_rx s1 \<noteq> RX_IDLE_STATE")
    case True
    have r: "armed (emEndRx s1)" using b True by (cases "em_rx s1") (simp_all add: em_base_def)
    have "yields (bindR (sendJamSignal par now s1) (\<lambda>s2.
                    let s3 = (if em_rx s2 = RECEIVING_STATE
                              then s2\<lparr>frameBeingReceived := None, numCollisions := numCollisions s2 + 1\<rparr> else s2)
                    in Inr (set_rx RX_COLLISION_STATE s3))) (em_inv now)"
      by (intro yields_bindI jam_yields [OF assms(1) l q(3)])
        (use q b True r in \<open>auto simp: tx_quiet_def em_inv_def em_sender_def em_base_def em_link_def Let_def\<close>)
    then show ?thesis using f True by (simp add: em_startFrameTransmission_def s1_def Let_def)
  next
    case False
    have "yields (bindR (em_scheduleEndTxPeriod par now (em_wire_frame s f) s1) (\<lambda>s2.
                    Inr (if \<not> em_duplex s2 then s2\<lparr>channelBusySince := now\<rparr> else s2))) (em_inv now)"
      by (intro yields_bindI em_tx_yields [OF assms(1) l len])
        (use q b False in \<open>cases "em_duplex s1"; simp add: tx_quiet_def em_inv_def em_sender_def em_base_def em_link_def\<close>)+
    then show ?thesis using f False by (auto simp: em_startFrameTransmission_def s1_def Let_def)
  qed
qed

lemma em_begin_yields:
  assumes "em_par_ok par" and "em_base now s" and "tx_quiet s"
  shows "yields (em_beginSendFrames par now s) (em_inv now)"
proof (cases "em_cur s")
  case None
  then show ?thesis
    using assms(2,3) by (cases "em_duplex s") (simp_all add: em_beginSendFrames_def em_inv_def em_sender_def tx_quiet_def)
next
  case (Some f)
  then show ?thesis using em_start_yields [OF assms] by (simp add: em_beginSendFrames_def)
qed

lemma em_ifg_inv:
  assumes "em_par_ok par" and "em_base now s" and "tx_quiet s"
  shows "yields (em_scheduleEndIFGPeriod par now s) (em_inv now)"
  using assms
  by (intro em_ifg_yields) (cases "em_duplex s"; auto simp: em_inv_def em_sender_def tx_quiet_def em_base_def em_link_def)+

lemma em_pause_inv:
  assumes "em_par_ok par" and "em_base now s" and "tx_quiet s" and "0 < n" and "n * 512 < 2 ^ 31"
  shows "yields (em_scheduleEndPausePeriod par now n s) (em_inv now)"
  using assms
  by (intro em_pause_yields) (cases "em_duplex s"; auto simp: em_inv_def em_sender_def tx_quiet_def em_base_def em_link_def)+

lemmas em_inv_defs = em_inv_def em_sender_def em_base_def em_link_def

lemma em_inv_burst [simp]:
  "em_inv now (s\<lparr>bytesSentInBurst := i, framesSentInBurst := n\<rparr>) = em_inv now s"
  by (simp add: em_inv_def em_sender_def)

lemma em_fill_yields:
  assumes "em_par_ok par" and "em_inv now s"
  shows "yields (fillIFGIfInBurst par now s) (em_inv now)"
proof (cases "em_cur s \<noteq> None \<and> em_tx s = WAIT_IFG_STATE \<and> mFrameBursting (em_mac s)")
  case False
  then show ?thesis
    using assms(2) by (auto simp: fillIFGIfInBurst_def split: option.splits)
next
  case True
  define s1 where "s1 = s\<lparr>bytesSentInBurst := bytesSentInBurst s + INTERFRAME_GAP_BITS div 8,
                   currentSendPkTreeID := em_newTreeId par now, emSignals := emSignals s @ [SentIFG]\<rparr>"
  have l: "em_link s1" using assms(2) by (simp add: s1_def em_inv_defs)
  have "yields (bindR (finish_time par now (INTERFRAME_GAP_BITS div 8) s1) (\<lambda>finish.
           bindR (scheduleAt now finish (cancelEvent (mEndIFG (em_mac s1)))) (\<lambda>t.
             Inr (s1\<lparr>em_mac := (em_mac s1)\<lparr>mTransmitState := SEND_IFG_STATE, mEndIFG := t\<rparr>,
                     endIFGSent := now\<rparr>)))) (em_inv now)"
    by (rule finish_schedule_yields [OF assms(1) l])
      (use assms True in \<open>auto simp: INTERFRAME_GAP_BITS_def cancelEvent_def s1_def em_inv_defs em_par_ok_def\<close>)
  then show ?thesis
    using True assms(2) by (auto simp: fillIFGIfInBurst_def s1_def Let_def)
qed

text \<open>The next frame of the queue, if the queue is inside the module.\<close>

lemma em_next_yields:
  assumes "em_base now (s\<lparr>em_mac := (em_mac s)\<lparr>mCurTxFrame := Some f\<rparr>\<rparr>)"
    and "\<And>q c. em_base now (s\<lparr>em_mac := (em_mac s)\<lparr>mTxQueue := q, mCurTxFrame := c\<rparr>\<rparr>)
       \<Longrightarrow> P (s\<lparr>em_mac := (em_mac s)\<lparr>mTxQueue := q, mCurTxFrame := c\<rparr>\<rparr>)"
    and "em_cur s = None"
  shows "yields (on_mac (getNextFrameFromQueue ops) s) P"
proof -
  obtain q c where g: "getNextFrameFromQueue ops (em_mac s) = Inr ((em_mac s)\<lparr>mTxQueue := q, mCurTxFrame := c\<rparr>)"
    and c: "inner_ok c q \<and> (\<forall>g. c = Some g \<longrightarrow> frame_fits g)"
  proof (cases "mTxQueue (em_mac s)")
    case NoQueue
    then show ?thesis using assms(1) by (simp add: em_base_def)
  next
    case (Ext q)
    have "getNextFrameFromQueue ops (em_mac s) = Inr ((em_mac s)\<lparr>mTxQueue := Ext (request_if_none ops q), mCurTxFrame := None\<rparr>)"
      using assms(3) Ext by (cases "em_mac s") (simp add: getNextFrameFromQueue_def)
    then show ?thesis by (rule that) simp
  next
    case (Inner fs limit)
    show ?thesis
    proof (cases fs)
      case Nil
      have "getNextFrameFromQueue ops (em_mac s) = Inr ((em_mac s)\<lparr>mTxQueue := Inner [] limit, mCurTxFrame := None\<rparr>)"
        using assms(3) Inner Nil by (cases "em_mac s") (simp add: getNextFrameFromQueue_def)
      then show ?thesis by (rule that) (use assms(1) Inner Nil in \<open>simp add: em_base_def\<close>)
    next
      case (Cons g gs)
      have "getNextFrameFromQueue ops (em_mac s) = Inr ((em_mac s)\<lparr>mTxQueue := Inner gs limit, mCurTxFrame := Some g\<rparr>)"
        using Inner Cons by (simp add: getNextFrameFromQueue_def)
      then show ?thesis
        by (rule that) (use assms(1) Inner Cons inner_sorted_tl [of g gs] in \<open>simp add: em_base_def\<close>)
    qed
  qed
  have "em_base now (s\<lparr>em_mac := (em_mac s)\<lparr>mTxQueue := q, mCurTxFrame := c\<rparr>\<rparr>)"
    using assms(1) c by (simp add: em_base_def em_link_def)
  then show ?thesis using assms(2) by (simp add: on_mac_def g)
qed

lemma tx_quiet_updates [simp]:
  "tx_quiet (s\<lparr>totalSuccessfulRxTxTime := t\<rparr>) = tx_quiet s" "tx_quiet (s\<lparr>backoffs := i\<rparr>) = tx_quiet s"
  "tx_quiet (s\<lparr>currentSendPkTreeID := i\<rparr>) = tx_quiet s"
  "tx_quiet (s\<lparr>framesSentInBurst := i\<rparr>) = tx_quiet s" "tx_quiet (s\<lparr>bytesSentInBurst := i\<rparr>) = tx_quiet s"
  "tx_quiet (s\<lparr>em_mac := (em_mac s)\<lparr>mTransmitState := st\<rparr>\<rparr>) = tx_quiet s"
  "tx_quiet (s\<lparr>em_mac := (em_mac s)\<lparr>mTxQueue := q, mCurTxFrame := c\<rparr>\<rparr>) = tx_quiet s"
  by (simp_all add: tx_quiet_def)

lemma em_count_sent_fields:
  "em_count_sent f m = m\<lparr>mStats := mStats (em_count_sent f m)\<rparr>"
  by (simp add: em_count_sent_def)

lemma pause_or_gap_yields:
  assumes "em_par_ok par" and "em_base now s" and "tx_quiet s"
  shows "yields (pause_or_gap par now s) (em_inv now)"
proof -
  have "mPauseUnitsRequested (em_mac s) * 512 < 2 ^ 31" using assms(2) by (simp add: em_base_def)
  then have "yields (bindR (em_scheduleEndPausePeriod par now (mPauseUnitsRequested (em_mac s)) s) (\<lambda>s5.
       Inr (s5\<lparr>em_mac := (em_mac s5)\<lparr>mPauseUnitsRequested := 0\<rparr>\<rparr>))) (em_inv now)"
    if "0 < mPauseUnitsRequested (em_mac s)"
    using that by (intro yields_bind [OF em_pause_inv [OF assms]]) (auto simp: em_inv_defs)
  moreover have "yields (bindR (em_scheduleEndIFGPeriod par now s) (\<lambda>s5.
       case mTxQueue (em_mac s5) of Ext q \<Rightarrow> Inr s5 | _ \<Rightarrow> fillIFGIfInBurst par now s5)) (em_inv now)"
    by (intro yields_bind [OF em_ifg_inv [OF assms]])
      (simp split: MacQueue.split add: em_fill_yields [OF assms(1)])
  ultimately show ?thesis by (simp add: pause_or_gap_def Let_def)
qed

lemma em_endTx_yields:
  assumes "em_par_ok par" and "em_base now s" and "tx_quiet s" and "em_tx s = TRANSMITTING_STATE" and "em_cur s \<noteq> None"
    and "em_duplex s \<or> em_rx s = RX_IDLE_STATE"
  shows "yields (em_handleEndTxPeriod ops par now s) (em_inv now)"
proof -
  obtain f where f: "em_cur s = Some f" using assms(5) by auto
  define m1 where "m1 = (em_count_sent f (em_mac s))\<lparr>mCurTxFrame := None, mLastTxFinishTime := now\<rparr>"
  have m1: "m1 = (em_mac s)\<lparr>mStats := mStats m1, mCurTxFrame := None, mLastTxFinishTime := now\<rparr>"
    unfolding m1_def by (subst em_count_sent_fields) (simp add: em_count_sent_fields [symmetric])
  define s1 where "s1 = s\<lparr>currentSendPkTreeID := 0, em_mac := m1\<rparr>"
  have b1: "em_base now (s1\<lparr>em_mac := (em_mac s1)\<lparr>mCurTxFrame := Some f\<rparr>\<rparr>)" and q1: "tx_quiet s1" and c1: "em_cur s1 = None"
    using assms(2,3) f by (simp_all add: s1_def, (subst m1, simp add: em_base_def em_link_def tx_quiet_def)+)
  show ?thesis
    unfolding em_handleEndTxPeriod_def Let_def f option.case m1_def [symmetric] s1_def [symmetric]
    using assms(4,6)
    by (simp, intro yields_bindI em_next_yields [OF b1 _ c1] conjI impI pause_or_gap_yields [OF assms(1)] em_base_backoffs)
      (use q1 in \<open>auto\<close>)
qed

definition draw_ok :: "(int \<Rightarrow> int \<Rightarrow> int) \<Rightarrow> bool" where
  "draw_ok draw \<longleftrightarrow> (\<forall>a b. a \<le> b \<longrightarrow> a \<le> draw a b \<and> draw a b \<le> b)"

lemma backoff_range_bounds:
  assumes "0 \<le> n"
  shows "1 \<le> backoff_range n" "backoff_range n \<le> 1024"
proof -
  show "1 \<le> backoff_range n" by (simp add: backoff_range_def)
  have "(2 :: int) ^ nat n \<le> 2 ^ 9" if "n < 10" by (rule power_increasing) (use that in auto)
  then show "backoff_range n \<le> 1024" by (auto simp: backoff_range_def BACKOFF_RANGE_LIMIT_def)
qed

lemma em_retransmission_yields:
  assumes "em_par_ok par" and "draw_ok draw" and "em_base now s" and "tx_quiet s" and "em_cur s \<noteq> None" and "\<not> em_duplex s"
  shows "yields (handleRetransmission ops par now draw s) (em_inv now)"
proof (cases "backoffs s + 1 > MAX_ATTEMPTS")
  case True
  obtain f where f: "em_cur s = Some f" using assms(5) by auto
  define s1 where "s1 = s\<lparr>em_mac := (em_mac s)\<lparr>mCurTxFrame := None, mTransmitState := TX_IDLE_STATE\<rparr>, backoffs := 0\<rparr>"
  have "em_base now (s1\<lparr>em_mac := (em_mac s1)\<lparr>mCurTxFrame := Some f\<rparr>\<rparr>)"
    using assms(3) f by (simp add: s1_def em_base_def em_link_def)
  moreover have "tx_quiet s1" "em_cur s1 = None" using assms(4) by (simp_all add: s1_def tx_quiet_def)
  ultimately have "yields (bindR (on_mac (getNextFrameFromQueue ops) s1) (em_beginSendFrames par now)) (em_inv now)"
    by (intro yields_bindI em_next_yields em_begin_yields [OF assms(1)]) auto
  then show ?thesis using True by (simp add: handleRetransmission_def s1_def)
next
  case False
  have "0 \<le> backoffs s" using assms(3) by (simp add: em_base_def)
  then have "1 \<le> backoff_range (backoffs s + 1)" by (intro backoff_range_bounds) simp
  then have "0 \<le> draw 0 (backoff_range (backoffs s + 1) - 1)" using assms(2) by (simp add: draw_ok_def)
  then have "0 \<le> real_of_int (draw 0 (backoff_range (backoffs s + 1) - 1)) * slotTime (em_descr s)"
    using em_linkD(3) [of s] assms(3) by (simp add: em_base_def)
  then have "0 \<le> mp_simtime (em_mp par) (real_of_int (draw 0 (backoff_range (backoffs s + 1) - 1)) * slotTime (em_descr s))"
    using assms(1) by (simp add: em_par_ok_def durations_ok_def)
  then show ?thesis
    using False assms(3-6)
    by (simp add: handleRetransmission_def scheduleAt_def Let_def tx_quiet_def em_inv_defs
        MAX_ATTEMPTS_def)
qed

lemma em_ifgEnd_yields:
  assumes "em_par_ok par" and "em_base now s" and "tx_quiet s" and "em_tx s = WAIT_IFG_STATE \<or> em_tx s = SEND_IFG_STATE"
  shows "yields (em_handleEndIFGPeriod par now s) (em_inv now)"
  using assms by (auto simp: em_handleEndIFGPeriod_def Let_def intro!: em_begin_yields)

lemma em_pauseEnd_yields:
  assumes "em_par_ok par" and "em_base now s" and "tx_quiet s" and "em_tx s = PAUSE_STATE"
  shows "yields (em_handleEndPausePeriod par now s) (em_inv now)"
  using assms by (auto simp: em_handleEndPausePeriod_def intro!: em_begin_yields)

lemma em_backoffEnd_yields:
  assumes "em_par_ok par" and "em_base now s" and "tx_quiet s" and "em_tx s = BACKOFF_STATE" and "em_cur s \<noteq> None"
    and "\<not> em_duplex s"
  shows "yields (handleEndBackoffPeriod par now s) (em_inv now)"
  using assms
  by (auto simp: handleEndBackoffPeriod_def em_inv_def em_sender_def tx_quiet_def intro!: em_ifg_inv)

section \<open>Reception\<close>

text \<open>What a completed reception leaves of the transmitter.\<close>

lemma em_count_base [simp]:
  "em_base now (s\<lparr>em_mac := (em_mac s)\<lparr>mStats := x\<rparr>\<rparr>) = em_base now s"
  by (simp add: em_base_def em_link_def)

lemma dropFrame_shape: "dropFrameNotForUs f m = (b, m') \<Longrightarrow> m' = m\<lparr>mStats := mStats m'\<rparr>"
  by (auto simp: dropFrameNotForUs_def split: if_splits)

text \<open>The part of the invariant that does not speak of the receiver.\<close>

definition em_core :: "('p, 'q) em \<Rightarrow> bool" where
  "em_core s \<longleftrightarrow> em_link s \<and> inner_ok (em_cur s) (mTxQueue (em_mac s))
     \<and> (\<forall>f. em_cur s = Some f \<longrightarrow> frame_fits f) \<and> mPauseUnitsRequested (em_mac s) * 512 < 2 ^ 31
     \<and> 0 \<le> backoffs s \<and> backoffs s \<le> 16"

lemma em_base_core:
  "em_base now s \<longleftrightarrow> em_core s \<and> (\<forall>m. frameBeingReceived s = Some m \<longrightarrow> receivable m)
     \<and> em_rx_ok (em_rx s) (armed (emEndRx s)) (frameBeingReceived s \<noteq> None)
     \<and> arrival_ok now (tm_at (emEndRx s)) (endRxArrival s) \<and> (em_duplex s \<longrightarrow> em_rx s \<noteq> RX_RECONNECT_STATE)"
  by (auto simp: em_base_def em_core_def)

definition same_reception :: "('p, 'q) em \<Rightarrow> ('p, 'q) em \<Rightarrow> bool" where
  "same_reception s t \<longleftrightarrow> em_rx t = em_rx s \<and> emEndRx t = emEndRx s \<and> endRxArrival t = endRxArrival s
     \<and> frameBeingReceived t = None \<and> em_duplex t = em_duplex s"

lemma em_pauseCommand_yields:
  assumes "em_par_ok par" and "em_core s" and "em_sender s" and "n * 512 < 2 ^ 31" and "frameBeingReceived s = None"
  shows "yields (on_mac (\<lambda>m. processPauseCommand (em_mp par) now n (m\<lparr>mStats := f (mStats m)\<rparr>)) s)
           (\<lambda>t. em_core t \<and> em_sender t \<and> same_reception s t)"
proof -
  define m where "m = (em_mac s)\<lparr>mStats := f (mStats (em_mac s))\<rparr>"
  have tx: "0 < txrate (mDescr m)" using assms(2) em_linkD(1) [of s] by (simp add: em_core_def m_def)
  have d: "durations_ok (em_mp par)" using assms(1) by (simp add: em_par_ok_def)
  have start: "\<exists>w. scheduleEndPausePeriod (em_mp par) now n m1 = Inr (m1\<lparr>mEndPause := w, mTransmitState := PAUSE_STATE\<rparr>)"
    if "0 < n" "m1 = m \<or> m1 = m\<lparr>mEndPause := cancelEvent (mEndPause m)\<rparr>" "\<not> armed (mEndPause m1)" for m1
    by (rule scheduleEndPausePeriod_returns) (use that tx d assms(4) in auto)
  consider "em_tx s = TX_IDLE_STATE" | "em_tx s = PAUSE_STATE" | "em_tx s \<noteq> TX_IDLE_STATE" "em_tx s \<noteq> PAUSE_STATE" by blast
  then show ?thesis
  proof cases
    case 1
    then show ?thesis
      using start [of m] assms(2-5) unfolding on_mac_def m_def [symmetric]
      by (cases "em_duplex s")
        (auto simp: processPauseCommand_def m_def em_core_def em_sender_def em_link_def same_reception_def)
  next
    case 2
    then show ?thesis
      using start [of "m\<lparr>mEndPause := cancelEvent (mEndPause m)\<rparr>"] assms(2-5) unfolding on_mac_def m_def [symmetric]
      by (cases "em_duplex s")
        (auto simp: processPauseCommand_def m_def em_core_def em_sender_def em_link_def same_reception_def cancelEvent_def
          Let_def)
  next
    case 3
    then show ?thesis
      using assms(2-5) by (cases "em_duplex s")
        (auto simp: on_mac_def processPauseCommand_def em_core_def em_sender_def em_link_def same_reception_def)
  qed
qed

lemma em_complete_yields:
  assumes "em_par_ok par" and "em_core s" and "em_sender s" and "frameBeingReceived s = Some m" and "receivable m"
  shows "yields (frameReceptionComplete par now s) (\<lambda>t. em_core t \<and> em_sender t \<and> same_reception s t)"
proof (cases m)
  case (EtherFrameMsg f)
  define s0 where "s0 = s\<lparr>frameBeingReceived := None\<rparr>"
  have s0: "em_core s0" "em_sender s0" "same_reception s s0" "frameBeingReceived s0 = None"
    using assms(2,3) by (simp_all add: s0_def em_core_def em_sender_def em_link_def same_reception_def)
  obtain b mm where d: "dropFrameNotForUs f (em_mac s0) = (b, mm)" by fastforce
  define s1 where "s1 = s0\<lparr>em_mac := mm\<rparr>"
  have s1': "s1 = s0\<lparr>em_mac := (em_mac s0)\<lparr>mStats := mStats mm\<rparr>\<rparr>"
    unfolding s1_def by (subst dropFrame_shape [OF d]) simp
  have s1: "em_core s1" "em_sender s1" "same_reception s s1" "frameBeingReceived s1 = None"
    using s0 by (simp_all add: s1' em_core_def em_sender_def em_link_def same_reception_def)
  have p: "pause_small f" using assms(5) EtherFrameMsg by simp
  consider "fr_bitError f" | "\<not> fr_bitError f" "b" | "\<not> fr_bitError f" "\<not> b" "pause_time f = None"
    | n where "\<not> fr_bitError f" "\<not> b" "pause_time f = Some n" by blast
  then show ?thesis
  proof cases
    case 1
    then show ?thesis
      using assms(4) EtherFrameMsg s0
      by (simp add: frameReceptionComplete_def s0_def on_mac_def em_core_def em_sender_def em_link_def same_reception_def)
  next
    case 2
    then show ?thesis
      using assms(4) EtherFrameMsg s1 d by (simp add: frameReceptionComplete_def s0_def s1_def Let_def)
  next
    case 3
    have "yields (on_mac (\<lambda>m. Inr (em_processReceivedDataFrame f m)) s1) (\<lambda>t. em_core t \<and> em_sender t \<and> same_reception s t)"
      using s1 by (simp add: on_mac_def em_processReceivedDataFrame_def em_core_def em_sender_def em_link_def
          same_reception_def Let_def)
    then show ?thesis
      using assms(4) EtherFrameMsg d 3 by (simp add: frameReceptionComplete_def s0_def s1_def Let_def)
  next
    case 4
    have "n * 512 < 2 ^ 31" using p 4 by (simp add: pause_small_def)
    from em_pauseCommand_yields [OF assms(1) s1(1,2) this s1(4)] show ?thesis
      using assms(4) EtherFrameMsg d 4 s1(3)
      by (auto simp: frameReceptionComplete_def s0_def s1_def Let_def same_reception_def yields_def)
  qed
next
  case EtherIFG
  then show ?thesis
    using assms by (simp add: frameReceptionComplete_def em_core_def em_sender_def em_link_def same_reception_def)
qed (use assms(5) in simp)

lemma em_endRx_yields:
  fixes s :: "('p, 'q) em"
  assumes "em_par_ok par" and "em_core s" and "em_sender s" and "em_rx s \<noteq> RX_IDLE_STATE" and "\<not> armed (emEndRx s)"
    and "endRxArrival s \<le> now" and "\<forall>m. frameBeingReceived s = Some m \<longrightarrow> receivable m"
    and "em_rx s = RECEIVING_STATE \<longrightarrow> frameBeingReceived s \<noteq> None"
  shows "yields (handleEndRxPeriod par now s) (em_inv now)"
proof -
  define dt where "dt = now - channelBusySince s"
  define first where "first = (case em_rx s of
               RECEIVING_STATE \<Rightarrow>
                 bindR (frameReceptionComplete par now s) (\<lambda>s1.
                   Inr (s1\<lparr>totalSuccessfulRxTxTime := totalSuccessfulRxTxTime s1 + dt\<rparr>))
             | RX_COLLISION_STATE \<Rightarrow> Inr (s\<lparr>totalCollisionTime := totalCollisionTime s + dt\<rparr>)
             | RX_RECONNECT_STATE \<Rightarrow> Inr (s\<lparr>endRxTimeList := []\<rparr>)
             | RX_IDLE_STATE \<Rightarrow> Inl (RuntimeError ''model error: invalid receiveState''))"
  have "yields first (\<lambda>t. em_core t \<and> em_sender t \<and> \<not> armed (emEndRx t) \<and> endRxArrival t \<le> now
      \<and> (\<forall>m. frameBeingReceived t = Some m \<longrightarrow> receivable m))"
  proof (cases "em_rx s")
    case RECEIVING_STATE
    then obtain m where m: "frameBeingReceived s = Some m" "receivable m" using assms(7,8) by auto
    show ?thesis
      unfolding first_def RECEIVING_STATE MACReceiveState.case
      by (rule yields_bind [OF em_complete_yields [OF assms(1-3) m]])
        (use assms(5,6) in \<open>auto simp: em_core_def em_sender_def em_link_def same_reception_def\<close>)
  qed (use assms in \<open>auto simp: first_def em_core_def em_sender_def em_link_def\<close>)
  moreover have "yields (let s2 = (set_rx RX_IDLE_STATE s1)\<lparr>numConcurrentTransmissions := 0\<rparr>
              in if em_tx s2 = TX_IDLE_STATE then em_scheduleEndIFGPeriod par now s2 else Inr s2) (em_inv now)"
    if "em_core s1 \<and> em_sender s1 \<and> \<not> armed (emEndRx s1) \<and> endRxArrival s1 \<le> now
      \<and> (\<forall>m. frameBeingReceived s1 = Some m \<longrightarrow> receivable m)" for s1 :: "('p, 'q) em"
  proof -
    define s2 where "s2 = (set_rx RX_IDLE_STATE s1)\<lparr>numConcurrentTransmissions := 0\<rparr>"
    have b: "em_base now s2" using that by (simp add: s2_def em_base_core em_core_def em_link_def)
    show ?thesis
    proof (cases "em_tx s2 = TX_IDLE_STATE")
      case True
      then have "tx_quiet s2" using that by (simp add: s2_def em_sender_def tx_quiet_def)
      from em_ifg_inv [OF assms(1) b this] show ?thesis using True by (simp add: s2_def Let_def)
    next
      case False
      then have "em_sender s2"
        using that by (cases "em_duplex s1") (simp_all add: s2_def em_sender_def)
      then show ?thesis using b False by (simp add: s2_def [symmetric] em_inv_def Let_def)
    qed
  qed
  ultimately show ?thesis
    unfolding handleEndRxPeriod_def Let_def dt_def [symmetric] first_def [symmetric] by (rule yields_bind)
qed

lemma reschedule_Inr:
  "reschedule_endRx now e s = Inr t \<longleftrightarrow> now \<le> e \<and> t = s\<lparr>emEndRx := (emEndRx s)\<lparr>tm_at := Some e\<rparr>, endRxArrival := e\<rparr>"
  by (auto simp: reschedule_endRx_def bindR_Inr_iff scheduleAt_Inr cancelEvent_def)

lemma addReception_Inr:
  assumes "addReception now e s = Inr t" and "arrival_ok now (tm_at (emEndRx s)) (endRxArrival s)"
    and "armed (emEndRx s) \<or> endRxArrival s < e"
  shows "t = s\<lparr>numConcurrentTransmissions := numConcurrentTransmissions t, emEndRx := emEndRx t,
      endRxArrival := endRxArrival t\<rparr>" "tm_at (emEndRx t) = Some (endRxArrival t)"
proof -
  have "t = s\<lparr>numConcurrentTransmissions := numConcurrentTransmissions t, emEndRx := emEndRx t,
      endRxArrival := endRxArrival t\<rparr> \<and> tm_at (emEndRx t) = Some (endRxArrival t)"
  proof (cases "endRxArrival s < e")
    case True
    then show ?thesis using assms(1) by (simp add: addReception_def reschedule_Inr)
  next
    case False
    then have "t = s\<lparr>numConcurrentTransmissions := numConcurrentTransmissions s + 1\<rparr>" and "armed (emEndRx s)"
      using assms(1,3) by (auto simp: addReception_def)
    then show ?thesis using assms(2) by (cases "tm_at (emEndRx s)") simp_all
  qed
  then show "t = s\<lparr>numConcurrentTransmissions := numConcurrentTransmissions t, emEndRx := emEndRx t,
      endRxArrival := endRxArrival t\<rparr>" "tm_at (emEndRx t) = Some (endRxArrival t)" by blast+
qed

definition arrival_fits :: "('p, 'q) em_par \<Rightarrow> ether_descr \<Rightarrow> 'p em_arrival \<Rightarrow> bool" where
  "arrival_fits par d a \<longleftrightarrow> 0 < ar_duration a \<and> mp_simtime (em_mp par) (halfBitTime d) \<le> ar_duration a
     \<and> (is_jam (ar_msg a) \<or> receivable (ar_msg a))"

lemma startRx_inv:
  assumes "scheduleEndRxPeriod now a s = Inr t" and "em_core s" and "em_sender s" and "receivable (ar_msg a)"
    and "endRxArrival s < now + ar_duration a" and "\<not> em_duplex s \<longrightarrow> em_tx s \<noteq> TRANSMITTING_STATE"
  shows "em_inv now t"
proof -
  define s1 where "s1 = set_rx RECEIVING_STATE (s\<lparr>frameBeingReceived := Some (ar_msg a)\<rparr>)"
  have "reschedule_endRx now (now + ar_duration a)
      (s1\<lparr>numConcurrentTransmissions := numConcurrentTransmissions s1 + 1\<rparr>) = Inr t"
    using assms(1,5) by (auto simp: scheduleEndRxPeriod_def addReception_def s1_def split: if_splits)
  then show ?thesis
    using assms(2-4,6) by (cases "em_duplex s")
      (simp_all add: reschedule_Inr s1_def em_inv_def em_base_core em_core_def em_link_def em_sender_def)
qed

lemma collision_inv:
  assumes "em_core s" and "em_sender s" and "\<forall>m. frameBeingReceived s = Some m \<longrightarrow> receivable m"
    and "tm_at (emEndRx s) = Some (endRxArrival s)" and "\<not> em_duplex s \<longrightarrow> em_tx s \<noteq> TRANSMITTING_STATE"
  shows "em_inv now (processDetectedCollision s)"
  using assms by (cases "em_duplex s")
    (simp_all add: processDetectedCollision_def em_inv_def em_base_core em_core_def em_link_def em_sender_def)

lemma overlap_inv:
  assumes "addReception now e s = Inr t" and "em_inv now s" and "em_rx s \<noteq> RX_IDLE_STATE"
  shows "em_inv now (processDetectedCollision t)"
proof -
  have a: "arrival_ok now (tm_at (emEndRx s)) (endRxArrival s)" "armed (emEndRx s)"
    using assms(2,3) by (cases "em_rx s"; simp add: em_inv_def em_base_def)+
  note t = addReception_Inr [OF assms(1) a(1) disjI1 [OF a(2)]]
  have "em_core s" "em_sender s" "\<forall>m. frameBeingReceived s = Some m \<longrightarrow> receivable m"
      "\<not> em_duplex s \<longrightarrow> em_tx s \<noteq> TRANSMITTING_STATE"
    using assms(2,3) by (auto simp: em_inv_def em_base_core em_sender_def)
  then have "em_core t" "em_sender t" "\<forall>m. frameBeingReceived t = Some m \<longrightarrow> receivable m"
      "\<not> em_duplex t \<longrightarrow> em_tx t \<noteq> TRANSMITTING_STATE"
    by - ((subst t(1))?, simp add: em_core_def em_link_def em_sender_def)+
  then show ?thesis using t(2) by (intro collision_inv)
qed

text \<open>Updates of the receiver.\<close>

lemma em_receiver_updates [simp]:
  "em_core (s\<lparr>numConcurrentTransmissions := n\<rparr>) = em_core s" "em_core (s\<lparr>emEndRx := w\<rparr>) = em_core s"
  "em_core (s\<lparr>endRxArrival := a\<rparr>) = em_core s" "em_core (s\<lparr>frameBeingReceived := fr\<rparr>) = em_core s"
  "em_core (s\<lparr>endRxTimeList := rs\<rparr>) = em_core s" "em_core (s\<lparr>numCollisions := n\<rparr>) = em_core s"
  "em_core (s\<lparr>em_mac := (em_mac s)\<lparr>mReceiveState := st\<rparr>\<rparr>) = em_core s"
  "em_sender (s\<lparr>numConcurrentTransmissions := n\<rparr>) = em_sender s" "em_sender (s\<lparr>emEndRx := w\<rparr>) = em_sender s"
  "em_sender (s\<lparr>endRxArrival := a\<rparr>) = em_sender s" "em_sender (s\<lparr>frameBeingReceived := fr\<rparr>) = em_sender s"
  "em_sender (s\<lparr>endRxTimeList := rs\<rparr>) = em_sender s" "em_sender (s\<lparr>numCollisions := n\<rparr>) = em_sender s"
  by (simp_all add: em_core_def em_link_def em_sender_def)

lemma em_invD:
  assumes "em_inv now s"
  shows "em_core s" "em_sender s" "\<forall>m. frameBeingReceived s = Some m \<longrightarrow> receivable m"
    "arrival_ok now (tm_at (emEndRx s)) (endRxArrival s)"
    "em_rx_ok (em_rx s) (armed (emEndRx s)) (frameBeingReceived s \<noteq> None)"
    "em_duplex s \<longrightarrow> em_rx s \<noteq> RX_RECONNECT_STATE"
    "\<not> em_duplex s \<Longrightarrow> em_rx s \<noteq> RX_IDLE_STATE \<Longrightarrow> em_tx s \<noteq> TRANSMITTING_STATE"
    "em_rx s \<noteq> RX_IDLE_STATE \<Longrightarrow> tm_at (emEndRx s) = Some (endRxArrival s)"
proof -
  show "em_core s" "em_sender s" "\<forall>m. frameBeingReceived s = Some m \<longrightarrow> receivable m"
    "arrival_ok now (tm_at (emEndRx s)) (endRxArrival s)"
    "em_rx_ok (em_rx s) (armed (emEndRx s)) (frameBeingReceived s \<noteq> None)"
    "em_duplex s \<longrightarrow> em_rx s \<noteq> RX_RECONNECT_STATE"
    using assms by (simp_all add: em_inv_def em_base_core)
  show "\<not> em_duplex s \<Longrightarrow> em_rx s \<noteq> RX_IDLE_STATE \<Longrightarrow> em_tx s \<noteq> TRANSMITTING_STATE"
    using assms by (auto simp: em_inv_def em_sender_def)
  show "tm_at (emEndRx s) = Some (endRxArrival s)" if "em_rx s \<noteq> RX_IDLE_STATE"
  proof (cases "tm_at (emEndRx s)")
    case None
    then show ?thesis using assms that by (cases "em_rx s") (simp_all add: em_inv_def em_base_core)
  qed (use assms in \<open>simp add: em_inv_def em_base_core\<close>)
qed

lemma jam_received_inv:
  assumes "processReceivedJam now d s = Inr t" and "em_inv now s" and "em_rx s \<noteq> RX_IDLE_STATE"
  shows "em_inv now t"
proof -
  note i = em_invD [OF assms(2)]
  define s1 where "s1 = s\<lparr>numConcurrentTransmissions := numConcurrentTransmissions s - 1\<rparr>"
  obtain s2 where r: "(if numConcurrentTransmissions s1 = 0 \<or> endRxArrival s1 < now + d
                     then reschedule_endRx now (now + d) s1 else Inr s1) = Inr s2"
    and t: "t = processDetectedCollision s2"
    using assms(1) by (auto simp: processReceivedJam_def s1_def Let_def bindR_Inr_iff split: if_split_asm)
  have "s2 = s1 \<or> s2 = s1\<lparr>emEndRx := (emEndRx s1)\<lparr>tm_at := Some (now + d)\<rparr>, endRxArrival := now + d\<rparr>"
    using r by (auto simp: reschedule_Inr split: if_splits)
  moreover have "em_inv now (processDetectedCollision s1)"
    by (rule collision_inv) (use i(1,2,3,7,8) assms(3) in \<open>simp_all add: s1_def\<close>)
  moreover have "em_inv now (processDetectedCollision
      (s1\<lparr>emEndRx := (emEndRx s1)\<lparr>tm_at := Some (now + d)\<rparr>, endRxArrival := now + d\<rparr>))"
    by (rule collision_inv) (use i(1,2,3,7) assms(3) in \<open>simp_all add: s1_def\<close>)
  ultimately show ?thesis unfolding t by blast
qed

lemma reconnect_inv:
  assumes "addReceptionInReconnectState now i e s = Inr t" and "em_inv now s" and "em_rx s = RX_RECONNECT_STATE"
  shows "em_inv now t"
proof -
  have a: "armed (emEndRx s)" "\<not> em_duplex s" using assms(2,3) by (simp_all add: em_inv_def em_base_core)
  obtain rs where rs: "(if endRxArrival s \<noteq> snd (last rs) then reschedule_endRx now (snd (last rs)) (s\<lparr>endRxTimeList := rs\<rparr>)
      else Inr (s\<lparr>endRxTimeList := rs\<rparr>)) = Inr t"
    using assms(1) by (auto simp: addReceptionInReconnectState_def Let_def)
  then have "t = s\<lparr>endRxTimeList := rs\<rparr>
      \<or> t = s\<lparr>endRxTimeList := rs, emEndRx := (emEndRx s)\<lparr>tm_at := Some (snd (last rs))\<rparr>, endRxArrival := snd (last rs)\<rparr>"
    by (auto simp: reschedule_Inr split: if_splits)
  then show ?thesis
    using assms(2,3) a by (elim disjE) (simp_all add: em_inv_def em_base_core em_core_def em_link_def em_sender_def)
qed

lemma interrupt_inv:
  assumes "em_par_ok par" and "interrupt_transmission par now e s = Inr t" and "em_inv now s" and "now < e"
    and "\<not> em_duplex s" and "em_tx s = TRANSMITTING_STATE \<or> em_tx s = SEND_IFG_STATE"
  shows "em_inv now t"
proof -
  note i = em_invD [OF assms(3)]
  define s0 where "s0 = set_rx RX_COLLISION_STATE s"
  obtain s1 where a: "addReception now e s0 = Inr s1"
    and j: "bindR (sendJamSignal par now (s1\<lparr>em_mac := (if em_tx s1 = TRANSMITTING_STATE
              then (em_mac s1)\<lparr>mEndTx := cancelEvent (mEndTx (em_mac s1))\<rparr>
              else (em_mac s1)\<lparr>mEndIFG := cancelEvent (mEndIFG (em_mac s1))\<rparr>)\<rparr>)) (\<lambda>s2.
            Inr (s2\<lparr>numCollisions := numCollisions s2 + 1\<rparr>)) = Inr t"
    using assms(2) by (auto simp: interrupt_transmission_def s0_def Let_def bindR_Inr_iff)
  have ok: "arrival_ok now (tm_at (emEndRx s0)) (endRxArrival s0)" "armed (emEndRx s0) \<or> endRxArrival s0 < e"
    using i(4) assms(4) by (cases "tm_at (emEndRx s)"; simp add: s0_def)+
  note s1 = addReception_Inr [OF a ok]
  define s2 where "s2 = s1\<lparr>em_mac := (if em_tx s1 = TRANSMITTING_STATE
              then (em_mac s1)\<lparr>mEndTx := cancelEvent (mEndTx (em_mac s1))\<rparr>
              else (em_mac s1)\<lparr>mEndIFG := cancelEvent (mEndIFG (em_mac s1))\<rparr>)\<rparr>"
  have core: "em_core s1" "em_tx s1 = em_tx s" "em_sender (set_rx (em_rx s) s1)" "currentSendPkTreeID s1 = currentSendPkTreeID s"
    "frameBeingReceived s1 = frameBeingReceived s" "em_duplex s1 = em_duplex s" "em_rx s1 = RX_COLLISION_STATE"
    using i(1,2) by - ((subst s1(1))?, simp add: s0_def em_core_def em_link_def em_sender_def)+
  have "em_core s2 \<and> tx_quiet s2 \<and> currentSendPkTreeID s2 \<noteq> 0 \<and> em_cur s2 \<noteq> None \<and> em_rx s2 = RX_COLLISION_STATE
      \<and> frameBeingReceived s2 = frameBeingReceived s \<and> emEndRx s2 = emEndRx s1 \<and> endRxArrival s2 = endRxArrival s1
      \<and> \<not> em_duplex s2"
    using core assms(5,6) i(2)
    by (elim disjE; simp add: s2_def em_core_def em_link_def em_sender_def tx_quiet_def cancelEvent_def)
  then have "yields (bindR (sendJamSignal par now s2) (\<lambda>s3. Inr (s3\<lparr>numCollisions := numCollisions s3 + 1\<rparr>))) (em_inv now)"
    using i(3) s1(2)
    by (intro yields_bindI jam_yields [OF assms(1)])
      (auto simp: em_inv_def em_base_core em_core_def em_link_def em_sender_def tx_quiet_def)
  then show ?thesis using j by (simp add: s2_def)
qed

lemma network_inv:
  assumes "em_par_ok par" and "em_processMsgFromNetwork par now a s = Inr t" and "em_inv now s"
    and "arrival_fits par (em_descr s) a"
  shows "em_inv now t"
proof -
  note i = em_invD [OF assms(3)]
  have up: "mConnected (em_mac s)" "\<not> mDisabled (em_mac s)" using i(1) by (simp_all add: em_core_def em_link_def)
  have dur: "0 < ar_duration a" "mp_simtime (em_mp par) (halfBitTime (em_descr s)) \<le> ar_duration a"
    and rec: "\<not> is_jam (ar_msg a) \<Longrightarrow> receivable (ar_msg a)"
    using assms(4) by (auto simp: arrival_fits_def)
  note r = assms(2) [unfolded em_processMsgFromNetwork_def Let_def]
  consider (reconnect) "\<not> em_duplex s" "em_rx s = RX_RECONNECT_STATE"
    | (busy) "\<not> em_duplex s" "em_rx s \<noteq> RX_RECONNECT_STATE" "em_tx s = TRANSMITTING_STATE \<or> em_tx s = SEND_IFG_STATE"
    | (idle) "em_rx s = RX_IDLE_STATE" "em_duplex s \<or> em_tx s \<noteq> TRANSMITTING_STATE \<and> em_tx s \<noteq> SEND_IFG_STATE"
    | (nextframe) "em_rx s = RECEIVING_STATE" "\<not> is_jam (ar_msg a)" "em_duplex s \<or> em_tx s \<noteq> TRANSMITTING_STATE \<and> em_tx s \<noteq> SEND_IFG_STATE"
        "endRxArrival s - now < mp_simtime (em_mp par) (halfBitTime (em_descr s))"
    | (jam) "em_rx s = RECEIVING_STATE \<or> em_rx s = RX_COLLISION_STATE" "is_jam (ar_msg a)"
        "em_duplex s \<or> em_tx s \<noteq> TRANSMITTING_STATE \<and> em_tx s \<noteq> SEND_IFG_STATE"
    | (overlap) "em_rx s = RECEIVING_STATE \<or> em_rx s = RX_COLLISION_STATE" "\<not> is_jam (ar_msg a)"
        "em_duplex s \<or> em_tx s \<noteq> TRANSMITTING_STATE \<and> em_tx s \<noteq> SEND_IFG_STATE"
        "em_rx s = RECEIVING_STATE \<longrightarrow> \<not> endRxArrival s - now < mp_simtime (em_mp par) (halfBitTime (em_descr s))"
    using i(6) by (cases "em_rx s") blast+
  then show ?thesis
  proof cases
    case reconnect
    then show ?thesis using r up reconnect_inv [OF _ assms(3)] by (auto split: if_split_asm)
  next
    case busy
    then have "interrupt_transmission par now (now + ar_duration a) s = Inr t" using r up by (auto split: if_split_asm)
    then show ?thesis by (rule interrupt_inv [OF assms(1) _ assms(3)]) (use busy dur in simp_all)
  next
    case idle
    have j: "\<not> is_jam (ar_msg a)" and s: "scheduleEndRxPeriod now a (s\<lparr>channelBusySince := now\<rparr>) = Inr t"
      using r up idle by (auto split: if_split_asm)
    show ?thesis
      by (rule startRx_inv [OF s])
        (use i(1,2,4,5) idle dur rec [OF j] in \<open>auto simp: em_core_def em_link_def em_sender_def\<close>)
  next
    case nextframe
    have "em_rx_ok (em_rx s) (armed (emEndRx s)) (frameBeingReceived s \<noteq> None)" using i(5) by simp
    then obtain m where m: "frameBeingReceived s = Some m" "receivable m" using nextframe(1) i(3) by auto
    define s0 where "s0 = s\<lparr>emEndRx := cancelEvent (emEndRx s)\<rparr>"
    obtain u where u: "frameReceptionComplete par now s0 = Inr u"
      and t: "scheduleEndRxPeriod now a
                 (u\<lparr>totalSuccessfulRxTxTime := totalSuccessfulRxTxTime u + (now - channelBusySince u),
                     channelBusySince := now\<rparr>) = Inr t"
      using r up nextframe by (auto simp: bindR_Inr_iff s0_def split: if_split_asm)
    have "yields (frameReceptionComplete par now s0) (\<lambda>t. em_core t \<and> em_sender t \<and> same_reception s0 t)"
      by (rule em_complete_yields [OF assms(1) _ _ _ m(2)]) (use i(1,2) m in \<open>simp_all add: s0_def\<close>)
    then have c: "em_core u" "em_sender u" "same_reception s0 u" by (simp_all add: u)
    show ?thesis
      by (rule startRx_inv [OF t])
        (use c nextframe dur rec in \<open>auto simp: same_reception_def em_core_def em_link_def em_sender_def s0_def\<close>)
  next
    case jam
    then show ?thesis
      using r up jam_received_inv [OF _ assms(3)] by (auto split: if_split_asm)
  next
    case overlap
    then show ?thesis
      using r up overlap_inv [OF _ assms(3)] by (auto simp: bindR_Inr_iff split: if_split_asm)
  qed
qed

lemma em_base_queue:
  assumes "em_base now s" and "inner_ok c q" and "\<forall>g. c = Some g \<longrightarrow> frame_fits g"
  shows "em_base now (s\<lparr>em_mac := (em_mac s)\<lparr>mStats := x, mTxQueue := q, mCurTxFrame := c\<rparr>\<rparr>)"
  using assms by (simp add: em_base_def em_link_def)

lemma em_sender_queue:
  assumes "em_sender s" and "em_tx s \<noteq> TX_IDLE_STATE"
  shows "em_sender (s\<lparr>em_mac := (em_mac s)\<lparr>mStats := x, mTxQueue := q, mCurTxFrame := Some g\<rparr>\<rparr>)"
  using assms unfolding em_sender_def
  by (cases "em_tx s"; cases "em_duplex s"; simp)

lemma fill_tx:
  "fillIFGIfInBurst par now s = Inr t \<Longrightarrow> em_tx t = em_tx s \<or> em_tx t = SEND_IFG_STATE"
  by (auto simp: fillIFGIfInBurst_def Let_def bindR_Inr_iff split: if_splits)

lemma upper_inv:
  assumes "em_par_ok par" and "em_processFrameFromUpperLayer ops par now f s = Inr t" and "em_inv now s"
  shows "em_inv now t"
proof -
  note i = em_invD [OF assms(3)]
  have up: "mConnected (em_mac s)" "\<not> mDisabled (em_mac s)" using i(1) by (simp_all add: em_core_def em_link_def)
  define frame where "frame = own_src (em_mac s) (pad_frame f)"
  define m1 where "m1 = (if isPauseFrame frame then em_mac s else count_in numFramesFromHL_update 1 (em_mac s))"
  obtain m2 s2 where st: "store_frame frame m1 = Inr m2"
    and s2: "(case mTxQueue m1 of Ext q \<Rightarrow> fillIFGIfInBurst par now (s\<lparr>em_mac := m2\<rparr>) | _ \<Rightarrow> Inr (s\<lparr>em_mac := m2\<rparr>)) = Inr s2"
    and t: "(if (em_duplex s2 \<or> em_rx s2 = RX_IDLE_STATE) \<and> em_tx s2 = TX_IDLE_STATE
             then em_startFrameTransmission par now s2 else Inr s2) = Inr t"
    and len: "\<not> MAX_ETHERNET_FRAME_BYTES < fr_byteLength (pad_frame f)"
    using assms(2) up
    by (auto simp: em_processFrameFromUpperLayer_def Let_def frame_def [symmetric] m1_def [symmetric]
        bindR_Inr_iff split: if_split_asm)
  have fit: "frame_fits frame" using pad_frame_fits [of f] len by (simp add: own_src_def frame_def not_less)
  have ok: "inner_ok (mCurTxFrame m1) (mTxQueue m1)" "\<forall>g. mCurTxFrame m1 = Some g \<longrightarrow> frame_fits g"
    using i(1) by (simp_all add: m1_def em_core_def)
  note q = store_frame_queue [OF st fit ok]
  have m2: "m2 = (em_mac s)\<lparr>mStats := mStats m1, mTxQueue := mTxQueue m2, mCurTxFrame := mCurTxFrame m2\<rparr>"
    by (subst store_frame_shape [OF st]) (simp add: m1_def)
  define s1 where "s1 = s\<lparr>em_mac := m2\<rparr>"
  have b: "em_base now s1"
    unfolding s1_def using assms(3)
    by (subst m2, intro em_base_queue q(1,2)) (simp add: em_inv_def)
  have idle: "em_tx s1 = em_tx s" "em_rx s1 = em_rx s" "em_duplex s1 = em_duplex s"
    by (simp_all add: s1_def, (subst m2, simp)+)
  show ?thesis
  proof (cases "em_tx s = TX_IDLE_STATE")
    case False
    obtain g where g: "mCurTxFrame m2 = Some g" using q(3) by auto
    have "em_sender s1"
      unfolding s1_def by (subst m2, subst g, rule em_sender_queue [OF i(2) False])
    then have "em_inv now s1" using b by (simp add: em_inv_def)
    then have "em_inv now s2"
      using s2 em_fill_yields [OF assms(1), of now s1]
      by (auto simp: s1_def yields_def split: MacQueue.splits)
    moreover have "em_tx s2 \<noteq> TX_IDLE_STATE"
      using s2 False idle(1) fill_tx [of par now s1 s2] unfolding s1_def [symmetric] by (auto split: MacQueue.splits)
    ultimately show ?thesis using t by (simp split: if_split_asm)
  next
    case True
    have "tx_quiet s1"
      unfolding s1_def using i(2) True by (subst m2) (simp add: em_sender_def tx_quiet_def)
    have "s2 = s1 \<or> s2 = s1\<lparr>bytesSentInBurst := 0, framesSentInBurst := 0\<rparr>"
      using s2 idle(1) True unfolding s1_def [symmetric] by (auto simp: fillIFGIfInBurst_def split: MacQueue.splits if_splits option.splits)
    then have s2': "em_base now s2" "tx_quiet s2" "em_tx s2 = TX_IDLE_STATE" "em_cur s2 \<noteq> None" "em_rx s2 = em_rx s1" "em_duplex s2 = em_duplex s1"
      using b \<open>tx_quiet s1\<close> idle q(3) True by (auto simp: s1_def)
    show ?thesis
    proof (cases "em_duplex s2 \<or> em_rx s2 = RX_IDLE_STATE")
      case True
      then show ?thesis using t s2' em_start_yields [OF assms(1) s2'(1,2,4)] by (auto simp: yields_def)
    next
      case False
      then have "em_sender s2" using s2' by (simp add: em_sender_def tx_quiet_def)
      then show ?thesis using False t s2' by (simp add: em_inv_def)
    qed
  qed
qed

end
