(* ===== verification/EtherMACEquiv.thy ===== *)
theory EtherMACEquiv
  imports EtherMACInv
begin

text \<open>
  \<open>EtherMAC\<close> in full duplex mode against \<open>EtherMACFullDuplex\<close>: what both send is the same, whatever frames come
  from above and whenever the timers of the transmitter end.
\<close>

section \<open>States that agree\<close>

text \<open>The frames among what was sent.\<close>

fun sent_frames :: "'p em_signal list \<Rightarrow> 'p EtherFrame list" where
  "sent_frames [] = []"
| "sent_frames (SentFrame f # xs) = f # sent_frames xs"
| "sent_frames (_ # xs) = sent_frames xs"

lemma sent_frames_append [simp]: "sent_frames (xs @ ys) = sent_frames xs @ sent_frames ys"
  by (induction xs rule: sent_frames.induct) auto

text \<open>
  A state of \<open>EtherMAC\<close> in full duplex mode agrees with a state of \<open>EtherMACFullDuplex\<close>: the members of the
  base class are the same, but for the counter of bytes sent, and so are the frames sent.
\<close>

definition fd_same :: "('p, 'q) em \<Rightarrow> ('p, 'q) mac \<Rightarrow> bool" where
  "fd_same s m \<longleftrightarrow> em_mac s = m\<lparr>mPhysOut := mPhysOut (em_mac s), mStats := mStats (em_mac s)\<rparr>
     \<and> mStats (em_mac s) = (mStats m)\<lparr>numBytesSent := numBytesSent (mStats (em_mac s))\<rparr>
     \<and> sent_frames (emSignals s) = mPhysOut m
     \<and> mDuplexMode m \<and> \<not> mFrameBursting m \<and> mTransmitState m \<noteq> SEND_IFG_STATE"

abbreviation both :: "('a \<Rightarrow> 'b \<Rightarrow> bool) \<Rightarrow> 'a res \<Rightarrow> 'b res \<Rightarrow> bool" where
  "both R \<equiv> rel_sum (\<lambda>_ _. True) R"

lemma both_bind: "both R r r' \<Longrightarrow> (\<And>a b. R a b \<Longrightarrow> both Q (f a) (g b)) \<Longrightarrow> both Q (bindR r f) (bindR r' g)"
  by (cases r; cases r') auto

lemma both_self: "(\<And>a. r = Inr a \<Longrightarrow> R a a) \<Longrightarrow> both R r r"
  by (cases r) auto

text \<open>The base class does not look at what is counted and logged.\<close>

definition recast :: "'p EtherFrame list \<Rightarrow> mac_stats \<Rightarrow> ('p, 'q) mac res \<Rightarrow> ('p, 'q) mac res" where
  "recast p x r = bindR r (\<lambda>m. Inr (m\<lparr>mPhysOut := p, mStats := x\<rparr>))"

lemma recast_simps [simp]: "recast p x (Inl e) = Inl e" "recast p x (Inr m) = Inr (m\<lparr>mPhysOut := p, mStats := x\<rparr>)"
  by (simp_all add: recast_def)

lemma recast_gap:
  "scheduleEndIFGPeriod par now (m\<lparr>mPhysOut := p, mStats := x\<rparr>) = recast p x (scheduleEndIFGPeriod par now m)"
  by (cases m) (simp add: scheduleEndIFGPeriod_def Let_def scheduleAt_def)

lemma recast_pause:
  "scheduleEndPausePeriod par now n (m\<lparr>mPhysOut := p, mStats := x\<rparr>) = recast p x (scheduleEndPausePeriod par now n m)"
  by (cases m) (simp add: scheduleEndPausePeriod_def Let_def scheduleAt_def)

lemma recast_next:
  "getNextFrameFromQueue ops (m\<lparr>mPhysOut := p, mStats := x\<rparr>) = recast p x (getNextFrameFromQueue ops m)"
  by (cases m) (simp add: getNextFrameFromQueue_def split: MacQueue.split list.split)

lemma recast_store:
  "store_frame f (m\<lparr>mPhysOut := p, mStats := x\<rparr>) = recast p x (store_frame f m)"
  by (cases m) (auto simp: store_frame_def Let_def split: MacQueue.split)

lemma recast_channel:
  "readChannelParameters e ph (m\<lparr>mPhysOut := p, mStats := x\<rparr>) = recast p x (readChannelParameters e ph m)"
  by (cases m) (simp add: readChannelParameters_def adopt_channel_def Let_def split: option.split)

lemma fd_sameE:
  assumes "fd_same s m"
  obtains p x b where "em_mac s = m\<lparr>mPhysOut := p, mStats := x\<rparr>" "x = (mStats m)\<lparr>numBytesSent := b\<rparr>"
    "sent_frames (emSignals s) = mPhysOut m" "mDuplexMode m" "\<not> mFrameBursting m" "mTransmitState m \<noteq> SEND_IFG_STATE"
  using assms unfolding fd_same_def by blast

text \<open>An operation of the base class on both sides.\<close>

lemma same_on_mac:
  assumes "fd_same s m" and "\<And>p x. f (m\<lparr>mPhysOut := p, mStats := x\<rparr>) = recast p x (f m)"
    and "\<And>t. f m = Inr t \<Longrightarrow> mPhysOut t = mPhysOut m \<and> mStats t = mStats m \<and> mDuplexMode t = mDuplexMode m
           \<and> mFrameBursting t = mFrameBursting m \<and> (mTransmitState m \<noteq> SEND_IFG_STATE \<longrightarrow> mTransmitState t \<noteq> SEND_IFG_STATE)"
  shows "both fd_same (on_mac f s) (f m)"
proof -
  obtain p x b where e: "em_mac s = m\<lparr>mPhysOut := p, mStats := x\<rparr>" and c: "x = (mStats m)\<lparr>numBytesSent := b\<rparr>"
    "sent_frames (emSignals s) = mPhysOut m" "mDuplexMode m" "\<not> mFrameBursting m" "mTransmitState m \<noteq> SEND_IFG_STATE"
    using assms(1) by (rule fd_sameE)
  show ?thesis
  proof (cases "f m")
    case (Inl err)
    then show ?thesis by (simp add: on_mac_def e assms(2))
  next
    case (Inr t)
    then show ?thesis using c assms(3) [OF Inr] by (simp add: on_mac_def e assms(2) fd_same_def)
  qed
qed

lemma both_then: "both R r r' \<Longrightarrow> (\<And>a b. R a b \<Longrightarrow> Q (g a) b) \<Longrightarrow> both Q (bindR r (\<lambda>a. Inr (g a))) r'"
  by (cases r; cases r') auto

lemma fd_same_updates [simp]:
  "fd_same (s\<lparr>endIFGSent := t\<rparr>) m = fd_same s m" "fd_same (s\<lparr>currentSendPkTreeID := i\<rparr>) m = fd_same s m"
  "fd_same (s\<lparr>backoffs := i\<rparr>) m = fd_same s m" "fd_same (s\<lparr>channelBusySince := t\<rparr>) m = fd_same s m"
  by (simp_all add: fd_same_def)

lemma fd_same_eqs:
  assumes "fd_same s m"
  shows "em_tx s = mTransmitState m" "em_cur s = mCurTxFrame m" "em_duplex s" "\<not> mFrameBursting (em_mac s)"
    "mPauseUnitsRequested (em_mac s) = mPauseUnitsRequested m" "mChannel (em_mac s) = mChannel m" "mEndTx (em_mac s) = mEndTx m"
    "mAddress (em_mac s) = mAddress m" "em_descr s = mDescr m" "mTxQueue (em_mac s) = mTxQueue m"
    "mConnected (em_mac s) = mConnected m" "mDisabled (em_mac s) = mDisabled m" "mOperational (em_mac s) = mOperational m"
    "mChannelsDiffer (em_mac s) = mChannelsDiffer m" "em_tx s \<noteq> SEND_IFG_STATE"
  by (rule fd_sameE [OF assms], simp)+

lemma same_gap:
  assumes "fd_same s m"
  shows "both fd_same (em_scheduleEndIFGPeriod par now s) (scheduleEndIFGPeriod (em_mp par) now m)"
  unfolding em_scheduleEndIFGPeriod_def
  by (rule both_then [OF same_on_mac [OF assms recast_gap]])
    (auto simp: scheduleEndIFGPeriod_def Let_def bindR_Inr_iff split: if_splits)

lemma same_pause:
  assumes "fd_same s m"
  shows "both fd_same (em_scheduleEndPausePeriod par now n s) (scheduleEndPausePeriod (em_mp par) now n m)"
  unfolding em_scheduleEndPausePeriod_def
  by (rule same_on_mac [OF assms recast_pause])
    (auto simp: scheduleEndPausePeriod_def Let_def bindR_Inr_iff split: if_splits)

lemma same_next:
  assumes "fd_same s m"
  shows "both fd_same (on_mac (getNextFrameFromQueue ops) s) (getNextFrameFromQueue ops m)"
  by (rule same_on_mac [OF assms recast_next])
    (auto simp: getNextFrameFromQueue_def split: MacQueue.splits list.splits)

lemma same_start:
  assumes "fd_same s m"
  shows "both fd_same (em_startFrameTransmission par now s) (startFrameTransmission (em_mp par) now m)"
proof (cases "mCurTxFrame m")
  case None
  then show ?thesis
    using fd_same_eqs(2) [OF assms] by (simp add: em_startFrameTransmission_def startFrameTransmission_def)
next
  case (Some f)
  note e = fd_same_eqs [OF assms]
  have w: "em_wire_frame s f = wire_frame m f"
    using e by (simp add: em_wire_frame_def wire_frame_def Let_def)
  show ?thesis
  proof (cases "mChannel m")
    case None
    then show ?thesis
      using e Some by (simp add: em_startFrameTransmission_def startFrameTransmission_def em_scheduleEndTxPeriod_def
          finish_time_def Let_def)
  next
    case (Some ch)
    obtain p x b where s: "em_mac s = m\<lparr>mPhysOut := p, mStats := x\<rparr>" and c: "x = (mStats m)\<lparr>numBytesSent := b\<rparr>"
      "sent_frames (emSignals s) = mPhysOut m" "mDuplexMode m" "\<not> mFrameBursting m"
      using assms by (rule fd_sameE)
    then show ?thesis
      using Some e \<open>mCurTxFrame m = Some f\<close> w
      by (simp add: em_startFrameTransmission_def startFrameTransmission_def em_scheduleEndTxPeriod_def
          finish_time_def Let_def scheduleAt_def fd_same_def)
  qed
qed

lemma same_begin:
  assumes "fd_same s m"
  shows "both fd_same (em_beginSendFrames par now s) (beginSendFrames (em_mp par) now m)"
proof -
  note e = fd_same_eqs [OF assms]
  have "fd_same (set_tx TX_IDLE_STATE s) (m\<lparr>mTransmitState := TX_IDLE_STATE\<rparr>)"
    by (rule fd_sameE [OF assms]) (simp add: fd_same_def)
  then show ?thesis using e same_start [OF assms] by (simp add: em_beginSendFrames_def beginSendFrames_def)
qed

lemma same_endTx:
  assumes "fd_same s m"
  shows "both fd_same (em_handleEndTxPeriod ops par now s) (handleEndTxPeriod ops (em_mp par) now m)"
proof (cases "mTransmitState m = TRANSMITTING_STATE \<and> mCurTxFrame m \<noteq> None")
  case False
  then show ?thesis
    using fd_same_eqs [OF assms] by (auto simp: em_handleEndTxPeriod_def handleEndTxPeriod_def)
next
  case True
  then obtain f where f: "mCurTxFrame m = Some f" by auto
  define m1 where "m1 = (count_sent f m)\<lparr>mCurTxFrame := None, mLastTxFinishTime := now\<rparr>"
  define s1 where "s1 = s\<lparr>currentSendPkTreeID := 0,
      em_mac := (em_count_sent f (em_mac s))\<lparr>mCurTxFrame := None, mLastTxFinishTime := now\<rparr>\<rparr>"
  have s1: "fd_same s1 m1"
    by (rule fd_sameE [OF assms])
      (cases "isPauseFrame f"; cases "mStats m"; simp add: s1_def m1_def fd_same_def em_count_sent_def count_sent_def)
  have gap: "both fd_same (pause_or_gap par now s2)
      (if mPauseUnitsRequested m2 > 0
       then bindR (scheduleEndPausePeriod (em_mp par) now (mPauseUnitsRequested m2) m2) (\<lambda>s3.
              Inr (s3\<lparr>mPauseUnitsRequested := 0\<rparr>))
       else scheduleEndIFGPeriod (em_mp par) now m2)" if "fd_same s2 m2" for s2 :: "('a, 'b) em" and m2
  proof -
    note e = fd_same_eqs [OF that]
    have "both fd_same (bindR (em_scheduleEndPausePeriod par now (mPauseUnitsRequested m2) s2) (\<lambda>s3.
        Inr (s3\<lparr>em_mac := (em_mac s3)\<lparr>mPauseUnitsRequested := 0\<rparr>\<rparr>)))
      (bindR (scheduleEndPausePeriod (em_mp par) now (mPauseUnitsRequested m2) m2) (\<lambda>s3. Inr (s3\<lparr>mPauseUnitsRequested := 0\<rparr>)))"
      by (rule both_bind [OF same_pause [OF that]]) (erule fd_sameE, simp add: fd_same_def)
    moreover have "both fd_same (bindR (em_scheduleEndIFGPeriod par now s2) (\<lambda>s3. case mTxQueue (em_mac s3) of
        Ext q \<Rightarrow> Inr s3 | _ \<Rightarrow> fillIFGIfInBurst par now s3)) (bindR (scheduleEndIFGPeriod (em_mp par) now m2) Inr)"
      by (rule both_bind [OF same_gap [OF that]])
        (use fd_same_eqs(4) in \<open>auto simp: fillIFGIfInBurst_def split: MacQueue.split\<close>)
    moreover have "bindR r Inr = r" for r :: "('a, 'b) mac res" by (cases r) auto
    ultimately show ?thesis using e by (simp add: pause_or_gap_def Let_def)
  qed
  have "both fd_same (bindR (on_mac (getNextFrameFromQueue ops) s1) (\<lambda>s2.
             let s3 = (if \<not> em_duplex s2
                       then s2\<lparr>totalSuccessfulRxTxTime := totalSuccessfulRxTxTime s2 + (now - channelBusySince s2)\<rparr>
                       else s2)
             in pause_or_gap par now (s3\<lparr>backoffs := 0\<rparr>)))
     (bindR (getNextFrameFromQueue ops m1) (\<lambda>m2.
               if mPauseUnitsRequested m2 > 0
               then bindR (scheduleEndPausePeriod (em_mp par) now (mPauseUnitsRequested m2) m2) (\<lambda>s3.
                      Inr (s3\<lparr>mPauseUnitsRequested := 0\<rparr>))
               else scheduleEndIFGPeriod (em_mp par) now m2))"
  proof (rule both_bind [OF same_next [OF s1]])
    fix s2 :: "('a, 'b) em" and m2
    assume i: "fd_same s2 m2"
    then show "both fd_same (let s3 = (if \<not> em_duplex s2
                       then s2\<lparr>totalSuccessfulRxTxTime := totalSuccessfulRxTxTime s2 + (now - channelBusySince s2)\<rparr>
                       else s2)
             in pause_or_gap par now (s3\<lparr>backoffs := 0\<rparr>))
        (if mPauseUnitsRequested m2 > 0
               then bindR (scheduleEndPausePeriod (em_mp par) now (mPauseUnitsRequested m2) m2) (\<lambda>s3.
                      Inr (s3\<lparr>mPauseUnitsRequested := 0\<rparr>))
               else scheduleEndIFGPeriod (em_mp par) now m2)"
      using gap [of "s2\<lparr>backoffs := 0\<rparr>" m2] fd_same_eqs(3) [OF i] by (simp add: Let_def)
  qed
  then show ?thesis
    using fd_same_eqs [OF assms] True f
    by (simp add: em_handleEndTxPeriod_def handleEndTxPeriod_def s1_def m1_def Let_def)
qed

lemma same_endIFG:
  assumes "fd_same s m"
  shows "both fd_same (em_handleEndIFGPeriod par now s) (handleEndIFGPeriod (em_mp par) now m)"
proof -
  have "fd_same (s\<lparr>currentSendPkTreeID := 0\<rparr>) m" using assms by simp
  from same_begin [OF this] show ?thesis
    using fd_same_eqs [OF assms] by (simp add: em_handleEndIFGPeriod_def handleEndIFGPeriod_def Let_def)
qed

lemma same_endPause:
  assumes "fd_same s m"
  shows "both fd_same (em_handleEndPausePeriod par now s) (handleEndPausePeriod (em_mp par) now m)"
  using same_begin [OF assms] fd_same_eqs [OF assms] by (simp add: em_handleEndPausePeriod_def handleEndPausePeriod_def)

lemma same_count:
  assumes "fd_same s m"
  shows "fd_same (s\<lparr>em_mac := count_in numDroppedPkFromHLIfaceDown_update i (em_mac s)\<rparr>) (count_in numDroppedPkFromHLIfaceDown_update i m)"
    and "fd_same (s\<lparr>em_mac := count_in numFramesFromHL_update i (em_mac s)\<rparr>) (count_in numFramesFromHL_update i m)"
  by (rule fd_sameE [OF assms], cases "mStats m"; simp add: fd_same_def)+

lemma same_request:
  assumes "fd_same s m"
  shows "fd_same (s\<lparr>em_mac := requestNextFrameFromExtQueue ops (em_mac s)\<rparr>) (requestNextFrameFromExtQueue ops m)"
  by (rule fd_sameE [OF assms]) (simp add: fd_same_def requestNextFrameFromExtQueue_def split: MacQueue.split)

lemma store_frame_fields:
  assumes "store_frame f m = Inr t"
  shows "mPhysOut t = mPhysOut m \<and> mStats t = mStats m \<and> mDuplexMode t = mDuplexMode m
    \<and> mFrameBursting t = mFrameBursting m \<and> mTransmitState t = mTransmitState m"
  by (subst (1 2 3 4 5) store_frame_shape [OF assms]) simp

lemma same_store:
  assumes "fd_same s m"
  shows "both fd_same (on_mac (store_frame f) s) (store_frame f m)"
  by (rule same_on_mac [OF assms recast_store]) (use store_frame_fields in fastforce)

lemma same_upper:
  assumes "fd_same s m"
  shows "both fd_same (em_processFrameFromUpperLayer ops par now f s)
     (processFrameFromUpperLayer ops (em_mp par) now f m)"
proof -
  note e = fd_same_eqs [OF assms]
  define frame where "frame = own_src m (pad_frame f)"
  define m1 where "m1 = (if isPauseFrame frame then m else count_in numFramesFromHL_update 1 m)"
  define s1 where "s1 = (if isPauseFrame frame then s else s\<lparr>em_mac := count_in numFramesFromHL_update 1 (em_mac s)\<rparr>)"
  have s1: "fd_same s1 m1" using same_count(2) [OF assms] assms by (simp add: s1_def m1_def)
  have own: "own_src (em_mac s) (pad_frame f) = frame" using e by (simp add: own_src_def frame_def)
  have dropped: "fd_same (s\<lparr>em_mac := requestNextFrameFromExtQueue ops (count_in numDroppedPkFromHLIfaceDown_update 1 (em_mac s))\<rparr>)
      (requestNextFrameFromExtQueue ops (count_in numDroppedPkFromHLIfaceDown_update 1 m))"
    using same_request [OF same_count(1) [OF assms]] by simp
  have kept: "both fd_same (bindR (bindR (store_frame frame (em_mac s1)) (\<lambda>m2.
                let s2 = s\<lparr>em_mac := m2\<rparr>
                in case mTxQueue (em_mac s1) of Ext q \<Rightarrow> fillIFGIfInBurst par now s2 | _ \<Rightarrow> Inr s2)) (\<lambda>s2.
             if (em_duplex s2 \<or> em_rx s2 = RX_IDLE_STATE) \<and> em_tx s2 = TX_IDLE_STATE
             then em_startFrameTransmission par now s2 else Inr s2))
     (bindR (store_frame frame m1) (\<lambda>m2.
             if mTransmitState m2 = TX_IDLE_STATE then startFrameTransmission (em_mp par) now m2 else Inr m2))"
  proof (rule both_bind [where R = fd_same])
    have upd: "s1\<lparr>em_mac := m\<rparr> = s\<lparr>em_mac := m\<rparr>" for m by (simp add: s1_def)
    have f: "both fd_same (bindR (store_frame frame (em_mac s1)) (\<lambda>m2. Inr (s\<lparr>em_mac := m2\<rparr>))) (store_frame frame m1)"
      using same_store [OF s1, of frame] unfolding on_mac_def by (simp add: upd)
    have "both fd_same (case x of Ext q \<Rightarrow> fillIFGIfInBurst par now t | _ \<Rightarrow> Inr t) (Inr m2)" if "fd_same t m2" for t m2 x
      using that fd_same_eqs(4) [OF that] by (auto simp: fillIFGIfInBurst_def split: MacQueue.split)
    then show "both fd_same (bindR (store_frame frame (em_mac s1)) (\<lambda>m2.
                let s2 = s\<lparr>em_mac := m2\<rparr>
                in case mTxQueue (em_mac s1) of Ext q \<Rightarrow> fillIFGIfInBurst par now s2 | _ \<Rightarrow> Inr s2)) (store_frame frame m1)"
      using f by (cases "store_frame frame (em_mac s1)"; cases "store_frame frame m1") (auto simp: Let_def)
    show "both fd_same (if (em_duplex a \<or> em_rx a = RX_IDLE_STATE) \<and> em_tx a = TX_IDLE_STATE
             then em_startFrameTransmission par now a else Inr a)
        (if mTransmitState b = TX_IDLE_STATE then startFrameTransmission (em_mp par) now b else Inr b)"
      if "fd_same a b" for a b
      using that same_start [OF that] fd_same_eqs [OF that] by simp
  qed
  have em_s1: "em_mac s1 = (if isPauseFrame frame then em_mac s else count_in numFramesFromHL_update 1 (em_mac s))"
    by (simp add: s1_def)
  show ?thesis
    using dropped kept e
    unfolding em_processFrameFromUpperLayer_def processFrameFromUpperLayer_def own own_src_def [symmetric]
      frame_def [symmetric] store_frame_def [unfolded Let_def, symmetric] Let_def em_s1 m1_def
    by simp
qed

section \<open>Runs in full duplex mode\<close>

text \<open>What happens to the transmitter.\<close>

datatype 'p tx_event = TxEnd | TxGap | TxPause | TxFrame "'p EtherFrame"

fun em_of :: "'p tx_event \<Rightarrow> 'p em_msg" where
  "em_of TxEnd = EmEndTx" | "em_of TxGap = EmEndIFG" | "em_of TxPause = EmEndPause" | "em_of (TxFrame f) = EmUpper f"

fun fd_of :: "'p tx_event \<Rightarrow> 'p mac_msg" where
  "fd_of TxEnd = EndTx" | "fd_of TxGap = EndIFG" | "fd_of TxPause = EndPause" | "fd_of (TxFrame f) = FromUpperLayer f"

fun em_exec ::
    "('q, 'p EtherFrame) iqueue \<Rightarrow> ('p, 'q) em_par \<Rightarrow> (int \<Rightarrow> int \<Rightarrow> int) \<Rightarrow> (phys \<times> simtime \<times> 'p tx_event) list
     \<Rightarrow> ('p, 'q) em \<Rightarrow> ('p, 'q) em res" where
  "em_exec ops par draw [] s = Inr s"
| "em_exec ops par draw ((ph, now, v) # vs) s =
     bindR (em_handleMessage ops par ph now draw (em_of v) s) (em_exec ops par draw vs)"

fun fd_exec ::
    "('q, 'p EtherFrame) iqueue \<Rightarrow> 'q mac_par \<Rightarrow> (phys \<times> simtime \<times> 'p tx_event) list \<Rightarrow> ('p, 'q) mac
     \<Rightarrow> ('p, 'q) mac res" where
  "fd_exec ops par [] m = Inr m"
| "fd_exec ops par ((ph, now, v) # vs) m = bindR (mac_handleMessage ops par ph now (fd_of v) m) (fd_exec ops par vs)"

lemma same_channel:
  assumes "fd_same s m"
  shows "both fd_same (em_readChannelParameters e ph s) (readChannelParameters e ph m)"
proof -
  have k: "mPhysOut t = mPhysOut m \<and> mStats t = mStats m \<and> mDuplexMode t = mDuplexMode m
      \<and> mFrameBursting t = mFrameBursting m \<and> mTransmitState t = mTransmitState m"
    if "readChannelParameters e ph m = Inr t" for t
    by (subst (1 2 3 4 5) readChannelParameters_Inr(1) [OF that]) simp
  have b: "both fd_same (on_mac (readChannelParameters e ph) s) (readChannelParameters e ph m)"
    by (rule same_on_mac [OF assms recast_channel]) (use k in fastforce)
  have d: "mDuplexMode t" if "readChannelParameters e ph (em_mac s) = Inr t" for t
    using fd_same_eqs(3) [OF assms] by (subst readChannelParameters_Inr(1) [OF that]) simp
  show ?thesis
    using b d by (cases "readChannelParameters e ph (em_mac s)")
      (simp_all add: em_readChannelParameters_def on_mac_def half_duplex_allowed_def)
qed

fun fd_delivered :: "'p tx_event \<Rightarrow> ('p, 'q) mac \<Rightarrow> ('p, 'q) mac" where
  "fd_delivered TxEnd m = m\<lparr>mEndTx := cancelEvent (mEndTx m)\<rparr>"
| "fd_delivered TxGap m = m\<lparr>mEndIFG := cancelEvent (mEndIFG m)\<rparr>"
| "fd_delivered TxPause m = m\<lparr>mEndPause := cancelEvent (mEndPause m)\<rparr>"
| "fd_delivered (TxFrame f) m = m"

lemma same_delivered:
  assumes "fd_same s m"
  shows "fd_same (em_delivered (em_of v) s) (fd_delivered v m)"
  by (rule fd_sameE [OF assms], cases v) (use assms in \<open>simp_all add: fd_same_def\<close>)

text \<open>The handler of an event once the message is delivered and the channel is read.\<close>

fun fd_handler ::
    "('q, 'p EtherFrame) iqueue \<Rightarrow> 'q mac_par \<Rightarrow> simtime \<Rightarrow> 'p tx_event \<Rightarrow> ('p, 'q) mac \<Rightarrow> ('p, 'q) mac res" where
  "fd_handler ops par now TxEnd m = handleEndTxPeriod ops par now m"
| "fd_handler ops par now TxGap m = handleEndIFGPeriod par now m"
| "fd_handler ops par now TxPause m = handleEndPausePeriod par now m"
| "fd_handler ops par now (TxFrame f) m = processFrameFromUpperLayer ops par now f m"

lemma channel_delivered:
  "readChannelParameters e ph (fd_delivered v m) = bindR (readChannelParameters e ph m) (\<lambda>t. Inr (fd_delivered v t))"
  by (cases m; cases v; simp add: readChannelParameters_def adopt_channel_def Let_def split: option.split)

lemma fd_handleMessage:
  "mac_handleMessage ops par ph now (fd_of v) m =
     (let m1 = fd_delivered v m in
      if \<not> mOperational m1 then handleMessageWhenDown (fd_of v) m1
      else bindR (if mChannelsDiffer m1 then readChannelParameters True ph m1 else Inr m1) (fd_handler ops par now v))"
proof -
  have "mOperational (fd_delivered v m) = mOperational m" "mChannelsDiffer (fd_delivered v m) = mChannelsDiffer m"
    by (cases v; simp)+
  moreover have "(case fd_of v of FromUpperLayer frame \<Rightarrow> processFrameFromUpperLayer ops par now frame t
        | FromNetwork msg duration \<Rightarrow> processMsgFromNetwork par now msg duration t
        | _ \<Rightarrow> handleSelfMessage ops par now (fd_of v) t) = fd_handler ops par now v (fd_delivered v t)" for t
    by (cases v) (simp_all add: handleSelfMessage_def)
  moreover have "handleMessageWhenDown (fd_of v) m = handleMessageWhenDown (fd_of v) (fd_delivered v m)"
    by (cases v) (simp_all add: handleMessageWhenDown_def)
  ultimately show ?thesis
    by (cases "readChannelParameters True ph m") (simp_all add: mac_handleMessage_def Let_def channel_delivered)
qed

lemma same_message:
  fixes s :: "('p, 'q) em"
  assumes "fd_same s m"
  shows "both fd_same (em_handleMessage ops par ph now draw (em_of v) s) (mac_handleMessage ops (em_mp par) ph now (fd_of v) m)"
proof -
  define s1 where "s1 = em_delivered (em_of v) s"
  define m1 where "m1 = fd_delivered v m"
  have d: "fd_same s1 m1" using same_delivered [OF assms] by (simp add: s1_def m1_def)
  note e = fd_same_eqs [OF d]
  have c: "both fd_same (if mChannelsDiffer (em_mac s1) then em_readChannelParameters True ph s1 else Inr s1)
      (if mChannelsDiffer m1 then readChannelParameters True ph m1 else Inr m1)"
    using same_channel [OF d] d e by simp
  define em_h where "em_h = (\<lambda>a. if \<not> em_duplex a \<and> em_tx a = TRANSMITTING_STATE \<and> em_rx a \<noteq> RX_IDLE_STATE
        then Inl (RuntimeError ''Inconsistent state -- transmitting and receiving at the same time'')
        else case em_of v of
          EmUpper frame \<Rightarrow> em_processFrameFromUpperLayer ops par now frame a
        | EmNetwork x \<Rightarrow> em_processMsgFromNetwork par now x a
        | _ \<Rightarrow> em_handleSelfMessage ops par now draw (em_of v) a)"
  have h: "both fd_same (em_h a) (fd_handler ops (em_mp par) now v b)" if "fd_same a b" for a b
    using fd_same_eqs(3) [OF that] same_endTx [OF that] same_endIFG [OF that] same_endPause [OF that] same_upper [OF that]
    by (cases v) (simp_all add: em_h_def em_handleSelfMessage_def)
  have b: "both fd_same (bindR (if mChannelsDiffer (em_mac s1) then em_readChannelParameters True ph s1 else Inr s1) em_h)
      (bindR (if mChannelsDiffer m1 then readChannelParameters True ph m1 else Inr m1) (fd_handler ops (em_mp par) now v))"
    by (rule both_bind [OF c]) (rule h)
  have off: "both fd_same (case em_of v of EmNetwork _ \<Rightarrow> Inr s1
            | _ \<Rightarrow> Inl (RuntimeError ''Message received from higher layer while interface is off''))
        (handleMessageWhenDown (fd_of v) m1)"
    by (cases v) (simp_all add: handleMessageWhenDown_def)
  show ?thesis
    unfolding em_handleMessage_def fd_handleMessage Let_def s1_def [symmetric] m1_def [symmetric] em_h_def [symmetric]
    using b off e by simp
qed

lemma same_exec:
  "fd_same s m \<Longrightarrow> both fd_same (em_exec ops par draw vs s) (fd_exec ops (em_mp par) vs m)"
proof (induction vs arbitrary: s m)
  case (Cons v vs)
  then show ?case by (cases v) (auto intro!: both_bind [OF same_message])
qed simp

section \<open>Property\<close>

text \<open>
  C15. In full duplex mode and without bursts \<open>EtherMAC\<close> sends what \<open>EtherMACFullDuplex\<close> sends: over any sequence of
  frames from above and ends of its transmit timers it fails when \<open>EtherMACFullDuplex\<close> fails, and otherwise it has
  sent the same frames, is in the same state and has the same frames waiting.
\<close>

theorem full_duplex_equivalence:
  assumes "fd_same s m"
  shows "case fd_exec ops (em_mp par) vs m of
      Inl e \<Rightarrow> \<exists>e'. em_exec ops par draw vs s = Inl e'
    | Inr m' \<Rightarrow> \<exists>s'. em_exec ops par draw vs s = Inr s' \<and> sent_frames (emSignals s') = mPhysOut m'
        \<and> em_tx s' = mTransmitState m' \<and> em_cur s' = mCurTxFrame m' \<and> mTxQueue (em_mac s') = mTxQueue m'"
proof (cases "fd_exec ops (em_mp par) vs m")
  case (Inl e)
  then show ?thesis using same_exec [OF assms, of ops par draw vs] by (cases "em_exec ops par draw vs s") auto
next
  case (Inr m')
  then obtain s' where s': "em_exec ops par draw vs s = Inr s'" "fd_same s' m'"
    using same_exec [OF assms, of ops par draw vs] by (cases "em_exec ops par draw vs s") auto
  have "sent_frames (emSignals s') = mPhysOut m'" using s'(2) by (simp add: fd_same_def)
  then show ?thesis using Inr s'(1) fd_same_eqs [OF s'(2)] by simp
qed

definition fd_par :: "(unit, (unit EtherFrame droptail, unit EtherFrame) pqueue) em_par" where
  "fd_par = \<lparr>em_mp = w_par None, em_frameBursting = False, em_treeId = (\<lambda>f. 7), em_newTreeId = (\<lambda>t. 8)\<rparr>"

lemma full_duplex_equivalence_witness:
  "\<exists>s'. em_exec dtq_ops fd_par (\<lambda>a b. a) [(w_phys, 0, TxFrame (w_frame 100)), (w_phys, 1, TxFrame (w_frame 60))] (em_new w0) = Inr s'
     \<and> sent_frames (emSignals s') = mPhysOut w2 \<and> em_tx s' = TRANSMITTING_STATE
     \<and> em_cur s' = mCurTxFrame w2 \<and> mTxQueue (em_mac s') = mTxQueue w2"
proof -
  have "fd_same (em_new w0) w0" by (simp add: fd_same_def em_new_def w0_def mac_new_def initializeStatistics_def)
  moreover have "fd_exec dtq_ops (em_mp fd_par) [(w_phys, 0, TxFrame (w_frame 100)), (w_phys, 1, TxFrame (w_frame 60))] w0 = Inr w2"
    using w_step1 w_step2 by (simp add: fd_par_def)
  moreover have "mTransmitState w2 = TRANSMITTING_STATE" by (simp add: w2_def w1_def)
  ultimately show ?thesis
    using full_duplex_equivalence [of "em_new w0" w0 dtq_ops fd_par
        "\<lambda>a b. a" "[(w_phys, 0, TxFrame (w_frame 100)), (w_phys, 1, TxFrame (w_frame 60))]"]
    by simp
qed

end
