(* ===== verification/EtherMACHalfDuplex.thy ===== *)
theory EtherMACHalfDuplex
  imports EtherMACInv
begin

text \<open>
  Runs of \<open>EtherMAC\<close> while its link is up, and its properties: the discipline of its timers, carrier sense
  and collisions, the backoff, and its agreement with \<open>EtherMACFullDuplex\<close> in full duplex mode.
\<close>

section \<open>Messages keep the invariant\<close>

fun em_timer :: "'p em_msg \<Rightarrow> ('p, 'q) em \<Rightarrow> simtime option" where
  "em_timer EmEndIFG s = tm_at (mEndIFG (em_mac s))"
| "em_timer EmEndTx s = tm_at (mEndTx (em_mac s))"
| "em_timer EmEndPause s = tm_at (mEndPause (em_mac s))"
| "em_timer EmEndRx s = tm_at (emEndRx s)"
| "em_timer EmEndBackoff s = tm_at (emEndBackoff s)"
| "em_timer EmEndJamming s = tm_at (emEndJamming s)"
| "em_timer _ s = None"

fun is_timer :: "'p em_msg \<Rightarrow> bool" where
  "is_timer (EmUpper _) \<longleftrightarrow> False"
| "is_timer (EmNetwork _) \<longleftrightarrow> False"
| "is_timer _ \<longleftrightarrow> True"

lemma em_inv_later: "em_inv now s \<Longrightarrow> now \<le> now' \<Longrightarrow> em_inv now' s"
  by (cases "tm_at (emEndRx s)") (auto simp: em_inv_def em_base_def)

lemma em_handleMessage_up:
  assumes "em_link s"
  shows "em_handleMessage ops par ph now draw m s =
     (let s1 = em_delivered m s in
      if \<not> em_duplex s \<and> em_tx s = TRANSMITTING_STATE \<and> em_rx s \<noteq> RX_IDLE_STATE
      then Inl (RuntimeError ''Inconsistent state -- transmitting and receiving at the same time'')
      else case m of
          EmUpper frame \<Rightarrow> em_processFrameFromUpperLayer ops par now frame s1
        | EmNetwork a \<Rightarrow> em_processMsgFromNetwork par now a s1
        | _ \<Rightarrow> em_handleSelfMessage ops par now draw m s1)"
  using assms by (cases m) (simp_all add: em_handleMessage_def em_link_def Let_def)

text \<open>The state in which the handler of a timer finds the module.\<close>

lemma delivered_tx:
  assumes "em_inv now s" and "em_timer m s \<noteq> None" and "m \<noteq> EmEndRx"
  shows "em_base now (em_delivered m s)" and "tx_quiet (em_delivered m s)"
    and "em_tx (em_delivered m s) = em_tx s" and "em_cur (em_delivered m s) = em_cur s"
    and "em_rx (em_delivered m s) = em_rx s" and "em_duplex (em_delivered m s) = em_duplex s"
proof -
  show "em_base now (em_delivered m s)" and "em_tx (em_delivered m s) = em_tx s" and "em_cur (em_delivered m s) = em_cur s"
    and "em_rx (em_delivered m s) = em_rx s" and "em_duplex (em_delivered m s) = em_duplex s"
    using assms by (cases m; simp add: em_inv_def)+
  show "tx_quiet (em_delivered m s)"
    using assms by (cases m; cases "em_tx s"; simp add: em_inv_def em_sender_def tx_quiet_def cancelEvent_def)
qed

lemma timer_state:
  assumes "em_inv now s"
  shows "tm_at (mEndIFG (em_mac s)) \<noteq> None \<Longrightarrow> em_tx s = WAIT_IFG_STATE \<or> em_tx s = SEND_IFG_STATE"
    and "tm_at (mEndTx (em_mac s)) \<noteq> None \<Longrightarrow> em_tx s = TRANSMITTING_STATE \<and> em_cur s \<noteq> None
           \<and> (em_duplex s \<or> em_rx s = RX_IDLE_STATE)"
    and "tm_at (mEndPause (em_mac s)) \<noteq> None \<Longrightarrow> em_tx s = PAUSE_STATE"
    and "tm_at (emEndBackoff s) \<noteq> None \<Longrightarrow> em_tx s = BACKOFF_STATE \<and> em_cur s \<noteq> None \<and> \<not> em_duplex s"
    and "tm_at (emEndJamming s) \<noteq> None \<Longrightarrow> em_tx s = JAMMING_STATE \<and> em_cur s \<noteq> None \<and> \<not> em_duplex s"
    and "tm_at (emEndRx s) \<noteq> None \<Longrightarrow> em_rx s \<noteq> RX_IDLE_STATE"
  using assms by (cases "em_tx s"; cases "em_duplex s"; cases "em_rx s"; simp add: em_inv_def em_base_def em_sender_def)+

lemma consistent:
  assumes "em_inv now s"
  shows "\<not> (\<not> em_duplex s \<and> em_tx s = TRANSMITTING_STATE \<and> em_rx s \<noteq> RX_IDLE_STATE)"
  using em_invD(7) [OF assms] by blast

lemma em_timer_yields:
  assumes "em_par_ok par" and "draw_ok draw" and "em_inv now s" and "em_timer m s = Some now"
  shows "yields (em_handleMessage ops par ph now draw m s) (em_inv now)"
proof -
  have l: "em_link s" using em_invD(1) [OF assms(3)] by (simp add: em_core_def)
  have t: "em_timer m s \<noteq> None" using assms(4) by simp
  have h: "em_handleMessage ops par ph now draw m s = em_handleSelfMessage ops par now draw m (em_delivered m s)"
    unfolding em_handleMessage_up [OF l] Let_def if_not_P [OF consistent [OF assms(3)]] using assms(4) by (cases m) simp_all
  note ts = timer_state [OF assms(3)]
  show ?thesis
  proof (cases "m = EmEndRx")
    case True
    note i = em_invD [OF assms(3)]
    have "em_rx s \<noteq> RX_IDLE_STATE" using ts(6) t True by simp
    then have "yields (handleEndRxPeriod par now (em_delivered m s)) (em_inv now)"
      using i assms(4) True
      by (intro em_endRx_yields [OF assms(1)]) (auto simp: cancelEvent_def)
    then show ?thesis using h True by (simp add: em_handleSelfMessage_def)
  next
    case False
    note d = delivered_tx [OF assms(3) t False]
    show ?thesis
    proof (cases m)
      case EmEndIFG
      then show ?thesis using h d ts(1) t em_ifgEnd_yields [OF assms(1) d(1,2)] by (simp add: em_handleSelfMessage_def)
    next
      case EmEndTx
      then show ?thesis using h d ts(2) t em_endTx_yields [OF assms(1) d(1,2)] by (simp add: em_handleSelfMessage_def)
    next
      case EmEndBackoff
      then show ?thesis using h d ts(4) t em_backoffEnd_yields [OF assms(1) d(1,2)] by (simp add: em_handleSelfMessage_def)
    next
      case EmEndJamming
      then show ?thesis using h d ts(5) t em_retransmission_yields [OF assms(1,2) d(1,2)]
        by (simp add: em_handleSelfMessage_def handleEndJammingPeriod_def)
    next
      case EmEndPause
      then show ?thesis using h d ts(3) t em_pauseEnd_yields [OF assms(1) d(1,2)] by (simp add: em_handleSelfMessage_def)
    qed (use assms(4) False in simp_all)
  qed
qed

fun em_due :: "('p, 'q) em_par \<Rightarrow> simtime \<Rightarrow> 'p em_msg \<Rightarrow> ('p, 'q) em \<Rightarrow> bool" where
  "em_due par now (EmUpper f) s \<longleftrightarrow> True"
| "em_due par now (EmNetwork a) s \<longleftrightarrow> arrival_fits par (em_descr s) a"
| "em_due par now m s \<longleftrightarrow> em_timer m s = Some now"

lemma em_message_inv:
  assumes "em_par_ok par" and "draw_ok draw" and "em_inv now s" and "em_due par now m s"
    and "em_handleMessage ops par ph now draw m s = Inr t"
  shows "em_inv now t"
proof -
  have l: "em_link s" using em_invD(1) [OF assms(3)] by (simp add: em_core_def)
  note h = assms(5) [unfolded em_handleMessage_up [OF l] Let_def if_not_P [OF consistent [OF assms(3)]]]
  show ?thesis
  proof (cases m)
    case (EmUpper f)
    then show ?thesis using h upper_inv [OF assms(1) _ assms(3)] by simp
  next
    case (EmNetwork a)
    then show ?thesis using h network_inv [OF assms(1) _ assms(3)] assms(4) by simp
  qed (use em_timer_yields [OF assms(1,2,3), of m ops ph] assms(4,5) in simp_all)
qed

section \<open>Runs\<close>

text \<open>
  The states a module reaches from a state it is initialized to with its link up, by messages in the order
  of their times and changes of the external queue.
\<close>

inductive em_reach ::
    "('q, 'p EtherFrame) iqueue \<Rightarrow> ('p, 'q) em_par \<Rightarrow> simtime \<Rightarrow> ('p, 'q) em \<Rightarrow> bool" for ops par where
  start: "em_initialize ops par ph ctr addr True = Inr (ctr', s) \<Longrightarrow> em_link s \<Longrightarrow> 0 \<le> now \<Longrightarrow> em_reach ops par now s"
| message: "em_reach ops par now s \<Longrightarrow> now \<le> now' \<Longrightarrow> em_due par now' m s \<Longrightarrow> draw_ok draw
    \<Longrightarrow> em_handleMessage ops par ph now' draw m s = Inr t \<Longrightarrow> em_reach ops par now' t"
| queue: "em_reach ops par now s \<Longrightarrow> mTxQueue (em_mac s) = Ext q
    \<Longrightarrow> em_reach ops par now (s\<lparr>em_mac := (em_mac s)\<lparr>mTxQueue := Ext q'\<rparr>\<rparr>)"

lemma em_initialize_inv:
  assumes "em_initialize ops par ph ctr addr up = Inr (ctr', s)" and "em_link s" and "0 \<le> now"
  shows "em_inv now s"
proof -
  obtain m where b: "mac_base_initialize0 ops (em_mp par) ph ctr (mac_new addr) = Inr (ctr', m)"
    and s: "s = em_new (updateOperationalFlag up (em_initializeFlags par m))"
    using assms(1) by (auto simp: em_initialize_def half_duplex_allowed_def bindR_Inr_iff split: if_splits)
  note sh = base_initialize_shape [OF b]
  have "mPhysOut (mac_new addr :: ('a, 'b) mac) = []" by (simp add: mac_new_def)
  note sh = base_initialize_shape [OF b this]
  show ?thesis
    using sh(1-5,9-11) assms(2,3)
    by (cases "mp_duplexMode (em_mp par)") (simp_all add: s em_inv_def em_base_core em_core_def em_sender_def em_new_def em_initializeFlags_def updateOperationalFlag_def)
qed

lemma em_reach_inv:
  assumes "em_par_ok par" and "em_reach ops par now s"
  shows "em_inv now s"
  using assms(2)
proof (induction rule: em_reach.induct)
  case (message now s now' m draw ph t)
  then show ?case using em_message_inv [OF assms(1) message.hyps(4) em_inv_later [OF message.IH message.hyps(2)]] by blast
next
  case (queue now s q q')
  then show ?case by (simp add: em_inv_defs)
qed (rule em_initialize_inv)

section \<open>The frame being sent\<close>

text \<open>Partial correctness: if there is a result it has a property.\<close>

definition leaves :: "'a res \<Rightarrow> ('a \<Rightarrow> bool) \<Rightarrow> bool" where
  "leaves r P \<longleftrightarrow> (\<forall>a. r = Inr a \<longrightarrow> P a)"

lemma leaves_simps [simp]: "leaves (Inr a) P = P a" "leaves (Inl e) P"
  by (auto simp: leaves_def)

lemma leaves_bind: "leaves r Q \<Longrightarrow> (\<And>a. Q a \<Longrightarrow> leaves (f a) P) \<Longrightarrow> leaves (bindR r f) P"
  by (auto simp: leaves_def bindR_Inr_iff)

lemma leaves_any: "(\<And>a. leaves (f a) P) \<Longrightarrow> leaves (bindR r f) P"
  by (auto simp: leaves_def bindR_Inr_iff)

lemma leaves_mono: "leaves r Q \<Longrightarrow> (\<And>a. Q a \<Longrightarrow> P a) \<Longrightarrow> leaves r P"
  by (auto simp: leaves_def)

text \<open>Operations that leave the current frame alone.\<close>

abbreviation cur_is :: "'p EtherFrame option \<Rightarrow> ('p, 'q) em \<Rightarrow> bool" where
  "cur_is c s \<equiv> em_cur s = c"

lemma cur_gap: "cur_is c s \<Longrightarrow> leaves (em_scheduleEndIFGPeriod par now s) (cur_is c)"
  by (auto simp: leaves_def em_scheduleEndIFGPeriod_def on_mac_def scheduleEndIFGPeriod_def Let_def bindR_Inr_iff split: if_splits)

lemma cur_pause: "cur_is c s \<Longrightarrow> leaves (em_scheduleEndPausePeriod par now n s) (cur_is c)"
  by (auto simp: leaves_def em_scheduleEndPausePeriod_def on_mac_def scheduleEndPausePeriod_def Let_def bindR_Inr_iff
      split: if_splits)

lemma cur_jam: "cur_is c s \<Longrightarrow> leaves (sendJamSignal par now s) (cur_is c)"
  by (auto simp: sendJamSignal_def Let_def intro!: leaves_any)

lemma cur_tx: "cur_is c s \<Longrightarrow> leaves (em_scheduleEndTxPeriod par now f s) (cur_is c)"
  by (auto simp: em_scheduleEndTxPeriod_def Let_def intro!: leaves_any)

lemma cur_start: "cur_is c s \<Longrightarrow> leaves (em_startFrameTransmission par now s) (cur_is c)"
  by (auto simp: em_startFrameTransmission_def Let_def split: option.split
      intro!: leaves_bind [OF cur_jam] leaves_bind [OF cur_tx])

lemma cur_begin: "cur_is c s \<Longrightarrow> leaves (em_beginSendFrames par now s) (cur_is c)"
  by (auto simp: em_beginSendFrames_def cur_start)

lemma cur_fill: "cur_is c s \<Longrightarrow> leaves (fillIFGIfInBurst par now s) (cur_is c)"
  by (auto simp: fillIFGIfInBurst_def Let_def split: option.split intro!: leaves_any)

lemma cur_add: "cur_is c s \<Longrightarrow> leaves (addReception now e s) (cur_is c)"
  by (auto simp: leaves_def addReception_def reschedule_Inr Let_def split: if_splits)

lemma cur_reconnect: "cur_is c s \<Longrightarrow> leaves (addReceptionInReconnectState now i e s) (cur_is c)"
  by (auto simp: leaves_def addReceptionInReconnectState_def reschedule_Inr Let_def split: if_splits)

lemma cur_startRx: "cur_is c s \<Longrightarrow> leaves (scheduleEndRxPeriod now a s) (cur_is c)"
  by (auto simp: scheduleEndRxPeriod_def cur_add)

lemma cur_collision [simp]: "em_cur (processDetectedCollision s) = em_cur s"
  by (simp add: processDetectedCollision_def)

lemma cur_receivedJam: "cur_is c s \<Longrightarrow> leaves (processReceivedJam now d s) (cur_is c)"
  by (auto simp: leaves_def processReceivedJam_def reschedule_Inr Let_def bindR_Inr_iff split: if_splits)

lemma cur_pauseCommand:
  "processPauseCommand par now n m = Inr m' \<Longrightarrow> mCurTxFrame m' = mCurTxFrame m"
  by (auto simp: processPauseCommand_def scheduleEndPausePeriod_def Let_def bindR_Inr_iff split: if_splits)

lemma cur_complete:
  assumes "cur_is c s"
  shows "leaves (frameReceptionComplete par now s) (cur_is c)"
proof -
  have d: "mCurTxFrame (snd (dropFrameNotForUs f (em_mac s))) = c" for f
    using assms by (auto simp: dropFrameNotForUs_def)
  have p: "leaves (bindR (processPauseCommand p now n m) (\<lambda>m. Inr (u\<lparr>em_mac := m\<rparr>))) (cur_is c)"
    if "mCurTxFrame m = c" for p n m and u :: "('a, 'b) em"
    using that cur_pauseCommand by (auto simp: leaves_def bindR_Inr_iff)
  show ?thesis
    using assms d p
    by (auto simp: frameReceptionComplete_def on_mac_def em_processReceivedDataFrame_def Let_def case_prod_beta
        split: option.split EtherTraffic.split)
qed

lemma cur_interrupt: "cur_is c s \<Longrightarrow> leaves (interrupt_transmission par now e s) (cur_is c)"
  by (auto simp: interrupt_transmission_def Let_def intro!: leaves_bind [OF cur_add] leaves_bind [OF cur_jam])

lemma cur_network: "cur_is c s \<Longrightarrow> leaves (em_processMsgFromNetwork par now a s) (cur_is c)"
  by (auto simp: em_processMsgFromNetwork_def Let_def cur_reconnect cur_interrupt cur_startRx cur_receivedJam
      split: EtherTraffic.split intro!: leaves_bind [OF cur_complete] leaves_bind [OF cur_add])

lemma cur_endRx: "cur_is c s \<Longrightarrow> leaves (handleEndRxPeriod par now s) (cur_is c)"
  by (cases "em_rx s")
    (auto simp: handleEndRxPeriod_def Let_def cur_gap intro!: leaves_bind [OF leaves_bind [OF cur_complete, where P = "cur_is c"]])

lemma cur_upper:
  assumes "cur_is (Some g) s"
  shows "leaves (em_processFrameFromUpperLayer ops par now f s) (cur_is (Some g))"
proof -
  have q: "mCurTxFrame (requestNextFrameFromExtQueue ops m) = mCurTxFrame m" for m
    by (simp add: requestNextFrameFromExtQueue_def split: MacQueue.splits)
  have st: "mCurTxFrame m1 = Some g \<Longrightarrow> leaves (store_frame frame m1) (\<lambda>m2. mCurTxFrame m2 = Some g)" for frame m1
    by (auto simp: leaves_def store_frame_def Let_def split: MacQueue.splits if_splits)
  have stored: "leaves (bindR (store_frame frame m1) (\<lambda>m2. case x of
        Ext q \<Rightarrow> fillIFGIfInBurst par now (s\<lparr>em_mac := m2\<rparr>) | _ \<Rightarrow> Inr (s\<lparr>em_mac := m2\<rparr>))) (cur_is (Some g))"
    if "mCurTxFrame m1 = Some g" for frame m1 x
    by (rule leaves_bind [OF st [OF that]]) (auto simp: cur_fill split: MacQueue.split)
  then show ?thesis
    using assms q by (auto simp: em_processFrameFromUpperLayer_def Let_def cur_start intro!: leaves_bind [OF stored])
qed

lemma cur_self:
  assumes "cur_is (Some f) s" and "m = EmEndJamming \<Longrightarrow> backoffs s < 16" and "m \<noteq> EmEndTx"
  shows "leaves (em_handleSelfMessage ops par now draw m s) (cur_is (Some f))"
  using assms
  by (cases m)
    (auto simp: em_handleSelfMessage_def em_handleEndIFGPeriod_def em_handleEndPausePeriod_def handleEndBackoffPeriod_def
      handleEndJammingPeriod_def handleRetransmission_def MAX_ATTEMPTS_def Let_def cur_endRx
      intro!: cur_begin cur_gap leaves_any)

lemma delivered_cur [simp]: "em_cur (em_delivered m s) = em_cur s" "backoffs (em_delivered m s) = backoffs s"
  by (cases m; simp)+

section \<open>The list of receptions after a reconnect\<close>

lemma drop_expired_sorted:
  "sorted (map snd rs) \<Longrightarrow> drop_expired now rs = filter (\<lambda>(i, e). now < e) rs"
proof (induction now rs rule: drop_expired.induct)
  case (2 now i e rs)
  show ?case
  proof (cases "e \<le> now")
    case False
    then have "filter (\<lambda>(i, e). now < e) rs = rs" using 2(2) by (intro filter_True) fastforce
    then show ?thesis using False by simp
  qed (use 2 in simp)
qed simp

lemma erase_reception_filter:
  "distinct (map fst rs) \<Longrightarrow> erase_reception i rs = filter (\<lambda>(j, e). j \<noteq> i) rs"
proof (induction i rs rule: erase_reception.induct)
  case (2 i j e rs)
  then show ?case by (auto intro!: filter_True [symmetric] simp: image_iff)
qed simp

lemma set_insert_reception [simp]: "set (insert_reception i e rs) = insert (i, e) (set rs)"
  by (induction i e rs rule: insert_reception.induct) auto

lemma sorted_insert_reception:
  "sorted (map snd rs) \<Longrightarrow> sorted (map snd (insert_reception i e rs))"
  by (induction i e rs rule: insert_reception.induct) (auto simp: less_imp_le)

lemma distinct_insert_reception:
  "distinct (map fst rs) \<Longrightarrow> i \<notin> fst ` set rs \<Longrightarrow> distinct (map fst (insert_reception i e rs))"
  by (induction i e rs rule: insert_reception.induct) (auto simp: image_iff)

lemma insert_reception_nonempty [simp]: "insert_reception i e rs \<noteq> []"
  by (cases "(i, e, rs)" rule: insert_reception.cases) auto

lemma last_sorted_max:
  assumes "sorted (map snd rs)" and "rs \<noteq> []"
  shows "snd (last rs) = Max (snd ` set rs)"
proof (rule Max_eqI [symmetric])
  fix y assume "y \<in> snd ` set rs"
  then obtain k where k: "k < length rs" "y = snd (rs ! k)" by (auto simp: in_set_conv_nth)
  then have "map snd rs ! k \<le> map snd rs ! (length rs - 1)"
    using assms(1) by (intro sorted_nth_mono) auto
  then show "y \<le> snd (last rs)" using k assms(2) by (simp add: last_conv_nth)
qed (use assms(2) in auto)

definition receptions_ok :: "('p, 'q) em \<Rightarrow> bool" where
  "receptions_ok s \<longleftrightarrow> sorted (map snd (endRxTimeList s)) \<and> distinct (map fst (endRxTimeList s))"

lemma filter_keeps:
  "sorted (map snd rs) \<Longrightarrow> sorted (map snd (filter P rs))" "distinct (map fst rs) \<Longrightarrow> distinct (map fst (filter P rs))"
  by (simp_all add: sorted_filter distinct_map_filter)

lemma reconnect_list:
  fixes s :: "('p, 'q) em" and i :: int and e now :: simtime
  assumes "receptions_ok s"
  defines "rs \<equiv> insert_reception i e (erase_reception i (drop_expired now (endRxTimeList s)))"
  shows "set rs = insert (i, e) {x \<in> set (endRxTimeList s). now < snd x \<and> fst x \<noteq> i}"
    and "sorted (map snd rs)" and "distinct (map fst rs)"
proof -
  define us where "us = filter (\<lambda>(j, e). j \<noteq> i) (filter (\<lambda>(i, e). now < e) (endRxTimeList s))"
  have u: "sorted (map snd us)" "distinct (map fst us)" "i \<notin> fst ` set us"
    using assms(1) by (auto simp: us_def receptions_ok_def filter_keeps)
  have "erase_reception i (drop_expired now (endRxTimeList s)) = us"
    using assms(1) by (simp add: us_def receptions_ok_def drop_expired_sorted erase_reception_filter filter_keeps)
  then have rs: "rs = insert_reception i e us" by (simp add: rs_def)
  show "set rs = insert (i, e) {x \<in> set (endRxTimeList s). now < snd x \<and> fst x \<noteq> i}"
    by (auto simp: rs us_def)
  show "sorted (map snd rs)" and "distinct (map fst rs)"
    using u by (simp_all add: rs sorted_insert_reception distinct_insert_reception)
qed

lemma w_half: "halfDuplexFrameMinBytes (etherDescrs ! Suc 0) = 64"
  by (simp add: etherDescrs_def MIN_ETHERNET_FRAME_BYTES_def)

section \<open>An example: a collision, the jam, the backoff, the retransmission\<close>

type_synonym h_mac = "(unit, (unit EtherFrame droptail, unit EtherFrame) pqueue) em"

definition h_par :: "(unit, (unit EtherFrame droptail, unit EtherFrame) pqueue) em_par" where
  "h_par = \<lparr>em_mp = (w_par None)\<lparr>mp_duplexMode := False\<rparr>, em_frameBursting = False, em_treeId = (\<lambda>f. 7),
     em_newTreeId = (\<lambda>t. 8)\<rparr>"

lemma h_par_ok: "em_par_ok h_par"
  by (simp add: em_par_ok_def h_par_def durations_ok_def w_par_def)

abbreviation h_step :: "simtime \<Rightarrow> unit em_msg \<Rightarrow> h_mac \<Rightarrow> h_mac res" where
  "h_step now \<equiv> em_handleMessage dtq_ops h_par w_phys now (\<lambda>a b. b)"

definition h0 :: h_mac where
  "h0 = em_new (w0\<lparr>mSubs := [], mDuplexMode := False\<rparr>)"

lemma h_start: "em_initialize dtq_ops h_par w_phys 5 ''auto'' True = Inr (6, h0)"
  by (simp add: em_initialize_def mac_base_initialize0_def initializeMACAddress_def w_auto h_par_def half_duplex_allowed_def
     mac_new_def initializeFlags_def initializeQueueModule_def readChannelParameters_def adopt_channel_def Let_def
     w_phys_def phys_connected_def channel_off_def channel_rate_def w_find em_initializeFlags_def updateOperationalFlag_def
     w0_def h0_def w_half)

definition h_sent :: "unit EtherFrame" where "h_sent = (w_frame 108)\<lparr>fr_src := 11725260718086\<rparr>"

definition h1 :: h_mac where
  "h1 = h0\<lparr>em_mac := (em_mac h0)\<lparr>mTransmitState := TRANSMITTING_STATE,
       mCurTxFrame := Some ((w_frame 100)\<lparr>fr_src := 11725260718086\<rparr>),
       mEndTx := \<lparr>tm_kind = ENDTRANSMISSION, tm_at = Some 8640000\<rparr>, mStats := initializeStatistics\<lparr>numFramesFromHL := 1\<rparr>\<rparr>,
     currentSendPkTreeID := 7, emSignals := [SentFrame h_sent]\<rparr>"

lemmas h_eval = em_handleMessage_def Let_def h_par_def w_phys_def finish_time_def scheduleAt_def cancelEvent_def
  w0_def mac_new_def h0_def em_new_def initializeStatistics_def w_half

lemma h_step1: "h_step 0 (EmUpper (w_frame 100)) h0 = Inr h1"
  by (simp add: h_eval h1_def h_sent_def w_defs em_processFrameFromUpperLayer_def own_src_def isUnspecified_def store_frame_def
      inner_isFull_def insertFrame_def cQueue_insert_def em_startFrameTransmission_def em_wire_frame_def em_scheduleEndTxPeriod_def
      PREAMBLE_BYTES_def SFD_BYTES_def)

definition h_arrival :: "unit em_arrival" where
  "h_arrival = \<lparr>ar_msg = EtherFrameMsg (w_frame 72), ar_treeId = 9, ar_abortedPkTreeID = 0, ar_sent = 999000, ar_duration = 5760000\<rparr>"

definition h2 :: h_mac where
  "h2 = h1\<lparr>em_mac := (em_mac h1)\<lparr>mTransmitState := JAMMING_STATE, mReceiveState := RX_COLLISION_STATE,
       mEndTx := \<lparr>tm_kind = ENDTRANSMISSION, tm_at = None\<rparr>\<rparr>,
     emEndRx := \<lparr>tm_kind = ENDRECEPTION, tm_at = Some 6760000\<rparr>, endRxArrival := 6760000, numConcurrentTransmissions := 1,
     emEndJamming := \<lparr>tm_kind = ENDJAMMING, tm_at = Some 1320000\<rparr>, numCollisions := 1,
     emSignals := [SentFrame h_sent, SentJam 7]\<rparr>"

lemma w_times: "maxPropagationDelay (etherDescrs ! Suc 0) = 250 / 200000000" "slotTime (etherDescrs ! Suc 0) = 512 / 100000000"
  "halfBitTime (etherDescrs ! Suc 0) = 0.5 / 100000000"
  by (simp_all add: etherDescrs_def SPEED_OF_LIGHT_IN_CABLE_def FAST_ETHERNET_TXRATE_def)

lemma h_step2: "h_step 1000000 (EmNetwork h_arrival) h1 = Inr h2"
  by (simp add: h_eval h2_def h1_def h_arrival_def em_processMsgFromNetwork_def interrupt_transmission_def addReception_def
      reschedule_endRx_def sendJamSignal_def JAM_SIGNAL_BYTES_def w_times)

definition h3 :: h_mac where
  "h3 = h2\<lparr>em_mac := (em_mac h2)\<lparr>mTransmitState := BACKOFF_STATE\<rparr>, backoffs := 1, numBackoffs := 1,
     emEndJamming := \<lparr>tm_kind = ENDJAMMING, tm_at = None\<rparr>, emEndBackoff := \<lparr>tm_kind = ENDBACKOFF, tm_at = Some 6440000\<rparr>\<rparr>"

lemma h_step3: "h_step 1320000 EmEndJamming h2 = Inr h3"
  by (simp add: h_eval h3_def h2_def h1_def em_handleSelfMessage_def handleEndJammingPeriod_def handleRetransmission_def
      MAX_ATTEMPTS_def backoff_range_def BACKOFF_RANGE_LIMIT_def w_times)

definition h4 :: h_mac where
  "h4 = h3\<lparr>em_mac := (em_mac h3)\<lparr>mTransmitState := TX_IDLE_STATE\<rparr>,
     emEndBackoff := \<lparr>tm_kind = ENDBACKOFF, tm_at = None\<rparr>\<rparr>"

lemma h_step4: "h_step 6440000 EmEndBackoff h3 = Inr h4"
  by (simp add: h_eval h4_def h3_def h2_def h1_def em_handleSelfMessage_def handleEndBackoffPeriod_def)

definition h5 :: h_mac where
  "h5 = h4\<lparr>em_mac := (em_mac h4)\<lparr>mTransmitState := WAIT_IFG_STATE, mReceiveState := RX_IDLE_STATE,
       mEndIFG := \<lparr>tm_kind = ENDIFG, tm_at = Some 7720000\<rparr>\<rparr>,
     emEndRx := \<lparr>tm_kind = ENDRECEPTION, tm_at = None\<rparr>, totalCollisionTime := 6760000, numConcurrentTransmissions := 0,
     endIFGSent := 6760000\<rparr>"

lemma h_step5: "h_step 6760000 EmEndRx h4 = Inr h5"
  by (simp add: h_eval h5_def h4_def h3_def h2_def h1_def em_handleSelfMessage_def handleEndRxPeriod_def
      em_scheduleEndIFGPeriod_def on_mac_def scheduleEndIFGPeriod_def INTERFRAME_GAP_BITS_def)

definition h6 :: h_mac where
  "h6 = h5\<lparr>em_mac := (em_mac h5)\<lparr>mTransmitState := TRANSMITTING_STATE, mEndIFG := \<lparr>tm_kind = ENDIFG, tm_at = None\<rparr>,
       mEndTx := \<lparr>tm_kind = ENDTRANSMISSION, tm_at = Some 16360000\<rparr>\<rparr>,
     channelBusySince := 7720000, emSignals := [SentFrame h_sent, SentJam 7, SentFrame h_sent]\<rparr>"

lemma h_step6: "h_step 7720000 EmEndIFG h5 = Inr h6"
  by (simp add: h_eval h6_def h5_def h4_def h3_def h2_def h1_def em_handleSelfMessage_def em_handleEndIFGPeriod_def h_sent_def
      em_beginSendFrames_def em_startFrameTransmission_def em_wire_frame_def em_scheduleEndTxPeriod_def isUnspecified_def w_defs
      PREAMBLE_BYTES_def SFD_BYTES_def)

lemma h_link: "em_link h0"
  by (simp add: em_link_def h0_def em_new_def w0_def mac_new_def w_phys_def w_half) (simp add: etherDescrs_def)

lemma h_reach:
  "em_reach dtq_ops h_par 0 h1" "em_reach dtq_ops h_par 1000000 h2" "em_reach dtq_ops h_par 1320000 h3"
  "em_reach dtq_ops h_par 6440000 h4" "em_reach dtq_ops h_par 6760000 h5" "em_reach dtq_ops h_par 7720000 h6"
proof -
  have d: "draw_ok (\<lambda>a b. b)" by (simp add: draw_ok_def)
  have 0: "em_reach dtq_ops h_par 0 h0" by (rule em_reach.start [OF h_start h_link]) simp
  show 1: "em_reach dtq_ops h_par 0 h1" by (rule em_reach.message [OF 0 _ _ d h_step1]) simp_all
  have a: "em_due h_par 1000000 (EmNetwork h_arrival) h1"
    by (simp add: arrival_fits_def h_arrival_def h_par_def h1_def h0_def em_new_def w0_def w_times pause_small_def
        pause_time.simps w_defs)
  show 2: "em_reach dtq_ops h_par 1000000 h2" by (rule em_reach.message [OF 1 _ a d h_step2]) simp
  show 3: "em_reach dtq_ops h_par 1320000 h3" by (rule em_reach.message [OF 2 _ _ d h_step3]) (simp_all add: h2_def)
  show 4: "em_reach dtq_ops h_par 6440000 h4" by (rule em_reach.message [OF 3 _ _ d h_step4]) (simp_all add: h3_def)
  show 5: "em_reach dtq_ops h_par 6760000 h5"
    by (rule em_reach.message [OF 4 _ _ d h_step5]) (simp_all add: h4_def h3_def h2_def)
  show "em_reach dtq_ops h_par 7720000 h6" by (rule em_reach.message [OF 5 _ _ d h_step6]) (simp_all add: h5_def)
qed

lemmas h_states = h6_def h5_def h4_def h3_def h2_def h1_def h0_def em_new_def

section \<open>Properties\<close>

text \<open>
  C11. The timers of \<open>EtherMAC\<close> follow its states, in the runs that begin with the link up and have no change of the
  connection and no life cycle operation. What is received in them lasts at least half a bit time and is a jam, an
  inter frame gap or a frame, which, if it is a PAUSE frame, asks for less than 2^31 bit times. Each transmit state but
  \<open>PAUSE_STATE\<close> then runs exactly its own timer, a reception is in progress exactly while its end is timed, in half
  duplex mode the station never transmits while it receives, a frame that waits in \<open>TX_IDLE_STATE\<close> waits for the
  end of a reception, and the number of backoffs stays within 16. After a disconnection this does not hold: the code
  keeps a reception whose end is not timed.
\<close>

theorem em_discipline:
  assumes "em_par_ok par" and "em_reach ops par now s"
  shows "(case em_tx s of
        TX_IDLE_STATE \<Rightarrow> \<forall>m. is_timer m \<and> m \<noteq> EmEndRx \<longrightarrow> em_timer m s = None
      | WAIT_IFG_STATE \<Rightarrow> \<forall>m. is_timer m \<and> m \<noteq> EmEndRx \<longrightarrow> em_timer m s \<noteq> None \<longleftrightarrow> m = EmEndIFG
      | SEND_IFG_STATE \<Rightarrow> em_cur s \<noteq> None \<and> (\<forall>m. is_timer m \<and> m \<noteq> EmEndRx \<longrightarrow> em_timer m s \<noteq> None \<longleftrightarrow> m = EmEndIFG)
      | TRANSMITTING_STATE \<Rightarrow> em_cur s \<noteq> None \<and> (\<forall>m. is_timer m \<and> m \<noteq> EmEndRx \<longrightarrow> em_timer m s \<noteq> None \<longleftrightarrow> m = EmEndTx)
      | JAMMING_STATE \<Rightarrow> em_cur s \<noteq> None \<and> (\<forall>m. is_timer m \<and> m \<noteq> EmEndRx \<longrightarrow> em_timer m s \<noteq> None \<longleftrightarrow> m = EmEndJamming)
      | BACKOFF_STATE \<Rightarrow> em_cur s \<noteq> None \<and> (\<forall>m. is_timer m \<and> m \<noteq> EmEndRx \<longrightarrow> em_timer m s \<noteq> None \<longleftrightarrow> m = EmEndBackoff)
      | PAUSE_STATE \<Rightarrow> \<forall>m. is_timer m \<and> m \<noteq> EmEndRx \<longrightarrow> em_timer m s \<noteq> None \<longrightarrow> m = EmEndPause)
    \<and> (em_rx s = RX_IDLE_STATE \<longleftrightarrow> em_timer EmEndRx s = None)
    \<and> (em_rx s = RECEIVING_STATE \<longrightarrow> frameBeingReceived s \<noteq> None)
    \<and> (\<not> em_duplex s \<and> em_tx s = TRANSMITTING_STATE \<longrightarrow> em_rx s = RX_IDLE_STATE)
    \<and> (em_tx s = TX_IDLE_STATE \<and> em_cur s \<noteq> None \<longrightarrow> \<not> em_duplex s \<and> em_rx s \<noteq> RX_IDLE_STATE)
    \<and> 0 \<le> backoffs s \<and> backoffs s \<le> 16"
proof -
  have i: "em_inv now s" by (rule em_reach_inv [OF assms])
  have all: "(\<forall>m. is_timer m \<and> m \<noteq> EmEndRx \<longrightarrow> P m) \<longleftrightarrow> P EmEndIFG \<and> P EmEndTx \<and> P EmEndPause \<and> P EmEndBackoff \<and> P EmEndJamming"
    for P :: "'a em_msg \<Rightarrow> bool"
    by (metis em_msg.distinct em_msg.exhaust is_timer.simps)
  show ?thesis
    unfolding all using i
    by (cases "em_tx s"; cases "em_rx s"; cases "em_duplex s"; simp add: em_inv_def em_base_def em_sender_def)
qed

lemma em_discipline_witness:
  "em_tx h4 = TX_IDLE_STATE \<and> em_cur h4 \<noteq> None \<and> em_rx h4 \<noteq> RX_IDLE_STATE \<and> em_timer EmEndRx h4 \<noteq> None \<and> backoffs h4 \<le> 16"
proof -
  have "em_tx h4 = TX_IDLE_STATE" "em_cur h4 \<noteq> None" by (simp_all add: h_states)
  then show ?thesis using em_discipline [OF h_par_ok h_reach(4)] by auto
qed

text \<open>
  C12. The handlers of the timers return, in the runs that begin with the link up and have no change of the connection
  and no life cycle operation, and in which what is received lasts at least half a bit time and is a jam, an inter
  frame gap or a frame, which, if it is a PAUSE frame, asks for less than 2^31 bit times: no timer of \<open>EtherMAC\<close>
  that comes due ends in one of the error states its handlers check for, however the random numbers fall within
  their ranges.
\<close>

theorem em_timers_return:
  assumes "em_par_ok par" and "em_reach ops par now s" and "draw_ok draw" and "now \<le> now'" and "em_timer m s = Some now'"
  shows "\<exists>t. em_handleMessage ops par ph now' draw m s = Inr t \<and> em_reach ops par now' t"
proof -
  have "em_inv now' s" by (rule em_inv_later [OF em_reach_inv [OF assms(1,2)] assms(4)])
  then obtain t where t: "em_handleMessage ops par ph now' draw m s = Inr t"
    using em_timer_yields [OF assms(1,3) _ assms(5)] by (auto simp: yields_def)
  moreover have "em_due par now' m s" using assms(5) by (cases m) simp_all
  ultimately show ?thesis using em_reach.message [OF assms(2,4) _ assms(3)] by blast
qed

lemma em_timers_return_witness:
  "\<exists>t. em_handleMessage dtq_ops h_par w_phys 6440000 (\<lambda>a b. a) EmEndBackoff h3 = Inr t \<and> em_reach dtq_ops h_par 6440000 t"
  by (rule em_timers_return [OF h_par_ok h_reach(3)]) (simp_all add: draw_ok_def h_states)

text \<open>
  C13. No frame is lost on the way to the wire, in the runs that begin with the link up and have no change of the
  connection and no life cycle operation, and in which what is received lasts at least half a bit time and is a jam,
  an inter frame gap or a frame, which, if it is a PAUSE frame, asks for less than 2^31 bit times: a frame that is
  being sent stays the current frame through collisions, jams, backoffs and pauses until its transmission has ended,
  or until the seventeenth collision.
\<close>

theorem em_frame_kept:
  assumes "em_par_ok par" and "em_reach ops par now s" and "now \<le> now'" and "em_due par now' m s"
    and "em_cur s = Some f" and "em_handleMessage ops par ph now' draw m s = Inr t"
  shows "em_cur t = Some f \<or> m = EmEndTx \<or> (m = EmEndJamming \<and> backoffs s = 16)"
proof -
  have i: "em_inv now' s" by (rule em_inv_later [OF em_reach_inv [OF assms(1,2)] assms(3)])
  have l: "em_link s" and b: "backoffs s \<le> 16" using em_invD(1) [OF i] by (simp_all add: em_core_def)
  note h = assms(6) [unfolded em_handleMessage_up [OF l] Let_def if_not_P [OF consistent [OF i]]]
  have self: "leaves (em_handleSelfMessage ops par now' draw m (em_delivered m s)) (cur_is (Some f))"
    if "m \<noteq> EmEndTx" "\<not> (m = EmEndJamming \<and> backoffs s = 16)"
    by (rule cur_self) (use that assms(5) b in auto)
  show ?thesis
    using h self cur_upper [of s f] cur_network [of s "Some f"] assms(5)
    by (cases m) (auto simp: leaves_def)
qed

lemma em_frame_kept_witness:
  "em_cur h2 = Some ((w_frame 100)\<lparr>fr_src := 11725260718086\<rparr>)"
proof -
  have a: "em_due h_par 1000000 (EmNetwork h_arrival) h1"
    by (simp add: arrival_fits_def h_arrival_def h_par_def h1_def h0_def em_new_def w0_def w_times pause_small_def
        pause_time.simps w_defs)
  have "em_cur h1 = Some ((w_frame 100)\<lparr>fr_src := 11725260718086\<rparr>)" by (simp add: h1_def)
  then show ?thesis using em_frame_kept [OF h_par_ok h_reach(1) _ a _ h_step2] by simp
qed

lemma backoffs_start: "backoffs s = b \<Longrightarrow> leaves (em_startFrameTransmission par now s) (\<lambda>t. backoffs t = b)"
proof -
  assume b: "backoffs s = b"
  have j: "backoffs u = b \<Longrightarrow> leaves (sendJamSignal par now u) (\<lambda>t. backoffs t = b)" for u :: "('a, 'b) em"
    by (auto simp: sendJamSignal_def Let_def intro!: leaves_any)
  have x: "backoffs u = b \<Longrightarrow> leaves (em_scheduleEndTxPeriod par now f u) (\<lambda>t. backoffs t = b)" for u :: "('a, 'b) em" and f
    by (auto simp: em_scheduleEndTxPeriod_def Let_def intro!: leaves_any)
  show ?thesis
    using b by (auto simp: em_startFrameTransmission_def Let_def split: option.split intro!: leaves_bind [OF j] leaves_bind [OF x])
qed

lemma backoffs_begin: "backoffs s = b \<Longrightarrow> leaves (em_beginSendFrames par now s) (\<lambda>t. backoffs t = b)"
  by (auto simp: em_beginSendFrames_def backoffs_start)

lemma backoff_range_power:
  assumes "0 \<le> n"
  shows "backoff_range n = 2 ^ nat (min n 10)"
  using assms by (auto simp: backoff_range_def BACKOFF_RANGE_LIMIT_def min_def)



text \<open>
  A collision: a frame that arrives while a half duplex station transmits stops the transmission, a jam
  naming the aborted frame goes out, the frame stays the current one, and the frame that came in is lost.
\<close>

theorem em_collision:
  assumes "em_par_ok par" and "em_reach ops par now s" and "now \<le> now'" and "arrival_fits par (em_descr s) a"
    and "\<not> is_jam (ar_msg a)" and "now' - ar_sent a < mp_simtime (em_mp par) (maxPropagationDelay (em_descr s))"
    and "\<not> em_duplex s" and "em_tx s = TRANSMITTING_STATE" and "mChannel (em_mac s) = Some ch"
  shows "\<exists>t. em_handleMessage ops par ph now' draw (EmNetwork a) s = Inr t
    \<and> em_tx t = JAMMING_STATE \<and> em_rx t = RX_COLLISION_STATE \<and> em_cur t = em_cur s
    \<and> emSignals t = emSignals s @ [SentJam (currentSendPkTreeID s)]
    \<and> tm_at (mEndTx (em_mac t)) = None \<and> tm_at (emEndRx t) = Some (now' + ar_duration a)
    \<and> tm_at (emEndJamming t) = Some (now' + mp_txDuration (em_mp par) (ch_datarate ch) 4)
    \<and> numCollisions t = numCollisions s + 1 \<and> mUpperOut (em_mac t) = mUpperOut (em_mac s)"
proof -
  have i: "em_inv now' s" by (rule em_inv_later [OF em_reach_inv [OF assms(1,2)] assms(3)])
  have l: "em_link s" using em_invD(1) [OF i] by (simp add: em_core_def)
  have c: "\<not> armed (emEndJamming s)" "currentSendPkTreeID s \<noteq> 0" "em_rx s = RX_IDLE_STATE"
    using i assms(7,8) by (simp_all add: em_inv_def em_sender_def)
  have e: "\<not> armed (emEndRx s)" "endRxArrival s \<le> now'"
    using em_invD(4,5) [OF i] c(3) by (cases "tm_at (emEndRx s)"; simp)+
  have d: "0 < ar_duration a" using assms(4) by (simp add: arrival_fits_def)
  have "0 \<le> ch_datarate ch" using l assms(9) by (auto simp: em_link_def)
  then have j: "0 \<le> mp_txDuration (em_mp par) (ch_datarate ch) 4" using assms(1) by (simp add: em_par_ok_def durations_ok_def)
  have up: "mConnected (em_mac s)" "\<not> mDisabled (em_mac s)" using l by (simp_all add: em_link_def)
  show ?thesis
    unfolding em_handleMessage_up [OF l] Let_def if_not_P [OF consistent [OF i]]
    using assms(5-9) c e d j up
    by (simp add: em_processMsgFromNetwork_def interrupt_transmission_def addReception_def reschedule_endRx_def scheduleAt_def
        cancelEvent_def sendJamSignal_def finish_time_def JAM_SIGNAL_BYTES_def Let_def not_less)
qed

lemma em_collision_witness:
  "em_tx h2 = JAMMING_STATE \<and> emSignals h2 = emSignals h1 @ [SentJam 7] \<and> tm_at (emEndRx h2) = Some 6760000"
proof -
  have s: "\<not> em_duplex h1" "em_tx h1 = TRANSMITTING_STATE" "currentSendPkTreeID h1 = 7" "em_descr h1 = etherDescrs ! 1"
      "mChannel (em_mac h1) = Some \<lparr>ch_datarate = 100000000, ch_disabled = False\<rparr>"
    by (simp_all add: h_states w0_def w_phys_def)
  have a: "arrival_fits h_par (em_descr h1) h_arrival" "\<not> is_jam (ar_msg h_arrival)" "ar_duration h_arrival = 5760000"
      "1000000 - ar_sent h_arrival < mp_simtime (em_mp h_par) (maxPropagationDelay (em_descr h1))"
    by (simp_all add: s arrival_fits_def h_arrival_def h_par_def w_times pause_small_def pause_time.simps w_defs)
  show ?thesis
    using em_collision [OF h_par_ok h_reach(1) _ a(1,2,4) s(1,2,5), of w_phys "\<lambda>a b. b"] h_step2 a(3) s(3) by simp
qed

text \<open>What \<open>dropFrameNotForUs\<close> lets through of data frames; there is no filter on the multicast subscriptions here.\<close>

definition em_accepts :: "('p, 'q) mac \<Rightarrow> 'p EtherFrame \<Rightarrow> bool" where
  "em_accepts m f \<longleftrightarrow> \<not> fr_bitError f \<and> (fr_dest f = mAddress m \<or> mPromiscuous m \<or> isMulticast (fr_dest f) \<or> isBroadcast (fr_dest f))"

lemma complete_data:
  assumes "frameBeingReceived s = Some (EtherFrameMsg f)" and "\<not> isPauseFrame f"
  shows "\<exists>t. frameReceptionComplete par now s = Inr t \<and> frameBeingReceived t = None
    \<and> em_tx t = em_tx s \<and> mUpperOut (em_mac t) = mUpperOut (em_mac s)
         @ (if em_accepts (em_mac s) f then [f\<lparr>fr_byteLength := 0\<rparr>] else [])"
proof -
  have "pause_time f = None" using assms(2) pause_time_None by blast
  then show ?thesis
    using assms by (auto simp: frameReceptionComplete_def on_mac_def dropFrameNotForUs_def em_accepts_def
        em_processReceivedDataFrame_def Let_def)
qed

lemma gap_upper: "em_scheduleEndIFGPeriod par now s = Inr t \<Longrightarrow> mUpperOut (em_mac t) = mUpperOut (em_mac s)
    \<and> em_rx t = em_rx s \<and> em_tx t = WAIT_IFG_STATE"
  by (auto simp: em_scheduleEndIFGPeriod_def on_mac_def scheduleEndIFGPeriod_def Let_def bindR_Inr_iff split: if_splits)

text \<open>
  Reception without a collision: a data frame whose first bit arrives at an idle receiver is received when its
  last bit is in, and passed up if it has no bit error and is addressed to this station or to a group,
  subscribed or not; its length is then zero. A transmitter that was idle waits for a gap after it.
\<close>

theorem em_reception:
  assumes "em_par_ok par" and "em_reach ops par now s" and "now \<le> now'" and "arrival_fits par (em_descr s) a"
    and "ar_msg a = EtherFrameMsg f" and "\<not> isPauseFrame f"
    and "em_duplex s \<or> now' - ar_sent a < mp_simtime (em_mp par) (maxPropagationDelay (em_descr s))"
    and "em_rx s = RX_IDLE_STATE" and "frameBeingReceived s = None"
    and "em_duplex s \<or> em_tx s \<noteq> TRANSMITTING_STATE \<and> em_tx s \<noteq> SEND_IFG_STATE" and "draw_ok draw"
  shows "\<exists>u t. em_handleMessage ops par ph now' draw (EmNetwork a) s = Inr u
    \<and> em_rx u = RECEIVING_STATE \<and> em_timer EmEndRx u = Some (now' + ar_duration a)
    \<and> em_handleMessage ops par ph (now' + ar_duration a) draw EmEndRx u = Inr t \<and> em_rx t = RX_IDLE_STATE
    \<and> mUpperOut (em_mac t) = mUpperOut (em_mac s) @ (if em_accepts (em_mac s) f then [f\<lparr>fr_byteLength := 0\<rparr>] else [])
    \<and> (em_tx s = TX_IDLE_STATE \<longrightarrow> em_tx t = WAIT_IFG_STATE)"
proof -
  have i: "em_inv now' s" by (rule em_inv_later [OF em_reach_inv [OF assms(1,2)] assms(3)])
  have l: "em_link s" using em_invD(1) [OF i] by (simp add: em_core_def)
  have e: "\<not> armed (emEndRx s)" "endRxArrival s \<le> now'"
    using em_invD(4,5) [OF i] assms(8) by (cases "tm_at (emEndRx s)"; simp)+
  have d: "0 < ar_duration a" using assms(4) by (simp add: arrival_fits_def)
  have up: "mConnected (em_mac s)" "\<not> mDisabled (em_mac s)" using l by (simp_all add: em_link_def)
  define u where "u = s\<lparr>channelBusySince := now', frameBeingReceived := Some (EtherFrameMsg f),
      em_mac := (em_mac s)\<lparr>mReceiveState := RECEIVING_STATE\<rparr>, numConcurrentTransmissions := numConcurrentTransmissions s + 1,
      emEndRx := (emEndRx s)\<lparr>tm_at := Some (now' + ar_duration a)\<rparr>, endRxArrival := now' + ar_duration a\<rparr>"
  have h: "em_handleMessage ops par ph now' draw (EmNetwork a) s = Inr u"
    unfolding em_handleMessage_up [OF l] Let_def if_not_P [OF consistent [OF i]]
    using assms(5,7-10) e d up
    by (auto simp: em_processMsgFromNetwork_def scheduleEndRxPeriod_def addReception_def reschedule_endRx_def scheduleAt_def
        cancelEvent_def u_def Let_def)
  have iu: "em_inv now' u" by (rule em_message_inv [OF assms(1,11) i _ h]) (use assms(4) in simp)
  have iu': "em_inv (now' + ar_duration a) u" by (rule em_inv_later [OF iu]) (use d in simp)
  have tu: "em_timer EmEndRx u = Some (now' + ar_duration a)" by (simp add: u_def)
  obtain t where t: "em_handleMessage ops par ph (now' + ar_duration a) draw EmEndRx u = Inr t"
    using em_timer_yields [OF assms(1,11) iu' tu] by (auto simp: yields_def)
  define v where "v = em_delivered EmEndRx u"
  have lu: "em_link u" using em_invD(1) [OF iu] by (simp add: em_core_def)
  have hv: "handleEndRxPeriod par (now' + ar_duration a) v = Inr t"
    using t [unfolded em_handleMessage_up [OF lu] Let_def if_not_P [OF consistent [OF iu]]]
    by (simp add: em_handleSelfMessage_def v_def)
  have v: "frameBeingReceived v = Some (EtherFrameMsg f)" "em_rx v = RECEIVING_STATE" "em_tx v = em_tx s"
      "mUpperOut (em_mac v) = mUpperOut (em_mac s)" "em_accepts (em_mac v) f = em_accepts (em_mac s) f"
    by (simp_all add: v_def u_def em_accepts_def)
  obtain w where w: "frameReceptionComplete par (now' + ar_duration a) v = Inr w" "em_tx w = em_tx v"
      "mUpperOut (em_mac w) = mUpperOut (em_mac v) @ (if em_accepts (em_mac v) f then [f\<lparr>fr_byteLength := 0\<rparr>] else [])"
    using complete_data [OF v(1) assms(6), of par "now' + ar_duration a"] by auto
  have "em_rx t = RX_IDLE_STATE \<and> mUpperOut (em_mac t) = mUpperOut (em_mac w) \<and> (em_tx s = TX_IDLE_STATE \<longrightarrow> em_tx t = WAIT_IFG_STATE)"
    using hv v(2,3) w(1,2) by (auto simp: handleEndRxPeriod_def Let_def split: if_splits dest!: gap_upper)
  then show ?thesis using h tu t w(3) v(4,5) by (auto simp: u_def)
qed

definition h_in :: "unit EtherFrame" where "h_in = (w_frame 72)\<lparr>fr_dest := 11725260718086\<rparr>"

lemma em_reception_witness:
  "\<exists>u t. h_step 2000 (EmNetwork (h_arrival\<lparr>ar_msg := EtherFrameMsg h_in, ar_sent := 1000\<rparr>)) h0 = Inr u
    \<and> h_step 5762000 EmEndRx u = Inr t \<and> mUpperOut (em_mac t) = [h_in\<lparr>fr_byteLength := 0\<rparr>] \<and> em_tx t = WAIT_IFG_STATE"
proof -
  have r: "em_reach dtq_ops h_par 0 h0" by (rule em_reach.start [OF h_start h_link]) simp
  have s: "em_rx h0 = RX_IDLE_STATE" "frameBeingReceived h0 = None" "em_tx h0 = TX_IDLE_STATE" "em_descr h0 = etherDescrs ! 1"
      "mAddress (em_mac h0) = 11725260718086" "mUpperOut (em_mac h0) = []"
    by (simp_all add: h0_def em_new_def w0_def mac_new_def)
  have f: "\<not> isPauseFrame h_in" "em_accepts (em_mac h0) h_in" "pause_time h_in = None"
    by (simp_all add: h_in_def em_accepts_def s pause_time.simps w_defs)
  define a where "a = h_arrival\<lparr>ar_msg := EtherFrameMsg h_in, ar_sent := 1000\<rparr>"
  have a: "arrival_fits h_par (em_descr h0) a" "ar_msg a = EtherFrameMsg h_in" "ar_duration a = 5760000"
      "2000 - ar_sent a < mp_simtime (em_mp h_par) (maxPropagationDelay (em_descr h0))"
    using f(3) by (simp_all add: a_def s arrival_fits_def h_arrival_def h_par_def w_times pause_small_def)
  show ?thesis
    using em_reception [OF h_par_ok r _ a(1,2) f(1) _ s(1,2), where now' = 2000 and draw = "\<lambda>a b. b" and ph = w_phys] a(3,4) s(3,6) f(2)
    by (auto simp: draw_ok_def a_def [symmetric])
qed

text \<open>
  The list of receptions kept after a reconnect stays ordered by the ends of the receptions, with one entry for
  each message: adding a reception drops those that have ended and the one it replaces and keeps all others, and
  the reconnect state ends when the last of them does.
\<close>

theorem em_reconnect_list:
  assumes "receptions_ok s" and "addReceptionInReconnectState now i e s = Inr t"
  shows "receptions_ok t
    \<and> set (endRxTimeList t) = insert (i, e) {x \<in> set (endRxTimeList s). now < snd x \<and> fst x \<noteq> i}
    \<and> endRxArrival t = Max (snd ` set (endRxTimeList t))"
proof -
  define rs where "rs = insert_reception i e (erase_reception i (drop_expired now (endRxTimeList s)))"
  note l = reconnect_list [OF assms(1), of i e now, folded rs_def]
  have "endRxTimeList t = rs \<and> endRxArrival t = snd (last rs)"
    using assms(2) by (auto simp: addReceptionInReconnectState_def rs_def [symmetric] reschedule_Inr Let_def split: if_splits)
  moreover have "snd (last rs) = Max (snd ` set rs)" by (rule last_sorted_max [OF l(2)]) (simp add: rs_def)
  ultimately show ?thesis using l by (simp add: receptions_ok_def)
qed

lemma em_reconnect_list_witness:
  "\<exists>t. addReceptionInReconnectState 5 7 20 (h0\<lparr>endRxTimeList := [(3, 4), (7, 10), (-1, 30)], endRxArrival := 30\<rparr>) = Inr t
    \<and> set (endRxTimeList t) = {(7, 20), (-1, 30)} \<and> endRxArrival t = 30"
proof -
  define s where "s = h0\<lparr>endRxTimeList := [(3, 4), (7, 10), (-1, 30)], endRxArrival := 30\<rparr>"
  have "addReceptionInReconnectState 5 7 20 s = Inr (s\<lparr>endRxTimeList := [(7, 20), (-1, 30)]\<rparr>)"
    by (simp add: addReceptionInReconnectState_def s_def Let_def)
  moreover have "receptions_ok s" by (simp add: s_def receptions_ok_def)
  ultimately show ?thesis
    using em_reconnect_list [of s 5 7 20] unfolding s_def by auto
qed

end
