(* ===== verification/EtherMACBurst.thy ===== *)
theory EtherMACBurst
  imports EtherMACHalfDuplex
begin

text \<open>
  A run of \<open>EtherMAC\<close> in half duplex mode with frame bursts that ends in a failed assertion. The module takes its
  frames from an external queue, whose second frame arrives after a reception has begun at the end of the
  first transmission.
\<close>

definition null_ops :: "(unit, unit EtherFrame) iqueue" where
  "null_ops = \<lparr>iq_getNumPendingRequests = (\<lambda>_. 1), iq_requestPacket = (\<lambda>q. q), iq_isEmpty = (\<lambda>_. True),
     iq_pop = (\<lambda>q. (q, None)), iq_clear = Some\<rparr>"

text \<open>A byte takes one unit of time, every time given as a double is ten units.\<close>

definition b_par :: "(unit, unit) em_par" where
  "b_par = \<lparr>em_mp = (w_par (Some ()))\<lparr>mp_duplexMode := False, mp_simtime := (\<lambda>r. 10), mp_txDuration := (\<lambda>r n. n)\<rparr>,
     em_frameBursting = True, em_treeId = (\<lambda>f. 7), em_newTreeId = (\<lambda>t. 8)\<rparr>"

definition b_phys :: phys where
  "b_phys = \<lparr>outTrChannel = Some \<lparr>ch_datarate = 1000000000, ch_disabled = False\<rparr>,
     inTrChannel = Some \<lparr>ch_datarate = 1000000000, ch_disabled = False\<rparr>, outPathConnected = True, inPathConnected = True\<rparr>"

type_synonym b_mac = "(unit, unit) em"

abbreviation b_step :: "simtime \<Rightarrow> unit em_msg \<Rightarrow> b_mac \<Rightarrow> b_mac res" where
  "b_step now \<equiv> em_handleMessage null_ops b_par b_phys now (\<lambda>a b. a)"

definition b0 :: b_mac where
  "b0 = em_new ((mac_new (mac_str 11725260718086))\<lparr>mDescr := etherDescrs ! 2, mAddress := 11725260718086, mConnected := True,
     mFrameBursting := True, mTxQueue := Ext (), mChannel := outTrChannel b_phys, mIfEntry := Some (True, 1000000000),
     mOperational := True\<rparr>)"

lemma b_find: "find (\<lambda>d. 1000000000 = txrate d) etherDescrs = Some (etherDescrs ! 2)"
  "find (\<lambda>d. txrate d = 1000000000) etherDescrs = Some (etherDescrs ! 2)"
  by (simp_all only: etherDescrs_def find.simps ether_descr.select_convs rate_defs) (simp_all add: rate_defs)

lemma b_descr:
  "txrate (etherDescrs ! 2) = 1000000000" "halfDuplexFrameMinBytes (etherDescrs ! 2) = 512" "frameMinBytes (etherDescrs ! 2) = 64"
  "frameInBurstMinBytes (etherDescrs ! 2) = 64" "maxFramesInBurst (etherDescrs ! 2) = 13" "maxBytesInBurst (etherDescrs ! 2) = 8192"
  by (simp_all add: etherDescrs_def GIGABIT_MIN_FRAME_BYTES_WITH_EXT_def MIN_ETHERNET_FRAME_BYTES_def MAX_PACKETBURST_def
      GIGABIT_MAX_BURST_BYTES_def GIGABIT_ETHERNET_TXRATE_def)

lemma b_start: "em_initialize null_ops b_par b_phys 5 ''auto'' True = Inr (6, b0)"
  by (simp add: em_initialize_def mac_base_initialize0_def initializeMACAddress_def w_auto b_par_def half_duplex_allowed_def
     mac_new_def initializeFlags_def initializeQueueModule_def readChannelParameters_def adopt_channel_def Let_def
     b_phys_def phys_connected_def channel_off_def channel_rate_def b_find em_initializeFlags_def updateOperationalFlag_def
     b0_def b_descr request_if_none_def null_ops_def)

definition b_frame :: "unit EtherFrame" where "b_frame = (w_frame 100)\<lparr>fr_src := 11725260718086\<rparr>"
definition b_sent :: "unit EtherFrame" where "b_sent = (w_frame 520)\<lparr>fr_src := 11725260718086\<rparr>"

definition b_arrival :: "simtime \<Rightarrow> unit em_arrival" where
  "b_arrival t = \<lparr>ar_msg = EtherFrameMsg (w_frame 72), ar_treeId = 9, ar_abortedPkTreeID = 0, ar_sent = t, ar_duration = 100\<rparr>"

definition b1 :: b_mac where
  "b1 = b0\<lparr>em_mac := (em_mac b0)\<lparr>mTransmitState := TRANSMITTING_STATE, mCurTxFrame := Some b_frame,
       mEndTx := \<lparr>tm_kind = ENDTRANSMISSION, tm_at = Some 520\<rparr>, mStats := initializeStatistics\<lparr>numFramesFromHL := 1\<rparr>\<rparr>,
     currentSendPkTreeID := 7, bytesSentInBurst := 520, framesSentInBurst := 1, emSignals := [SentFrame b_sent]\<rparr>"

definition b2 :: b_mac where
  "b2 = b1\<lparr>em_mac := (em_mac b1)\<lparr>mTransmitState := WAIT_IFG_STATE, mCurTxFrame := None, mLastTxFinishTime := 520,
       mEndTx := \<lparr>tm_kind = ENDTRANSMISSION, tm_at = None\<rparr>, mEndIFG := \<lparr>tm_kind = ENDIFG, tm_at = Some 530\<rparr>,
       mStats := initializeStatistics\<lparr>numFramesFromHL := 1, numFramesSent := 1\<rparr>\<rparr>,
     currentSendPkTreeID := 0, totalSuccessfulRxTxTime := 520, endIFGSent := 520\<rparr>"

definition b3 :: b_mac where
  "b3 = b2\<lparr>em_mac := (em_mac b2)\<lparr>mReceiveState := RECEIVING_STATE\<rparr>, channelBusySince := 520,
     frameBeingReceived := Some (EtherFrameMsg (w_frame 72)), numConcurrentTransmissions := 1,
     emEndRx := \<lparr>tm_kind = ENDRECEPTION, tm_at = Some 620\<rparr>, endRxArrival := 620\<rparr>"

definition b4 :: b_mac where
  "b4 = b3\<lparr>em_mac := (em_mac b3)\<lparr>mTransmitState := SEND_IFG_STATE, mCurTxFrame := Some b_frame,
       mEndIFG := \<lparr>tm_kind = ENDIFG, tm_at = Some 532\<rparr>,
       mStats := initializeStatistics\<lparr>numFramesFromHL := 2, numFramesSent := 1\<rparr>\<rparr>,
     currentSendPkTreeID := 8, bytesSentInBurst := 532, emSignals := [SentFrame b_sent, SentIFG]\<rparr>"

definition b5 :: b_mac where
  "b5 = b4\<lparr>em_mac := (em_mac b4)\<lparr>mTransmitState := JAMMING_STATE, mReceiveState := RX_COLLISION_STATE,
       mEndIFG := \<lparr>tm_kind = ENDIFG, tm_at = None\<rparr>\<rparr>,
     emEndRx := \<lparr>tm_kind = ENDRECEPTION, tm_at = Some 622\<rparr>, endRxArrival := 622, numConcurrentTransmissions := 2,
     emEndJamming := \<lparr>tm_kind = ENDJAMMING, tm_at = Some 526\<rparr>, numCollisions := 1,
     emSignals := [SentFrame b_sent, SentIFG, SentJam 8]\<rparr>"

definition b6 :: b_mac where
  "b6 = b5\<lparr>em_mac := (em_mac b5)\<lparr>mTransmitState := BACKOFF_STATE\<rparr>, backoffs := 1, numBackoffs := 1,
     emEndJamming := \<lparr>tm_kind = ENDJAMMING, tm_at = None\<rparr>, emEndBackoff := \<lparr>tm_kind = ENDBACKOFF, tm_at = Some 536\<rparr>\<rparr>"

definition b7 :: b_mac where
  "b7 = b6\<lparr>em_mac := (em_mac b6)\<lparr>mTransmitState := TX_IDLE_STATE\<rparr>,
     emEndBackoff := \<lparr>tm_kind = ENDBACKOFF, tm_at = None\<rparr>\<rparr>"

definition b8 :: b_mac where
  "b8 = b7\<lparr>em_mac := (em_mac b7)\<lparr>mTransmitState := WAIT_IFG_STATE, mReceiveState := RX_IDLE_STATE,
       mEndIFG := \<lparr>tm_kind = ENDIFG, tm_at = Some 632\<rparr>\<rparr>,
     emEndRx := \<lparr>tm_kind = ENDRECEPTION, tm_at = None\<rparr>, totalCollisionTime := 102, numConcurrentTransmissions := 0,
     endIFGSent := 622\<rparr>"

lemmas b_states = b8_def b7_def b6_def b5_def b4_def b3_def b2_def b1_def

lemmas b_eval = em_handleMessage_def Let_def b_par_def b_phys_def finish_time_def scheduleAt_def cancelEvent_def
  b0_def mac_new_def em_new_def initializeStatistics_def b_descr

lemmas b_send = em_processFrameFromUpperLayer_def own_src_def isUnspecified_def store_frame_def fillIFGIfInBurst_def
  em_startFrameTransmission_def em_wire_frame_def em_scheduleEndTxPeriod_def PREAMBLE_BYTES_def SFD_BYTES_def
  b_frame_def b_sent_def INTERFRAME_GAP_BITS_def

lemmas b_network = em_processMsgFromNetwork_def scheduleEndRxPeriod_def interrupt_transmission_def addReception_def
  reschedule_endRx_def sendJamSignal_def JAM_SIGNAL_BYTES_def b_arrival_def

lemmas b_timer = em_handleSelfMessage_def em_handleEndTxPeriod_def em_count_sent_def on_mac_def getNextFrameFromQueue_def
  request_if_none_def null_ops_def pause_or_gap_def em_scheduleEndIFGPeriod_def scheduleEndIFGPeriod_def
  handleEndJammingPeriod_def handleRetransmission_def MAX_ATTEMPTS_def handleEndBackoffPeriod_def handleEndRxPeriod_def

lemma b_step1: "b_step 0 (EmUpper (w_frame 100)) b0 = Inr b1"
  by (simp add: b_eval b_send b1_def w_defs)

lemma b_step2: "b_step 520 EmEndTx b1 = Inr b2"
  by (simp add: b_eval b_timer b2_def b1_def b_frame_def w_defs)

lemma b_step3: "b_step 520 (EmNetwork (b_arrival 520)) b2 = Inr b3"
  by (simp add: b_eval b_network b3_def b2_def b1_def)

lemma b_step4: "b_step 520 (EmUpper (w_frame 100)) b3 = Inr b4"
  by (simp add: b_eval b_send b4_def b3_def b2_def b1_def w_defs)

lemma b_step5: "b_step 522 (EmNetwork (b_arrival 522)) b4 = Inr b5"
  by (simp add: b_eval b_network b5_def b4_def b3_def b2_def b1_def)

lemma b_step6: "b_step 526 EmEndJamming b5 = Inr b6"
  by (simp add: b_eval b_timer b6_def b5_def b4_def b3_def b2_def b1_def)

lemma b_step7: "b_step 536 EmEndBackoff b6 = Inr b7"
  by (simp add: b_eval b_timer b7_def b6_def b5_def b4_def b3_def b2_def b1_def)

lemma b_step8: "b_step 622 EmEndRx b7 = Inr b8"
  by (simp add: b_eval b_timer b_states)

lemma b_step9: "b_step 630 (EmNetwork (b_arrival 630)) b8 = Inl AssertFailed"
  by (simp add: b_eval b_network b_states)

lemma b_due: "em_due b_par now (EmNetwork (b_arrival t)) s"
  by (simp add: arrival_fits_def b_arrival_def b_par_def pause_small_def pause_time.simps w_defs)

lemma b_reach: "em_reach null_ops b_par 622 b8"
proof -
  have d: "draw_ok (\<lambda>a b. a)" by (simp add: draw_ok_def)
  have "em_descr b0 \<in> set etherDescrs" by (simp add: b0_def em_new_def) (simp add: etherDescrs_def)
  then have l: "em_link b0"
    by (simp add: em_link_def b0_def em_new_def mac_new_def b_phys_def b_descr)
  have 0: "em_reach null_ops b_par 0 b0" by (rule em_reach.start [OF b_start l]) simp
  have 1: "em_reach null_ops b_par 0 b1" by (rule em_reach.message [OF 0 _ _ d b_step1]) simp_all
  have 2: "em_reach null_ops b_par 520 b2" by (rule em_reach.message [OF 1 _ _ d b_step2]) (simp_all add: b1_def)
  have 3: "em_reach null_ops b_par 520 b3" by (rule em_reach.message [OF 2 _ b_due d b_step3]) simp
  have 4: "em_reach null_ops b_par 520 b4" by (rule em_reach.message [OF 3 _ _ d b_step4]) simp_all
  have 5: "em_reach null_ops b_par 522 b5" by (rule em_reach.message [OF 4 _ b_due d b_step5]) simp
  have 6: "em_reach null_ops b_par 526 b6" by (rule em_reach.message [OF 5 _ _ d b_step6]) (simp_all add: b5_def)
  have 7: "em_reach null_ops b_par 536 b7" by (rule em_reach.message [OF 6 _ _ d b_step7]) (simp_all add: b6_def)
  show ?thesis by (rule em_reach.message [OF 7 _ _ d b_step8]) (simp_all add: b7_def b6_def b5_def)
qed

section \<open>Property\<close>

text \<open>
  A burst can end in a failed assertion: the gap of a burst is filled although a reception has begun, a second frame that
  arrives in the gap makes the receiver forget its state but not its frame, and the first frame that
  arrives once the collision is over stops the simulation.
\<close>

theorem em_burst_assertion:
  "em_par_ok b_par \<and> em_reach null_ops b_par 622 b8 \<and> em_due b_par 630 (EmNetwork (b_arrival 630)) b8
   \<and> em_rx b8 = RX_IDLE_STATE \<and> frameBeingReceived b8 \<noteq> None
   \<and> em_handleMessage null_ops b_par b_phys 630 (\<lambda>a b. a) (EmNetwork (b_arrival 630)) b8 = Inl AssertFailed"
proof -
  have "em_par_ok b_par" by (simp add: em_par_ok_def b_par_def durations_ok_def)
  moreover have "em_rx b8 = RX_IDLE_STATE" and "frameBeingReceived b8 \<noteq> None" by (simp_all add: b_states)
  ultimately show ?thesis using b_reach b_due b_step9 by simp
qed

end
