(* ===== verification/STP.thy ===== *)
theory STP
  imports Ieee8021d
begin

text \<open>
  \<open>linklayer/ieee8021d/stp/STP\<close> with its base class \<open>common/STPBase\<close>: the spanning tree protocol of one bridge.
  The data of its ports is part of its state, as a list with one entry for each port; the address table it
  reaches through \<open>IMACAddressTable\<close> is a parameter. What the code only displays is left out.
\<close>

section \<open>State\<close>

text \<open>The two methods of the address table that \<open>STP\<close> calls.\<close>

record 't stp_ops =
  so_setAgingTime :: "simtime \<Rightarrow> 't \<Rightarrow> 't"
  so_resetDefaultAging :: "'t \<Rightarrow> 't"

text \<open>
  \<open>sTick\<close> is the tick message while it exists: \<open>handleMessage\<close> may delete it. \<open>sOut\<close> is what was sent on
  \<open>relayOut\<close>, with the control information of each message.
\<close>

record 't stp =
  sOperational :: bool
  sBridgePriority :: u32
  sBridgeAddress :: mac_addr
  sMaxAge :: simtime
  sHelloTime :: simtime
  sForwardDelay :: simtime
  sIsRoot :: bool
  sRootPort :: nat
  sDesPorts :: "nat list"
  sRootPathCost :: u32
  sRootPriority :: u32
  sRootAddress :: mac_addr
  sCurrentMaxAge :: simtime
  sCurrentFwdDelay :: simtime
  sCurrentHelloTime :: simtime
  sCurrentBridgePriority :: u32
  sTopologyChangeNotification :: bool
  sTopologyChangeRecvd :: bool
  sTick :: "app_timer option"
  sPorts :: "PortInfo list"
  sTable :: 't
  sOut :: "(BPDU \<times> Ieee802Ctrl) list"

abbreviation sNumPorts :: "'t stp \<Rightarrow> nat" where "sNumPorts s \<equiv> length (sPorts s)"
abbreviation ownId :: "'t stp \<Rightarrow> bridge_id" where "ownId s \<equiv> BridgeId (sBridgePriority s) (sBridgeAddress s)"
abbreviation sRootId :: "'t stp \<Rightarrow> bridge_id" where "sRootId s \<equiv> BridgeId (sRootPriority s) (sRootAddress s)"

text \<open>\<open>getPortInterfaceData\<close>: asking for a gate that does not exist is an error.\<close>

definition getPortInterfaceData :: "int \<Rightarrow> 't stp \<Rightarrow> PortInfo res" where
  "getPortInterfaceData portNum s =
     (if 0 \<le> portNum \<and> portNum < int (sNumPorts s) then Inr (sPorts s ! nat portNum)
      else Inl (RuntimeError ''gate is NULL''))"

definition set_port :: "nat \<Rightarrow> PortInfo \<Rightarrow> 't stp \<Rightarrow> 't stp" where
  "set_port i p s = s\<lparr>sPorts := (sPorts s)[i := p]\<rparr>"

section \<open>BPDUs\<close>

text \<open>The BPDU \<open>generateBPDU\<close> fills in; \<open>p\<close> is the data of the port.\<close>

definition make_BPDU :: "int \<Rightarrow> PortInfo \<Rightarrow> bool \<Rightarrow> bool \<Rightarrow> 't stp \<Rightarrow> BPDU" where
  "make_BPDU port p tcFlag tcaFlag s =
     (let bpdu = new_BPDU\<lparr>bp_bridgeAddress := sBridgeAddress s, bp_bridgePriority := sBridgePriority s,
            bp_rootPathCost := sRootPathCost s, bp_rootAddress := sRootAddress s, bp_rootPriority := sRootPriority s,
            bp_portNum := word_of_int port, bp_portPriority := pi_priority p, bp_messageAge := 0,
            bp_maxAge := sCurrentMaxAge s, bp_helloTime := sCurrentHelloTime s,
            bp_forwardDelay := sCurrentFwdDelay s\<rparr>
      in if sTopologyChangeNotification s
         then if sIsRoot s \<or> tcFlag then bpdu\<lparr>bp_tcFlag := True, bp_tcaFlag := False\<rparr>
              else if tcaFlag then bpdu\<lparr>bp_tcFlag := False, bp_tcaFlag := True\<rparr> else bpdu
         else bpdu)"

definition generateBPDU :: "int \<Rightarrow> mac_addr \<Rightarrow> bool \<Rightarrow> bool \<Rightarrow> 't stp \<Rightarrow> 't stp res" where
  "generateBPDU port address tcFlag tcaFlag s =
     bindR (getPortInterfaceData port s) (\<lambda>p.
       Inr (s\<lparr>sOut := sOut s @ [(make_BPDU port p tcFlag tcaFlag s,
                                 new_Ieee802Ctrl\<lparr>ctl_dest := address, ctl_switchPort := port\<rparr>)]\<rparr>))"

text \<open>A configuration BPDU to all bridges: the default arguments of \<open>generateBPDU\<close>.\<close>

definition sendBPDU :: "nat \<Rightarrow> 't stp \<Rightarrow> 't stp res" where
  "sendBPDU i = generateBPDU (int i) STP_MULTICAST_ADDRESS False False"

definition generateTCN :: "'t stp \<Rightarrow> 't stp res" where
  "generateTCN s =
     (if sTopologyChangeNotification s \<or> \<not> sTopologyChangeRecvd s
      then bindR (getPortInterfaceData (int (sRootPort s)) s) (\<lambda>p.
        if pi_role p = ROOT
        then Inr (s\<lparr>sTopologyChangeNotification := False,
               sOut := sOut s @ [(new_BPDU\<lparr>bp_type := TCN_BPDU\<rparr>,
                 new_Ieee802Ctrl\<lparr>ctl_dest := STP_MULTICAST_ADDRESS, ctl_switchPort := int (sRootPort s)\<rparr>)]\<rparr>)
        else Inr s)
      else Inr s)"

definition generateHelloBDPUs :: "'t stp \<Rightarrow> 't stp res" where
  "generateHelloBDPUs s = iterR sendBPDU [0..<sNumPorts s] s"

text \<open>The information of a BPDU as the receiving port would hold it.\<close>

definition bpdu_info :: "BPDU \<Rightarrow> PortInfo \<Rightarrow> PortInfo" where
  "bpdu_info bpdu port =
     new_PortInfo\<lparr>pi_rootPriority := bp_rootPriority bpdu, pi_rootAddress := bp_rootAddress bpdu,
       pi_rootPathCost := bp_rootPathCost bpdu + pi_linkCost port, pi_bridgePriority := bp_bridgePriority bpdu,
       pi_bridgeAddress := bp_bridgeAddress bpdu, pi_portPriority := bp_portPriority bpdu, pi_portNum := bp_portNum bpdu\<rparr>"

definition setSuperiorBPDU :: "BPDU \<Rightarrow> PortInfo \<Rightarrow> PortInfo" where
  "setSuperiorBPDU bpdu port =
     (if bp_messageAge bpdu \<ge> bp_maxAge bpdu then port
      else port\<lparr>pi_rootPriority := bp_rootPriority bpdu, pi_rootAddress := bp_rootAddress bpdu,
             pi_rootPathCost := bp_rootPathCost bpdu + pi_linkCost port, pi_bridgePriority := bp_bridgePriority bpdu,
             pi_bridgeAddress := bp_bridgeAddress bpdu, pi_portPriority := bp_portPriority bpdu,
             pi_portNum := bp_portNum bpdu, pi_maxAge := bp_maxAge bpdu, pi_fwdDelay := bp_forwardDelay bpdu,
             pi_helloTime := bp_helloTime bpdu, pi_age := 0\<rparr>)"

definition isSuperiorBPDU :: "BPDU \<Rightarrow> PortInfo \<Rightarrow> bool \<times> PortInfo" where
  "isSuperiorBPDU bpdu port =
     (let result = comparePorts port (bpdu_info bpdu port) in
      if result > 0 then (False, port)
      else if result < 0 then (True, setSuperiorBPDU bpdu (port\<lparr>pi_fdWhile := 0, pi_state := DISCARDING\<rparr>))
      else (True, setSuperiorBPDU bpdu port))"

section \<open>Roles\<close>

definition checkRootEligibility :: "'t stp \<Rightarrow> bool" where
  "checkRootEligibility s \<longleftrightarrow>
     list_all (\<lambda>p. \<not> compareBridgeIDs (pi_rootPriority p) (pi_rootAddress p) (sBridgePriority s) (sBridgeAddress s) > 0)
       (sPorts s)"

definition setAllDesignated :: "'t stp \<Rightarrow> 't stp" where
  "setAllDesignated s =
     s\<lparr>sDesPorts := filter (\<lambda>i. pi_role (sPorts s ! i) \<noteq> DISABLED) [0..<sNumPorts s],
       sPorts := map (\<lambda>p. if pi_role p = DISABLED then p else p\<lparr>pi_role := DESIGNATED\<rparr>) (sPorts s)\<rparr>"

text \<open>One round of the loop of \<open>selectRootPort\<close>: the best port so far and the next port.\<close>

definition root_scan :: "PortInfo list \<Rightarrow> nat \<Rightarrow> nat \<Rightarrow> nat" where
  "root_scan ps best i =
     (let result = comparePorts (ps ! i) (ps ! best) in
      if result > 0 then i
      else if result < 0 then best
      else if pi_priority (ps ! i) < pi_priority (ps ! best) then i
      else best)"

definition selectRootPort :: "'t stp \<Rightarrow> 't stp res" where
  "selectRootPort s =
     bindR (getPortInterfaceData 0 s) (\<lambda>_.
       let xRootPort = foldl (root_scan (sPorts s)) 0 [0..<sNumPorts s];
           best = sPorts s ! xRootPort;
           cleared = map (\<lambda>p. p\<lparr>pi_role := NOTASSIGNED\<rparr>) (sPorts s)
       in Inr (s\<lparr>sDesPorts := [],
            sTopologyChangeNotification := (if sRootPort s \<noteq> xRootPort then True else sTopologyChangeNotification s),
            sRootPort := xRootPort,
            sPorts := cleared[xRootPort := (cleared ! xRootPort)\<lparr>pi_role := ROOT\<rparr>],
            sRootPathCost := pi_rootPathCost best, sRootAddress := pi_rootAddress best,
            sRootPriority := pi_rootPriority best, sCurrentMaxAge := pi_maxAge best,
            sCurrentFwdDelay := pi_fwdDelay best, sCurrentHelloTime := pi_helloTime best\<rparr>))"

text \<open>What this bridge would send on a port, as the port's neighbour would hold it.\<close>

definition bridgeGlobal :: "'t stp \<Rightarrow> nat \<Rightarrow> PortInfo \<Rightarrow> PortInfo" where
  "bridgeGlobal s i port =
     new_PortInfo\<lparr>pi_bridgePriority := sBridgePriority s, pi_bridgeAddress := sBridgeAddress s,
       pi_rootAddress := sRootAddress s, pi_rootPriority := sRootPriority s,
       pi_portPriority := pi_priority port, pi_portNum := of_nat i,
       pi_rootPathCost := sRootPathCost s + pi_linkCost port\<rparr>"

definition elected :: "'t stp \<Rightarrow> nat \<Rightarrow> PortInfo \<Rightarrow> bool" where
  "elected s i port \<longleftrightarrow>
     pi_role port \<noteq> ROOT \<and> pi_role port \<noteq> DISABLED \<and> comparePorts (bridgeGlobal s i port) port > 0"

definition designated_role :: "'t stp \<Rightarrow> nat \<Rightarrow> PortInfo \<Rightarrow> PortInfo" where
  "designated_role s i port =
     (if pi_role port = ROOT \<or> pi_role port = DISABLED then port
      else
        let result = comparePorts (bridgeGlobal s i port) port in
        if result > 0 then port\<lparr>pi_role := DESIGNATED\<rparr>
        else if result < 0 then port\<lparr>pi_role := ALTERNATE\<rparr>
        else port)"

definition selectDesignatedPorts :: "'t stp \<Rightarrow> 't stp" where
  "selectDesignatedPorts s =
     s\<lparr>sDesPorts := filter (\<lambda>i. elected s i (sPorts s ! i)) [0..<sNumPorts s],
       sPorts := map (\<lambda>i. designated_role s i (sPorts s ! i)) [0..<sNumPorts s]\<rparr>"

definition tryRoot :: "'t stp \<Rightarrow> 't stp res" where
  "tryRoot s =
     (if checkRootEligibility s
      then
        let s1 = setAllDesignated (s\<lparr>sIsRoot := True\<rparr>)
        in Inr (s1\<lparr>sRootPriority := sBridgePriority s1, sRootAddress := sBridgeAddress s1, sRootPathCost := 0,
             sCurrentHelloTime := sHelloTime s1, sCurrentMaxAge := sMaxAge s1, sCurrentFwdDelay := sForwardDelay s1\<rparr>)
      else bindR (selectRootPort (s\<lparr>sIsRoot := False\<rparr>)) (\<lambda>s1. Inr (selectDesignatedPorts s1)))"

text \<open>\<open>initInterfacedata\<close>; \<open>-1\<close> is assigned to unsigned members.\<close>

definition init_port :: "'t stp \<Rightarrow> PortInfo \<Rightarrow> PortInfo" where
  "init_port s p =
     p\<lparr>pi_role := NOTASSIGNED, pi_state := DISCARDING, pi_rootPriority := sBridgePriority s,
       pi_rootAddress := sBridgeAddress s, pi_rootPathCost := 0, pi_age := 0, pi_bridgePriority := sBridgePriority s,
       pi_bridgeAddress := sBridgeAddress s, pi_portPriority := -1, pi_portNum := -1, pi_lostBPDU := 0\<rparr>"

definition initInterfacedata :: "nat \<Rightarrow> 't stp \<Rightarrow> 't stp" where
  "initInterfacedata i s = set_port i (init_port s (sPorts s ! i)) s"

definition initPortTable :: "'t stp \<Rightarrow> 't stp" where
  "initPortTable s = s\<lparr>sPorts := map (init_port s) (sPorts s)\<rparr>"

definition lostRoot :: "'t stp \<Rightarrow> 't stp res" where
  "lostRoot s = tryRoot (s\<lparr>sTopologyChangeNotification := True\<rparr>)"

definition lostAlternate :: "'t stp \<Rightarrow> 't stp" where
  "lostAlternate s = (selectDesignatedPorts s)\<lparr>sTopologyChangeNotification := True\<rparr>"

definition stp_reset :: "'t stp \<Rightarrow> 't stp" where
  "stp_reset s =
     setAllDesignated (s\<lparr>sIsRoot := True, sRootPriority := sBridgePriority s, sRootAddress := sBridgeAddress s,
       sRootPathCost := 0, sCurrentHelloTime := sHelloTime s, sCurrentMaxAge := sMaxAge s,
       sCurrentFwdDelay := sForwardDelay s\<rparr>)"

section \<open>Timers\<close>

text \<open>\<open>tickInterval\<close> is one second.\<close>

definition tick_port :: "PortInfo \<Rightarrow> PortInfo" where
  "tick_port p =
     (if pi_role p = DISABLED then p
      else
        let p1 = (if pi_role p \<noteq> DESIGNATED then p\<lparr>pi_age := pi_age p + SIMTIME_SECOND\<rparr> else p)
        in if pi_role p1 = ROOT \<or> pi_role p1 = DESIGNATED then p1\<lparr>pi_fdWhile := pi_fdWhile p1 + SIMTIME_SECOND\<rparr> else p1)"

text \<open>The three parts of \<open>checkTimers\<close>: hello timer, age of the information, forward delay.\<close>

definition hello_timer :: "'t stp \<Rightarrow> 't stp res" where
  "hello_timer s =
     (if sHelloTime s \<ge> sCurrentHelloTime s
      then bindR (if sIsRoot s then generateHelloBDPUs s else Inr s) (\<lambda>s1. Inr (s1\<lparr>sHelloTime := 0\<rparr>))
      else Inr s)"

definition check_age :: "nat \<Rightarrow> 't stp \<Rightarrow> 't stp res" where
  "check_age i s =
     (let port = sPorts s ! i in
      if pi_age port \<ge> sCurrentMaxAge s
      then if pi_role port = ROOT then lostRoot (initInterfacedata i s)
           else Inr (lostAlternate (initInterfacedata i s))
      else Inr s)"

definition forward_port :: "simtime \<Rightarrow> PortInfo \<Rightarrow> PortInfo" where
  "forward_port currentFwdDelay p =
     (if pi_role p = ROOT \<or> pi_role p = DESIGNATED
      then if pi_fdWhile p \<ge> currentFwdDelay
           then (case pi_state p of
                   DISCARDING \<Rightarrow> p\<lparr>pi_state := LEARNING, pi_fdWhile := 0\<rparr>
                 | LEARNING \<Rightarrow> p\<lparr>pi_state := FORWARDING, pi_fdWhile := 0\<rparr>
                 | FORWARDING \<Rightarrow> p\<lparr>pi_fdWhile := 0\<rparr>)
           else p
      else p\<lparr>pi_fdWhile := 0, pi_state := DISCARDING\<rparr>)"

definition checkTimers :: "'t stp \<Rightarrow> 't stp res" where
  "checkTimers s =
     bindR (hello_timer s) (\<lambda>s1.
     bindR (iterR check_age [0..<sNumPorts s1] s1) (\<lambda>s2.
       Inr (s2\<lparr>sPorts := map (forward_port (sCurrentFwdDelay s2)) (sPorts s2)\<rparr>)))"

definition checkParametersChange :: "'t stp \<Rightarrow> 't stp" where
  "checkParametersChange s =
     (let s1 = (if sIsRoot s
                then s\<lparr>sCurrentHelloTime := sHelloTime s, sCurrentMaxAge := sMaxAge s,
                       sCurrentFwdDelay := sForwardDelay s\<rparr> else s)
      in if sCurrentBridgePriority s1 \<noteq> sBridgePriority s1
         then stp_reset (s1\<lparr>sCurrentBridgePriority := sBridgePriority s1\<rparr>) else s1)"

definition handleTick :: "'t stp \<Rightarrow> 't stp res" where
  "handleTick s =
     (let s1 = s\<lparr>sHelloTime := (if sIsRoot s then sHelloTime s + SIMTIME_SECOND else 0),
                 sPorts := map tick_port (sPorts s)\<rparr>
      in bindR (checkTimers s1) (\<lambda>s2. generateTCN (checkParametersChange s2)))"

text \<open>
  \<open>scheduleAt\<close> for the tick message, a second from now. Using the tick message after it was deleted is the error
  \<open>NullDeref\<close>: no valid object is there any more.
\<close>

definition schedule_tick :: "simtime \<Rightarrow> 't stp \<Rightarrow> 't stp res" where
  "schedule_tick now s =
     (case sTick s of
        None \<Rightarrow> Inl NullDeref
      | Some t \<Rightarrow> bindR (scheduleAt now (now + SIMTIME_SECOND) t) (\<lambda>t1. Inr (s\<lparr>sTick := Some t1\<rparr>)))"

section \<open>Messages\<close>

text \<open>
  \<open>switchPort\<close> is that of the control information. The BPDUs a change of topology causes go out before the
  roles are chosen again.
\<close>

definition handleBPDU :: "'t stp_ops \<Rightarrow> BPDU \<Rightarrow> Ieee802Ctrl \<Rightarrow> 't stp \<Rightarrow> 't stp res" where
  "handleBPDU ops bpdu controlInfo s =
     (let arrivalGate = ctl_switchPort controlInfo in
      bindR (getPortInterfaceData arrivalGate s) (\<lambda>port.
        let s1 = (if bp_tcaFlag bpdu then s\<lparr>sTopologyChangeRecvd := True, sTopologyChangeNotification := False\<rparr> else s);
            (superior, port1) = isSuperiorBPDU bpdu port;
            s2 = set_port (nat arrivalGate) port1 s1
        in bindR
             (if \<not> superior
              then if pi_role port1 = DESIGNATED
                   then generateBPDU arrivalGate STP_MULTICAST_ADDRESS False False s2 else Inr s2
              else if pi_role port1 = ROOT
              then if bp_tcFlag bpdu
                   then let s3 = s2\<lparr>sTable := so_setAgingTime ops (sCurrentFwdDelay s2) (sTable s2)\<rparr>
                        in iterR (\<lambda>i. generateBPDU (int i) STP_MULTICAST_ADDRESS True False) (sDesPorts s3) s3
                   else let s3 = s2\<lparr>sTable := so_resetDefaultAging ops (sTable s2)\<rparr>
                        in iterR sendBPDU (sDesPorts s3) s3
              else Inr s2)
             tryRoot))"

definition handleTCN :: "BPDU \<Rightarrow> Ieee802Ctrl \<Rightarrow> 't stp \<Rightarrow> 't stp res" where
  "handleTCN tcn controlInfo s =
     bindR (generateBPDU (ctl_switchPort controlInfo) (ctl_src controlInfo) False True
              (s\<lparr>sTopologyChangeNotification := True\<rparr>)) (\<lambda>s1.
       Inr (if \<not> sIsRoot s1
            then s1\<lparr>sOut := sOut s1 @ [(tcn, controlInfo\<lparr>ctl_switchPort := int (sRootPort s1)\<rparr>)]\<rparr> else s1))"

datatype stp_msg = StpTick | StpBPDU BPDU "Ieee802Ctrl option" | StpOther

definition stp_handleMessage :: "'t stp_ops \<Rightarrow> simtime \<Rightarrow> stp_msg \<Rightarrow> 't stp \<Rightarrow> 't stp res" where
  "stp_handleMessage ops now m s =
     (if \<not> sOperational s then Inr (case m of StpTick \<Rightarrow> s\<lparr>sTick := None\<rparr> | _ \<Rightarrow> s)
      else case m of
        StpBPDU bpdu controlInfo \<Rightarrow>
          if bp_type bpdu = CONFIG_BDPU
          then (case controlInfo of None \<Rightarrow> Inl BadCast | Some c \<Rightarrow> handleBPDU ops bpdu c s)
          else if bp_type bpdu = TCN_BPDU
          then (case controlInfo of None \<Rightarrow> Inl BadCast | Some c \<Rightarrow> handleTCN bpdu c s)
          else Inr s
      | StpOther \<Rightarrow> Inl (RuntimeError ''Non-BPDU packet received'')
      | StpTick \<Rightarrow>
          bindR (handleTick (s\<lparr>sTick := map_option cancelEvent (sTick s)\<rparr>)) (schedule_tick now))"

section \<open>Initialization and life cycle\<close>

record stp_par =
  sp_bridgePriority :: u32
  sp_maxAge :: simtime
  sp_helloTime :: simtime
  sp_forwardDelay :: simtime

text \<open>
  Both stages of \<open>initialize\<close>; the bridge has an address only if it is up. What is not set before it is read
  otherwise is 0 here. \<open>sHelloTime\<close> is the member \<open>helloTime\<close> that \<open>STP\<close> declares: it hides that of \<open>STPBase\<close>,
  which holds the parameter \<open>sp_helloTime\<close> and is not read by \<open>STP\<close>. As a \<open>simtime_t\<close> it is constructed as 0.
\<close>

definition stp_initialize ::
    "stp_par \<Rightarrow> simtime \<Rightarrow> bool option \<Rightarrow> (bool \<times> mac_addr) list \<Rightarrow> PortInfo list \<Rightarrow> 't \<Rightarrow> 't stp res" where
  "stp_initialize par now status_up ift ports table =
     (let isOperational = (case status_up of None \<Rightarrow> True | Some up \<Rightarrow> up) in
      if ports = [] then Inl (RuntimeError ''no such gate: ethg$o[0]'')
      else if isOperational \<and> chooseInterface ift = None then Inl (RuntimeError ''No non-loopback interface found!'')
      else
        let bridgeAddress = (if isOperational then the (chooseInterface ift) else 0);
            s = \<lparr>sOperational = isOperational, sBridgePriority = sp_bridgePriority par, sBridgeAddress = bridgeAddress,
                 sMaxAge = sp_maxAge par, sHelloTime = 0, sForwardDelay = sp_forwardDelay par, sIsRoot = True,
                 sRootPort = 0, sDesPorts = [], sRootPathCost = 0, sRootPriority = sp_bridgePriority par,
                 sRootAddress = bridgeAddress, sCurrentMaxAge = sp_maxAge par, sCurrentFwdDelay = sp_forwardDelay par,
                 sCurrentHelloTime = 0, sCurrentBridgePriority = sp_bridgePriority par,
                 sTopologyChangeNotification = False, sTopologyChangeRecvd = True,
                 sTick = Some \<lparr>tm_kind = 0, tm_at = None\<rparr>, sPorts = ports, sTable = table, sOut = []\<rparr>
        in schedule_tick now (setAllDesignated (initPortTable s)))"

definition stp_start :: "simtime \<Rightarrow> (bool \<times> mac_addr) list \<Rightarrow> 't stp \<Rightarrow> 't stp res" where
  "stp_start now ift s =
     (case chooseInterface ift of
        None \<Rightarrow> Inl (RuntimeError ''No non-loopback interface found!'')
      | Some a \<Rightarrow>
          let s1 = initPortTable (s\<lparr>sOperational := True, sBridgeAddress := a\<rparr>)
          in schedule_tick now (setAllDesignated (s1\<lparr>sCurrentBridgePriority := sBridgePriority s1, sIsRoot := True,
               sTopologyChangeNotification := True, sTopologyChangeRecvd := True, sRootPriority := sBridgePriority s1,
               sRootAddress := sBridgeAddress s1, sRootPathCost := 0, sRootPort := 0,
               sCurrentHelloTime := sHelloTime s1, sCurrentMaxAge := sMaxAge s1,
               sCurrentFwdDelay := sForwardDelay s1, sHelloTime := 0\<rparr>)))"

definition stp_stop :: "'t stp \<Rightarrow> 't stp res" where
  "stp_stop s =
     (case sTick s of
        None \<Rightarrow> Inl NullDeref
      | Some t \<Rightarrow> Inr (s\<lparr>sOperational := False, sIsRoot := False, sTopologyChangeNotification := True,
                         sTick := Some (cancelEvent t)\<rparr>))"

fun stp_handleOperationStage ::
    "simtime \<Rightarrow> (bool \<times> mac_addr) list \<Rightarrow> LifecycleOperation \<Rightarrow> nat \<Rightarrow> 't stp \<Rightarrow> 't stp res" where
  "stp_handleOperationStage now ift NodeStartOperation stage s =
     (if stage = start_STAGE_LINK_LAYER then stp_start now ift s else Inr s)"
| "stp_handleOperationStage now ift NodeShutdownOperation stage s =
     (if stage = shutdown_STAGE_LINK_LAYER then stp_stop s else Inr s)"
| "stp_handleOperationStage now ift NodeCrashOperation stage s =
     (if stage = crash_STAGE_CRASH then stp_stop s else Inr s)"
| "stp_handleOperationStage now ift OtherOperation stage s = Inl (RuntimeError ''Unsupported operation'')"

end
