(* ===== verification/STPInv.thy ===== *)
theory STPInv
  imports STP
begin

text \<open>
  What the operations of \<open>STP\<close> keep. \<open>decided\<close> says that the roles of the ports are those the stored information
  asks for; \<open>tryRoot\<close> establishes it from any state. \<open>stp_inv\<close> adds, for a network whose bridges have the same
  timer parameters, what keeps it true when information ages.
\<close>

section \<open>Sending\<close>

abbreviation bpdu_ctrl :: "int \<Rightarrow> mac_addr \<Rightarrow> Ieee802Ctrl" where
  "bpdu_ctrl port address \<equiv> new_Ieee802Ctrl\<lparr>ctl_dest := address, ctl_switchPort := port\<rparr>"

lemma make_BPDU_out [simp]: "make_BPDU port p tc tca (s\<lparr>sOut := out\<rparr>) = make_BPDU port p tc tca s"
  by (simp add: make_BPDU_def Let_def)

lemma getPort_nat [simp]: "i < sNumPorts s \<Longrightarrow> getPortInterfaceData (int i) s = Inr (sPorts s ! i)"
  by (simp add: getPortInterfaceData_def)

lemma generateBPDU_nat:
  "i < sNumPorts s \<Longrightarrow> generateBPDU (int i) a tc tca s =
     Inr (s\<lparr>sOut := sOut s @ [(make_BPDU (int i) (sPorts s ! i) tc tca s, bpdu_ctrl (int i) a)]\<rparr>)"
  by (simp add: generateBPDU_def)

lemma iter_generateBPDU:
  "set is \<subseteq> {..<sNumPorts s} \<Longrightarrow> iterR (\<lambda>i. generateBPDU (int i) a tc tca) is s =
     Inr (s\<lparr>sOut := sOut s @ map (\<lambda>i. (make_BPDU (int i) (sPorts s ! i) tc tca s, bpdu_ctrl (int i) a)) is\<rparr>)"
  by (induction "is" arbitrary: s) (simp_all add: generateBPDU_nat)

lemma iter_sendBPDU:
  "set is \<subseteq> {..<sNumPorts s} \<Longrightarrow> iterR sendBPDU is s =
     Inr (s\<lparr>sOut := sOut s @ map (\<lambda>i. (make_BPDU (int i) (sPorts s ! i) False False s,
                                      bpdu_ctrl (int i) STP_MULTICAST_ADDRESS)) is\<rparr>)"
  unfolding sendBPDU_def by (rule iter_generateBPDU)

lemma generateHelloBDPUs_eq:
  "generateHelloBDPUs s = Inr (s\<lparr>sOut := sOut s @ map (\<lambda>i. (make_BPDU (int i) (sPorts s ! i) False False s,
       bpdu_ctrl (int i) STP_MULTICAST_ADDRESS)) [0..<sNumPorts s]\<rparr>)"
  unfolding generateHelloBDPUs_def by (rule iter_sendBPDU) auto

section \<open>Choosing the roles\<close>

definition role_by_vector :: "'t stp \<Rightarrow> nat \<Rightarrow> PortRole" where
  "role_by_vector s i =
     (if vector (bridgeGlobal s i (sPorts s ! i)) < vector (sPorts s ! i) then DESIGNATED
      else if vector (sPorts s ! i) < vector (bridgeGlobal s i (sPorts s ! i)) then ALTERNATE
      else NOTASSIGNED)"

definition root_elected :: "'t stp \<Rightarrow> bool" where
  "root_elected s \<longleftrightarrow>
     sRootId s = Min (insert (ownId s) (rootId ` set (sPorts s))) \<and> (sIsRoot s \<longleftrightarrow> sRootId s = ownId s)"

definition roles_root :: "'t stp \<Rightarrow> bool" where
  "roles_root s \<longleftrightarrow> sRootPathCost s = 0 \<and> (\<forall>p \<in> set (sPorts s). pi_role p = DESIGNATED \<or> pi_role p = DISABLED)"

definition roles_other :: "'t stp \<Rightarrow> bool" where
  "roles_other s \<longleftrightarrow> sRootPort s < sNumPorts s
     \<and> (let r = sPorts s ! sRootPort s in
          pi_role r = ROOT \<and> rootId r = sRootId s \<and> pi_rootPathCost r = sRootPathCost s
          \<and> (\<forall>p \<in> set (sPorts s). vector r \<le> vector p))
     \<and> (\<forall>i < sNumPorts s. i \<noteq> sRootPort s \<longrightarrow> pi_role (sPorts s ! i) = role_by_vector s i)"

definition decided :: "'t stp \<Rightarrow> bool" where
  "decided s \<longleftrightarrow> root_elected s \<and> (if sIsRoot s then roles_root s else roles_other s)
     \<and> sDesPorts s = filter (\<lambda>i. pi_role (sPorts s ! i) = DESIGNATED) [0..<sNumPorts s]"

text \<open>The scan of \<open>selectRootPort\<close> finds a port with the least vector.\<close>

lemma root_scan_cases:
  "root_scan ps best i = i \<and> vector (ps ! i) \<le> vector (ps ! best)
   \<or> root_scan ps best i = best \<and> vector (ps ! best) \<le> vector (ps ! i)"
  by (auto simp: root_scan_def Let_def comparePorts_vector)

lemma root_scan_least:
  assumes "ps \<noteq> []" and "n \<le> length ps"
  shows "foldl (root_scan ps) 0 [0..<n] < length ps
    \<and> vector (ps ! foldl (root_scan ps) 0 [0..<n]) \<le> vector (ps ! 0)
    \<and> (\<forall>i < n. vector (ps ! foldl (root_scan ps) 0 [0..<n]) \<le> vector (ps ! i))"
  using assms
proof (induction n)
  case (Suc n)
  then show ?case
    using root_scan_cases [of ps "foldl (root_scan ps) 0 [0..<n]" n]
    by (auto simp: less_Suc_eq intro: order_trans)
qed simp

lemma compareBridgeIDs_pos: "compareBridgeIDs p a q b > 0 \<longleftrightarrow> BridgeId p a < BridgeId q b"
  by (auto simp: compareBridgeIDs_order)

lemma least_root: "vector p \<le> vector q \<Longrightarrow> rootId p \<le> rootId q"
  by (metis lex_less not_le vector_def)

lemma eligible_iff: "checkRootEligibility s \<longleftrightarrow> (\<forall>p \<in> set (sPorts s). ownId s \<le> rootId p)"
  unfolding checkRootEligibility_def list_all_iff compareBridgeIDs_pos by (simp add: not_less)

lemma selectRootPort_shape:
  assumes "sPorts s \<noteq> []"
  obtains x where "x < sNumPorts s" and "\<forall>p \<in> set (sPorts s). vector (sPorts s ! x) \<le> vector p"
    and "selectRootPort s = Inr (s\<lparr>sDesPorts := [],
            sTopologyChangeNotification := (if sRootPort s \<noteq> x then True else sTopologyChangeNotification s),
            sRootPort := x, sPorts := (map (\<lambda>p. p\<lparr>pi_role := NOTASSIGNED\<rparr>) (sPorts s))[x := (sPorts s ! x)\<lparr>pi_role := ROOT\<rparr>],
            sRootPathCost := pi_rootPathCost (sPorts s ! x), sRootAddress := pi_rootAddress (sPorts s ! x),
            sRootPriority := pi_rootPriority (sPorts s ! x), sCurrentMaxAge := pi_maxAge (sPorts s ! x),
            sCurrentFwdDelay := pi_fwdDelay (sPorts s ! x), sCurrentHelloTime := pi_helloTime (sPorts s ! x)\<rparr>)"
proof -
  define x where "x = foldl (root_scan (sPorts s)) 0 [0..<sNumPorts s]"
  have l: "x < sNumPorts s" "\<forall>i < sNumPorts s. vector (sPorts s ! x) \<le> vector (sPorts s ! i)"
    using root_scan_least [OF assms order_refl] by (simp_all add: x_def)
  show thesis
  proof (rule that [OF l(1)])
    show "\<forall>p \<in> set (sPorts s). vector (sPorts s ! x) \<le> vector p" using l(2) by (auto simp: in_set_conv_nth)
  qed (use assms l(1) in \<open>simp add: selectRootPort_def getPortInterfaceData_def Let_def x_def [symmetric]\<close>)
qed

lemma bridgeGlobal_ports [simp]: "bridgeGlobal (s\<lparr>sPorts := ps, sDesPorts := ds\<rparr>) i p = bridgeGlobal s i p"
  "bridgeGlobal s i (p\<lparr>pi_role := r\<rparr>) = bridgeGlobal s i p"
  by (simp_all add: bridgeGlobal_def)

text \<open>The loop of \<open>selectDesignatedPorts\<close> gives every port but the root port the role its vector asks for.\<close>

lemma selectDesignatedPorts_roles:
  assumes r: "pi_role (sPorts s ! sRootPort s) = ROOT"
    and o: "\<And>i. i < sNumPorts s \<Longrightarrow> i \<noteq> sRootPort s \<Longrightarrow>
      pi_role (sPorts s ! i) \<noteq> ROOT \<and> pi_role (sPorts s ! i) \<noteq> DISABLED
      \<and> (vector (bridgeGlobal s i (sPorts s ! i)) = vector (sPorts s ! i) \<longrightarrow> pi_role (sPorts s ! i) = NOTASSIGNED)"
  defines "p \<equiv> \<lambda>i. if i = sRootPort s then sPorts s ! i else (sPorts s ! i)\<lparr>pi_role := role_by_vector s i\<rparr>"
  shows "selectDesignatedPorts s = s\<lparr>sPorts := map p [0..<sNumPorts s],
           sDesPorts := filter (\<lambda>i. pi_role (p i) = DESIGNATED) [0..<sNumPorts s]\<rparr>"
proof -
  have d: "designated_role s i (sPorts s ! i) = p i" if "i < sNumPorts s" for i
    using r o [OF that] by (auto simp: designated_role_def p_def role_by_vector_def comparePorts_vector Let_def)
  have e: "elected s i (sPorts s ! i) \<longleftrightarrow> pi_role (p i) = DESIGNATED" if "i < sNumPorts s" for i
    using r o [OF that] by (auto simp: elected_def p_def role_by_vector_def comparePorts_vector)
  have "map (\<lambda>i. designated_role s i (sPorts s ! i)) [0..<sNumPorts s] = map p [0..<sNumPorts s]"
    and "filter (\<lambda>i. elected s i (sPorts s ! i)) [0..<sNumPorts s] = filter (\<lambda>i. pi_role (p i) = DESIGNATED) [0..<sNumPorts s]"
    using d e by (auto intro: filter_cong)
  then show ?thesis by (simp add: selectDesignatedPorts_def)
qed

lemma vectors_map: "length ps = length qs \<Longrightarrow> (\<And>i. i < length ps \<Longrightarrow> vector (ps ! i) = vector (qs ! i)) \<Longrightarrow> map vector ps = map vector qs"
  by (auto intro: nth_equalityI)

lemma vectors_rootIds:
  assumes "map vector ps = map vector qs"
  shows "rootId ` set ps = rootId ` set qs"
proof -
  have "rootId ` set rs = fst ` set (map vector rs)" for rs by (auto simp: vector_def image_iff)
  then show ?thesis using arg_cong [OF assms, of set] by simp
qed

lemma Min_rootId:
  assumes "p \<in> set ps" and "\<forall>q \<in> set ps. vector p \<le> vector q" and "\<not> (\<forall>q \<in> set ps. a \<le> rootId q)"
  shows "Min (insert a (rootId ` set ps)) = rootId p" and "rootId p < a"
proof -
  show l: "rootId p < a" using assms(2,3) least_root by (meson le_less_trans not_le)
  have "\<forall>q \<in> set ps. rootId p \<le> rootId q" using assms(2) least_root by blast
  then show "Min (insert a (rootId ` set ps)) = rootId p"
    using assms(1) l by (intro Min_eqI) auto
qed

lemma bridgeGlobal_cong:
  assumes "ownId t = ownId s" and "sRootId t = sRootId s" and "sRootPathCost t = sRootPathCost s"
    and "pi_priority q = pi_priority p" and "pi_linkCost q = pi_linkCost p"
  shows "bridgeGlobal t i q = bridgeGlobal s i p"
  using assms by (simp add: bridgeGlobal_def)

lemma role_by_vector_cong:
  assumes "ownId t = ownId s" and "sRootId t = sRootId s" and "sRootPathCost t = sRootPathCost s"
    and "sPorts t ! i = (sPorts s ! i)\<lparr>pi_role := r\<rparr>"
  shows "role_by_vector t i = role_by_vector s i"
  using assms bridgeGlobal_cong [of t s "sPorts t ! i" "sPorts s ! i" i] by (simp add: role_by_vector_def)

text \<open>What \<open>tryRoot\<close> leaves as it is.\<close>

definition same_config :: "'t stp \<Rightarrow> 't stp \<Rightarrow> bool" where
  "same_config t s \<longleftrightarrow> sOperational t = sOperational s \<and> sBridgePriority t = sBridgePriority s
     \<and> sBridgeAddress t = sBridgeAddress s \<and> sMaxAge t = sMaxAge s \<and> sForwardDelay t = sForwardDelay s
     \<and> sHelloTime t = sHelloTime s \<and> sCurrentBridgePriority t = sCurrentBridgePriority s
     \<and> sTopologyChangeRecvd t = sTopologyChangeRecvd s \<and> sTick t = sTick s \<and> sTable t = sTable s \<and> sOut t = sOut s"

lemma tryRoot_root:
  assumes "checkRootEligibility s"
  obtains t where "tryRoot s = Inr t" and "same_config t s" and "sIsRoot t"
    and "sTopologyChangeNotification t = sTopologyChangeNotification s" and "sRootPort t = sRootPort s"
    and "sCurrentMaxAge t = sMaxAge s" and "sCurrentFwdDelay t = sForwardDelay s" and "sCurrentHelloTime t = sHelloTime s"
    and "sPorts t = map (\<lambda>p. if pi_role p = DISABLED then p else p\<lparr>pi_role := DESIGNATED\<rparr>) (sPorts s)"
    and "map vector (sPorts t) = map vector (sPorts s)" and "decided t"
proof
  let ?t = "(setAllDesignated (s\<lparr>sIsRoot := True\<rparr>))\<lparr>sRootPriority := sBridgePriority s,
      sRootAddress := sBridgeAddress s, sRootPathCost := 0, sCurrentHelloTime := sHelloTime s,
      sCurrentMaxAge := sMaxAge s, sCurrentFwdDelay := sForwardDelay s\<rparr>"
  show "tryRoot s = Inr ?t" using assms by (simp add: tryRoot_def Let_def setAllDesignated_def)
  show v: "map vector (sPorts ?t) = map vector (sPorts s)" by (simp add: setAllDesignated_def)
  from vectors_rootIds [OF v] have "Min (insert (ownId s) (rootId ` set (sPorts ?t))) = ownId s"
    using assms by (intro Min_eqI) (auto simp: eligible_iff)
  then show "decided ?t"
    by (auto simp: decided_def root_elected_def roles_root_def setAllDesignated_def intro!: filter_cong)
qed (simp_all add: setAllDesignated_def same_config_def)

lemma tryRoot_other:
  assumes "sPorts s \<noteq> []" and "\<not> checkRootEligibility s"
  obtains x t where "tryRoot s = Inr t" and "same_config t s" and "\<not> sIsRoot t"
    and "x < sNumPorts s" and "\<forall>p \<in> set (sPorts s). vector (sPorts s ! x) \<le> vector p"
    and "sTopologyChangeNotification t = (if sRootPort s \<noteq> x then True else sTopologyChangeNotification s)"
    and "sRootPort t = x" and "sRootPathCost t = pi_rootPathCost (sPorts s ! x)" and "sRootId t = rootId (sPorts s ! x)"
    and "sCurrentMaxAge t = pi_maxAge (sPorts s ! x)" and "sCurrentFwdDelay t = pi_fwdDelay (sPorts s ! x)"
    and "sCurrentHelloTime t = pi_helloTime (sPorts s ! x)" and "sNumPorts t = sNumPorts s"
    and "\<And>i. i < sNumPorts s \<Longrightarrow> sPorts t ! i = (sPorts s ! i)\<lparr>pi_role := (if i = x then ROOT else role_by_vector t i)\<rparr>"
    and "sDesPorts t = filter (\<lambda>i. pi_role (sPorts t ! i) = DESIGNATED) [0..<sNumPorts s]"
proof -
  define s0 where "s0 = s\<lparr>sIsRoot := False\<rparr>"
  obtain x where x: "x < sNumPorts s0" "\<forall>p \<in> set (sPorts s0). vector (sPorts s0 ! x) \<le> vector p"
    and sel: "selectRootPort s0 = Inr (s0\<lparr>sDesPorts := [],
            sTopologyChangeNotification := (if sRootPort s0 \<noteq> x then True else sTopologyChangeNotification s0),
            sRootPort := x, sPorts := (map (\<lambda>p. p\<lparr>pi_role := NOTASSIGNED\<rparr>) (sPorts s0))[x := (sPorts s0 ! x)\<lparr>pi_role := ROOT\<rparr>],
            sRootPathCost := pi_rootPathCost (sPorts s0 ! x), sRootAddress := pi_rootAddress (sPorts s0 ! x),
            sRootPriority := pi_rootPriority (sPorts s0 ! x), sCurrentMaxAge := pi_maxAge (sPorts s0 ! x),
            sCurrentFwdDelay := pi_fwdDelay (sPorts s0 ! x), sCurrentHelloTime := pi_helloTime (sPorts s0 ! x)\<rparr>)"
      (is "_ = Inr ?s1")
    using selectRootPort_shape [of s0] assms(1) by (auto simp: s0_def)
  define s1 where "s1 = ?s1"
  have p1: "sPorts s1 ! i = (sPorts s ! i)\<lparr>pi_role := (if i = x then ROOT else NOTASSIGNED)\<rparr>" if "i < sNumPorts s" for i
    using that x(1) by (auto simp: s1_def s0_def nth_list_update)
  have n: "sNumPorts s1 = sNumPorts s" "sRootPort s1 = x" by (simp_all add: s1_def s0_def)
  define p where "p = (\<lambda>i. if i = x then sPorts s1 ! i else (sPorts s1 ! i)\<lparr>pi_role := role_by_vector s1 i\<rparr>)"
  define t where "t = s1\<lparr>sPorts := map p [0..<sNumPorts s], sDesPorts := filter (\<lambda>i. pi_role (p i) = DESIGNATED) [0..<sNumPorts s]\<rparr>"
  have "selectDesignatedPorts s1 = t"
    by (subst selectDesignatedPorts_roles) (use x(1) p1 in \<open>simp_all add: t_def p_def n s0_def\<close>)
  then have tr: "tryRoot s = Inr t"
    using assms(2) by (simp add: tryRoot_def s0_def [symmetric] sel s1_def [symmetric])
  have p: "sPorts t ! i = (sPorts s ! i)\<lparr>pi_role := (if i = x then ROOT else role_by_vector t i)\<rparr>" if "i < sNumPorts s" for i
  proof -
    have q: "sPorts t ! i = p i" using that by (simp add: t_def)
    have "role_by_vector t i = role_by_vector s1 i"
      by (rule role_by_vector_cong [where r = "pi_role (p i)"]) (use q in \<open>simp_all add: t_def p_def\<close>)
    then show ?thesis using q p1 [OF that] by (cases "i = x") (simp_all add: p_def)
  qed
  show thesis
    by (rule that [OF tr _ _ _ _ _ _ _ _ _ _ _ _ p])
      (use x in \<open>auto simp: same_config_def t_def s1_def s0_def intro!: filter_cong\<close>)
qed

lemma tryRoot_decided:
  assumes "sPorts s \<noteq> []"
  obtains t where "tryRoot s = Inr t" and "decided t" and "map vector (sPorts t) = map vector (sPorts s)" and "same_config t s"
proof (cases "checkRootEligibility s")
  case True
  show thesis by (rule tryRoot_root [OF True]) (rule that)
next
  case False
  obtain x t where t: "tryRoot s = Inr t" "same_config t s" "\<not> sIsRoot t"
    and x: "x < sNumPorts s" "\<forall>p \<in> set (sPorts s). vector (sPorts s ! x) \<le> vector p"
    and f: "sRootPort t = x" "sRootPathCost t = pi_rootPathCost (sPorts s ! x)" "sRootId t = rootId (sPorts s ! x)"
    and n: "sNumPorts t = sNumPorts s"
    and p: "\<And>i. i < sNumPorts s \<Longrightarrow> sPorts t ! i = (sPorts s ! i)\<lparr>pi_role := (if i = x then ROOT else role_by_vector t i)\<rparr>"
    and d: "sDesPorts t = filter (\<lambda>i. pi_role (sPorts t ! i) = DESIGNATED) [0..<sNumPorts s]"
    by (rule tryRoot_other [OF assms False]) (rule that)
  have own: "ownId t = ownId s" using t(2) by (simp add: same_config_def)
  have v: "map vector (sPorts t) = map vector (sPorts s)" by (rule vectors_map) (simp_all add: n p)
  have m: "Min (insert (ownId s) (rootId ` set (sPorts s))) = rootId (sPorts s ! x)" "rootId (sPorts s ! x) < ownId s"
    using Min_rootId [OF nth_mem [OF x(1)] x(2)] False by (simp_all add: eligible_iff)
  have vs: "vector ` set (sPorts t) = vector ` set (sPorts s)" using arg_cong [OF v, of set] by simp
  have "\<forall>q \<in> set (sPorts t). vector (sPorts t ! x) \<le> vector q"
  proof
    fix q assume "q \<in> set (sPorts t)"
    then have "vector q \<in> vector ` set (sPorts s)" using vs by blast
    then show "vector (sPorts t ! x) \<le> vector q" using x(2) by (auto simp: p [OF x(1)])
  qed
  moreover have "root_elected t" using m vectors_rootIds [OF v] f(3) own t(3) by (auto simp: root_elected_def)
  ultimately have "decided t" using n p x(1) d f t(3) by (simp add: decided_def roles_other_def Let_def)
  then show thesis using that t v by blast
qed

section \<open>The invariant\<close>

text \<open>Ports that differ in their roles only.\<close>

abbreviation but_roles :: "PortInfo list \<Rightarrow> PortInfo list \<Rightarrow> bool" where
  "but_roles \<equiv> list_all2 (\<lambda>p q. \<exists>r. p = q\<lparr>pi_role := r\<rparr>)"

lemma but_roles_vectors: "but_roles ps qs \<Longrightarrow> map vector ps = map vector qs"
  by (induction rule: list_all2_induct) auto

text \<open>
  In a \<open>uniform\<close> network every bridge has the maximum age \<open>M\<close> and the forward delay \<open>F\<close>; so the information a
  better root has sent carries them.
\<close>

definition uniform :: "simtime \<Rightarrow> simtime \<Rightarrow> 't stp \<Rightarrow> bool" where
  "uniform M F s \<longleftrightarrow> sMaxAge s = M \<and> sForwardDelay s = F \<and> sCurrentMaxAge s = M \<and> sCurrentFwdDelay s = F
     \<and> sCurrentBridgePriority s = sBridgePriority s
     \<and> (\<forall>p \<in> set (sPorts s). rootId p < ownId s \<longrightarrow> pi_maxAge p = M \<and> pi_fwdDelay p = F)"

definition stp_wf :: "'t stp \<Rightarrow> bool" where
  "stp_wf s \<longleftrightarrow> sPorts s \<noteq> [] \<and> sRootPort s < sNumPorts s \<and> sTopologyChangeRecvd s"

definition tick_running :: "'t stp \<Rightarrow> bool" where
  "tick_running s \<longleftrightarrow> (case sTick s of None \<Rightarrow> False | Some t \<Rightarrow> tm_at t \<noteq> None)"

definition stp_inv :: "simtime \<Rightarrow> simtime \<Rightarrow> 't stp \<Rightarrow> bool" where
  "stp_inv M F s \<longleftrightarrow> stp_wf s \<and> decided s \<and> uniform M F s \<and> (\<forall>p \<in> set (sPorts s). pi_age p < M)"

lemma but_roles_all:
  "but_roles ps qs \<Longrightarrow> (\<And>p r. P (p\<lparr>pi_role := r\<rparr>) = P p) \<Longrightarrow> (\<forall>p \<in> set ps. P p) \<longleftrightarrow> (\<forall>q \<in> set qs. P q)"
  by (induction rule: list_all2_induct) auto

lemma tryRoot_keeps:
  assumes w: "stp_wf s" and u: "uniform M F s"
  obtains t where "tryRoot s = Inr t" and "decided t" and "uniform M F t" and "stp_wf t"
    and "same_config t s" and "but_roles (sPorts t) (sPorts s)"
proof (cases "checkRootEligibility s")
  case True
  obtain t where t: "tryRoot s = Inr t" "same_config t s" "decided t" "sRootPort t = sRootPort s"
    "sCurrentMaxAge t = sMaxAge s" "sCurrentFwdDelay t = sForwardDelay s"
    and p: "sPorts t = map (\<lambda>p. if pi_role p = DISABLED then p else p\<lparr>pi_role := DESIGNATED\<rparr>) (sPorts s)"
    by (rule tryRoot_root [OF True]) (rule that)
  have "\<exists>r. p = p\<lparr>pi_role := r\<rparr>" for p :: PortInfo by (rule exI [of _ "pi_role p"]) simp
  then have b: "but_roles (sPorts t) (sPorts s)" unfolding p list.rel_map by (intro list.rel_refl) auto
  have "uniform M F t"
    using u t(2,5,6) but_roles_all [OF b, of "\<lambda>p. rootId p < ownId s \<longrightarrow> pi_maxAge p = M \<and> pi_fwdDelay p = F"]
    by (simp add: uniform_def same_config_def)
  moreover have "stp_wf t" using w t(2,4) by (simp add: stp_wf_def same_config_def p)
  ultimately show thesis using that t b by blast
next
  case False
  have ne: "sPorts s \<noteq> []" using w by (simp add: stp_wf_def)
  obtain x t where t: "tryRoot s = Inr t" "same_config t s"
    and x: "x < sNumPorts s" "\<forall>p \<in> set (sPorts s). vector (sPorts s ! x) \<le> vector p" and f: "sRootPort t = x"
    and c: "sCurrentMaxAge t = pi_maxAge (sPorts s ! x)" "sCurrentFwdDelay t = pi_fwdDelay (sPorts s ! x)"
    and n: "sNumPorts t = sNumPorts s"
    and p: "\<And>i. i < sNumPorts s \<Longrightarrow> sPorts t ! i = (sPorts s ! i)\<lparr>pi_role := (if i = x then ROOT else role_by_vector t i)\<rparr>"
    by (rule tryRoot_other [OF ne False]) (rule that)
  have b: "but_roles (sPorts t) (sPorts s)" unfolding list_all2_conv_all_nth using n p by auto
  have "rootId (sPorts s ! x) < ownId s" using Min_rootId [OF nth_mem [OF x(1)] x(2)] False by (simp add: eligible_iff)
  then have "uniform M F t"
    using u t(2) c x(1) but_roles_all [OF b, of "\<lambda>p. rootId p < ownId s \<longrightarrow> pi_maxAge p = M \<and> pi_fwdDelay p = F"]
    by (simp add: uniform_def same_config_def)
  moreover have "stp_wf t" using w t(2) f n x(1) by (auto simp: stp_wf_def same_config_def)
  moreover obtain t' where "tryRoot s = Inr t'" "decided t'" by (rule tryRoot_decided [OF ne])
  ultimately show thesis using that t b by auto
qed

section \<open>A BPDU arrives\<close>

lemma isSuperiorBPDU_port:
  assumes "isSuperiorBPDU bpdu p = (superior, q)"
  shows "pi_role q = pi_role p" and "pi_age q = pi_age p \<or> pi_age q = 0"
    and "rootId q = rootId p \<and> pi_maxAge q = pi_maxAge p \<and> pi_fwdDelay q = pi_fwdDelay p
      \<or> pi_maxAge q = bp_maxAge bpdu \<and> pi_fwdDelay q = bp_forwardDelay bpdu"
  using assms by (auto simp: isSuperiorBPDU_def setSuperiorBPDU_def Let_def split: if_splits)

lemma decided_desPorts: "decided s \<Longrightarrow> set (sDesPorts s) \<subseteq> {..<sNumPorts s}"
  by (auto simp: decided_def)

lemma all_list_update:
  "\<forall>p \<in> set ps. P p \<Longrightarrow> P q \<Longrightarrow> \<forall>p \<in> set (ps[i := q]). P p"
  using set_update_subset_insert [of ps i q] by blast

text \<open>
  What \<open>handleBPDU\<close> has done before it chooses the roles again: the port has its information, BPDUs are sent and
  the ageing time of the address table is set.
\<close>

definition bpdu_taken :: "BPDU \<Rightarrow> nat \<Rightarrow> 't stp \<Rightarrow> 't stp" where
  "bpdu_taken bpdu i s = set_port i (snd (isSuperiorBPDU bpdu (sPorts s ! i)))
     (if bp_tcaFlag bpdu then s\<lparr>sTopologyChangeRecvd := True, sTopologyChangeNotification := False\<rparr> else s)"

definition bpdu_answers :: "BPDU \<Rightarrow> nat \<Rightarrow> 't stp \<Rightarrow> (BPDU \<times> Ieee802Ctrl) list" where
  "bpdu_answers bpdu i s =
     (let s2 = bpdu_taken bpdu i s; role = pi_role (sPorts s ! i) in
      if \<not> fst (isSuperiorBPDU bpdu (sPorts s ! i))
      then if role = DESIGNATED
           then [(make_BPDU (int i) (sPorts s2 ! i) False False s2, bpdu_ctrl (int i) STP_MULTICAST_ADDRESS)] else []
      else if role = ROOT
      then map (\<lambda>j. (make_BPDU (int j) (sPorts s2 ! j) (bp_tcFlag bpdu) False s2, bpdu_ctrl (int j) STP_MULTICAST_ADDRESS))
             (sDesPorts s)
      else [])"

lemma make_BPDU_table [simp]: "make_BPDU port p tc tca (s\<lparr>sTable := tb\<rparr>) = make_BPDU port p tc tca s"
  by (simp add: make_BPDU_def Let_def)

lemma bpdu_taken_simps [simp]:
  "sNumPorts (bpdu_taken bpdu i s) = sNumPorts s" "sDesPorts (bpdu_taken bpdu i s) = sDesPorts s"
  "sOut (bpdu_taken bpdu i s) = sOut s" "sTable (bpdu_taken bpdu i s) = sTable s"
  by (simp_all add: bpdu_taken_def set_port_def)

lemma handleBPDU_eq:
  assumes i: "ctl_switchPort c = int i" "i < sNumPorts s" and des: "set (sDesPorts s) \<subseteq> {..<sNumPorts s}"
  obtains tb where "handleBPDU ops bpdu c s =
    tryRoot ((bpdu_taken bpdu i s)\<lparr>sTable := tb, sOut := sOut s @ bpdu_answers bpdu i s\<rparr>)"
proof -
  obtain superior q where q: "isSuperiorBPDU bpdu (sPorts s ! i) = (superior, q)" by fastforce
  define s2 where "s2 = bpdu_taken bpdu i s"
  have s2: "set_port i q (if bp_tcaFlag bpdu then s\<lparr>sTopologyChangeRecvd := True, sTopologyChangeNotification := False\<rparr> else s) = s2"
    by (simp add: s2_def bpdu_taken_def q)
  have d2: "set (sDesPorts s) \<subseteq> {..<sNumPorts s2}" "i < sNumPorts s2" "sDesPorts s2 = sDesPorts s"
    using i des by (simp_all add: s2_def)
  define tb where "tb = (if superior \<and> pi_role q = ROOT
    then if bp_tcFlag bpdu then so_setAgingTime ops (sCurrentFwdDelay s2) (sTable s2) else so_resetDefaultAging ops (sTable s2)
    else sTable s2)"
  have "handleBPDU ops bpdu c s = tryRoot (s2\<lparr>sTable := tb, sOut := sOut s2 @ bpdu_answers bpdu i s\<rparr>)"
    using i d2 isSuperiorBPDU_port(1) [OF q]
    by (simp add: handleBPDU_def Let_def q s2 bpdu_answers_def s2_def [symmetric] generateBPDU_nat iter_generateBPDU
        iter_sendBPDU tb_def)
  then show thesis using that by (simp add: s2_def)
qed

lemma handleBPDU_inv:
  assumes inv: "stp_inv M F s" and M: "0 < M" and b: "bp_maxAge bpdu = M" "bp_forwardDelay bpdu = F"
    and i: "ctl_switchPort c = int i" "i < sNumPorts s"
  obtains t where "handleBPDU ops bpdu c s = Inr t" and "stp_inv M F t" and "sOperational t = sOperational s"
    and "sTick t = sTick s" and "but_roles (sPorts t) ((sPorts s)[i := snd (isSuperiorBPDU bpdu (sPorts s ! i))])"
proof -
  obtain tb where eq: "handleBPDU ops bpdu c s =
      tryRoot ((bpdu_taken bpdu i s)\<lparr>sTable := tb, sOut := sOut s @ bpdu_answers bpdu i s\<rparr>)" (is "_ = tryRoot ?s3")
    by (rule handleBPDU_eq [OF i]) (use inv decided_desPorts in \<open>auto simp: stp_inv_def\<close>)
  obtain superior q where q: "isSuperiorBPDU bpdu (sPorts s ! i) = (superior, q)" by fastforce
  note port = isSuperiorBPDU_port [OF q]
  have p: "sPorts s ! i \<in> set (sPorts s)" using i(2) by simp
  have p3: "sPorts ?s3 = (sPorts s)[i := q]" by (simp add: bpdu_taken_def set_port_def q)
  have "stp_wf ?s3" using inv by (simp add: bpdu_taken_def set_port_def stp_inv_def stp_wf_def)
  moreover have "\<forall>p \<in> set ((sPorts s)[i := q]). rootId p < ownId s \<longrightarrow> pi_maxAge p = M \<and> pi_fwdDelay p = F"
    using inv p port(3) b by (intro all_list_update) (auto simp: stp_inv_def uniform_def)
  then have "uniform M F ?s3" using inv by (simp add: bpdu_taken_def set_port_def q stp_inv_def uniform_def)
  ultimately obtain t where t: "tryRoot ?s3 = Inr t" "decided t" "uniform M F t" "stp_wf t" "same_config t ?s3"
      "but_roles (sPorts t) (sPorts ?s3)"
    using tryRoot_keeps by blast
  have "\<forall>p \<in> set ((sPorts s)[i := q]). pi_age p < M"
    using inv p port(2) M by (intro all_list_update) (auto simp: stp_inv_def)
  then have "\<forall>p \<in> set (sPorts t). pi_age p < M"
    using but_roles_all [OF t(6), of "\<lambda>p. pi_age p < M"] p3 by simp
  moreover have "sTick t = sTick s" "sOperational t = sOperational s"
    using t(5) by (simp_all add: same_config_def bpdu_taken_def set_port_def)
  ultimately show thesis using that eq t(1-4,6) p3 by (simp add: stp_inv_def q)
qed

section \<open>Information grows old\<close>

text \<open>What \<open>decided\<close> looks at in a port.\<close>

definition port_key :: "PortInfo \<Rightarrow> priority_vector \<times> PortRole \<times> u32 \<times> u32" where
  "port_key p = (vector p, pi_role p, pi_priority p, pi_linkCost p)"

lemma port_key_nth:
  "map port_key ps = map port_key qs \<Longrightarrow> i < length ps \<Longrightarrow> port_key (ps ! i) = port_key (qs ! i)"
  by (metis length_map nth_map)

lemma roles_other_nth: "roles_other s \<longleftrightarrow> sRootPort s < sNumPorts s
     \<and> pi_role (sPorts s ! sRootPort s) = ROOT \<and> rootId (sPorts s ! sRootPort s) = sRootId s
     \<and> pi_rootPathCost (sPorts s ! sRootPort s) = sRootPathCost s
     \<and> (\<forall>i < sNumPorts s. vector (sPorts s ! sRootPort s) \<le> vector (sPorts s ! i))
     \<and> (\<forall>i < sNumPorts s. i \<noteq> sRootPort s \<longrightarrow> pi_role (sPorts s ! i) = role_by_vector s i)"
  by (auto simp: roles_other_def all_set_conv_all_nth Let_def)

lemma decided_keys:
  assumes k: "map port_key (sPorts t) = map port_key (sPorts s)" and own: "ownId t = ownId s"
    and root: "sRootId t = sRootId s" "sRootPathCost t = sRootPathCost s" "sRootPort t = sRootPort s"
      "sIsRoot t = sIsRoot s" "sDesPorts t = sDesPorts s"
  shows "decided t \<longleftrightarrow> decided s"
proof -
  have n: "sNumPorts t = sNumPorts s" using map_eq_imp_length_eq [OF k] .
  note nth = port_key_nth [OF k]
  have v: "vector (sPorts t ! i) = vector (sPorts s ! i)" "pi_role (sPorts t ! i) = pi_role (sPorts s ! i)"
    "pi_priority (sPorts t ! i) = pi_priority (sPorts s ! i)" "pi_linkCost (sPorts t ! i) = pi_linkCost (sPorts s ! i)"
    if "i < sNumPorts s" for i
    using nth [of i] that n by (simp_all add: port_key_def)
  have "map vector (sPorts t) = map vector (sPorts s)" by (rule vectors_map) (simp_all add: n v)
  from vectors_rootIds [OF this] have r: "root_elected t \<longleftrightarrow> root_elected s"
    by (simp only: root_elected_def own root)
  have rv: "role_by_vector t i = role_by_vector s i" if "i < sNumPorts s" for i
    using bridgeGlobal_cong [OF own root(1,2)] v [OF that] by (simp add: role_by_vector_def)
  have rc: "rootId p = rootId q \<and> pi_rootPathCost p = pi_rootPathCost q" if "vector p = vector q" for p q
    using that by (simp add: vector_def)
  have "roles_root t \<longleftrightarrow> roles_root s" using v(2) n root(2) by (simp add: roles_root_def all_set_conv_all_nth)
  moreover have "roles_other t \<longleftrightarrow> roles_other s"
    using rc [OF v(1) [of "sRootPort s"]] unfolding roles_other_nth n root by (simp add: v rv cong: conj_cong)
  moreover have "filter (\<lambda>i. pi_role (sPorts t ! i) = DESIGNATED) [0..<sNumPorts t]
      = filter (\<lambda>i. pi_role (sPorts s ! i) = DESIGNATED) [0..<sNumPorts s]"
    using v(2) n by (auto intro: filter_cong)
  ultimately show ?thesis using r root(4,5) by (simp add: decided_def)
qed

lemma init_port_simps [simp]:
  "rootId (init_port s p) = ownId s" "pi_role (init_port s p) = NOTASSIGNED" "pi_age (init_port s p) = 0"
  by (simp_all add: init_port_def)

lemma initInterfacedata_simps [simp]:
  "sPorts (initInterfacedata k s) = (sPorts s)[k := init_port s (sPorts s ! k)]"
  "sRootPort (initInterfacedata k s) = sRootPort s" "sIsRoot (initInterfacedata k s) = sIsRoot s"
  "ownId (initInterfacedata k s) = ownId s" "sRootId (initInterfacedata k s) = sRootId s"
  "sRootPathCost (initInterfacedata k s) = sRootPathCost s" "same_config (initInterfacedata k s) s"
  by (simp_all add: initInterfacedata_def set_port_def same_config_def)

lemma init_keeps: "stp_wf s \<Longrightarrow> stp_wf (initInterfacedata k s)"
  "uniform M F s \<Longrightarrow> uniform M F (initInterfacedata k s)"
proof -
  show "stp_wf s \<Longrightarrow> stp_wf (initInterfacedata k s)" by (simp add: stp_wf_def initInterfacedata_def set_port_def)
  assume u: "uniform M F s"
  have "\<forall>p \<in> set ((sPorts s)[k := init_port s (sPorts s ! k)]). rootId p < ownId s \<longrightarrow> pi_maxAge p = M \<and> pi_fwdDelay p = F"
    using u by (intro all_list_update) (auto simp: uniform_def)
  then show "uniform M F (initInterfacedata k s)"
    using u by (simp add: uniform_def initInterfacedata_def set_port_def)
qed

text \<open>The information of a port that is not the root port goes: the root stays, and the roles are decided again.\<close>

lemma root_below:
  assumes "root_elected s" and "\<not> sIsRoot s"
  shows "sRootId s < ownId s"
proof (rule le_neq_trans)
  have "Min (insert (ownId s) (rootId ` set (sPorts s))) \<le> ownId s" by (rule Min_le) simp_all
  then show "sRootId s \<le> ownId s" using assms(1) by (simp only: root_elected_def)
  show "sRootId s \<noteq> ownId s" using assms unfolding root_elected_def by blast
qed

lemma lostAlternate_shape:
  assumes d: "decided s" and k: "k < sNumPorts s" "pi_role (sPorts s ! k) \<noteq> ROOT" and r: "\<not> sIsRoot s"
  defines "s1 \<equiv> initInterfacedata k s" and "t \<equiv> lostAlternate (initInterfacedata k s)"
  shows "sNumPorts t = sNumPorts s"
    and "i < sNumPorts s \<Longrightarrow> sPorts t ! i = (sPorts s1 ! i)\<lparr>pi_role := (if i = sRootPort s then ROOT else role_by_vector t i)\<rparr>"
    and "sDesPorts t = filter (\<lambda>i. pi_role (sPorts t ! i) = DESIGNATED) [0..<sNumPorts s]"
    and "sRootPort t = sRootPort s" and "sRootId t = sRootId s" and "sRootPathCost t = sRootPathCost s"
    and "sIsRoot t = sIsRoot s" and "same_config t s" and "sCurrentMaxAge t = sCurrentMaxAge s"
    and "sCurrentFwdDelay t = sCurrentFwdDelay s"
proof -
  have o: "roles_other s" "root_elected s" using d r by (simp_all add: decided_def)
  have x: "sRootPort s < sNumPorts s" "pi_role (sPorts s ! sRootPort s) = ROOT" "sRootPort s \<noteq> k"
    using o(1) k(2) by (auto simp: roles_other_nth)
  have n: "sNumPorts s1 = sNumPorts s" "sRootPort s1 = sRootPort s" by (simp_all add: s1_def)
  have p1: "sPorts s1 ! i = (if i = k then init_port s (sPorts s ! k) else sPorts s ! i)" if "i < sNumPorts s" for i
    using that k(1) by (simp add: s1_def)
  have role: "pi_role (sPorts s1 ! i) = (if i = k then NOTASSIGNED else role_by_vector s i)"
    if "i < sNumPorts s" "i \<noteq> sRootPort s" for i
    using p1 [OF that(1)] o(1) that by (simp add: roles_other_nth)
  have bg: "bridgeGlobal s1 i q = bridgeGlobal s i q" for i q by (rule bridgeGlobal_cong) (simp_all add: s1_def)
  define p where "p = (\<lambda>i. if i = sRootPort s1 then sPorts s1 ! i else (sPorts s1 ! i)\<lparr>pi_role := role_by_vector s1 i\<rparr>)"
  have "selectDesignatedPorts s1 = s1\<lparr>sPorts := map p [0..<sNumPorts s1],
      sDesPorts := filter (\<lambda>i. pi_role (p i) = DESIGNATED) [0..<sNumPorts s1]\<rparr>"
    unfolding p_def by (rule selectDesignatedPorts_roles)
      (use x p1 role in \<open>auto simp: n bg role_by_vector_def split: if_splits\<close>)
  then have t: "t = s1\<lparr>sPorts := map p [0..<sNumPorts s], sTopologyChangeNotification := True,
      sDesPorts := filter (\<lambda>i. pi_role (p i) = DESIGNATED) [0..<sNumPorts s]\<rparr>"
    by (simp add: t_def lostAlternate_def s1_def [symmetric] n)
  show pt: "sPorts t ! i = (sPorts s1 ! i)\<lparr>pi_role := (if i = sRootPort s then ROOT else role_by_vector t i)\<rparr>"
    if "i < sNumPorts s" for i
  proof -
    have q: "sPorts t ! i = p i" using that by (simp add: t)
    have "\<exists>r. p i = (sPorts s1 ! i)\<lparr>pi_role := r\<rparr>"
      by (cases "i = sRootPort s1") (auto simp: p_def intro: exI [of _ "pi_role (sPorts s1 ! i)"])
    then have "role_by_vector t i = role_by_vector s1 i"
      using q by (auto intro!: role_by_vector_cong simp: t)
    moreover have "(sPorts s ! sRootPort s)\<lparr>pi_role := ROOT\<rparr> = sPorts s ! sRootPort s"
      by (simp add: x(2) [symmetric])
    ultimately show ?thesis using q x p1 [OF that] by (cases "i = sRootPort s") (simp_all add: p_def n)
  qed
  show "sDesPorts t = filter (\<lambda>i. pi_role (sPorts t ! i) = DESIGNATED) [0..<sNumPorts s]"
    by (auto simp: t intro!: filter_cong)
  show "sNumPorts t = sNumPorts s" "sRootPort t = sRootPort s" "sRootId t = sRootId s" "sRootPathCost t = sRootPathCost s"
    "sIsRoot t = sIsRoot s" "same_config t s" "sCurrentMaxAge t = sCurrentMaxAge s" "sCurrentFwdDelay t = sCurrentFwdDelay s"
    by (simp_all add: t s1_def initInterfacedata_def set_port_def same_config_def)
qed

lemma lostAlternate_keeps:
  assumes w: "stp_wf s" and d: "decided s" and u: "uniform M F s" and k: "k < sNumPorts s" "pi_role (sPorts s ! k) \<noteq> ROOT"
    and r: "\<not> sIsRoot s"
  defines "t \<equiv> lostAlternate (initInterfacedata k s)"
  shows "decided t" and "uniform M F t" and "stp_wf t" and "same_config t s"
    and "but_roles (sPorts t) ((sPorts s)[k := init_port s (sPorts s ! k)])"
proof -
  define s1 where "s1 = initInterfacedata k s"
  note sh = lostAlternate_shape [OF d k r, folded t_def s1_def]
  have o: "roles_other s" "root_elected s" using d r by (simp_all add: decided_def)
  have x: "sRootPort s < sNumPorts s" "sRootPort s \<noteq> k" using o(1) k(2) by (auto simp: roles_other_nth)
  have n1: "sNumPorts s1 = sNumPorts s" by (simp add: s1_def)
  have own: "ownId t = ownId s" using sh(8) by (simp add: same_config_def)
  have b: "but_roles (sPorts t) (sPorts s1)" unfolding list_all2_conv_all_nth using sh(1,2) n1 by auto
  then show "but_roles (sPorts t) ((sPorts s)[k := init_port s (sPorts s ! k)])" by (simp add: s1_def)
  show "uniform M F t"
    using init_keeps(2) [OF u, of k] sh(8-10) u but_roles_all [OF b, of "\<lambda>p. rootId p < ownId s \<longrightarrow> pi_maxAge p = M \<and> pi_fwdDelay p = F"]
    by (simp add: uniform_def s1_def same_config_def)
  show "stp_wf t" using w sh(1,4,8) by (auto simp: stp_wf_def same_config_def)
  show "same_config t s" by (rule sh(8))
  define rp where "rp = sPorts s ! sRootPort s"
  have rp: "sPorts s1 ! sRootPort s = rp" "rp \<in> set (sPorts s1)" "rootId rp = sRootId s" "pi_rootPathCost rp = sRootPathCost s"
    using x k(1) o(1) nth_mem [of "sRootPort s" "sPorts s1"] by (simp_all add: s1_def rp_def roles_other_nth)
  have below: "rootId rp < ownId s" using root_below [OF o(2) r] rp(3) by simp
  have least: "\<forall>q \<in> set (sPorts s1). vector rp \<le> vector q"
  proof -
    have "vector rp \<le> vector (init_port s (sPorts s ! k))"
    proof (rule ccontr)
      assume "\<not> vector rp \<le> vector (init_port s (sPorts s ! k))"
      then have "vector (init_port s (sPorts s ! k)) \<le> vector rp" by simp
      from least_root [OF this] show False using below unfolding init_port_simps by order
    qed
    moreover have "\<forall>q \<in> set (sPorts s). vector rp \<le> vector q" using o(1) by (simp add: roles_other_def Let_def rp_def)
    ultimately show ?thesis unfolding s1_def initInterfacedata_simps by (intro all_list_update)
  qed
  have "\<not> (\<forall>q \<in> set (sPorts s1). ownId s \<le> rootId q)" using rp(2) below by (auto simp: not_le)
  then have "Min (insert (ownId s) (rootId ` set (sPorts s1))) = sRootId s"
    using Min_rootId(1) [OF rp(2) least] rp(3) by simp
  then have "root_elected t"
    using vectors_rootIds [OF but_roles_vectors [OF b]] o(2) by (simp only: root_elected_def own sh(5,7))
  moreover have "roles_other t"
    unfolding roles_other_nth using sh x rp least n1 by (simp add: all_set_conv_all_nth)
  ultimately show "decided t" using sh(1,3,7) r by (simp add: decided_def)
qed

section \<open>The tick\<close>

lemma tick_port_simps [simp]:
  "port_key (tick_port p) = port_key p" "pi_maxAge (tick_port p) = pi_maxAge p" "pi_fwdDelay (tick_port p) = pi_fwdDelay p"
  "pi_role (tick_port p) = pi_role p" "rootId (tick_port p) = rootId p"
  "pi_age (tick_port p) = (if pi_role p = DISABLED \<or> pi_role p = DESIGNATED then pi_age p else pi_age p + SIMTIME_SECOND)"
  by (auto simp: tick_port_def port_key_def Let_def vector_def)

lemma forward_port_simps [simp]:
  "port_key (forward_port F p) = port_key p" "pi_maxAge (forward_port F p) = pi_maxAge p"
  "pi_fwdDelay (forward_port F p) = pi_fwdDelay p" "pi_age (forward_port F p) = pi_age p"
  "rootId (forward_port F p) = rootId p" "pi_role (forward_port F p) = pi_role p"
  by (auto simp: forward_port_def port_key_def vector_def split: PortState.split)

text \<open>A port that may have been set back to discarding, its forward delay timer running on.\<close>

definition calmer :: "PortInfo \<Rightarrow> PortInfo \<Rightarrow> bool" where
  "calmer p q \<longleftrightarrow> pi_fdWhile p = pi_fdWhile q \<and> (pi_state p = pi_state q \<or> pi_state p = DISCARDING)"

lemma calmer_trans: "calmer p q \<Longrightarrow> calmer q r \<Longrightarrow> calmer p r"
  by (auto simp: calmer_def)

lemma calmer_refl [simp]: "list_all2 calmer ps ps"
  by (auto simp: calmer_def intro: list.rel_refl)

lemma calmer_init:
  assumes "but_roles ps ((sPorts s)[k := init_port s (sPorts s ! k)])" and "k < sNumPorts s"
  shows "list_all2 calmer ps (sPorts s)"
proof -
  have "calmer (init_port s q) q" for q by (simp add: calmer_def init_port_def)
  then have "list_all2 calmer ((sPorts s)[k := init_port s (sPorts s ! k)]) (sPorts s)"
    using list_all2_update_cong [OF calmer_refl, of "init_port s (sPorts s ! k)" "sPorts s ! k" "sPorts s" k] by simp
  moreover have "list_all2 calmer ps ((sPorts s)[k := init_port s (sPorts s ! k)])"
    using assms(1) by (rule list_all2_mono) (auto simp: calmer_def)
  ultimately show ?thesis using list_all2_trans [of calmer calmer calmer] calmer_trans by blast
qed

text \<open>Between the rounds of the loop over the ages: what is too old is the information of a better root.\<close>

definition ages_from :: "simtime \<Rightarrow> nat \<Rightarrow> 't stp \<Rightarrow> bool" where
  "ages_from M k s \<longleftrightarrow> (\<forall>j < sNumPorts s. if j < k then pi_age (sPorts s ! j) < M
     else pi_age (sPorts s ! j) < M \<or> rootId (sPorts s ! j) < ownId s)"

lemma ages_from_step:
  assumes a: "ages_from M k s" and b: "but_roles (sPorts t) ((sPorts s)[k := init_port s (sPorts s ! k)])"
    and k: "k < sNumPorts s" and own: "ownId t = ownId s" and M: "0 < M"
  shows "ages_from M (Suc k) t" and "sNumPorts t = sNumPorts s"
proof -
  show n: "sNumPorts t = sNumPorts s" using list_all2_lengthD [OF b] by simp
  have "pi_age (sPorts t ! j) = (if j = k then 0 else pi_age (sPorts s ! j))
      \<and> (j \<noteq> k \<longrightarrow> rootId (sPorts t ! j) = rootId (sPorts s ! j))" if "j < sNumPorts s" for j
    using list_all2_nthD [OF b, of j] that n k by auto
  then show "ages_from M (Suc k) t" using a n M own unfolding ages_from_def by (auto simp: less_Suc_eq)
qed

lemma check_age_keeps:
  assumes w: "stp_wf s" and d: "decided s" and u: "uniform M F s" and a: "ages_from M k s" and k: "k < sNumPorts s" and M: "0 < M"
  obtains t where "check_age k s = Inr t" and "stp_wf t" and "decided t" and "uniform M F t" and "ages_from M (Suc k) t"
    and "sNumPorts t = sNumPorts s" and "same_config t s" and "list_all2 calmer (sPorts t) (sPorts s)"
proof (cases "pi_age (sPorts s ! k) < M")
  case True
  have "check_age k s = Inr s" using True u by (simp add: check_age_def Let_def uniform_def)
  moreover have "ages_from M (Suc k) s" using a True by (auto simp: ages_from_def less_Suc_eq)
  ultimately show thesis using that w d u by (auto simp: same_config_def)
next
  case False
  have old: "rootId (sPorts s ! k) < ownId s" using a k False by (auto simp: ages_from_def)
  have nr: "\<not> sIsRoot s"
  proof
    assume "sIsRoot s"
    then have "Min (insert (ownId s) (rootId ` set (sPorts s))) = ownId s" using d unfolding decided_def root_elected_def by simp
    moreover have "Min (insert (ownId s) (rootId ` set (sPorts s))) \<le> rootId (sPorts s ! k)" using k by (intro Min_le) auto
    ultimately show False using old by simp
  qed
  show thesis
  proof (cases "pi_role (sPorts s ! k) = ROOT")
    case True
    let ?s1 = "(initInterfacedata k s)\<lparr>sTopologyChangeNotification := True\<rparr>"
    have "stp_wf ?s1" "uniform M F ?s1"
      using init_keeps(1) [OF w, of k] init_keeps(2) [OF u, of k] by (simp_all add: stp_wf_def uniform_def)
    then obtain t where t: "tryRoot ?s1 = Inr t" "decided t" "uniform M F t" "stp_wf t" "same_config t ?s1"
        "but_roles (sPorts t) (sPorts ?s1)"
      by (rule tryRoot_keeps)
    have c: "same_config t s" using t(5) by (simp add: same_config_def initInterfacedata_def set_port_def)
    then have "ownId t = ownId s" by (simp add: same_config_def)
    from ages_from_step [OF a _ k this M] t(6) have "ages_from M (Suc k) t" "sNumPorts t = sNumPorts s" by simp_all
    moreover have "check_age k s = Inr t"
      using False True u t(1) by (simp add: check_age_def Let_def uniform_def lostRoot_def)
    moreover have "list_all2 calmer (sPorts t) (sPorts s)" by (rule calmer_init [OF _ k]) (use t(6) in simp)
    ultimately show thesis using that t c by blast
  next
    case other: False
    define t where "t = lostAlternate (initInterfacedata k s)"
    note t = lostAlternate_keeps [OF w d u k other nr, folded t_def]
    have "ownId t = ownId s" using t(4) by (simp add: same_config_def)
    from ages_from_step [OF a t(5) k this M] show thesis
      using that [of t] t calmer_init [OF t(5) k] False other u by (simp add: check_age_def Let_def uniform_def t_def)
  qed
qed

lemma check_ages_keep:
  assumes "stp_wf s" and "decided s" and "uniform M F s" and "ages_from M k s" and "k \<le> sNumPorts s" and M: "0 < M"
  obtains t where "iterR check_age [k..<sNumPorts s] s = Inr t" and "stp_wf t" and "decided t" and "uniform M F t"
    and "ages_from M (sNumPorts t) t" and "same_config t s" and "list_all2 calmer (sPorts t) (sPorts s)"
  using assms(1-5)
proof (induction "sNumPorts s - k" arbitrary: s k thesis)
  case 0
  then show ?case by (simp add: same_config_def)
next
  case (Suc m)
  have k: "k < sNumPorts s" using Suc.hyps(2) by simp
  obtain u where u: "check_age k s = Inr u" "stp_wf u" "decided u" "uniform M F u" "ages_from M (Suc k) u"
      "sNumPorts u = sNumPorts s" "same_config u s" "list_all2 calmer (sPorts u) (sPorts s)"
    by (rule check_age_keeps [OF Suc.prems(2-5) k M])
  have "m = sNumPorts u - Suc k" "Suc k \<le> sNumPorts u" using Suc.hyps(2) u(6) k by simp_all
  from Suc.hyps(1) [OF this(1) _ u(2-5) this(2)] obtain t where
    t: "iterR check_age [Suc k..<sNumPorts u] u = Inr t" "stp_wf t" "decided t" "uniform M F t" "ages_from M (sNumPorts t) t" "same_config t u"
      "list_all2 calmer (sPorts t) (sPorts u)"
    by blast
  have "list_all2 calmer (sPorts t) (sPorts s)" using t(7) u(8) list_all2_trans [of calmer calmer calmer] calmer_trans by blast
  moreover have "iterR check_age [k..<sNumPorts s] s = Inr t" using t(1) u(1,6) by (simp add: upt_conv_Cons [OF k])
  ultimately show ?case using Suc.prems(1) t(2-6) u(7) by (simp add: same_config_def)
qed

text \<open>The BPDUs of \<open>generateHelloBDPUs\<close>.\<close>

definition hellos :: "'t stp \<Rightarrow> (BPDU \<times> Ieee802Ctrl) list" where
  "hellos s = map (\<lambda>i. (make_BPDU (int i) (sPorts s ! i) False False s, bpdu_ctrl (int i) STP_MULTICAST_ADDRESS))
     [0..<sNumPorts s]"

lemma hello_timer_eq:
  "hello_timer s = Inr (s\<lparr>sOut := (if sCurrentHelloTime s \<le> sHelloTime s \<and> sIsRoot s then sOut s @ hellos s else sOut s),
     sHelloTime := (if sCurrentHelloTime s \<le> sHelloTime s then 0 else sHelloTime s)\<rparr>)"
  by (simp add: hello_timer_def generateHelloBDPUs_eq hellos_def)

text \<open>After the ages of the ports have grown by one tick.\<close>

lemma ticked_ages:
  assumes inv: "stp_inv M F s"
  shows "ages_from M 0 (s\<lparr>sOut := out, sHelloTime := h, sPorts := map tick_port (sPorts s)\<rparr>)"
proof -
  have "pi_age (tick_port p) < M \<or> rootId p < ownId s" if p: "p \<in> set (sPorts s)" for p
  proof (cases "pi_role p = DISABLED \<or> pi_role p = DESIGNATED")
    case True
    then show ?thesis using inv p by (simp add: stp_inv_def)
  next
    case False
    have nr: "\<not> sIsRoot s" using inv False p by (auto simp: stp_inv_def decided_def roles_root_def)
    then have o: "roles_other s" "root_elected s" using inv by (simp_all add: stp_inv_def decided_def)
    obtain i where i: "i < sNumPorts s" "p = sPorts s ! i" using p by (auto simp: in_set_conv_nth)
    have "rootId p \<le> sRootId s"
    proof (cases "i = sRootPort s")
      case True
      then show ?thesis using o(1) i by (simp add: roles_other_nth)
    next
      case other: False
      then have "pi_role p = role_by_vector s i" using o(1) i by (simp add: roles_other_nth)
      then have "vector p \<le> vector (bridgeGlobal s i p)" using False i by (auto simp: role_by_vector_def split: if_splits)
      from least_root [OF this] show ?thesis by (simp add: bridgeGlobal_def)
    qed
    then show ?thesis using root_below [OF o(2) nr] by (metis le_less_trans)
  qed
  then show ?thesis by (simp add: ages_from_def)
qed

lemma checkParametersChange_uniform:
  assumes "uniform M F s"
  shows "checkParametersChange s =
    (if sIsRoot s then s\<lparr>sCurrentHelloTime := sHelloTime s, sCurrentMaxAge := sMaxAge s, sCurrentFwdDelay := sForwardDelay s\<rparr> else s)"
  using assms by (simp add: checkParametersChange_def uniform_def)

lemma generateTCN_shape:
  assumes "stp_wf s"
  shows "generateTCN s = Inr (if sTopologyChangeNotification s \<and> pi_role (sPorts s ! sRootPort s) = ROOT
    then s\<lparr>sTopologyChangeNotification := False, sOut := sOut s @ [(new_BPDU\<lparr>bp_type := TCN_BPDU\<rparr>,
                 new_Ieee802Ctrl\<lparr>ctl_dest := STP_MULTICAST_ADDRESS, ctl_switchPort := int (sRootPort s)\<rparr>)]\<rparr> else s)"
  using assms by (auto simp: generateTCN_def stp_wf_def)

lemma handleTick_keeps:
  assumes inv: "stp_inv M F s" and M: "0 < M"
  obtains t where "handleTick s = Inr t" and "stp_inv M F t" and "sTick t = sTick s" and "sOperational t = sOperational s"
    and "\<exists>ps. list_all2 calmer ps (map tick_port (sPorts s)) \<and> sPorts t = map (forward_port F) ps"
proof -
  define s1 where "s1 = s\<lparr>sHelloTime := (if sIsRoot s then sHelloTime s + SIMTIME_SECOND else 0), sPorts := map tick_port (sPorts s)\<rparr>"
  obtain out h where s2: "hello_timer s1 = Inr (s1\<lparr>sOut := out, sHelloTime := h\<rparr>)" using hello_timer_eq by blast
  define s2 where "s2 = s\<lparr>sOut := out, sHelloTime := h, sPorts := map tick_port (sPorts s)\<rparr>"
  have e2: "s1\<lparr>sOut := out, sHelloTime := h\<rparr> = s2" by (simp add: s1_def s2_def)
  have "stp_wf s2" "uniform M F s2" using inv by (auto simp: s2_def stp_inv_def stp_wf_def uniform_def)
  moreover have "decided s2" using inv decided_keys [of s2 s] by (simp add: s2_def stp_inv_def)
  moreover have "ages_from M 0 s2" using ticked_ages [OF inv] by (simp add: s2_def)
  ultimately obtain s3 where s3: "iterR check_age [0..<sNumPorts s2] s2 = Inr s3" "stp_wf s3" "decided s3" "uniform M F s3"
      "ages_from M (sNumPorts s3) s3" "same_config s3 s2" "list_all2 calmer (sPorts s3) (sPorts s2)"
    using check_ages_keep [of s2 M F 0] M by auto
  define s4 where "s4 = s3\<lparr>sPorts := map (forward_port (sCurrentFwdDelay s3)) (sPorts s3)\<rparr>"
  have w4: "stp_wf s4" "uniform M F s4" using s3(2,4) by (auto simp: s4_def stp_wf_def uniform_def)
  have d4: "decided s4" using s3(3) decided_keys [of s4 s3] by (simp add: s4_def)
  have a4: "\<forall>p \<in> set (sPorts s4). pi_age p < M" using s3(5) by (auto simp: s4_def ages_from_def all_set_conv_all_nth)
  define s5 where "s5 = checkParametersChange s4"
  have s5: "s5 = (if sIsRoot s4 then s4\<lparr>sCurrentHelloTime := sHelloTime s4, sCurrentMaxAge := sMaxAge s4,
      sCurrentFwdDelay := sForwardDelay s4\<rparr> else s4)"
    unfolding s5_def by (rule checkParametersChange_uniform [OF w4(2)])
  have w5: "stp_wf s5" "uniform M F s5" using w4 by (auto simp: s5 stp_wf_def uniform_def)
  have d5: "decided s5" using d4 decided_keys [of s5 s4] by (simp add: s5)
  define t where "t = (if sTopologyChangeNotification s5 \<and> pi_role (sPorts s5 ! sRootPort s5) = ROOT
    then s5\<lparr>sTopologyChangeNotification := False, sOut := sOut s5 @ [(new_BPDU\<lparr>bp_type := TCN_BPDU\<rparr>,
                 new_Ieee802Ctrl\<lparr>ctl_dest := STP_MULTICAST_ADDRESS, ctl_switchPort := int (sRootPort s5)\<rparr>)]\<rparr> else s5)"
  have "handleTick s = Inr t"
    unfolding handleTick_def Let_def s1_def [symmetric] checkTimers_def s2 bindR.simps e2 s3(1)
    by (simp add: s4_def [symmetric] s5_def [symmetric] generateTCN_shape [OF w5(1)] t_def)
  moreover have "decided t" using d5 decided_keys [of t s5] by (simp add: t_def)
  then have "stp_inv M F t" using w5 a4 by (auto simp: t_def stp_inv_def stp_wf_def uniform_def s5)
  moreover have "sTick t = sTick s" "sOperational t = sOperational s"
    using s3(6) by (simp_all add: t_def s5 s4_def s2_def same_config_def)
  moreover have "\<exists>ps. list_all2 calmer ps (map tick_port (sPorts s)) \<and> sPorts t = map (forward_port F) ps"
    using s3(4,7) by (auto simp: t_def s5 s4_def s2_def uniform_def)
  ultimately show thesis using that by blast
qed

end
