(* ===== verification/STPRuns.thy ===== *)
theory STPRuns
  imports STPInv
begin

text \<open>
  The runs of one spanning tree module: messages and life cycle operations in any order. What arrives is what the
  kernel and the relay deliver: the tick when it is due, BPDUs with the number of an existing port; and the
  configuration BPDUs of a network whose bridges have the same maximum age and forward delay.
\<close>

section \<open>Runs\<close>

fun stp_arrives :: "stp_par \<Rightarrow> simtime \<Rightarrow> stp_msg \<Rightarrow> 't stp \<Rightarrow> bool" where
  "stp_arrives par now StpTick s \<longleftrightarrow> (case sTick s of None \<Rightarrow> False | Some t \<Rightarrow> tm_at t = Some now)"
| "stp_arrives par now (StpBPDU b c) s \<longleftrightarrow>
     (case c of None \<Rightarrow> False | Some c' \<Rightarrow> 0 \<le> ctl_switchPort c' \<and> ctl_switchPort c' < int (sNumPorts s))
     \<and> (bp_type b = CONFIG_BDPU \<longrightarrow> bp_maxAge b = sp_maxAge par \<and> bp_forwardDelay b = sp_forwardDelay par)"
| "stp_arrives par now StpOther s \<longleftrightarrow> False"

inductive stp_reach :: "'t stp_ops \<Rightarrow> stp_par \<Rightarrow> simtime \<Rightarrow> 't stp \<Rightarrow> bool" for ops par where
  start: "stp_initialize par now status_up ift ports table = Inr s \<Longrightarrow> stp_reach ops par now s"
| message: "stp_reach ops par now s \<Longrightarrow> now \<le> now' \<Longrightarrow> stp_arrives par now' m s \<Longrightarrow>
    stp_handleMessage ops now' m s = Inr t \<Longrightarrow> stp_reach ops par now' t"
| operation: "stp_reach ops par now s \<Longrightarrow> now \<le> now' \<Longrightarrow>
    stp_handleOperationStage now' ift operation stage s = Inr t \<Longrightarrow> stp_reach ops par now' t"

text \<open>What holds whether the bridge is up or not.\<close>

definition stp_good :: "stp_par \<Rightarrow> 't stp \<Rightarrow> bool" where
  "stp_good par s \<longleftrightarrow> stp_wf s \<and> sMaxAge s = sp_maxAge par \<and> sForwardDelay s = sp_forwardDelay par
     \<and> (sOperational s \<longrightarrow> stp_inv (sp_maxAge par) (sp_forwardDelay par) s \<and> tick_running s)"

lemma stp_inv_uniform: "stp_inv M F s \<Longrightarrow> sMaxAge s = M \<and> sForwardDelay s = F \<and> stp_wf s \<and> sNumPorts s \<noteq> 0"
  by (simp add: stp_inv_def uniform_def stp_wf_def)

text \<open>Initializing the ports and making all of them designated.\<close>

lemma fresh_ports:
  assumes "sPorts s \<noteq> []" and "sIsRoot s" and "sRootId s = ownId s" and "sRootPathCost s = 0"
    and "sRootPort s = 0" and "sTopologyChangeRecvd s" and "sCurrentMaxAge s = M" and "sMaxAge s = M" and "0 < M"
    and "sCurrentFwdDelay s = F" and "sForwardDelay s = F" and "sCurrentBridgePriority s = sBridgePriority s"
    and p: "\<forall>p \<in> set (sPorts s). \<exists>q. p = init_port s q"
  shows "stp_inv M F (setAllDesignated s)"
proof -
  have i: "rootId p = ownId s" "pi_role p = NOTASSIGNED" "pi_age p = 0" if "p \<in> set (sPorts s)" for p
    using bspec [OF p that] by (auto simp: init_port_def)
  have v: "map vector (sPorts (setAllDesignated s)) = map vector (sPorts s)" by (simp add: setAllDesignated_def)
  have "rootId ` set (sPorts s) = (\<lambda>_. ownId s) ` set (sPorts s)" by (rule image_cong [OF refl i(1)])
  also have "\<dots> = {ownId s}" using assms(1) by (simp add: image_constant_conv)
  finally have d: "rootId ` set (sPorts (setAllDesignated s)) = {ownId s}" using vectors_rootIds [OF v] by simp
  have "root_elected (setAllDesignated s)"
    using assms(2,3) unfolding root_elected_def d by (simp add: setAllDesignated_def)
  moreover have "roles_root (setAllDesignated s)"
    using assms(4) by (auto simp: roles_root_def setAllDesignated_def)
  moreover have "sDesPorts (setAllDesignated s)
      = filter (\<lambda>j. pi_role (sPorts (setAllDesignated s) ! j) = DESIGNATED) [0..<sNumPorts (setAllDesignated s)]"
    by (auto simp: setAllDesignated_def intro!: filter_cong)
  ultimately have "decided (setAllDesignated s)" using assms(2) by (simp add: decided_def setAllDesignated_def)
  then show ?thesis
    using assms i by (auto simp: stp_inv_def stp_wf_def uniform_def setAllDesignated_def)
qed

lemma schedule_tick_Inr:
  assumes "schedule_tick now s = Inr t"
  obtains tk where "t = s\<lparr>sTick := Some tk\<rparr>" and "tm_at tk = Some (now + SIMTIME_SECOND)"
proof -
  obtain t0 where t0: "sTick s = Some t0" using assms by (auto simp: schedule_tick_def split: option.splits)
  obtain t1 where "scheduleAt now (now + SIMTIME_SECOND) t0 = Inr t1" "t = s\<lparr>sTick := Some t1\<rparr>"
    using assms t0 by (auto simp: schedule_tick_def)
  then show thesis using that by (auto simp: scheduleAt_def split: if_splits)
qed

lemma tick_inv: "stp_inv M F (s\<lparr>sTick := x\<rparr>) = stp_inv M F s"
proof -
  have "decided (s\<lparr>sTick := x\<rparr>) = decided s" by (rule decided_keys) simp_all
  then show ?thesis by (simp add: stp_inv_def stp_wf_def uniform_def)
qed

lemma scheduled_good:
  assumes "schedule_tick now s = Inr t" and "stp_inv (sp_maxAge par) (sp_forwardDelay par) s"
  shows "stp_good par t"
  using assms by (auto simp: stp_good_def tick_running_def stp_inv_uniform tick_inv elim!: schedule_tick_Inr)

lemma stp_initialize_good:
  assumes i: "stp_initialize par now status_up ift ports table = Inr s" and M: "0 < sp_maxAge par"
  shows "stp_good par s"
proof -
  obtain s0 where s0: "schedule_tick now (setAllDesignated (initPortTable s0)) = Inr s" "sPorts s0 \<noteq> []" "sIsRoot s0"
      "sRootId s0 = ownId s0" "sRootPathCost s0 = 0" "sRootPort s0 = 0" "sTopologyChangeRecvd s0"
      "sCurrentMaxAge s0 = sp_maxAge par" "sMaxAge s0 = sp_maxAge par" "sCurrentFwdDelay s0 = sp_forwardDelay par"
      "sForwardDelay s0 = sp_forwardDelay par" "sCurrentBridgePriority s0 = sBridgePriority s0"
    using i unfolding stp_initialize_def Let_def by (simp split: if_splits)
  show ?thesis
    by (rule scheduled_good [OF s0(1)], rule fresh_ports) (use s0(2-) M in \<open>auto simp: initPortTable_def init_port_def\<close>)
qed

lemma stp_start_good:
  assumes "stp_good par s" and t: "stp_start now ift s = Inr t" and M: "0 < sp_maxAge par"
  shows "stp_good par t"
proof -
  obtain a where a: "chooseInterface ift = Some a" using t by (auto simp: stp_start_def split: option.splits)
  define s1 where "s1 = initPortTable (s\<lparr>sOperational := True, sBridgeAddress := a\<rparr>)"
  define s2 where "s2 = s1\<lparr>sCurrentBridgePriority := sBridgePriority s1, sIsRoot := True,
      sTopologyChangeNotification := True, sTopologyChangeRecvd := True, sRootPriority := sBridgePriority s1,
      sRootAddress := sBridgeAddress s1, sRootPathCost := 0, sRootPort := 0, sCurrentHelloTime := sHelloTime s1,
      sCurrentMaxAge := sMaxAge s1, sCurrentFwdDelay := sForwardDelay s1, sHelloTime := 0\<rparr>"
  have "schedule_tick now (setAllDesignated s2) = Inr t"
    using t by (simp add: stp_start_def a s1_def [symmetric] s2_def Let_def)
  moreover have "stp_inv (sp_maxAge par) (sp_forwardDelay par) (setAllDesignated s2)"
    by (rule fresh_ports) (use assms(1) M in \<open>auto simp: s2_def s1_def initPortTable_def init_port_def stp_good_def stp_wf_def\<close>)
  ultimately show ?thesis by (rule scheduled_good)
qed

lemma stp_operation_good:
  assumes "stp_good par s" and "stp_handleOperationStage now ift operation stage s = Inr t" and "0 < sp_maxAge par"
  shows "stp_good par t"
proof -
  have stop: "stp_good par u" if "stp_stop s = Inr u" for u
    using that assms(1) by (auto simp: stp_stop_def stp_good_def stp_wf_def split: option.splits)
  show ?thesis
    using assms stop stp_start_good by (cases operation) (auto split: if_splits)
qed

section \<open>Messages\<close>

lemma handleTCN_eq:
  assumes "ctl_switchPort c = int i" and "i < sNumPorts s"
  shows "handleTCN tcn c s = Inr (s\<lparr>sTopologyChangeNotification := True,
    sOut := sOut s @ (make_BPDU (int i) (sPorts s ! i) False True (s\<lparr>sTopologyChangeNotification := True\<rparr>),
                      bpdu_ctrl (int i) (ctl_src c))
      # (if sIsRoot s then [] else [(tcn, c\<lparr>ctl_switchPort := int (sRootPort s)\<rparr>)])\<rparr>)"
  using assms by (cases "sIsRoot s") (simp_all add: handleTCN_def generateBPDU_nat)

lemma handleTCN_keeps:
  assumes "stp_inv M F s" and "0 \<le> ctl_switchPort c" and "ctl_switchPort c < int (sNumPorts s)"
  obtains t where "handleTCN tcn c s = Inr t" and "stp_inv M F t" and "sOperational t = sOperational s" and "sTick t = sTick s"
proof -
  define i where "i = nat (ctl_switchPort c)"
  have i: "ctl_switchPort c = int i" "i < sNumPorts s" using assms by (simp_all add: i_def)
  obtain out where t: "handleTCN tcn c s = Inr (s\<lparr>sTopologyChangeNotification := True, sOut := out\<rparr>)"
    using handleTCN_eq [OF i] by blast
  let ?t = "s\<lparr>sTopologyChangeNotification := True, sOut := out\<rparr>"
  have "decided ?t = decided s" by (rule decided_keys) simp_all
  then have "stp_inv M F ?t" using assms(1) by (simp add: stp_inv_def stp_wf_def uniform_def)
  then show thesis using that t by simp
qed

text \<open>Whatever arrives at a bridge that is up is handled, and the tick is scheduled again.\<close>

lemma stp_message_good:
  fixes s :: "'t stp"
  assumes g: "stp_good par s" and a: "stp_arrives par now m s" and M: "0 < sp_maxAge par"
  obtains t where "stp_handleMessage ops now m s = Inr t" and "stp_good par t" and "sOperational t = sOperational s"
    and "sOperational s \<Longrightarrow> m = StpTick \<Longrightarrow> \<exists>tk. sTick t = Some tk \<and> tm_at tk = Some (now + SIMTIME_SECOND)"
proof (cases "sOperational s")
  case False
  define t where "t = (case m of StpTick \<Rightarrow> s\<lparr>sTick := None\<rparr> | _ \<Rightarrow> s)"
  have "stp_handleMessage ops now m s = Inr t" using False by (simp add: stp_handleMessage_def t_def)
  moreover have "stp_good par t" "sOperational t = sOperational s"
    using g False by (auto simp: t_def stp_good_def stp_wf_def split: stp_msg.split)
  ultimately show thesis using that False by blast
next
  case True
  then have inv: "stp_inv (sp_maxAge par) (sp_forwardDelay par) s" and run: "tick_running s" using g by (simp_all add: stp_good_def)
  show thesis
  proof (cases m)
    case StpTick
    then obtain tk where tk: "sTick s = Some tk" using a by (auto split: option.splits)
    define s0 where "s0 = s\<lparr>sTick := map_option cancelEvent (sTick s)\<rparr>"
    obtain u where u: "handleTick s0 = Inr u" "stp_inv (sp_maxAge par) (sp_forwardDelay par) u" "sTick u = sTick s0"
        "sOperational u = sOperational s0"
      by (rule handleTick_keeps [of "sp_maxAge par" "sp_forwardDelay par" s0]) (use inv M in \<open>simp_all add: s0_def tick_inv\<close>)
    have "\<exists>t. schedule_tick now u = Inr t" using tk u(3) by (simp add: schedule_tick_def s0_def scheduleAt_def cancelEvent_def SIMTIME_SECOND_def)
    then obtain t where t: "schedule_tick now u = Inr t" by blast
    then have "stp_handleMessage ops now m s = Inr t" using StpTick True u(1) by (simp add: stp_handleMessage_def s0_def)
    then show thesis
      using that scheduled_good [OF t u(2)] t u(4) True by (auto simp: s0_def elim!: schedule_tick_Inr)
  next
    case (StpBPDU b c)
    then obtain c' where c: "c = Some c'" "0 \<le> ctl_switchPort c'" "ctl_switchPort c' < int (sNumPorts s)"
      and b: "bp_type b = CONFIG_BDPU \<Longrightarrow> bp_maxAge b = sp_maxAge par \<and> bp_forwardDelay b = sp_forwardDelay par"
      using a by (auto split: option.splits)
    have i: "ctl_switchPort c' = int (nat (ctl_switchPort c'))" "nat (ctl_switchPort c') < sNumPorts s" using c by simp_all
    have good: "stp_good par t" if "stp_inv (sp_maxAge par) (sp_forwardDelay par) t" "sTick t = sTick s" for t :: "'t stp"
      using that run by (simp add: stp_good_def tick_running_def stp_inv_uniform)
    consider "bp_type b = CONFIG_BDPU" | "bp_type b \<noteq> CONFIG_BDPU" "bp_type b = TCN_BPDU"
      | "bp_type b \<noteq> CONFIG_BDPU" "bp_type b \<noteq> TCN_BPDU" by blast
    then show thesis
    proof cases
      case 1
      obtain t where "handleBPDU ops b c' s = Inr t" "stp_inv (sp_maxAge par) (sp_forwardDelay par) t"
          "sOperational t = sOperational s" "sTick t = sTick s"
        by (rule handleBPDU_inv [OF inv M conjunct1 [OF b [OF 1]] conjunct2 [OF b [OF 1]] i])
      with 1 show thesis using that [of t] good True StpBPDU c(1) by (simp add: stp_handleMessage_def)
    next
      case 2
      obtain t where "handleTCN b c' s = Inr t" "stp_inv (sp_maxAge par) (sp_forwardDelay par) t"
          "sOperational t = sOperational s" "sTick t = sTick s"
        by (rule handleTCN_keeps [OF inv c(2,3)])
      with 2 show thesis using that [of t] good True StpBPDU c(1) by (simp add: stp_handleMessage_def)
    next
      case 3
      then show thesis using that [of s] g True StpBPDU by (simp add: stp_handleMessage_def)
    qed
  qed (use a in simp)
qed

lemma stp_reach_good:
  assumes "stp_reach ops par now s" and "0 < sp_maxAge par"
  shows "stp_good par s"
  using assms(1)
proof induction
  case (start now status_up ift ports table s)
  then show ?case by (rule stp_initialize_good) (rule assms(2))
next
  case (message now s now' m t)
  obtain u where "stp_handleMessage ops now' m s = Inr u" "stp_good par u"
    by (rule stp_message_good [OF message.IH message.hyps(3) assms(2)])
  with message.hyps(4) show ?case by simp
next
  case (operation now s now' ift operation stage t)
  then show ?case using stp_operation_good assms(2) by blast
qed

section \<open>Forward delay\<close>

text \<open>A run from a state, with the number of its ticks.\<close>

inductive stp_run :: "'t stp_ops \<Rightarrow> stp_par \<Rightarrow> simtime \<Rightarrow> 't stp \<Rightarrow> nat \<Rightarrow> simtime \<Rightarrow> 't stp \<Rightarrow> bool"
  for ops par now s where
  refl: "stp_run ops par now s 0 now s"
| message: "stp_run ops par now s n now1 t \<Longrightarrow> now1 \<le> now2 \<Longrightarrow> stp_arrives par now2 m t \<Longrightarrow>
    stp_handleMessage ops now2 m t = Inr u \<Longrightarrow> stp_run ops par now s (if m = StpTick then Suc n else n) now2 u"
| operation: "stp_run ops par now s n now1 t \<Longrightarrow> now1 \<le> now2 \<Longrightarrow>
    stp_handleOperationStage now2 ift op stage t = Inr u \<Longrightarrow> stp_run ops par now s n now2 u"

lemma stp_run_reach: "stp_run ops par now s n now' t \<Longrightarrow> stp_reach ops par now s \<Longrightarrow> stp_reach ops par now' t"
  by (induction rule: stp_run.induct) (auto intro: stp_reach.message stp_reach.operation)

text \<open>How far a port can have come on its way to forwarding \<open>k\<close> after it was discarding.\<close>

definition waited :: "simtime \<Rightarrow> simtime \<Rightarrow> PortInfo \<Rightarrow> bool" where
  "waited F k p \<longleftrightarrow> 0 \<le> k \<and> pi_fdWhile p \<le> k \<and> (pi_state p = LEARNING \<longrightarrow> F + pi_fdWhile p \<le> k)
     \<and> (pi_state p = FORWARDING \<longrightarrow> 2 * F \<le> k)"

lemma waited_calmer: "calmer p q \<Longrightarrow> waited F k q \<Longrightarrow> waited F k p"
  by (auto simp: waited_def calmer_def)

lemma waited_tick: "waited F k p \<Longrightarrow> waited F (k + SIMTIME_SECOND) (tick_port p)"
  by (auto simp: waited_def tick_port_def Let_def SIMTIME_SECOND_def)

lemma waited_forward: "waited F k p \<Longrightarrow> waited F k (forward_port F p)"
  by (auto simp: waited_def forward_port_def split: PortState.split)

lemma waited_bpdu: "waited F k p \<Longrightarrow> waited F k (snd (isSuperiorBPDU bpdu p))"
  by (auto simp: waited_def isSuperiorBPDU_def setSuperiorBPDU_def Let_def)

lemma waited_mono: "waited F k p \<Longrightarrow> k \<le> l \<Longrightarrow> waited F l p"
  by (auto simp: waited_def)

lemma but_roles_calmer: "but_roles ps qs \<Longrightarrow> list_all2 calmer ps qs"
  by (erule list_all2_mono) (auto simp: calmer_def)

lemma setAllDesignated_calmer: "list_all2 calmer (sPorts (setAllDesignated s)) (sPorts s)"
  by (auto simp: setAllDesignated_def list_all2_conv_all_nth calmer_def)

lemma calmer_nth: "list_all2 calmer ps qs \<Longrightarrow> i < length qs \<Longrightarrow> waited F k (qs ! i) \<Longrightarrow> waited F k (ps ! i)"
  using waited_calmer by (metis list_all2_nthD2)

lemma start_waited:
  assumes "stp_start now ift s = Inr t" and "i < sNumPorts s" and "waited F k (sPorts s ! i)"
  shows "i < sNumPorts t \<and> waited F k (sPorts t ! i)"
proof -
  obtain a where a: "chooseInterface ift = Some a" using assms(1) by (auto simp: stp_start_def split: option.splits)
  define s1 where "s1 = initPortTable (s\<lparr>sOperational := True, sBridgeAddress := a\<rparr>)"
  obtain s2 where s2: "schedule_tick now (setAllDesignated s2) = Inr t" "sPorts s2 = sPorts s1"
    using assms(1) by (simp add: stp_start_def a s1_def [symmetric] Let_def)
  have "list_all2 calmer (sPorts s1) (sPorts s)"
    by (auto simp: s1_def initPortTable_def list_all2_conv_all_nth calmer_def init_port_def)
  moreover have "list_all2 calmer (sPorts t) (sPorts s1)"
    using s2 setAllDesignated_calmer [of s2] by (auto elim: schedule_tick_Inr)
  ultimately have c: "list_all2 calmer (sPorts t) (sPorts s)"
    using list_all2_trans [of calmer calmer calmer] calmer_trans by blast
  then show ?thesis using calmer_nth [OF c] assms(2,3) by (auto dest: list_all2_lengthD)
qed

lemma operation_waited:
  assumes "stp_handleOperationStage now ift op stage s = Inr t" and "i < sNumPorts s" and "waited F k (sPorts s ! i)"
  shows "i < sNumPorts t \<and> waited F k (sPorts t ! i)"
proof -
  have "i < sNumPorts u \<and> waited F k (sPorts u ! i)" if "stp_stop s = Inr u" for u
    using that assms(2,3) by (auto simp: stp_stop_def split: option.splits)
  then show ?thesis using assms start_waited [OF _ assms(2,3)] by (cases op) (auto split: if_splits)
qed

lemma message_waited:
  fixes s :: "'t stp"
  assumes g: "stp_good par s" and a: "stp_arrives par now m s" and M: "0 < sp_maxAge par"
    and h: "stp_handleMessage ops now m s = Inr t" and i: "i < sNumPorts s" "waited (sp_forwardDelay par) k (sPorts s ! i)"
  shows "i < sNumPorts t \<and> waited (sp_forwardDelay par) (if m = StpTick then k + SIMTIME_SECOND else k) (sPorts t ! i)"
proof (cases "sOperational s \<and> (m = StpTick \<or> (\<exists>b c. m = StpBPDU b c \<and> bp_type b = CONFIG_BDPU))")
  case False
  have "sPorts t = sPorts s"
  proof (cases "sOperational s")
    case True
    then obtain b c where b: "m = StpBPDU b (Some c)" "bp_type b \<noteq> CONFIG_BDPU" "0 \<le> ctl_switchPort c" "ctl_switchPort c < int (sNumPorts s)"
      using False a by (cases m) (auto split: option.splits)
    have "ctl_switchPort c = int (nat (ctl_switchPort c))" "nat (ctl_switchPort c) < sNumPorts s" using b by simp_all
    from handleTCN_eq [OF this, of b] h b True show ?thesis
      by (auto simp: stp_handleMessage_def split: if_splits)
  qed (use h in \<open>auto simp: stp_handleMessage_def split: stp_msg.splits\<close>)
  then show ?thesis using i by (auto intro: waited_mono simp: SIMTIME_SECOND_def)
next
  case True
  then have inv: "stp_inv (sp_maxAge par) (sp_forwardDelay par) s" using g by (simp add: stp_good_def)
  show ?thesis
  proof (cases "m = StpTick")
    case True
    define s0 where "s0 = s\<lparr>sTick := map_option cancelEvent (sTick s)\<rparr>"
    obtain u ps where u: "handleTick s0 = Inr u" "list_all2 calmer ps (map tick_port (sPorts s0))"
        "sPorts u = map (forward_port (sp_forwardDelay par)) ps"
      by (rule handleTick_keeps [of "sp_maxAge par" "sp_forwardDelay par" s0]) (use inv M in \<open>auto simp: s0_def tick_inv\<close>)
    have "schedule_tick now u = Inr t"
      using h \<open>sOperational s \<and> _\<close> True u(1) by (simp add: stp_handleMessage_def s0_def)
    then have t: "sPorts t = sPorts u" by (auto elim: schedule_tick_Inr)
    have "i < length ps" "waited (sp_forwardDelay par) (k + SIMTIME_SECOND) (ps ! i)"
      using u(2) i calmer_nth [OF u(2), of i] list_all2_lengthD [OF u(2)] by (simp_all add: s0_def waited_tick)
    then show ?thesis using True by (simp add: t u(3) waited_forward)
  next
    case False
    then obtain b c where b: "m = StpBPDU b (Some c)" "bp_type b = CONFIG_BDPU" and c: "0 \<le> ctl_switchPort c" "ctl_switchPort c < int (sNumPorts s)"
      "bp_maxAge b = sp_maxAge par" "bp_forwardDelay b = sp_forwardDelay par"
      using True a by (auto split: option.splits)
    define j where "j = nat (ctl_switchPort c)"
    have j: "ctl_switchPort c = int j" "j < sNumPorts s" using c by (simp_all add: j_def)
    obtain t' where t': "handleBPDU ops b c s = Inr t'" "but_roles (sPorts t') ((sPorts s)[j := snd (isSuperiorBPDU b (sPorts s ! j))])"
      by (rule handleBPDU_inv [OF inv M c(3,4) j])
    have "t' = t" using h t'(1) b True by (simp add: stp_handleMessage_def)
    moreover have "waited (sp_forwardDelay par) k ((sPorts s)[j := snd (isSuperiorBPDU b (sPorts s ! j))] ! i)"
      using i waited_bpdu j(2) by (cases "i = j") auto
    ultimately show ?thesis
      using calmer_nth [OF but_roles_calmer [OF t'(2)], of i] i(1) False list_all2_lengthD [OF t'(2)] by auto
  qed
qed

end
