(* ===== verification/STPBehaviour.thy ===== *)
theory STPBehaviour
  imports STPRuns
begin

text \<open>
  What the spanning tree module promises, on its runs: the roles of the ports, that every message is handled, and
  what the timers of a root bridge and the notification of topology changes really do.
\<close>

section \<open>The tick of a root bridge\<close>

lemma check_ages_none:
  "(\<forall>p \<in> set (sPorts s). pi_age p < sCurrentMaxAge s) \<Longrightarrow> set is \<subseteq> {..<sNumPorts s} \<Longrightarrow> iterR check_age is s = Inr s"
proof (induction "is")
  case (Cons i "is")
  have "pi_age (sPorts s ! i) < sCurrentMaxAge s" using Cons.prems by simp
  then have "check_age i s = Inr s" by (simp add: check_age_def Let_def)
  then show ?case using Cons by simp
qed simp

lemma hellos_ticked [simp]: "hellos (s\<lparr>sHelloTime := h, sPorts := map tick_port (sPorts s)\<rparr>) = hellos s"
proof -
  have "pi_priority (tick_port p) = pi_priority p" for p using tick_port_simps(1) [of p] by (simp add: port_key_def)
  then show ?thesis by (simp add: hellos_def make_BPDU_def Let_def)
qed

lemma root_tick:
  assumes inv: "stp_inv M F s" and r: "sIsRoot s"
  defines "sent \<equiv> sCurrentHelloTime s \<le> sHelloTime s + SIMTIME_SECOND"
  obtains t where "handleTick s = Inr t" and "sIsRoot t" and "sOut t = sOut s @ (if sent then hellos s else [])"
    and "sHelloTime t = (if sent then 0 else sHelloTime s + SIMTIME_SECOND)" and "sCurrentHelloTime t = sHelloTime t"
    and "sTopologyChangeNotification t = sTopologyChangeNotification s" and "sTick t = sTick s"
    and "sPorts t = map (\<lambda>p. forward_port F (tick_port p)) (sPorts s)"
    and "sOperational t = sOperational s"
proof -
  define s1 where "s1 = s\<lparr>sHelloTime := sHelloTime s + SIMTIME_SECOND, sPorts := map tick_port (sPorts s)\<rparr>"
  define s2 where "s2 = s1\<lparr>sOut := (if sent then sOut s @ hellos s else sOut s), sHelloTime := (if sent then 0 else sHelloTime s1)\<rparr>"
  have roles: "\<forall>p \<in> set (sPorts s). pi_role p = DESIGNATED \<or> pi_role p = DISABLED"
    using inv r by (simp add: stp_inv_def decided_def roles_root_def)
  have s1: "sCurrentHelloTime s1 = sCurrentHelloTime s" "sIsRoot s1" "sOut s1 = sOut s" "sHelloTime s1 = sHelloTime s + SIMTIME_SECOND"
    "hellos s1 = hellos s" using r by (simp_all add: s1_def)
  have h: "hello_timer s1 = Inr s2" by (simp add: hello_timer_eq s2_def sent_def s1)
  have u: "sCurrentMaxAge s = M" "sCurrentFwdDelay s = F" "sMaxAge s = M" "sForwardDelay s = F" "uniform M F s"
    using inv by (simp_all add: stp_inv_def uniform_def)
  have "\<forall>p \<in> set (sPorts s2). pi_age p < sCurrentMaxAge s2"
    using inv roles u(1) by (auto simp: s2_def s1_def stp_inv_def)
  then have i: "iterR check_age [0..<sNumPorts s2] s2 = Inr s2" by (rule check_ages_none) auto
  define s4 where "s4 = s2\<lparr>sPorts := map (forward_port (sCurrentFwdDelay s2)) (sPorts s2)\<rparr>"
  have "uniform M F s4" using u(5) by (auto simp: s4_def s2_def s1_def uniform_def)
  then have c: "checkParametersChange s4 = s4\<lparr>sCurrentHelloTime := sHelloTime s4, sCurrentMaxAge := sMaxAge s4,
      sCurrentFwdDelay := sForwardDelay s4\<rparr>" (is "_ = ?t")
    using r checkParametersChange_uniform [of M F s4] by (simp add: s4_def s2_def s1_def)
  have w: "stp_wf ?t" using inv by (simp add: s4_def s2_def s1_def stp_inv_def stp_wf_def)
  have "pi_role (sPorts ?t ! sRootPort ?t) \<noteq> ROOT"
    using inv roles by (auto simp: s4_def s2_def s1_def stp_inv_def stp_wf_def all_set_conv_all_nth)
  then have "generateTCN ?t = Inr ?t" using generateTCN_shape [OF w] by simp
  then have tick: "handleTick s = Inr ?t"
    using r h i by (simp add: handleTick_def Let_def s1_def [symmetric] checkTimers_def s4_def [symmetric] c)
  show thesis by (rule that [OF tick]) (use r u in \<open>simp_all add: s4_def s2_def s1_def comp_def\<close>)
qed

lemma root_tick_message:
  assumes "0 < sp_maxAge par" and "stp_reach ops par now s" and op: "sOperational s" and r: "sIsRoot s"
    and a: "stp_arrives par now' StpTick s" and h: "stp_handleMessage ops now' StpTick s = Inr t"
  defines "sent \<equiv> sCurrentHelloTime s \<le> sHelloTime s + SIMTIME_SECOND"
  shows "sIsRoot t" and "sOperational t" and "sOut t = sOut s @ (if sent then hellos s else [])"
    and "sHelloTime t = (if sent then 0 else sHelloTime s + SIMTIME_SECOND)" and "sCurrentHelloTime t = sHelloTime t"
    and "sTopologyChangeNotification t = sTopologyChangeNotification s"
    and "sPorts t = map (\<lambda>p. forward_port (sp_forwardDelay par) (tick_port p)) (sPorts s)"
proof -
  define s0 where "s0 = s\<lparr>sTick := map_option cancelEvent (sTick s)\<rparr>"
  have "stp_inv (sp_maxAge par) (sp_forwardDelay par) s0"
    using stp_reach_good [OF assms(2,1)] op by (simp add: stp_good_def s0_def tick_inv)
  moreover have "sIsRoot s0" using r by (simp add: s0_def)
  ultimately obtain u where u: "handleTick s0 = Inr u" "sIsRoot u"
      "sOut u = sOut s0 @ (if sCurrentHelloTime s0 \<le> sHelloTime s0 + SIMTIME_SECOND then hellos s0 else [])"
      "sHelloTime u = (if sCurrentHelloTime s0 \<le> sHelloTime s0 + SIMTIME_SECOND then 0 else sHelloTime s0 + SIMTIME_SECOND)"
      "sCurrentHelloTime u = sHelloTime u" "sTopologyChangeNotification u = sTopologyChangeNotification s0"
      "sPorts u = map (\<lambda>p. forward_port (sp_forwardDelay par) (tick_port p)) (sPorts s0)" "sOperational u = sOperational s0"
    by (rule root_tick)
  have "hellos s0 = hellos s" by (simp add: hellos_def s0_def make_BPDU_def Let_def)
  moreover have "schedule_tick now' u = Inr t" using h op u(1) by (simp add: stp_handleMessage_def s0_def)
  ultimately show "sIsRoot t" "sOperational t" "sOut t = sOut s @ (if sent then hellos s else [])"
    "sHelloTime t = (if sent then 0 else sHelloTime s + SIMTIME_SECOND)" "sCurrentHelloTime t = sHelloTime t"
    "sTopologyChangeNotification t = sTopologyChangeNotification s"
    "sPorts t = map (\<lambda>p. forward_port (sp_forwardDelay par) (tick_port p)) (sPorts s)"
    using u op by (auto simp: s0_def sent_def elim!: schedule_tick_Inr)
qed

section \<open>An example\<close>

text \<open>A bridge with two ports and a forward delay of one second.\<close>

definition e_par :: stp_par where
  "e_par = \<lparr>sp_bridgePriority = 32768, sp_maxAge = 20 * SIMTIME_SECOND, sp_helloTime = 2 * SIMTIME_SECOND,
            sp_forwardDelay = SIMTIME_SECOND\<rparr>"

definition e_port :: PortInfo where
  "e_port = new_PortInfo\<lparr>pi_priority := 128, pi_linkCost := 19, pi_state := DISCARDING, pi_role := DESIGNATED,
     pi_rootPriority := 32768, pi_rootAddress := 0x0AAA00000002, pi_bridgePriority := 32768,
     pi_bridgeAddress := 0x0AAA00000002, pi_portPriority := -1, pi_portNum := -1\<rparr>"

definition e_ops :: "unit stp_ops" where
  "e_ops = \<lparr>so_setAgingTime = (\<lambda>_ t. t), so_resetDefaultAging = (\<lambda>t. t)\<rparr>"

definition e0 :: "unit stp" where
  "e0 = \<lparr>sOperational = True, sBridgePriority = 32768, sBridgeAddress = 0x0AAA00000002,
     sMaxAge = 20 * SIMTIME_SECOND, sHelloTime = 0, sForwardDelay = SIMTIME_SECOND, sIsRoot = True, sRootPort = 0,
     sDesPorts = [0, 1], sRootPathCost = 0, sRootPriority = 32768, sRootAddress = 0x0AAA00000002,
     sCurrentMaxAge = 20 * SIMTIME_SECOND, sCurrentFwdDelay = SIMTIME_SECOND, sCurrentHelloTime = 0,
     sCurrentBridgePriority = 32768, sTopologyChangeNotification = False, sTopologyChangeRecvd = True,
     sTick = Some \<lparr>tm_kind = 0, tm_at = Some SIMTIME_SECOND\<rparr>, sPorts = [e_port, e_port], sTable = (), sOut = []\<rparr>"

lemma e0_start:
  "stp_initialize e_par 0 None [(True, 0), (False, 0x0AAA00000002)]
     [new_PortInfo\<lparr>pi_priority := 128, pi_linkCost := 19\<rparr>, new_PortInfo\<lparr>pi_priority := 128, pi_linkCost := 19\<rparr>] () = Inr e0"
  by (simp add: stp_initialize_def chooseInterface_def Let_def schedule_tick_def setAllDesignated_def initPortTable_def
      init_port_def e_par_def scheduleAt_def e0_def e_port_def SIMTIME_SECOND_def new_PortInfo_def numeral_2_eq_2)

lemma e0_reach: "stp_reach e_ops e_par 0 e0"
  by (rule stp_reach.start [OF e0_start])

lemma e_max: "0 < sp_maxAge e_par" by (simp add: e_par_def SIMTIME_SECOND_def)

text \<open>A better root is heard on the second port.\<close>

definition e_bpdu :: BPDU where
  "e_bpdu = new_BPDU\<lparr>bp_rootPriority := 4096, bp_rootAddress := 0x0AAA00000001, bp_bridgePriority := 4096,
     bp_bridgeAddress := 0x0AAA00000001, bp_portPriority := 128, bp_maxAge := 20 * SIMTIME_SECOND,
     bp_helloTime := 2 * SIMTIME_SECOND, bp_forwardDelay := SIMTIME_SECOND\<rparr>"

definition e1 :: "unit stp" where
  "e1 = e0\<lparr>sIsRoot := False, sCurrentHelloTime := 2 * SIMTIME_SECOND, sRootPort := 1, sDesPorts := [0], sRootPathCost := 19, sRootPriority := 4096,
     sRootAddress := 0x0AAA00000001, sTopologyChangeNotification := True,
     sPorts := [e_port, e_port\<lparr>pi_role := ROOT, pi_rootPriority := 4096, pi_rootAddress := 0x0AAA00000001,
       pi_rootPathCost := 19, pi_bridgePriority := 4096, pi_bridgeAddress := 0x0AAA00000001, pi_portPriority := 128,
       pi_portNum := 0, pi_maxAge := 20 * SIMTIME_SECOND, pi_fwdDelay := SIMTIME_SECOND,
       pi_helloTime := 2 * SIMTIME_SECOND\<rparr>]\<rparr>"

abbreviation e_heard :: PortInfo where
  "e_heard \<equiv> e_port\<lparr>pi_rootPriority := 4096, pi_rootAddress := 0x0AAA00000001,
       pi_rootPathCost := 19, pi_bridgePriority := 4096, pi_bridgeAddress := 0x0AAA00000001, pi_portPriority := 128,
       pi_portNum := 0, pi_maxAge := 20 * SIMTIME_SECOND, pi_fwdDelay := SIMTIME_SECOND,
       pi_helloTime := 2 * SIMTIME_SECOND\<rparr>"

lemma e_superior: "isSuperiorBPDU e_bpdu e_port = (True, e_heard)"
  by (simp add: isSuperiorBPDU_def comparePorts_def compareBridgeIDs_def bpdu_info_def setSuperiorBPDU_def
      e_bpdu_def new_BPDU_def e_port_def new_PortInfo_def Let_def SIMTIME_SECOND_def)

lemma e_compare:
  "comparePorts (p\<lparr>pi_role := r\<rparr>) q = comparePorts p q" "comparePorts p (q\<lparr>pi_role := r\<rparr>) = comparePorts p q"
  "comparePorts e_heard e_port = 1" "comparePorts p p = 0"
  by (simp_all add: comparePorts_vector) (simp add: vector_def e_port_def bridge_id_less lex_less)

definition e_mid :: "unit stp" where
  "e_mid = e0\<lparr>sIsRoot := False, sDesPorts := [], sTopologyChangeNotification := True, sRootPort := Suc 0,
     sPorts := [e_port\<lparr>pi_role := NOTASSIGNED\<rparr>, e_heard\<lparr>pi_role := ROOT\<rparr>], sRootPathCost := 19,
     sRootAddress := 0x0AAA00000001, sRootPriority := 4096, sCurrentMaxAge := 20 * SIMTIME_SECOND,
     sCurrentFwdDelay := SIMTIME_SECOND, sCurrentHelloTime := 2 * SIMTIME_SECOND\<rparr>"

lemma e_select: "selectRootPort (e0\<lparr>sPorts := [e_port, e_heard], sIsRoot := False\<rparr>) = Inr e_mid"
  by (simp add: selectRootPort_def getPortInterfaceData_def Let_def root_scan_def e_compare e_mid_def e0_def numeral_2_eq_2)

lemma e_designated: "selectDesignatedPorts e_mid = e1"
proof -
  have c: "comparePorts (bridgeGlobal e_mid 0 e_port) e_port = 1"
    by (simp add: comparePorts_vector) (simp add: vector_def bridgeGlobal_def e_mid_def e0_def e_port_def bridge_id_less lex_less)
  have p: "sPorts e_mid = [e_port\<lparr>pi_role := NOTASSIGNED\<rparr>, e_heard\<lparr>pi_role := ROOT\<rparr>]"
    "e_port\<lparr>pi_role := DESIGNATED\<rparr> = e_port"
    by (simp_all add: e_mid_def e_port_def)
  have "selectDesignatedPorts e_mid = e_mid\<lparr>sDesPorts := [0], sPorts := [e_port, e_heard\<lparr>pi_role := ROOT\<rparr>]\<rparr>"
    by (simp add: selectDesignatedPorts_def elected_def designated_role_def Let_def p e_compare c numeral_2_eq_2)
  also have "\<dots> = e1" by (simp add: e_mid_def e1_def e0_def)
  finally show ?thesis .
qed

lemma e1_step: "stp_handleMessage e_ops 500000000000 (StpBPDU e_bpdu (Some (bpdu_ctrl 1 STP_MULTICAST_ADDRESS))) e0 = Inr e1"
proof -
  have "checkRootEligibility (e0\<lparr>sPorts := [e_port, e_heard]\<rparr>) = False"
    by (simp add: checkRootEligibility_def compareBridgeIDs_def e0_def)
  then have t: "tryRoot (e0\<lparr>sPorts := [e_port, e_heard]\<rparr>) = Inr e1"
    by (simp add: tryRoot_def e_select e_designated)
  have p: "sPorts e0 = [e_port, e_port]" "sOperational e0" by (simp_all add: e0_def)
  have f: "bp_type e_bpdu = CONFIG_BDPU" "\<not> bp_tcaFlag e_bpdu" "pi_role e_port = DESIGNATED"
    by (simp_all add: e_bpdu_def new_BPDU_def CONFIG_BDPU_def e_port_def)
  show ?thesis
    using t by (simp add: stp_handleMessage_def handleBPDU_def Let_def getPortInterfaceData_def set_port_def p f
        e_superior)
qed

lemma e1_reach: "stp_reach e_ops e_par 500000000000 e1"
  by (rule stp_reach.message [OF e0_reach _ _ e1_step])
    (simp_all add: e_par_def e_bpdu_def e0_def new_Ieee802Ctrl_def)

text \<open>Two ticks of the example: its ports go from discarding to learning to forwarding.\<close>

lemma e_ticks:
  obtains t u where "stp_handleMessage e_ops SIMTIME_SECOND StpTick e0 = Inr t" and "stp_arrives e_par SIMTIME_SECOND StpTick e0"
    and "stp_arrives e_par (2 * SIMTIME_SECOND) StpTick t" and "stp_handleMessage e_ops (2 * SIMTIME_SECOND) StpTick t = Inr u"
    and "stp_reach e_ops e_par SIMTIME_SECOND t" and "stp_reach e_ops e_par (2 * SIMTIME_SECOND) u"
    and "sIsRoot t" and "sOperational t" and "map pi_state (sPorts u) = [FORWARDING, FORWARDING]"
proof -
  have a0: "stp_arrives e_par SIMTIME_SECOND StpTick e0" and e0: "sOperational e0" "sIsRoot e0" by (simp_all add: e0_def)
  obtain t where t: "stp_handleMessage e_ops SIMTIME_SECOND StpTick e0 = Inr t"
    and k: "\<exists>tk. sTick t = Some tk \<and> tm_at tk = Some (SIMTIME_SECOND + SIMTIME_SECOND)"
    by (rule stp_message_good [OF stp_reach_good [OF e0_reach e_max] a0 e_max]) (use e0 in blast)
  note r1 = root_tick_message [OF e_max e0_reach e0 a0 t]
  have rt: "stp_reach e_ops e_par SIMTIME_SECOND t"
    by (rule stp_reach.message [OF e0_reach _ a0 t]) (simp add: SIMTIME_SECOND_def)
  have a1: "stp_arrives e_par (2 * SIMTIME_SECOND) StpTick t" using k by auto
  obtain u where u: "stp_handleMessage e_ops (2 * SIMTIME_SECOND) StpTick t = Inr u"
    by (rule stp_message_good [OF stp_reach_good [OF rt e_max] a1 e_max])
  note r2 = root_tick_message [OF e_max rt r1(2,1) a1 u]
  have ru: "stp_reach e_ops e_par (2 * SIMTIME_SECOND) u"
    by (rule stp_reach.message [OF rt _ a1 u]) (simp add: SIMTIME_SECOND_def)
  have "map pi_state (sPorts u) = [FORWARDING, FORWARDING]"
    using r1(7) r2(7) by (simp add: e0_def e_port_def e_par_def new_PortInfo_def tick_port_def forward_port_def Let_def)
  then show thesis by (rule that [OF t a0 a1 u rt ru r1(1,2)])
qed

section \<open>The roles of the ports\<close>

text \<open>
  C19. In every state a bridge that is up can reach, in a network with the same timer parameters everywhere, the root
  is the best of the bridges it knows of; a bridge that believes to be the root has cost 0 and blocks no port; any
  other has a root port, whose information no port betters, and every other port has the role that comparing
  what the bridge would send there with what it heard there asks for. The list of the designated ports says so, and
  no information is older than the maximum age.
\<close>

theorem stp_roles:
  assumes "stp_reach ops par now s" and "sOperational s" and "0 < sp_maxAge par"
  shows "sRootId s = Min (insert (ownId s) (rootId ` set (sPorts s))) \<and> (sIsRoot s \<longleftrightarrow> sRootId s = ownId s)
    \<and> (sIsRoot s \<longrightarrow> sRootPathCost s = 0 \<and> (\<forall>p \<in> set (sPorts s). pi_role p = DESIGNATED \<or> pi_role p = DISABLED))
    \<and> (\<not> sIsRoot s \<longrightarrow> sRootPort s < sNumPorts s
         \<and> pi_role (sPorts s ! sRootPort s) = ROOT \<and> rootId (sPorts s ! sRootPort s) = sRootId s
         \<and> pi_rootPathCost (sPorts s ! sRootPort s) = sRootPathCost s
         \<and> (\<forall>p \<in> set (sPorts s). comparePorts (sPorts s ! sRootPort s) p \<ge> 0)
         \<and> (\<forall>i < sNumPorts s. i \<noteq> sRootPort s \<longrightarrow>
              pi_role (sPorts s ! i) =
                (let result = comparePorts (bridgeGlobal s i (sPorts s ! i)) (sPorts s ! i)
                 in if result > 0 then DESIGNATED else if result < 0 then ALTERNATE else NOTASSIGNED)))
    \<and> sDesPorts s = filter (\<lambda>i. pi_role (sPorts s ! i) = DESIGNATED) [0..<sNumPorts s]
    \<and> (\<forall>p \<in> set (sPorts s). pi_age p < sp_maxAge par)"
proof -
  have inv: "stp_inv (sp_maxAge par) (sp_forwardDelay par) s" using stp_reach_good [OF assms(1,3)] assms(2) by (simp add: stp_good_def)
  then have d: "root_elected s" "sIsRoot s \<longrightarrow> roles_root s" "\<not> sIsRoot s \<longrightarrow> roles_other s"
    "sDesPorts s = filter (\<lambda>i. pi_role (sPorts s ! i) = DESIGNATED) [0..<sNumPorts s]"
    "\<forall>p \<in> set (sPorts s). pi_age p < sp_maxAge par"
    by (simp_all add: stp_inv_def decided_def)
  have c: "(0 \<le> comparePorts a b) = (vector a \<le> vector b)" for a b by (auto simp: comparePorts_vector)
  have r: "role_by_vector s i = (let result = comparePorts (bridgeGlobal s i (sPorts s ! i)) (sPorts s ! i)
      in if result > 0 then DESIGNATED else if result < 0 then ALTERNATE else NOTASSIGNED)" for i
    by (simp add: role_by_vector_def comparePorts_pos comparePorts_neg Let_def)
  show ?thesis
    unfolding c r [symmetric] using d unfolding root_elected_def roles_root_def roles_other_def Let_def by blast
qed

theorem stp_roles_witness:
  "sRootId e1 = BridgeId 4096 0x0AAA00000001 \<and> pi_role (sPorts e1 ! 0) = DESIGNATED \<and> pi_role (sPorts e1 ! 1) = ROOT
   \<and> sRootId e1 = Min (insert (ownId e1) (rootId ` set (sPorts e1)))"
proof -
  have "sOperational e1" by (simp add: e1_def e0_def)
  from stp_roles [OF e1_reach this e_max] have "sRootId e1 = Min (insert (ownId e1) (rootId ` set (sPorts e1)))" by blast
  then show ?thesis by (simp add: e1_def e_port_def)
qed

section \<open>Every message is handled\<close>

text \<open>
  What arrives at the module, a tick or a BPDU, is handled without an error and without reaching past the ports, when
  every configuration BPDU comes with its control information and has this bridge's own maximum age, which is
  positive, and forward delay. A bridge that is up keeps its tick running, and each tick schedules the next one for a
  second later.
\<close>

theorem stp_messages_handled:
  assumes "stp_reach ops par now s" and "0 < sp_maxAge par" and "stp_arrives par now' m s" and "now \<le> now'"
  shows "\<exists>t. stp_handleMessage ops now' m s = Inr t \<and> stp_reach ops par now' t \<and> sOperational t = sOperational s
    \<and> (sOperational s \<longrightarrow> (\<exists>tk time. sTick t = Some tk \<and> tm_at tk = Some time
         \<and> (m = StpTick \<longrightarrow> time = now' + SIMTIME_SECOND)))"
proof -
  obtain t where t: "stp_handleMessage ops now' m s = Inr t" "stp_good par t" "sOperational t = sOperational s"
      "sOperational s \<Longrightarrow> m = StpTick \<Longrightarrow> \<exists>tk. sTick t = Some tk \<and> tm_at tk = Some (now' + SIMTIME_SECOND)"
    by (rule stp_message_good [OF stp_reach_good [OF assms(1,2)] assms(3,2)]) (rule that)
  have "stp_reach ops par now' t" by (rule stp_reach.message [OF assms(1,4,3) t(1)])
  moreover have "\<exists>tk time. sTick t = Some tk \<and> tm_at tk = Some time" if "sOperational s"
    using t(2,3) that by (auto simp: stp_good_def tick_running_def split: option.splits)
  ultimately show ?thesis using t by blast
qed

theorem stp_messages_handled_witness:
  "\<exists>t. stp_handleMessage e_ops SIMTIME_SECOND StpTick e1 = Inr t
    \<and> (\<exists>tk. sTick t = Some tk \<and> tm_at tk = Some (2 * SIMTIME_SECOND))"
proof -
  have "stp_arrives e_par SIMTIME_SECOND StpTick e1" by (simp add: e1_def e0_def)
  from stp_messages_handled [where ops = e_ops, OF e1_reach e_max this] show ?thesis
    by (auto simp: e1_def e0_def SIMTIME_SECOND_def)
qed

section \<open>Forward delay\<close>

text \<open>
  Forward delay, when all bridges are configured with one: between the moment a port is discarding with its timer at
  zero and the moment it forwards there is time for the listening and the learning period: at least twice the forward
  delay in ticks of a second, in every run in which the configuration BPDUs have this bridge's own maximum age and
  forward delay.
\<close>

theorem stp_forward_delay:
  assumes "0 < sp_maxAge par" and "stp_reach ops par now s" and "stp_run ops par now s n now' t"
    and "i < sNumPorts s" and "pi_state (sPorts s ! i) = DISCARDING" and "pi_fdWhile (sPorts s ! i) = 0"
    and "isForwarding (sPorts t ! i)"
  shows "2 * sp_forwardDelay par \<le> int n * SIMTIME_SECOND"
proof -
  have "i < sNumPorts t \<and> waited (sp_forwardDelay par) (int n * SIMTIME_SECOND) (sPorts t ! i)"
    using assms(3)
  proof induction
    case refl
    then show ?case using assms(4-6) by (simp add: waited_def)
  next
    case (message n now1 t now2 m u)
    have "stp_good par t" by (rule stp_reach_good [OF stp_run_reach [OF message.hyps(1) assms(2)] assms(1)])
    from message_waited [OF this message.hyps(3) assms(1) message.hyps(4) conjunct1 [OF message.IH] conjunct2 [OF message.IH]]
    show ?case by (simp add: algebra_simps split: if_splits)
  next
    case (operation n now1 t now2 ift op stage u)
    then show ?case using operation_waited by blast
  qed
  then show ?thesis using assms(7) by (simp add: waited_def isForwarding_def)
qed

theorem stp_forward_delay_witness:
  "\<exists>u. stp_run e_ops e_par 0 e0 2 (2 * SIMTIME_SECOND) u \<and> isForwarding (sPorts u ! 0) \<and> 2 * SIMTIME_SECOND \<le> int 2 * SIMTIME_SECOND"
proof -
  obtain t u where t: "stp_handleMessage e_ops SIMTIME_SECOND StpTick e0 = Inr t" "stp_arrives e_par SIMTIME_SECOND StpTick e0"
      "stp_arrives e_par (2 * SIMTIME_SECOND) StpTick t" "stp_handleMessage e_ops (2 * SIMTIME_SECOND) StpTick t = Inr u"
    and f: "map pi_state (sPorts u) = [FORWARDING, FORWARDING]"
    by (rule e_ticks)
  have "stp_run e_ops e_par 0 e0 (if StpTick = StpTick then Suc 0 else 0) SIMTIME_SECOND t"
    by (rule stp_run.message [OF stp_run.refl _ t(2,1)]) (simp add: SIMTIME_SECOND_def)
  then have 1: "stp_run e_ops e_par 0 e0 1 SIMTIME_SECOND t" by simp
  have "stp_run e_ops e_par 0 e0 (if StpTick = StpTick then Suc 1 else 1) (2 * SIMTIME_SECOND) u"
    by (rule stp_run.message [OF 1 _ t(3,4)]) (simp add: SIMTIME_SECOND_def)
  then have r: "stp_run e_ops e_par 0 e0 2 (2 * SIMTIME_SECOND) u" by (simp add: numeral_2_eq_2)
  have p: "isForwarding (sPorts u ! 0)" using f by (auto simp: isForwarding_def)
  have "2 * sp_forwardDelay e_par \<le> int 2 * SIMTIME_SECOND"
    by (rule stp_forward_delay [OF e_max e0_reach r _ _ _ p]) (simp_all add: e0_def e_port_def new_PortInfo_def)
  then show ?thesis using r p by (auto simp: e_par_def)
qed

section \<open>The hello timer\<close>

text \<open>The timer that counts the seconds never gets further than to 0, and a root bridge compares it with 0.\<close>

definition hello_zero :: "'t stp \<Rightarrow> bool" where
  "hello_zero s \<longleftrightarrow> sHelloTime s = 0 \<and> (sIsRoot s \<longrightarrow> sCurrentHelloTime s = 0)"

lemma tryRoot_hello:
  assumes "tryRoot s = Inr t" and "sHelloTime s = 0"
  shows "hello_zero t"
  using assms by (auto simp: tryRoot_def selectRootPort_def selectDesignatedPorts_def setAllDesignated_def Let_def
      bindR_Inr_iff hello_zero_def split: if_splits)

lemma generateBPDU_hello: "generateBPDU i a tc tca s = Inr t \<Longrightarrow> sHelloTime t = sHelloTime s"
  by (auto simp: generateBPDU_def bindR_Inr_iff)

lemma iter_generateBPDU_hello:
  "iterR (\<lambda>i. generateBPDU (int i) a tc tca) is s = Inr t \<Longrightarrow> sHelloTime t = sHelloTime s"
  by (erule iterR_keeps [where P = "\<lambda>u. sHelloTime u = sHelloTime s"]) (simp_all add: generateBPDU_hello)

lemma iter_sendBPDU_hello: "iterR sendBPDU is s = Inr t \<Longrightarrow> sHelloTime t = sHelloTime s"
  unfolding sendBPDU_def by (rule iter_generateBPDU_hello)

lemma handleBPDU_hello:
  assumes "handleBPDU ops bpdu c s = Inr t" and "sHelloTime s = 0"
  shows "hello_zero t"
proof -
  obtain port where p: "getPortInterfaceData (ctl_switchPort c) s = Inr port"
    using assms(1) by (auto simp: handleBPDU_def Let_def bindR_Inr_iff)
  obtain superior q where q: "isSuperiorBPDU bpdu port = (superior, q)" by fastforce
  define s2 where "s2 = set_port (nat (ctl_switchPort c)) q
      (if bp_tcaFlag bpdu then s\<lparr>sTopologyChangeRecvd := True, sTopologyChangeNotification := False\<rparr> else s)"
  have z: "sHelloTime s2 = 0" using assms(2) by (simp add: s2_def set_port_def)
  from assms(1) obtain u where u: "tryRoot u = Inr t" and v: "(if \<not> superior
              then if pi_role q = DESIGNATED
                   then generateBPDU (ctl_switchPort c) STP_MULTICAST_ADDRESS False False s2 else Inr s2
              else if pi_role q = ROOT
              then if bp_tcFlag bpdu
                   then let s3 = s2\<lparr>sTable := so_setAgingTime ops (sCurrentFwdDelay s2) (sTable s2)\<rparr>
                        in iterR (\<lambda>i. generateBPDU (int i) STP_MULTICAST_ADDRESS True False) (sDesPorts s3) s3
                   else let s3 = s2\<lparr>sTable := so_resetDefaultAging ops (sTable s2)\<rparr>
                        in iterR sendBPDU (sDesPorts s3) s3
              else Inr s2) = Inr u"
    unfolding handleBPDU_def Let_def p bindR.simps q prod.case s2_def bindR_Inr_iff by blast
  have "sHelloTime u = 0"
    using v z by (auto simp: Let_def split: if_splits dest!: generateBPDU_hello iter_generateBPDU_hello iter_sendBPDU_hello)
  with u show ?thesis by (rule tryRoot_hello)
qed

lemma handleTCN_hello: "handleTCN tcn c s = Inr t \<Longrightarrow> hello_zero s \<Longrightarrow> hello_zero t"
  by (auto simp: handleTCN_def generateBPDU_def bindR_Inr_iff hello_zero_def)

lemma check_age_hello: "check_age i s = Inr t \<Longrightarrow> hello_zero s \<Longrightarrow> hello_zero t"
  by (auto simp: check_age_def Let_def lostRoot_def lostAlternate_def selectDesignatedPorts_def initInterfacedata_def
      set_port_def hello_zero_def split: if_splits dest!: tryRoot_hello)

lemma handleTick_hello:
  assumes t: "handleTick s = Inr t" and z: "hello_zero s"
  shows "hello_zero t"
proof -
  let ?s1 = "s\<lparr>sHelloTime := (if sIsRoot s then sHelloTime s + SIMTIME_SECOND else 0), sPorts := map tick_port (sPorts s)\<rparr>"
  obtain s2 s3 where s: "hello_timer ?s1 = Inr s2" "iterR check_age [0..<sNumPorts s2] s2 = Inr s3"
      "generateTCN (checkParametersChange (s3\<lparr>sPorts := map (forward_port (sCurrentFwdDelay s3)) (sPorts s3)\<rparr>)) = Inr t"
    using t by (auto simp: handleTick_def checkTimers_def Let_def bindR_Inr_iff)
  have "hello_zero s2" using s(1) z by (auto simp: hello_timer_eq hello_zero_def SIMTIME_SECOND_def)
  then have "hello_zero s3" by (rule iterR_keeps [OF s(2)]) (rule check_age_hello)
  then have "hello_zero (checkParametersChange (s3\<lparr>sPorts := map (forward_port (sCurrentFwdDelay s3)) (sPorts s3)\<rparr>))"
    by (simp add: hello_zero_def checkParametersChange_def stp_reset_def setAllDesignated_def Let_def)
  with s(3) show ?thesis by (auto simp: generateTCN_def bindR_Inr_iff hello_zero_def split: if_splits)
qed

lemma schedule_tick_hello: "schedule_tick now s = Inr t \<Longrightarrow> hello_zero s \<Longrightarrow> hello_zero t"
  by (auto elim!: schedule_tick_Inr simp: hello_zero_def)

lemma stp_reach_hello: "stp_reach ops par now s \<Longrightarrow> hello_zero s"
proof (induction rule: stp_reach.induct)
  case (start now status_up ift ports table s)
  then show ?case
    by (auto simp: stp_initialize_def Let_def initPortTable_def setAllDesignated_def hello_zero_def
        split: if_splits elim!: schedule_tick_Inr)
next
  case (message now s now' m t)
  show ?case
  proof (cases "sOperational s")
    case True
    have "hello_zero (s\<lparr>sTick := x\<rparr>)" for x using message.IH by (simp add: hello_zero_def)
    moreover have "sHelloTime s = 0" using message.IH by (simp add: hello_zero_def)
    ultimately show ?thesis using message.hyps(4) message.IH True
      by (auto simp: stp_handleMessage_def bindR_Inr_iff split: stp_msg.splits option.splits if_splits
          dest: schedule_tick_hello handleTick_hello handleBPDU_hello handleTCN_hello)
  qed (use message in \<open>auto simp: stp_handleMessage_def hello_zero_def split: stp_msg.splits\<close>)
next
  case (operation now s now' ift operation stage t)
  have "hello_zero u" if "stp_stop s = Inr u" for u
    using that operation.IH by (auto simp: stp_stop_def hello_zero_def split: option.splits)
  moreover have "hello_zero u" if "stp_start now' ift s = Inr u" for u
    using that operation.IH
    by (auto simp: stp_start_def Let_def initPortTable_def setAllDesignated_def hello_zero_def
        split: option.splits elim!: schedule_tick_Inr)
  ultimately show ?case using operation by (cases operation) (auto split: if_splits)
qed



section \<open>Notification of topology changes\<close>

text \<open>A run of ticks only, and their number.\<close>

inductive stp_ticks :: "'t stp_ops \<Rightarrow> stp_par \<Rightarrow> simtime \<Rightarrow> 't stp \<Rightarrow> nat \<Rightarrow> simtime \<Rightarrow> 't stp \<Rightarrow> bool" for ops par now s where
  start: "stp_ticks ops par now s 0 now s"
| tick: "stp_ticks ops par now s n now1 t \<Longrightarrow> now1 \<le> now2 \<Longrightarrow> stp_arrives par now2 StpTick t \<Longrightarrow>
    stp_handleMessage ops now2 StpTick t = Inr u \<Longrightarrow> stp_ticks ops par now s (Suc n) now2 u"

lemma hellos_tc: "sTopologyChangeNotification s \<Longrightarrow> sIsRoot s \<Longrightarrow> m \<in> set (hellos s) \<Longrightarrow> bp_tcFlag (fst m)"
  by (auto simp: hellos_def make_BPDU_def Let_def)

lemma root_ticks:
  assumes "stp_ticks ops par now s n now' u" and M: "0 < sp_maxAge par" and "stp_reach ops par now s"
    and "sOperational s" and "sIsRoot s" and "sTopologyChangeNotification s"
  shows "stp_reach ops par now' u \<and> sOperational u \<and> sIsRoot u \<and> sTopologyChangeNotification u
    \<and> (\<exists>out. sOut u = sOut s @ out \<and> (\<forall>m \<in> set out. bp_tcFlag (fst m)))"
  using assms(1)
proof induction
  case start
  then show ?case using assms(3-6) by simp
next
  case (tick n now1 t now2 u)
  then obtain out where t: "stp_reach ops par now1 t" "sOperational t" "sIsRoot t" "sTopologyChangeNotification t"
    and out: "sOut t = sOut s @ out" "\<forall>m \<in> set out. bp_tcFlag (fst m)" by blast
  note u = root_tick_message [OF M t(1-3) tick.hyps(3,4)]
  have "stp_reach ops par now2 u" by (rule stp_reach.message [OF t(1) tick.hyps(2-4)])
  moreover have "\<exists>out'. sOut u = sOut s @ out' \<and> (\<forall>m \<in> set out'. bp_tcFlag (fst m))"
    using u(3) out hellos_tc [OF t(4,3)] by (auto split: if_splits)
  ultimately show ?case using u(1,2,6) t(4) by blast
qed

text \<open>
  C25. A topology change is announced for ever and never acknowledged: a root bridge that hears of one by a TCN BPDU
  answers with a BPDU that has the topology change flag but not the acknowledgement flag, for \<open>generateBPDU\<close> looks
  at \<open>isRoot\<close> first; and however many ticks go by, its notification stays set and all it sends has the topology
  change flag.
\<close>

theorem stp_topology_change_stuck:
  assumes "stp_reach ops par now s" and "0 < sp_maxAge par" and "sOperational s" and "sIsRoot s"
    and "stp_arrives par now1 (StpBPDU tcn (Some c)) s" and "bp_type tcn = TCN_BPDU" and "now \<le> now1"
    and "stp_handleMessage ops now1 (StpBPDU tcn (Some c)) s = Inr t" and "stp_ticks ops par now1 t n now2 u"
  shows "(\<exists>b out. sOut t = sOut s @ [(b, bpdu_ctrl (ctl_switchPort c) (ctl_src c))] \<and> bp_tcFlag b \<and> \<not> bp_tcaFlag b
      \<and> sOut u = sOut t @ out \<and> (\<forall>m \<in> set out. bp_tcFlag (fst m)))
    \<and> sIsRoot u \<and> sTopologyChangeNotification u"
proof -
  have i: "ctl_switchPort c = int (nat (ctl_switchPort c))" "nat (ctl_switchPort c) < sNumPorts s" using assms(5) by auto
  have ty: "TCN_BPDU \<noteq> CONFIG_BDPU" by (simp add: TCN_BPDU_def CONFIG_BDPU_def)
  define b where "b = make_BPDU (ctl_switchPort c) (sPorts s ! nat (ctl_switchPort c)) False True
      (s\<lparr>sTopologyChangeNotification := True\<rparr>)"
  have t: "t = s\<lparr>sTopologyChangeNotification := True, sOut := sOut s @ [(b, bpdu_ctrl (ctl_switchPort c) (ctl_src c))]\<rparr>"
    using handleTCN_eq [OF i, of tcn] assms(3,4,6,8) i(1) ty by (simp add: stp_handleMessage_def b_def)
  have "bp_tcFlag b" "\<not> bp_tcaFlag b" using assms(4) by (simp_all add: b_def make_BPDU_def Let_def)
  moreover have "stp_reach ops par now1 t" by (rule stp_reach.message [OF assms(1,7,5,8)])
  then have "sIsRoot u \<and> sTopologyChangeNotification u
      \<and> (\<exists>out. sOut u = sOut t @ out \<and> (\<forall>m \<in> set out. bp_tcFlag (fst m)))"
    using root_ticks [OF assms(9,2)] assms(3,4) by (simp add: t)
  ultimately show ?thesis using t by auto
qed

theorem stp_topology_change_stuck_witness:
  "\<exists>t u b. stp_handleMessage e_ops 0 (StpBPDU (new_BPDU\<lparr>bp_type := TCN_BPDU\<rparr>) (Some (bpdu_ctrl 1 0x0AAA00000009))) e0 = Inr t
    \<and> stp_handleMessage e_ops SIMTIME_SECOND StpTick t = Inr u
    \<and> sOut t = [(b, bpdu_ctrl 1 0)] \<and> \<not> bp_tcaFlag b \<and> sTopologyChangeNotification u"
proof -
  let ?m = "StpBPDU (new_BPDU\<lparr>bp_type := TCN_BPDU\<rparr>) (Some (bpdu_ctrl 1 0x0AAA00000009))"
  have e0: "sOperational e0" "sIsRoot e0" "sOut e0 = []" by (simp_all add: e0_def)
  have a: "stp_arrives e_par 0 ?m e0" by (simp add: e0_def TCN_BPDU_def CONFIG_BDPU_def new_BPDU_def new_Ieee802Ctrl_def)
  obtain t where t: "stp_handleMessage e_ops 0 ?m e0 = Inr t"
    by (rule stp_message_good [OF stp_reach_good [OF e0_reach e_max] a e_max])
  have r: "stp_reach e_ops e_par 0 t" by (rule stp_reach.message [OF e0_reach _ a t]) simp
  have "sTick t = sTick e0"
    using t by (auto simp: stp_handleMessage_def e0_def handleTCN_def generateBPDU_def getPortInterfaceData_def
        TCN_BPDU_def CONFIG_BDPU_def new_BPDU_def new_Ieee802Ctrl_def)
  then have k: "stp_arrives e_par SIMTIME_SECOND StpTick t" by (simp add: e0_def)
  obtain u where u: "stp_handleMessage e_ops SIMTIME_SECOND StpTick t = Inr u"
    by (rule stp_message_good [OF stp_reach_good [OF r e_max] k e_max])
  have s: "stp_ticks e_ops e_par 0 t (Suc 0) SIMTIME_SECOND u"
    by (rule stp_ticks.tick [OF stp_ticks.start _ k u]) (simp add: SIMTIME_SECOND_def)
  from stp_topology_change_stuck [OF e0_reach e_max e0(1,2) a _ _ t s] show ?thesis
    using t u e0(3) by (auto simp: new_Ieee802Ctrl_def)
qed

section \<open>A switch that is down when the simulation starts\<close>

text \<open>
  A switch that is down when the simulation starts cannot be started later: \<open>initialize\<close> schedules the tick all
  the same, \<open>handleMessage\<close> deletes the message as the module is not operational, and \<open>start\<close> schedules the
  deleted message.
\<close>

theorem stp_down_at_start:
  assumes "ports \<noteq> []" and "stp_initialize par now (Some False) ift ports table = Inr s"
    and "chooseInterface ift' \<noteq> None"
  shows "stp_arrives par (now + SIMTIME_SECOND) StpTick s
    \<and> (\<exists>t. stp_handleMessage ops (now + SIMTIME_SECOND) StpTick s = Inr t
      \<and> stp_handleOperationStage now' ift' NodeStartOperation start_STAGE_LINK_LAYER t = Inl NullDeref)"
proof -
  obtain s0 where s0: "schedule_tick now s0 = Inr s" "\<not> sOperational s0"
    using assms(1,2) by (auto simp: stp_initialize_def Let_def setAllDesignated_def initPortTable_def)
  obtain tk where s: "s = s0\<lparr>sTick := Some tk\<rparr>" "tm_at tk = Some (now + SIMTIME_SECOND)"
    using s0(1) by (rule schedule_tick_Inr)
  then show ?thesis using assms(3) s0(2)
    by (auto simp: stp_handleMessage_def stp_start_def Let_def schedule_tick_def setAllDesignated_def initPortTable_def)
qed

theorem stp_down_at_start_witness:
  "\<exists>s t. stp_initialize e_par 0 (Some False) [(False, 0x0AAA00000002)] [new_PortInfo] () = Inr s
    \<and> stp_handleMessage e_ops SIMTIME_SECOND StpTick s = Inr t
    \<and> stp_handleOperationStage 5 [(False, 0x0AAA00000002)] NodeStartOperation start_STAGE_LINK_LAYER t = Inl NullDeref"
proof -
  obtain s where s: "stp_initialize e_par 0 (Some False) [(False, 0x0AAA00000002)] [new_PortInfo] () = Inr s"
    by (simp add: stp_initialize_def Let_def schedule_tick_def setAllDesignated_def initPortTable_def scheduleAt_def SIMTIME_SECOND_def)
  have c: "chooseInterface [(False, 0x0AAA00000002)] \<noteq> None" by (simp add: chooseInterface_def)
  from stp_down_at_start [OF _ s c, of e_ops 5] show ?thesis using s by auto
qed

end
