(* ===== verification/Ieee8021dRelay.thy ===== *)
theory Ieee8021dRelay
  imports MACRelayUnit Ieee8021d
begin

text \<open>
  \<open>linklayer/ieee8021d/relay/Ieee8021dRelay\<close>, the switch fabric that obeys the states of the ports. It shares the
  methods of the address table with \<open>MACRelayUnit\<close>, always for VLAN 0; the data of the ports belongs to the
  interface table and is an argument, a list with one entry for each port.
\<close>

section \<open>State\<close>

datatype 'a payload = BpduPayload BPDU | DataPayload 'a

record 't drelay =
  drPortCount :: int
  drOperational :: bool
  drStpAware :: bool
  drBridgeAddress :: mac_addr
  drTable :: 't
  numReceivedNetworkFrames :: int
  numDroppedFrames :: int
  numReceivedBPDUsFromSTP :: int
  numDeliveredBDPUsToSTP :: int
  numDispatchedNonBPDUFrames :: int
  numDispatchedBDPUFrames :: int

text \<open>What leaves: a frame on a port, a BPDU for the spanning tree module.\<close>

datatype 'a relay_out = IfOut int "'a payload EtherFrame" | StpOut "'a payload cPacket"

text \<open>
  \<open>initialize\<close>, both stages; \<open>stpIn\<close> is whether the gate is connected. A relay that is down keeps the address of
  the default constructor.
\<close>

definition drelay_initialize ::
    "int \<Rightarrow> int \<Rightarrow> bool option \<Rightarrow> (bool \<times> mac_addr) list \<Rightarrow> bool \<Rightarrow> 't \<Rightarrow> 't drelay res" where
  "drelay_initialize ifIn ifOut status_up ift stpIn table =
     (if ifIn \<noteq> ifOut
      then Inl (RuntimeError ''the sizes of the ifIn[] and ifOut[] gate vectors must be the same'')
      else
        let operational = (case status_up of None \<Rightarrow> True | Some up \<Rightarrow> up);
            r = (\<lambda>a. \<lparr>drPortCount = ifOut, drOperational = operational, drStpAware = stpIn, drBridgeAddress = a,
                      drTable = table, numReceivedNetworkFrames = 0, numDroppedFrames = 0,
                      numReceivedBPDUsFromSTP = 0, numDeliveredBDPUsToSTP = 0, numDispatchedNonBPDUFrames = 0,
                      numDispatchedBDPUFrames = 0\<rparr>)
        in if \<not> operational then Inr (r 0)
           else case chooseInterface ift of
                  None \<Rightarrow> Inl (RuntimeError ''No non-loopback interface found!'')
                | Some a \<Rightarrow> Inr (r a))"

text \<open>\<open>getPortInterfaceData\<close>: NULL for a relay that is not aware of a spanning tree.\<close>

definition dr_portData :: "PortInfo list \<Rightarrow> 't drelay \<Rightarrow> int \<Rightarrow> PortInfo option res" where
  "dr_portData ports r portNum =
     (if drStpAware r
      then if 0 \<le> portNum \<and> portNum < int (length ports) then Inr (Some (ports ! nat portNum))
           else Inl (RuntimeError ''no such gate: ethg$o'')
      else Inr None)"

text \<open>\<open>!isStpAware || portData->isForwarding()\<close>, and the same of \<open>isLearning\<close>.\<close>

definition passes :: "(PortInfo \<Rightarrow> bool) \<Rightarrow> 't drelay \<Rightarrow> PortInfo option \<Rightarrow> bool res" where
  "passes test r portData =
     (if \<not> drStpAware r then Inr True
      else case portData of None \<Rightarrow> Inl NullDeref | Some p \<Rightarrow> Inr (test p))"

section \<open>Frames\<close>

definition dr_dispatch ::
    "'a payload EtherFrame \<Rightarrow> int \<Rightarrow> 't drelay \<times> 'a relay_out list \<Rightarrow> ('t drelay \<times> 'a relay_out list) res" where
  "dr_dispatch frame portNum = (\<lambda>(r, outs).
     if \<not> (0 \<le> portNum \<and> portNum < drPortCount r) then Inl (RuntimeError ''Output port doesn't exist!'')
     else Inr (r\<lparr>numDispatchedNonBPDUFrames := numDispatchedNonBPDUFrames r + 1\<rparr>, outs @ [IfOut portNum frame]))"

definition dr_broadcast_port ::
    "PortInfo list \<Rightarrow> 'a payload EtherFrame \<Rightarrow> int \<Rightarrow> int \<Rightarrow> 't drelay \<times> 'a relay_out list
     \<Rightarrow> ('t drelay \<times> 'a relay_out list) res" where
  "dr_broadcast_port ports frame arrivalGate i = (\<lambda>(r, outs).
     if i = arrivalGate then Inr (r, outs)
     else bindR (dr_portData ports r i) (\<lambda>portData.
          bindR (passes isForwarding r portData) (\<lambda>ok.
            if ok then dr_dispatch frame i (r, outs) else Inr (r, outs))))"

definition dr_broadcast ::
    "PortInfo list \<Rightarrow> 'a payload EtherFrame \<Rightarrow> int \<Rightarrow> 't drelay \<Rightarrow> ('t drelay \<times> 'a relay_out list) res" where
  "dr_broadcast ports frame arrivalGate r =
     iterR (dr_broadcast_port ports frame arrivalGate) [0..drPortCount r - 1] (r, [])"

definition dr_learn ::
    "'t imac \<Rightarrow> simtime \<Rightarrow> PortInfo list \<Rightarrow> 'a payload EtherFrame \<Rightarrow> int \<Rightarrow> 't drelay \<Rightarrow> 't drelay res" where
  "dr_learn ops now ports frame arrivalGate r =
     bindR (dr_portData ports r arrivalGate) (\<lambda>portData.
     bindR (passes isLearning r portData) (\<lambda>ok.
       Inr (if ok then r\<lparr>drTable := snd (im_update ops now arrivalGate (fr_src frame) 0 (drTable r))\<rparr> else r)))"

text \<open>\<open>check_and_cast\<close> fails for an empty frame and for other payloads.\<close>

definition deliverBPDU ::
    "'a payload EtherFrame \<Rightarrow> int \<Rightarrow> 't drelay \<Rightarrow> ('t drelay \<times> 'a relay_out list) res" where
  "deliverBPDU frame arrivalGate r =
     (case fr_encap frame of
        None \<Rightarrow> Inl BadCast
      | Some msg \<Rightarrow>
          (case pk_data msg of
             DataPayload _ \<Rightarrow> Inl BadCast
           | BpduPayload _ \<Rightarrow>
               Inr (r\<lparr>numDeliveredBDPUsToSTP := numDeliveredBDPUsToSTP r + 1\<rparr>,
                    [StpOut (msg\<lparr>pk_ctrl := Some (new_Ieee802Ctrl\<lparr>ctl_src := fr_src frame,
                       ctl_switchPort := arrivalGate, ctl_dest := fr_dest frame\<rparr>)\<rparr>)])))"

definition dr_drop :: "'t drelay \<Rightarrow> 't drelay \<times> 'a relay_out list" where
  "dr_drop r = (r\<lparr>numDroppedFrames := numDroppedFrames r + 1\<rparr>, [])"

text \<open>The address test comes first: only for these addresses is the role of the port looked at.\<close>

definition dr_handleAndDispatchFrame ::
    "'t imac \<Rightarrow> simtime \<Rightarrow> PortInfo list \<Rightarrow> int \<Rightarrow> 'a payload EtherFrame \<Rightarrow> 't drelay \<Rightarrow> ('t drelay \<times> 'a relay_out list) res" where
  "dr_handleAndDispatchFrame ops now ports arrivalGate frame r =
     bindR (dr_portData ports r arrivalGate) (\<lambda>arrivalPortData.
     bindR (dr_learn ops now ports frame arrivalGate r) (\<lambda>r1.
     bindR (if fr_dest frame = STP_MULTICAST_ADDRESS \<or> fr_dest frame = drBridgeAddress r1
            then (case arrivalPortData of None \<Rightarrow> Inl NullDeref | Some p \<Rightarrow> Inr (pi_role p \<noteq> DISABLED))
            else Inr False) (\<lambda>deliver.
     if deliver then deliverBPDU frame arrivalGate r1
     else bindR (passes isForwarding r1 arrivalPortData) (\<lambda>forwarding.
     if \<not> forwarding then Inr (dr_drop r1)
     else if isBroadcast (fr_dest frame) then dr_broadcast ports frame arrivalGate r1
     else
       let (outGate, table2) = im_port ops now (fr_dest frame) 0 (drTable r1);
           r2 = r1\<lparr>drTable := table2\<rparr>
       in if outGate = -1 then dr_broadcast ports frame arrivalGate r2
          else if outGate \<noteq> arrivalGate
          then bindR (dr_portData ports r2 outGate) (\<lambda>outPortData.
               bindR (passes isForwarding r2 outPortData) (\<lambda>ok.
                 if ok then dr_dispatch frame outGate (r2, []) else Inr (dr_drop r2)))
          else Inr (dr_drop r2)))))"

text \<open>\<open>getSwitchPort\<close> is read as an unsigned number. The packet goes into the frame as it is, its control information removed.\<close>

definition dispatchBPDU :: "'a payload cPacket \<Rightarrow> 't drelay \<Rightarrow> ('t drelay \<times> 'a relay_out list) res" where
  "dispatchBPDU bpdu r =
     (case pk_ctrl bpdu of
        None \<Rightarrow> Inl NullDeref
      | Some c \<Rightarrow>
          if ctl_switchPort c < 0 \<or> ctl_switchPort c \<ge> drPortCount r
          then Inl (RuntimeError ''Output port doesn't exist!'')
          else Inr (r\<lparr>numDispatchedBDPUFrames := numDispatchedBDPUFrames r + 1\<rparr>,
                 [IfOut (ctl_switchPort c)
                    (pad_frame (encapsulate
                      (new_frame (drBridgeAddress r) (ctl_dest c) (EthernetIIFrame (-1)) ETHER_MAC_FRAME_BYTES)
                      (bpdu\<lparr>pk_ctrl := None\<rparr>)))]))"

section \<open>Messages and life cycle\<close>

datatype 'a relay_msg = RelayFromSTP "'a payload cPacket" | RelayFromNetwork int "'a payload EtherTraffic" | RelaySelfMessage

definition drelay_handleMessage ::
    "'t imac \<Rightarrow> simtime \<Rightarrow> PortInfo list \<Rightarrow> 'a relay_msg \<Rightarrow> 't drelay \<Rightarrow> ('t drelay \<times> 'a relay_out list) res" where
  "drelay_handleMessage ops now ports msg r =
     (if \<not> drOperational r then Inr (r, [])
      else case msg of
        RelaySelfMessage \<Rightarrow> Inl (RuntimeError ''This module doesn't handle self-messages!'')
      | RelayFromSTP pk \<Rightarrow>
          (case pk_data pk of
             DataPayload _ \<Rightarrow> Inl BadCast
           | BpduPayload _ \<Rightarrow> dispatchBPDU pk (r\<lparr>numReceivedBPDUsFromSTP := numReceivedBPDUsFromSTP r + 1\<rparr>))
      | RelayFromNetwork arrivalGate traffic \<Rightarrow>
          (case traffic of
             EtherFrameMsg frame \<Rightarrow>
               dr_handleAndDispatchFrame ops now ports arrivalGate frame
                 (r\<lparr>numReceivedNetworkFrames := numReceivedNetworkFrames r + 1\<rparr>)
           | _ \<Rightarrow> Inl BadCast))"

definition drelay_start :: "'t imac \<Rightarrow> (bool \<times> mac_addr) list \<Rightarrow> 't drelay \<Rightarrow> 't drelay res" where
  "drelay_start ops ift r =
     (case chooseInterface ift of
        None \<Rightarrow> Inl (RuntimeError ''No non-loopback interface found!'')
      | Some a \<Rightarrow> Inr (r\<lparr>drOperational := True, drBridgeAddress := a, drTable := im_clear ops (drTable r)\<rparr>))"

definition drelay_stop :: "'t imac \<Rightarrow> 't drelay \<Rightarrow> 't drelay" where
  "drelay_stop ops r = r\<lparr>drOperational := False, drTable := im_clear ops (drTable r)\<rparr>"

fun drelay_handleOperationStage ::
    "'t imac \<Rightarrow> (bool \<times> mac_addr) list \<Rightarrow> LifecycleOperation \<Rightarrow> nat \<Rightarrow> 't drelay \<Rightarrow> 't drelay res" where
  "drelay_handleOperationStage ops ift NodeStartOperation stage r =
     (if stage = start_STAGE_LINK_LAYER then drelay_start ops ift r else Inr r)"
| "drelay_handleOperationStage ops ift NodeShutdownOperation stage r =
     (if stage = shutdown_STAGE_LINK_LAYER then Inr (drelay_stop ops r) else Inr r)"
| "drelay_handleOperationStage ops ift NodeCrashOperation stage r =
     (if stage = crash_STAGE_CRASH then Inr (drelay_stop ops r) else Inr r)"
| "drelay_handleOperationStage ops ift OtherOperation stage r = Inl (RuntimeError ''Unsupported operation'')"

section \<open>What a frame does\<close>

text \<open>A port lets frames through if it is forwarding, or if the relay does not look.\<close>

definition port_open :: "PortInfo list \<Rightarrow> 't drelay \<Rightarrow> int \<Rightarrow> bool" where
  "port_open ports r i \<longleftrightarrow> \<not> drStpAware r \<or> isForwarding (ports ! nat i)"

definition port_learns :: "PortInfo list \<Rightarrow> 't drelay \<Rightarrow> int \<Rightarrow> bool" where
  "port_learns ports r i \<longleftrightarrow> \<not> drStpAware r \<or> isLearning (ports ! nat i)"

definition ports_match :: "PortInfo list \<Rightarrow> 't drelay \<Rightarrow> bool" where
  "ports_match ports r \<longleftrightarrow> (drStpAware r \<longrightarrow> int (length ports) = drPortCount r)"

definition learnt :: "'t imac \<Rightarrow> simtime \<Rightarrow> PortInfo list \<Rightarrow> int \<Rightarrow> 'a payload EtherFrame \<Rightarrow> 't drelay \<Rightarrow> 't" where
  "learnt ops now ports a frame r =
     (if port_learns ports r a then snd (im_update ops now a (fr_src frame) 0 (drTable r)) else drTable r)"

lemma dr_portData_ok:
  assumes "ports_match ports r" and "0 \<le> i" and "i < drPortCount r"
  shows "dr_portData ports r i = Inr (if drStpAware r then Some (ports ! nat i) else None)"
  using assms by (simp add: dr_portData_def ports_match_def)

lemma passes_port:
  "passes isForwarding r (if drStpAware r then Some (ports ! nat i) else None) = Inr (port_open ports r i)"
  "passes isLearning r (if drStpAware r then Some (ports ! nat i) else None) = Inr (port_learns ports r i)"
  by (simp_all add: passes_def port_open_def port_learns_def)

lemma dr_learn_ok:
  assumes "ports_match ports r" and "0 \<le> a" and "a < drPortCount r"
  shows "dr_learn ops now ports frame a r = Inr (r\<lparr>drTable := learnt ops now ports a frame r\<rparr>)"
  by (simp add: dr_learn_def dr_portData_ok [OF assms] passes_port learnt_def)

lemma port_open_cong [simp]:
  "port_open ports (r\<lparr>drTable := t\<rparr>) = port_open ports r"
  "port_open ports (r\<lparr>numDispatchedNonBPDUFrames := k\<rparr>) = port_open ports r"
  "ports_match ports (r\<lparr>drTable := t\<rparr>) = ports_match ports r"
  "ports_match ports (r\<lparr>numDispatchedNonBPDUFrames := k\<rparr>) = ports_match ports r"
  by (simp_all add: port_open_def ports_match_def fun_eq_iff)

text \<open>\<open>broadcast\<close> reaches every open port but the one the frame came from.\<close>

lemma dr_broadcast_ports:
  assumes "ports_match ports r" and "set is \<subseteq> {0..<drPortCount r}"
  shows "iterR (dr_broadcast_port ports frame a) is (r, outs) =
    (let go = filter (\<lambda>i. i \<noteq> a \<and> port_open ports r i) is
     in Inr (r\<lparr>numDispatchedNonBPDUFrames := numDispatchedNonBPDUFrames r + int (length go)\<rparr>,
             outs @ map (\<lambda>i. IfOut i frame) go))"
  using assms
proof (induction "is" arbitrary: r outs)
  case (Cons i "is")
  then have i: "0 \<le> i" "i < drPortCount r" "set is \<subseteq> {0..<drPortCount r}" by auto
  have d: "dr_portData ports r i = Inr (if drStpAware r then Some (ports ! nat i) else None)"
    by (rule dr_portData_ok [OF Cons.prems(1) i(1,2)])
  show ?case
    using Cons.IH [of r] Cons.IH [of "r\<lparr>numDispatchedNonBPDUFrames := numDispatchedNonBPDUFrames r + 1\<rparr>"] i Cons.prems(1)
    by (simp add: dr_broadcast_port_def d passes_port dr_dispatch_def Let_def)
qed simp

lemma dr_broadcast_eq:
  assumes "ports_match ports r"
  shows "\<exists>k. dr_broadcast ports frame a r = Inr (r\<lparr>numDispatchedNonBPDUFrames := k\<rparr>,
    map (\<lambda>i. IfOut i frame) (filter (\<lambda>i. i \<noteq> a \<and> port_open ports r i) [0..drPortCount r - 1]))"
  unfolding dr_broadcast_def by (subst dr_broadcast_ports [OF assms]) (auto simp: Let_def)

definition for_switch :: "'t drelay \<Rightarrow> 'a payload EtherFrame \<Rightarrow> bool" where
  "for_switch r frame \<longleftrightarrow> fr_dest frame = STP_MULTICAST_ADDRESS \<or> fr_dest frame = drBridgeAddress r"

context address_table
begin

definition dr_ok :: "'t drelay \<Rightarrow> bool" where
  "dr_ok r \<longleftrightarrow> ok (drTable r) \<and> set (ports_of 0 (drTable r)) \<subseteq> {0..<drPortCount r}"

text \<open>The ports that are meant: all for a broadcast and for an unknown address.\<close>

definition meant_ports :: "simtime \<Rightarrow> 'a payload EtherFrame \<Rightarrow> int \<Rightarrow> 't \<Rightarrow> int list" where
  "meant_ports now frame n t =
     (if isBroadcast (fr_dest frame) then [0..n - 1]
      else case port_of now t 0 (fr_dest frame) of None \<Rightarrow> [0..n - 1] | Some p \<Rightarrow> [p])"

lemma dr_ok_learnt:
  assumes "dr_ok r" and "0 \<le> a" and "a < drPortCount r"
  shows "dr_ok (r\<lparr>drTable := learnt ops now ports a frame r\<rparr>)"
  using assms update_ok [of "drTable r"] update_ports [of "drTable r" 0 now a "fr_src frame" 0]
  by (auto simp: dr_ok_def learnt_def)

lemma dr_ok_port:
  assumes "dr_ok r"
  shows "dr_ok (r\<lparr>drTable := snd (im_port ops now b 0 (drTable r))\<rparr>)"
  using assms port_ok [of "drTable r"] port_ports [of "drTable r" 0 now b 0] by (auto simp: dr_ok_def)

lemma dr_ok_counters [simp]:
  "dr_ok (r\<lparr>numDispatchedNonBPDUFrames := k\<rparr>) = dr_ok r" "dr_ok (r\<lparr>numDroppedFrames := k\<rparr>) = dr_ok r"
  "dr_ok (r\<lparr>numDeliveredBDPUsToSTP := k\<rparr>) = dr_ok r" "dr_ok (r\<lparr>numReceivedNetworkFrames := k\<rparr>) = dr_ok r"
  "dr_ok (r\<lparr>numReceivedBPDUsFromSTP := k\<rparr>) = dr_ok r" "dr_ok (r\<lparr>numDispatchedBDPUFrames := k\<rparr>) = dr_ok r"
  by (simp_all add: dr_ok_def)

text \<open>Every frame that is not for the switch itself, or comes in on a disabled port, is handled; where it goes.\<close>

lemma dr_data_frame:
  fixes now :: simtime
  assumes ok: "dr_ok r" and m: "ports_match ports r" and a: "0 \<le> a" "a < drPortCount r"
    and d: "for_switch r frame \<Longrightarrow> drStpAware r \<and> pi_role (ports ! nat a) = DISABLED"
  defines "t1 \<equiv> learnt ops now ports a frame r"
  defines "go \<equiv> if port_open ports r a then meant_ports now frame (drPortCount r) t1 else []"
  obtains r' where "dr_handleAndDispatchFrame ops now ports a frame r =
      Inr (r', map (\<lambda>p. IfOut p frame) (filter (\<lambda>p. p \<noteq> a \<and> port_open ports r p) go))"
    and "dr_ok r'" and "drTable r' = t1 \<or> drTable r' = snd (im_port ops now (fr_dest frame) 0 t1)"
    and "drPortCount r' = drPortCount r"
proof -
  define r1 where "r1 = r\<lparr>drTable := t1\<rparr>"
  have ok1: "dr_ok r1" using dr_ok_learnt [OF ok a] by (simp add: r1_def t1_def)
  have m1: "ports_match ports r1" "port_open ports r1 = port_open ports r" "drPortCount r1 = drPortCount r"
    using m by (simp_all add: r1_def)
  have pd: "dr_portData ports r a = Inr (if drStpAware r then Some (ports ! nat a) else None)" by (rule dr_portData_ok [OF m a])
  have L: "dr_learn ops now ports frame a r = Inr r1" using dr_learn_ok [OF m a] by (simp add: r1_def t1_def)
  have aw: "drStpAware r1 = drStpAware r" "drBridgeAddress r1 = drBridgeAddress r" "drTable r1 = t1" by (simp_all add: r1_def)
  have f: "passes isForwarding r1 (if drStpAware r then Some (ports ! nat a) else None) = Inr (port_open ports r a)"
    using passes_port(1) [of r1 ports a] aw by (simp add: port_open_def)
  have sw: "(if fr_dest frame = STP_MULTICAST_ADDRESS \<or> fr_dest frame = drBridgeAddress r
      then (case if drStpAware r then Some (ports ! nat a) else None of None \<Rightarrow> Inl NullDeref | Some p \<Rightarrow> Inr (pi_role p \<noteq> DISABLED))
      else Inr False) = Inr False"
    using d by (auto simp: for_switch_def)
  note start = dr_handleAndDispatchFrame_def pd L f sw aw
  consider "\<not> port_open ports r a" | "port_open ports r a" "isBroadcast (fr_dest frame)"
    | "port_open ports r a" "\<not> isBroadcast (fr_dest frame)" by blast
  then show thesis
  proof cases
    case 1
    then show ?thesis using that [of "fst (dr_drop r1)"] ok1 by (simp add: start dr_drop_def go_def aw m1)
  next
    case 2
    obtain k where k: "dr_broadcast ports frame a r1 = Inr (r1\<lparr>numDispatchedNonBPDUFrames := k\<rparr>,
        map (\<lambda>i. IfOut i frame) (filter (\<lambda>i. i \<noteq> a \<and> port_open ports r i) [0..drPortCount r - 1]))"
      using dr_broadcast_eq [OF m1(1), of frame a] m1 by auto
    then show ?thesis using that [of "r1\<lparr>numDispatchedNonBPDUFrames := k\<rparr>"] 2 ok1
      by (simp add: start go_def meant_ports_def m1 aw)
  next
    case 3
    define r2 where "r2 = r1\<lparr>drTable := snd (im_port ops now (fr_dest frame) 0 t1)\<rparr>"
    obtain q t2 where q: "im_port ops now (fr_dest frame) 0 t1 = (q, t2)" by fastforce
    have r2: "r2 = r1\<lparr>drTable := t2\<rparr>" by (simp add: r2_def q)
    have ok2: "dr_ok r2" using dr_ok_port [OF ok1] by (simp add: r2_def aw)
    have m2: "ports_match ports r2" "port_open ports r2 = port_open ports r" "drPortCount r2 = drPortCount r"
      "drStpAware r2 = drStpAware r" using m1 aw by (simp_all add: r2_def)
    have qr: "q = (case port_of now t1 0 (fr_dest frame) of None \<Rightarrow> -1 | Some p \<Rightarrow> p)"
      using port_result [of t1 now "fr_dest frame" 0] ok1 q by (simp add: dr_ok_def aw)
    have t2: "drTable r2 = snd (im_port ops now (fr_dest frame) 0 t1)" by (simp add: r2_def)
    show ?thesis
    proof (cases "port_of now t1 0 (fr_dest frame)")
      case None
      obtain k where k: "dr_broadcast ports frame a r2 = Inr (r2\<lparr>numDispatchedNonBPDUFrames := k\<rparr>,
          map (\<lambda>i. IfOut i frame) (filter (\<lambda>i. i \<noteq> a \<and> port_open ports r i) [0..drPortCount r - 1]))"
        using dr_broadcast_eq [OF m2(1), of frame a] m2 by auto
      then show ?thesis using that [of "r2\<lparr>numDispatchedNonBPDUFrames := k\<rparr>"] 3 ok2 None qr t2
        by (simp add: start go_def meant_ports_def q r2 [symmetric] m2)
    next
      case (Some p)
      have p: "0 \<le> p" "p < drPortCount r"
        using port_of_ports [OF _ Some] ok1 m1(3) by (auto simp: dr_ok_def aw)
      have np: "p \<noteq> -1" using p by simp
      have pp: "dr_portData ports r2 p = Inr (if drStpAware r2 then Some (ports ! nat p) else None)"
        by (rule dr_portData_ok [OF m2(1)]) (use p m2 in simp_all)
      have ps: "passes isForwarding r2 (if drStpAware r2 then Some (ports ! nat p) else None) = Inr (port_open ports r p)"
        using passes_port(1) [of r2 ports p] by (simp add: m2)
      note go = start go_def meant_ports_def q r2 [symmetric] m2(3)
      show ?thesis
      proof (cases "p \<noteq> a \<and> port_open ports r p")
        case True
        then show ?thesis
          using that [of "r2\<lparr>numDispatchedNonBPDUFrames := numDispatchedNonBPDUFrames r2 + 1\<rparr>"] 3 ok2 Some qr t2 p
          by (simp add: go pp ps dr_dispatch_def)
      next
        case False
        then have "dr_handleAndDispatchFrame ops now ports a frame r = Inr (dr_drop r2)"
          using 3 Some qr np by (cases "p = a") (simp_all add: go pp ps)
        moreover have "filter (\<lambda>p. p \<noteq> a \<and> port_open ports r p) go = []"
          using False 3 Some by (simp add: go_def meant_ports_def)
        ultimately show ?thesis using that [of "fst (dr_drop r2)"] ok2 t2 m2(3) by (simp add: dr_drop_def)
      qed
    qed
  qed
qed

text \<open>Learning: the port of the source is found again while the entry lives.\<close>

lemma dr_learns:
  assumes "dr_ok r" and "ports_match ports r" and "0 \<le> a" and "a < drPortCount r"
    and d: "for_switch r frame \<Longrightarrow> drStpAware r \<and> pi_role (ports ! nat a) = DISABLED"
    and h: "dr_handleAndDispatchFrame ops now ports a frame r = Inr (r', outs)" and now: "now \<le> later"
  shows "port_learns ports r a \<Longrightarrow> \<not> isBroadcast (fr_src frame) \<Longrightarrow> later < now + lifetime (drTable r) \<Longrightarrow>
      port_of later (drTable r') 0 (fr_src frame) = Some a"
    and "\<not> port_learns ports r a \<or> b \<noteq> fr_src frame \<Longrightarrow> port_of later (drTable r') 0 b = port_of later (drTable r) 0 b"
proof -
  define t1 where "t1 = learnt ops now ports a frame r"
  have ok: "ok (drTable r)" "ok t1" using assms(1) dr_ok_learnt [OF assms(1,3,4), of now ports frame] by (simp_all add: dr_ok_def t1_def)
  have "drTable r' = t1 \<or> drTable r' = snd (im_port ops now (fr_dest frame) 0 t1)"
    by (rule dr_data_frame [OF assms(1-4) d, where now = now]) (use h in \<open>auto simp: t1_def\<close>)
  then have p: "port_of later (drTable r') 0 c = port_of later t1 0 c" for c using port_keeps [OF ok(2) now] by auto
  show "port_of later (drTable r') 0 (fr_src frame) = Some a"
    if "port_learns ports r a" "\<not> isBroadcast (fr_src frame)" "later < now + lifetime (drTable r)"
    using that update_learns [OF ok(1) that(2) now that(3)] p by (simp add: t1_def learnt_def)
  show "port_of later (drTable r') 0 b = port_of later (drTable r) 0 b" if "\<not> port_learns ports r a \<or> b \<noteq> fr_src frame"
    using that update_keeps [OF ok(1) now, of 0 0 b "fr_src frame" a] p by (auto simp: t1_def learnt_def)
qed

end

section \<open>Runs\<close>

text \<open>
  The relay of a switch with \<open>n\<close> ports, and the states of the ports it finds as each message arrives. Data packets
  do not carry the addresses of the spanning tree module, and BPDUs carry them.
\<close>

definition well_addressed :: "'t drelay \<Rightarrow> 'a payload EtherFrame \<Rightarrow> bool" where
  "well_addressed r frame \<longleftrightarrow> (for_switch r frame \<longrightarrow>
     drStpAware r \<and> (case fr_encap frame of None \<Rightarrow> False | Some pk \<Rightarrow> (case pk_data pk of BpduPayload _ \<Rightarrow> True | DataPayload _ \<Rightarrow> False)))"

fun dr_arrives :: "PortInfo list \<Rightarrow> 'a relay_msg \<Rightarrow> 't drelay \<Rightarrow> bool" where
  "dr_arrives ports (RelayFromSTP pk) r \<longleftrightarrow>
     (case pk_data pk of BpduPayload _ \<Rightarrow> True | DataPayload _ \<Rightarrow> False)
     \<and> (case pk_ctrl pk of None \<Rightarrow> False | Some c \<Rightarrow> 0 \<le> ctl_switchPort c \<and> ctl_switchPort c < drPortCount r)"
| "dr_arrives ports (RelayFromNetwork a (EtherFrameMsg frame)) r \<longleftrightarrow>
     0 \<le> a \<and> a < drPortCount r \<and> ports_match ports r \<and> well_addressed r frame"
| "dr_arrives ports _ r \<longleftrightarrow> False"

inductive drelay_reach :: "int \<Rightarrow> simtime \<Rightarrow> mac_table drelay \<Rightarrow> 'a relay_out list \<Rightarrow> bool" for n aging where
  init: "0 < n \<Longrightarrow> drelay_initialize n n up ift stpIn (mt_new aging) = Inr r \<Longrightarrow> drelay_reach n aging r []"
| message: "drelay_reach n aging r sent \<Longrightarrow> dr_arrives ports msg r \<Longrightarrow>
    drelay_handleMessage table_ops now ports msg r = Inr (r', outs) \<Longrightarrow> drelay_reach n aging r' (sent @ outs)"
| operation: "drelay_reach n aging r sent \<Longrightarrow>
    drelay_handleOperationStage table_ops ift op stage r = Inr r' \<Longrightarrow> drelay_reach n aging r' sent"

context address_table
begin

text \<open>A frame for the switch itself: the BPDU is delivered, unless the port is disabled and forwards nothing.\<close>

lemma dr_switch_frame:
  fixes now :: simtime
  assumes ok: "dr_ok r" and m: "ports_match ports r" and a: "0 \<le> a" "a < drPortCount r" and d: "for_switch r frame"
    and w: "well_addressed r frame" and role: "pi_role (ports ! nat a) \<noteq> DISABLED"
  obtains r' pk where "fr_encap frame = Some pk" and "dr_ok r'" and "drPortCount r' = drPortCount r"
    and "dr_handleAndDispatchFrame ops now ports a frame r = Inr (r',
      [StpOut (pk\<lparr>pk_ctrl := Some (new_Ieee802Ctrl\<lparr>ctl_src := fr_src frame, ctl_switchPort := a, ctl_dest := fr_dest frame\<rparr>)\<rparr>)])"
proof -
  define r1 where "r1 = r\<lparr>drTable := learnt ops now ports a frame r\<rparr>"
  have aw: "drStpAware r" using w d by (simp add: well_addressed_def)
  obtain pk b where pk: "fr_encap frame = Some pk" "pk_data pk = BpduPayload b"
    using w d by (auto simp: well_addressed_def split: option.splits payload.splits)
  have pd: "dr_portData ports r a = Inr (Some (ports ! nat a))" using dr_portData_ok [OF m a] aw by simp
  have L: "dr_learn ops now ports frame a r = Inr r1" using dr_learn_ok [OF m a] by (simp add: r1_def)
  have "dr_handleAndDispatchFrame ops now ports a frame r = deliverBPDU frame a r1"
    using d role by (simp add: dr_handleAndDispatchFrame_def pd L for_switch_def r1_def)
  moreover have "dr_ok r1" "drPortCount r1 = drPortCount r" using dr_ok_learnt [OF ok a] by (simp_all add: r1_def)
  ultimately show thesis
    using that [of pk "r1\<lparr>numDeliveredBDPUsToSTP := numDeliveredBDPUsToSTP r1 + 1\<rparr>"] pk by (simp add: deliverBPDU_def)
qed

end

lemma dr_arrives_handled:
  assumes ok: "mt.dr_ok r" and a: "dr_arrives ports msg r"
  obtains r' outs where "drelay_handleMessage table_ops now ports msg r = Inr (r', outs)" and "mt.dr_ok r'"
    and "drPortCount r' = drPortCount r"
proof (cases "drOperational r")
  case False
  then show thesis using that [of r "[]"] ok by (simp add: drelay_handleMessage_def)
next
  case True
  show thesis
  proof (cases msg)
    case (RelayFromSTP pk)
    then show thesis using that ok a True
      by (auto simp: drelay_handleMessage_def dispatchBPDU_def split: payload.splits option.splits)
  next
    case (RelayFromNetwork g traffic)
    then obtain frame where f: "traffic = EtherFrameMsg frame" using a by (cases traffic) auto
    define r0 where "r0 = r\<lparr>numReceivedNetworkFrames := numReceivedNetworkFrames r + 1\<rparr>"
    have h: "drelay_handleMessage table_ops now ports msg r = dr_handleAndDispatchFrame table_ops now ports g frame r0"
      using True RelayFromNetwork f by (simp add: drelay_handleMessage_def r0_def)
    have r0: "mt.dr_ok r0" "ports_match ports r0" "0 \<le> g" "g < drPortCount r0" "well_addressed r0 frame" "drPortCount r0 = drPortCount r"
      using a ok RelayFromNetwork f by (simp_all add: r0_def ports_match_def well_addressed_def for_switch_def)
    show thesis
    proof (cases "for_switch r0 frame \<and> pi_role (ports ! nat g) \<noteq> DISABLED")
      case True
      then obtain r1 pk where "mt.dr_ok r1" "drPortCount r1 = drPortCount r0"
          "dr_handleAndDispatchFrame table_ops now ports g frame r0 = Inr (r1, [StpOut (pk\<lparr>pk_ctrl :=
             Some (new_Ieee802Ctrl\<lparr>ctl_src := fr_src frame, ctl_switchPort := g, ctl_dest := fr_dest frame\<rparr>)\<rparr>)])"
        using mt.dr_switch_frame [OF r0(1-4) _ r0(5), of now] by metis
      then show thesis using that by (simp only: h r0(6))
    next
      case False
      then have d: "for_switch r0 frame \<Longrightarrow> drStpAware r0 \<and> pi_role (ports ! nat g) = DISABLED"
        using r0(5) by (simp add: well_addressed_def)
      obtain r1 outs where "mt.dr_ok r1" "drPortCount r1 = drPortCount r0"
          "dr_handleAndDispatchFrame table_ops now ports g frame r0 = Inr (r1, outs)"
        by (rule mt.dr_data_frame [OF r0(1-4) d])
      then show thesis using that by (simp only: h r0(6))
    qed
  qed (use a in simp)
qed

lemma drelay_reach_ok: "drelay_reach n aging r sent \<Longrightarrow> mt.dr_ok r \<and> drPortCount r = n"
proof (induction rule: drelay_reach.induct)
  case (init up ift stpIn r)
  have "table_ports 0 (mt_new aging) = []" by (simp add: table_ports_def mt_new_def cell_def)
  with init show ?case by (auto simp: drelay_initialize_def mt.dr_ok_def Let_def split: if_splits option.splits)
next
  case (message r sent ports msg now r' outs)
  then show ?case using dr_arrives_handled [of r ports msg now] by force
next
  case (operation r sent ift op stage r')
  then show ?case
    using mt.clear_ok [of "drTable r" 0]
    by (cases op) (auto simp: drelay_start_def drelay_stop_def mt.dr_ok_def split: if_splits option.splits)
qed

section \<open>Obeying the states of the ports\<close>

text \<open>A frame sent on to a forwarding port.\<close>

fun sent_on :: "PortInfo list \<Rightarrow> int \<Rightarrow> int \<Rightarrow> 'a payload EtherFrame \<Rightarrow> 'a relay_out \<Rightarrow> bool" where
  "sent_on ports n a frame (IfOut p f) \<longleftrightarrow> f = frame \<and> p \<noteq> a \<and> 0 \<le> p \<and> p < n \<and> isForwarding (ports ! nat p)"
| "sent_on ports n a frame (StpOut pk) \<longleftrightarrow> False"

lemma dr_portData_aware:
  "drStpAware r \<Longrightarrow> dr_portData ports r i = Inr pd \<Longrightarrow> pd = Some (ports ! nat i)"
  by (auto simp: dr_portData_def split: if_splits)

lemma passes_aware: "drStpAware r \<Longrightarrow> passes test r (Some p) = Inr (test p)"
  by (simp add: passes_def)

lemma aware_pass:
  assumes "bindR (dr_portData ports r i) (\<lambda>pd. bindR (passes test r pd) f) = Inr y" and "drStpAware r"
  shows "f (test (ports ! nat i)) = Inr y"
proof -
  obtain pd x where "dr_portData ports r i = Inr pd" "passes test r pd = Inr x" "f x = Inr y"
    using assms(1) by (auto simp: bindR_Inr_iff)
  then show ?thesis using dr_portData_aware [OF assms(2)] passes_aware [OF assms(2), of test] by fastforce
qed

lemma dr_dispatch_Inr:
  "dr_dispatch frame i (r, outs) = Inr (q, outs') \<longleftrightarrow> 0 \<le> i \<and> i < drPortCount r
     \<and> q = r\<lparr>numDispatchedNonBPDUFrames := numDispatchedNonBPDUFrames r + 1\<rparr> \<and> outs' = outs @ [IfOut i frame]"
  by (auto simp: dr_dispatch_def)

lemma dr_broadcast_sent_on:
  fixes r :: "'t drelay" and frame :: "'a payload EtherFrame"
  assumes "dr_broadcast ports frame a r = Inr (r', outs)" and "drStpAware r"
  shows "\<forall>out \<in> set outs. sent_on ports (drPortCount r) a frame out"
proof -
  let ?P = "\<lambda>(q, os). drStpAware q \<and> drPortCount q = drPortCount r \<and> (\<forall>out \<in> set os. sent_on ports (drPortCount r) a frame out)"
  have "?P (r', outs)"
  proof (rule iterR_keeps [OF assms(1) [unfolded dr_broadcast_def]])
    fix i and x y :: "'t drelay \<times> 'a relay_out list"
    obtain q os where x: "x = (q, os)" by fastforce
    assume h: "dr_broadcast_port ports frame a i x = Inr y" and P: "?P x"
    show "?P y"
    proof (cases "i = a")
      case True
      then show ?thesis using h P by (auto simp: dr_broadcast_port_def x)
    next
      case False
      then have "y = (q, os) \<or> isForwarding (ports ! nat i) \<and> dr_dispatch frame i (q, os) = Inr y"
        using h P by (auto simp: dr_broadcast_port_def x dest!: aware_pass split: if_splits)
      then show ?thesis using P False by (cases y) (auto simp: x dr_dispatch_Inr)
    qed
  qed (use assms(2) in simp)
  then show ?thesis by simp
qed

lemma dr_learn_Inr: "dr_learn ops now ports frame a r = Inr r1 \<Longrightarrow> \<exists>t. r1 = r\<lparr>drTable := t\<rparr>"
proof -
  assume "dr_learn ops now ports frame a r = Inr r1"
  then have "r1 = r\<lparr>drTable := snd (im_update ops now a (fr_src frame) 0 (drTable r))\<rparr> \<or> r1 = r\<lparr>drTable := drTable r\<rparr>"
    by (auto simp: dr_learn_def bindR_Inr_iff)
  then show ?thesis by blast
qed

lemma dr_frame_outs:
  assumes h: "dr_handleAndDispatchFrame ops now ports a frame r = Inr (r', outs)" and aw: "drStpAware r"
  shows "(for_switch r frame \<and> pi_role (ports ! nat a) \<noteq> DISABLED
      \<and> (\<exists>pk c. fr_encap frame = Some pk \<and> outs = [StpOut (pk\<lparr>pk_ctrl := Some c\<rparr>)]))
    \<or> (for_switch r frame \<longrightarrow> pi_role (ports ! nat a) = DISABLED)
      \<and> (outs = [] \<or> isForwarding (ports ! nat a) \<and> (\<forall>out \<in> set outs. sent_on ports (drPortCount r) a frame out))"
proof -
  have pd: "dr_portData ports r a = Inr (Some (ports ! nat a))"
    using h dr_portData_aware [OF aw] by (auto simp: dr_handleAndDispatchFrame_def bindR_Inr_iff)
  obtain t1 where L: "dr_learn ops now ports frame a r = Inr (r\<lparr>drTable := t1\<rparr>)"
    using h dr_learn_Inr by (fastforce simp: dr_handleAndDispatchFrame_def bindR_Inr_iff)
  have [simp]: "passes test (r\<lparr>drTable := t\<rparr>) (Some p) = Inr (test p)" for test t p using aw by (simp add: passes_def)
  show ?thesis
  proof (cases "for_switch r frame \<and> pi_role (ports ! nat a) \<noteq> DISABLED")
    case True
    then have "deliverBPDU frame a (r\<lparr>drTable := t1\<rparr>) = Inr (r', outs)"
      using h by (simp add: dr_handleAndDispatchFrame_def pd L for_switch_def)
    then show ?thesis using True by (auto simp: deliverBPDU_def split: option.splits payload.splits)
  next
    case F: False
    have sw: "(if fr_dest frame = STP_MULTICAST_ADDRESS \<or> fr_dest frame = drBridgeAddress (r\<lparr>drTable := t1\<rparr>)
        then (case Some (ports ! nat a) of None \<Rightarrow> Inl NullDeref | Some p \<Rightarrow> Inr (pi_role p \<noteq> DISABLED))
        else Inr False) = Inr False"
      using F by (auto simp: for_switch_def)
    note h1 = h [unfolded dr_handleAndDispatchFrame_def pd bindR.simps L sw if_False]
    obtain q t2 where q: "im_port ops now (fr_dest frame) 0 t1 = (q, t2)" by fastforce
    have "outs = [] \<or> isForwarding (ports ! nat a) \<and> (\<forall>out \<in> set outs. sent_on ports (drPortCount r) a frame out)"
    proof (cases "isForwarding (ports ! nat a)")
      case False
      then show ?thesis using h1 by (simp add: dr_drop_def)
    next
      case True
      have b: "\<forall>out \<in> set outs. sent_on ports (drPortCount r) a frame out"
        if "dr_broadcast ports frame a (r\<lparr>drTable := t\<rparr>) = Inr (r', outs)" for t
        using dr_broadcast_sent_on [OF that] aw by simp
      have "outs = [] \<or> (\<forall>out \<in> set outs. sent_on ports (drPortCount r) a frame out)"
      proof (cases "isBroadcast (fr_dest frame) \<or> q = -1")
        case True
        then show ?thesis using h1 b \<open>isForwarding _\<close> by (auto simp: q split: if_splits)
      next
        case False
        have aw2: "drStpAware (r\<lparr>drTable := t2\<rparr>)" using aw by simp
        show ?thesis using h1 \<open>isForwarding _\<close> False
          by (auto simp: q dr_dispatch_Inr dr_drop_def Let_def dest!: aware_pass [OF _ aw2] split: if_splits)
      qed
      then show ?thesis using True by blast
    qed
    then show ?thesis using F by blast
  qed
qed

section \<open>An example\<close>

text \<open>An aware relay with three ports; the third is blocked.\<close>

definition x_ports :: "PortInfo list" where
  "x_ports = [new_PortInfo\<lparr>pi_role := DESIGNATED\<rparr>, new_PortInfo\<lparr>pi_role := ROOT\<rparr>,
              new_PortInfo\<lparr>pi_role := ALTERNATE, pi_state := DISCARDING\<rparr>]"

definition x_relay :: "bool \<Rightarrow> mac_table drelay" where
  "x_relay aware = \<lparr>drPortCount = 3, drOperational = True, drStpAware = aware, drBridgeAddress = 0x0AAA00000001,
     drTable = mt_new 120000000000000, numReceivedNetworkFrames = 0, numDroppedFrames = 0,
     numReceivedBPDUsFromSTP = 0, numDeliveredBDPUsToSTP = 0, numDispatchedNonBPDUFrames = 0,
     numDispatchedBDPUFrames = 0\<rparr>"

definition x_frame :: "unit payload EtherFrame" where
  "x_frame = encapsulate (new_frame 0x0AAA00000011 BROADCAST_ADDRESS (EthernetIIFrame 0x88B8) 18)
     \<lparr>pk_kind = 0, pk_byteLength = 46, pk_ctrl = None, pk_data = DataPayload ()\<rparr>"

definition x_bpdu :: "unit payload cPacket" where
  "x_bpdu = \<lparr>pk_kind = 0, pk_byteLength = 0,
     pk_ctrl = Some (new_Ieee802Ctrl\<lparr>ctl_dest := STP_MULTICAST_ADDRESS, ctl_switchPort := 1\<rparr>),
     pk_data = BpduPayload new_BPDU\<rparr>"

lemma x_init: "drelay_initialize 3 3 None [(False, 0x0AAA00000001)] aware (mt_new 120000000000000) = Inr (x_relay aware)"
  by (simp add: drelay_initialize_def x_relay_def chooseInterface_def)

lemma x_reach: "drelay_reach 3 120000000000000 (x_relay aware) []"
  by (rule drelay_reach.init [OF _ x_init]) simp

lemma x_broadcast:
  obtains r' where "drelay_handleMessage table_ops 0 x_ports (RelayFromNetwork 0 (EtherFrameMsg x_frame)) (x_relay True) =
    Inr (r', [IfOut 1 x_frame])"
proof -
  let ?r = "x_relay True\<lparr>numReceivedNetworkFrames := 1\<rparr>"
  have p: "drOperational (x_relay True)" "ports_match x_ports ?r" "\<not> for_switch ?r x_frame"
    "numReceivedNetworkFrames (x_relay True) = 0" "drPortCount ?r = 3"
    by (simp_all add: x_relay_def ports_match_def x_ports_def for_switch_def x_frame_def BROADCAST_ADDRESS_def STP_MULTICAST_ADDRESS_def MAC_ADDRESS_MASK_def)
  have ok: "mt.dr_ok ?r" using drelay_reach_ok [OF x_reach [of True]] by simp
  have q: "isBroadcast (fr_dest x_frame)" by (simp add: x_frame_def isBroadcast_def BROADCAST_ADDRESS_def MAC_ADDRESS_MASK_def)
  have l: "port_open x_ports ?r 0" "port_open x_ports ?r 1" "\<not> port_open x_ports ?r 2"
    by (simp_all add: x_relay_def x_ports_def port_open_def isForwarding_def new_PortInfo_def)
  have u: "[0..3 - 1] = [0, 1, 2 :: int]" by (simp add: upto.simps)
  obtain r' where "dr_handleAndDispatchFrame table_ops 0 x_ports 0 x_frame ?r = Inr (r', [IfOut 1 x_frame])"
    by (rule mt.dr_data_frame [OF ok p(2) _ _, where a = 0 and frame = x_frame and now = 0])
      (use p(3,5) q l u in \<open>simp_all add: mt.meant_ports_def\<close>)
  then show thesis using that p(1,4) by (simp add: drelay_handleMessage_def)
qed

section \<open>Properties\<close>

text \<open>
  In every state in which the relay is up a data frame on an existing port is handled: if its port is open, it leaves
  on every open port that is meant, which are all but its own for the broadcast address and for an address that is not
  known, and otherwise the port known for the address. If the port is learning or forwarding and the source is not
  the broadcast address, the relay learns it: the port is then found for as long as entries live. Nothing else in
  the table changes.
\<close>

theorem drelay_forwards:
  assumes "drelay_reach n aging r sent" and "drOperational r" and "ports_match ports r" and "0 \<le> a" and "a < n"
    and "\<not> for_switch r frame"
  shows "\<exists>r'. drelay_handleMessage table_ops now ports (RelayFromNetwork a (EtherFrameMsg frame)) r = Inr (r',
      map (\<lambda>p. IfOut p frame) (filter (\<lambda>p. p \<noteq> a \<and> port_open ports r p)
        (if \<not> port_open ports r a then []
         else if isBroadcast (fr_dest frame) then [0..n - 1]
         else case table_port now (learnt table_ops now ports a frame r) 0 (fr_dest frame) of
                None \<Rightarrow> [0..n - 1] | Some p \<Rightarrow> [p])))
    \<and> (\<forall>later \<ge> now. \<forall>b.
         (port_learns ports r a \<and> \<not> isBroadcast (fr_src frame) \<and> later < now + agingTime (drTable r) \<longrightarrow>
            table_port later (drTable r') 0 (fr_src frame) = Some a)
         \<and> (\<not> port_learns ports r a \<or> b \<noteq> fr_src frame \<longrightarrow>
            table_port later (drTable r') 0 b = table_port later (drTable r) 0 b))"
proof -
  define r0 where "r0 = r\<lparr>numReceivedNetworkFrames := numReceivedNetworkFrames r + 1\<rparr>"
  have r0: "mt.dr_ok r0" "ports_match ports r0" "0 \<le> a" "a < drPortCount r0" "\<not> for_switch r0 frame"
    using drelay_reach_ok [OF assms(1)] assms(3-6) by (simp_all add: r0_def ports_match_def for_switch_def)
  have e: "port_open ports r0 = port_open ports r" "port_learns ports r0 = port_learns ports r" "drPortCount r0 = n"
    "drTable r0 = drTable r" "learnt table_ops now ports a frame r0 = learnt table_ops now ports a frame r"
    using drelay_reach_ok [OF assms(1)] by (simp_all add: r0_def port_open_def port_learns_def learnt_def fun_eq_iff)
  have d: "for_switch r0 frame \<Longrightarrow> drStpAware r0 \<and> pi_role (ports ! nat a) = DISABLED" using r0(5) by simp
  obtain r' outs where h: "dr_handleAndDispatchFrame table_ops now ports a frame r0 = Inr (r', outs)"
    and outs: "outs = map (\<lambda>p. IfOut p frame) (filter (\<lambda>p. p \<noteq> a \<and> port_open ports r p)
        (if port_open ports r a then mt.meant_ports now frame n (learnt table_ops now ports a frame r) else []))"
    using mt.dr_data_frame [OF r0(1-4), of frame now] d unfolding e by metis
  have "drelay_handleMessage table_ops now ports (RelayFromNetwork a (EtherFrameMsg frame)) r = Inr (r', outs)"
    using assms(2) h by (simp add: drelay_handleMessage_def r0_def)
  moreover note mt.dr_learns [OF r0(1-4) d h, unfolded e]
  ultimately show ?thesis unfolding outs mt.meant_ports_def by (auto intro!: exI [of _ r'])
qed

theorem drelay_forwards_witness:
  "\<exists>r'. drelay_handleMessage table_ops 0 x_ports (RelayFromNetwork 0 (EtherFrameMsg x_frame)) (x_relay True) =
      Inr (r', [IfOut 1 x_frame]) \<and> table_port 5 (drTable r') 0 0x0AAA00000011 = Some 0"
proof -
  have p: "drOperational (x_relay True)" "ports_match x_ports (x_relay True)" "\<not> for_switch (x_relay True) x_frame"
    by (simp_all add: x_relay_def ports_match_def x_ports_def for_switch_def x_frame_def BROADCAST_ADDRESS_def STP_MULTICAST_ADDRESS_def MAC_ADDRESS_MASK_def)
  have q: "isBroadcast (fr_dest x_frame)" "\<not> isBroadcast (fr_src x_frame)" "fr_src x_frame = 0x0AAA00000011"
    by (simp_all add: x_frame_def isBroadcast_def BROADCAST_ADDRESS_def MAC_ADDRESS_MASK_def)
  have l: "port_open x_ports (x_relay True) 0" "port_open x_ports (x_relay True) 1" "\<not> port_open x_ports (x_relay True) 2"
    "port_learns x_ports (x_relay True) 0" "agingTime (drTable (x_relay True)) = 120000000000000"
    by (simp_all add: x_relay_def x_ports_def port_open_def port_learns_def isForwarding_def isLearning_def new_PortInfo_def mt_new_def)
  have u: "[0..3 - 1] = [0, 1, 2 :: int]" by (simp add: upto.simps)
  from drelay_forwards [OF x_reach p(1,2) _ _ p(3), of 0 0] obtain r' where
    h: "drelay_handleMessage table_ops 0 x_ports (RelayFromNetwork 0 (EtherFrameMsg x_frame)) (x_relay True) = Inr (r', [IfOut 1 x_frame])"
    and "\<forall>later \<ge> 0. later < 120000000000000 \<longrightarrow> table_port later (drTable r') 0 0x0AAA00000011 = Some 0"
    using q l u by auto
  then show ?thesis by auto
qed



text \<open>
  The BPDU that the spanning tree module of one switch sends reaches the one of its neighbour as it was: the frame
  carries it, at least 64 bytes long, from the address of the first switch, and the second switch delivers it with
  the port it came in on, unless that port is disabled.
\<close>

theorem drelay_bpdu_roundtrip:
  assumes "drOperational r1" and "pk_data pk = BpduPayload b" and "pk_ctrl pk = Some c"
    and "0 \<le> ctl_switchPort c" and "ctl_switchPort c < drPortCount r1" and "ctl_dest c = STP_MULTICAST_ADDRESS"
    and "drOperational r2" and "drStpAware r2" and "ports_match ports r2" and "0 \<le> a" and "a < drPortCount r2"
    and "pi_role (ports ! nat a) \<noteq> DISABLED"
  shows "\<exists>r1' r2' frame. drelay_handleMessage ops1 now ports1 (RelayFromSTP pk) r1 = Inr (r1', [IfOut (ctl_switchPort c) frame])
    \<and> drelay_handleMessage ops2 now2 ports (RelayFromNetwork a (EtherFrameMsg frame)) r2 = Inr (r2', [StpOut (pk\<lparr>pk_ctrl :=
        Some (new_Ieee802Ctrl\<lparr>ctl_src := drBridgeAddress r1, ctl_switchPort := a, ctl_dest := STP_MULTICAST_ADDRESS\<rparr>)\<rparr>)])
    \<and> fr_byteLength frame = max 64 (18 + pk_byteLength pk)"
proof -
  define frame where "frame = pad_frame (encapsulate
      (new_frame (drBridgeAddress r1) (ctl_dest c) (EthernetIIFrame (-1)) ETHER_MAC_FRAME_BYTES) (pk\<lparr>pk_ctrl := None\<rparr>))"
  define r0 where "r0 = r2\<lparr>numReceivedNetworkFrames := numReceivedNetworkFrames r2 + 1\<rparr>"
  have m: "ports_match ports r0" "a < drPortCount r0" "drStpAware r0" using assms(8,9,11) by (simp_all add: r0_def ports_match_def)
  have pd: "dr_portData ports r0 a = Inr (Some (ports ! nat a))" using dr_portData_ok [OF m(1) assms(10) m(2)] m(3) by simp
  note L = dr_learn_ok [OF m(1) assms(10) m(2), of ops2 now2 frame]
  have f: "fr_dest frame = STP_MULTICAST_ADDRESS" "fr_src frame = drBridgeAddress r1"
    "fr_encap frame = Some (pk\<lparr>pk_ctrl := None\<rparr>)" "fr_byteLength frame = max 64 (18 + pk_byteLength pk)"
    using assms(6) by (simp_all add: frame_def ether_sizes)
  have "\<exists>r1'. drelay_handleMessage ops1 now ports1 (RelayFromSTP pk) r1 = Inr (r1', [IfOut (ctl_switchPort c) frame])"
    using assms(1-5) by (simp add: drelay_handleMessage_def dispatchBPDU_def frame_def)
  moreover have "\<exists>r2'. drelay_handleMessage ops2 now2 ports (RelayFromNetwork a (EtherFrameMsg frame)) r2 = Inr (r2', [StpOut (pk\<lparr>pk_ctrl :=
        Some (new_Ieee802Ctrl\<lparr>ctl_src := drBridgeAddress r1, ctl_switchPort := a, ctl_dest := STP_MULTICAST_ADDRESS\<rparr>)\<rparr>)])"
    using assms(2,7,12)
    by (simp add: drelay_handleMessage_def r0_def [symmetric] dr_handleAndDispatchFrame_def pd L f deliverBPDU_def)
  ultimately show ?thesis using f(4) by blast
qed

theorem drelay_bpdu_roundtrip_witness:
  "\<exists>r1' r2' frame. drelay_handleMessage table_ops 0 [] (RelayFromSTP x_bpdu) (x_relay True) = Inr (r1', [IfOut 1 frame])
    \<and> drelay_handleMessage table_ops 5 x_ports (RelayFromNetwork 2 (EtherFrameMsg frame)) (x_relay True) = Inr (r2',
        [StpOut (x_bpdu\<lparr>pk_ctrl := Some (new_Ieee802Ctrl\<lparr>ctl_src := 0x0AAA00000001, ctl_switchPort := 2,
           ctl_dest := STP_MULTICAST_ADDRESS\<rparr>)\<rparr>)])
    \<and> fr_byteLength frame = 64"
  using drelay_bpdu_roundtrip [of "x_relay True" x_bpdu new_BPDU _ "x_relay True" x_ports 2 table_ops 0 "[]" table_ops 5]
  by (simp add: x_relay_def x_bpdu_def x_ports_def ports_match_def)

text \<open>
  A relay that is not aware of a spanning tree cannot handle the frames of a neighbour that is: for a frame with
  the address of the bridges, or with its own, it looks at the role of the arrival port, whose data is NULL.
\<close>

theorem drelay_unaware_null:
  assumes "drOperational r" and "\<not> drStpAware r" and "for_switch r frame"
  shows "drelay_handleMessage ops now ports (RelayFromNetwork a (EtherFrameMsg frame)) r = Inl NullDeref"
  using assms
  by (auto simp: drelay_handleMessage_def dr_handleAndDispatchFrame_def dr_portData_def dr_learn_def passes_def for_switch_def)

theorem drelay_unaware_null_witness:
  "\<exists>r' frame. drelay_handleMessage table_ops 0 x_ports (RelayFromSTP x_bpdu) (x_relay True) = Inr (r', [IfOut 1 frame])
    \<and> drelay_handleMessage table_ops 5 [] (RelayFromNetwork 0 (EtherFrameMsg frame)) (x_relay False) = Inl NullDeref"
proof -
  obtain r' frame where f: "drelay_handleMessage table_ops 0 x_ports (RelayFromSTP x_bpdu) (x_relay True) = Inr (r', [IfOut 1 frame])"
      "fr_dest frame = STP_MULTICAST_ADDRESS"
    by (auto simp: drelay_handleMessage_def dispatchBPDU_def x_bpdu_def x_relay_def)
  have "drOperational (x_relay False)" "\<not> drStpAware (x_relay False)" "for_switch (x_relay False) frame"
    using f(2) by (simp_all add: x_relay_def for_switch_def)
  from drelay_unaware_null [OF this] f show ?thesis by blast
qed

end
