(* ===== verification/STPNetwork.thy ===== *)
theory STPNetwork
  imports STPRuns
begin

text \<open>
  A network of bridges that run \<open>STP\<close>. The module sees its own ports only; here its bridges are joined by links
  between ports, and a network is settled when the BPDUs the designated ports keep sending change nothing any more
  and refresh the information of every other port. A settled network has exactly one root, and the ports that are
  root ports or designated join all bridges in a tree of cheapest paths to it.
\<close>

section \<open>Networks\<close>

text \<open>\<open>nt_link\<close> says where a port is connected to, if it is.\<close>

record ('n, 't) stp_net =
  nt_bridge :: "'n \<Rightarrow> 't stp"
  nt_link :: "'n \<Rightarrow> nat \<Rightarrow> ('n \<times> nat) option"

abbreviation nt_port :: "('n, 't) stp_net \<Rightarrow> 'n \<Rightarrow> nat \<Rightarrow> PortInfo" where
  "nt_port net a i \<equiv> sPorts (nt_bridge net a) ! i"

abbreviation nt_role :: "('n, 't) stp_net \<Rightarrow> 'n \<Rightarrow> nat \<Rightarrow> PortRole" where
  "nt_role net a i \<equiv> pi_role (nt_port net a i)"

abbreviation nt_cost :: "('n, 't) stp_net \<Rightarrow> 'n \<Rightarrow> nat" where
  "nt_cost net a \<equiv> unat (sRootPathCost (nt_bridge net a))"

abbreviation nt_linkCost :: "('n, 't) stp_net \<Rightarrow> 'n \<Rightarrow> nat \<Rightarrow> nat" where
  "nt_linkCost net a i \<equiv> unat (pi_linkCost (nt_port net a i))"

definition linked :: "'n set \<Rightarrow> ('n, 't) stp_net \<Rightarrow> 'n \<Rightarrow> nat \<Rightarrow> 'n \<Rightarrow> nat \<Rightarrow> bool" where
  "linked N net a i b j \<longleftrightarrow> a \<in> N \<and> i < sNumPorts (nt_bridge net a) \<and> nt_link net a i = Some (b, j)"

text \<open>Links join two ports of different bridges and have two ends, and every bridge can be reached from every other.\<close>

definition joined :: "'n set \<Rightarrow> ('n, 't) stp_net \<Rightarrow> bool" where
  "joined N net \<longleftrightarrow> finite N \<and> N \<noteq> {}
     \<and> (\<forall>a i b j. linked N net a i b j \<longrightarrow> a \<noteq> b \<and> linked N net b j a i)
     \<and> (\<forall>a \<in> N. \<forall>b \<in> N. (a, b) \<in> {(x, y). \<exists>i j. linked N net x i y j}\<^sup>*)"

text \<open>
  Every bridge has decided, identifiers differ, no port is disabled, links cost something, the costs of the paths
  fit into 32 bits and BPDUs do not expire at once.
\<close>

definition running :: "'n set \<Rightarrow> ('n, 't) stp_net \<Rightarrow> bool" where
  "running N net \<longleftrightarrow> inj_on (\<lambda>a. ownId (nt_bridge net a)) N
     \<and> (\<forall>a \<in> N. decided (nt_bridge net a) \<and> 0 < sCurrentMaxAge (nt_bridge net a)
          \<and> (\<forall>i < sNumPorts (nt_bridge net a). nt_role net a i \<noteq> DISABLED \<and> 0 < nt_linkCost net a i))
     \<and> (\<forall>a i b j. linked N net a i b j \<longrightarrow>
          nt_cost net a + nt_linkCost net a i < 2 ^ 32 \<and> nt_cost net a + nt_linkCost net b j < 2 ^ 32)"

text \<open>The configuration BPDU a bridge sends on a port.\<close>

abbreviation nt_bpdu :: "('n, 't) stp_net \<Rightarrow> 'n \<Rightarrow> nat \<Rightarrow> BPDU" where
  "nt_bpdu net a i \<equiv> make_BPDU (int i) (nt_port net a i) False False (nt_bridge net a)"

text \<open>
  Settled: the BPDU of a designated port leaves the information of the port at the other end as it is, and the
  information of a port that is not designated is refreshed by the designated port it is linked to.
\<close>

definition settled :: "'n set \<Rightarrow> ('n, 't) stp_net \<Rightarrow> bool" where
  "settled N net \<longleftrightarrow>
     (\<forall>a i b j. linked N net a i b j \<longrightarrow> nt_role net a i = DESIGNATED \<longrightarrow>
        vector (snd (isSuperiorBPDU (nt_bpdu net a i) (nt_port net b j))) = vector (nt_port net b j))
     \<and> (\<forall>b \<in> N. \<forall>j < sNumPorts (nt_bridge net b). nt_role net b j \<noteq> DESIGNATED \<longrightarrow>
        (\<exists>a i. linked N net b j a i \<and> nt_role net a i = DESIGNATED
           \<and> fst (isSuperiorBPDU (nt_bpdu net a i) (nt_port net b j))))"

section \<open>What a port has heard\<close>

abbreviation heard :: "('n, 't) stp_net \<Rightarrow> 'n \<Rightarrow> nat \<Rightarrow> 'n \<Rightarrow> nat \<Rightarrow> priority_vector" where
  "heard net a i b j \<equiv> vector (bpdu_info (nt_bpdu net a i) (nt_port net b j))"

lemma heard_eq:
  "heard net a i b j = (sRootId (nt_bridge net a), sRootPathCost (nt_bridge net a) + pi_linkCost (nt_port net b j),
     ownId (nt_bridge net a), pi_priority (nt_port net a i), of_nat i)"
  by (simp add: vector_def bpdu_info_def make_BPDU_def Let_def)

lemma bridgeGlobal_eq:
  "vector (bridgeGlobal s i p) = (sRootId s, sRootPathCost s + pi_linkCost p, ownId s, pi_priority p, of_nat i)"
  by (simp add: vector_def bridgeGlobal_def)

lemma vector_le: "vector p \<le> (r, c, x) \<Longrightarrow> rootId p \<le> r" "vector p \<le> (r, c, x) \<Longrightarrow> rootId p = r \<Longrightarrow> pi_rootPathCost p \<le> c"
  unfolding vector_def by (auto simp del: bridge_id.inject simp: less_eq_prod_def)

lemma vector_eq: "vector p = (r, c, x) \<Longrightarrow> rootId p = r \<and> pi_rootPathCost p = c"
  by (simp add: vector_def del: bridge_id.inject)

lemma isSuperiorBPDU_vector:
  "fst (isSuperiorBPDU bpdu p) \<Longrightarrow> bp_messageAge bpdu < bp_maxAge bpdu \<Longrightarrow>
     vector (snd (isSuperiorBPDU bpdu p)) = vector (bpdu_info bpdu p)"
  "\<not> fst (isSuperiorBPDU bpdu p) \<Longrightarrow> vector p < vector (bpdu_info bpdu p)"
proof -
  assume "fst (isSuperiorBPDU bpdu p)" "bp_messageAge bpdu < bp_maxAge bpdu"
  then show "vector (snd (isSuperiorBPDU bpdu p)) = vector (bpdu_info bpdu p)"
    by (auto simp: isSuperiorBPDU_def setSuperiorBPDU_def Let_def vector_def bpdu_info_def split: if_splits)
next
  assume "\<not> fst (isSuperiorBPDU bpdu p)"
  then show "vector p < vector (bpdu_info bpdu p)"
    by (simp add: isSuperiorBPDU_def Let_def flip: comparePorts_pos split: if_splits)
qed

lemma make_BPDU_ages: "bp_messageAge (make_BPDU port p tc tca s) = 0" "bp_maxAge (make_BPDU port p tc tca s) = sCurrentMaxAge s"
  by (simp_all add: make_BPDU_def Let_def new_BPDU_def)

lemma linked_sym: "joined N net \<Longrightarrow> linked N net a i b j \<Longrightarrow> linked N net b j a i"
  and linked_neq: "joined N net \<Longrightarrow> linked N net a i b j \<Longrightarrow> a \<noteq> b"
  by (simp_all add: joined_def)

lemma linked_mem: "joined N net \<Longrightarrow> linked N net a i b j \<Longrightarrow>
    a \<in> N \<and> b \<in> N \<and> i < sNumPorts (nt_bridge net a) \<and> j < sNumPorts (nt_bridge net b)"
  using linked_sym [of N net a i b j] by (simp add: linked_def)

lemma heard_le:
  assumes "joined N net" and "running N net" and "settled N net" and l: "linked N net a i b j" and d: "nt_role net a i = DESIGNATED"
  shows "vector (nt_port net b j) \<le> heard net a i b j"
proof -
  have a: "a \<in> N" using linked_mem [OF assms(1) l] by simp
  have same: "vector (snd (isSuperiorBPDU (nt_bpdu net a i) (nt_port net b j))) = vector (nt_port net b j)"
    using assms(3) l d unfolding settled_def by blast
  have "bp_messageAge (nt_bpdu net a i) < bp_maxAge (nt_bpdu net a i)"
    using assms(2) a by (simp add: make_BPDU_ages running_def)
  then show ?thesis
    using same isSuperiorBPDU_vector [of "nt_bpdu net a i" "nt_port net b j"] by (metis order.refl order.strict_implies_order)
qed

lemma heard_from:
  assumes "joined N net" and "running N net" and "settled N net" and b: "b \<in> N" "j < sNumPorts (nt_bridge net b)"
    and d: "nt_role net b j \<noteq> DESIGNATED"
  obtains a i where "linked N net a i b j" and "nt_role net a i = DESIGNATED" and "vector (nt_port net b j) = heard net a i b j"
proof -
  obtain a i where l: "linked N net b j a i" "nt_role net a i = DESIGNATED"
      "fst (isSuperiorBPDU (nt_bpdu net a i) (nt_port net b j))"
    using assms(3) b d unfolding settled_def by blast
  have l': "linked N net a i b j" by (rule linked_sym [OF assms(1) l(1)])
  have a: "a \<in> N" using linked_mem [OF assms(1) l'] by simp
  have same: "vector (snd (isSuperiorBPDU (nt_bpdu net a i) (nt_port net b j))) = vector (nt_port net b j)"
    using assms(3) l' l(2) unfolding settled_def by blast
  have "bp_messageAge (nt_bpdu net a i) < bp_maxAge (nt_bpdu net a i)"
    using assms(2) a by (simp add: make_BPDU_ages running_def)
  then have "vector (nt_port net b j) = heard net a i b j" using same isSuperiorBPDU_vector(1) [OF l(3)] by simp
  then show thesis using that l' l(2) by blast
qed

section \<open>What a bridge has decided\<close>

lemma decided_root:
  assumes "decided s"
  shows "sRootId s \<le> ownId s" and "i < sNumPorts s \<Longrightarrow> sRootId s \<le> rootId (sPorts s ! i)" and "sIsRoot s \<longleftrightarrow> sRootId s = ownId s"
proof -
  have r: "sRootId s = Min (insert (ownId s) (rootId ` set (sPorts s)))" "sIsRoot s \<longleftrightarrow> sRootId s = ownId s"
    using assms unfolding decided_def root_elected_def by blast+
  then show "sIsRoot s \<longleftrightarrow> sRootId s = ownId s" by blast
  show "sRootId s \<le> ownId s" unfolding r(1) by (rule Min_le) simp_all
  show "sRootId s \<le> rootId (sPorts s ! i)" if "i < sNumPorts s" unfolding r(1) by (rule Min_le) (use that in auto)
qed

lemma decided_port:
  assumes "decided s" and "i < sNumPorts s" and "pi_role (sPorts s ! i) \<noteq> DISABLED"
  shows "pi_role (sPorts s ! i) \<noteq> DESIGNATED \<Longrightarrow> pi_role (sPorts s ! i) \<noteq> ROOT \<Longrightarrow>
      vector (sPorts s ! i) \<le> vector (bridgeGlobal s i (sPorts s ! i))"
    and "pi_role (sPorts s ! i) = DESIGNATED \<Longrightarrow> \<not> sIsRoot s \<Longrightarrow>
      vector (bridgeGlobal s i (sPorts s ! i)) < vector (sPorts s ! i)"
    and "pi_role (sPorts s ! i) = ROOT \<longleftrightarrow> \<not> sIsRoot s \<and> i = sRootPort s"
proof -
  have r: "roles_root s" if "sIsRoot s" using assms(1) that by (simp add: decided_def)
  have o: "pi_role (sPorts s ! sRootPort s) = ROOT" "i \<noteq> sRootPort s \<Longrightarrow> pi_role (sPorts s ! i) = role_by_vector s i"
    if "\<not> sIsRoot s"
    using assms(1,2) that by (simp_all add: decided_def roles_other_nth)
  show "vector (sPorts s ! i) \<le> vector (bridgeGlobal s i (sPorts s ! i))"
    if "pi_role (sPorts s ! i) \<noteq> DESIGNATED" "pi_role (sPorts s ! i) \<noteq> ROOT"
  proof -
    have "\<not> sIsRoot s" using r that(1) assms(2,3) by (auto simp: roles_root_def all_set_conv_all_nth)
    then show ?thesis using o that by (cases "i = sRootPort s") (auto simp: role_by_vector_def split: if_splits)
  qed
  show "vector (bridgeGlobal s i (sPorts s ! i)) < vector (sPorts s ! i)"
    if "pi_role (sPorts s ! i) = DESIGNATED" "\<not> sIsRoot s"
    using o [OF that(2)] that(1) by (cases "i = sRootPort s") (auto simp: role_by_vector_def split: if_splits)
  show "pi_role (sPorts s ! i) = ROOT \<longleftrightarrow> \<not> sIsRoot s \<and> i = sRootPort s"
    using r o assms(2) by (cases "sIsRoot s"; cases "i = sRootPort s") (auto simp: roles_root_def role_by_vector_def all_set_conv_all_nth)
qed

lemma decided_rootPort:
  assumes "decided s" and "\<not> sIsRoot s"
  shows "sRootPort s < sNumPorts s" and "pi_role (sPorts s ! sRootPort s) = ROOT"
    and "rootId (sPorts s ! sRootPort s) = sRootId s" and "pi_rootPathCost (sPorts s ! sRootPort s) = sRootPathCost s"
    and "i < sNumPorts s \<Longrightarrow> vector (sPorts s ! sRootPort s) \<le> vector (sPorts s ! i)"
  using assms by (simp_all add: decided_def roles_other_nth)

section \<open>One root\<close>

lemma running_node:
  assumes "running N net" and "a \<in> N"
  shows "decided (nt_bridge net a)" and "i < sNumPorts (nt_bridge net a) \<Longrightarrow> nt_role net a i \<noteq> DISABLED"
    and "i < sNumPorts (nt_bridge net a) \<Longrightarrow> 0 < nt_linkCost net a i"
  using assms by (simp_all add: running_def)

text \<open>Costs are added without wrapping around.\<close>

lemma unat_cost:
  assumes "running N net" and "linked N net a i b j"
  shows "unat (sRootPathCost (nt_bridge net a) + pi_linkCost (nt_port net b j)) = nt_cost net a + nt_linkCost net b j"
    and "unat (sRootPathCost (nt_bridge net a) + pi_linkCost (nt_port net a i)) = nt_cost net a + nt_linkCost net a i"
proof -
  have "nt_cost net a + nt_linkCost net a i < 2 ^ 32 \<and> nt_cost net a + nt_linkCost net b j < 2 ^ 32"
    using assms unfolding running_def by blast
  then show "unat (sRootPathCost (nt_bridge net a) + pi_linkCost (nt_port net b j)) = nt_cost net a + nt_linkCost net b j"
    "unat (sRootPathCost (nt_bridge net a) + pi_linkCost (nt_port net a i)) = nt_cost net a + nt_linkCost net a i"
    by (simp_all add: unat_word_ariths)
qed

lemma not_better_root:
  assumes J: "joined N net" and R: "running N net" and S: "settled N net" and l: "linked N net a i b j"
  shows "sRootId (nt_bridge net b) \<le> sRootId (nt_bridge net a)"
proof -
  note m = linked_mem [OF J l]
  have db: "decided (nt_bridge net b)" and da: "decided (nt_bridge net a)" using running_node(1) [OF R] m by blast+
  have ne: "nt_role net a i \<noteq> DISABLED" using running_node(2) [OF R] m by blast
  show ?thesis
  proof (cases "nt_role net a i = DESIGNATED")
    case True
    have "rootId (nt_port net b j) \<le> sRootId (nt_bridge net a)"
      by (rule vector_le(1) [OF heard_le [OF J R S l True, unfolded heard_eq]])
    moreover have "sRootId (nt_bridge net b) \<le> rootId (nt_port net b j)" by (rule decided_root(2) [OF db]) (use m in blast)
    ultimately show ?thesis by order
  next
    case False
    obtain b' j' where l': "linked N net b' j' a i" "vector (nt_port net a i) = heard net b' j' a i"
      by (rule heard_from [OF J R S _ _ False]) (use m in auto)
    have "b' = b" using linked_sym [OF J l'(1)] l by (simp add: linked_def)
    then have root: "rootId (nt_port net a i) = sRootId (nt_bridge net b)"
      using vector_eq [OF l'(2) [unfolded heard_eq]] by blast
    show ?thesis
    proof (cases "nt_role net a i = ROOT")
      case True
      then have "\<not> sIsRoot (nt_bridge net a)" "i = sRootPort (nt_bridge net a)" using decided_port(3) [OF da _ ne] m by blast+
      then have "rootId (nt_port net a i) = sRootId (nt_bridge net a)" using decided_rootPort(3) [OF da] by metis
      then show ?thesis using root by simp
    next
      case nr: False
      have "vector (nt_port net a i) \<le> vector (bridgeGlobal (nt_bridge net a) i (nt_port net a i))"
        by (rule decided_port(1) [OF da _ ne False nr]) (use m in blast)
      then have "rootId (nt_port net a i) \<le> sRootId (nt_bridge net a)"
        unfolding bridgeGlobal_eq by (rule vector_le(1))
      then show ?thesis using root by (simp del: bridge_id.inject)
    qed
  qed
qed

lemma same_root:
  assumes J: "joined N net" and "running N net" and "settled N net" and "a \<in> N" and "b \<in> N"
  shows "sRootId (nt_bridge net a) = sRootId (nt_bridge net b)"
proof -
  have "(a, b) \<in> {(x, y). \<exists>i j. linked N net x i y j}\<^sup>*" using assms(1,4,5) by (simp add: joined_def)
  then show ?thesis
  proof induction
    case (step y z)
    then obtain i j where "linked N net y i z j" by blast
    then have "sRootId (nt_bridge net y) = sRootId (nt_bridge net z)"
      using not_better_root [OF assms(1-3)] linked_sym [OF J] by (meson order.antisym)
    with step.IH show ?case by (simp del: bridge_id.inject)
  qed simp
qed

text \<open>The neighbour at the root port of a bridge, its parent in the tree.\<close>

definition parent_link :: "'n set \<Rightarrow> ('n, 't) stp_net \<Rightarrow> 'n \<Rightarrow> nat \<Rightarrow> 'n \<Rightarrow> bool" where
  "parent_link N net a i b \<longleftrightarrow> \<not> sIsRoot (nt_bridge net b) \<and> linked N net a i b (sRootPort (nt_bridge net b))"

lemma parent:
  assumes J: "joined N net" and R: "running N net" and S: "settled N net" and b: "b \<in> N" "\<not> sIsRoot (nt_bridge net b)"
  obtains a i where "parent_link N net a i b" and "nt_role net a i = DESIGNATED"
    and "nt_cost net b = nt_cost net a + nt_linkCost net b (sRootPort (nt_bridge net b))" and "nt_cost net a < nt_cost net b"
proof -
  have d: "decided (nt_bridge net b)" by (rule running_node(1) [OF R b(1)])
  note r = decided_rootPort [OF d b(2)]
  obtain a i where l: "linked N net a i b (sRootPort (nt_bridge net b))" "nt_role net a i = DESIGNATED"
      "vector (nt_port net b (sRootPort (nt_bridge net b))) = heard net a i b (sRootPort (nt_bridge net b))"
    by (rule heard_from [OF J R S b(1) r(1)]) (use r(2) in simp)
  have "sRootPathCost (nt_bridge net b) = sRootPathCost (nt_bridge net a) + pi_linkCost (nt_port net b (sRootPort (nt_bridge net b)))"
    using vector_eq [OF l(3) [unfolded heard_eq]] r(4) by simp
  then have "nt_cost net b = nt_cost net a + nt_linkCost net b (sRootPort (nt_bridge net b))"
    using unat_cost(1) [OF R l(1)] by simp
  moreover have "0 < nt_linkCost net b (sRootPort (nt_bridge net b))" by (rule running_node(3) [OF R b(1) r(1)])
  ultimately show thesis using that l(1,2) b(2) by (simp add: parent_link_def)
qed

text \<open>Going from parent to parent ends at a bridge that is root.\<close>

lemma reaches_root:
  assumes J: "joined N net" and R: "running N net" and S: "settled N net" and "b \<in> N"
  shows "\<exists>c \<in> N. sIsRoot (nt_bridge net c) \<and> (c, b) \<in> {(x, y). \<exists>i. parent_link N net x i y}\<^sup>*"
  using assms(4)
proof (induction "nt_cost net b" arbitrary: b rule: less_induct)
  case less
  show ?case
  proof (cases "sIsRoot (nt_bridge net b)")
    case False
    obtain a i where a: "parent_link N net a i b" "nt_cost net a < nt_cost net b"
      by (rule parent [OF J R S less.prems False])
    have "a \<in> N" using a(1) by (simp add: parent_link_def linked_def)
    from less.hyps [OF a(2) this] a(1) show ?thesis by (blast intro: rtrancl_into_rtrancl)
  qed (use less.prems in blast)
qed

lemma the_root:
  assumes J: "joined N net" and R: "running N net" and S: "settled N net"
  obtains root where "root \<in> N" and "ownId (nt_bridge net root) = Min ((\<lambda>a. ownId (nt_bridge net a)) ` N)"
    and "\<And>b. b \<in> N \<Longrightarrow> sRootId (nt_bridge net b) = ownId (nt_bridge net root)"
    and "\<And>b. b \<in> N \<Longrightarrow> sIsRoot (nt_bridge net b) \<longleftrightarrow> b = root"
    and "\<And>b. b \<in> N \<Longrightarrow> (root, b) \<in> {(x, y). \<exists>i. parent_link N net x i y}\<^sup>*"
proof -
  obtain x where x: "x \<in> N" using J by (auto simp: joined_def)
  obtain root where r: "root \<in> N" "sIsRoot (nt_bridge net root)" using reaches_root [OF J R S x] by blast
  have own: "sRootId (nt_bridge net b) = ownId (nt_bridge net b) \<longleftrightarrow> sIsRoot (nt_bridge net b)" if "b \<in> N" for b
    using decided_root(3) [OF running_node(1) [OF R that]] by blast
  have same: "sRootId (nt_bridge net b) = ownId (nt_bridge net root)" if "b \<in> N" for b
    using same_root [OF J R S that r(1)] own [OF r(1)] r(2) by (simp del: bridge_id.inject)
  have inj: "inj_on (\<lambda>a. ownId (nt_bridge net a)) N" using R unfolding running_def by blast
  have one: "sIsRoot (nt_bridge net b) \<longleftrightarrow> b = root" if "b \<in> N" for b
    using own [OF that] same [OF that] inj_onD [OF inj, of b root] r that by (metis (no_types, lifting))
  have "ownId (nt_bridge net root) \<le> ownId (nt_bridge net b)" if "b \<in> N" for b
    using same [OF that] decided_root(1) [OF running_node(1) [OF R that]] by (simp del: bridge_id.inject)
  then have "Min ((\<lambda>a. ownId (nt_bridge net a)) ` N) = ownId (nt_bridge net root)"
    using J r(1) by (intro Min_eqI) (auto simp: joined_def)
  moreover have "(root, b) \<in> {(x, y). \<exists>i. parent_link N net x i y}\<^sup>*" if "b \<in> N" for b
    using reaches_root [OF J R S that] one by blast
  ultimately show thesis using that r(1) same one by (simp del: bridge_id.inject)
qed

section \<open>The ends of a link\<close>

lemma one_end:
  assumes "joined N net" and "running N net" and "settled N net" and l: "linked N net a i b j" and "nt_role net a i \<noteq> DESIGNATED"
  shows "nt_role net b j = DESIGNATED" and "vector (nt_port net a i) = heard net b j a i"
proof -
  obtain b' j' where "linked N net b' j' a i" "nt_role net b' j' = DESIGNATED" "vector (nt_port net a i) = heard net b' j' a i"
    by (rule heard_from [OF assms(1-3) _ _ assms(5)]) (use linked_mem [OF assms(1) l] in auto)
  moreover from linked_sym [OF assms(1) this(1)] have "b' = b \<and> j' = j" using l by (simp add: linked_def)
  ultimately show "nt_role net b j = DESIGNATED" "vector (nt_port net a i) = heard net b j a i" by blast+
qed

lemma cost_of_root:
  assumes "joined N net" and "running N net" and "settled N net" and "b \<in> N"
  shows "nt_cost net b = 0 \<longleftrightarrow> sIsRoot (nt_bridge net b)"
proof (cases "sIsRoot (nt_bridge net b)")
  case True
  then show ?thesis using running_node(1) [OF assms(2,4)] by (simp add: decided_def roles_root_def)
next
  case False
  obtain a i where "nt_cost net a < nt_cost net b" by (rule parent [OF assms False])
  then show ?thesis using False by simp
qed

text \<open>A designated port whose neighbour is designated too belongs to the better bridge.\<close>

lemma both_designated:
  assumes J: "joined N net" and R: "running N net" and S: "settled N net" and l: "linked N net a i b j"
    and d: "nt_role net a i = DESIGNATED" "nt_role net b j = DESIGNATED"
  shows "nt_cost net b < nt_cost net a \<or> nt_cost net b = nt_cost net a \<and> ownId (nt_bridge net b) < ownId (nt_bridge net a)"
proof (cases "sIsRoot (nt_bridge net b)")
  case True
  obtain r where "\<And>c. c \<in> N \<Longrightarrow> sIsRoot (nt_bridge net c) \<longleftrightarrow> c = r" by (rule the_root [OF J R S]) blast
  then have "\<not> sIsRoot (nt_bridge net a)" using True linked_mem [OF J l] linked_neq [OF J l] by blast
  then show ?thesis using True cost_of_root [OF J R S] linked_mem [OF J l] by (metis gr0I)
next
  case False
  note m = linked_mem [OF J l]
  let ?a = "nt_bridge net a" and ?b = "nt_bridge net b" and ?c = "pi_linkCost (nt_port net b j)"
  have db: "decided ?b" using running_node(1) [OF R] m by blast
  have "vector (bridgeGlobal ?b j (nt_port net b j)) < vector (nt_port net b j)"
    by (rule decided_port(2) [OF db _ _ d(2) False]) (use m d(2) in simp_all)
  also have "\<dots> \<le> heard net a i b j" by (rule heard_le [OF J R S l d(1)])
  finally have "(sRootId ?b, sRootPathCost ?b + ?c, ownId ?b, pi_priority (nt_port net b j), of_nat j)
      < (sRootId ?a, sRootPathCost ?a + ?c, ownId ?a, pi_priority (nt_port net a i), of_nat i :: u32)"
    unfolding bridgeGlobal_eq heard_eq .
  moreover have "sRootId ?b = sRootId ?a" by (rule same_root [OF J R S]) (use m in auto)
  moreover have "ownId ?b \<noteq> ownId ?a"
  proof -
    have "inj_on (\<lambda>a. ownId (nt_bridge net a)) N" using R unfolding running_def by blast
    from inj_onD [OF this, of b a] show ?thesis using m linked_neq [OF J l] by blast
  qed
  ultimately have "sRootPathCost ?b + ?c < sRootPathCost ?a + ?c \<or> sRootPathCost ?b + ?c = sRootPathCost ?a + ?c \<and> ownId ?b < ownId ?a"
    unfolding lex_less by (auto simp del: bridge_id.inject)
  then show ?thesis
    using unat_cost(1) [OF R l] unat_cost(2) [OF R linked_sym [OF J l]] by (auto simp: word_less_nat_alt simp del: bridge_id.inject)
qed

lemma exactly_one_end:
  assumes J: "joined N net" and R: "running N net" and S: "settled N net" and l: "linked N net a i b j"
  shows "nt_role net a i = DESIGNATED \<longleftrightarrow> nt_role net b j \<noteq> DESIGNATED"
proof
  show "nt_role net b j \<noteq> DESIGNATED" if "nt_role net a i = DESIGNATED"
  proof
    assume "nt_role net b j = DESIGNATED"
    with that both_designated [OF J R S l] both_designated [OF J R S linked_sym [OF J l]] show False
      by (auto simp del: bridge_id.inject)
  qed
qed (use one_end(1) [OF J R S l] in blast)

section \<open>Costs\<close>

lemma cost_edge:
  assumes J: "joined N net" and R: "running N net" and S: "settled N net" and l: "linked N net a i b j"
  shows "nt_cost net b \<le> nt_cost net a + nt_linkCost net b j"
proof -
  note m = linked_mem [OF J l]
  let ?a = "nt_bridge net a" and ?b = "nt_bridge net b"
  have da: "decided ?a" and db: "decided ?b" using running_node(1) [OF R] m by blast+
  have ne: "nt_role net a i \<noteq> DISABLED" using running_node(2) [OF R] m by blast
  have same: "sRootId ?b = sRootId ?a" by (rule same_root [OF J R S]) (use m in auto)
  consider "sIsRoot ?b" | "\<not> sIsRoot ?b" "nt_role net a i = DESIGNATED" | "nt_role net a i = ROOT"
    | "nt_role net a i \<noteq> ROOT" "nt_role net a i \<noteq> DESIGNATED" by blast
  then show ?thesis
  proof cases
    case 1
    then have "nt_cost net b = 0" using cost_of_root [OF J R S] m by blast
    then show ?thesis by simp
  next
    case 2
    have "vector (nt_port net b (sRootPort ?b)) \<le> vector (nt_port net b j)" by (rule decided_rootPort(5) [OF db 2(1)]) (use m in blast)
    also have "\<dots> \<le> heard net a i b j" by (rule heard_le [OF J R S l 2(2)])
    finally have "pi_rootPathCost (nt_port net b (sRootPort ?b)) \<le> sRootPathCost ?a + pi_linkCost (nt_port net b j)"
      unfolding heard_eq by (rule vector_le(2)) (use decided_rootPort(3) [OF db 2(1)] same in \<open>simp del: bridge_id.inject\<close>)
    then show ?thesis
      using decided_rootPort(4) [OF db 2(1)] unat_cost(1) [OF R l] by (simp add: word_le_nat_alt)
  next
    case 3
    have "vector (nt_port net a i) = heard net b j a i" by (rule one_end(2) [OF J R S l]) (simp add: 3)
    from vector_eq [OF this [unfolded heard_eq]]
    have "pi_rootPathCost (nt_port net a i) = sRootPathCost ?b + pi_linkCost (nt_port net a i)" by blast
    moreover have "\<not> sIsRoot ?a" "i = sRootPort ?a" using decided_port(3) [OF da _ ne] m 3 by blast+
    then have "pi_rootPathCost (nt_port net a i) = sRootPathCost ?a" using decided_rootPort(4) [OF da] by metis
    ultimately show ?thesis using unat_cost(1) [OF R linked_sym [OF J l]] by simp
  next
    case 4
    have "vector (nt_port net a i) = heard net b j a i" by (rule one_end(2) [OF J R S l 4(2)])
    moreover have "vector (nt_port net a i) \<le> vector (bridgeGlobal ?a i (nt_port net a i))"
      by (rule decided_port(1) [OF da _ ne 4(2,1)]) (use m in blast)
    ultimately have "sRootPathCost ?b + pi_linkCost (nt_port net a i) \<le> sRootPathCost ?a + pi_linkCost (nt_port net a i)"
      using same unfolding heard_eq bridgeGlobal_eq by (auto simp: less_eq_prod_def simp del: bridge_id.inject)
    then show ?thesis
      using unat_cost(1) [OF R linked_sym [OF J l]] unat_cost(2) [OF R l] by (simp add: word_le_nat_alt)
  qed
qed

text \<open>The cost of a path, counted as the protocol counts it: at the port that receives.\<close>

inductive nt_path :: "'n set \<Rightarrow> ('n, 't) stp_net \<Rightarrow> 'n \<Rightarrow> 'n \<Rightarrow> nat \<Rightarrow> bool" for N net a where
  start: "nt_path N net a a 0"
| link: "nt_path N net a b c \<Longrightarrow> linked N net b j d k \<Longrightarrow> nt_path N net a d (c + nt_linkCost net d k)"

lemma path_cost:
  assumes "joined N net" and "running N net" and "settled N net" and "nt_path N net a b c"
  shows "nt_cost net b \<le> nt_cost net a + c"
  using assms(4)
proof induction
  case (link b c j d k)
  then show ?case using cost_edge [OF assms(1-3) link.hyps(2)] by simp
qed simp

text \<open>The paths that lead from a bridge to one whose parent it is, with their cost.\<close>

inductive tree_path :: "'n set \<Rightarrow> ('n, 't) stp_net \<Rightarrow> 'n \<Rightarrow> 'n \<Rightarrow> nat \<Rightarrow> bool" for N net a where
  start: "tree_path N net a a 0"
| link: "tree_path N net a b c \<Longrightarrow> parent_link N net b j d \<Longrightarrow>
    tree_path N net a d (c + nt_linkCost net d (sRootPort (nt_bridge net d)))"

lemma tree_path_nt_path: "tree_path N net a b c \<Longrightarrow> nt_path N net a b c"
  by (induction rule: tree_path.induct) (auto simp: parent_link_def intro: nt_path.intros)

lemma path_of_cost:
  assumes J: "joined N net" and R: "running N net" and S: "settled N net" and "b \<in> N" and "rt \<in> N" "sIsRoot (nt_bridge net rt)"
  shows "tree_path N net rt b (nt_cost net b)"
  using assms(4)
proof (induction "nt_cost net b" arbitrary: b rule: less_induct)
  case less
  show ?case
  proof (cases "sIsRoot (nt_bridge net b)")
    case True
    obtain r where "\<And>c. c \<in> N \<Longrightarrow> sIsRoot (nt_bridge net c) \<longleftrightarrow> c = r" by (rule the_root [OF J R S]) blast
    then have "b = rt" using True less.prems assms(5,6) by blast
    then show ?thesis using cost_of_root [OF J R S assms(5)] assms(6) by (simp add: tree_path.start)
  next
    case False
    obtain a i where a: "parent_link N net a i b" "nt_cost net a < nt_cost net b"
        "nt_cost net b = nt_cost net a + nt_linkCost net b (sRootPort (nt_bridge net b))"
      by (rule parent [OF J R S less.prems False])
    have "tree_path N net rt a (nt_cost net a)"
      by (rule less.hyps [OF a(2)]) (use a(1) in \<open>simp add: parent_link_def linked_def\<close>)
    from tree_path.link [OF this a(1)] show ?thesis using a(3) by simp
  qed
qed

section \<open>An example\<close>

text \<open>Three bridges in a ring; the first is the root, and the third blocks its port to the second.\<close>

abbreviation r_id :: "nat \<Rightarrow> mac_addr" where "r_id n \<equiv> 0x0AAA00000001 + of_nat n"

definition r_port :: "PortRole \<Rightarrow> nat \<Rightarrow> u32 \<Rightarrow> nat \<Rightarrow> nat \<Rightarrow> PortInfo" where
  "r_port role rt cost bridge port =
     new_PortInfo\<lparr>pi_priority := 128, pi_linkCost := 19, pi_role := role, pi_rootPriority := 32768,
       pi_rootAddress := r_id rt, pi_rootPathCost := cost, pi_bridgePriority := 32768, pi_bridgeAddress := r_id bridge,
       pi_portPriority := 128, pi_portNum := of_nat port, pi_maxAge := 20000000000000, pi_fwdDelay := 15000000000000\<rparr>"

definition r_stp :: "nat \<Rightarrow> nat list \<Rightarrow> u32 \<Rightarrow> PortInfo list \<Rightarrow> unit stp" where
  "r_stp n des cost ports =
     \<lparr>sOperational = True, sBridgePriority = 32768, sBridgeAddress = r_id n, sMaxAge = 20000000000000, sHelloTime = 0,
      sForwardDelay = 15000000000000, sIsRoot = (n = 0), sRootPort = 0, sDesPorts = des, sRootPathCost = cost,
      sRootPriority = 32768, sRootAddress = r_id 0, sCurrentMaxAge = 20000000000000,
      sCurrentFwdDelay = 15000000000000, sCurrentHelloTime = 0, sCurrentBridgePriority = 32768,
      sTopologyChangeNotification = False, sTopologyChangeRecvd = True, sTick = None, sPorts = ports, sTable = (), sOut = []\<rparr>"

definition r_bridge :: "nat \<Rightarrow> unit stp" where
  "r_bridge n =
     (if n = 0 then r_stp 0 [0, 1] 0 [r_port DESIGNATED 0 0 0 0, r_port DESIGNATED 0 0 0 1]
      else if n = 1 then r_stp 1 [1] 19 [r_port ROOT 0 19 0 0, r_port DESIGNATED 1 0 1 1]
      else r_stp 2 [] 19 [r_port ROOT 0 19 0 1, r_port ALTERNATE 0 38 1 1])"

definition r_link :: "nat \<Rightarrow> nat \<Rightarrow> (nat \<times> nat) option" where
  "r_link a i = map_of [((0, 0), (1, 0)), ((1, 0), (0, 0)), ((0, 1), (2, 0)), ((2, 0), (0, 1)), ((1, 1), (2, 1)), ((2, 1), (1, 1))] (a, i)"

definition ring :: "(nat, unit) stp_net" where
  "ring = \<lparr>nt_bridge = r_bridge, nt_link = r_link\<rparr>"

lemma r_ports: "sPorts (r_bridge n) ! 0 = (if n = 0 then r_port DESIGNATED 0 0 0 0 else if n = 1 then r_port ROOT 0 19 0 0 else r_port ROOT 0 19 0 1)"
  "sPorts (r_bridge n) ! Suc 0 = (if n = 0 then r_port DESIGNATED 0 0 0 1 else if n = 1 then r_port DESIGNATED 1 0 1 1 else r_port ALTERNATE 0 38 1 1)"
  "sNumPorts (r_bridge n) = 2"
  by (simp_all add: r_bridge_def r_stp_def)

lemma ring_simps [simp]: "nt_bridge ring = r_bridge" "nt_link ring = r_link"
  by (simp_all add: ring_def)

lemma ring_linked: "linked {0, 1, 2} ring a i b j \<longleftrightarrow> (a, i, b, j) \<in>
    {(0, 0, 1, 0), (1, 0, 0, 0), (0, 1, 2, 0), (2, 0, 0, 1), (1, 1, 2, 1), (2, 1, 1, 1)}"
  by (auto simp: linked_def r_link_def r_ports split: if_splits)

lemma ring_joined: "joined {0, 1, 2} ring"
proof -
  let ?E = "{(x, y). \<exists>i j. linked {0, 1, 2} ring x i y j}"
  have e: "(0, 1) \<in> ?E" "(1, 0) \<in> ?E" "(0, 2) \<in> ?E" "(2, 0) \<in> ?E" unfolding ring_linked by auto
  have "(a, 0) \<in> ?E\<^sup>*" "(0, b) \<in> ?E\<^sup>*" if "a \<in> {0, 1, 2}" "b \<in> {0, 1, 2}" for a b
    using that e by (auto intro: r_into_rtrancl)
  then have "(a, b) \<in> ?E\<^sup>*" if "a \<in> {0, 1, 2}" "b \<in> {0, 1, 2}" for a b using that by (meson rtrancl_trans)
  moreover have "\<forall>a i b j. linked {0, 1, 2} ring a i b j \<longrightarrow> a \<noteq> b \<and> linked {0, 1, 2} ring b j a i"
    unfolding ring_linked by auto
  ultimately show ?thesis unfolding joined_def by (intro conjI ballI) auto
qed

lemma r_vectors:
  "vector (r_port role rt cost bridge port) = (BridgeId 32768 (r_id rt), cost, BridgeId 32768 (r_id bridge), 128, of_nat port)"
  "pi_role (r_port role rt cost bridge port) = role" "pi_linkCost (r_port role rt cost bridge port) = 19"
  "pi_priority (r_port role rt cost bridge port) = 128"
  "rootId (r_port role rt cost bridge port) = BridgeId 32768 (r_id rt)"
  by (simp_all add: r_port_def vector_def)

lemma r_less:
  "BridgeId 32768 (r_id 0) < BridgeId 32768 (r_id 1)" "BridgeId 32768 (r_id 0) < BridgeId 32768 (r_id 2)"
  "BridgeId 32768 (r_id 1) < BridgeId 32768 (r_id 2)"
  by (simp_all add: bridge_id_less)

lemma r_fields:
  "sRootId (r_bridge n) = BridgeId 32768 (r_id 0)" "sIsRoot (r_bridge n) \<longleftrightarrow> n = 0"
  "ownId (r_bridge 0) = BridgeId 32768 (r_id 0)" "ownId (r_bridge 1) = BridgeId 32768 (r_id 1)" "ownId (r_bridge 2) = BridgeId 32768 (r_id 2)"
  "sRootPathCost (r_bridge n) = (if n = 0 then 0 else 19)" "sRootPort (r_bridge n) = 0"
  "sDesPorts (r_bridge n) = (if n = 0 then [0, 1] else if n = 1 then [1] else [])"
  by (simp_all add: r_bridge_def r_stp_def)

lemma r_rootIds: "rootId ` set (sPorts (r_bridge n)) = {BridgeId 32768 (r_id 0), if n = 1 then BridgeId 32768 (r_id 1) else BridgeId 32768 (r_id 0)}"
  by (simp add: r_bridge_def r_stp_def r_vectors)

lemma r_elected: "n \<in> {0, 1, 2} \<Longrightarrow> root_elected (r_bridge n)"
proof -
  assume n: "n \<in> {0, 1, 2}"
  then have own: "ownId (r_bridge n) = (if n = 0 then BridgeId 32768 (r_id 0) else if n = 1 then BridgeId 32768 (r_id 1) else BridgeId 32768 (r_id 2))"
    using r_fields(3-5) by (auto simp del: bridge_id.inject)
  have "Min (insert (ownId (r_bridge n)) (rootId ` set (sPorts (r_bridge n)))) = BridgeId 32768 (r_id 0)"
    unfolding own r_rootIds by (rule Min_eqI) (use r_less in \<open>auto simp del: bridge_id.inject of_nat_0\<close>)
  moreover have "n = 0 \<longleftrightarrow> BridgeId 32768 (r_id 0) = ownId (r_bridge n)"
    using n r_less unfolding own by (auto simp del: bridge_id.inject of_nat_0)
  ultimately show ?thesis unfolding root_elected_def r_fields(1,2) by simp
qed

lemma r_roles: "pi_role (sPorts (r_bridge n) ! 0) = (if n = 0 then DESIGNATED else ROOT)"
  "pi_role (sPorts (r_bridge n) ! Suc 0) = (if n \<le> 1 then DESIGNATED else ALTERNATE)"
  by (simp_all add: r_ports r_vectors)

lemma r_role_by_vector: "role_by_vector (r_bridge 1) (Suc 0) = DESIGNATED" "role_by_vector (r_bridge 2) (Suc 0) = ALTERNATE"
proof -
  have p: "sPorts (r_bridge 1) ! Suc 0 = r_port DESIGNATED 1 0 1 1" "sPorts (r_bridge 2) ! Suc 0 = r_port ALTERNATE 0 38 1 1"
    by (simp_all add: r_ports)
  have c: "sRootPathCost (r_bridge 1) = 19" "sRootPathCost (r_bridge 2) = 19" by (simp_all add: r_fields)
  show "role_by_vector (r_bridge 1) (Suc 0) = DESIGNATED"
    unfolding role_by_vector_def bridgeGlobal_eq p r_vectors r_fields(1,4) lex_less using r_less(1) by (simp del: of_nat_0 of_nat_1)
  have e: "(19 :: u32) + 19 = 38" by simp
  show "role_by_vector (r_bridge 2) (Suc 0) = ALTERNATE"
    unfolding role_by_vector_def bridgeGlobal_eq p r_vectors r_fields(1,5) c e lex_less using r_less(3)
    by (simp del: bridge_id.inject of_nat_0 of_nat_1 of_nat_numeral add: order_less_not_sym [OF r_less(3)])
qed

lemma r_decided:
  assumes "n \<in> {0, 1, 2}"
  shows "decided (r_bridge n)"
proof -
  have two: "sNumPorts (r_bridge n) = Suc (Suc 0)" by (simp add: r_ports)
  have des: "sDesPorts (r_bridge n) = filter (\<lambda>i. pi_role (sPorts (r_bridge n) ! i) = DESIGNATED) [0..<sNumPorts (r_bridge n)]"
    unfolding two using r_roles [of n] by (simp add: r_fields upt_rec)
  have "if sIsRoot (r_bridge n) then roles_root (r_bridge n) else roles_other (r_bridge n)"
  proof (cases "n = 0")
    case True
    then show ?thesis using two by (auto simp: roles_root_def all_set_conv_all_nth less_Suc_eq r_roles r_fields)
  next
    case False
    have v: "vector (sPorts (r_bridge n) ! 0) \<le> vector (sPorts (r_bridge n) ! Suc 0)"
      using assms False r_less(1) unfolding r_ports r_vectors
      by (auto simp: r_vectors less_eq_prod_def simp del: of_nat_0 of_nat_1 of_nat_Suc bridge_id.inject)
    have "rootId (sPorts (r_bridge n) ! 0) = BridgeId 32768 (r_id 0)" using False by (auto simp: r_ports r_vectors simp del: bridge_id.inject of_nat_0)
    moreover have "pi_rootPathCost (sPorts (r_bridge n) ! 0) = 19" using False by (simp add: r_ports r_port_def)
    moreover have "pi_role (sPorts (r_bridge n) ! Suc 0) = role_by_vector (r_bridge n) (Suc 0)"
      using assms False r_role_by_vector r_roles(2) by auto
    ultimately show ?thesis
      using False v by (simp add: roles_other_nth two less_Suc_eq r_roles r_fields all_conj_distrib)
  qed
  then show ?thesis using des r_elected [OF assms] unfolding decided_def by blast
qed

lemma ring_running: "running {0, 1, 2} ring"
proof -
  have "inj_on (\<lambda>a. ownId (r_bridge a)) {0, 1, 2}"
    by (auto simp: inj_on_def r_bridge_def r_stp_def)
  moreover have "\<forall>a i b j. linked {0, 1, 2} ring a i b j \<longrightarrow> nt_cost ring a + nt_linkCost ring a i < 2 ^ 32
      \<and> nt_cost ring a + nt_linkCost ring b j < 2 ^ 32"
    unfolding ring_linked by (auto simp: r_ports r_vectors r_fields)
  moreover have "nt_role ring a i \<noteq> DISABLED \<and> nt_linkCost ring a i = 19" if "i < sNumPorts (r_bridge a)" for a i
  proof -
    have "i = 0 \<or> i = Suc 0" using that by (auto simp: r_ports)
    then show ?thesis by (auto simp: r_ports r_vectors split: if_splits)
  qed
  then have "\<forall>a \<in> {0, 1, 2}. \<forall>i < sNumPorts (r_bridge a). nt_role ring a i \<noteq> DISABLED \<and> 0 < nt_linkCost ring a i" by simp
  moreover have "\<forall>a. 0 < sCurrentMaxAge (r_bridge a)" by (simp add: r_bridge_def r_stp_def)
  ultimately show ?thesis unfolding running_def ring_simps using r_decided by blast
qed

lemma ring_settled: "settled {0, 1, 2} ring"
proof -
  have h: "vector (nt_port ring b j) = heard ring a i b j" if "(a, i, b, j) \<in> {(0, 0, 1, 0), (0, 1, 2, 0), (1, 1, 2, 1)}" for a i b j
    using that unfolding heard_eq unfolding ring_simps by (auto simp: r_ports r_vectors r_bridge_def r_stp_def)
  have age: "bp_messageAge (nt_bpdu ring a i) < bp_maxAge (nt_bpdu ring a i)" for a i
    by (simp add: make_BPDU_ages r_bridge_def r_stp_def)
  have s: "fst (isSuperiorBPDU (nt_bpdu ring a i) (nt_port ring b j))
      \<and> vector (snd (isSuperiorBPDU (nt_bpdu ring a i) (nt_port ring b j))) = vector (nt_port ring b j)"
    if "(a, i, b, j) \<in> {(0, 0, 1, 0), (0, 1, 2, 0), (1, 1, 2, 1)}" for a i b j
  proof -
    have f: "fst (isSuperiorBPDU (nt_bpdu ring a i) (nt_port ring b j))"
      using isSuperiorBPDU_vector(2) [of "nt_bpdu ring a i" "nt_port ring b j"] h [OF that] by fastforce
    then show ?thesis using isSuperiorBPDU_vector(1) [OF f age] h [OF that] by simp
  qed
  have d: "(a, i, b, j) \<in> {(0, 0, 1, 0), (0, 1, 2, 0), (1, 1, 2, 1)}"
    if "linked {0, 1, 2} ring a i b j" "nt_role ring a i = DESIGNATED" for a i b j
    using that unfolding ring_linked by (auto simp: r_roles)
  have n: "\<exists>a i. linked {0, 1, 2} ring b j a i \<and> nt_role ring a i = DESIGNATED \<and> (a, i, b, j) \<in> {(0, 0, 1, 0), (0, 1, 2, 0), (1, 1, 2, 1)}"
    if "b \<in> {0, 1, 2}" "j < sNumPorts (r_bridge b)" "nt_role ring b j \<noteq> DESIGNATED" for b j
  proof -
    have "j = 0 \<or> j = Suc 0" using that(2) by (auto simp: r_ports)
    then have "(b, j) \<in> {(1, 0), (2, 0), (2, 1)}" using that(1,3) by (auto simp: r_roles)
    then have "\<exists>a i :: nat. (a :: nat, i, b, j) \<in> {(0, 0, 1, 0), (0, 1, 2, 0), (1, 1, 2, 1)}" by auto
    then obtain a i :: nat where ai: "(a, i, b, j) \<in> {(0, 0, 1, 0), (0, 1, 2, 0), (1, 1, 2, 1)}" by blast
    then have "linked {0, 1, 2} ring b j a i" unfolding ring_linked by auto
    moreover have "nt_role ring a i = DESIGNATED" using ai by (auto simp: r_roles)
    ultimately show ?thesis using ai by blast
  qed
  show ?thesis
    unfolding settled_def
  proof (intro conjI allI impI ballI)
    fix a i b j assume "linked {0, 1, 2} ring a i b j" "nt_role ring a i = DESIGNATED"
    from s [OF d [OF this]]
    show "vector (snd (isSuperiorBPDU (nt_bpdu ring a i) (nt_port ring b j))) = vector (nt_port ring b j)" by blast
  next
    fix b j assume "b \<in> {0, 1, 2}" "j < sNumPorts (nt_bridge ring b)" "nt_role ring b j \<noteq> DESIGNATED"
    then obtain a i where "linked {0, 1, 2} ring b j a i" "nt_role ring a i = DESIGNATED"
        "(a, i, b, j) \<in> {(0, 0, 1, 0), (0, 1, 2, 0), (1, 1, 2, 1)}"
      using n [of b j] by (metis ring_simps(1))
    with s show "\<exists>a i. linked {0, 1, 2} ring b j a i \<and> nt_role ring a i = DESIGNATED
        \<and> fst (isSuperiorBPDU (nt_bpdu ring a i) (nt_port ring b j))" by blast
  qed
qed

section \<open>Properties\<close>

text \<open>
  C16. A settled network has exactly one root, the bridge with the least identifier: every bridge knows it, and no
  other believes to be the root. Every other bridge has exactly one parent, the neighbour at its root port, and from
  parent to parent every bridge comes to the root: the parents form a tree that spans the network.
\<close>

theorem stp_spanning_tree:
  assumes "joined N net" and "running N net" and "settled N net"
  shows "\<exists>root \<in> N. ownId (nt_bridge net root) = Min ((\<lambda>a. ownId (nt_bridge net a)) ` N)
    \<and> (\<forall>b \<in> N. sRootId (nt_bridge net b) = ownId (nt_bridge net root)
         \<and> (sIsRoot (nt_bridge net b) \<longleftrightarrow> b = root)
         \<and> (b \<noteq> root \<longrightarrow> (\<exists>!x. parent_link N net (fst x) (snd x) b))
         \<and> (root, b) \<in> {(x, y). \<exists>i. parent_link N net x i y}\<^sup>*)"
proof -
  obtain root where r: "root \<in> N" "ownId (nt_bridge net root) = Min ((\<lambda>a. ownId (nt_bridge net a)) ` N)"
    and b: "\<And>b. b \<in> N \<Longrightarrow> sRootId (nt_bridge net b) = ownId (nt_bridge net root)"
      "\<And>b. b \<in> N \<Longrightarrow> sIsRoot (nt_bridge net b) \<longleftrightarrow> b = root"
      "\<And>b. b \<in> N \<Longrightarrow> (root, b) \<in> {(x, y). \<exists>i. parent_link N net x i y}\<^sup>*"
    by (rule the_root [OF assms]) (rule that)
  have "\<exists>!x. parent_link N net (fst x) (snd x) b" if bN: "b \<in> N" "b \<noteq> root" for b
  proof -
    have "\<not> sIsRoot (nt_bridge net b)" using b(2) bN by blast
    then obtain a i where a: "parent_link N net a i b" by (rule parent [OF assms bN(1)])
    have same: "(a', i') = (a, i)" if "parent_link N net a' i' b" for a' i'
    proof -
      have "linked N net b (sRootPort (nt_bridge net b)) a' i'" "linked N net b (sRootPort (nt_bridge net b)) a i"
        using that a linked_sym [OF assms(1)] unfolding parent_link_def by blast+
      then show ?thesis by (simp add: linked_def)
    qed
    show ?thesis
    proof (rule ex1I)
      show "parent_link N net (fst (a, i)) (snd (a, i)) b" using a by simp
      show "x = (a, i)" if "parent_link N net (fst x) (snd x) b" for x using same [OF that] by simp
    qed
  qed
  note unique = this
  show ?thesis
  proof (intro bexI [OF _ r(1)] conjI ballI impI)
    fix b assume b': "b \<in> N"
    show "\<exists>!x. parent_link N net (fst x) (snd x) b" if "b \<noteq> root" by (rule unique [OF b' that])
    show "sRootId (nt_bridge net b) = ownId (nt_bridge net root)" by (rule b(1) [OF b'])
    show "sIsRoot (nt_bridge net b) \<longleftrightarrow> b = root" by (rule b(2) [OF b'])
    show "(root, b) \<in> {(x, y). \<exists>i. parent_link N net x i y}\<^sup>*" by (rule b(3) [OF b'])
  qed (rule r(2))
qed

theorem stp_spanning_tree_witness:
  "(\<exists>root \<in> {0, 1, 2}. \<forall>b \<in> {0, 1, 2}. sIsRoot (nt_bridge ring b) \<longleftrightarrow> b = root) \<and> pi_role (nt_port ring 2 1) = ALTERNATE"
  using stp_spanning_tree [OF ring_joined ring_running ring_settled] by (auto simp: r_ports r_vectors)

text \<open>
  C17. In a settled network every link has exactly one designated end, and the links that carry frames, with a root
  port or a designated port at both ends, are exactly the links to the parents: so there is no loop, and every
  bridge is still connected.
\<close>

theorem stp_active_links:
  assumes "joined N net" and "running N net" and "settled N net" and "linked N net a i b j"
  shows "(nt_role net a i = DESIGNATED \<longleftrightarrow> nt_role net b j \<noteq> DESIGNATED)
    \<and> (nt_role net a i \<in> {ROOT, DESIGNATED} \<and> nt_role net b j \<in> {ROOT, DESIGNATED} \<longleftrightarrow>
         parent_link N net a i b \<and> j = sRootPort (nt_bridge net b)
         \<or> parent_link N net b j a \<and> i = sRootPort (nt_bridge net a))"
proof -
  have ends: "nt_role net a i = DESIGNATED \<longleftrightarrow> nt_role net b j \<noteq> DESIGNATED" by (rule exactly_one_end [OF assms])
  have root: "nt_role net d k = ROOT \<longleftrightarrow> parent_link N net c h d \<and> k = sRootPort (nt_bridge net d)"
    if l: "linked N net c h d k" for c h d k
  proof -
    note m = linked_mem [OF assms(1) l]
    have "decided (nt_bridge net d)" "nt_role net d k \<noteq> DISABLED" using running_node(1,2) [OF assms(2)] m by blast+
    from decided_port(3) [OF this(1) _ this(2)] show ?thesis using m l by (auto simp: parent_link_def)
  qed
  show ?thesis
    using ends root [OF assms(4)] root [OF linked_sym [OF assms(1,4)]] by (cases "nt_role net a i"; cases "nt_role net b j") auto
qed

theorem stp_active_links_witness:
  "parent_link {0, 1, 2} ring 0 1 2 \<and> nt_role ring 0 1 = DESIGNATED \<and> nt_role ring 2 0 = ROOT
   \<and> (nt_role ring 1 1 = DESIGNATED \<longleftrightarrow> nt_role ring 2 1 \<noteq> DESIGNATED)"
proof -
  have l: "linked {0, 1, 2} ring 0 1 2 0" "linked {0, 1, 2} ring 1 1 2 1" by (simp_all only: ring_linked) simp_all
  have r: "nt_role ring 0 1 = DESIGNATED" "nt_role ring 2 0 = ROOT" by (simp_all add: r_ports r_vectors)
  from stp_active_links [OF ring_joined ring_running ring_settled l(1)] r
  have "parent_link {0, 1, 2} ring 0 1 2" by (auto simp: parent_link_def r_fields)
  then show ?thesis using r stp_active_links [OF ring_joined ring_running ring_settled l(2)] by blast
qed

text \<open>
  C18. In a settled network there is for every bridge a path from the root along the parents, each step going from a
  bridge to one that has its root port on a link to it; the cost of this path is the cost the bridge announces,
  and no path along any links of the network is cheaper.
\<close>

theorem stp_cheapest_paths:
  assumes "joined N net" and "running N net" and "settled N net"
    and "rt \<in> N" and "sIsRoot (nt_bridge net rt)" and "b \<in> N"
  shows "tree_path N net rt b (nt_cost net b) \<and> nt_path N net rt b (nt_cost net b)
    \<and> (\<forall>c. nt_path N net rt b c \<longrightarrow> nt_cost net b \<le> c)"
proof -
  have "nt_cost net rt = 0" using cost_of_root [OF assms(1-4)] assms(5) by blast
  moreover have t: "tree_path N net rt b (nt_cost net b)" by (rule path_of_cost [OF assms(1-3,6,4,5)])
  moreover note tree_path_nt_path [OF t]
  ultimately show ?thesis using path_cost [OF assms(1-3)] by fastforce
qed

theorem stp_cheapest_paths_witness:
  "tree_path {0, 1, 2} ring 0 2 19 \<and> nt_path {0, 1, 2} ring 0 2 19 \<and> \<not> nt_path {0, 1, 2} ring 0 2 18"
  using stp_cheapest_paths [OF ring_joined ring_running ring_settled, of 0 2] by (auto simp: r_fields)

end
