(* ===== verification/EtherLLC.thy ===== *)
theory EtherLLC
  imports EtherFrame NodeOperation
begin

text \<open>
  \<open>linklayer/ethernet/EtherLLC\<close>: the LLC sublayer. Higher layers register a DSAP for the gate they
  are connected to; a packet from above becomes an 802.3 frame with an LLC header, a frame from the
  MAC goes to the gate that is registered for its DSAP. The module is the record \<open>llc\<close>; \<open>lowerOut\<close>
  and \<open>upperOut\<close> log what was sent, the latter with the index of the gate.
\<close>

definition IEEE802CTRL_REGISTER_DSAP :: int where "IEEE802CTRL_REGISTER_DSAP = 2004"
definition IEEE802CTRL_DEREGISTER_DSAP :: int where "IEEE802CTRL_DEREGISTER_DSAP = 2005"

lemmas llc_kinds = IEEE802CTRL_DATA_def IEEE802CTRL_REGISTER_DSAP_def
  IEEE802CTRL_DEREGISTER_DSAP_def IEEE802CTRL_SENDPAUSE_def

record 'p llc =
  llcSeqNum :: int
  dsapToPort :: "(int, nat) omap"
  llcIsUp :: bool
  dsapsRegistered :: int
  llcFromHigherLayer :: int
  llcFromMAC :: int
  llcPassedUp :: int
  droppedUnknownDSAP :: int
  llcLowerOut :: "'p EtherFrame list"
  llcUpperOut :: "(nat \<times> 'p cPacket) list"

text \<open>
  Arrivals: any link layer message on \<open>lowerLayerIn\<close>; on \<open>upperLayerIn[port]\<close> a \<open>cMessage\<close>, which
  may be a \<open>cPacket\<close> (the flag) or not. A message that is no packet has no length; the field is not
  read then.
\<close>

datatype 'p llc_msg = LlcFromMAC "'p EtherTraffic" | LlcFromHigher nat bool "'p cPacket"

section \<open>Life cycle\<close>

definition llc_start :: "'p llc \<Rightarrow> 'p llc" where
  "llc_start s = (let m = [] in s\<lparr>dsapToPort := m, dsapsRegistered := int (length m), llcIsUp := True\<rparr>)"

definition llc_stop :: "'p llc \<Rightarrow> 'p llc" where
  "llc_stop s = (let m = [] in s\<lparr>dsapToPort := m, dsapsRegistered := int (length m), llcIsUp := False\<rparr>)"

text \<open>\<open>nodeUp\<close>: there is no status module in the node, or it says UP. The constructor leaves \<open>isUp\<close> unset; stage 1 sets it.\<close>

definition llc_initialize :: "bool \<Rightarrow> 'p llc" where
  "llc_initialize nodeUp =
     (let s = \<lparr>llcSeqNum = 0, dsapToPort = [], llcIsUp = nodeUp, dsapsRegistered = 0,
               llcFromHigherLayer = 0, llcFromMAC = 0, llcPassedUp = 0, droppedUnknownDSAP = 0,
               llcLowerOut = [], llcUpperOut = []\<rparr>
      in if nodeUp then llc_start s else s)"

fun llc_handleOperationStage :: "LifecycleOperation \<Rightarrow> nat \<Rightarrow> 'p llc \<Rightarrow> 'p llc" where
  "llc_handleOperationStage NodeStartOperation stage s =
     (if stage = start_STAGE_NETWORK_LAYER then llc_start s else s)"
| "llc_handleOperationStage NodeShutdownOperation stage s =
     (if stage = shutdown_STAGE_NETWORK_LAYER then llc_stop s else s)"
| "llc_handleOperationStage NodeCrashOperation stage s =
     (if stage = crash_STAGE_CRASH then llc_stop s else s)"
| "llc_handleOperationStage OtherOperation stage s = s"

section \<open>Data\<close>

definition findPortForSAP :: "'p llc \<Rightarrow> int \<Rightarrow> int" where
  "findPortForSAP s dsap = (case map_of (dsapToPort s) dsap of None \<Rightarrow> -1 | Some port \<Rightarrow> int port)"

definition llc_processPacketFromHigherLayer :: "'p llc \<Rightarrow> 'p cPacket \<Rightarrow> 'p llc res" where
  "llc_processPacketFromHigherLayer s msg =
     (if pk_byteLength msg > MAX_ETHERNET_DATA_BYTES - ETHER_LLC_HEADER_LENGTH
      then Inl (RuntimeError ''packet plus LLC header exceeds maximum Ethernet payload length'')
      else
        let s1 = s\<lparr>llcFromHigherLayer := llcFromHigherLayer s + 1\<rparr> in
        case pk_ctrl msg of
          None \<Rightarrow> Inl (RuntimeError ''received without Ieee802Ctrl'')
        | Some etherctrl \<Rightarrow>
            let msg1 = msg\<lparr>pk_ctrl := None\<rparr>;
                frame = new_frame 0 (ctl_dest etherctrl)
                          (EtherFrameWithLLC (ctl_dsap etherctrl) (ctl_ssap etherctrl) 0)
                          (ETHER_MAC_FRAME_BYTES + ETHER_LLC_HEADER_LENGTH);
                frame1 = pad_frame (encapsulate frame msg1)
            in Inr (s1\<lparr>llcLowerOut := llcLowerOut s1 @ [frame1]\<rparr>))"

text \<open>
  The \<open>dynamic_cast\<close> to \<open>EtherFrameWithLLC\<close>: its fields DSAP and SSAP. \<open>EtherFrameWithSNAP\<close> is a
  subclass.
\<close>

fun llc_cast :: "frame_class \<Rightarrow> (int \<times> int) option" where
  "llc_cast (EtherFrameWithLLC dsap ssap control) = Some (dsap, ssap)"
| "llc_cast (EtherFrameWithSNAP dsap ssap control orgCode localcode) = Some (dsap, ssap)"
| "llc_cast _ = None"

definition llc_processFrameFromMAC :: "'p llc \<Rightarrow> 'p EtherFrame \<Rightarrow> int \<times> int \<Rightarrow> 'p llc res" where
  "llc_processFrameFromMAC s frame saps =
     (let sap = fst saps; port = findPortForSAP s sap in
      if port < 0 then Inr (s\<lparr>droppedUnknownDSAP := droppedUnknownDSAP s + 1\<rparr>)
      else bindR (decapsulate frame) (\<lambda>(frame1, higherlayermsg).
        let etherctrl = new_Ieee802Ctrl\<lparr>ctl_ssap := snd saps, ctl_dsap := sap,
                                         ctl_src := fr_src frame1, ctl_dest := fr_dest frame1\<rparr>;
            msg1 = higherlayermsg\<lparr>pk_ctrl := Some etherctrl\<rparr>
        in Inr (s\<lparr>llcFromMAC := llcFromMAC s + 1, llcPassedUp := llcPassedUp s + 1,
                  llcUpperOut := llcUpperOut s @ [(nat port, msg1)]\<rparr>)))"

section \<open>Registration and PAUSE\<close>

definition handleRegisterSAP :: "'p llc \<Rightarrow> nat \<Rightarrow> 'p cPacket \<Rightarrow> 'p llc res" where
  "handleRegisterSAP s port msg =
     (case pk_ctrl msg of
        None \<Rightarrow> Inl (RuntimeError ''received without Ieee802Ctrl'')
      | Some etherctrl \<Rightarrow>
          let dsap = ctl_dsap etherctrl in
          if map_of (dsapToPort s) dsap \<noteq> None then Inl (RuntimeError ''DSAP already registered'')
          else let m = om_put dsap port (dsapToPort s)
               in Inr (s\<lparr>dsapToPort := m, dsapsRegistered := int (length m)\<rparr>))"

definition handleDeregisterSAP :: "'p llc \<Rightarrow> 'p cPacket \<Rightarrow> 'p llc res" where
  "handleDeregisterSAP s msg =
     (case pk_ctrl msg of
        None \<Rightarrow> Inl (RuntimeError ''received without Ieee802Ctrl'')
      | Some etherctrl \<Rightarrow>
          let dsap = ctl_dsap etherctrl in
          if map_of (dsapToPort s) dsap = None then Inl (RuntimeError ''DSAP not registered'')
          else let m = om_erase dsap (dsapToPort s)
               in Inr (s\<lparr>dsapToPort := m, dsapsRegistered := int (length m)\<rparr>))"

definition llc_handleSendPause :: "'p llc \<Rightarrow> 'p cPacket \<Rightarrow> 'p llc res" where
  "llc_handleSendPause s msg =
     (case pk_ctrl msg of
        None \<Rightarrow> Inl (RuntimeError ''PAUSE command received without Ieee802Ctrl'')
      | Some etherctrl \<Rightarrow>
          let pauseUnits = ctl_pauseUnits etherctrl;
              s1 = s\<lparr>llcSeqNum := llcSeqNum s + 1\<rparr>;
              dest = ctl_dest etherctrl;
              dest1 = (if isUnspecified dest then MULTICAST_PAUSE_ADDRESS else dest);
              frame = new_frame 0 dest1 (EtherPauseFrame pauseUnits) ETHER_PAUSE_COMMAND_PADDED_BYTES
          in Inr (s1\<lparr>llcLowerOut := llcLowerOut s1 @ [frame]\<rparr>))"

section \<open>The handler\<close>

fun llc_handleMessage :: "'p llc \<Rightarrow> 'p llc_msg \<Rightarrow> 'p llc res" where
  "llc_handleMessage s (LlcFromMAC traffic) =
     (if \<not> llcIsUp s then Inr s
      else case traffic of
        EtherFrameMsg frame \<Rightarrow>
          (case llc_cast (fr_class frame) of
             Some saps \<Rightarrow> llc_processFrameFromMAC s frame saps
           | None \<Rightarrow> Inr s)
      | _ \<Rightarrow> Inr s)"
| "llc_handleMessage s (LlcFromHigher port isPacket msg) =
     (if \<not> llcIsUp s then Inr s
      else if pk_kind msg = IEEE802CTRL_DATA then
        (if isPacket then llc_processPacketFromHigherLayer s msg else Inl BadCast)
      else if pk_kind msg = IEEE802CTRL_REGISTER_DSAP then handleRegisterSAP s port msg
      else if pk_kind msg = IEEE802CTRL_DEREGISTER_DSAP then handleDeregisterSAP s msg
      else if pk_kind msg = IEEE802CTRL_SENDPAUSE then llc_handleSendPause s msg
      else Inl (RuntimeError ''unknown message kind''))"

declare llc_processPacketFromHigherLayer_def [step_defs] llc_processFrameFromMAC_def [step_defs]
  handleRegisterSAP_def [step_defs] handleDeregisterSAP_def [step_defs]
  llc_handleSendPause_def [step_defs] llc_start_def [step_defs] llc_stop_def [step_defs]

section \<open>Runs\<close>

text \<open>What happens to the module: arrivals and life cycle operations. A run stops at the first error.\<close>

datatype 'p llc_event = LlcArrival "'p llc_msg" | LlcOperation LifecycleOperation nat

fun llc_event_step :: "'p llc \<Rightarrow> 'p llc_event \<Rightarrow> 'p llc res" where
  "llc_event_step s (LlcArrival m) = llc_handleMessage s m"
| "llc_event_step s (LlcOperation operation stage) = Inr (llc_handleOperationStage operation stage s)"

fun llc_run :: "'p llc \<Rightarrow> 'p llc_event list \<Rightarrow> 'p llc res" where
  "llc_run s [] = Inr s"
| "llc_run s (e # es) = bindR (llc_event_step s e) (\<lambda>s1. llc_run s1 es)"

text \<open>
  The contract: who is registered is a partial map from DSAPs to gates, or nothing while the module is
  down. It depends on the history of requests and operations only.
\<close>

fun registry_request :: "(int \<rightharpoonup> nat) \<Rightarrow> 'p llc_msg \<Rightarrow> (int \<rightharpoonup> nat)" where
  "registry_request m (LlcFromMAC traffic) = m"
| "registry_request m (LlcFromHigher port isPacket msg) =
     (case pk_ctrl msg of
        None \<Rightarrow> m
      | Some c \<Rightarrow>
          if pk_kind msg = IEEE802CTRL_REGISTER_DSAP then m(ctl_dsap c \<mapsto> port)
          else if pk_kind msg = IEEE802CTRL_DEREGISTER_DSAP then m(ctl_dsap c := None)
          else m)"

fun registry_event :: "(int \<rightharpoonup> nat) option \<Rightarrow> 'p llc_event \<Rightarrow> (int \<rightharpoonup> nat) option" where
  "registry_event r (LlcArrival m) = map_option (\<lambda>f. registry_request f m) r"
| "registry_event r (LlcOperation operation stage) =
     (if operation = NodeStartOperation \<and> stage = 3 then Some Map.empty
      else if operation = NodeShutdownOperation \<and> stage = 4 then None
      else if operation = NodeCrashOperation \<and> stage = 0 then None
      else r)"

definition registry :: "bool \<Rightarrow> 'p llc_event list \<Rightarrow> (int \<rightharpoonup> nat) option" where
  "registry nodeUp es = foldl registry_event (if nodeUp then Some Map.empty else None) es"

definition llc_abs :: "'p llc \<Rightarrow> (int \<rightharpoonup> nat) option" where
  "llc_abs s = (if llcIsUp s then Some (map_of (dsapToPort s)) else None)"

text \<open>The invariant of the table and the statistics, relative to the statistics of the first state.\<close>

definition llc_inv :: "'p llc \<Rightarrow> bool" where
  "llc_inv s \<longleftrightarrow>
     om_wf (dsapToPort s) \<and> dsapsRegistered s = int (length (dsapToPort s)) \<and>
     (\<not> llcIsUp s \<longrightarrow> dsapToPort s = []) \<and>
     llcPassedUp s = int (length (llcUpperOut s)) \<and> llcFromMAC s = llcPassedUp s \<and>
     int (length (llcLowerOut s)) = llcFromHigherLayer s + llcSeqNum s \<and>
     (\<forall>f \<in> set (llcLowerOut s). 64 \<le> fr_byteLength f \<and> fr_byteLength f \<le> 1518 \<and> fr_src f = 0)"

lemma llc_inv_initialize [inv_intros]: "llc_inv (llc_initialize up)"
  by (simp add: llc_inv_def llc_initialize_def llc_start_def Let_def)

lemma llc_abs_initialize: "llc_abs (llc_initialize up) = (if up then Some Map.empty else None)"
  by (simp add: llc_abs_def llc_initialize_def llc_start_def Let_def)

lemma llc_inv_lifecycle [inv_intros]:
  "llc_inv s \<Longrightarrow> llc_inv (llc_handleOperationStage operation stage s)"
  by (cases operation) (simp_all add: llc_inv_def llc_start_def llc_stop_def Let_def)

lemma llc_abs_lifecycle:
  "llc_abs (llc_handleOperationStage operation stage s) = registry_event (llc_abs s) (LlcOperation operation stage)"
  by (cases operation) (simp_all add: llc_abs_def llc_start_def llc_stop_def stage_defs Let_def)

lemma llc_packet_Inr:
  "llc_processPacketFromHigherLayer s msg = Inr s' \<longleftrightarrow>
   (\<exists>c. pk_ctrl msg = Some c \<and> pk_byteLength msg \<le> 1497 \<and>
     s' = s\<lparr>llcFromHigherLayer := llcFromHigherLayer s + 1,
            llcLowerOut := llcLowerOut s @
              [pad_frame (encapsulate (new_frame 0 (ctl_dest c)
                 (EtherFrameWithLLC (ctl_dsap c) (ctl_ssap c) 0) 21) (msg\<lparr>pk_ctrl := None\<rparr>))]\<rparr>)"
  by (auto simp: step_defs Let_def ether_sizes split: option.splits)

lemma llc_frame_Inr:
  "llc_processFrameFromMAC s frame (dsap, ssap) = Inr s' \<longleftrightarrow>
   (case map_of (dsapToPort s) dsap of
      None \<Rightarrow> s' = s\<lparr>droppedUnknownDSAP := droppedUnknownDSAP s + 1\<rparr>
    | Some port \<Rightarrow> (\<exists>msg. fr_encap frame = Some msg \<and>
        s' = s\<lparr>llcFromMAC := llcFromMAC s + 1, llcPassedUp := llcPassedUp s + 1,
               llcUpperOut := llcUpperOut s @ [(port, msg\<lparr>pk_ctrl := Some (new_Ieee802Ctrl
                 \<lparr>ctl_ssap := ssap, ctl_dsap := dsap, ctl_src := fr_src frame,
                  ctl_dest := fr_dest frame\<rparr>)\<rparr>)]\<rparr>))"
  by (auto simp: step_defs findPortForSAP_def decapsulate_def Let_def bindR_Inr_iff split: option.splits)

lemma llc_pause_Inr:
  "llc_handleSendPause s msg = Inr s' \<longleftrightarrow>
   (\<exists>c. pk_ctrl msg = Some c \<and>
     s' = s\<lparr>llcSeqNum := llcSeqNum s + 1,
            llcLowerOut := llcLowerOut s @
              [new_frame 0 (if isUnspecified (ctl_dest c) then MULTICAST_PAUSE_ADDRESS else ctl_dest c)
                 (EtherPauseFrame (ctl_pauseUnits c)) 64]\<rparr>)"
  by (auto simp: step_defs Let_def ether_sizes split: option.splits)

lemma llc_register_Inr:
  "handleRegisterSAP s port msg = Inr s' \<longleftrightarrow>
   (\<exists>c. pk_ctrl msg = Some c \<and> map_of (dsapToPort s) (ctl_dsap c) = None \<and>
     s' = s\<lparr>dsapToPort := om_put (ctl_dsap c) port (dsapToPort s),
            dsapsRegistered := int (length (om_put (ctl_dsap c) port (dsapToPort s)))\<rparr>)"
  by (auto simp: step_defs Let_def split: option.splits)

lemma llc_deregister_Inr:
  "handleDeregisterSAP s msg = Inr s' \<longleftrightarrow>
   (\<exists>c. pk_ctrl msg = Some c \<and> map_of (dsapToPort s) (ctl_dsap c) \<noteq> None \<and>
     s' = s\<lparr>dsapToPort := om_erase (ctl_dsap c) (dsapToPort s),
            dsapsRegistered := int (length (om_erase (ctl_dsap c) (dsapToPort s)))\<rparr>)"
  by (auto simp: step_defs Let_def split: option.splits)

lemmas llc_op_Inr = llc_packet_Inr llc_frame_Inr llc_pause_Inr llc_register_Inr llc_deregister_Inr

text \<open>A message that is handled is one of these: \<open>llc_cases\<close> goes through the branches of the handler.\<close>

lemma llc_cases [consumes 1, case_names Ignored Frame Packet Register Deregister Pause]:
  assumes "llc_handleMessage s m = Inr s'"
  obtains "s' = s" and "registry_request (map_of (dsapToPort s)) m = map_of (dsapToPort s) \<or> \<not> llcIsUp s"
  | frame dsap ssap where "m = LlcFromMAC (EtherFrameMsg frame)" and "llcIsUp s"
      and "llc_cast (fr_class frame) = Some (dsap, ssap)"
      and "llc_processFrameFromMAC s frame (dsap, ssap) = Inr s'"
  | port msg where "m = LlcFromHigher port True msg" and "llcIsUp s" and "pk_kind msg = IEEE802CTRL_DATA"
      and "llc_processPacketFromHigherLayer s msg = Inr s'"
  | port b msg where "m = LlcFromHigher port b msg" and "llcIsUp s"
      and "pk_kind msg = IEEE802CTRL_REGISTER_DSAP" and "handleRegisterSAP s port msg = Inr s'"
  | port b msg where "m = LlcFromHigher port b msg" and "llcIsUp s"
      and "pk_kind msg = IEEE802CTRL_DEREGISTER_DSAP" and "handleDeregisterSAP s msg = Inr s'"
  | port b msg where "m = LlcFromHigher port b msg" and "llcIsUp s"
      and "pk_kind msg = IEEE802CTRL_SENDPAUSE" and "llc_handleSendPause s msg = Inr s'"
proof (cases m)
  case (LlcFromMAC traffic)
  with assms that(1,2) show thesis
    by (cases traffic) (force split: if_splits option.splits)+
next
  case (LlcFromHigher port b msg)
  with assms that(1,3-6) show thesis by (simp split: if_splits)
qed

lemma llc_inv_handleMessage [inv_intros]:
  assumes "llc_inv s" and "llc_handleMessage s m = Inr s'"
  shows "llc_inv s'"
  using assms(2)
proof (cases rule: llc_cases)
  case (Frame frame dsap ssap)
  then show ?thesis using assms(1) by (auto simp: llc_frame_Inr llc_inv_def split: option.splits)
next
  case (Packet port msg)
  then show ?thesis using assms(1) by (auto simp: llc_packet_Inr llc_inv_def ether_sizes)
next
  case (Register port b msg)
  then show ?thesis using assms(1) by (auto simp: llc_register_Inr llc_inv_def)
next
  case (Deregister port b msg)
  then show ?thesis using assms(1) by (auto simp: llc_deregister_Inr llc_inv_def)
next
  case (Pause port b msg)
  then show ?thesis using assms(1) by (auto simp: llc_pause_Inr llc_inv_def)
qed (use assms(1) in simp)

lemma llc_abs_handleMessage:
  assumes "llc_inv s" and "llc_handleMessage s m = Inr s'"
  shows "llc_abs s' = registry_event (llc_abs s) (LlcArrival m)"
  using assms(2)
proof (cases rule: llc_cases)
  case (Frame frame dsap ssap)
  then show ?thesis by (auto simp: llc_frame_Inr llc_abs_def split: option.splits)
next
  case (Packet port msg)
  then show ?thesis by (auto simp: llc_packet_Inr llc_abs_def llc_kinds)
next
  case (Register port b msg)
  then show ?thesis by (auto simp: llc_register_Inr llc_abs_def)
next
  case (Deregister port b msg)
  then show ?thesis using assms(1)
    by (auto simp: llc_deregister_Inr llc_abs_def llc_inv_def map_of_om_erase llc_kinds)
next
  case (Pause port b msg)
  then show ?thesis by (auto simp: llc_pause_Inr llc_abs_def llc_kinds)
qed (auto simp: llc_abs_def)

lemma llc_run_refines:
  assumes "llc_run s es = Inr s'" and "llc_inv s"
  shows "llc_inv s' \<and> llc_abs s' = foldl registry_event (llc_abs s) es"
  using assms
proof (induction es arbitrary: s)
  case (Cons e es)
  then obtain s1 where s1: "llc_event_step s e = Inr s1" "llc_run s1 es = Inr s'" by auto
  have "llc_inv s1 \<and> llc_abs s1 = registry_event (llc_abs s) e"
  proof (cases e)
    case (LlcArrival m)
    with s1(1) Cons.prems(2) show ?thesis
      using llc_inv_handleMessage [of s m s1] llc_abs_handleMessage [of s m s1] by simp
  next
    case (LlcOperation operation stage)
    with s1(1) have "s1 = llc_handleOperationStage operation stage s" by simp
    with LlcOperation Cons.prems(2) show ?thesis
      using llc_inv_lifecycle [of s operation stage] llc_abs_lifecycle [of operation stage s] by simp
  qed
  with Cons.IH [OF s1(2)] show ?case by simp
qed simp

section \<open>Two modules on a link\<close>

text \<open>
  Messages of a higher layer at gate \<open>port\<close>, and frames from the wire, in which the MAC of the sender
  has put its address \<open>a\<close>.
\<close>

definition from_app :: "nat \<Rightarrow> (bool \<times> 'p cPacket) list \<Rightarrow> 'p llc_event list" where
  "from_app port ms = map (\<lambda>(b, m). LlcArrival (LlcFromHigher port b m)) ms"

definition from_wire :: "mac_addr \<Rightarrow> 'p EtherFrame list \<Rightarrow> 'p llc_event list" where
  "from_wire a fs = map (\<lambda>f. LlcArrival (LlcFromMAC (EtherFrameMsg (f\<lparr>fr_src := a\<rparr>)))) fs"

definition llc_frame_of :: "'p cPacket \<Rightarrow> 'p EtherFrame" where
  "llc_frame_of msg =
     (let c = the (pk_ctrl msg) in
      pad_frame (encapsulate (new_frame 0 (ctl_dest c) (EtherFrameWithLLC (ctl_dsap c) (ctl_ssap c) 0) 21)
        (msg\<lparr>pk_ctrl := None\<rparr>)))"

text \<open>The packet as the peer's higher layer gets it: of the control information, addresses and SAPs.\<close>

definition llc_delivered :: "mac_addr \<Rightarrow> 'p cPacket \<Rightarrow> 'p cPacket" where
  "llc_delivered a msg =
     (let c = the (pk_ctrl msg) in
      msg\<lparr>pk_ctrl := Some (new_Ieee802Ctrl\<lparr>ctl_ssap := ctl_ssap c, ctl_dsap := ctl_dsap c,
                             ctl_src := a, ctl_dest := ctl_dest c\<rparr>)\<rparr>)"

definition llc_sendable :: "'p cPacket \<Rightarrow> bool" where
  "llc_sendable msg \<longleftrightarrow> pk_kind msg = IEEE802CTRL_DATA \<and> pk_ctrl msg \<noteq> None \<and> pk_byteLength msg \<le> 1497"

lemma llc_run_append: "llc_run s (es @ fs) = bindR (llc_run s es) (\<lambda>s1. llc_run s1 fs)"
proof (induction es arbitrary: s)
  case (Cons e es)
  then show ?case by (cases "llc_event_step s e") simp_all
qed simp

lemma llc_run_send:
  assumes "llcIsUp s" and "\<forall>m \<in> set ms. llc_sendable m"
  shows "llc_run s (from_app port (map (Pair True) ms)) =
    Inr (s\<lparr>llcFromHigherLayer := llcFromHigherLayer s + int (length ms),
           llcLowerOut := llcLowerOut s @ map llc_frame_of ms\<rparr>)"
  using assms
proof (induction ms arbitrary: s)
  case (Cons m ms)
  define s1 where "s1 = s\<lparr>llcFromHigherLayer := llcFromHigherLayer s + 1, llcLowerOut := llcLowerOut s @ [llc_frame_of m]\<rparr>"
  have m: "llc_sendable m" and ms: "\<forall>m \<in> set ms. llc_sendable m" using Cons.prems by auto
  have "llc_processPacketFromHigherLayer s m = Inr s1"
    using m by (auto simp: llc_packet_Inr s1_def llc_sendable_def llc_frame_of_def)
  then have "llc_event_step s (LlcArrival (LlcFromHigher port True m)) = Inr s1"
    using m Cons.prems(1) by (simp add: llc_sendable_def)
  then show ?case using Cons.IH [OF _ ms, of s1] Cons.prems(1) by (simp add: from_app_def s1_def)
qed (simp add: from_app_def)

lemma llc_run_receive:
  assumes "llcIsUp s" and "\<forall>m \<in> set ms. llc_sendable m"
    and "\<forall>m \<in> set ms. map_of (dsapToPort s) (ctl_dsap (the (pk_ctrl m))) = Some port"
  shows "llc_run s (from_wire a (map llc_frame_of ms)) =
    Inr (s\<lparr>llcFromMAC := llcFromMAC s + int (length ms), llcPassedUp := llcPassedUp s + int (length ms),
           llcUpperOut := llcUpperOut s @ map (\<lambda>m. (port, llc_delivered a m)) ms\<rparr>)"
  using assms
proof (induction ms arbitrary: s)
  case (Cons m ms)
  define s1 where "s1 = s\<lparr>llcFromMAC := llcFromMAC s + 1, llcPassedUp := llcPassedUp s + 1,
      llcUpperOut := llcUpperOut s @ [(port, llc_delivered a m)]\<rparr>"
  let ?c = "the (pk_ctrl m)" and ?f = "(llc_frame_of m)\<lparr>fr_src := a\<rparr>"
  have ms: "\<forall>m \<in> set ms. llc_sendable m" using Cons.prems by auto
  have reg: "map_of (dsapToPort s) (ctl_dsap ?c) = Some port" using Cons.prems(3) by simp
  have enc: "fr_encap ?f = Some (m\<lparr>pk_ctrl := None\<rparr>)" and cl: "fr_class ?f = EtherFrameWithLLC (ctl_dsap ?c) (ctl_ssap ?c) 0"
    and ad: "fr_src ?f = a" "fr_dest ?f = ctl_dest ?c"
    by (simp_all add: llc_frame_of_def Let_def)
  have "llc_processFrameFromMAC s ?f (ctl_dsap ?c, ctl_ssap ?c) = Inr s1"
    unfolding llc_frame_Inr reg option.case
    using enc ad by (intro exI [of _ "m\<lparr>pk_ctrl := None\<rparr>"]) (simp add: s1_def llc_delivered_def Let_def)
  then have "llc_event_step s (LlcArrival (LlcFromMAC (EtherFrameMsg ?f))) = Inr s1"
    using Cons.prems(1) cl by simp
  then show ?case using Cons.IH [OF _ ms, of s1] Cons.prems by (simp add: from_wire_def s1_def)
qed (simp add: from_wire_def)

lemma llc_run_register:
  assumes "llcIsUp s" and "map_of (dsapToPort s) d = None" and "pk_kind m = IEEE802CTRL_REGISTER_DSAP"
    and "pk_ctrl m = Some c" and "ctl_dsap c = d"
  shows "llc_run s (from_app port [(b, m)]) =
    Inr (s\<lparr>dsapToPort := om_put d port (dsapToPort s), dsapsRegistered := int (length (om_put d port (dsapToPort s)))\<rparr>)"
proof -
  have "handleRegisterSAP s port m =
      Inr (s\<lparr>dsapToPort := om_put d port (dsapToPort s), dsapsRegistered := int (length (om_put d port (dsapToPort s)))\<rparr>)"
    using assms by (simp add: llc_register_Inr)
  with assms show ?thesis by (simp add: from_app_def llc_kinds)
qed

section \<open>Properties\<close>

text \<open>
  C28. The registrations are what the history says. After any run without an error, whether the module
  is up and which gate each DSAP belongs to is determined by the requests and operations alone: a start
  empties the table, a registration adds to it, a deregistration removes, and data, PAUSE requests and
  frames leave it. The statistics follow: \<open>dsapsRegistered\<close> is the number of DSAPs in the table,
  \<open>totalPassedUp\<close> the number of packets passed up, and every frame sent to the MAC comes from one
  packet or one PAUSE request and has between 64 and 1518 bytes. A registration with control
  information is accepted if and only if the DSAP is free, a deregistration if and only if it is not.
\<close>

theorem llc_registry:
  assumes "llc_run (llc_initialize up) es = Inr s"
  shows "(case registry up es of
            None \<Rightarrow> \<not> llcIsUp s \<and> dsapToPort s = []
          | Some r \<Rightarrow> llcIsUp s \<and> map_of (dsapToPort s) = r \<and> dsapsRegistered s = int (card (dom r)))
       \<and> llcPassedUp s = int (length (llcUpperOut s))
       \<and> int (length (llcLowerOut s)) = llcFromHigherLayer s + llcSeqNum s
       \<and> (\<forall>f \<in> set (llcLowerOut s). 64 \<le> fr_byteLength f \<and> fr_byteLength f \<le> 1518)
       \<and> (\<forall>r port b m c. registry up es = Some r \<and> pk_ctrl m = Some c \<longrightarrow>
            (pk_kind m = IEEE802CTRL_REGISTER_DSAP \<longrightarrow>
               (\<exists>t. llc_handleMessage s (LlcFromHigher port b m) = Inr t) = (r (ctl_dsap c) = None))
          \<and> (pk_kind m = IEEE802CTRL_DEREGISTER_DSAP \<longrightarrow>
               (\<exists>t. llc_handleMessage s (LlcFromHigher port b m) = Inr t) = (r (ctl_dsap c) \<noteq> None)))"
proof -
  have inv: "llc_inv s" and ab: "registry up es = llc_abs s"
    using llc_run_refines [OF assms llc_inv_initialize]
    by (auto simp: registry_def llc_abs_initialize simp del: llc_run.simps)
  have "distinct (map fst (dsapToPort s))" using inv by (simp add: llc_inv_def om_wf_distinct)
  then have "card (dom (map_of (dsapToPort s))) = length (dsapToPort s)"
    by (metis distinct_card dom_map_of_conv_image_fst length_map list.set_map)
  with inv show ?thesis unfolding ab
    by (auto simp: llc_inv_def llc_abs_def llc_kinds llc_register_Inr llc_deregister_Inr)
qed

lemma llc_registry_witness:
  "\<exists>s. llc_run (llc_initialize True :: unit llc)
         (from_app 3 [(False, \<lparr>pk_kind = IEEE802CTRL_REGISTER_DSAP, pk_byteLength = 0,
            pk_ctrl = Some (new_Ieee802Ctrl\<lparr>ctl_dsap := 7\<rparr>), pk_data = ()\<rparr>)]) = Inr s
     \<and> map_of (dsapToPort s) = [7 \<mapsto> 3] \<and> dsapsRegistered s = 1"
proof -
  let ?m = "\<lparr>pk_kind = IEEE802CTRL_REGISTER_DSAP, pk_byteLength = 0,
            pk_ctrl = Some (new_Ieee802Ctrl\<lparr>ctl_dsap := 7\<rparr>), pk_data = ()\<rparr>"
  let ?es = "from_app 3 [(False, ?m)] :: unit llc_event list"
  have "llcIsUp (llc_initialize True :: unit llc)" and "dsapToPort (llc_initialize True :: unit llc) = []"
    by (simp_all add: llc_initialize_def llc_start_def Let_def)
  then obtain s where s: "llc_run (llc_initialize True :: unit llc) ?es = Inr s"
    using llc_run_register [of "llc_initialize True" 7 ?m "new_Ieee802Ctrl\<lparr>ctl_dsap := 7\<rparr>" 3 False] by simp
  have "registry True ?es = Some [7 \<mapsto> 3]"
    by (simp add: registry_def from_app_def)
  with llc_registry [OF s] s show ?thesis by auto
qed

end
