(* ===== verification/EtherApps.thy ===== *)
theory EtherApps
  imports EtherLLC AppTimer
begin

text \<open>
  \<open>applications/ethernet/EtherAppCli\<close>, \<open>EtherAppSrv\<close> and \<open>EtherTrafGen\<close>: the client that asks a
  server for a number of bytes over the LLC, the server, and the generator of background traffic.
  What a parameter that may be random gives at a call is an argument of the operation (\<open>draw\<close>);
  the conversion of a double to \<open>simtime_t\<close> and the lookup of a destination module are fields of the
  parameter record, as in \<open>EtherAppGoose\<close>. What was sent on the gate \<open>out\<close> is logged with a flag
  that tells packets from plain messages.
\<close>

section \<open>Names and packets\<close>

text \<open>\<open>%d\<close> of \<open>sprintf\<close>.\<close>

function nat_str :: "nat \<Rightarrow> string" where
  "nat_str n = (if n < 10 then [char_of (48 + n)] else nat_str (n div 10) @ [char_of (48 + n mod 10)])"
  by auto
termination by (relation "measure id") auto

declare nat_str.simps [simp del]

definition int_str :: "int \<Rightarrow> string" where
  "int_str i = (if i < 0 then CHR ''-'' # nat_str (nat (- i)) else nat_str (nat i))"

text \<open>Writing a string into a buffer of \<open>n\<close> characters.\<close>

definition sprintf_buf :: "nat \<Rightarrow> string \<Rightarrow> string res" where
  "sprintf_buf n s = (if length s < n then Inr s else Inl BufferOverflow)"

text \<open>The packets of \<open>EtherApp.msg\<close>, with their names, and all others.\<close>

datatype app_payload =
    EtherAppReq string int int
  | EtherAppResp string int int
  | PlainMessage string

fun msg_name :: "app_payload \<Rightarrow> string" where
  "msg_name (EtherAppReq name _ _) = name"
| "msg_name (EtherAppResp name _ _) = name"
| "msg_name (PlainMessage name) = name"

type_synonym app_msg = "bool \<times> app_payload cPacket"

definition register_msg :: "int \<Rightarrow> app_msg" where
  "register_msg dsap =
     (False, \<lparr>pk_kind = IEEE802CTRL_REGISTER_DSAP, pk_byteLength = 0,
              pk_ctrl = Some (new_Ieee802Ctrl\<lparr>ctl_dsap := dsap\<rparr>), pk_data = PlainMessage ''register_DSAP''\<rparr>)"

text \<open>\<open>resolveDestMACAddress\<close>, the same code in the client and in the generator.\<close>

definition resolve_dest :: "(string \<Rightarrow> string option option) \<Rightarrow> string \<Rightarrow> mac_addr res" where
  "resolve_dest env_module destAddress =
     (if destAddress \<noteq> [] then
        (case tryParse 0 destAddress of
           (True, a) \<Rightarrow> Inr a
         | (False, a) \<Rightarrow>
             (case env_module destAddress of
                None \<Rightarrow> Inl (RuntimeError ''cannot resolve MAC address'')
              | Some None \<Rightarrow> Inl (RuntimeError ''module has no mac submodule'')
              | Some (Some addr) \<Rightarrow> setAddress a addr))
      else Inr 0)"

section \<open>EtherAppCli\<close>

record cli_par =
  cp_destAddress :: string
  cp_startTime :: simtime
  cp_stopTime :: simtime
  cp_localSAP :: int
  cp_remoteSAP :: int
  cp_registerSAP :: bool
  cp_id :: int
  cp_simtime :: "real \<Rightarrow> simtime"
  cp_module :: "string \<Rightarrow> string option option"

record cli_draw =
  dr_reqLength :: int
  dr_respLength :: int
  dr_sendInterval :: real

record cli =
  cSeqNum :: int
  cLocalSAP :: int
  cRemoteSAP :: int
  cDest :: mac_addr
  cTimer :: "app_timer option"
  cStartTime :: simtime
  cStopTime :: simtime
  cSent :: int
  cReceived :: int
  cOut :: "app_msg list"

definition cli_START :: int where "cli_START = 100"
definition cli_NEXT :: int where "cli_NEXT = 101"

definition cli_isGenerator :: "cli_par \<Rightarrow> bool" where
  "cli_isGenerator par \<longleftrightarrow> cp_destAddress par \<noteq> []"

definition cli_scheduleNextPacket :: "cli_par \<Rightarrow> simtime \<Rightarrow> bool \<Rightarrow> real \<Rightarrow> cli \<Rightarrow> cli res" where
  "cli_scheduleNextPacket par cur start interval s =
     (case cTimer s of
        None \<Rightarrow> Inl NullDeref
      | Some t \<Rightarrow>
          let (next, t1) =
            (if start
             then (if cur \<le> cStartTime s then cStartTime s else cur, t\<lparr>tm_kind := cli_START\<rparr>)
             else (cur + cp_simtime par interval, t\<lparr>tm_kind := cli_NEXT\<rparr>))
          in if cStopTime s < 0 \<or> next < cStopTime s
             then bindR (scheduleAt cur next t1) (\<lambda>t2. Inr (s\<lparr>cTimer := Some t2\<rparr>))
             else Inr (s\<lparr>cTimer := Some t1\<rparr>))"

definition cli_cancelNextPacket :: "cli \<Rightarrow> cli" where
  "cli_cancelNextPacket s = s\<lparr>cTimer := map_option cancelEvent (cTimer s)\<rparr>"

text \<open>Stages 0 and 3; the interval is not read at the start.\<close>

definition cli_initialize :: "cli_par \<Rightarrow> simtime \<Rightarrow> bool \<Rightarrow> cli res" where
  "cli_initialize par now up =
     (if cp_stopTime par \<ge> 0 \<and> cp_stopTime par < cp_startTime par
      then Inl (RuntimeError ''Invalid startTime/stopTime parameters'')
      else
        let s = \<lparr>cSeqNum = 0, cLocalSAP = cp_localSAP par, cRemoteSAP = cp_remoteSAP par, cDest = 0,
                 cTimer = (if cli_isGenerator par then Some \<lparr>tm_kind = 0, tm_at = None\<rparr> else None),
                 cStartTime = cp_startTime par, cStopTime = cp_stopTime par, cSent = 0,
                 cReceived = 0, cOut = []\<rparr>
        in if up \<and> cli_isGenerator par then cli_scheduleNextPacket par now True 0 s else Inr s)"

definition cli_registerDSAP :: "int \<Rightarrow> cli \<Rightarrow> cli" where
  "cli_registerDSAP dsap s = s\<lparr>cOut := cOut s @ [register_msg dsap]\<rparr>"

definition cli_sendPacket :: "cli_par \<Rightarrow> cli_draw \<Rightarrow> cli \<Rightarrow> cli res" where
  "cli_sendPacket par d s =
     (let s1 = s\<lparr>cSeqNum := cSeqNum s + 1\<rparr> in
      bindR (sprintf_buf 30 (''req-'' @ int_str (cp_id par) @ ''-'' @ int_str (cSeqNum s1))) (\<lambda>msgname.
        let etherctrl = new_Ieee802Ctrl\<lparr>ctl_ssap := cLocalSAP s1, ctl_dsap := cRemoteSAP s1,
                                         ctl_dest := cDest s1\<rparr>;
            datapacket = \<lparr>pk_kind = IEEE802CTRL_DATA, pk_byteLength = dr_reqLength d,
                          pk_ctrl = Some etherctrl,
                          pk_data = EtherAppReq msgname (cSeqNum s1) (dr_respLength d)\<rparr>
        in Inr (s1\<lparr>cOut := cOut s1 @ [(True, datapacket)], cSent := cSent s1 + 1\<rparr>)))"

definition cli_receivePacket :: "app_payload cPacket \<Rightarrow> cli \<Rightarrow> cli" where
  "cli_receivePacket msg s = s\<lparr>cReceived := cReceived s + 1\<rparr>"

text \<open>\<open>handleMessage\<close> for the self message, which has left the future event set, and for a message.\<close>

definition cli_handleTimer :: "cli_par \<Rightarrow> simtime \<Rightarrow> bool \<Rightarrow> cli_draw \<Rightarrow> cli \<Rightarrow> cli res" where
  "cli_handleTimer par now up d s =
     (if \<not> up then Inl (RuntimeError ''Application is not running'')
      else case cTimer s of
        None \<Rightarrow> Inl NullDeref
      | Some t \<Rightarrow>
          let s1 = s\<lparr>cTimer := Some (t\<lparr>tm_at := None\<rparr>)\<rparr>;
              send = (\<lambda>s2. bindR (cli_sendPacket par d s2)
                              (cli_scheduleNextPacket par now False (dr_sendInterval d)))
          in if tm_kind t = cli_START then
               let s2 = (if cp_registerSAP par then cli_registerDSAP (cLocalSAP s1) s1 else s1) in
               bindR (resolve_dest (cp_module par) (cp_destAddress par)) (\<lambda>dest.
                 let s3 = s2\<lparr>cDest := dest\<rparr> in
                 if isUnspecified dest then Inr s3 else send s3)
             else send s1)"

definition cli_handlePacket :: "bool \<Rightarrow> app_msg \<Rightarrow> cli \<Rightarrow> cli res" where
  "cli_handlePacket up m s =
     (if \<not> up then Inl (RuntimeError ''Application is not running'')
      else if \<not> fst m then Inl BadCast
      else Inr (cli_receivePacket (snd m) s))"

fun cli_handleOperationStage ::
    "cli_par \<Rightarrow> simtime \<Rightarrow> LifecycleOperation \<Rightarrow> nat \<Rightarrow> cli \<Rightarrow> cli res" where
  "cli_handleOperationStage par now NodeStartOperation stage s =
     (if stage = start_STAGE_APPLICATION_LAYER \<and> cli_isGenerator par
      then cli_scheduleNextPacket par now True 0 s else Inr s)"
| "cli_handleOperationStage par now NodeShutdownOperation stage s =
     (if stage = shutdown_STAGE_APPLICATION_LAYER then Inr (cli_cancelNextPacket s) else Inr s)"
| "cli_handleOperationStage par now NodeCrashOperation stage s =
     (if stage = crash_STAGE_CRASH then Inr (cli_cancelNextPacket s) else Inr s)"
| "cli_handleOperationStage par now OtherOperation stage s =
     Inl (RuntimeError ''Unsupported lifecycle operation'')"

definition cli_finish :: "cli \<Rightarrow> cli" where
  "cli_finish s = s\<lparr>cTimer := None\<rparr>"

section \<open>EtherAppSrv\<close>

record srv =
  sLocalSAP :: int
  sSent :: int
  sReceived :: int
  sOut :: "app_msg list"

definition MAX_REPLY_CHUNK_SIZE :: int where "MAX_REPLY_CHUNK_SIZE = 1497"

definition srv_registerDSAP :: "int \<Rightarrow> srv \<Rightarrow> srv" where
  "srv_registerDSAP dsap s = s\<lparr>sOut := sOut s @ [register_msg dsap]\<rparr>"

text \<open>\<open>registerSAP\<close> is a module parameter.\<close>

definition srv_startApp :: "bool \<Rightarrow> srv \<Rightarrow> srv" where
  "srv_startApp registerSAP s = (if registerSAP then srv_registerDSAP (sLocalSAP s) s else s)"

definition srv_stopApp :: "srv \<Rightarrow> srv" where
  "srv_stopApp s = s"

definition srv_initialize :: "int \<Rightarrow> bool \<Rightarrow> bool \<Rightarrow> srv" where
  "srv_initialize localSAP registerSAP up =
     (let s = \<lparr>sLocalSAP = localSAP, sSent = 0, sReceived = 0, sOut = []\<rparr>
      in if up then srv_startApp registerSAP s else s)"

definition srv_sendPacket :: "app_payload cPacket \<Rightarrow> mac_addr \<Rightarrow> int \<Rightarrow> srv \<Rightarrow> srv" where
  "srv_sendPacket datapacket destAddr destSap s =
     (let etherctrl = new_Ieee802Ctrl\<lparr>ctl_ssap := sLocalSAP s, ctl_dsap := destSap, ctl_dest := destAddr\<rparr>
      in s\<lparr>sOut := sOut s @ [(True, datapacket\<lparr>pk_ctrl := Some etherctrl\<rparr>)], sSent := sSent s + 1\<rparr>)"

text \<open>
  The loop that sends the reply in chunks. \<open>prefix\<close> is the name of the request with \<open>-resp-\<close>; the
  number of the chunk is printed after it into the same buffer of 30 characters. The request id is a
  \<open>long\<close>, the one of the response an \<open>int\<close>.
\<close>

definition int_of_long :: "int \<Rightarrow> int" where
  "int_of_long i = sint (word_of_int i :: 32 word)"

function srv_reply :: "string \<Rightarrow> int \<Rightarrow> mac_addr \<Rightarrow> int \<Rightarrow> int \<Rightarrow> int \<Rightarrow> srv \<Rightarrow> srv res" where
  "srv_reply prefix requestId srcAddr srcSap replyBytes k s =
     (if replyBytes > 0 then
        let l = (if replyBytes > MAX_REPLY_CHUNK_SIZE then MAX_REPLY_CHUNK_SIZE else replyBytes) in
        bindR (sprintf_buf 30 (prefix @ int_str k)) (\<lambda>msgname.
          let datapacket = \<lparr>pk_kind = IEEE802CTRL_DATA, pk_byteLength = l, pk_ctrl = None,
                            pk_data = EtherAppResp msgname (int_of_long requestId) 0\<rparr>
          in srv_reply prefix requestId srcAddr srcSap (replyBytes - l) (k + 1)
               (srv_sendPacket datapacket srcAddr srcSap s))
      else Inr s)"
  by auto
termination
  by (relation "measure (\<lambda>(_, _, _, _, b, _, _). nat b)") (auto simp: MAX_REPLY_CHUNK_SIZE_def)

declare srv_reply.simps [simp del]

definition srv_handleMessage :: "bool \<Rightarrow> app_msg \<Rightarrow> srv \<Rightarrow> srv res" where
  "srv_handleMessage up m s =
     (if \<not> up then Inl (RuntimeError ''Application is not running'')
      else case pk_data (snd m) of
        EtherAppReq name requestId replyBytes \<Rightarrow>
          let s1 = s\<lparr>sReceived := sReceived s + 1\<rparr> in
          (case pk_ctrl (snd m) of
             None \<Rightarrow> Inl BadCast
           | Some ctrl \<Rightarrow>
               bindR (sprintf_buf 30 name) (\<lambda>name1.
               bindR (sprintf_buf 30 (name1 @ ''-resp-'')) (\<lambda>prefix.
                 srv_reply prefix requestId (ctl_src ctrl) (ctl_ssap ctrl) replyBytes 0 s1)))
      | _ \<Rightarrow> Inl BadCast)"

fun srv_handleOperationStage :: "bool \<Rightarrow> LifecycleOperation \<Rightarrow> nat \<Rightarrow> srv \<Rightarrow> srv res" where
  "srv_handleOperationStage registerSAP NodeStartOperation stage s =
     (if stage = start_STAGE_APPLICATION_LAYER then Inr (srv_startApp registerSAP s) else Inr s)"
| "srv_handleOperationStage registerSAP NodeShutdownOperation stage s =
     (if stage = shutdown_STAGE_APPLICATION_LAYER then Inr (srv_stopApp s) else Inr s)"
| "srv_handleOperationStage registerSAP NodeCrashOperation stage s =
     (if stage = crash_STAGE_CRASH then Inr (srv_stopApp s) else Inr s)"
| "srv_handleOperationStage registerSAP OtherOperation stage s =
     Inl (RuntimeError ''Unsupported lifecycle operation'')"

section \<open>The timer of the client\<close>

lemma cli_schedule_next:
  assumes "cTimer s = Some t" and "tm_at t = None" and "0 \<le> cp_simtime par i"
  obtains t1 where "cli_scheduleNextPacket par cur False i s = Inr (s\<lparr>cTimer := Some t1\<rparr>)"
proof (cases "cStopTime s < 0 \<or> cur + cp_simtime par i < cStopTime s")
  case True
  then show thesis using assms that [of "t\<lparr>tm_kind := cli_NEXT, tm_at := Some (cur + cp_simtime par i)\<rparr>"]
    by (simp add: cli_scheduleNextPacket_def scheduleAt_def)
next
  case False
  then show thesis using assms that [of "t\<lparr>tm_kind := cli_NEXT\<rparr>"]
    by (simp add: cli_scheduleNextPacket_def)
qed

text \<open>The request that the client sends next.\<close>

definition cli_request :: "cli_par \<Rightarrow> cli_draw \<Rightarrow> mac_addr \<Rightarrow> int \<Rightarrow> app_payload cPacket" where
  "cli_request par d dest n =
     \<lparr>pk_kind = IEEE802CTRL_DATA, pk_byteLength = dr_reqLength d,
      pk_ctrl = Some (new_Ieee802Ctrl\<lparr>ctl_ssap := cp_localSAP par, ctl_dsap := cp_remoteSAP par, ctl_dest := dest\<rparr>),
      pk_data = EtherAppReq (''req-'' @ int_str (cp_id par) @ ''-'' @ int_str n) n (dr_respLength d)\<rparr>"

text \<open>
  The first event of the timer: the client registers its SAP, resolves the destination and sends a
  request; a later event sends a request only.
\<close>

lemma cli_timer_sends:
  assumes "cTimer s = Some t" and "0 \<le> cp_simtime par (dr_sendInterval d)"
    and "cLocalSAP s = cp_localSAP par" and "cRemoteSAP s = cp_remoteSAP par"
    and "if tm_kind t = cli_START then resolve_dest (cp_module par) (cp_destAddress par) = Inr dest \<and> dest \<noteq> 0
         else cDest s = dest"
    and "length (''req-'' @ int_str (cp_id par) @ ''-'' @ int_str (cSeqNum s + 1)) < 30"
  obtains s' where "cli_handleTimer par now True d s = Inr s'"
    and "cOut s' = cOut s @ (if tm_kind t = cli_START \<and> cp_registerSAP par then [register_msg (cp_localSAP par)] else [])
                 @ [(True, cli_request par d dest (cSeqNum s + 1))]"
    and "cReceived s' = cReceived s" and "cSent s' = cSent s + 1" and "cSeqNum s' = cSeqNum s + 1"
proof -
  let ?reg = "tm_kind t = cli_START \<and> cp_registerSAP par"
  define s0 where "s0 = s\<lparr>cTimer := Some (t\<lparr>tm_at := None\<rparr>)\<rparr>"
  define s1 where "s1 = (if tm_kind t = cli_START
      then (if cp_registerSAP par then cli_registerDSAP (cLocalSAP s0) s0 else s0)\<lparr>cDest := dest\<rparr> else s0)"
  define s2 where "s2 = s1\<lparr>cSeqNum := cSeqNum s + 1,
      cOut := cOut s1 @ [(True, cli_request par d dest (cSeqNum s + 1))], cSent := cSent s + 1\<rparr>"
  have f1: "cTimer s1 = Some (t\<lparr>tm_at := None\<rparr>)" "cLocalSAP s1 = cp_localSAP par" "cRemoteSAP s1 = cp_remoteSAP par"
    "cDest s1 = dest" "cSeqNum s1 = cSeqNum s" "cSent s1 = cSent s" "cReceived s1 = cReceived s"
    using assms(3-5) by (simp_all add: s1_def s0_def cli_registerDSAP_def split: if_splits)
  have send: "cli_sendPacket par d s1 = Inr s2"
    using assms(6) f1 by (simp add: cli_sendPacket_def sprintf_buf_def cli_request_def s2_def Let_def)
  obtain t1 where sch: "cli_scheduleNextPacket par now False (dr_sendInterval d) s2 = Inr (s2\<lparr>cTimer := Some t1\<rparr>)"
    by (rule cli_schedule_next [of s2 "t\<lparr>tm_at := None\<rparr>" par]) (use assms(2) f1(1) in \<open>simp_all add: s2_def\<close>)
  have run: "bindR (cli_sendPacket par d s1) (cli_scheduleNextPacket par now False (dr_sendInterval d)) =
      Inr (s2\<lparr>cTimer := Some t1\<rparr>)"
    by (simp add: send sch)
  show thesis
  proof (rule that)
    show "cli_handleTimer par now True d s = Inr (s2\<lparr>cTimer := Some t1\<rparr>)"
      using assms(1,5) run by (simp add: cli_handleTimer_def Let_def s0_def s1_def isUnspecified_def split: if_splits)
    show "cOut (s2\<lparr>cTimer := Some t1\<rparr>) = cOut s @ (if ?reg then [register_msg (cp_localSAP par)] else [])
        @ [(True, cli_request par d dest (cSeqNum s + 1))]"
      using assms(3) by (simp add: s2_def s1_def s0_def cli_registerDSAP_def)
  qed (simp_all add: s2_def f1)
qed

section \<open>The replies of the server\<close>

text \<open>A packet of the reply to \<open>ctrl\<close> and \<open>requestId\<close>.\<close>

definition is_reply :: "int \<Rightarrow> Ieee802Ctrl \<Rightarrow> int \<Rightarrow> app_payload cPacket \<Rightarrow> bool" where
  "is_reply localSAP ctrl requestId p \<longleftrightarrow>
     pk_kind p = IEEE802CTRL_DATA \<and> 0 < pk_byteLength p \<and> pk_byteLength p \<le> 1497
   \<and> pk_ctrl p = Some (new_Ieee802Ctrl\<lparr>ctl_ssap := localSAP, ctl_dsap := ctl_ssap ctrl, ctl_dest := ctl_src ctrl\<rparr>)
   \<and> (\<exists>name. pk_data p = EtherAppResp name (int_of_long requestId) 0)"

lemma nat_str_length: "0 < k \<Longrightarrow> n < 10 ^ k \<Longrightarrow> length (nat_str n) \<le> k"
proof (induction k arbitrary: n)
  case (Suc k)
  show ?case
  proof (cases "n < 10")
    case False
    with Suc.prems(2) have "k \<noteq> 0" by (intro notI) simp
    moreover have "n div 10 < 10 ^ k" using Suc.prems(2) by (simp add: less_mult_imp_div_less mult.commute)
    ultimately have "length (nat_str (n div 10)) \<le> k" by (intro Suc.IH) simp_all
    then show ?thesis by (subst nat_str.simps) simp
  qed (subst nat_str.simps, simp)
qed simp

lemma chunk_count:
  assumes "0 < b"
  shows "1 + (max 0 (b - min 1497 b) + 1496) div 1497 = (max 0 b + 1496) div (1497 :: int)"
proof (cases "b \<le> 1497")
  case True
  then have "(b + 1496) div 1497 = (1 :: int)" using assms by (intro int_div_pos_eq [of _ _ _ "b - 1"]) auto
  with True assms show ?thesis by (simp add: min_def max_def)
next
  case False
  have "b + 1496 = (b - 1) + 1497" by simp
  then have "(b + 1496) div 1497 = (b - 1) div 1497 + 1" by (simp only: div_add_self2)
  with False show ?thesis by (simp add: min_def max_def)
qed

lemma srv_reply_sends:
  assumes "\<forall>j. k \<le> j \<and> j < k + int n \<longrightarrow> length (prefix @ int_str j) < 30" and "b \<le> 1497 * int n"
  shows "\<exists>ps. srv_reply prefix rid (ctl_src ctrl) (ctl_ssap ctrl) b k s =
      Inr (s\<lparr>sOut := sOut s @ map (Pair True) ps, sSent := sSent s + int (length ps)\<rparr>)
    \<and> (\<forall>p \<in> set ps. is_reply (sLocalSAP s) ctrl rid p)
    \<and> sum_list (map pk_byteLength ps) = max 0 b \<and> int (length ps) = (max 0 b + 1496) div 1497"
  using assms
proof (induction n arbitrary: b k s)
  case 0
  then show ?case by (intro exI [of _ "[]"]) (simp add: srv_reply.simps)
next
  case (Suc n)
  show ?case
  proof (cases "b > 0")
    case False
    then show ?thesis by (intro exI [of _ "[]"]) (simp add: srv_reply.simps)
  next
    case True
    define l where "l = min 1497 b"
    define p where "p = \<lparr>pk_kind = IEEE802CTRL_DATA, pk_byteLength = l, pk_ctrl = None,
        pk_data = EtherAppResp (prefix @ int_str k) (int_of_long rid) 0\<rparr>"
    define p' where "p' = p\<lparr>pk_ctrl := Some (new_Ieee802Ctrl\<lparr>ctl_ssap := sLocalSAP s, ctl_dsap := ctl_ssap ctrl,
        ctl_dest := ctl_src ctrl\<rparr>)\<rparr>"
    define s1 where "s1 = srv_sendPacket p (ctl_src ctrl) (ctl_ssap ctrl) s"
    have s1: "s1 = s\<lparr>sOut := sOut s @ [(True, p')], sSent := sSent s + 1\<rparr>"
      by (simp add: s1_def srv_sendPacket_def p'_def)
    have step: "srv_reply prefix rid (ctl_src ctrl) (ctl_ssap ctrl) b k s =
        srv_reply prefix rid (ctl_src ctrl) (ctl_ssap ctrl) (b - l) (k + 1) s1"
      using True Suc.prems(1)
      by (subst srv_reply.simps) (auto simp: sprintf_buf_def MAX_REPLY_CHUNK_SIZE_def s1_def p_def l_def min_def)
    have names: "\<forall>j. k + 1 \<le> j \<and> j < k + 1 + int n \<longrightarrow> length (prefix @ int_str j) < 30"
      using Suc.prems(1) by simp
    have rest: "b - l \<le> 1497 * int n" using Suc.prems(2) by (simp add: l_def min_def)
    obtain ps where ps: "srv_reply prefix rid (ctl_src ctrl) (ctl_ssap ctrl) (b - l) (k + 1) s1 =
        Inr (s1\<lparr>sOut := sOut s1 @ map (Pair True) ps, sSent := sSent s1 + int (length ps)\<rparr>)"
      "\<forall>q \<in> set ps. is_reply (sLocalSAP s1) ctrl rid q" "sum_list (map pk_byteLength ps) = max 0 (b - l)"
      "int (length ps) = (max 0 (b - l) + 1496) div 1497"
      using Suc.IH [OF names rest, of s1] by blast
    have "is_reply (sLocalSAP s) ctrl rid p'"
      using True by (simp add: is_reply_def p'_def p_def l_def)
    moreover have "int (length (p' # ps)) = (max 0 b + 1496) div 1497"
      using chunk_count [OF True] ps(4) by (simp add: l_def)
    ultimately show ?thesis using ps True
      by (intro exI [of _ "p' # ps"]) (simp add: step s1, simp add: p'_def p_def l_def)
  qed
qed

section \<open>A request and its reply over two LLC modules\<close>

definition srv_exec :: "app_msg list \<Rightarrow> srv \<Rightarrow> srv res" where
  "srv_exec ms s = foldl (\<lambda>r m. bindR r (srv_handleMessage True m)) (Inr s) ms"

definition cli_exec :: "app_msg list \<Rightarrow> cli \<Rightarrow> cli res" where
  "cli_exec ms s = foldl (\<lambda>r m. bindR r (cli_handlePacket True m)) (Inr s) ms"

text \<open>What an LLC module has passed up at a gate since it had passed up \<open>n\<close> packets.\<close>

definition passed_up_at :: "nat \<Rightarrow> nat \<Rightarrow> app_payload llc \<Rightarrow> app_msg list" where
  "passed_up_at port n s = map (\<lambda>(_, p). (True, p)) (filter (\<lambda>(q, _). q = port) (drop n (llcUpperOut s)))"

text \<open>
  One exchange. The client at gate \<open>cport\<close> of the LLC \<open>lc\<close> handles its timer; what it sends goes
  through \<open>lc\<close>, over the wire with the client's address \<open>ca\<close>, through \<open>ls\<close> to the server at gate
  \<open>sport\<close>, and the replies go back with the server's address \<open>sa\<close>.
\<close>

definition exchange ::
    "cli_par \<Rightarrow> simtime \<Rightarrow> cli_draw \<Rightarrow> mac_addr \<Rightarrow> mac_addr \<Rightarrow> nat \<Rightarrow> nat \<Rightarrow> cli \<Rightarrow> app_payload llc \<Rightarrow>
     app_payload llc \<Rightarrow> srv \<Rightarrow> (cli \<times> app_payload llc \<times> app_payload llc \<times> srv) res" where
  "exchange par now d ca sa cport sport c lc ls s =
     bindR (cli_handleTimer par now True d c) (\<lambda>c1.
     bindR (llc_run lc (from_app cport (drop (length (cOut c)) (cOut c1)))) (\<lambda>lc1.
     bindR (llc_run ls (from_wire ca (drop (length (llcLowerOut lc)) (llcLowerOut lc1)))) (\<lambda>ls1.
     bindR (srv_exec (passed_up_at sport (length (llcUpperOut ls)) ls1) s) (\<lambda>s1.
     bindR (llc_run ls1 (from_app sport (drop (length (sOut s)) (sOut s1)))) (\<lambda>ls2.
     bindR (llc_run lc1 (from_wire sa (drop (length (llcLowerOut ls1)) (llcLowerOut ls2)))) (\<lambda>lc2.
     bindR (cli_exec (passed_up_at cport (length (llcUpperOut lc1)) lc2) c1) (\<lambda>c2.
       Inr (c2, lc2, ls2, s1))))))))"

lemma cli_exec_packets: "cli_exec (map (Pair True) ps) s = Inr (s\<lparr>cReceived := cReceived s + int (length ps)\<rparr>)"
  by (induction ps arbitrary: s rule: rev_induct)
    (simp_all add: cli_exec_def cli_handlePacket_def cli_receivePacket_def)

lemma passed_up_new:
  "llcUpperOut s = xs @ map (\<lambda>m. (port, f m)) ms \<Longrightarrow>
   passed_up_at port (length xs) s = map (Pair True) (map f ms)"
  by (simp add: passed_up_at_def comp_def filter_map)

lemma reply_sendable: "is_reply l c r p \<Longrightarrow> llc_sendable p"
  by (auto simp: is_reply_def llc_sendable_def)

lemma srv_handles_request:
  assumes "pk_data m = EtherAppReq name rid b" and "pk_ctrl m = Some ctrl" and "length name \<le> 18" and "b \<le> 1497 * 100000"
  shows "\<exists>ps. srv_handleMessage True (True, m) s =
      Inr (s\<lparr>sReceived := sReceived s + 1, sOut := sOut s @ map (Pair True) ps, sSent := sSent s + int (length ps)\<rparr>)
    \<and> (\<forall>p \<in> set ps. is_reply (sLocalSAP s) ctrl rid p)
    \<and> sum_list (map pk_byteLength ps) = max 0 b \<and> int (length ps) = (max 0 b + 1496) div 1497"
proof -
  let ?prefix = "name @ ''-resp-''"
  have "length (?prefix @ int_str j) < 30" if "0 \<le> j" "j < 0 + int 100000" for j
    using nat_str_length [of 5 "nat j"] that assms(3) by (simp add: int_str_def nat_less_iff)
  then have "\<exists>ps. srv_reply ?prefix rid (ctl_src ctrl) (ctl_ssap ctrl) b 0 (s\<lparr>sReceived := sReceived s + 1\<rparr>) =
      Inr (s\<lparr>sReceived := sReceived s + 1, sOut := sOut s @ map (Pair True) ps, sSent := sSent s + int (length ps)\<rparr>)
    \<and> (\<forall>p \<in> set ps. is_reply (sLocalSAP s) ctrl rid p)
    \<and> sum_list (map pk_byteLength ps) = max 0 b \<and> int (length ps) = (max 0 b + 1496) div 1497"
    using srv_reply_sends [of 0 100000 ?prefix b rid ctrl "s\<lparr>sReceived := sReceived s + 1\<rparr>"] assms(4) by simp
  moreover have "srv_handleMessage True (True, m) s =
      srv_reply ?prefix rid (ctl_src ctrl) (ctl_ssap ctrl) b 0 (s\<lparr>sReceived := sReceived s + 1\<rparr>)"
    using assms(1-3) by (simp add: srv_handleMessage_def sprintf_buf_def)
  ultimately show ?thesis by simp
qed

text \<open>
  The client's SAP in the LLC when the timer goes off: not yet registered if the client registers it
  now, else registered.
\<close>

definition sap_ready :: "cli_par \<Rightarrow> app_timer \<Rightarrow> nat \<Rightarrow> app_payload llc \<Rightarrow> bool" where
  "sap_ready par t cport lc \<longleftrightarrow>
     map_of (dsapToPort lc) (cp_localSAP par) =
       (if tm_kind t = cli_START \<and> cp_registerSAP par then None else Some cport)"

lemma client_llc_sends:
  assumes "llcIsUp lc" and "sap_ready par t cport lc" and "llc_sendable m"
  obtains lc1 where
    "llc_run lc (from_app cport ((if tm_kind t = cli_START \<and> cp_registerSAP par
        then [register_msg (cp_localSAP par)] else []) @ [(True, m)])) = Inr lc1"
    "llcIsUp lc1" "map_of (dsapToPort lc1) (cp_localSAP par) = Some cport"
    "llcLowerOut lc1 = llcLowerOut lc @ [llc_frame_of m]" "llcUpperOut lc1 = llcUpperOut lc"
proof -
  let ?reg = "tm_kind t = cli_START \<and> cp_registerSAP par"
  obtain lc0 where lc0: "llc_run lc (from_app cport (if ?reg then [register_msg (cp_localSAP par)] else [])) = Inr lc0"
    "llcIsUp lc0" "map_of (dsapToPort lc0) (cp_localSAP par) = Some cport"
    "llcLowerOut lc0 = llcLowerOut lc" "llcUpperOut lc0 = llcUpperOut lc"
  proof (cases ?reg)
    case True
    with assms(1,2) that show thesis
      by (simp add: register_msg_def llc_run_register sap_ready_def)
  next
    case False
    with assms(1,2) that show thesis by (simp add: from_app_def sap_ready_def)
  qed
  let ?lc1 = "lc0\<lparr>llcFromHigherLayer := llcFromHigherLayer lc0 + 1, llcLowerOut := llcLowerOut lc0 @ [llc_frame_of m]\<rparr>"
  have "llc_run lc0 (from_app cport [(True, m)]) = Inr ?lc1"
    using llc_run_send [of lc0 "[m]" cport] lc0(2) assms(3) by simp
  then have "llc_run lc (from_app cport ((if ?reg then [register_msg (cp_localSAP par)] else []) @ [(True, m)])) = Inr ?lc1"
    using lc0(1) by (simp add: from_app_def llc_run_append)
  then show thesis by (rule that) (use lc0 in simp_all)
qed

lemma llc_delivered_length [simp]: "pk_byteLength (llc_delivered a p) = pk_byteLength p"
  by (simp add: llc_delivered_def Let_def)

lemma link_receives:
  assumes "llcIsUp s" and "\<forall>m \<in> set ms. llc_sendable m"
    and "\<forall>m \<in> set ms. map_of (dsapToPort s) (ctl_dsap (the (pk_ctrl m))) = Some port"
  obtains s1 where "llc_run s (from_wire a (map llc_frame_of ms)) = Inr s1" "llcIsUp s1"
    "llcUpperOut s1 = llcUpperOut s @ map (Pair port) (map (llc_delivered a) ms)"
    "passed_up_at port (length (llcUpperOut s)) s1 = map (Pair True) (map (llc_delivered a) ms)"
proof -
  let ?s1 = "s\<lparr>llcFromMAC := llcFromMAC s + int (length ms), llcPassedUp := llcPassedUp s + int (length ms),
      llcUpperOut := llcUpperOut s @ map (\<lambda>m. (port, llc_delivered a m)) ms\<rparr>"
  have "passed_up_at port (length (llcUpperOut s)) ?s1 = map (Pair True) (map (llc_delivered a) ms)"
    by (rule passed_up_new) simp
  with that [OF llc_run_receive [OF assms]] show thesis using assms(1) by (simp add: comp_def)
qed

text \<open>The control information of the request as the server gets it.\<close>

definition request_ctrl :: "cli_par \<Rightarrow> mac_addr \<Rightarrow> mac_addr \<Rightarrow> Ieee802Ctrl" where
  "request_ctrl par dest ca =
     new_Ieee802Ctrl\<lparr>ctl_ssap := cp_localSAP par, ctl_dsap := cp_remoteSAP par, ctl_src := ca, ctl_dest := dest\<rparr>"

lemma server_answers:
  assumes "length (''req-'' @ int_str (cp_id par) @ ''-'' @ int_str n) \<le> 18" and "dr_respLength d \<le> 1497 * 100000"
  obtains ps s1 where "srv_exec [(True, llc_delivered ca (cli_request par d dest n))] s = Inr s1"
    "sOut s1 = sOut s @ map (Pair True) ps" "sSent s1 = sSent s + int (length ps)" "sReceived s1 = sReceived s + 1"
    "\<forall>p \<in> set ps. is_reply (sLocalSAP s) (request_ctrl par dest ca) n p"
    "sum_list (map pk_byteLength ps) = max 0 (dr_respLength d)"
    "int (length ps) = (max 0 (dr_respLength d) + 1496) div 1497"
proof -
  let ?m = "llc_delivered ca (cli_request par d dest n)"
  have "pk_data ?m = EtherAppReq (''req-'' @ int_str (cp_id par) @ ''-'' @ int_str n) n (dr_respLength d)"
    "pk_ctrl ?m = Some (request_ctrl par dest ca)"
    by (simp_all add: request_ctrl_def llc_delivered_def cli_request_def Let_def)
  from srv_handles_request [OF this assms, of s] that show thesis
    by (fastforce simp: srv_exec_def)
qed

lemma reply_delivered:
  assumes "is_reply l (request_ctrl par dest ca) n p"
  shows "is_reply l (request_ctrl par dest ca) n p" "0 < pk_byteLength p" "pk_byteLength p \<le> 1497"
    "pk_ctrl (llc_delivered sa p) = Some (new_Ieee802Ctrl\<lparr>ctl_ssap := l, ctl_dsap := cp_localSAP par,
       ctl_src := sa, ctl_dest := ca\<rparr>)"
    "\<exists>name. pk_data (llc_delivered sa p) = EtherAppResp name (int_of_long n) 0"
  using assms by (auto simp: is_reply_def llc_delivered_def request_ctrl_def Let_def)

text \<open>The way back.\<close>

lemma replies_return:
  assumes "llcIsUp ls" and "llcIsUp lc" and "\<forall>p \<in> set ps. is_reply l ctrl n p"
    and "map_of (dsapToPort lc) (ctl_ssap ctrl) = Some cport"
  obtains ls1 lc1 where "llc_run ls (from_app sport (map (Pair True) ps)) = Inr ls1"
    "llc_run lc (from_wire sa (drop (length (llcLowerOut ls)) (llcLowerOut ls1))) = Inr lc1"
    "llcUpperOut lc1 = llcUpperOut lc @ map (Pair cport) (map (llc_delivered sa) ps)"
    "passed_up_at cport (length (llcUpperOut lc)) lc1 = map (Pair True) (map (llc_delivered sa) ps)"
proof -
  have send: "\<forall>p \<in> set ps. llc_sendable p" using assms(3) reply_sendable by blast
  have reg: "\<forall>p \<in> set ps. map_of (dsapToPort lc) (ctl_dsap (the (pk_ctrl p))) = Some cport"
    using assms(3,4) by (auto simp: is_reply_def)
  show thesis
    by (rule link_receives [OF assms(2) send reg, of sa], rule that [OF llc_run_send [OF assms(1) send]]) simp_all
qed

text \<open>
  C27. A client gets what it asked for. When the timer of a client goes off whose host and whose server's
  host are up, with the client's SAP free or registered as \<open>sap_ready\<close> says and the server's SAP
  registered, and the request has at most 1497 bytes, the request reaches the server, and the server's reply
  reaches the client's gate, complete and without an error anywhere: packets of 1 to 1497 bytes, the most the LLC takes, that add up to the
  number of bytes asked for, as few as possible, each with the number of the request, from the server's
  address and SAP. The names must fit the buffers of 30 characters: the request's has at most 18, and
  the reply at most 100000 packets; the time to the next request is not negative.
\<close>

theorem client_server_exchange:
  assumes "cTimer c = Some t" and "0 \<le> cp_simtime par (dr_sendInterval d)"
    and "cLocalSAP c = cp_localSAP par" and "cRemoteSAP c = cp_remoteSAP par"
    and "if tm_kind t = cli_START then resolve_dest (cp_module par) (cp_destAddress par) = Inr dest \<and> dest \<noteq> 0
         else cDest c = dest"
    and "length (''req-'' @ int_str (cp_id par) @ ''-'' @ int_str (cSeqNum c + 1)) \<le> 18"
    and "dr_reqLength d \<le> 1497" and "dr_respLength d \<le> 1497 * 100000"
    and "llcIsUp lc" and "sap_ready par t cport lc"
    and "llcIsUp ls" and "map_of (dsapToPort ls) (cp_remoteSAP par) = Some sport"
  shows "\<exists>c2 lc2 ls2 s1 ps. exchange par now d ca sa cport sport c lc ls s = Inr (c2, lc2, ls2, s1)
    \<and> llcUpperOut lc2 = llcUpperOut lc @ map (Pair cport) ps
    \<and> cReceived c2 = cReceived c + int (length ps) \<and> sSent s1 = sSent s + int (length ps)
    \<and> cSent c2 = cSent c + 1 \<and> sReceived s1 = sReceived s + 1
    \<and> sum_list (map pk_byteLength ps) = max 0 (dr_respLength d)
    \<and> int (length ps) = (max 0 (dr_respLength d) + 1496) div 1497
    \<and> (\<forall>p \<in> set ps. 0 < pk_byteLength p \<and> pk_byteLength p \<le> 1497
         \<and> pk_ctrl p = Some (new_Ieee802Ctrl\<lparr>ctl_ssap := sLocalSAP s, ctl_dsap := cp_localSAP par,
                               ctl_src := sa, ctl_dest := ca\<rparr>)
         \<and> (\<exists>name. pk_data p = EtherAppResp name (int_of_long (cSeqNum c + 1)) 0))"
proof -
  define m where "m = cli_request par d dest (cSeqNum c + 1)"
  have m: "llc_sendable m" "ctl_dsap (the (pk_ctrl m)) = cp_remoteSAP par"
    using assms(7) by (simp_all add: m_def cli_request_def llc_sendable_def)
  have "length (''req-'' @ int_str (cp_id par) @ ''-'' @ int_str (cSeqNum c + 1)) < 30" using assms(6) by linarith
  then obtain c1 where c1: "cli_handleTimer par now True d c = Inr c1"
    "cOut c1 = cOut c @ (if tm_kind t = cli_START \<and> cp_registerSAP par then [register_msg (cp_localSAP par)] else [])
       @ [(True, m)]" "cReceived c1 = cReceived c" "cSent c1 = cSent c + 1"
    unfolding m_def by (rule cli_timer_sends [OF assms(1-5), where now = now]) blast
  obtain lc1 where lc1: "llc_run lc (from_app cport (drop (length (cOut c)) (cOut c1))) = Inr lc1" "llcIsUp lc1"
    "map_of (dsapToPort lc1) (cp_localSAP par) = Some cport"
    "llcLowerOut lc1 = llcLowerOut lc @ map llc_frame_of [m]" "llcUpperOut lc1 = llcUpperOut lc"
    by (rule client_llc_sends [OF assms(9,10) m(1)]) (simp add: c1(2))
  obtain ls1 where ls1: "llc_run ls (from_wire ca (drop (length (llcLowerOut lc)) (llcLowerOut lc1))) = Inr ls1"
    "llcIsUp ls1" "passed_up_at sport (length (llcUpperOut ls)) ls1 = map (Pair True) (map (llc_delivered ca) [m])"
    using link_receives [of ls "[m]" sport ca] assms(11,12) m lc1(4) by (metis append_eq_conv_conj list.set(1,2) singletonD)
  obtain ps s1 where srv: "srv_exec [(True, llc_delivered ca m)] s = Inr s1"
    "sOut s1 = sOut s @ map (Pair True) ps" "sSent s1 = sSent s + int (length ps)" "sReceived s1 = sReceived s + 1"
    and ps: "\<forall>p \<in> set ps. is_reply (sLocalSAP s) (request_ctrl par dest ca) (cSeqNum c + 1) p"
    "sum_list (map pk_byteLength ps) = max 0 (dr_respLength d)" "int (length ps) = (max 0 (dr_respLength d) + 1496) div 1497"
    unfolding m_def by (rule server_answers [OF assms(6,8)]) blast
  have "ctl_ssap (request_ctrl par dest ca) = cp_localSAP par" by (simp add: request_ctrl_def)
  then obtain ls2 lc2 where ret: "llc_run ls1 (from_app sport (map (Pair True) ps)) = Inr ls2"
    "llc_run lc1 (from_wire sa (drop (length (llcLowerOut ls1)) (llcLowerOut ls2))) = Inr lc2"
    "llcUpperOut lc2 = llcUpperOut lc1 @ map (Pair cport) (map (llc_delivered sa) ps)"
    "passed_up_at cport (length (llcUpperOut lc1)) lc2 = map (Pair True) (map (llc_delivered sa) ps)"
    using replies_return [OF ls1(2) lc1(2) ps(1)] lc1(3) by metis
  have out: "drop (length (sOut s)) (sOut s1) = map (Pair True) ps" by (simp add: srv(2))
  let ?c2 = "c1\<lparr>cReceived := cReceived c1 + int (length ps)\<rparr>"
  have "exchange par now d ca sa cport sport c lc ls s = Inr (?c2, lc2, ls2, s1)"
    unfolding exchange_def c1(1) bindR.simps lc1(1) ls1(1,3) list.map srv(1) out ret(1,2,4) cli_exec_packets
    by simp
  then show ?thesis
    using ps(2,3) srv(3,4) c1(3,4) lc1(5) ret(3) reply_delivered(2-5) [OF bspec [OF ps(1)]]
    by - (rule exI [of _ ?c2], rule exI [of _ lc2], rule exI [of _ ls2], rule exI [of _ s1],
        rule exI [of _ "map (llc_delivered sa) ps"], simp add: comp_def)
qed

text \<open>The first exchange of a client with station 3, whose server has SAP 241 at gate 1, and 4000 bytes asked for.\<close>

definition demo_par :: cli_par where
  "demo_par = \<lparr>cp_destAddress = ''0A-AA-00-00-00-03'', cp_startTime = 0, cp_stopTime = -1, cp_localSAP = 240,
     cp_remoteSAP = 241, cp_registerSAP = True, cp_id = 7, cp_simtime = (\<lambda>r. \<lfloor>r * 1000000000000\<rfloor>),
     cp_module = (\<lambda>_. None)\<rparr>"

definition demo_cli :: cli where
  "demo_cli = \<lparr>cSeqNum = 0, cLocalSAP = 240, cRemoteSAP = 241, cDest = 0,
     cTimer = Some \<lparr>tm_kind = cli_START, tm_at = Some 0\<rparr>, cStartTime = 0, cStopTime = -1, cSent = 0,
     cReceived = 0, cOut = []\<rparr>"

lemma client_server_exchange_witness:
  "\<exists>c2 lc2 ls2 s1. exchange demo_par 0 \<lparr>dr_reqLength = 100, dr_respLength = 4000, dr_sendInterval = 1\<rparr>
       0x0AAA00000001 0x0AAA00000003 0 1 demo_cli (llc_start (llc_initialize True))
       ((llc_initialize True)\<lparr>dsapToPort := [(241, 1)]\<rparr>) (srv_initialize 241 True True) = Inr (c2, lc2, ls2, s1)
     \<and> cReceived c2 = 3 \<and> sum_list (map (pk_byteLength \<circ> snd) (llcUpperOut lc2)) = 4000"
proof -
  let ?d = "\<lparr>dr_reqLength = 100, dr_respLength = 4000, dr_sendInterval = 1\<rparr>"
  have names: "length (''req-'' @ int_str (cp_id demo_par) @ ''-'' @ int_str (cSeqNum demo_cli + 1)) \<le> 18"
    by (simp add: demo_par_def demo_cli_def int_str_def nat_str.simps)
  have dest: "resolve_dest (cp_module demo_par) (cp_destAddress demo_par) = Inr 0x0AAA00000003"
    by code_simp
  show ?thesis
    using client_server_exchange [of demo_cli "\<lparr>tm_kind = cli_START, tm_at = Some 0\<rparr>" demo_par ?d "0x0AAA00000003"
        "llc_start (llc_initialize True)" 0 "(llc_initialize True)\<lparr>dsapToPort := [(241, 1)]\<rparr>" 1 0 "0x0AAA00000001"
        "0x0AAA00000003" "srv_initialize 241 True True", OF _ _ _ _ _ names] dest
    by (force simp: demo_par_def demo_cli_def sap_ready_def llc_initialize_def llc_start_def Let_def comp_def)
qed

end
