(* ===== verification/EtherTrafGen.thy ===== *)
theory EtherTrafGen
  imports EtherApps
begin

text \<open>
  \<open>applications/ethernet/EtherTrafGen\<close>: bursts of packets to one destination, over the encapsulation;
  without a destination it only counts what it receives. Parameters and state follow \<open>EtherApps\<close>; the
  draws of one event are the size of the burst, the length of each packet and the next interval.
\<close>

record tg_par =
  tp_destAddress :: string
  tp_startTime :: simtime
  tp_stopTime :: simtime
  tp_etherType :: int
  tp_id :: int
  tp_simtime :: "real \<Rightarrow> simtime"
  tp_module :: "string \<Rightarrow> string option option"

record tg_draw =
  td_numPackets :: int
  td_length :: "nat \<Rightarrow> int"
  td_sendInterval :: real

record tg =
  tgSeqNum :: int
  tgEtherType :: int
  tgDest :: mac_addr
  tgTimer :: "app_timer option"
  tgStartTime :: simtime
  tgStopTime :: simtime
  tgSent :: int
  tgReceived :: int
  tgOut :: "app_payload cPacket list"

definition tg_START :: int where "tg_START = 100"
definition tg_NEXT :: int where "tg_NEXT = 101"

definition tg_isGenerator :: "tg_par \<Rightarrow> bool" where
  "tg_isGenerator par \<longleftrightarrow> tp_destAddress par \<noteq> []"

text \<open>\<open>previous\<close> equal to -1 second asks for the start event.\<close>

definition tg_scheduleNextPacket :: "tg_par \<Rightarrow> simtime \<Rightarrow> simtime \<Rightarrow> real \<Rightarrow> tg \<Rightarrow> tg res" where
  "tg_scheduleNextPacket par now previous interval s =
     (case tgTimer s of
        None \<Rightarrow> Inl NullDeref
      | Some t \<Rightarrow>
          let (next, t1) =
            (if previous = - SIMTIME_SECOND
             then (if now \<le> tgStartTime s then tgStartTime s else now, t\<lparr>tm_kind := tg_START\<rparr>)
             else (previous + tp_simtime par interval, t\<lparr>tm_kind := tg_NEXT\<rparr>))
          in if tgStopTime s < 0 \<or> next < tgStopTime s
             then bindR (scheduleAt now next t1) (\<lambda>t2. Inr (s\<lparr>tgTimer := Some t2\<rparr>))
             else Inr (s\<lparr>tgTimer := Some t1\<rparr>))"

text \<open>\<open>cancelNextPacket\<close> has no test for NULL, which \<open>timerMsg\<close> is in a module without destination.\<close>

definition tg_cancelNextPacket :: "tg \<Rightarrow> tg res" where
  "tg_cancelNextPacket s =
     (case tgTimer s of None \<Rightarrow> Inl NullDeref | Some t \<Rightarrow> Inr (s\<lparr>tgTimer := Some (cancelEvent t)\<rparr>))"

definition tg_initialize :: "tg_par \<Rightarrow> simtime \<Rightarrow> bool \<Rightarrow> tg res" where
  "tg_initialize par now up =
     (if tp_stopTime par \<ge> 0 \<and> tp_stopTime par < tp_startTime par
      then Inl (RuntimeError ''Invalid startTime/stopTime parameters'')
      else
        let s = \<lparr>tgSeqNum = 0, tgEtherType = tp_etherType par, tgDest = 0,
                 tgTimer = (if tg_isGenerator par then Some \<lparr>tm_kind = 0, tm_at = None\<rparr> else None),
                 tgStartTime = tp_startTime par, tgStopTime = tp_stopTime par, tgSent = 0,
                 tgReceived = 0, tgOut = []\<rparr>
        in if up \<and> tg_isGenerator par then tg_scheduleNextPacket par now (- SIMTIME_SECOND) 0 s else Inr s)"

text \<open>One iteration of the loop of \<open>sendBurstPackets\<close>, and the loop.\<close>

definition tg_send_one :: "tg_par \<Rightarrow> int \<Rightarrow> tg \<Rightarrow> tg res" where
  "tg_send_one par len s =
     (let s1 = s\<lparr>tgSeqNum := tgSeqNum s + 1\<rparr> in
      bindR (sprintf_buf 40 (''pk-'' @ int_str (tp_id par) @ ''-'' @ int_str (tgSeqNum s1))) (\<lambda>msgname.
        let etherctrl = new_Ieee802Ctrl\<lparr>ctl_etherType := tgEtherType s1, ctl_dest := tgDest s1\<rparr>;
            datapacket = \<lparr>pk_kind = IEEE802CTRL_DATA, pk_byteLength = len, pk_ctrl = Some etherctrl,
                          pk_data = PlainMessage msgname\<rparr>
        in Inr (s1\<lparr>tgOut := tgOut s1 @ [datapacket], tgSent := tgSent s1 + 1\<rparr>)))"

fun tg_send_burst :: "tg_par \<Rightarrow> (nat \<Rightarrow> int) \<Rightarrow> nat \<Rightarrow> nat \<Rightarrow> tg \<Rightarrow> tg res" where
  "tg_send_burst par len i 0 s = Inr s"
| "tg_send_burst par len i (Suc n) s = bindR (tg_send_one par (len i) s) (tg_send_burst par len (Suc i) n)"

definition tg_sendBurstPackets :: "tg_par \<Rightarrow> tg_draw \<Rightarrow> tg \<Rightarrow> tg res" where
  "tg_sendBurstPackets par d s = tg_send_burst par (td_length d) 0 (nat (td_numPackets d)) s"

definition tg_receivePacket :: "tg \<Rightarrow> tg" where
  "tg_receivePacket s = s\<lparr>tgReceived := tgReceived s + 1\<rparr>"

definition tg_handleTimer :: "tg_par \<Rightarrow> simtime \<Rightarrow> bool \<Rightarrow> tg_draw \<Rightarrow> tg \<Rightarrow> tg res" where
  "tg_handleTimer par now up d s =
     (if \<not> up then Inl (RuntimeError ''Application is not running'')
      else case tgTimer s of
        None \<Rightarrow> Inl NullDeref
      | Some t \<Rightarrow>
          let s1 = s\<lparr>tgTimer := Some (t\<lparr>tm_at := None\<rparr>)\<rparr>;
              send = (\<lambda>s2. bindR (tg_sendBurstPackets par d s2)
                              (tg_scheduleNextPacket par now now (td_sendInterval d)))
          in if tm_kind t = tg_START then
               bindR (resolve_dest (tp_module par) (tp_destAddress par)) (\<lambda>dest.
                 let s2 = s1\<lparr>tgDest := dest\<rparr> in
                 if isUnspecified dest then Inr s2 else send s2)
             else send s1)"

text \<open>The flag tells whether the message is a \<open>cPacket\<close>.\<close>

definition tg_handlePacket :: "bool \<Rightarrow> bool \<Rightarrow> tg \<Rightarrow> tg res" where
  "tg_handlePacket up isPacket s =
     (if \<not> up then Inl (RuntimeError ''Application is not running'')
      else if \<not> isPacket then Inl BadCast
      else Inr (tg_receivePacket s))"

fun tg_handleOperationStage :: "tg_par \<Rightarrow> simtime \<Rightarrow> LifecycleOperation \<Rightarrow> nat \<Rightarrow> tg \<Rightarrow> tg res" where
  "tg_handleOperationStage par now NodeStartOperation stage s =
     (if stage = start_STAGE_APPLICATION_LAYER \<and> tg_isGenerator par
      then tg_scheduleNextPacket par now (- SIMTIME_SECOND) 0 s else Inr s)"
| "tg_handleOperationStage par now NodeShutdownOperation stage s =
     (if stage = shutdown_STAGE_APPLICATION_LAYER then tg_cancelNextPacket s else Inr s)"
| "tg_handleOperationStage par now NodeCrashOperation stage s =
     (if stage = crash_STAGE_CRASH then tg_cancelNextPacket s else Inr s)"
| "tg_handleOperationStage par now OtherOperation stage s =
     Inl (RuntimeError ''Unsupported lifecycle operation'')"

definition tg_finish :: "tg \<Rightarrow> tg" where
  "tg_finish s = s\<lparr>tgTimer := None\<rparr>"

section \<open>Bursts\<close>

lemma tg_burst_sends:
  assumes "\<forall>j. tgSeqNum s < j \<and> j \<le> tgSeqNum s + int n \<longrightarrow>
      length (''pk-'' @ int_str (tp_id par) @ ''-'' @ int_str j) < 40"
  shows "\<exists>ps. tg_send_burst par len i n s =
      Inr (s\<lparr>tgSeqNum := tgSeqNum s + int n, tgOut := tgOut s @ ps, tgSent := tgSent s + int n\<rparr>)
    \<and> map pk_byteLength ps = map len [i..<i + n]
    \<and> (\<forall>p \<in> set ps. pk_kind p = IEEE802CTRL_DATA \<and>
         pk_ctrl p = Some (new_Ieee802Ctrl\<lparr>ctl_etherType := tgEtherType s, ctl_dest := tgDest s\<rparr>))"
  using assms
proof (induction n arbitrary: i s)
  case (Suc n)
  define p where "p = \<lparr>pk_kind = IEEE802CTRL_DATA, pk_byteLength = len i,
      pk_ctrl = Some (new_Ieee802Ctrl\<lparr>ctl_etherType := tgEtherType s, ctl_dest := tgDest s\<rparr>),
      pk_data = PlainMessage (''pk-'' @ int_str (tp_id par) @ ''-'' @ int_str (tgSeqNum s + 1))\<rparr>"
  define s1 where "s1 = s\<lparr>tgSeqNum := tgSeqNum s + 1, tgOut := tgOut s @ [p], tgSent := tgSent s + 1\<rparr>"
  have one: "tg_send_one par (len i) s = Inr s1"
    using Suc.prems by (simp add: tg_send_one_def sprintf_buf_def s1_def p_def Let_def)
  obtain ps where ps: "tg_send_burst par len (Suc i) n s1 =
      Inr (s1\<lparr>tgSeqNum := tgSeqNum s1 + int n, tgOut := tgOut s1 @ ps, tgSent := tgSent s1 + int n\<rparr>)"
    "map pk_byteLength ps = map len [Suc i..<Suc i + n]"
    "\<forall>p \<in> set ps. pk_kind p = IEEE802CTRL_DATA \<and>
         pk_ctrl p = Some (new_Ieee802Ctrl\<lparr>ctl_etherType := tgEtherType s1, ctl_dest := tgDest s1\<rparr>)"
    using Suc.IH [of s1 "Suc i"] Suc.prems by (auto simp: s1_def)
  have "[i..<i + Suc n] = i # [Suc i..<Suc i + n]" by (simp add: upt_conv_Cons)
  with ps show ?case
    by (intro exI [of _ "p # ps"]) (simp add: one s1_def, simp add: p_def)
qed (intro exI [of _ "[]"], simp)

section \<open>Runs\<close>

text \<open>The states of a module: the timer fires at the time it is scheduled for.\<close>

inductive tg_reach :: "tg_par \<Rightarrow> simtime \<Rightarrow> tg \<Rightarrow> bool" for par where
  tg_init: "0 \<le> now \<Longrightarrow> tg_initialize par now up = Inr s \<Longrightarrow> tg_reach par now s"
| tg_timer: "tg_reach par now s \<Longrightarrow> tgTimer s = Some t \<Longrightarrow> tm_at t = Some later \<Longrightarrow> now \<le> later \<Longrightarrow>
    tg_handleTimer par later up d s = Inr s' \<Longrightarrow> tg_reach par later s'"
| tg_packet: "tg_reach par now s \<Longrightarrow> now \<le> later \<Longrightarrow> tg_handlePacket up isPacket s = Inr s' \<Longrightarrow>
    tg_reach par later s'"
| tg_operation: "tg_reach par now s \<Longrightarrow> now \<le> later \<Longrightarrow>
    tg_handleOperationStage par later operation stage s = Inr s' \<Longrightarrow> tg_reach par later s'"

definition tg_addressed :: "tg_par \<Rightarrow> mac_addr \<Rightarrow> bool" where
  "tg_addressed par a \<longleftrightarrow> resolve_dest (tp_module par) (tp_destAddress par) = Inr a \<and> a \<noteq> 0"

definition tg_inv :: "tg_par \<Rightarrow> tg \<Rightarrow> bool" where
  "tg_inv par s \<longleftrightarrow>
     (tgTimer s = None \<longleftrightarrow> \<not> tg_isGenerator par) \<and> tgEtherType s = tp_etherType par \<and>
     tgSent s = int (length (tgOut s)) \<and> tgSeqNum s = tgSent s \<and>
     (\<forall>t. tgTimer s = Some t \<and> tm_at t \<noteq> None \<and> tm_kind t \<noteq> tg_START \<longrightarrow> tg_addressed par (tgDest s)) \<and>
     (\<forall>p \<in> set (tgOut s). \<exists>a. tg_addressed par a \<and>
        pk_ctrl p = Some (new_Ieee802Ctrl\<lparr>ctl_etherType := tp_etherType par, ctl_dest := a\<rparr>))"

lemma tg_send_one_inv:
  assumes "tg_send_one par len s = Inr s'" and "tg_inv par s" and "tg_addressed par (tgDest s)"
  shows "tg_inv par s' \<and> tgDest s' = tgDest s \<and> tgTimer s' = tgTimer s"
proof -
  obtain name where "s' = s\<lparr>tgSeqNum := tgSeqNum s + 1,
      tgOut := tgOut s @ [\<lparr>pk_kind = IEEE802CTRL_DATA, pk_byteLength = len,
        pk_ctrl = Some (new_Ieee802Ctrl\<lparr>ctl_etherType := tgEtherType s, ctl_dest := tgDest s\<rparr>),
        pk_data = PlainMessage name\<rparr>], tgSent := tgSent s + 1\<rparr>"
    using assms(1) by (auto simp: tg_send_one_def bindR_Inr_iff Let_def)
  with assms(2,3) show ?thesis by (auto simp: tg_inv_def intro!: exI [of _ "tgDest s"])
qed

lemma tg_send_burst_inv:
  assumes "tg_send_burst par len i n s = Inr s'" and "tg_inv par s" and "tg_addressed par (tgDest s)"
  shows "tg_inv par s' \<and> tgDest s' = tgDest s \<and> tgTimer s' = tgTimer s"
  using assms
proof (induction n arbitrary: i s)
  case (Suc n)
  then obtain s1 where s1: "tg_send_one par (len i) s = Inr s1" "tg_send_burst par len (Suc i) n s1 = Inr s'"
    by (auto simp: bindR_Inr_iff)
  from tg_send_one_inv [OF s1(1) Suc.prems(2,3)] Suc.IH [OF s1(2)] Suc.prems(3) show ?case by simp
qed simp

lemma tg_schedule_inv:
  assumes "tg_scheduleNextPacket par now previous i s = Inr s'" and "tg_inv par s"
    and "previous \<noteq> - SIMTIME_SECOND \<Longrightarrow> tg_addressed par (tgDest s)"
  shows "tg_inv par s'"
  using assms
  by (cases "previous = - SIMTIME_SECOND")
    (auto simp: tg_scheduleNextPacket_def tg_inv_def scheduleAt_def bindR_Inr_iff Let_def
      split: option.splits if_splits)

lemma tg_handleTimer_inv:
  assumes "tg_handleTimer par now up d s = Inr s'" and "tg_inv par s"
    and "tgTimer s = Some t" and "tm_at t \<noteq> None" and "now \<ge> 0"
  shows "tg_inv par s'"
proof -
  let ?s1 = "s\<lparr>tgTimer := Some (t\<lparr>tm_at := None\<rparr>)\<rparr>"
  let ?send = "\<lambda>s2. bindR (tg_sendBurstPackets par d s2) (tg_scheduleNextPacket par now now (td_sendInterval d))"
  have s1: "tg_inv par (?s1\<lparr>tgDest := a\<rparr>)" for a using assms(2,3) by (simp add: tg_inv_def)
  have now: "now \<noteq> - SIMTIME_SECOND" using assms(5) by (simp add: SIMTIME_SECOND_def)
  have send: "tg_inv par s'" if "?send s2 = Inr s'" "tg_inv par s2" "tg_addressed par (tgDest s2)" for s2
  proof -
    from that(1) obtain s3 where s3: "tg_sendBurstPackets par d s2 = Inr s3" "tg_scheduleNextPacket par now now (td_sendInterval d) s3 = Inr s'"
      unfolding bindR_Inr_iff by blast
    from tg_send_burst_inv [OF s3(1) [unfolded tg_sendBurstPackets_def] that(2,3)] tg_schedule_inv [OF s3(2)] that(3)
    show ?thesis by simp
  qed
  show ?thesis
  proof (cases "tm_kind t = tg_START")
    case True
    then obtain a where a: "resolve_dest (tp_module par) (tp_destAddress par) = Inr a"
      "(if isUnspecified a then Inr (?s1\<lparr>tgDest := a\<rparr>) else ?send (?s1\<lparr>tgDest := a\<rparr>)) = Inr s'"
      using assms(1,3) by (auto simp: tg_handleTimer_def bindR_Inr_iff Let_def split: if_splits)
    with s1 [of a] send [of "?s1\<lparr>tgDest := a\<rparr>"] show ?thesis
      by (auto simp: isUnspecified_def tg_addressed_def split: if_splits)
  next
    case False
    then have "?send ?s1 = Inr s'" using assms(1,3) by (simp add: tg_handleTimer_def Let_def split: if_splits)
    moreover have "tg_addressed par (tgDest s)" using assms(2-4) False by (simp add: tg_inv_def)
    ultimately show ?thesis using send [of ?s1] s1 [of "tgDest s"] by simp
  qed
qed

lemma tg_operation_inv:
  assumes "tg_handleOperationStage par now operation stage s = Inr s'" and "tg_inv par s"
  shows "tg_inv par s'"
proof (cases operation)
  case NodeStartOperation
  with assms show ?thesis
    using tg_schedule_inv [of par now "- SIMTIME_SECOND" 0 s s'] by (auto split: if_splits)
qed (use assms in \<open>auto simp: tg_cancelNextPacket_def tg_inv_def cancelEvent_def split: if_splits option.splits\<close>)

lemma tg_initialize_inv:
  assumes "tg_initialize par now up = Inr s"
  shows "tg_inv par s"
proof -
  let ?s = "\<lparr>tgSeqNum = 0, tgEtherType = tp_etherType par, tgDest = 0,
      tgTimer = (if tg_isGenerator par then Some \<lparr>tm_kind = 0, tm_at = None\<rparr> else None),
      tgStartTime = tp_startTime par, tgStopTime = tp_stopTime par, tgSent = 0, tgReceived = 0, tgOut = []\<rparr>"
  have i: "tg_inv par ?s" by (auto simp: tg_inv_def split: if_splits)
  show ?thesis
  proof (cases "up \<and> tg_isGenerator par")
    case True
    then have "tg_scheduleNextPacket par now (- SIMTIME_SECOND) 0 ?s = Inr s"
      using assms by (simp add: tg_initialize_def Let_def split: if_splits)
    then show ?thesis using tg_schedule_inv i by blast
  next
    case False
    then have "s = ?s" using assms unfolding tg_initialize_def Let_def by (auto split: if_splits)
    with i show ?thesis by simp
  qed
qed

lemma tg_reach_inv:
  assumes "tg_reach par now s"
  shows "0 \<le> now \<and> tg_inv par s"
  using assms
proof (induction rule: tg_reach.induct)
  case (tg_init now up s)
  then show ?case by (simp add: tg_initialize_inv)
next
  case (tg_timer now s t later up d s')
  then show ?case using tg_handleTimer_inv [of par later up d s s' t] by simp
next
  case (tg_packet now s later up isPacket s')
  then show ?case by (auto simp: tg_handlePacket_def tg_receivePacket_def tg_inv_def split: if_splits)
next
  case (tg_operation now s later operation stage s')
  then show ?case using tg_operation_inv [of par later operation stage s s'] by simp
qed


definition tg_sink :: tg_par where
  "tg_sink = \<lparr>tp_destAddress = [], tp_startTime = 0, tp_stopTime = -1, tp_etherType = 0x88B8, tp_id = 1,
     tp_simtime = (\<lambda>r. \<lfloor>r * 1000000000000\<rfloor>), tp_module = (\<lambda>_. None)\<rparr>"


end
