(* ===== verification/LifecycleController.thy ===== *)
theory LifecycleController
  imports NodeOperation
begin

text \<open>
  \<open>base/LifecycleController\<close>: applies an operation to a module and its submodules, stage by stage. A
  module that needs time for a stage answers \<open>false\<close> and invokes a callback when it is done; the next
  stage begins when no module is pending. The modules' own \<open>handleOperationStage\<close> is a parameter, a
  function of the state \<open>'w\<close> of all modules.

  A callback stands for the module it was given to: a module is asked once in a stage, so it has at most
  one. The controller keeps an unused callback object for the next module (\<open>spareCallback\<close>), which is
  storage management only. Callbacks are invoked between calls of the controller, in any order.
\<close>

section \<open>Modules and operations\<close>

text \<open>A module has an identity, may implement \<open>ILifecycle\<close>, and has submodules in their order.\<close>

datatype module_tree = ModuleTree nat bool "module_tree list"

type_synonym 'w handler = "LifecycleOperation \<Rightarrow> nat \<Rightarrow> nat \<Rightarrow> 'w \<Rightarrow> ('w \<times> bool) res"

text \<open>
  What one stage works on: the state of the modules, the list of pending callbacks of the operation, and
  a log of the calls made, each with its stage.
\<close>

type_synonym 'w stage_state = "'w \<times> nat list \<times> (nat \<times> nat) list"

definition ask_module :: "'w handler \<Rightarrow> LifecycleOperation \<Rightarrow> nat \<Rightarrow> nat \<Rightarrow> 'w stage_state \<Rightarrow> 'w stage_state res" where
  "ask_module h operation stage i d =
     (case d of (w, pending, calls) \<Rightarrow>
        bindR (h operation stage i w) (\<lambda>(w1, fin).
          Inr (w1, if fin then pending else pending @ [i], calls @ [(stage, i)])))"

fun doOneStage :: "'w handler \<Rightarrow> LifecycleOperation \<Rightarrow> nat \<Rightarrow> module_tree \<Rightarrow> 'w stage_state \<Rightarrow> 'w stage_state res"
  and doSubmodules ::
    "'w handler \<Rightarrow> LifecycleOperation \<Rightarrow> nat \<Rightarrow> module_tree list \<Rightarrow> 'w stage_state \<Rightarrow> 'w stage_state res" where
  "doOneStage h operation stage (ModuleTree i subject children) d =
     bindR (if subject then ask_module h operation stage i d else Inr d)
       (doSubmodules h operation stage children)"
| "doSubmodules h operation stage [] d = Inr d"
| "doSubmodules h operation stage (m # ms) d =
     bindR (doOneStage h operation stage m d) (doSubmodules h operation stage ms)"

text \<open>
  The operation object; \<open>op_callback\<close> tells whether a completion callback was given, \<open>op_notified\<close>
  counts its invocations.
\<close>

record 'w life_op =
  op_kind :: LifecycleOperation
  op_root :: module_tree
  op_stage :: nat
  op_inside :: bool
  op_callback :: bool
  op_notified :: nat
  op_state :: "'w stage_state"

abbreviation op_pending :: "'w life_op \<Rightarrow> nat list" where
  "op_pending p \<equiv> fst (snd (op_state p))"

abbreviation op_calls :: "'w life_op \<Rightarrow> (nat \<times> nat) list" where
  "op_calls p \<equiv> snd (snd (op_state p))"

abbreviation op_world :: "'w life_op \<Rightarrow> 'w" where
  "op_world p \<equiv> fst (op_state p)"

text \<open>\<open>resumeOperation\<close> returns whether the operation is done.\<close>

function resumeOperation :: "'w handler \<Rightarrow> 'w life_op \<Rightarrow> ('w life_op \<times> bool) res" where
  "resumeOperation h p =
     (if op_stage p < getNumStages (op_kind p) then
        case doOneStage h (op_kind p) (op_stage p) (op_root p) (op_state p) of
          Inl e \<Rightarrow> Inl e
        | Inr d \<Rightarrow>
            if fst (snd d) = [] then resumeOperation h (p\<lparr>op_state := d, op_stage := op_stage p + 1\<rparr>)
            else Inr (p\<lparr>op_state := d\<rparr>, False)
      else Inr (if op_callback p \<and> \<not> op_inside p then p\<lparr>op_notified := op_notified p + 1\<rparr> else p, True))"
  by auto
termination
  by (relation "measure (\<lambda>(h, p). getNumStages (op_kind p) - op_stage p)") auto

declare resumeOperation.simps [simp del]

definition initiateOperation ::
    "'w handler \<Rightarrow> LifecycleOperation \<Rightarrow> module_tree \<Rightarrow> bool \<Rightarrow> 'w \<Rightarrow> ('w life_op \<times> bool) res" where
  "initiateOperation h operation m callback w =
     resumeOperation h \<lparr>op_kind = operation, op_root = m, op_stage = 0, op_inside = True,
                        op_callback = callback, op_notified = 0, op_state = (w, [], [])\<rparr>"

text \<open>The callback of module \<open>i\<close>; \<open>w\<close> is the state of the modules by then.\<close>

definition moduleOperationStageCompleted ::
    "'w handler \<Rightarrow> nat \<Rightarrow> 'w \<Rightarrow> 'w life_op \<Rightarrow> ('w life_op \<times> bool) res" where
  "moduleOperationStageCompleted h i w p =
     (if i \<notin> set (op_pending p) then Inl AssertFailed
      else
        let pending = remove1 i (op_pending p);
            p1 = p\<lparr>op_state := (w, pending, op_calls p)\<rparr>
        in if pending = [] then resumeOperation h (p1\<lparr>op_stage := op_stage p + 1, op_inside := False\<rparr>)
           else Inr (p1, False))"

text \<open>
  The command of a scenario script. \<open>env_module\<close> looks a module up by its path, \<open>env_class\<close> creates an
  object by the name of its class (\<open>Some None\<close>: not an operation). The operations of this library read
  none of the parameters, so any attribute besides the four known ones is an error.
\<close>

definition processCommand ::
    "'w handler \<Rightarrow> (string \<Rightarrow> module_tree option) \<Rightarrow> (string \<Rightarrow> LifecycleOperation option option) \<Rightarrow>
     (module_tree \<Rightarrow> bool) \<Rightarrow> (string \<times> string) list \<Rightarrow> 'w \<Rightarrow> ('w life_op \<times> bool) res" where
  "processCommand h env_module env_class isNode attrs w =
     (case map_of attrs ''target'' of
        None \<Rightarrow> Inl NullDeref
      | Some target \<Rightarrow>
          case env_module target of
            None \<Rightarrow> Inl (RuntimeError ''Module not found'')
          | Some m \<Rightarrow>
              case map_of attrs ''operation'' of
                None \<Rightarrow> Inl NullDeref
              | Some operationName \<Rightarrow>
                  case env_class operationName of
                    None \<Rightarrow> Inl (RuntimeError ''class not found'')
                  | Some None \<Rightarrow> Inl BadCast
                  | Some (Some operation) \<Rightarrow>
                      let params = filter (\<lambda>(k, v). k \<notin> {''module'', ''t'', ''target'', ''operation''}) attrs in
                      bindR (nodeOperation_initialize (isNode m)) (\<lambda>_.
                        if params \<noteq> [] then Inl (RuntimeError ''Unknown parameter'')
                        else initiateOperation h operation m False w))"

section \<open>One stage is a pass over the subjects\<close>

fun subjects :: "module_tree \<Rightarrow> nat list" where
  "subjects (ModuleTree i subject children) = (if subject then [i] else []) @ concat (map subjects children)"

fun ask_all :: "'w handler \<Rightarrow> LifecycleOperation \<Rightarrow> nat \<Rightarrow> nat list \<Rightarrow> 'w stage_state \<Rightarrow> 'w stage_state res" where
  "ask_all h operation stage [] d = Inr d"
| "ask_all h operation stage (i # is) d =
     bindR (ask_module h operation stage i d) (ask_all h operation stage is)"

lemma ask_all_append:
  "ask_all h operation stage (is @ js) d = bindR (ask_all h operation stage is d) (ask_all h operation stage js)"
proof (induction "is" arbitrary: d)
  case (Cons i js')
  then show ?case by (cases "ask_module h operation stage i d") simp_all
qed simp

lemma doOneStage_subjects:
  "doOneStage h operation stage m d = ask_all h operation stage (subjects m) d"
  "doSubmodules h operation stage ms d = ask_all h operation stage (concat (map subjects ms)) d"
proof (induction h operation stage m d and h operation stage ms d rule: doOneStage_doSubmodules.induct)
  case (1 h operation stage i subject children d)
  then show ?case by (cases "ask_module h operation stage i d") simp_all
next
  case (3 h operation stage m ms d)
  have "doSubmodules h operation stage ms = ask_all h operation stage (concat (map subjects ms))"
    using 3(2) by blast
  then show ?case using 3(1) by (simp add: ask_all_append)
qed simp

lemma ask_all_result:
  assumes "ask_all h operation stage is (w, pending, calls) = Inr (w', pending', calls')"
  shows "calls' = calls @ map (Pair stage) is
    \<and> (\<exists>new. pending' = pending @ new \<and> set new \<subseteq> set is \<and> (distinct is \<longrightarrow> distinct new))"
  using assms
proof (induction "is" arbitrary: w pending calls)
  case (Cons i "is")
  then obtain w1 fin where h: "h operation stage i w = Inr (w1, fin)" and
    r: "ask_all h operation stage is (w1, if fin then pending else pending @ [i], calls @ [(stage, i)]) = Inr (w', pending', calls')"
    by (auto simp: ask_module_def bindR_Inr_iff)
  from Cons.IH [OF r] obtain new where
    new: "pending' = (if fin then pending else pending @ [i]) @ new" "set new \<subseteq> set is" "distinct is \<longrightarrow> distinct new"
    and calls: "calls' = calls @ map (Pair stage) (i # is)" by auto
  have "pending' = pending @ (if fin then new else i # new)" using new(1) by simp
  moreover have "set (if fin then new else i # new) \<subseteq> set (i # is)
      \<and> (distinct (i # is) \<longrightarrow> distinct (if fin then new else i # new))" using new(2,3) by auto
  ultimately show ?case using calls by blast
qed auto

section \<open>The course of an operation\<close>

text \<open>The calls of the stages before \<open>k\<close>, as they should be: all subjects in order, stage by stage.\<close>

definition stage_calls :: "module_tree \<Rightarrow> nat \<Rightarrow> (nat \<times> nat) list" where
  "stage_calls m k = concat (map (\<lambda>j. map (Pair j) (subjects m)) [0..<k])"

lemma stage_calls_Suc: "stage_calls m (Suc k) = stage_calls m k @ map (Pair k) (subjects m)"
  by (simp add: stage_calls_def)

abbreviation op_numStages :: "'w life_op \<Rightarrow> nat" where
  "op_numStages p \<equiv> getNumStages (op_kind p)"

definition lc_ready :: "'w life_op \<Rightarrow> bool" where
  "lc_ready p \<longleftrightarrow> op_stage p \<le> op_numStages p \<and> op_pending p = [] \<and>
     op_calls p = stage_calls (op_root p) (op_stage p) \<and> op_notified p = 0"

definition lc_inv :: "'w life_op \<Rightarrow> bool" where
  "lc_inv p \<longleftrightarrow>
     op_stage p \<le> op_numStages p \<and> (op_pending p = [] \<longleftrightarrow> op_stage p = op_numStages p) \<and>
     op_calls p = stage_calls (op_root p) (op_stage p + (if op_pending p = [] then 0 else 1)) \<and>
     distinct (op_pending p) \<and> set (op_pending p) \<subseteq> set (subjects (op_root p)) \<and>
     op_notified p = (if op_pending p = [] \<and> op_callback p \<and> \<not> op_inside p then 1 else 0)"

definition same_op :: "'w life_op \<Rightarrow> 'w life_op \<Rightarrow> bool" where
  "same_op p q \<longleftrightarrow> op_kind p = op_kind q \<and> op_root p = op_root q \<and> op_callback p = op_callback q \<and> op_inside p = op_inside q"

lemma resume_inv:
  assumes "resumeOperation h p = Inr (p', b)" and "lc_ready p" and "distinct (subjects (op_root p))"
  shows "lc_inv p' \<and> b = (op_pending p' = []) \<and> same_op p p' \<and> op_stage p \<le> op_stage p'"
  using assms
proof (induction h p arbitrary: p' b rule: resumeOperation.induct)
  case (1 h p)
  show ?case
  proof (cases "op_stage p < op_numStages p")
    case False
    with 1(2-4) show ?thesis
      by (subst (asm) resumeOperation.simps) (auto simp: lc_ready_def lc_inv_def same_op_def split: if_splits)
  next
    case True
    obtain w where st: "op_state p = (w, [], stage_calls (op_root p) (op_stage p))"
      using 1(3) by (cases "op_state p") (simp add: lc_ready_def)
    obtain w1 pend calls where d: "doOneStage h (op_kind p) (op_stage p) (op_root p) (op_state p) = Inr (w1, pend, calls)"
      using 1(2) True by (subst (asm) resumeOperation.simps) (auto split: sum.splits)
    have d1: "calls = stage_calls (op_root p) (Suc (op_stage p))" "set pend \<subseteq> set (subjects (op_root p))" "distinct pend"
      using ask_all_result [of h "op_kind p" "op_stage p" "subjects (op_root p)" w "[]"] d 1(4)
      by (auto simp: doOneStage_subjects st stage_calls_Suc)
    show ?thesis
    proof (cases "pend = []")
      case True': True
      let ?p1 = "p\<lparr>op_state := (w1, pend, calls), op_stage := op_stage p + 1\<rparr>"
      have "resumeOperation h ?p1 = Inr (p', b)"
        using 1(2) True True' d by (subst (asm) resumeOperation.simps) simp
      moreover have "lc_ready ?p1" using 1(3) True True' d1(1) by (simp add: lc_ready_def)
      ultimately have "lc_inv p' \<and> b = (op_pending p' = []) \<and> same_op ?p1 p' \<and> op_stage ?p1 \<le> op_stage p'"
        using 1(1) [OF True d _ ] True' 1(4) by simp
      then show ?thesis by (simp add: same_op_def)
    next
      case False
      then have "p' = p\<lparr>op_state := (w1, pend, calls)\<rparr>" "\<not> b"
        using 1(2) True d by (subst (asm) resumeOperation.simps; simp)+
      with False True 1(3) d1 show ?thesis by (auto simp: lc_inv_def lc_ready_def same_op_def)
    qed
  qed
qed

lemma ask_all_total:
  assumes "\<And>k i w. \<exists>r. h operation k i w = Inr r"
  shows "\<exists>d'. ask_all h operation stage is d = Inr d'"
proof (induction "is" arbitrary: d)
  case (Cons i "is")
  obtain w pending calls where d: "d = (w, pending, calls)" by (cases d)
  obtain w1 fin where "h operation stage i w = Inr (w1, fin)" using assms by (metis surj_pair)
  with Cons.IH show ?case by (auto simp: ask_module_def d)
qed auto

lemma resume_total:
  assumes "\<forall>k i w. \<exists>r. h (op_kind p) k i w = Inr r"
  shows "\<exists>r. resumeOperation h p = Inr r"
  using assms
proof (induction h p rule: resumeOperation.induct)
  case (1 h p)
  show ?case
  proof (cases "op_stage p < op_numStages p")
    case True
    obtain d where d: "doOneStage h (op_kind p) (op_stage p) (op_root p) (op_state p) = Inr d"
      using ask_all_total [of h "op_kind p" "op_stage p" "subjects (op_root p)" "op_state p"] 1(2)
      by (auto simp: doOneStage_subjects)
    show ?thesis
      using 1(1) [OF True d] 1(2) True d by (subst resumeOperation.simps) auto
  qed (subst resumeOperation.simps, auto)
qed

text \<open>
  The states of an operation: \<open>n\<close> callbacks have come in since it was initiated, \<open>b\<close> is what
  \<open>initiateOperation\<close> returned.
\<close>

inductive lc_reach :: "'w handler \<Rightarrow> LifecycleOperation \<Rightarrow> module_tree \<Rightarrow> bool \<Rightarrow> nat \<Rightarrow> bool \<Rightarrow> 'w life_op \<Rightarrow> bool"
  for h operation m cb where
  lc_initiate: "initiateOperation h operation m cb w = Inr (p, b) \<Longrightarrow> lc_reach h operation m cb 0 b p"
| lc_completed: "lc_reach h operation m cb n b p \<Longrightarrow> i \<in> set (op_pending p) \<Longrightarrow>
    moduleOperationStageCompleted h i w p = Inr (p', b') \<Longrightarrow> lc_reach h operation m cb (Suc n) b p'"

definition lc_count :: "nat \<Rightarrow> 'w life_op \<Rightarrow> bool" where
  "lc_count n p \<longleftrightarrow>
     n + length (op_pending p) \<le> (op_stage p + (if op_pending p = [] then 0 else 1)) * length (subjects (op_root p))"

lemma pending_length:
  "lc_inv p \<Longrightarrow> length (op_pending p) \<le> length (subjects (op_root p))"
proof -
  assume "lc_inv p"
  then have "distinct (op_pending p)" and "set (op_pending p) \<subseteq> set (subjects (op_root p))" by (simp_all add: lc_inv_def)
  then have "length (op_pending p) \<le> card (set (subjects (op_root p)))"
    using distinct_card [of "op_pending p"] card_mono [of "set (subjects (op_root p))" "set (op_pending p)"] by simp
  also have "\<dots> \<le> length (subjects (op_root p))" by (rule card_length)
  finally show ?thesis .
qed

lemma lc_reach_inv:
  assumes "lc_reach h operation m cb n b p" and "distinct (subjects m)"
  shows "lc_inv p \<and> lc_count n p \<and> op_kind p = operation \<and> op_root p = m \<and> op_callback p = cb
       \<and> (op_inside p \<longrightarrow> b = (op_pending p = [])) \<and> (b \<longrightarrow> op_inside p)"
  using assms(1)
proof (induction rule: lc_reach.induct)
  case (lc_initiate w p b)
  let ?p0 = "\<lparr>op_kind = operation, op_root = m, op_stage = 0, op_inside = True, op_callback = cb,
      op_notified = 0, op_state = (w, [], [])\<rparr>"
  have "lc_inv p \<and> b = (op_pending p = []) \<and> same_op ?p0 p \<and> op_stage ?p0 \<le> op_stage p"
    using lc_initiate assms(2)
    by (intro resume_inv) (simp_all add: initiateOperation_def lc_ready_def stage_calls_def)
  then show ?case using pending_length [of p] by (auto simp: same_op_def lc_count_def)
next
  case (lc_completed n b p i w p' b')
  let ?pend = "remove1 i (op_pending p)"
  let ?p1 = "p\<lparr>op_state := (w, ?pend, op_calls p)\<rparr>"
  have inv: "lc_inv p" and cnt: "lc_count n p" and b: "op_inside p \<longrightarrow> b = (op_pending p = [])" "b \<longrightarrow> op_inside p" and
    fx: "op_kind p = operation" "op_root p = m" "op_callback p = cb" using lc_completed.IH by auto
  have len: "length (op_pending p) = Suc (length ?pend)" using length_pos_if_in_set [OF lc_completed(2)] lc_completed(2)
    by (simp add: length_remove1)
  have ne: "op_pending p \<noteq> []" and lt: "op_stage p < op_numStages p" using lc_completed(2) inv by (auto simp: lc_inv_def)
  show ?case
  proof (cases "?pend = []")
    case False
    then have "p' = ?p1" using lc_completed(2,3) by (simp add: moduleOperationStageCompleted_def Let_def)
    with False ne inv cnt len b fx lc_completed(2) set_remove1_subset [of i "op_pending p"] show ?thesis
      by (auto simp: lc_inv_def lc_count_def)
  next
    case True
    let ?p2 = "?p1\<lparr>op_stage := op_stage p + 1, op_inside := False\<rparr>"
    have "resumeOperation h ?p2 = Inr (p', b')"
      using True lc_completed(2,3) by (simp add: moduleOperationStageCompleted_def Let_def)
    moreover have "lc_ready ?p2" using inv ne lt True by (simp add: lc_ready_def lc_inv_def)
    ultimately have r: "lc_inv p' \<and> b' = (op_pending p' = []) \<and> same_op ?p2 p' \<and> op_stage ?p2 \<le> op_stage p'"
      using fx(2) assms(2) by (intro resume_inv) simp_all
    have "Suc n \<le> (op_stage p + 1) * length (subjects m)" using cnt ne len True fx(2) by (simp add: lc_count_def)
    also have "\<dots> \<le> op_stage p' * length (subjects m)" using r by (intro mult_le_mono1) simp
    finally have "lc_count (Suc n) p'"
      using pending_length [of p'] r fx(2) by (auto simp: lc_count_def same_op_def)
    with r fx b ne show ?thesis by (auto simp: same_op_def)
  qed
qed

section \<open>Modules that answer at once\<close>

text \<open>An operation whose modules answer at once: its stages are one after the other.\<close>

fun run_stages :: "'w handler \<Rightarrow> LifecycleOperation \<Rightarrow> nat list \<Rightarrow> nat \<Rightarrow> nat \<Rightarrow> 'w \<Rightarrow> 'w res" where
  "run_stages h operation is k 0 w = Inr w"
| "run_stages h operation is k (Suc n) w =
     bindR (foldl (\<lambda>r i. bindR r (\<lambda>w1. bindR (h operation k i w1) (\<lambda>x. Inr (fst x)))) (Inr w) is)
       (run_stages h operation is (Suc k) n)"

lemma foldl_error: "foldl (\<lambda>r i. bindR r (f i)) (Inl e) is = Inl e"
  by (induction "is") simp_all

text \<open>
  The contract of modules that need no time: whatever operation and stage, the answer is true. An
  operation on such modules is complete when \<open>initiateOperation\<close> returns.
\<close>

locale immediate_handler =
  fixes h :: "'w handler"
  assumes at_once: "h operation k i w = Inr (w', b) \<Longrightarrow> b"
begin

lemma ask_all_at_once:
  "ask_all h operation k is (w, pend, calls) =
    bindR (foldl (\<lambda>r i. bindR r (\<lambda>w1. bindR (h operation k i w1) (\<lambda>x. Inr (fst x)))) (Inr w) is)
      (\<lambda>w1. Inr (w1, pend, calls @ map (Pair k) is))"
proof (induction "is" arbitrary: w calls)
  case (Cons i "is")
  show ?case
  proof (cases "h operation k i w")
    case (Inl e)
    then show ?thesis using foldl_error [of "\<lambda>i w1. bindR (h operation k i w1) (\<lambda>x. Inr (fst x))" e "is"]
      by (simp add: ask_module_def)
  next
    case (Inr x)
    then obtain w1 where "h operation k i w = Inr (w1, True)" using at_once by (metis (full_types) surj_pair)
    then show ?thesis using Cons.IH [of w1] by (simp add: ask_module_def)
  qed
qed simp

lemma resume_at_once:
  assumes "op_pending p = []" and "op_stage p + n = op_numStages p" and "op_inside p"
  shows "resumeOperation h p =
    (case run_stages h (op_kind p) (subjects (op_root p)) (op_stage p) n (op_world p) of
       Inl e \<Rightarrow> Inl e
     | Inr w \<Rightarrow> Inr (p\<lparr>op_stage := op_numStages p, op_state := (w, [], op_calls p @
         concat (map (\<lambda>k. map (Pair k) (subjects (op_root p))) [op_stage p..<op_numStages p]))\<rparr>, True))"
  using assms
proof (induction n arbitrary: p)
  case 0
  then show ?case by (subst resumeOperation.simps) (cases p; cases "op_state p"; simp)
next
  case (Suc n)
  let ?is = "subjects (op_root p)" and ?k = "op_stage p"
  let ?r = "foldl (\<lambda>r i. bindR r (\<lambda>w1. bindR (h (op_kind p) ?k i w1) (\<lambda>x. Inr (fst x)))) (Inr (op_world p)) ?is"
  obtain w calls where st: "op_state p = (w, [], calls)" using Suc.prems(1) by (cases "op_state p") simp
  have lt: "?k < op_numStages p" using Suc.prems(2) by simp
  have one: "doOneStage h (op_kind p) ?k (op_root p) (op_state p) = bindR ?r (\<lambda>w1. Inr (w1, [], calls @ map (Pair ?k) ?is))"
    using ask_all_at_once by (simp add: doOneStage_subjects st)
  show ?case
  proof (cases ?r)
    case (Inl e)
    with one lt show ?thesis by (subst resumeOperation.simps) simp
  next
    case (Inr w1)
    let ?p1 = "p\<lparr>op_state := (w1, [], calls @ map (Pair ?k) ?is), op_stage := ?k + 1\<rparr>"
    have "resumeOperation h p = resumeOperation h ?p1" using one Inr lt by (subst resumeOperation.simps) simp
    moreover have "[?k..<op_numStages p] = ?k # [Suc ?k..<op_numStages p]" using lt by (simp add: upt_conv_Cons)
    ultimately show ?thesis using Suc.IH [of ?p1] Suc.prems Inr by (simp add: st split: sum.split)
  qed
qed

end

section \<open>Properties\<close>

text \<open>
  C29. An operation goes through its stages in order. Whatever order callbacks come in, at every moment the
  calls made are all subjects of stage 0, in tree order, then all of stage 1, and so on up to the stage
  under way, each module once per stage; modules are pending in exactly the last of these stages, and
  every one of them has been asked. While a module is pending its callback is accepted, if the modules
  raise no error, and after at most as many callbacks as there are stages times modules the operation is
  complete. The completion callback is invoked once if \<open>initiateOperation\<close> returned false, and not at all
  if it returned true.
\<close>

theorem lifecycle_stages:
  assumes "lc_reach h operation m cb n b p" and "distinct (subjects m)"
  shows "op_calls p = stage_calls m (if op_pending p = [] then getNumStages operation else op_stage p + 1)
       \<and> (op_pending p = [] \<longleftrightarrow> op_stage p = getNumStages operation)
       \<and> distinct (op_pending p) \<and> set (op_pending p) \<subseteq> set (subjects m)
       \<and> n \<le> getNumStages operation * length (subjects m)
       \<and> op_notified p = (if op_pending p = [] \<and> cb \<and> \<not> b then 1 else 0)
       \<and> ((\<forall>k i w. \<exists>r. h operation k i w = Inr r) \<longrightarrow>
            (\<forall>i w. i \<in> set (op_pending p) \<longrightarrow> (\<exists>r. moduleOperationStageCompleted h i w p = Inr r)))"
proof -
  have r: "lc_inv p" "lc_count n p" "op_kind p = operation" "op_root p = m" "op_callback p = cb"
    "op_inside p \<longrightarrow> b = (op_pending p = [])" "b \<longrightarrow> op_inside p"
    using lc_reach_inv [OF assms] by auto
  have "(op_stage p + (if op_pending p = [] then 0 else 1)) * length (subjects m) \<le> getNumStages operation * length (subjects m)"
    using r(1,3) by (intro mult_le_mono1) (auto simp: lc_inv_def)
  then have n: "n \<le> getNumStages operation * length (subjects m)" using add_leD1 [OF r(2) [unfolded lc_count_def r(4)]] by (rule order_trans [rotated])
  have acc: "\<exists>r. moduleOperationStageCompleted h i w p = Inr r"
    if "\<And>k i w. \<exists>r. h operation k i w = Inr r" "i \<in> set (op_pending p)" for i w
    using that(2) resume_total [of h] that(1) r(3) by (auto simp: moduleOperationStageCompleted_def Let_def)
  show ?thesis using n r(1,3-7) acc by (auto simp: lc_inv_def)
qed

text \<open>A node with two modules, of which the second needs time for every stage, is shut down: one callback so far.\<close>

definition slow_handler :: "unit handler" where
  "slow_handler operation stage i w = Inr (w, i \<noteq> 2)"

definition two_modules :: module_tree where
  "two_modules = ModuleTree 0 False [ModuleTree 1 True [], ModuleTree 2 True []]"

lemma lifecycle_stages_witness:
  "\<exists>p. lc_reach slow_handler NodeShutdownOperation two_modules True 1 False p
     \<and> op_calls p = [(0, 1), (0, 2), (1, 1), (1, 2)] \<and> op_pending p = [2] \<and> op_notified p = 0"
proof -
  obtain p where p: "initiateOperation slow_handler NodeShutdownOperation two_modules True () = Inr (p, False)"
    "op_pending p = [2]" "op_stage p = 0" "op_kind p = NodeShutdownOperation" "op_root p = two_modules" "op_calls p = [(0, 1), (0, 2)]"
    by (simp add: initiateOperation_def resumeOperation.simps ask_module_def slow_handler_def two_modules_def stage_defs)
  obtain q where q: "moduleOperationStageCompleted slow_handler 2 () p = Inr (q, False)" "op_pending q = [2]" "op_stage q = 1"
    using p(2-6) by (simp add: moduleOperationStageCompleted_def resumeOperation.simps ask_module_def slow_handler_def
        two_modules_def stage_defs Let_def)
  have "lc_reach slow_handler NodeShutdownOperation two_modules True (Suc 0) False q"
    by (rule lc_completed [OF lc_initiate [OF p(1)] _ q(1)]) (simp add: p(2))
  with lifecycle_stages [OF this] q show ?thesis
    by (auto simp: two_modules_def stage_calls_def numeral_2_eq_2)
qed

end
