(* ===== verification/NodeStatus.thy ===== *)
theory NodeStatus
  imports LifecycleController EtherApps
begin

text \<open>
  \<open>status/NodeStatus\<close>: the status of a network node, which the applications read, and a host made of
  this module, the LLC and a server under the \<open>LifecycleController\<close>. Icons are not modelled.
\<close>

datatype ns_state = UP | DOWN | GOING_UP | GOING_DOWN

text \<open>\<open>toupper\<close> of the C locale.\<close>

definition toupper :: "char \<Rightarrow> char" where
  "toupper c = (let n = (of_char c :: nat) in if 97 \<le> n \<and> n \<le> 122 then char_of (n - 32) else c)"

definition getStateByName :: "string \<Rightarrow> ns_state res" where
  "getStateByName name =
     (let temp = map toupper name in
      if temp = ''UP'' then Inr UP
      else if temp = ''DOWN'' then Inr DOWN
      else if temp = ''GOING_UP'' then Inr GOING_UP
      else if temp = ''GOING_DOWN'' then Inr GOING_DOWN
      else Inl (RuntimeError ''Invalid state name''))"

definition ns_initialize :: "string \<Rightarrow> ns_state res" where
  "ns_initialize initialStatus = getStateByName initialStatus"

definition ns_handleMessage :: "ns_state res" where
  "ns_handleMessage = Inl (RuntimeError ''This module doesn't handle messages'')"

text \<open>
  The three operations have the same shape: in the first stage the node must be in \<open>source\<close> and goes to
  \<open>between\<close>, in the last it must be there and goes to \<open>target\<close>; both happen if there is one stage only.
\<close>

definition ns_stage :: "ns_state \<Rightarrow> ns_state \<Rightarrow> ns_state \<Rightarrow> nat \<Rightarrow> nat \<Rightarrow> ns_state \<Rightarrow> ns_state res" where
  "ns_stage source between target numStages opStage s =
     bindR (if opStage = 0 then
              (if s \<noteq> source then Inl (RuntimeError ''Current node status does not fit the operation'')
               else Inr between)
            else Inr s)
       (\<lambda>s1. if opStage = numStages - 1 then (if s1 = between then Inr target else Inl AssertFailed)
             else Inr s1)"

fun ns_handleOperationStage :: "LifecycleOperation \<Rightarrow> nat \<Rightarrow> ns_state \<Rightarrow> ns_state res" where
  "ns_handleOperationStage NodeStartOperation opStage s =
     ns_stage DOWN GOING_UP UP (getNumStages NodeStartOperation) opStage s"
| "ns_handleOperationStage NodeShutdownOperation opStage s =
     ns_stage UP GOING_DOWN DOWN (getNumStages NodeShutdownOperation) opStage s"
| "ns_handleOperationStage NodeCrashOperation opStage s =
     ns_stage UP GOING_DOWN DOWN (getNumStages NodeCrashOperation) opStage s"
| "ns_handleOperationStage OtherOperation opStage s = Inr s"

section \<open>A server host\<close>

record host_state =
  h_status :: ns_state
  h_llc :: "app_payload llc"
  h_srv :: srv

text \<open>The submodules are 1, the status, 2, the LLC, and 3, the server; they may stand in any order.\<close>

definition host_handler :: "bool \<Rightarrow> host_state handler" where
  "host_handler registerSAP operation stage i w =
     (if i = 1 then
        bindR (ns_handleOperationStage operation stage (h_status w)) (\<lambda>s. Inr (w\<lparr>h_status := s\<rparr>, True))
      else if i = 2 then Inr (w\<lparr>h_llc := llc_handleOperationStage operation stage (h_llc w)\<rparr>, True)
      else bindR (srv_handleOperationStage registerSAP operation stage (h_srv w))
             (\<lambda>s. Inr (w\<lparr>h_srv := s\<rparr>, True)))"

definition host_tree :: "nat list \<Rightarrow> module_tree" where
  "host_tree order = ModuleTree 0 False (map (\<lambda>i. ModuleTree i True []) order)"

lemma host_stage:
  "doOneStage h operation stage (host_tree order) d = ask_all h operation stage order d"
  by (simp add: doOneStage_subjects host_tree_def comp_def)

interpretation host: immediate_handler "host_handler reg"
  by unfold_locales (auto simp: host_handler_def bindR_Inr_iff split: if_splits)

lemma host_initiate:
  "initiateOperation (host_handler reg) operation (host_tree order) cb w =
    (case run_stages (host_handler reg) operation order 0 (getNumStages operation) w of
       Inl e \<Rightarrow> Inl e
     | Inr w' \<Rightarrow> Inr (\<lparr>op_kind = operation, op_root = host_tree order, op_stage = getNumStages operation,
          op_inside = True, op_callback = cb, op_notified = 0,
          op_state = (w', [], stage_calls (host_tree order) (getNumStages operation))\<rparr>, True))"
proof -
  have s: "subjects (host_tree order) = order" by (simp add: host_tree_def comp_def)
  then show ?thesis
    unfolding initiateOperation_def
    by (subst host.resume_at_once [where n = "getNumStages operation"]) (auto simp: s stage_calls_def split: sum.split)
qed

lemma host_orders:
  assumes "distinct order" and "set order = {1, 2, 3 :: nat}"
  shows "order \<in> {[1, 2, 3], [1, 3, 2], [2, 1, 3], [2, 3, 1], [3, 1, 2], [3, 2, 1]}"
proof -
  have "length order = 3" using distinct_card [OF assms(1)] assms(2) by simp
  then obtain a b c where abc: "order = [a, b, c]" by (auto simp: length_Suc_conv numeral_3_eq_3)
  with assms have "a \<in> {1, 2, 3}" "b \<in> {1, 2, 3}" "c \<in> {1, 2, 3}" "a \<noteq> b" "a \<noteq> c" "b \<noteq> c" by auto
  then show ?thesis unfolding abc by (elim insertE emptyE) simp_all
qed

lemmas host_defs = host_handler_def ns_stage_def stage_defs llc_start_def llc_stop_def srv_startApp_def
  srv_stopApp_def srv_registerDSAP_def

lemma host_shutdown:
  assumes "order \<in> {[1, 2, 3], [1, 3, 2], [2, 1, 3], [2, 3, 1], [3, 1, 2], [3, 2, 1]}" and "h_status w = UP"
  shows "run_stages (host_handler reg) NodeShutdownOperation order 0 8 w =
    Inr (w\<lparr>h_status := DOWN, h_llc := llc_stop (h_llc w)\<rparr>)"
  using assms by (elim insertE emptyE; simp add: host_defs eval_nat_numeral)

lemma host_start:
  assumes "order \<in> {[1, 2, 3], [1, 3, 2], [2, 1, 3], [2, 3, 1], [3, 1, 2], [3, 2, 1]}" and "h_status w = DOWN"
  shows "run_stages (host_handler reg) NodeStartOperation order 0 8 w =
    Inr (w\<lparr>h_status := UP, h_llc := llc_start (h_llc w), h_srv := srv_startApp reg (h_srv w)\<rparr>)"
  using assms by (elim insertE emptyE; simp add: host_defs eval_nat_numeral)

lemma host_crash:
  assumes "order \<in> {[1, 2, 3], [1, 3, 2], [2, 1, 3], [2, 3, 1], [3, 1, 2], [3, 2, 1]}" and "h_status w = UP"
  shows "run_stages (host_handler reg) NodeCrashOperation order 0 2 w =
    Inr (w\<lparr>h_status := DOWN, h_llc := llc_stop (h_llc w)\<rparr>)"
  using assms by (elim insertE emptyE; simp add: host_defs eval_nat_numeral)

lemma host_wrong_status:
  assumes "order \<in> {[1, 2, 3], [1, 3, 2], [2, 1, 3], [2, 3, 1], [3, 1, 2], [3, 2, 1]}"
    and "operation = NodeStartOperation \<and> h_status w \<noteq> DOWN
       \<or> operation \<in> {NodeShutdownOperation, NodeCrashOperation} \<and> h_status w \<noteq> UP"
  shows "run_stages (host_handler reg) operation order 0 (Suc n) w =
    Inl (RuntimeError ''Current node status does not fit the operation'')"
  using assms by (elim insertE emptyE disjE conjE; simp add: host_defs eval_nat_numeral)

section \<open>Property\<close>

text \<open>
  C30. A server host survives a restart. Whatever the order of its submodules, a host that is up can be shut
  down and started again within one call each: after the shutdown its status is DOWN and its LLC discards
  every message, a crash leaves the same state, and after the start its status is UP and the message that
  the server sends is accepted by the LLC, so that exactly the server's SAP is registered again, at the
  server's gate. The LLC starts before the server because its stage comes first. An operation that
  does not fit the status ends in an error: a start of a host that is up, a shutdown or crash of one that is
  down.
\<close>

theorem host_restart:
  assumes "distinct order" and "set order = {1, 2, 3}" and "h_status w = UP"
  shows "\<exists>p p' q l. initiateOperation (host_handler reg) NodeShutdownOperation (host_tree order) cb w = Inr (p, True)
    \<and> h_status (op_world p) = DOWN
    \<and> (\<forall>m. llc_handleMessage (h_llc (op_world p)) m = Inr (h_llc (op_world p)))
    \<and> initiateOperation (host_handler reg) NodeCrashOperation (host_tree order) cb w = Inr (p', True)
    \<and> op_world p' = op_world p
    \<and> initiateOperation (host_handler reg) NodeStartOperation (host_tree order) cb (op_world p) = Inr (q, True)
    \<and> h_status (op_world q) = UP
    \<and> llc_run (h_llc (op_world q)) (from_app port (drop (length (sOut (h_srv w))) (sOut (h_srv (op_world q))))) = Inr l
    \<and> llcIsUp l \<and> map_of (dsapToPort l) = (if reg then [sLocalSAP (h_srv w) \<mapsto> port] else Map.empty)
    \<and> isl (initiateOperation (host_handler reg) NodeStartOperation (host_tree order) cb w)
    \<and> isl (initiateOperation (host_handler reg) NodeShutdownOperation (host_tree order) cb (op_world p))
    \<and> isl (initiateOperation (host_handler reg) NodeCrashOperation (host_tree order) cb (op_world p))"
proof -
  note ord = host_orders [OF assms(1,2)]
  let ?down = "w\<lparr>h_status := DOWN, h_llc := llc_stop (h_llc w)\<rparr>"
  let ?up = "?down\<lparr>h_status := UP, h_llc := llc_start (llc_stop (h_llc w)), h_srv := srv_startApp reg (h_srv w)\<rparr>"
  have n: "getNumStages NodeShutdownOperation = 8" "getNumStages NodeStartOperation = 8" "getNumStages NodeCrashOperation = 2"
    by (simp_all add: stage_defs)
  have up: "h_status ?down = DOWN" by simp
  obtain p p' q where p: "initiateOperation (host_handler reg) NodeShutdownOperation (host_tree order) cb w = Inr (p, True)" "op_world p = ?down"
    and p': "initiateOperation (host_handler reg) NodeCrashOperation (host_tree order) cb w = Inr (p', True)" "op_world p' = ?down"
    and q: "initiateOperation (host_handler reg) NodeStartOperation (host_tree order) cb ?down = Inr (q, True)" "op_world q = ?up"
    unfolding host_initiate n host_shutdown [OF ord assms(3)] host_crash [OF ord assms(3)] host_start [OF ord up] sum.case
    by (simp del: getNumStages.simps)
  obtain l where l: "llc_run (h_llc ?up) (from_app port (drop (length (sOut (h_srv w))) (sOut (h_srv ?up)))) = Inr l"
    "llcIsUp l" "map_of (dsapToPort l) = (if reg then [sLocalSAP (h_srv w) \<mapsto> port] else Map.empty)"
  proof (cases reg)
    case True
    let ?s = "llc_start (llc_stop (h_llc w))"
    have "llcIsUp ?s" and "dsapToPort ?s = []" by (simp_all add: llc_start_def Let_def)
    with True that show thesis
      by (simp add: srv_startApp_def srv_registerDSAP_def register_msg_def llc_run_register)
  next
    case False
    with that show thesis by (simp add: srv_startApp_def from_app_def llc_start_def Let_def)
  qed
  have disc: "llc_handleMessage (h_llc ?down) m = Inr (h_llc ?down)" for m
    by (cases m) (simp_all add: llc_stop_def Let_def)
  have bad: "isl (initiateOperation (host_handler reg) NodeStartOperation (host_tree order) cb w)"
    "isl (initiateOperation (host_handler reg) NodeShutdownOperation (host_tree order) cb ?down)"
    "isl (initiateOperation (host_handler reg) NodeCrashOperation (host_tree order) cb ?down)"
    unfolding host_initiate n using host_wrong_status [OF ord, of NodeStartOperation w reg 7] assms(3)
      host_wrong_status [OF ord, of NodeShutdownOperation ?down reg 7] host_wrong_status [OF ord, of NodeCrashOperation ?down reg 1]
    by (simp_all add: eval_nat_numeral del: run_stages.simps)
  show ?thesis
    by (rule exI [of _ p], rule exI [of _ p'], rule exI [of _ q], rule exI [of _ l])
      (use p p' q l disc bad in simp)
qed

lemma host_restart_witness:
  "\<exists>p q. initiateOperation (host_handler True) NodeShutdownOperation (host_tree [3, 1, 2]) False
         \<lparr>h_status = UP, h_llc = llc_initialize True, h_srv = srv_initialize 241 True True\<rparr> = Inr (p, True)
     \<and> initiateOperation (host_handler True) NodeStartOperation (host_tree [3, 1, 2]) False (op_world p) = Inr (q, True)
     \<and> h_status (op_world q) = UP"
  using host_restart [of "[3, 1, 2]" "\<lparr>h_status = UP, h_llc = llc_initialize True, h_srv = srv_initialize 241 True True\<rparr>"
      True False 0] by auto

end
