(* ===== verification/EtherHub.thy ===== *)
theory EtherHub
  imports Prelude
begin

text \<open>
  \<open>linklayer/ethernet/EtherHub\<close>: a wiring hub, which repeats every message on all other ports. A port is
  the pair of gates \<open>ethg$i\<close> and \<open>ethg$o\<close>; of the connections the code reads whether there is one and
  the nominal data rate of its channel. Frames are a type variable. \<open>EtherBus\<close> has the same test of the
  connections.
\<close>

record port_link =
  pl_in :: "real option"
  pl_out :: "real option"

section \<open>The test of the connections\<close>

text \<open>
  The loop of \<open>checkConnections\<close>: the number of active ports, the data rate of the first one and the flag
  \<open>dataratesDiffer\<close> go through the ports. With \<open>strict\<close> (\<open>errorWhenAsymmetric\<close>) an irregular port is an
  error.
\<close>

definition check_port :: "bool \<Rightarrow> port_link \<Rightarrow> nat \<times> real \<times> bool \<Rightarrow> (nat \<times> real \<times> bool) res" where
  "check_port strict port st =
     (case st of (numActivePorts, datarate, differ) \<Rightarrow>
        case (pl_in port, pl_out port) of
          (None, None) \<Rightarrow> Inr st
        | (Some drate, Some drate2) \<Rightarrow>
            let numActive1 = numActivePorts + 1;
                datarate1 = (if numActive1 = 1 then drate else datarate)
            in if datarate1 \<noteq> drate \<and> strict then Inl (RuntimeError ''The input datarate differs'')
               else if datarate1 \<noteq> drate2 \<and> strict then Inl (RuntimeError ''The output datarate differs'')
               else Inr (numActive1, datarate1, differ \<or> datarate1 \<noteq> drate \<or> datarate1 \<noteq> drate2)
        | _ \<Rightarrow> if strict then Inl (RuntimeError ''The input or output gate not connected'')
               else Inr (numActivePorts, datarate, True))"

fun check_ports :: "bool \<Rightarrow> port_link list \<Rightarrow> nat \<times> real \<times> bool \<Rightarrow> (nat \<times> real \<times> bool) res" where
  "check_ports strict [] st = Inr st"
| "check_ports strict (port # ports) st = bindR (check_port strict port st) (check_ports strict ports)"

text \<open>
  What it should find: every port has both connections or none, and there is one rate.
\<close>

definition port_rates :: "port_link \<Rightarrow> real set" where
  "port_rates port = set_option (pl_in port) \<union> set_option (pl_out port)"

definition links_regular :: "port_link list \<Rightarrow> bool" where
  "links_regular ports \<longleftrightarrow>
     (\<forall>p \<in> set ports. pl_in p = None \<longleftrightarrow> pl_out p = None) \<and>
     (\<exists>r. \<forall>p \<in> set ports. port_rates p \<subseteq> {r})"

lemma check_ports_loop:
  "n \<noteq> 0 \<Longrightarrow> (\<forall>p \<in> set ports. (pl_in p = None \<longleftrightarrow> pl_out p = None) \<and> port_rates p \<subseteq> {rate}) \<Longrightarrow>
   \<exists>k. check_ports strict ports (n, rate, differ) = Inr (k, rate, differ)"
proof (induction ports arbitrary: n)
  case (Cons p ports)
  obtain m where "check_port strict p (n, rate, differ) = Inr (m, rate, differ)" "m \<noteq> 0"
    using Cons.prems by (cases "pl_in p"; cases "pl_out p") (auto simp: check_port_def port_rates_def)
  with Cons.IH [of m] Cons.prems show ?case by simp
qed simp

lemma check_ports_keep: "\<exists>k r. check_ports False ports (n, rate, True) = Inr (k, r, True)"
proof (induction ports arbitrary: n rate)
  case (Cons p ports)
  then show ?case by (cases "pl_in p"; cases "pl_out p") (auto simp: check_port_def Let_def)
qed simp

lemma check_ports_irregular:
  "n \<noteq> 0 \<Longrightarrow> \<not> (\<forall>p \<in> set ports. (pl_in p = None \<longleftrightarrow> pl_out p = None) \<and> port_rates p \<subseteq> {rate}) \<Longrightarrow>
   isl (check_ports True ports (n, rate, differ)) \<and>
   (\<exists>k r. check_ports False ports (n, rate, differ) = Inr (k, r, True))"
proof (induction ports arbitrary: n differ)
  case (Cons p ports)
  show ?case
  proof (cases "(pl_in p = None \<longleftrightarrow> pl_out p = None) \<and> port_rates p \<subseteq> {rate}")
    case True
    have "\<exists>m. m \<noteq> 0 \<and> (\<forall>strict. check_port strict p (n, rate, differ) = Inr (m, rate, differ))"
      using Cons.prems(1) True by (cases "pl_in p"; cases "pl_out p") (auto simp: check_port_def port_rates_def)
    with Cons.IH Cons.prems True show ?thesis by auto
  next
    case False
    then show ?thesis using Cons.prems(1) check_ports_keep
      by (cases "pl_in p"; cases "pl_out p") (auto simp: check_port_def port_rates_def Let_def)
  qed
qed simp

text \<open>The test finds exactly the irregular connections, as an error or in the flag.\<close>

lemma check_ports_regular:
  "links_regular ports \<Longrightarrow> \<exists>k r. check_ports strict ports (0, 0, differ) = Inr (k, r, differ)"
  "\<not> links_regular ports \<Longrightarrow> isl (check_ports True ports (0, 0, differ)) \<and>
     (\<exists>k r. check_ports False ports (0, 0, differ) = Inr (k, r, True))"
proof -
  have "(links_regular ports \<longrightarrow> (\<forall>strict. \<exists>k r. check_ports strict ports (0, r0, differ) = Inr (k, r, differ))) \<and>
    (\<not> links_regular ports \<longrightarrow> isl (check_ports True ports (0, r0, differ)) \<and>
     (\<exists>k r. check_ports False ports (0, r0, differ) = Inr (k, r, True)))" for r0
  proof (induction ports)
    case Nil
    then show ?case by (auto simp: links_regular_def)
  next
    case (Cons p ports)
    consider (none) "pl_in p = None" "pl_out p = None" | (half) "(pl_in p = None) \<noteq> (pl_out p = None)"
      | (full) a b where "pl_in p = Some a" "pl_out p = Some b"
      by (cases "pl_in p"; cases "pl_out p") auto
    then show ?case
    proof cases
      case none
      have "links_regular (p # ports) = links_regular ports"
        using none by (auto simp: links_regular_def port_rates_def)
      with Cons none show ?thesis by (simp add: check_port_def)
    next
      case half
      then have "\<not> links_regular (p # ports)" by (auto simp: links_regular_def)
      then show ?thesis using half check_ports_keep by (cases "pl_in p"; cases "pl_out p") (auto simp: check_port_def)
    next
      case (full a b)
      have reg: "links_regular (p # ports) \<longleftrightarrow>
          a = b \<and> (\<forall>p \<in> set ports. (pl_in p = None \<longleftrightarrow> pl_out p = None) \<and> port_rates p \<subseteq> {a})"
        using full unfolding links_regular_def port_rates_def by auto
      show ?thesis
      proof (cases "a = b")
        case True
        have l: "links_regular (p # ports) \<Longrightarrow> \<exists>k. check_ports strict ports (1, a, differ) = Inr (k, a, differ)" for strict
          using reg by (intro check_ports_loop) auto
        have i: "\<not> links_regular (p # ports) \<Longrightarrow> isl (check_ports True ports (1, a, differ)) \<and>
            (\<exists>k r. check_ports False ports (1, a, differ) = Inr (k, r, True))"
          using reg True by (intro check_ports_irregular) auto
        have "check_ports strict (p # ports) (0, r0, differ) = check_ports strict ports (1, a, differ)" for strict
          using full True by (simp add: check_port_def)
        note eq = this
        show ?thesis unfolding eq using l i by blast
      next
        case False
        then show ?thesis using full reg check_ports_keep by (auto simp: check_port_def Let_def)
      qed
    qed
  qed
  then show "links_regular ports \<Longrightarrow> \<exists>k r. check_ports strict ports (0, 0, differ) = Inr (k, r, differ)"
    and "\<not> links_regular ports \<Longrightarrow> isl (check_ports True ports (0, 0, differ)) \<and>
     (\<exists>k r. check_ports False ports (0, 0, differ) = Inr (k, r, True))" by blast+
qed

section \<open>The hub\<close>

text \<open>
  \<open>hubPorts\<close> are the gates as they are; \<open>numPorts\<close> is read once, in \<open>initialize\<close>. \<open>onReceptionStart\<close> has the
  flag that makes a gate deliver a frame when its first bit arrives. \<open>hubOut\<close> logs what was sent, with the
  index of the gate.
\<close>

record 'f hub =
  numPorts :: nat
  hubPorts :: "port_link list"
  onReceptionStart :: "bool list"
  hubDataratesDiffer :: bool
  hubNumMessages :: int
  hubOut :: "(nat \<times> 'f) list"

definition hub_checkConnections :: "bool \<Rightarrow> 'f hub \<Rightarrow> 'f hub res" where
  "hub_checkConnections errorWhenAsymmetric s =
     bindR (check_ports errorWhenAsymmetric (take (numPorts s) (hubPorts s)) (0, 0, False))
       (\<lambda>(_, _, differ). Inr (s\<lparr>hubDataratesDiffer := differ\<rparr>))"

definition hub_initialize :: "port_link list \<Rightarrow> 'f hub res" where
  "hub_initialize ports =
     hub_checkConnections True
       \<lparr>numPorts = length ports, hubPorts = ports, onReceptionStart = map (\<lambda>_. True) ports,
        hubDataratesDiffer = False, hubNumMessages = 0, hubOut = []\<rparr>"

text \<open>
  The loop of \<open>handleMessage\<close>: port \<open>i\<close> of \<open>n\<close>. The message itself goes to the last port, copies to the
  others; \<open>msg\<close> is \<open>None\<close> once it has been sent, and a copy of NULL is an error.
\<close>

function hub_broadcast :: "nat \<Rightarrow> nat \<Rightarrow> 'f option \<Rightarrow> 'f hub \<Rightarrow> 'f hub res" where
  "hub_broadcast arrivalPort i msg s =
     (if i < numPorts s then
        if i \<noteq> arrivalPort then
          if pl_out (hubPorts s ! i) = None then hub_broadcast arrivalPort (Suc i) msg s
          else
            let isLast = (if int arrivalPort = int (numPorts s) - 1 then int i = int (numPorts s) - 2
                          else int i = int (numPorts s) - 1)
            in case msg of
                 None \<Rightarrow> Inl NullDeref
               | Some m \<Rightarrow>
                   hub_broadcast arrivalPort (Suc i) (if isLast then None else msg) (s\<lparr>hubOut := hubOut s @ [(i, m)]\<rparr>)
        else hub_broadcast arrivalPort (Suc i) msg s
      else Inr s)"
  by auto
termination
  by (relation "measure (\<lambda>(_, i, _, s). numPorts s - i)") auto

declare hub_broadcast.simps [simp del]

definition hub_handleMessage :: "nat \<Rightarrow> 'f \<Rightarrow> 'f hub \<Rightarrow> 'f hub res" where
  "hub_handleMessage arrivalPort msg s =
     bindR (if hubDataratesDiffer s then hub_checkConnections True s else Inr s) (\<lambda>s1.
       let s2 = s1\<lparr>hubNumMessages := hubNumMessages s1 + 1\<rparr> in
       if numPorts s2 \<le> 1 then Inr s2 else hub_broadcast arrivalPort 0 (Some msg) s2)"

text \<open>
  The notifications of the simulation kernel: a gate vector has been resized, a path has been created or cut
  (with a flag for a path that starts or ends here), a parameter has changed (with a flag for one of a data
  rate channel whose path contains this module). \<open>ports\<close> are the gates by then.
\<close>

datatype model_change = GateVectorResize string nat | PathCreate bool | PathCut bool | ParameterChange bool

fun hub_receiveSignal :: "port_link list \<Rightarrow> model_change \<Rightarrow> 'f hub \<Rightarrow> 'f hub res" where
  "hub_receiveSignal ports (GateVectorResize gateName oldSize) s =
     (let s1 = s\<lparr>hubPorts := ports, onReceptionStart := take (length ports) (onReceptionStart s)\<rparr> in
      if gateName = ''ethg''
      then Inr (s1\<lparr>onReceptionStart := take oldSize (onReceptionStart s1) @ replicate (length ports - oldSize) True\<rparr>)
      else Inr s1)"
| "hub_receiveSignal ports (PathCreate here) s =
     (if here then hub_checkConnections False (s\<lparr>hubPorts := ports\<rparr>) else Inr (s\<lparr>hubPorts := ports\<rparr>))"
| "hub_receiveSignal ports (PathCut here) s =
     (if here then hub_checkConnections False (s\<lparr>hubPorts := ports\<rparr>) else Inr (s\<lparr>hubPorts := ports\<rparr>))"
| "hub_receiveSignal ports (ParameterChange here) s =
     (if here then hub_checkConnections False (s\<lparr>hubPorts := ports\<rparr>) else Inr (s\<lparr>hubPorts := ports\<rparr>))"

section \<open>Broadcasts\<close>

definition hub_targets :: "nat \<Rightarrow> nat \<Rightarrow> 'f hub \<Rightarrow> nat list" where
  "hub_targets arrivalPort i s = filter (\<lambda>j. j \<noteq> arrivalPort \<and> pl_out (hubPorts s ! j) \<noteq> None) [i..<numPorts s]"

lemma hub_targets_Nil: "numPorts s \<le> i \<Longrightarrow> hub_targets a i s = []"
  by (simp add: hub_targets_def)

lemma hub_targets_Cons:
  "i < numPorts s \<Longrightarrow> hub_targets a i s =
    (if i \<noteq> a \<and> pl_out (hubPorts s ! i) \<noteq> None then [i] else []) @ hub_targets a (Suc i) s"
  by (simp add: hub_targets_def upt_conv_Cons)

text \<open>The message is given away only with the last port that can get it, so no copy of NULL is made.\<close>

lemma hub_broadcast_sends:
  assumes "msg = Some m \<or> hub_targets a i s = []"
  shows "hub_broadcast a i msg s = Inr (s\<lparr>hubOut := hubOut s @ map (\<lambda>j. (j, m)) (hub_targets a i s)\<rparr>)"
  using assms
proof (induction a i msg s rule: hub_broadcast.induct)
  case (1 a i msg s)
  show ?case
  proof (cases "i < numPorts s")
    case False
    then show ?thesis by (subst hub_broadcast.simps) (simp add: hub_targets_Nil)
  next
    case lt: True
    show ?thesis
    proof (cases "i \<noteq> a \<and> pl_out (hubPorts s ! i) \<noteq> None")
      case False
      then have t: "hub_targets a i s = hub_targets a (Suc i) s" using hub_targets_Cons [OF lt] by simp
      have "hub_broadcast a i msg s = hub_broadcast a (Suc i) msg s"
        using lt False by (subst hub_broadcast.simps) auto
      moreover have "hub_broadcast a (Suc i) msg s = Inr (s\<lparr>hubOut := hubOut s @ map (\<lambda>j. (j, m)) (hub_targets a (Suc i) s)\<rparr>)"
        using 1(1,3) lt False 1(4) t by (cases "i = a") auto
      ultimately show ?thesis by (simp add: t)
    next
      case True
      then have t: "hub_targets a i s = i # hub_targets a (Suc i) s" using hub_targets_Cons [OF lt] by simp
      then have msg: "msg = Some m" using 1(4) by simp
      let ?last = "if int a = int (numPorts s) - 1 then int i = int (numPorts s) - 2 else int i = int (numPorts s) - 1"
      let ?s1 = "s\<lparr>hubOut := hubOut s @ [(i, m)]\<rparr>"
      have "hub_targets a (Suc i) ?s1 = []" if ?last
        using that by (auto simp: hub_targets_def filter_empty_conv split: if_splits)
      then have "hub_broadcast a (Suc i) (if ?last then None else msg) ?s1 =
          Inr (?s1\<lparr>hubOut := hubOut ?s1 @ map (\<lambda>j. (j, m)) (hub_targets a (Suc i) ?s1)\<rparr>)"
        using 1(2) [OF lt] True msg by auto
      moreover have "hub_targets a (Suc i) ?s1 = hub_targets a (Suc i) s" by (simp add: hub_targets_def)
      moreover have "hub_broadcast a i msg s = hub_broadcast a (Suc i) (if ?last then None else msg) ?s1"
        by (subst hub_broadcast.simps) (use lt True msg in \<open>auto simp: Let_def\<close>)
      ultimately show ?thesis by (simp add: t)
    qed
  qed
qed

section \<open>Runs\<close>

text \<open>
  The states of a hub. Every change of the connections of the first \<open>numPorts\<close> ports comes with a
  notification that concerns the hub, and the kernel keeps the number of gates in the vector at or above it.
\<close>

fun concerns :: "model_change \<Rightarrow> bool" where
  "concerns (GateVectorResize _ _) = False"
| "concerns (PathCreate here) = here"
| "concerns (PathCut here) = here"
| "concerns (ParameterChange here) = here"

inductive hub_reach :: "'f hub \<Rightarrow> bool" where
  hub_init: "hub_initialize ports = Inr s \<Longrightarrow> hub_reach s"
| hub_message: "hub_reach s \<Longrightarrow> a < length (hubPorts s) \<Longrightarrow> hub_handleMessage a m s = Inr s' \<Longrightarrow> hub_reach s'"
| hub_signal: "hub_reach s \<Longrightarrow> numPorts s \<le> length ports \<Longrightarrow>
    concerns c \<or> take (numPorts s) ports = take (numPorts s) (hubPorts s) \<Longrightarrow>
    hub_receiveSignal ports c s = Inr s' \<Longrightarrow> hub_reach s'"

definition hub_regular :: "'f hub \<Rightarrow> bool" where
  "hub_regular s \<longleftrightarrow> links_regular (take (numPorts s) (hubPorts s))"

lemma hub_check_result:
  "hub_regular s \<Longrightarrow> hub_checkConnections strict s = Inr (s\<lparr>hubDataratesDiffer := False\<rparr>)"
  "\<not> hub_regular s \<Longrightarrow> isl (hub_checkConnections True s)"
  "\<not> hub_regular s \<Longrightarrow> hub_checkConnections False s = Inr (s\<lparr>hubDataratesDiffer := True\<rparr>)"
proof -
  let ?ports = "take (numPorts s) (hubPorts s)"
  show "hub_checkConnections strict s = Inr (s\<lparr>hubDataratesDiffer := False\<rparr>)" if "hub_regular s"
    using check_ports_regular(1) [of ?ports strict False] that by (auto simp: hub_regular_def hub_checkConnections_def)
  show "isl (hub_checkConnections True s)" if "\<not> hub_regular s"
    using check_ports_regular(2) [of ?ports False] that
    by (cases "check_ports True ?ports (0, 0, False)") (auto simp: hub_regular_def hub_checkConnections_def)
  show "hub_checkConnections False s = Inr (s\<lparr>hubDataratesDiffer := True\<rparr>)" if "\<not> hub_regular s"
    using check_ports_regular(2) [of ?ports False] that by (auto simp: hub_regular_def hub_checkConnections_def)
qed

definition hub_inv :: "'f hub \<Rightarrow> bool" where
  "hub_inv s \<longleftrightarrow> hubDataratesDiffer s = (\<not> hub_regular s) \<and> numPorts s \<le> length (hubPorts s)"

text \<open>The message handler in terms of its targets.\<close>

lemma hub_handleMessage_result:
  assumes "hub_inv s"
  shows "hub_handleMessage a m s =
    (if hub_regular s
     then Inr (s\<lparr>hubNumMessages := hubNumMessages s + 1,
                 hubOut := hubOut s @ (if numPorts s \<le> 1 then [] else map (\<lambda>j. (j, m)) (hub_targets a 0 s))\<rparr>)
     else hub_handleMessage a m s)"
    and "\<not> hub_regular s \<Longrightarrow> isl (hub_handleMessage a m s)"
proof -
  let ?s2 = "s\<lparr>hubNumMessages := hubNumMessages s + 1\<rparr>"
  have t: "hub_targets a 0 ?s2 = hub_targets a 0 s" by (simp add: hub_targets_def)
  have "hub_broadcast a 0 (Some m) ?s2 = Inr (?s2\<lparr>hubOut := hubOut ?s2 @ map (\<lambda>j. (j, m)) (hub_targets a 0 ?s2)\<rparr>)"
    by (rule hub_broadcast_sends) simp
  then show "hub_handleMessage a m s =
    (if hub_regular s
     then Inr (s\<lparr>hubNumMessages := hubNumMessages s + 1,
                 hubOut := hubOut s @ (if numPorts s \<le> 1 then [] else map (\<lambda>j. (j, m)) (hub_targets a 0 s))\<rparr>)
     else hub_handleMessage a m s)"
    using assms by (simp add: hub_handleMessage_def hub_inv_def t Let_def)
  show "isl (hub_handleMessage a m s)" if "\<not> hub_regular s"
    using hub_check_result(2) [OF that] assms that
    by (cases "hub_checkConnections True s") (auto simp: hub_handleMessage_def hub_inv_def)
qed

lemma hub_reach_inv:
  fixes s :: "'f hub"
  assumes "hub_reach s"
  shows "hub_inv s"
  using assms
proof (induction rule: hub_reach.induct)
  case (hub_init ports s)
  let ?s = "\<lparr>numPorts = length ports, hubPorts = ports, onReceptionStart = map (\<lambda>_. True) ports,
        hubDataratesDiffer = False, hubNumMessages = 0, hubOut = []\<rparr> :: 'f hub"
  have "s = ?s \<and> hub_regular ?s"
    using hub_init hub_check_result(1) [of ?s True] hub_check_result(2) [of ?s]
    by (cases "hub_regular ?s") (auto simp: hub_initialize_def)
  then show ?case by (simp add: hub_inv_def)
next
  case (hub_message s a m s')
  then have "hub_regular s" using hub_handleMessage_result(2) [of s a m] by auto
  then have "s' = s\<lparr>hubNumMessages := hubNumMessages s + 1,
                 hubOut := hubOut s @ (if numPorts s \<le> 1 then [] else map (\<lambda>j. (j, m)) (hub_targets a 0 s))\<rparr>"
    using hub_handleMessage_result(1) [OF hub_message.IH, of a m] hub_message(3) by simp
  with hub_message.IH show ?case by (simp add: hub_inv_def hub_regular_def)
next
  case (hub_signal s ports c s')
  let ?s = "s\<lparr>hubPorts := ports\<rparr>"
  have chk: "hub_inv r" if "hub_checkConnections False ?s = Inr r" for r
    using that hub_check_result(1,3) [of ?s] hub_signal(2)
    by (cases "hub_regular ?s") (auto simp: hub_inv_def hub_regular_def)
  show ?case
  proof (cases "concerns c")
    case True
    with hub_signal(4) chk show ?thesis by (cases c) auto
  next
    case False
    then have t: "take (numPorts s) ports = take (numPorts s) (hubPorts s)" using hub_signal(3) by blast
    have "numPorts s' = numPorts s \<and> hubPorts s' = ports \<and> hubDataratesDiffer s' = hubDataratesDiffer s"
      using hub_signal(4) False by (cases c) (auto simp: Let_def split: if_splits)
    with t hub_signal.IH hub_signal(2) show ?thesis by (simp add: hub_inv_def hub_regular_def)
  qed
qed

text \<open>A change of the model is always taken note of; it changes the ports but not their number.\<close>

lemma hub_receiveSignal_keeps:
  "\<exists>s'. hub_receiveSignal ports c s = Inr s' \<and> numPorts s' = numPorts s \<and> hubPorts s' = ports \<and> hubOut s' = hubOut s"
proof -
  have "\<exists>s'. hub_checkConnections False (s\<lparr>hubPorts := ports\<rparr>) = Inr s' \<and> numPorts s' = numPorts s
      \<and> hubPorts s' = ports \<and> hubOut s' = hubOut s"
    using hub_check_result(1,3) [of "s\<lparr>hubPorts := ports\<rparr>"] by (cases "hub_regular (s\<lparr>hubPorts := ports\<rparr>)") simp_all
  then show ?thesis by (cases c) (simp_all add: Let_def)
qed

section \<open>Property\<close>

text \<open>
  C31. The hub repeats a message on all other connected ports. In every state it reaches, a message that
  arrives at a port is sent once, unchanged, on each connected port of the first \<open>numPorts\<close> other than the
  one it came from, in the order of the ports, and on no other; this holds if and only if the connections
  are regular, each port has both directions or none and all channels have one data rate, and the handler
  ends in an error otherwise. Ports that are added later are never served: whatever the ports are when a
  change of the model is signalled, the hub keeps its \<open>numPorts\<close>, also when the gate vector has grown.
\<close>

theorem hub_repeats:
  assumes "hub_reach s"
  shows "(if hub_regular s
          then \<exists>s' ts. hub_handleMessage a m s = Inr s' \<and> hubOut s' = hubOut s @ map (\<lambda>j. (j, m)) ts
             \<and> sorted ts \<and> distinct ts
             \<and> set ts = {j. j < numPorts s \<and> j \<noteq> a \<and> pl_out (hubPorts s ! j) \<noteq> None \<and> 1 < numPorts s}
             \<and> hubNumMessages s' = hubNumMessages s + 1
          else isl (hub_handleMessage a m s))
       \<and> numPorts s \<le> length (hubPorts s)
       \<and> (\<exists>s'. hub_receiveSignal ports c s = Inr s' \<and> numPorts s' = numPorts s \<and> hubPorts s' = ports
            \<and> hubOut s' = hubOut s)"
proof -
  note inv = hub_reach_inv [OF assms]
  define ts where "ts = (if numPorts s \<le> 1 then [] else hub_targets a 0 s)"
  have ts: "sorted ts" "distinct ts" "set ts = {j. j < numPorts s \<and> j \<noteq> a \<and> pl_out (hubPorts s ! j) \<noteq> None \<and> 1 < numPorts s}"
    by (cases "numPorts s \<le> 1"; auto simp: ts_def hub_targets_def sorted_wrt_filter)+
  have ok: "hub_regular s \<Longrightarrow> hub_handleMessage a m s =
      Inr (s\<lparr>hubNumMessages := hubNumMessages s + 1, hubOut := hubOut s @ map (\<lambda>j. (j, m)) ts\<rparr>)"
    using hub_handleMessage_result(1) [OF inv, of a m] by (simp add: ts_def)
  have n: "numPorts s \<le> length (hubPorts s)" using inv by (simp add: hub_inv_def)
  have m: "if hub_regular s
          then \<exists>s' ts. hub_handleMessage a m s = Inr s' \<and> hubOut s' = hubOut s @ map (\<lambda>j. (j, m)) ts
             \<and> sorted ts \<and> distinct ts
             \<and> set ts = {j. j < numPorts s \<and> j \<noteq> a \<and> pl_out (hubPorts s ! j) \<noteq> None \<and> 1 < numPorts s}
             \<and> hubNumMessages s' = hubNumMessages s + 1
          else isl (hub_handleMessage a m s)"
    using hub_handleMessage_result(2) [OF inv, of a m] ts ok
    by (cases "hub_regular s") (simp_all, rule exI [of _ ts], simp)
  show ?thesis by (intro conjI m n hub_receiveSignal_keeps)
qed

lemma hub_repeats_witness:
  "\<exists>s s'. hub_initialize [\<lparr>pl_in = Some 10, pl_out = Some 10\<rparr>, \<lparr>pl_in = None, pl_out = None\<rparr>,
       \<lparr>pl_in = Some 10, pl_out = Some 10\<rparr>] = Inr s
     \<and> hub_handleMessage 2 (5 :: nat) s = Inr s' \<and> hubNumMessages s' = 1
     \<and> (\<exists>t. hub_receiveSignal (replicate 4 \<lparr>pl_in = Some 10, pl_out = Some 10\<rparr>) (GateVectorResize ''ethg'' 3) s = Inr t
          \<and> length (hubPorts t) = 4 \<and> numPorts t = 3)"
proof -
  let ?ports = "[\<lparr>pl_in = Some 10, pl_out = Some 10\<rparr>, \<lparr>pl_in = None, pl_out = None\<rparr>, \<lparr>pl_in = Some 10, pl_out = Some 10\<rparr>]"
  obtain s :: "nat hub" where s: "hub_initialize ?ports = Inr s" "hubPorts s = ?ports" "numPorts s = 3" "hubNumMessages s = 0"
    by (simp add: hub_initialize_def hub_checkConnections_def check_port_def Let_def)
  have "hub_regular s" using s by (auto simp: hub_regular_def links_regular_def port_rates_def)
  with hub_repeats [OF hub_init [OF s(1)], of 2 5 "replicate 4 \<lparr>pl_in = Some 10, pl_out = Some 10\<rparr>" "GateVectorResize ''ethg'' 3"] s
  show ?thesis by (auto split: if_splits)
qed

end
