(* ===== verification/EtherBus.thy ===== *)
theory EtherBus
  imports EtherHub
begin

text \<open>
  \<open>linklayer/ethernet/EtherBus\<close>: the coaxial cable of classic Ethernet. A frame that a station puts on the
  cable travels in both directions from tap to tap; a self message stands for its front, its kind is the
  direction and its context pointer the tap it will pass. \<open>busPending\<close> is the part of the future event set
  with these messages. The conversion of a double to \<open>simtime_t\<close> is a parameter.
\<close>

section \<open>State\<close>

datatype direction = UPSTREAM | DOWNSTREAM

text \<open>The number of a tap, its \<open>id\<close>, is its index in the array.\<close>

record bus_tap =
  tap_position :: real
  tap_up :: simtime
  tap_down :: simtime

record 'f bus_event =
  ev_at :: simtime
  ev_kind :: direction
  ev_tap :: nat
  ev_frame :: 'f

text \<open>A frame sent out: when, on which tap, and the kind of the message, which is the direction.\<close>

type_synonym 'f bus_sent = "simtime \<times> nat \<times> direction \<times> 'f"

record 'f bus =
  taps :: "bus_tap list"
  busPorts :: "port_link list"
  busDataratesDiffer :: bool
  busNumMessages :: int
  busPending :: "'f bus_event list"
  busOut :: "'f bus_sent list"

abbreviation numTaps :: "'f bus \<Rightarrow> nat" where
  "numTaps s \<equiv> length (taps s)"

section \<open>Initialization\<close>

text \<open>
  The positions of the taps: those of the parameter as far as they go, then at the distance of the last
  two, or 5 metres.
\<close>

definition bus_distance :: "real list \<Rightarrow> real" where
  "bus_distance pos = (if length pos \<ge> 2 then pos ! (length pos - 1) - pos ! (length pos - 2) else 5)"

fun bus_position :: "real list \<Rightarrow> nat \<Rightarrow> real" where
  "bus_position pos 0 = (if 0 < length pos then pos ! 0 else 5)"
| "bus_position pos (Suc i) =
     (if Suc i < length pos then pos ! Suc i else bus_position pos i + bus_distance pos)"

text \<open>The delays between neighbours; there is none beyond the ends.\<close>

definition bus_down :: "(real \<Rightarrow> simtime) \<Rightarrow> real \<Rightarrow> real list \<Rightarrow> nat \<Rightarrow> nat \<Rightarrow> simtime" where
  "bus_down conv speed pos n i =
     (if i + 1 < n then conv ((bus_position pos (i + 1) - bus_position pos i) / speed) else 0)"

definition bus_up :: "(real \<Rightarrow> simtime) \<Rightarrow> real \<Rightarrow> real list \<Rightarrow> nat \<Rightarrow> nat \<Rightarrow> simtime" where
  "bus_up conv speed pos n i = (if i > 0 then bus_down conv speed pos n (i - 1) else 0)"

definition make_taps :: "(real \<Rightarrow> simtime) \<Rightarrow> real \<Rightarrow> real list \<Rightarrow> nat \<Rightarrow> bus_tap list" where
  "make_taps conv speed pos n =
     map (\<lambda>i. \<lparr>tap_position = bus_position pos i, tap_up = bus_up conv speed pos n i,
               tap_down = bus_down conv speed pos n i\<rparr>) [0..<n]"

text \<open>
  \<open>checkConnections\<close> sets \<open>dataratesDiffer\<close> but never clears it, and nothing else writes it: what it
  contains at first, \<open>junk\<close>, is not determined. A propagation speed of zero makes the delays infinite.
\<close>

definition bus_checkConnections :: "bool \<Rightarrow> 'f bus \<Rightarrow> 'f bus res" where
  "bus_checkConnections errorWhenAsymmetric s =
     bindR (check_ports errorWhenAsymmetric (busPorts s) (0, 0, busDataratesDiffer s))
       (\<lambda>(_, _, differ). Inr (s\<lparr>busDataratesDiffer := differ\<rparr>))"

definition bus_initialize ::
    "bool \<Rightarrow> (real \<Rightarrow> simtime) \<Rightarrow> real \<Rightarrow> real list \<Rightarrow> port_link list \<Rightarrow> 'f bus res" where
  "bus_initialize junk conv speed pos ports =
     (let n = length ports in
      if \<exists>i \<in> set [0..<n - 1]. bus_position pos i > bus_position pos (i + 1)
      then Inl (RuntimeError ''Tap positions must be ordered in ascending fashion'')
      else if speed = 0 \<and> n > 1 then Inl UndefinedConversion
      else bus_checkConnections True
             \<lparr>taps = make_taps conv speed pos n, busPorts = ports, busDataratesDiffer = junk,
              busNumMessages = 0, busPending = [], busOut = []\<rparr>)"

section \<open>Messages\<close>

definition bus_schedule :: "simtime \<Rightarrow> simtime \<Rightarrow> direction \<Rightarrow> nat \<Rightarrow> 'f \<Rightarrow> 'f bus \<Rightarrow> 'f bus res" where
  "bus_schedule now delay d i f s =
     (if delay < 0 then Inl (RuntimeError ''cannot schedule in the past'')
      else Inr (s\<lparr>busPending := busPending s @ [\<lparr>ev_at = now + delay, ev_kind = d, ev_tap = i, ev_frame = f\<rparr>]\<rparr>))"

text \<open>A frame from the station at \<open>tapPoint\<close>.\<close>

definition bus_handleFrame :: "simtime \<Rightarrow> nat \<Rightarrow> 'f \<Rightarrow> 'f bus \<Rightarrow> 'f bus res" where
  "bus_handleFrame now tapPoint f s =
     bindR (if tapPoint > 0
            then bus_schedule now (tap_up (taps s ! tapPoint)) UPSTREAM (tapPoint - 1) f s else Inr s)
       (\<lambda>s1. if tapPoint < numTaps s1 - 1
             then bus_schedule now (tap_down (taps s1 ! tapPoint)) DOWNSTREAM (tapPoint + 1) f s1 else Inr s1)"

text \<open>A self message, which has left the future event set.\<close>

definition bus_handleEvent :: "simtime \<Rightarrow> 'f bus_event \<Rightarrow> 'f bus \<Rightarrow> 'f bus res" where
  "bus_handleEvent now ev s =
     (let direction = ev_kind ev; tapPoint = ev_tap ev;
          isLast = (if direction = UPSTREAM then tapPoint = 0 else tapPoint = numTaps s - 1);
          s1 = (if pl_out (busPorts s ! tapPoint) \<noteq> None
                then s\<lparr>busOut := busOut s @ [(now, tapPoint, direction, ev_frame ev)]\<rparr> else s)
      in if isLast then Inr s1
         else
           let nextTap = (if direction = UPSTREAM then tapPoint - 1 else tapPoint + 1);
               delay = (if direction = UPSTREAM then tap_up (taps s1 ! tapPoint) else tap_down (taps s1 ! tapPoint))
           in bus_schedule now delay direction nextTap (ev_frame ev) s1)"

datatype 'f bus_msg = BusFrame nat 'f | BusSelf "'f bus_event"

definition bus_handleMessage :: "simtime \<Rightarrow> 'f bus_msg \<Rightarrow> 'f bus \<Rightarrow> 'f bus res" where
  "bus_handleMessage now msg s =
     bindR (if busDataratesDiffer s then bus_checkConnections True s else Inr s)
       (\<lambda>s1. case msg of BusFrame tapPoint f \<Rightarrow> bus_handleFrame now tapPoint f s1
             | BusSelf ev \<Rightarrow> bus_handleEvent now ev s1)"

text \<open>Notifications, as for the hub; a bus does not allow new gates.\<close>

fun bus_receiveSignal :: "port_link list \<Rightarrow> model_change \<Rightarrow> 'f bus \<Rightarrow> 'f bus res" where
  "bus_receiveSignal ports (GateVectorResize gateName oldSize) s =
     (if gateName = ''ethg'' then Inl (RuntimeError ''EtherBus does not allow adding links dynamically'')
      else Inr (s\<lparr>busPorts := ports\<rparr>))"
| "bus_receiveSignal ports (PathCreate here) s =
     (if here then bus_checkConnections False (s\<lparr>busPorts := ports\<rparr>) else Inr (s\<lparr>busPorts := ports\<rparr>))"
| "bus_receiveSignal ports (PathCut here) s =
     (if here then bus_checkConnections False (s\<lparr>busPorts := ports\<rparr>) else Inr (s\<lparr>busPorts := ports\<rparr>))"
| "bus_receiveSignal ports (ParameterChange here) s =
     (if here then bus_checkConnections False (s\<lparr>busPorts := ports\<rparr>) else Inr (s\<lparr>busPorts := ports\<rparr>))"

section \<open>The cable\<close>

text \<open>
  What the cable should do: the time a signal takes between two taps is the sum of the delays between
  neighbours, and a frame put on the cable at a tap comes out of every other connected tap, that much
  later.
\<close>

definition cable_delay :: "bus_tap list \<Rightarrow> nat \<Rightarrow> nat \<Rightarrow> simtime" where
  "cable_delay ts i j = (\<Sum>k \<in> {min i j..<max i j}. tap_down (ts ! k))"

definition cable_out :: "'f bus \<Rightarrow> simtime \<Rightarrow> nat \<Rightarrow> direction \<Rightarrow> 'f \<Rightarrow> nat list \<Rightarrow> 'f bus_sent multiset" where
  "cable_out s t i d f js =
     mset (map (\<lambda>j. (t + cable_delay (taps s) i j, j, d, f)) (filter (\<lambda>j. pl_out (busPorts s ! j) \<noteq> None) js))"

text \<open>The taps that the front of a frame has still to pass, including the one it is due at.\<close>

definition taps_ahead :: "'f bus \<Rightarrow> direction \<Rightarrow> nat \<Rightarrow> nat list" where
  "taps_ahead s d i = (if d = UPSTREAM then [0..<Suc i] else [i..<numTaps s])"

definition due_out :: "'f bus \<Rightarrow> 'f bus_event \<Rightarrow> 'f bus_sent multiset" where
  "due_out s ev = cable_out s (ev_at ev) (ev_tap ev) (ev_kind ev) (ev_frame ev) (taps_ahead s (ev_kind ev) (ev_tap ev))"

definition frame_out :: "'f bus \<Rightarrow> simtime \<Rightarrow> nat \<Rightarrow> 'f \<Rightarrow> 'f bus_sent multiset" where
  "frame_out s t i f = cable_out s t i UPSTREAM f [0..<i] + cable_out s t i DOWNSTREAM f [Suc i..<numTaps s]"

text \<open>Cables as \<open>initialize\<close> makes them.\<close>

definition cable_ok :: "bus_tap list \<Rightarrow> bool" where
  "cable_ok ts \<longleftrightarrow>
     (\<forall>i < length ts. 0 \<le> tap_down (ts ! i) \<and> tap_up (ts ! i) = (if i > 0 then tap_down (ts ! (i - 1)) else 0))"

lemma cable_delay_same [simp]: "cable_delay ts i i = 0"
  by (simp add: cable_delay_def)

lemma cable_delay_down: "i < j \<Longrightarrow> cable_delay ts i j = tap_down (ts ! i) + cable_delay ts (Suc i) j"
  by (simp add: cable_delay_def min_def max_def sum.atLeast_Suc_lessThan)

lemma cable_delay_up: "j < i \<Longrightarrow> cable_delay ts i j = tap_down (ts ! (i - 1)) + cable_delay ts (i - 1) j"
proof -
  assume "j < i"
  then obtain k where "i = Suc k" "j \<le> k" by (cases i) auto
  then show ?thesis by (simp add: cable_delay_def min_def max_def)
qed

lemma cable_delay_nonneg: "cable_ok ts \<Longrightarrow> i < length ts \<Longrightarrow> j < length ts \<Longrightarrow> 0 \<le> cable_delay ts i j"
  unfolding cable_delay_def cable_ok_def by (intro sum_nonneg) auto

lemma make_taps_ok:
  assumes "\<And>i. i + 1 < n \<Longrightarrow> bus_position pos i \<le> bus_position pos (i + 1)" and "0 < speed" and "\<And>x. 0 \<le> x \<Longrightarrow> 0 \<le> conv x"
  shows "cable_ok (make_taps conv speed pos n)"
  using assms by (auto simp: cable_ok_def make_taps_def bus_up_def bus_down_def simp del: bus_position.simps)

lemma cable_out_append: "cable_out s t i d f (js @ ks) = cable_out s t i d f js + cable_out s t i d f ks"
  by (simp add: cable_out_def)

lemma cable_out_Nil [simp]: "cable_out s t i d f [] = {#}"
  by (simp add: cable_out_def)

lemma cable_out_here:
  "cable_out s t i d f [i] = (if pl_out (busPorts s ! i) \<noteq> None then {#(t, i, d, f)#} else {#})"
  by (simp add: cable_out_def)

lemma cable_out_shift:
  assumes "\<And>j. j \<in> set js \<Longrightarrow> cable_delay (taps s) i j = delay + cable_delay (taps s) k j"
  shows "cable_out s (t + delay) k d f js = cable_out s t i d f js"
  unfolding cable_out_def by (rule arg_cong [where f = mset], rule map_cong [OF refl]) (simp add: assms)

lemma cable_out_cong:
  "taps s' = taps s \<Longrightarrow> busPorts s' = busPorts s \<Longrightarrow> cable_out s' = cable_out s"
  "taps s' = taps s \<Longrightarrow> busPorts s' = busPorts s \<Longrightarrow> due_out s' = due_out s"
  "taps s' = taps s \<Longrightarrow> busPorts s' = busPorts s \<Longrightarrow> frame_out s' = frame_out s"
  by (simp_all add: fun_eq_iff cable_out_def due_out_def frame_out_def taps_ahead_def)

text \<open>One hop: what the next event will send is what is left to send.\<close>

lemma hop_up:
  assumes "cable_ok (taps s)" and "0 < i" and "i < numTaps s"
  shows "due_out s \<lparr>ev_at = t + tap_up (taps s ! i), ev_kind = UPSTREAM, ev_tap = i - 1, ev_frame = f\<rparr> =
    cable_out s t i UPSTREAM f [0..<i]"
proof -
  have "tap_up (taps s ! i) = tap_down (taps s ! (i - 1))" using assms by (simp add: cable_ok_def)
  then have "cable_out s (t + tap_up (taps s ! i)) (i - 1) UPSTREAM f [0..<i] = cable_out s t i UPSTREAM f [0..<i]"
    by (intro cable_out_shift) (simp add: cable_delay_up)
  with assms(2) show ?thesis by (simp add: due_out_def taps_ahead_def)
qed

lemma hop_down:
  assumes "i < numTaps s"
  shows "due_out s \<lparr>ev_at = t + tap_down (taps s ! i), ev_kind = DOWNSTREAM, ev_tap = i + 1, ev_frame = f\<rparr> =
    cable_out s t i DOWNSTREAM f [Suc i..<numTaps s]"
proof -
  have "cable_out s (t + tap_down (taps s ! i)) (i + 1) DOWNSTREAM f [Suc i..<numTaps s] =
      cable_out s t i DOWNSTREAM f [Suc i..<numTaps s]"
    by (intro cable_out_shift) (simp add: cable_delay_down)
  then show ?thesis by (simp add: due_out_def taps_ahead_def)
qed

section \<open>Events conserve what is to be sent\<close>

definition bus_ok :: "simtime \<Rightarrow> 'f bus \<Rightarrow> bool" where
  "bus_ok now s \<longleftrightarrow> cable_ok (taps s) \<and> links_regular (busPorts s) \<and>
     (\<forall>ev \<in> set (busPending s). now \<le> ev_at ev \<and> ev_tap ev < numTaps s)"

definition total_out :: "'f bus \<Rightarrow> 'f bus_sent multiset" where
  "total_out s = mset (busOut s) + (\<Sum>ev \<in># mset (busPending s). due_out s ev)"

definition hops_left :: "nat \<Rightarrow> 'f bus_event \<Rightarrow> nat" where
  "hops_left n ev = (if ev_kind ev = UPSTREAM then Suc (ev_tap ev) else n - ev_tap ev)"

definition bus_hops :: "'f bus \<Rightarrow> nat" where
  "bus_hops s = (\<Sum>ev \<in># mset (busPending s). hops_left (numTaps s) ev)"

definition same_cable :: "'f bus \<Rightarrow> 'f bus \<Rightarrow> bool" where
  "same_cable s s' \<longleftrightarrow> taps s' = taps s \<and> busPorts s' = busPorts s"

lemma bus_schedule_ok:
  assumes "0 \<le> delay" and "bus_ok now s" and "i < numTaps s"
  shows "\<exists>s'. bus_schedule now delay d i f s = Inr s' \<and> bus_ok now s' \<and> same_cable s s'
    \<and> total_out s' = total_out s + due_out s \<lparr>ev_at = now + delay, ev_kind = d, ev_tap = i, ev_frame = f\<rparr>
    \<and> bus_hops s' = bus_hops s + (if d = UPSTREAM then Suc i else numTaps s - i)"
  using assms
  by (simp add: bus_schedule_def bus_ok_def total_out_def same_cable_def bus_hops_def
      cable_out_cong(2) [of "s\<lparr>busPending := p\<rparr>" s for p], simp add: hops_left_def)

lemma bus_handleFrame_ok:
  assumes ok: "bus_ok now s" and i: "i < numTaps s"
  shows "\<exists>s'. bus_handleFrame now i f s = Inr s' \<and> bus_ok now s' \<and> same_cable s s'
    \<and> total_out s' = total_out s + frame_out s now i f"
proof -
  have cab: "cable_ok (taps s)" using ok by (simp add: bus_ok_def)
  have nonneg: "0 \<le> tap_up (taps s ! i)" "0 \<le> tap_down (taps s ! i)" using cab i by (auto simp: cable_ok_def)
  obtain s1 where s1: "(if i > 0 then bus_schedule now (tap_up (taps s ! i)) UPSTREAM (i - 1) f s else Inr s) = Inr s1"
    "bus_ok now s1" "same_cable s s1" "total_out s1 = total_out s + cable_out s now i UPSTREAM f [0..<i]"
  proof (cases "i > 0")
    case True
    have "i - 1 < numTaps s" using i by simp
    from bus_schedule_ok [OF nonneg(1) ok this, of UPSTREAM f, unfolded hop_up [OF cab True i, of now f]]
    obtain s1 where "bus_schedule now (tap_up (taps s ! i)) UPSTREAM (i - 1) f s = Inr s1" "bus_ok now s1"
      "same_cable s s1" "total_out s1 = total_out s + cable_out s now i UPSTREAM f [0..<i]" by blast
    with True that show thesis by simp
  next
    case False
    with ok that show thesis by (simp add: same_cable_def)
  qed
  have c: "taps s1 = taps s" "due_out s1 = due_out s" "i < numTaps s1"
    using s1(3) i cable_out_cong(2) [of s1 s] by (simp_all add: same_cable_def)
  obtain s2 where s2: "(if i < numTaps s1 - 1 then bus_schedule now (tap_down (taps s1 ! i)) DOWNSTREAM (i + 1) f s1 else Inr s1) = Inr s2"
    "bus_ok now s2" "same_cable s s2" "total_out s2 = total_out s1 + cable_out s now i DOWNSTREAM f [Suc i..<numTaps s]"
  proof (cases "i < numTaps s1 - 1")
    case True
    then have "i + 1 < numTaps s1" by simp
    from bus_schedule_ok [OF nonneg(2) s1(2) this, of DOWNSTREAM f, unfolded c(2) hop_down [OF i, of now f]]
    obtain s2 where "bus_schedule now (tap_down (taps s ! i)) DOWNSTREAM (i + 1) f s1 = Inr s2" "bus_ok now s2"
      "same_cable s1 s2" "total_out s2 = total_out s1 + cable_out s now i DOWNSTREAM f [Suc i..<numTaps s]" by blast
    with True that c(1) s1(3) show thesis by (simp add: same_cable_def)
  next
    case False
    with s1(2,3) that c show thesis by simp
  qed
  have "bus_handleFrame now i f s = Inr s2" using s1(1) s2(1) unfolding bus_handleFrame_def by simp
  with s2 s1(4) show ?thesis by (auto simp: frame_out_def add.assoc)
qed

lemma bus_handleEvent_ok:
  assumes ok: "bus_ok (ev_at ev) s" and i: "ev_tap ev < numTaps s"
  shows "\<exists>s'. bus_handleEvent (ev_at ev) ev s = Inr s' \<and> bus_ok (ev_at ev) s' \<and> same_cable s s'
    \<and> total_out s' = total_out s + due_out s ev
    \<and> bus_hops s' < bus_hops s + hops_left (numTaps s) ev"
proof -
  let ?i = "ev_tap ev" and ?t = "ev_at ev" and ?f = "ev_frame ev" and ?d = "ev_kind ev"
  define s1 where "s1 = (if pl_out (busPorts s ! ?i) \<noteq> None then s\<lparr>busOut := busOut s @ [(?t, ?i, ?d, ?f)]\<rparr> else s)"
  have s1: "bus_ok ?t s1" "same_cable s s1" "total_out s1 = total_out s + cable_out s ?t ?i ?d ?f [?i]"
    "bus_hops s1 = bus_hops s"
    using ok by (auto simp: s1_def bus_ok_def same_cable_def total_out_def cable_out_here bus_hops_def
        cable_out_cong(2) [of "s\<lparr>busOut := p\<rparr>" s for p])
  have c: "taps s1 = taps s" "due_out s1 = due_out s" "?i < numTaps s1"
    using s1(2) i cable_out_cong(2) [of s1 s] by (simp_all add: same_cable_def)
  have cab: "cable_ok (taps s)" using ok by (simp add: bus_ok_def)
  have nonneg: "0 \<le> tap_up (taps s ! ?i)" "0 \<le> tap_down (taps s ! ?i)" using cab i by (auto simp: cable_ok_def)
  show ?thesis
  proof (cases ?d)
    case UPSTREAM
    have due: "due_out s ev = cable_out s ?t ?i UPSTREAM ?f [0..<?i] + cable_out s ?t ?i UPSTREAM ?f [?i]"
      by (simp add: due_out_def UPSTREAM taps_ahead_def cable_out_append)
    show ?thesis
    proof (cases "?i = 0")
      case True
      then have "bus_handleEvent ?t ev s = Inr s1" using UPSTREAM by (simp add: bus_handleEvent_def s1_def Let_def)
      with s1 due True UPSTREAM show ?thesis by (simp add: hops_left_def)
    next
      case False
      then have pos: "0 < ?i" and lt: "?i - 1 < numTaps s1" using i c(1) by simp_all
      have "bus_handleEvent ?t ev s = bus_schedule ?t (tap_up (taps s ! ?i)) UPSTREAM (?i - 1) ?f s1"
        using pos UPSTREAM c(1) by (simp add: bus_handleEvent_def s1_def Let_def)
      moreover obtain s2 where "bus_schedule ?t (tap_up (taps s ! ?i)) UPSTREAM (?i - 1) ?f s1 = Inr s2" "bus_ok ?t s2"
        "same_cable s1 s2" "total_out s2 = total_out s1 + cable_out s ?t ?i UPSTREAM ?f [0..<?i]" "bus_hops s2 = bus_hops s1 + ?i"
        using bus_schedule_ok [OF nonneg(1) s1(1) lt, of UPSTREAM ?f, unfolded c(2) hop_up [OF cab pos i, of ?t ?f]]
        by (elim exE conjE) (use pos in simp)
      ultimately show ?thesis using s1 due UPSTREAM by (simp add: same_cable_def hops_left_def)
    qed
  next
    case DOWNSTREAM
    have split: "[?i..<numTaps s] = [?i] @ [Suc ?i..<numTaps s]" using i by (simp add: upt_conv_Cons)
    have "due_out s ev = cable_out s ?t ?i DOWNSTREAM ?f [?i..<numTaps s]"
      by (simp add: due_out_def DOWNSTREAM taps_ahead_def)
    then have due: "due_out s ev = cable_out s ?t ?i DOWNSTREAM ?f [?i] + cable_out s ?t ?i DOWNSTREAM ?f [Suc ?i..<numTaps s]"
      unfolding split cable_out_append .
    show ?thesis
    proof (cases "?i = numTaps s - 1")
      case True
      then have "bus_handleEvent ?t ev s = Inr s1" using DOWNSTREAM by (simp add: bus_handleEvent_def s1_def Let_def)
      moreover have "[Suc ?i..<numTaps s] = []" using True by simp
      ultimately show ?thesis using s1 due DOWNSTREAM i by (simp add: hops_left_def del: upt_eq_Nil_conv)
    next
      case False
      then have lt: "?i + 1 < numTaps s1" using i c(1) by simp
      have "bus_handleEvent ?t ev s = bus_schedule ?t (tap_down (taps s ! ?i)) DOWNSTREAM (?i + 1) ?f s1"
        using False DOWNSTREAM c(1) by (simp add: bus_handleEvent_def s1_def Let_def)
      moreover obtain s2 where "bus_schedule ?t (tap_down (taps s ! ?i)) DOWNSTREAM (?i + 1) ?f s1 = Inr s2" "bus_ok ?t s2"
        "same_cable s1 s2" "total_out s2 = total_out s1 + cable_out s ?t ?i DOWNSTREAM ?f [Suc ?i..<numTaps s]"
        "bus_hops s2 = bus_hops s1 + (numTaps s1 - (?i + 1))"
        using bus_schedule_ok [OF nonneg(2) s1(1) lt, of DOWNSTREAM ?f, unfolded c(2) hop_down [OF i, of ?t ?f]]
        by (elim exE conjE) simp
      ultimately show ?thesis using s1 due DOWNSTREAM i c(1) by (simp add: same_cable_def hops_left_def)
    qed
  qed
qed

section \<open>Runs\<close>

definition bus_regular_start :: "(real \<Rightarrow> simtime) \<Rightarrow> real \<Rightarrow> bool" where
  "bus_regular_start conv speed \<longleftrightarrow> 0 < speed \<and> (\<forall>x \<ge> 0. 0 \<le> conv x)"

text \<open>
  The states of a bus whose connections do not change: \<open>arrivals\<close> are the frames that stations have put on
  the cable, with time and tap. Nothing happens before a pending event is due, and events that are due at
  the same time come in any order.
\<close>

inductive bus_reach :: "(real \<Rightarrow> simtime) \<Rightarrow> real \<Rightarrow> simtime \<Rightarrow> (simtime \<times> nat \<times> 'f) list \<Rightarrow> 'f bus \<Rightarrow> bool"
  for conv speed where
  bus_init: "bus_initialize junk conv speed pos ports = Inr s \<Longrightarrow> bus_reach conv speed now [] s"
| bus_frame: "bus_reach conv speed now as s \<Longrightarrow> now \<le> t \<Longrightarrow> \<forall>ev \<in> set (busPending s). t \<le> ev_at ev \<Longrightarrow>
    i < numTaps s \<Longrightarrow> bus_handleMessage t (BusFrame i f) s = Inr s' \<Longrightarrow> bus_reach conv speed t (as @ [(t, i, f)]) s'"
| bus_self: "bus_reach conv speed now as s \<Longrightarrow> ev \<in> set (busPending s) \<Longrightarrow>
    \<forall>e \<in> set (busPending s). ev_at ev \<le> ev_at e \<Longrightarrow>
    bus_handleMessage (ev_at ev) (BusSelf ev) (s\<lparr>busPending := remove1 ev (busPending s)\<rparr>) = Inr s' \<Longrightarrow>
    bus_reach conv speed (ev_at ev) as s'"

definition arrivals_out :: "'f bus \<Rightarrow> (simtime \<times> nat \<times> 'f) list \<Rightarrow> 'f bus_sent multiset" where
  "arrivals_out s as = sum_list (map (\<lambda>(t, i, f). frame_out s t i f) as)"

lemma bus_check:
  assumes "links_regular (busPorts s)"
  shows "(if busDataratesDiffer s then bus_checkConnections True s else Inr s) = Inr s"
  using check_ports_regular(1) [OF assms, of True True] by (auto simp: bus_checkConnections_def)

lemma bus_frame_step:
  assumes "bus_ok now s" and "now \<le> t" and "\<forall>ev \<in> set (busPending s). t \<le> ev_at ev" and "i < numTaps s"
  shows "\<exists>s'. bus_handleMessage t (BusFrame i f) s = Inr s' \<and> bus_ok t s' \<and> same_cable s s'
    \<and> total_out s' = total_out s + frame_out s t i f"
proof -
  have "bus_ok t s" using assms(1,3) by (simp add: bus_ok_def)
  from bus_handleFrame_ok [OF this assms(4), of f] bus_check [of s] assms(1)
  show ?thesis by (simp add: bus_handleMessage_def bus_ok_def)
qed

lemma bus_self_step:
  assumes "bus_ok now s" and "ev \<in> set (busPending s)" and "\<forall>e \<in> set (busPending s). ev_at ev \<le> ev_at e"
  shows "\<exists>s'. bus_handleMessage (ev_at ev) (BusSelf ev) (s\<lparr>busPending := remove1 ev (busPending s)\<rparr>) = Inr s'
    \<and> bus_ok (ev_at ev) s' \<and> same_cable s s' \<and> total_out s' = total_out s \<and> bus_hops s' < bus_hops s"
proof -
  let ?s0 = "s\<lparr>busPending := remove1 ev (busPending s)\<rparr>"
  define M where "M = mset (busPending ?s0)"
  have m: "mset (busPending s) = add_mset ev M" using assms(2) by (simp add: M_def)
  have d: "due_out ?s0 = due_out s" by (rule cable_out_cong) simp_all
  have "bus_ok (ev_at ev) ?s0"
    using assms(1,3) set_remove1_subset [of ev "busPending s"] by (auto simp: bus_ok_def)
  moreover have "ev_tap ev < numTaps ?s0" using assms(1,2) by (simp add: bus_ok_def)
  ultimately obtain s' where s': "bus_handleEvent (ev_at ev) ev ?s0 = Inr s'" "bus_ok (ev_at ev) s'" "same_cable ?s0 s'"
    "total_out s' = total_out ?s0 + due_out ?s0 ev" "bus_hops s' < bus_hops ?s0 + hops_left (numTaps ?s0) ev"
    using bus_handleEvent_ok by blast
  have "total_out s = total_out ?s0 + due_out s ev" unfolding total_out_def m d M_def [symmetric] by simp
  moreover have "bus_hops s = bus_hops ?s0 + hops_left (numTaps s) ev" unfolding bus_hops_def m M_def [symmetric] by simp
  moreover have "bus_handleMessage (ev_at ev) (BusSelf ev) ?s0 = Inr s'"
    using bus_check [of ?s0] assms(1) s'(1) unfolding bus_handleMessage_def bus_ok_def by simp
  ultimately show ?thesis using s' d by (simp add: same_cable_def)
qed

lemma bus_init_ok:
  assumes "bus_initialize junk conv speed pos ports = Inr s" and "bus_regular_start conv speed"
  shows "bus_ok now s \<and> total_out s = {#}"
proof -
  let ?n = "length ports"
  let ?s0 = "\<lparr>taps = make_taps conv speed pos ?n, busPorts = ports, busDataratesDiffer = junk,
              busNumMessages = 0, busPending = [], busOut = []\<rparr>"
  have pos: "bus_position pos i \<le> bus_position pos (i + 1)" if "i + 1 < ?n" for i
  proof -
    have "i \<in> set [0..<?n - 1]" using that by simp
    then show ?thesis using assms(1) by (auto simp: bus_initialize_def not_less Let_def simp del: bus_position.simps split: if_splits)
  qed
  have chk: "bus_checkConnections True ?s0 = Inr s"
    using assms(1) unfolding bus_initialize_def Let_def by (simp split: if_splits)
  then have reg: "links_regular ports"
    using check_ports_regular(2) [of ports junk]
    by (cases "links_regular ports") (auto simp: bus_checkConnections_def bindR_Inr_iff)
  have "taps s = make_taps conv speed pos ?n \<and> busPorts s = ports \<and> busPending s = [] \<and> busOut s = []"
    using chk by (auto simp: bus_checkConnections_def bindR_Inr_iff)
  moreover have "cable_ok (make_taps conv speed pos ?n)"
    using make_taps_ok [OF pos] assms(2) by (simp add: bus_regular_start_def)
  ultimately show ?thesis using reg by (simp add: bus_ok_def total_out_def)
qed

lemma arrivals_out_cong: "same_cable s s' \<Longrightarrow> arrivals_out s' as = arrivals_out s as"
  using cable_out_cong(3) [of s' s] by (simp add: arrivals_out_def same_cable_def)

lemma bus_reach_ok:
  assumes "bus_reach conv speed now as s" and "bus_regular_start conv speed"
  shows "bus_ok now s \<and> total_out s = arrivals_out s as"
  using assms(1)
proof (induction rule: bus_reach.induct)
  case (bus_init junk pos ports s now)
  then show ?case using bus_init_ok [OF _ assms(2)] by (simp add: arrivals_out_def)
next
  case (bus_frame now as s t i f s')
  then obtain "bus_ok t s'" "same_cable s s'" "total_out s' = total_out s + frame_out s t i f"
    using bus_frame_step [of now s t i f] by auto
  moreover have "frame_out s' = frame_out s" using \<open>same_cable s s'\<close> cable_out_cong(3) [of s' s] by (simp add: same_cable_def)
  ultimately show ?case using arrivals_out_cong [of s s' as] bus_frame.IH by (simp add: arrivals_out_def)
next
  case (bus_self now as s ev s')
  then have "bus_ok (ev_at ev) s' \<and> same_cable s s' \<and> total_out s' = total_out s"
    using bus_self_step [of now s ev] by auto
  with arrivals_out_cong [of s s' as] bus_self.IH show ?case by simp
qed

text \<open>The events that are pending, handled one after the other, the earliest first.\<close>

fun earliest :: "'f bus_event \<Rightarrow> 'f bus_event list \<Rightarrow> 'f bus_event" where
  "earliest e [] = e"
| "earliest e (e' # es) = earliest (if ev_at e' < ev_at e then e' else e) es"

fun bus_drain :: "nat \<Rightarrow> 'f bus \<Rightarrow> 'f bus res" where
  "bus_drain 0 s = Inr s"
| "bus_drain (Suc n) s =
     (case busPending s of
        [] \<Rightarrow> Inr s
      | e # es \<Rightarrow>
          let ev = earliest e es in
          bindR (bus_handleMessage (ev_at ev) (BusSelf ev) (s\<lparr>busPending := remove1 ev (busPending s)\<rparr>)) (bus_drain n))"

lemma earliest: "earliest e es \<in> set (e # es) \<and> (\<forall>e' \<in> set (e # es). ev_at (earliest e es) \<le> ev_at e')"
  by (induction e es rule: earliest.induct) (auto split: if_splits)

lemma bus_drain_ok:
  "bus_ok now s \<Longrightarrow> bus_hops s \<le> n \<Longrightarrow>
   \<exists>s'. bus_drain n s = Inr s' \<and> busPending s' = [] \<and> same_cable s s' \<and> total_out s' = total_out s"
proof (induction n arbitrary: s now)
  case 0
  have "busPending s = []"
  proof (cases "busPending s")
    case (Cons ev es)
    then have "0 < hops_left (numTaps s) ev" using 0(1) by (simp add: bus_ok_def hops_left_def)
    with 0(2) Cons show ?thesis by (simp add: bus_hops_def)
  qed
  then show ?case by (simp add: same_cable_def)
next
  case (Suc n)
  show ?case
  proof (cases "busPending s")
    case Nil
    then show ?thesis by (simp add: same_cable_def)
  next
    case (Cons e es)
    let ?ev = "earliest e es"
    obtain s1 where s1: "bus_handleMessage (ev_at ?ev) (BusSelf ?ev) (s\<lparr>busPending := remove1 ?ev (busPending s)\<rparr>) = Inr s1"
      "bus_ok (ev_at ?ev) s1" "same_cable s s1" "total_out s1 = total_out s" "bus_hops s1 < bus_hops s"
      using bus_self_step [OF Suc.prems(1), of ?ev] earliest [of e es] unfolding Cons by blast
    have "bus_hops s1 \<le> n" using s1(5) Suc.prems(2) by simp
    from Suc.IH [OF s1(2) this] s1(1,3,4) Cons show ?thesis by (auto simp: same_cable_def Let_def)
  qed
qed

section \<open>Property\<close>

text \<open>
  C26. Every frame reaches every other station on the cable, once, after the time the signal takes. Whatever
  frames stations put on the cable and in whatever order simultaneous events are handled: at every moment
  the frames sent out are among those the cable should deliver, that is, for a frame put on at tap \<open>i\<close> one
  copy at each connected tap \<open>j\<close> other than \<open>i\<close>, at the time of arrival plus the sum of the delays between
  neighbouring taps; and when the pending events are handled, which takes no more than \<open>bus_hops\<close> of them
  and raises no error, nothing is pending and exactly these frames have been sent. A new frame is accepted
  at every tap.
\<close>

theorem bus_delivers:
  assumes "bus_reach conv speed now as s" and "bus_regular_start conv speed"
  shows "mset (busOut s) \<subseteq># arrivals_out s as
    \<and> (\<exists>s'. bus_drain (bus_hops s) s = Inr s' \<and> busPending s' = [] \<and> mset (busOut s') = arrivals_out s as)
    \<and> (\<forall>i f. i < numTaps s \<longrightarrow> (\<exists>s'. bus_handleMessage now (BusFrame i f) s = Inr s'))"
proof -
  have ok: "bus_ok now s" and tot: "total_out s = arrivals_out s as" using bus_reach_ok [OF assms] by auto
  have "mset (busOut s) \<subseteq># arrivals_out s as" using tot unfolding total_out_def by (metis mset_subset_eq_add_left)
  moreover obtain s' where "bus_drain (bus_hops s) s = Inr s'" "busPending s' = []" "total_out s' = total_out s"
    using bus_drain_ok [OF ok order_refl] by blast
  moreover from this have "mset (busOut s') = arrivals_out s as" using tot by (simp add: total_out_def)
  moreover have "\<exists>s'. bus_handleMessage now (BusFrame i f) s = Inr s'" if "i < numTaps s" for i f
    using bus_frame_step [OF ok order_refl _ that, of f] ok by (auto simp: bus_ok_def)
  ultimately show ?thesis by blast
qed

text \<open>Three stations at 0, 10 and 30 metres, one tick per metre; the middle one sends at time 100.\<close>

lemma bus_delivers_witness:
  "\<exists>s s'. bus_handleMessage 100 (BusFrame 1 (7 :: nat))
        (projr (bus_initialize False (\<lambda>x. \<lfloor>x\<rfloor>) 1 [0, 10, 30] (replicate 3 \<lparr>pl_in = Some 10, pl_out = Some 10\<rparr>))) = Inr s
     \<and> bus_drain (bus_hops s) s = Inr s' \<and> mset (busOut s') = {#(110, 0, UPSTREAM, 7), (120, 2, DOWNSTREAM, 7)#}"
proof -
  let ?port = "\<lparr>pl_in = Some (10 :: real), pl_out = Some 10\<rparr>"
  let ?init = "bus_initialize False (\<lambda>x. \<lfloor>x\<rfloor>) 1 [0, 10, 30] (replicate 3 ?port) :: nat bus res"
  obtain s0 where s0: "?init = Inr s0" "busPending s0 = []" "busPorts s0 = [?port, ?port, ?port]"
    "taps s0 = [\<lparr>tap_position = 0, tap_up = 0, tap_down = 10\<rparr>, \<lparr>tap_position = 10, tap_up = 10, tap_down = 20\<rparr>,
       \<lparr>tap_position = 30, tap_up = 20, tap_down = 0\<rparr>]"
  proof -
    have order: "\<not> (\<exists>i \<in> set [0..<3 - 1]. bus_position [0, 10, 30] i > bus_position [0, 10, 30] (i + 1))"
      by (auto simp: less_2_cases_iff)
    have mk: "make_taps (\<lambda>x. \<lfloor>x\<rfloor>) 1 [0, 10, 30] 3 = [\<lparr>tap_position = 0, tap_up = 0, tap_down = 10\<rparr>,
        \<lparr>tap_position = 10, tap_up = 10, tap_down = 20\<rparr>, \<lparr>tap_position = 30, tap_up = 20, tap_down = 0\<rparr>]"
      by (simp add: make_taps_def bus_up_def bus_down_def upt_conv_Cons eval_nat_numeral)
    have ports: "replicate 3 ?port = [?port, ?port, ?port]" by (simp add: eval_nat_numeral)
    have chk: "check_ports True [?port, ?port, ?port] (0, 0, False) = Inr (3, 10, False)"
      by (simp add: check_port_def)
    show thesis
      by (rule that [of "\<lparr>taps = make_taps (\<lambda>x. \<lfloor>x\<rfloor>) 1 [0, 10, 30] 3, busPorts = [?port, ?port, ?port],
          busDataratesDiffer = False, busNumMessages = 0, busPending = [], busOut = []\<rparr>"])
        (use order in \<open>simp_all add: bus_initialize_def bus_checkConnections_def ports chk mk mk [unfolded numeral_3_eq_3] Let_def del: bus_position.simps check_ports.simps\<close>)
  qed
  have st: "bus_regular_start (\<lambda>x. \<lfloor>x\<rfloor>) 1" by (simp add: bus_regular_start_def)
  have r0: "bus_reach (\<lambda>x. \<lfloor>x\<rfloor>) 1 100 [] s0" by (rule bus_init [OF s0(1)])
  obtain s where s: "bus_handleMessage 100 (BusFrame 1 7) s0 = Inr s" "same_cable s0 s"
    using bus_frame_step [of 100 s0 100 1 7] bus_init_ok [OF s0(1) st, of 100] s0 by auto
  have "bus_reach (\<lambda>x. \<lfloor>x\<rfloor>) 1 100 ([] @ [(100, 1, 7)]) s"
    by (rule bus_frame [OF r0 order_refl _ _ s(1)]) (simp_all add: s0)
  from bus_delivers [OF this st] obtain s' where s': "bus_drain (bus_hops s) s = Inr s'"
    "mset (busOut s') = arrivals_out s [(100, 1, 7)]" by auto
  have "arrivals_out s [(100, 1, 7)] = {#(110, 0, UPSTREAM, 7), (120, 2, DOWNSTREAM, 7)#}"
  proof -
    have t: "taps s = taps s0" "busPorts s = busPorts s0" using s(2) by (simp_all add: same_cable_def)
    have d: "cable_delay (taps s0) 1 0 = 10" "cable_delay (taps s0) 1 2 = 20"
      by (simp_all add: cable_delay_def s0(4))
    have u: "[0..<1] = [0 :: nat]" "[Suc 1..<length (taps s)] = [2]" by (simp_all add: t s0(4) upt_conv_Cons)
    have "arrivals_out s [(100, 1, 7)] = frame_out s 100 1 7" by (simp add: arrivals_out_def)
    then show ?thesis unfolding frame_out_def cable_out_def u by (simp add: t d [simplified] d(2) [simplified numeral_2_eq_2 One_nat_def] s0(3) numeral_2_eq_2)
  qed
  with s(1) s' s0(1) show ?thesis by auto
qed

end
