(* ===== verification/Spec2Isabelle.thy ===== *)
theory Spec2Isabelle
  imports RSTPFailover TripChain MACRelayUnit MacPort EtherEncap EtherMACEquiv EtherMACBurst STPBehaviour Ieee8021dRelay STPNetwork
    EtherTrafGen NodeStatus EtherBus
begin

text \<open>
  A process bus of an IEC 61850 substation in OMNeT++: merging units publish sampled values (SV),
  protection IEDs supervise them and publish their alarm state by GOOSE, interlocking and command
  IEDs pass it on. The code under \<open>src/iec61850InetV2.6/inet/src\<close> is a copy of the INET framework
  with the modules of the process bus added. This development models the path a message takes:

    \<^item> \<open>Prelude\<close>: word types, simulation time, the error values that stand for exceptions, failed
      assertions and undefined behaviour, the sequencing \<open>bindR\<close> of fallible operations, C++
      conversions of doubles, \<open>std::map\<close> as a sorted association list (\<open>om_put\<close>, \<open>om_filter\<close>).
    \<^item> \<open>MACAddress\<close>: \<open>linklayer/contract/MACAddress\<close>, 48 bits in a 64 bit word.
    \<^item> \<open>EtherFrame\<close>: \<open>Ethernet.h\<close>, \<open>EtherFrame.msg\<close>, \<open>Ieee802Ctrl.msg\<close>: frames, their classes and lengths.
    \<^item> \<open>EtherEncap\<close>: \<open>EtherEncap.cc\<close> and \<open>EtherEncapExt.cc\<close>, between the applications and the MAC.
    \<^item> \<open>PassiveQueue\<close>: \<open>PassiveQueueBase\<close> with \<open>DropTailQueue\<close> and \<open>FIFOQueue\<close>.
    \<^item> \<open>Scheduler\<close>: \<open>SchedulerBase\<close> with \<open>PriorityScheduler\<close>, \<open>PrioritySchedulerEx\<close>, \<open>WRRScheduler\<close>.
    \<^item> \<open>Queue1q\<close>: \<open>EtherQueue1q.ned\<close>: \<open>Ether1qClassifier\<close>, eight drop tail queues and a priority
      scheduler as one machine whose steps are the deliveries of messages between them.
    \<^item> \<open>EtherMACBase\<close>: \<open>EtherMACBase\<close> and \<open>MACBase\<close>: the state of a MAC, its inner or external queue,
      channel parameters, life cycle, address filter. \<open>EtherMACFullDuplex\<close>: the handlers of the full duplex MAC
      and the invariant they keep. \<open>EtherMACRuns\<close>: reachable states and the properties of the MAC alone.
    \<^item> \<open>EtherMAC\<close>: the MAC with half duplex operation: CSMA/CD with jams, backoff, frame bursts and the
      reconnect state. \<open>EtherMACInv\<close>: its invariant and the proof that its timer handlers return;
      \<open>EtherMACHalfDuplex\<close>: runs and properties; \<open>EtherMACEquiv\<close>: in full duplex mode it sends what
      \<open>EtherMACFullDuplex\<close> sends; \<open>EtherMACBurst\<close>: a run with bursts that fails.
    \<^item> \<open>MacPort\<close>: a MAC and the queue behind it, a drop tail queue or the 802.1Q queue.
    \<^item> \<open>MACAddressTable\<close>, \<open>MACRelayUnit\<close>: the switch.
    \<^item> \<open>Ieee8021d\<close>: what the spanning tree modules share: \<open>Ieee8021dInterfaceData\<close>, \<open>Ieee8021dBPDU.msg\<close> and the
      comparisons of ports, shown to be the lexicographic order of priority vectors. \<open>STP\<close>: \<open>stp/STP\<close> with
      \<open>STPBase\<close>; \<open>STPInv\<close>: the invariant its handlers keep; \<open>STPRuns\<close>: reachable states; \<open>STPBehaviour\<close>: the
      properties of one bridge; \<open>STPNetwork\<close>: bridges joined by links, and the tree they settle to.
    \<^item> \<open>RSTP\<close>: \<open>rstp/RSTP\<close> with \<open>STPBase\<close>, the rapid protocol, on the port data of \<open>Ieee8021d\<close> and the address
      table of \<open>MACAddressTable\<close>. \<open>RSTPInv\<close>: the comparisons as an order of signed vectors and the invariant of roles
      and timer; \<open>RSTPSafe\<close>: every handler returns and keeps it; \<open>RSTPFrames\<close>: what handlers leave alone;
      \<open>RSTPRuns\<close>: reachable states, in which timers are never late, BPDUs come from other bridges through existing
      ports that are not edge ports, carriers change only while the module is up, and only a module that is down is
      started; \<open>RSTPBehaviour\<close>: no error, and how the roles fit together; \<open>RSTPStartup\<close>: the time until ports
      forward; \<open>RSTPFailover\<close>: what takes the place of a lost root port.
    \<^item> \<open>Ieee8021dRelay\<close>: the switch fabric that obeys the states of the ports and carries the BPDUs.
    \<^item> \<open>NodeOperation\<close>: the stages of node start, shutdown and crash. \<open>LifecycleController\<close>: the module that
      takes a node through them; \<open>NodeStatus\<close>: the status of a node, and a host that is restarted.
    \<^item> \<open>EtherLLC\<close>: the LLC sublayer. \<open>EtherApps\<close>: \<open>EtherAppCli\<close> and \<open>EtherAppSrv\<close> and an exchange between them
      over two LLC modules. \<open>EtherTrafGen\<close>: the generator of background traffic.
    \<^item> \<open>EtherHub\<close>, \<open>EtherBus\<close>: the passive network devices of classic Ethernet, with an ideal cable that the bus
      is shown to implement.
    \<^item> \<open>AppTimer\<close>, \<open>GooseData\<close>, \<open>EtherAppGoose\<close>, \<open>EtherAppSv\<close>: the two applications.
    \<^item> \<open>TripChain\<close>: the protection chain, from the sampled values at a protection IED over an
      interlocking IED to a command IED.

  State and operations. A module is a record; each handler is a function from the record (and the
  simulation time, the parameters, the message) to \<open>Inr\<close> of the new record or \<open>Inl\<close> of an error. What
  a module sends is appended to a list in its record. Pointers to shared objects that the code
  aliases (the address tables) are addresses of a heap in the record. Parameters of the NED files
  and functions of the simulation kernel that depend on its configuration (conversion of a double to
  a time of limited resolution, modules found by path) are arguments.

  Runs. Where handlers interact over time there is a type of events, a function that executes one,
  and an inductive predicate for the states reachable by enabled events (\<open>q1q_reach\<close>,
  \<open>mac_reach\<close>, \<open>em_reach\<close>, \<open>port_reach\<close>, \<open>relay_reach\<close>, \<open>drelay_reach\<close>, \<open>stp_reach\<close>, \<open>rstp_reach\<close>, \<open>goose_reach\<close>, \<open>sv_reach\<close>,
  \<open>tg_reach\<close>, \<open>lc_reach\<close>, \<open>hub_reach\<close>, \<open>bus_reach\<close>); invariants are proved for each handler and lifted by rule
  induction. Interfaces are locales: \<open>passive_queue\<close> (what a queue class promises to
  \<open>PassiveQueueBase\<close>), \<open>ipassive_queue\<close> (what a queue promises to a scheduler and to the loop that empties it),
  \<open>packet_source\<close> (what a MAC relies on: each request is answered once), \<open>address_table\<close> (what
  the relay unit relies on), \<open>alarm_module\<close> (what the subscriber of sampled values relies on) and
  \<open>immediate_handler\<close> (modules that need no time for a stage of an operation); all
  are interpreted on the models of the code.

  Loops and bounds. Every loop of the code is structural recursion here or recursion with a measure (\<open>srv_reply\<close>,
  \<open>hub_broadcast\<close>, \<open>resumeOperation\<close>), with three exceptions:
  \<open>flush_ext\<close> (the loop of \<open>EtherMACBase::flushQueue\<close> over an external queue) and \<open>drain\<close> (the loop of \<open>PassiveQueueBase::clear\<close>) are partial functions shown to end for every queue
  that keeps the contract, and \<open>read_lines\<close> ends because each line read is consumed. \<open>bus_drain\<close> handles the pending
  events of a bus with \<open>bus_hops\<close> as fuel, the number of taps that fronts of frames have still to pass, which
  each event makes smaller.

  Counters. The statistics counters of the MAC are integers here; in the code they are \<open>unsigned long\<close>.

  Not modelled: drawing and terminal output, statistics signals, the simulation kernel (messages are
  delivered in the order of their times, self messages once, parameters are read as documented),
  and the internet, transport and wireless parts of INET, which the process bus does not use. That a network of bridges settles, as \<open>STPNetwork\<close>
  assumes, is not proved: what is proved is what it has settled to.
\<close>

section \<open>From the application to the wire\<close>

lemma encap_1q_frame:
  assumes "pk_ctrl msg = Some c" and "ctl_etherType c = ETHERTYPE_802_1_Q" and "pk_byteLength msg \<le> 1500"
  obtains f where
    "processPacketFromHigherLayer s msg =
       Inr (s\<lparr>totalFromHigherLayer := totalFromHigherLayer s + 1, lowerOut := lowerOut s @ [f]\<rparr>)"
    "fr_encap f = Some (msg\<lparr>pk_ctrl := None\<rparr>)" "ctrl_of_frame f = delivered_ctrl c"
    "fr_byteLength f = max 64 (22 + pk_byteLength msg)" "\<not> isPauseFrame f" "fr_dest f = ctl_dest c"
    "fr_src f = ctl_src c" "\<not> fr_bitError f"
proof -
  have l: "pk_byteLength msg \<le> MAX_ETHERNET_DATA_BYTES" using assms(3) by (simp add: ether_sizes)
  obtain f where f: "processPacketFromHigherLayer s msg =
       Inr (s\<lparr>totalFromHigherLayer := totalFromHigherLayer s + 1, lowerOut := lowerOut s @ [f]\<rparr>)"
    "fr_encap f = Some (msg\<lparr>pk_ctrl := None\<rparr>)"
    "\<And>n. ctrl_of_frame (f\<lparr>fr_byteLength := n, fr_encap := None\<rparr>) = delivered_ctrl c"
    "fr_byteLength f = max 64 (encap_header (useSNAP s) c + pk_byteLength msg)" "\<not> isPauseFrame f"
    by (rule processPacket_Inr [OF assms(1) l, of s]) blast
  have c: "ctrl_of_frame f = delivered_ctrl c" using f(3) [of 0] by (simp add: ctrl_of_frame_def)
  have a: "ctl_dest (ctrl_of_frame f) = fr_dest f" "ctl_src (ctrl_of_frame f) = fr_src f"
    by (simp_all add: ctrl_of_frame_def Let_def split: frame_class.split)
  have "fr_dest f = ctl_dest c" "fr_src f = ctl_src c"
    unfolding a [symmetric] c by (simp_all add: delivered_ctrl_def Let_def)
  moreover have "f = last (lowerOut (projr (processPacketFromHigherLayer s msg)))" using f(1) by simp
  then have "\<not> fr_bitError f"
    using assms l by (simp add: processPacketFromHigherLayer_def Let_def new_frame_def encapsulate_def pad_frame_def)
  ultimately show ?thesis using that [of f] f assms(2) c by (simp add: encap_header_def)
qed

definition goose_ctrl :: Ieee802Ctrl where
  "goose_ctrl = new_Ieee802Ctrl\<lparr>ctl_dest := 1154490630145, ctl_etherType := ETHERTYPE_802_1_Q, ctl_ppc := 4,
     ctl_apptype := ETHERTYPE_GOOSE\<rparr>"

definition goose_msg :: "int \<Rightarrow> unit cPacket" where
  "goose_msg n = \<lparr>pk_kind = 2003, pk_byteLength = n, pk_ctrl = Some goose_ctrl, pk_data = ()\<rparr>"

text \<open>
  The limits of the encapsulation and of the MAC do not agree: the encapsulation accepts a payload of 1497 to
  1500 bytes under an 802.1Q tag, and the MAC answers the frame it makes of it with an error that
  ends the simulation.
\<close>

theorem payload_beyond_mac_limit:
  assumes "pk_ctrl msg = Some c" and "ctl_etherType c = ETHERTYPE_802_1_Q"
    and "1496 < pk_byteLength msg" and "pk_byteLength msg \<le> 1500"
    and "mOperational m" and "\<not> mChannelsDiffer m" and "ctl_dest c \<noteq> mAddress m"
  shows "\<exists>f. processPacketFromHigherLayer s msg =
           Inr (s\<lparr>totalFromHigherLayer := totalFromHigherLayer s + 1, lowerOut := lowerOut s @ [f]\<rparr>)
         \<and> mac_handleMessage ops par ph now (FromUpperLayer f) m
           = Inl (RuntimeError ''packet from higher layer exceeds maximum Ethernet frame size'')"
proof -
  obtain f where f:
    "processPacketFromHigherLayer s msg =
       Inr (s\<lparr>totalFromHigherLayer := totalFromHigherLayer s + 1, lowerOut := lowerOut s @ [f]\<rparr>)"
    "fr_byteLength f = max 64 (22 + pk_byteLength msg)" "fr_dest f = ctl_dest c"
    by (rule encap_1q_frame [OF assms(1,2,4), of s]) blast
  have "pad_frame f = f" using f(2) by (simp add: pad_frame_def MIN_ETHERNET_FRAME_BYTES_def)
  then show ?thesis
    using f assms(3,5-7)
    by (intro exI [of _ f]) (simp add: mac_handleMessage_def processFrameFromUpperLayer_def MAX_ETHERNET_FRAME_BYTES_def)
qed

lemma payload_beyond_mac_limit_witness:
  "\<exists>f. processPacketFromHigherLayer (encap_initialize False) (goose_msg 1500) =
      Inr ((encap_initialize False)\<lparr>totalFromHigherLayer := 1, lowerOut := [f]\<rparr>)
    \<and> w_step 0 (FromUpperLayer f) w0 = Inl (RuntimeError ''packet from higher layer exceeds maximum Ethernet frame size'')"
  using payload_beyond_mac_limit [of "goose_msg 1500" goose_ctrl w0 "encap_initialize False" dtq_ops "w_par None" w_phys 0]
  by (simp add: goose_msg_def goose_ctrl_def encap_initialize_def w0_def mac_new_def)

text \<open>
  C6. A GOOSE packet of at most 1496 bytes goes from one device to another: the encapsulation makes a frame of it,
  an idle MAC puts it on the wire at once, a MAC that subscribes to the group address passes it
  up, and the encapsulation there delivers the same payload at the GOOSE gate, with the sender's control
  information and its address filled in where it was missing.
\<close>

theorem goose_end_to_end:
  assumes "pk_ctrl msg = Some c" and "ctl_etherType c = ETHERTYPE_802_1_Q" and "ctl_apptype c = ETHERTYPE_GOOSE"
    and "0 \<le> pk_byteLength msg" and "pk_byteLength msg \<le> 1496"
    and "link_up a" and "mTransmitState a = TX_IDLE_STATE" and "mCurTxFrame a = None" and "mTxQueue a = Ext q"
    and "\<not> armed (mEndTx a)" and "mChannel a = Some ch" and "0 \<le> ch_datarate ch" and "frameMinBytes (mDescr a) \<le> 64"
    and "durations_ok par" and "ctl_dest c \<noteq> mAddress a"
    and "link_up b" and "isMulticast (ctl_dest c)" and "ctl_dest c \<in> set (mSubs b)"
  shows "\<exists>f a' w b' g.
      processPacketFromHigherLayer s msg =
        Inr (s\<lparr>totalFromHigherLayer := totalFromHigherLayer s + 1, lowerOut := lowerOut s @ [f]\<rparr>)
    \<and> mac_handleMessage ops par ph now (FromUpperLayer f) a = Inr a' \<and> mPhysOut a' = mPhysOut a @ [w]
    \<and> mac_handleMessage ops2 par2 ph2 later (FromNetwork (EtherFrameMsg w) d) b = Inr b'
    \<and> mUpperOut b' = mUpperOut b @ [g]
    \<and> ext_processFrameFromMAC r g =
        Inr (r\<lparr>totalFromMAC := totalFromMAC r + 1, upperOut := upperOut r @
          [msg\<lparr>pk_ctrl := Some ((delivered_ctrl c)\<lparr>ctl_src := if isUnspecified (ctl_src c) then mAddress a else ctl_src c\<rparr>)\<rparr>]\<rparr>)"
proof -
  have l: "pk_byteLength msg \<le> 1500" using assms(5) by simp
  obtain f where f:
    "processPacketFromHigherLayer s msg =
       Inr (s\<lparr>totalFromHigherLayer := totalFromHigherLayer s + 1, lowerOut := lowerOut s @ [f]\<rparr>)"
    "fr_encap f = Some (msg\<lparr>pk_ctrl := None\<rparr>)" "ctrl_of_frame f = delivered_ctrl c"
    "fr_byteLength f = max 64 (22 + pk_byteLength msg)" "\<not> isPauseFrame f" "fr_dest f = ctl_dest c"
    "fr_src f = ctl_src c" "\<not> fr_bitError f"
    by (rule encap_1q_frame [OF assms(1,2) l, of s])
  define src where "src = (if isUnspecified (ctl_src c) then mAddress a else ctl_src c)"
  have p: "pad_frame f = f" using f(4) by (simp add: pad_frame_def MIN_ETHERNET_FRAME_BYTES_def)
  have fit: "frame_fits (own_src a f)" using f(4) assms(4,5) by (simp add: frame_fits_def own_src_def)
  define u where "u = count_in numFramesFromHL_update 1 a\<lparr>mCurTxFrame := Some (own_src a f)\<rparr>"
  define w where "w = wire_frame u (own_src a f)"
  obtain e where e: "startFrameTransmission par now u =
      Inr (u\<lparr>mPhysOut := mPhysOut u @ [w], mEndTx := e, mTransmitState := TRANSMITTING_STATE\<rparr>)"
    using startFrameTransmission_returns [of par u "own_src a f" ch now] fit assms(10-14)
    by (auto simp: u_def w_def descr_inv_def)
  have a': "mac_handleMessage ops par ph now (FromUpperLayer f) a =
      Inr (u\<lparr>mPhysOut := mPhysOut u @ [w], mEndTx := e, mTransmitState := TRANSMITTING_STATE\<rparr>)"
    using assms(6-9,15) p f(4-6) e assms(5)
    by (simp add: mac_handleMessage_def link_up_def processFrameFromUpperLayer_Inr store_frame_def
        MAX_ETHERNET_FRAME_BYTES_def u_def)
  have w: "\<not> fr_bitError w" "\<not> isPauseFrame w" "fr_dest w = ctl_dest c" "fr_src w = src"
      "fr_encap w = Some (msg\<lparr>pk_ctrl := None\<rparr>)" "fr_class w = fr_class f"
    using f by (simp_all add: w_def wire_frame_def own_src_def src_def u_def Let_def)
  define g where "g = w\<lparr>fr_byteLength := fr_byteLength w - 8\<rparr>"
  have "accepts b w" using assms(17,18) w(3) by (simp add: accepts_def)
  then obtain b' where b': "processMsgFromNetwork par2 later (EtherFrameMsg w) d b = Inr b'" "mUpperOut b' = mUpperOut b @ [g]"
    using processMsgFromNetwork_data [of b w par2 later d] assms(16) w(1,2) by (auto simp: link_up_def g_def)
  then have b'': "mac_handleMessage ops2 par2 ph2 later (FromNetwork (EtherFrameMsg w) d) b = Inr b'"
    using assms(16) by (simp add: mac_handleMessage_def link_up_def)
  have cg: "ctrl_of_frame (g\<lparr>fr_byteLength := n, fr_encap := None\<rparr>) = (delivered_ctrl c)\<lparr>ctl_src := src\<rparr>" for n
    unfolding f(3) [symmetric] using w by (simp add: ctrl_of_frame_def g_def f Let_def split: frame_class.split)
  have "ext_processFrameFromMAC r g = Inr (r\<lparr>totalFromMAC := totalFromMAC r + 1,
      upperOut := upperOut r @ [msg\<lparr>pk_ctrl := Some ((delivered_ctrl c)\<lparr>ctl_src := src\<rparr>)\<rparr>]\<rparr>)"
    using assms(2,3) cg w(5)
    by (simp add: ext_processFrameFromMAC_def decapsulate_def g_def delivered_ctrl_def Let_def)
  then show ?thesis
    using f(1) a' b'' b'(2) by (intro exI conjI) (auto simp: src_def u_def)
qed

lemma goose_end_to_end_witness:
  "\<exists>f a' w b' g.
      processPacketFromHigherLayer (encap_initialize False) (goose_msg 119) =
        Inr ((encap_initialize False)\<lparr>totalFromHigherLayer := totalFromHigherLayer (encap_initialize False :: unit encap) + 1,
          lowerOut := lowerOut (encap_initialize False) @ [f]\<rparr>)
    \<and> mac_handleMessage dtq_ops (w_par (Some d0)) w_phys 0 (FromUpperLayer f) port0 = Inr a'
    \<and> mPhysOut a' = mPhysOut port0 @ [w]
    \<and> w_step 9 (FromNetwork (EtherFrameMsg w) 9) w0 = Inr b' \<and> mUpperOut b' = mUpperOut w0 @ [g]
    \<and> ext_processFrameFromMAC (encap_initialize False) g =
        Inr ((encap_initialize False)\<lparr>totalFromMAC := totalFromMAC (encap_initialize False :: unit encap) + 1,
          upperOut := upperOut (encap_initialize False) @ [(goose_msg 119)\<lparr>pk_ctrl := Some ((delivered_ctrl goose_ctrl)
            \<lparr>ctl_src := if isUnspecified (ctl_src goose_ctrl) then mAddress port0 else ctl_src goose_ctrl\<rparr>)\<rparr>]\<rparr>)"
proof (rule goose_end_to_end)
  show "link_up port0" "link_up w0" by (simp_all add: link_up_def port0_def w0_def mac_new_def)
  show "durations_ok (w_par (Some d0))" by (rule w_durations)
  show "mTxQueue port0 = Ext (d0\<lparr>packetRequested := 1\<rparr>)" by (simp add: port0_def)
  show "mChannel port0 = Some \<lparr>ch_datarate = 100000000, ch_disabled = False\<rparr>"
    by (simp add: port0_def w0_def mac_new_def w_phys_def)
qed (simp_all add: goose_msg_def goose_ctrl_def port0_def w0_def mac_new_def isMulticast_bit bit_simps)

end
